(* ===== verification/Prelude.thy ===== *)
theory Prelude
  imports Complex_Main "HOL-Library.Word" "HOL-Library.Char_ord" "HOL-Library.List_Lexorder"
    "HOL-Library.Product_Lexorder" "HOL-Library.Sublist"
begin

text \<open>
  Shared vocabulary of the development.

  \<^item> Rust's \<open>Result<T, E>\<close> is the sum \<open>'e + 'a\<close>, with the abbreviations \<open>Ok\<close> and \<open>Err\<close>.
  \<^item> Rust strings are the byte lists \<open>string\<close>; the functions of \<open>str\<close> that the source calls
    (\<open>split\<close>, \<open>split_once\<close>, \<open>split_whitespace\<close>, \<open>strip_prefix\<close>, \<open>parse\<close>, ...) are defined on
    them once, here. White space is the ASCII white space of \<open>char::is_whitespace\<close>.
  \<^item> \<open>f64\<close> is a datatype of the finite and special values. Only the conversions and
    comparisons of the language are defined; the rounded operations (\<open>*\<close>, \<open>/\<close>, \<open>-\<close>, \<open>+\<close>, \<open>powi\<close>,
    \<open>as f64\<close>) come as a record of functions, because Rust leaves \<open>powi\<close> unspecified
    and the theorems hold for any rounding.
  \<^item> Machine integers are \<open>nat\<close> or \<open>int\<close> with the bounds of their width written out where the
    code can leave them.
\<close>

section \<open>Automation\<close>

named_theorems str_simps \<open>equations of the string functions\<close>
named_theorems store_simps \<open>effects of database statements on the tables\<close>
named_theorems inv_intros \<open>preservation of invariants by operations\<close>

section \<open>Results\<close>

type_synonym ('a, 'e) result = "'e + 'a"

abbreviation Ok :: "'a \<Rightarrow> 'e + 'a" where "Ok \<equiv> Inr"
abbreviation Err :: "'e \<Rightarrow> 'e + 'a" where "Err \<equiv> Inl"

fun is_ok :: "'e + 'a \<Rightarrow> bool" where
  "is_ok (Inl _) = False"
| "is_ok (Inr _) = True"

text \<open>\<open>?\<close>: propagate the error, continue with the value.\<close>

fun and_then :: "'e + 'a \<Rightarrow> ('a \<Rightarrow> 'e + 'b) \<Rightarrow> 'e + 'b" where
  "and_then (Inl e) f = Inl e"
| "and_then (Inr x) f = f x"

lemma and_then_Inr [simp]: "and_then r f = Inr y \<longleftrightarrow> (\<exists>x. r = Inr x \<and> f x = Inr y)"
  by (cases r) auto

text \<open>Collecting an iterator of results into a result of a vector: the first error wins.\<close>

fun collect_results :: "('e + 'a) list \<Rightarrow> 'e + 'a list" where
  "collect_results [] = Inr []"
| "collect_results (r # rs) = and_then r (\<lambda>x. and_then (collect_results rs) (\<lambda>xs. Inr (x # xs)))"

lemma collect_results_Inr:
  "collect_results rs = Inr xs \<longleftrightarrow> rs = map Inr xs"
  by (induction rs arbitrary: xs) (auto simp: map_eq_Cons_conv)

lemma collect_results_map:
  "collect_results (map f xs) = Inr ys \<Longrightarrow> length ys = length xs \<and> (\<forall>y \<in> set ys. \<exists>x \<in> set xs. f x = Inr y)"
proof (induction xs arbitrary: ys)
  case (Cons a xs)
  then obtain x zs where "f a = Inr x" and "collect_results (map f xs) = Inr zs" and "ys = x # zs"
    by auto
  with Cons.IH show ?case by fastforce
qed auto

text \<open>
  Operations on the outside world (command line tools, the file system): functions of its state. A
  theorem can then say that an operation touched nothing.
\<close>

type_synonym ('w, 'e, 'a) io = "'w \<Rightarrow> ('e + 'a) \<times> 'w"

definition io_ret :: "'a \<Rightarrow> ('w, 'e, 'a) io" where
  "io_ret x w = (Ok x, w)"

definition io_err :: "'e \<Rightarrow> ('w, 'e, 'a) io" where
  "io_err e w = (Err e, w)"

definition io_bind :: "('w, 'e, 'a) io \<Rightarrow> ('a \<Rightarrow> ('w, 'e, 'b) io) \<Rightarrow> ('w, 'e, 'b) io" where
  "io_bind m f w = (case m w of (Inl e, w') \<Rightarrow> (Inl e, w') | (Inr x, w') \<Rightarrow> f x w')"

definition io_lift :: "'e + 'a \<Rightarrow> ('w, 'e, 'a) io" where
  "io_lift r w = (r, w)"

lemma io_lift_bind [simp]: "io_bind (io_lift (Inl e)) f w = (Inl e, w)" "io_bind (io_lift (Inr x)) f w = f x w"
  by (simp_all add: io_bind_def io_lift_def)

lemma io_bind_Inr: "io_bind m f w = (Inr y, w') \<longleftrightarrow> (\<exists>x w1. m w = (Inr x, w1) \<and> f x w1 = (Inr y, w'))"
  by (auto simp: io_bind_def split: prod.split sum.split)

text \<open>A path is absolute when it starts at the root (\<open>Path::is_absolute\<close>).\<close>

definition is_absolute :: "string \<Rightarrow> bool" where
  "is_absolute p \<longleftrightarrow> prefix ''/'' p"

section \<open>Lists and options\<close>

definition opt_default :: "'a \<Rightarrow> 'a option \<Rightarrow> 'a" where
  "opt_default d o' = (case o' of None \<Rightarrow> d | Some x \<Rightarrow> x)"

lemma opt_default_simps [simp]: "opt_default d None = d" "opt_default d (Some x) = x"
  by (simp_all add: opt_default_def)

text \<open>SQL's \<open>COALESCE(a, b)\<close> and Rust's \<open>or\<close>.\<close>

definition coalesce :: "'a option \<Rightarrow> 'a option \<Rightarrow> 'a option" where
  "coalesce a b = (case a of None \<Rightarrow> b | Some _ \<Rightarrow> a)"

lemma coalesce_simps [simp]:
  "coalesce None b = b" "coalesce (Some x) b = Some x" "coalesce a None = a"
  by (auto simp: coalesce_def split: option.splits)

definition head_opt :: "'a list \<Rightarrow> 'a option" where
  "head_opt xs = (case xs of [] \<Rightarrow> None | x # _ \<Rightarrow> Some x)"

lemma head_opt_simps [simp]: "head_opt [] = None" "head_opt (x # xs) = Some x"
  by (simp_all add: head_opt_def)

lemma head_opt_eq_None [simp]: "head_opt xs = None \<longleftrightarrow> xs = []"
  by (cases xs) auto

lemma head_opt_SomeD: "head_opt xs = Some x \<Longrightarrow> x \<in> set xs"
  by (cases xs) auto

fun filter_map :: "('a \<Rightarrow> 'b option) \<Rightarrow> 'a list \<Rightarrow> 'b list" where
  "filter_map f [] = []"
| "filter_map f (x # xs) = (case f x of None \<Rightarrow> filter_map f xs | Some y \<Rightarrow> y # filter_map f xs)"

lemma set_filter_map: "set (filter_map f xs) = {y. \<exists>x \<in> set xs. f x = Some y}"
  by (induction xs) (auto split: option.splits)

text \<open>A list function that edits the elements satisfying a test and keeps the others.\<close>

definition update_where :: "('a \<Rightarrow> bool) \<Rightarrow> ('a \<Rightarrow> 'a) \<Rightarrow> 'a list \<Rightarrow> 'a list" where
  "update_where p f xs = map (\<lambda>x. if p x then f x else x) xs"

definition count_where :: "('a \<Rightarrow> bool) \<Rightarrow> 'a list \<Rightarrow> nat" where
  "count_where p xs = length (filter p xs)"

lemma count_where_0 [simp]: "count_where p xs = 0 \<longleftrightarrow> (\<forall>x \<in> set xs. \<not> p x)"
  by (auto simp: count_where_def filter_empty_conv)

lemma count_where_pos: "0 < count_where p xs \<longleftrightarrow> (\<exists>x \<in> set xs. p x)"
  by (auto simp: count_where_def filter_empty_conv simp flip: length_greater_0_conv)

lemma update_where_none: "(\<forall>x \<in> set xs. \<not> p x) \<Longrightarrow> update_where p f xs = xs"
  by (induction xs) (auto simp: update_where_def)

lemma set_update_where:
  "set (update_where p f xs) = {x \<in> set xs. \<not> p x} \<union> f ` {x \<in> set xs. p x}"
  by (auto simp: update_where_def)

lemma map_update_where:
  "(\<And>x. p x \<Longrightarrow> g (f x) = g x) \<Longrightarrow> map g (update_where p f xs) = map g xs"
  by (auto simp: update_where_def)

lemma length_update_where [simp]: "length (update_where p f xs) = length xs"
  by (simp add: update_where_def)

lemma find_append_Some: "find p xs = Some x \<Longrightarrow> find p (xs @ ys) = Some x"
  by (induction xs) (auto split: if_splits)

lemma sort_key_set [simp]: "set (sort_key k xs) = set xs"
  by simp

section \<open>Strings\<close>

definition is_ws :: "char \<Rightarrow> bool" where
  "is_ws c \<longleftrightarrow> c \<in> {CHR '' '', CHR 0x09, CHR 0x0A, CHR 0x0B, CHR 0x0C, CHR 0x0D}"

definition is_digit :: "char \<Rightarrow> bool" where
  "is_digit c \<longleftrightarrow> 48 \<le> (of_char c :: nat) \<and> (of_char c :: nat) \<le> 57"

definition digit_val :: "char \<Rightarrow> nat" where
  "digit_val c = (of_char c :: nat) - 48"

text \<open>\<open>str::split(c)\<close>: the pieces between the separators; a string without separator is one piece.\<close>

fun split_char :: "char \<Rightarrow> string \<Rightarrow> string list" where
  "split_char c [] = [[]]"
| "split_char c (x # xs) =
     (if x = c then [] # split_char c xs
      else (case split_char c xs of [] \<Rightarrow> [[x]] | p # ps \<Rightarrow> (x # p) # ps))"

text \<open>\<open>str::split_once(c)\<close>.\<close>

fun split_once :: "char \<Rightarrow> string \<Rightarrow> (string \<times> string) option" where
  "split_once c [] = None"
| "split_once c (x # xs) =
     (if x = c then Some ([], xs)
      else (case split_once c xs of None \<Rightarrow> None | Some (a, b) \<Rightarrow> Some (x # a, b)))"

text \<open>\<open>str::split_whitespace\<close>: the maximal runs of non-blank characters.\<close>

fun split_ws_aux :: "string \<Rightarrow> string \<Rightarrow> string list" where
  "split_ws_aux acc [] = (if acc = [] then [] else [rev acc])"
| "split_ws_aux acc (x # xs) =
     (if is_ws x then (if acc = [] then split_ws_aux [] xs else rev acc # split_ws_aux [] xs)
      else split_ws_aux (x # acc) xs)"

definition split_whitespace :: "string \<Rightarrow> string list" where
  "split_whitespace s = split_ws_aux [] s"

definition strip_prefix :: "string \<Rightarrow> string \<Rightarrow> string option" where
  "strip_prefix p s = (if prefix p s then Some (drop (length p) s) else None)"

definition trim :: "string \<Rightarrow> string" where
  "trim s = rev (dropWhile is_ws (rev (dropWhile is_ws s)))"

definition to_lower :: "char \<Rightarrow> char" where
  "to_lower c = (if 65 \<le> (of_char c :: nat) \<and> (of_char c :: nat) \<le> 90
                 then char_of ((of_char c :: nat) + 32) else c)"

definition to_ascii_lowercase :: "string \<Rightarrow> string" where
  "to_ascii_lowercase s = map to_lower s"

text \<open>\<open>str::find(pat)\<close> and \<open>str::contains(pat)\<close>: the first byte position of a substring.\<close>

fun find_str :: "string \<Rightarrow> string \<Rightarrow> nat option" where
  "find_str p [] = (if p = [] then Some 0 else None)"
| "find_str p (x # xs) = (if prefix p (x # xs) then Some 0 else map_option Suc (find_str p xs))"

definition contains_str :: "string \<Rightarrow> string \<Rightarrow> bool" where
  "contains_str p s \<longleftrightarrow> find_str p s \<noteq> None"

text \<open>Joining with a separator.\<close>

fun join_with :: "string \<Rightarrow> string list \<Rightarrow> string" where
  "join_with sep [] = []"
| "join_with sep [x] = x"
| "join_with sep (x # y # ys) = x @ sep @ join_with sep (y # ys)"

text \<open>
  \<open>str::lines\<close>: the pieces between newlines, without the empty piece after a final newline and
  without a carriage return at the end of a piece that a newline ends.
\<close>

definition strip_cr :: "string \<Rightarrow> string" where
  "strip_cr s = (if s \<noteq> [] \<and> last s = CHR 0x0D then butlast s else s)"

definition str_lines :: "string \<Rightarrow> string list" where
  "str_lines s = (let ps = split_char (CHR 0x0A) s in
     map strip_cr (butlast ps) @ (if last ps = [] then [] else [last ps]))"

text \<open>
  \<open>str::parse\<close> of the unsigned types: an optional plus sign, at least one digit, no overflow. The
  bound is the largest value of the type.
\<close>

definition digits_val :: "string \<Rightarrow> nat" where
  "digits_val ds = foldl (\<lambda>n d. 10 * n + digit_val d) 0 ds"

definition parse_digits :: "string \<Rightarrow> nat option" where
  "parse_digits ds = (if ds \<noteq> [] \<and> list_all is_digit ds then Some (digits_val ds) else None)"

definition parse_unsigned :: "nat \<Rightarrow> string \<Rightarrow> nat option" where
  "parse_unsigned mx s =
     (let body = (case s of c # r \<Rightarrow> if c = CHR ''+'' then r else s | [] \<Rightarrow> s)
      in case parse_digits body of
           None \<Rightarrow> None
         | Some n \<Rightarrow> if n \<le> mx then Some n else None)"

definition u8_max :: nat where "u8_max = 255"
definition u32_max :: nat where "u32_max = 2 ^ 32 - 1"
definition u64_max :: nat where "u64_max = 2 ^ 64 - 1"
definition i64_max :: int where "i64_max = 2 ^ 63 - 1"
definition i64_min :: int where "i64_min = - (2 ^ 63)"

text \<open>\<open>str::parse::<i64>\<close>.\<close>

definition parse_i64 :: "string \<Rightarrow> int option" where
  "parse_i64 s =
     (case s of
        c # r \<Rightarrow>
          (if c = CHR ''-'' then
             (case parse_digits r of
                None \<Rightarrow> None
              | Some n \<Rightarrow> if int n \<le> 2 ^ 63 then Some (- int n) else None)
           else (case parse_unsigned (2 ^ 63 - 1) s of None \<Rightarrow> None | Some n \<Rightarrow> Some (int n)))
      | [] \<Rightarrow> None)"

text \<open>Decimal output of a number.\<close>

fun show_nat :: "nat \<Rightarrow> string" where
  "show_nat n = (if n < 10 then [char_of (n + 48)] else show_nat (n div 10) @ [char_of (n mod 10 + 48)])"

declare show_nat.simps [simp del]

definition show_int :: "int \<Rightarrow> string" where
  "show_int i = (if i < 0 then CHR ''-'' # show_nat (nat (- i)) else show_nat (nat i))"

subsection \<open>Facts about the string functions\<close>

lemma split_char_nonempty [simp]: "split_char c s \<noteq> []"
  by (cases s) (auto split: list.splits)

lemma split_char_no_sep: "c \<notin> set s \<Longrightarrow> split_char c s = [s]"
  by (induction s) auto

lemma split_char_pieces: "p \<in> set (split_char c s) \<Longrightarrow> c \<notin> set p"
proof (induction s arbitrary: p)
  case (Cons x xs)
  then show ?case by (cases "split_char c xs") (auto split: if_splits)
qed auto

lemma split_once_SomeD:
  "split_once c s = Some (a, b) \<Longrightarrow> s = a @ c # b \<and> c \<notin> set a"
  by (induction s arbitrary: a b) (auto split: if_splits option.splits)

lemma split_once_None: "split_once c s = None \<longleftrightarrow> c \<notin> set s"
  by (induction s) (auto split: option.splits)

lemma split_once_append: "c \<notin> set a \<Longrightarrow> split_once c (a @ c # b) = Some (a, b)"
  by (induction a) auto

lemma strip_prefix_Some [simp]: "strip_prefix p s = Some r \<longleftrightarrow> s = p @ r"
  by (auto simp: strip_prefix_def prefix_def)

lemma strip_prefix_None [simp]: "strip_prefix p s = None \<longleftrightarrow> \<not> prefix p s"
  by (auto simp: strip_prefix_def)

lemma find_str_SomeD: "find_str p s = Some i \<Longrightarrow> i + length p \<le> length s \<and> prefix p (drop i s)"
proof (induction s arbitrary: i)
  case (Cons x xs)
  then show ?case using prefix_length_le [of p "x # xs"] by (auto split: if_splits)
qed (auto split: if_splits)

lemma contains_char: "contains_str [c] s \<longleftrightarrow> c \<in> set s"
  unfolding contains_str_def by (induction s) auto

lemma of_char_char_of_digit: "d < 10 \<Longrightarrow> (of_char (char_of (d + 48 :: nat)) :: nat) = d + 48"
  by simp

lemma is_digit_show [simp]: "d < 10 \<Longrightarrow> is_digit (char_of (d + 48 :: nat))"
  by (simp add: is_digit_def)

lemma digit_val_show [simp]: "d < 10 \<Longrightarrow> digit_val (char_of (d + 48 :: nat)) = d"
  by (simp add: digit_val_def)

lemma show_nat_digits: "list_all is_digit (show_nat n) \<and> show_nat n \<noteq> []"
proof (induction n rule: show_nat.induct)
  case (1 n)
  then show ?case by (subst (1 2) show_nat.simps) auto
qed

lemma digits_val_snoc: "digits_val (ds @ [d]) = 10 * digits_val ds + digit_val d"
  by (simp add: digits_val_def)

lemma digits_val_show_nat: "digits_val (show_nat n) = n"
proof (induction n rule: show_nat.induct)
  case (1 n)
  show ?case
  proof (cases "n < 10")
    case True
    then show ?thesis by (subst show_nat.simps) (simp add: digits_val_def)
  next
    case False
    then have "digits_val (show_nat (n div 10)) = n div 10" by (rule 1)
    with False show ?thesis by (subst show_nat.simps) (simp add: digits_val_snoc)
  qed
qed

lemma parse_digits_show_nat [simp]: "parse_digits (show_nat n) = Some n"
  using show_nat_digits [of n] by (simp add: parse_digits_def digits_val_show_nat)

lemma digits_val_bound: "list_all is_digit ds \<Longrightarrow> digits_val ds < 10 ^ length ds"
proof (induction ds rule: rev_induct)
  case Nil
  then show ?case by (simp add: digits_val_def)
next
  case (snoc d ds)
  then have "digits_val ds < 10 ^ length ds" and "digit_val d \<le> 9"
    by (auto simp: digit_val_def is_digit_def)
  then show ?case by (simp add: digits_val_snoc)
qed

lemma split_ws_aux_pieces:
  "w \<in> set (split_ws_aux acc s) \<Longrightarrow> (\<forall>c \<in> set acc. \<not> is_ws c) \<Longrightarrow> w \<noteq> [] \<and> (\<forall>c \<in> set w. \<not> is_ws c)"
proof (induction s arbitrary: acc)
  case Nil
  then show ?case by (auto split: if_splits)
next
  case (Cons x xs)
  show ?case
  proof (cases "is_ws x")
    case True
    with Cons.prems Cons.IH [of "[]"] show ?thesis by (cases "acc = []") auto
  next
    case False
    with Cons.prems Cons.IH [of "x # acc"] show ?thesis by auto
  qed
qed

lemma split_whitespace_pieces:
  "w \<in> set (split_whitespace s) \<Longrightarrow> w \<noteq> [] \<and> (\<forall>c \<in> set w. \<not> is_ws c)"
  using split_ws_aux_pieces [of w "[]" s] by (simp add: split_whitespace_def)

lemma split_ws_aux_word:
  "(\<forall>c \<in> set w. \<not> is_ws c) \<Longrightarrow> split_ws_aux acc (w @ s) = split_ws_aux (rev w @ acc) s"
  by (induction w arbitrary: acc) auto

lemma split_whitespace_Cons:
  assumes "\<forall>c \<in> set w. \<not> is_ws c" and "w \<noteq> []" and "is_ws b"
  shows "split_whitespace (w @ b # s) = w # split_whitespace s"
  using assms by (simp add: split_whitespace_def split_ws_aux_word)

lemma split_whitespace_single:
  "(\<forall>c \<in> set w. \<not> is_ws c) \<Longrightarrow> w \<noteq> [] \<Longrightarrow> split_whitespace w = [w]"
  using split_ws_aux_word [of w "[]" "[]"] by (simp add: split_whitespace_def)

lemma is_ws_space [simp]: "is_ws (CHR '' '')"
  by (simp add: is_ws_def)

lemma split_whitespace_join:
  "(\<forall>w \<in> set ws. w \<noteq> [] \<and> (\<forall>c \<in> set w. \<not> is_ws c)) \<Longrightarrow> split_whitespace (join_with '' '' ws) = ws"
proof (induction "'' ''" ws rule: join_with.induct)
  case (3 x y ys)
  then show ?case using split_whitespace_Cons [of x "CHR '' ''"] by simp
qed (auto simp: split_whitespace_single, simp add: split_whitespace_def)

section \<open>Floating point\<close>

datatype f64 = NaN | PInf | NInf | Fin rat

record float_ops =
  of_u64 :: "nat \<Rightarrow> f64"
  of_i64 :: "int \<Rightarrow> f64"
  fmul :: "f64 \<Rightarrow> f64 \<Rightarrow> f64"
  fdiv :: "f64 \<Rightarrow> f64 \<Rightarrow> f64"
  fsub :: "f64 \<Rightarrow> f64 \<Rightarrow> f64"
  fadd :: "f64 \<Rightarrow> f64 \<Rightarrow> f64"
  fpowi :: "f64 \<Rightarrow> int \<Rightarrow> f64"

text \<open>\<open>as u64\<close>: truncation that saturates at the bounds and sends NaN to 0.\<close>

fun f64_as_u64 :: "f64 \<Rightarrow> nat" where
  "f64_as_u64 NaN = 0"
| "f64_as_u64 NInf = 0"
| "f64_as_u64 PInf = u64_max"
| "f64_as_u64 (Fin r) = (if r < 0 then 0 else min u64_max (nat \<lfloor>r\<rfloor>))"

text \<open>\<open>a < b\<close>: false when either side is NaN.\<close>

fun f64_lt :: "f64 \<Rightarrow> f64 \<Rightarrow> bool" where
  "f64_lt (Fin a) (Fin b) = (a < b)"
| "f64_lt NInf (Fin _) = True"
| "f64_lt NInf PInf = True"
| "f64_lt (Fin _) PInf = True"
| "f64_lt _ _ = False"

text \<open>The operations without rounding, used where a concrete instance is evaluated.\<close>

fun exact_mul :: "f64 \<Rightarrow> f64 \<Rightarrow> f64" where
  "exact_mul (Fin a) (Fin b) = Fin (a * b)"
| "exact_mul _ _ = NaN"

fun exact_div :: "f64 \<Rightarrow> f64 \<Rightarrow> f64" where
  "exact_div (Fin a) (Fin b) = (if b = 0 then NaN else Fin (a / b))"
| "exact_div _ _ = NaN"

fun exact_sub :: "f64 \<Rightarrow> f64 \<Rightarrow> f64" where
  "exact_sub (Fin a) (Fin b) = Fin (a - b)"
| "exact_sub _ _ = NaN"

fun exact_add :: "f64 \<Rightarrow> f64 \<Rightarrow> f64" where
  "exact_add (Fin a) (Fin b) = Fin (a + b)"
| "exact_add _ _ = NaN"

fun exact_powi :: "f64 \<Rightarrow> int \<Rightarrow> f64" where
  "exact_powi (Fin a) n = Fin (if 0 \<le> n then a ^ nat n else inverse a ^ nat (- n))"
| "exact_powi _ _ = NaN"

definition exact_ops :: float_ops where
  "exact_ops = \<lparr>of_u64 = (\<lambda>n. Fin (of_nat n)), of_i64 = (\<lambda>i. Fin (of_int i)), fmul = exact_mul, fdiv = exact_div,
                fsub = exact_sub, fadd = exact_add, fpowi = exact_powi\<rparr>"

text \<open>\<open>as i32\<close> on a \<open>u32\<close> keeps the bits.\<close>

definition u32_as_i32 :: "nat \<Rightarrow> int" where
  "u32_as_i32 n = (let m = int n mod 2 ^ 32 in if m < 2 ^ 31 then m else m - 2 ^ 32)"

section \<open>Relations that operations keep\<close>

text \<open>\<open>io_preorder\<close> is the contract of a relation between the states before and after, kept by operations and all that is composed of them.\<close>

definition io_keeps :: "('w \<Rightarrow> 'w \<Rightarrow> bool) \<Rightarrow> ('w, 'e, 'a) io \<Rightarrow> bool" where
  "io_keeps R h \<longleftrightarrow> (\<forall>w. R w (snd (h w)))"

locale io_preorder =
  fixes R :: "'w \<Rightarrow> 'w \<Rightarrow> bool"
  assumes io_refl: "R w w"
    and io_trans: "R a b \<Longrightarrow> R b c \<Longrightarrow> R a c"
begin

lemma ret_io: "io_keeps R (io_ret x)" and err_io: "io_keeps R (io_err e)" and lift_io: "io_keeps R (io_lift r)"
  by (simp_all add: io_keeps_def io_ret_def io_err_def io_lift_def io_refl)

lemma bind_io:
  assumes "io_keeps R h" and "\<And>x. io_keeps R (f x)"
  shows "io_keeps R (io_bind h f)"
  unfolding io_keeps_def
proof
  fix w
  obtain r w1 where h: "h w = (r, w1)" by (cases "h w")
  then have one: "R w w1" using assms(1) unfolding io_keeps_def by (metis snd_conv)
  show "R w (snd (io_bind h f w))"
  proof (cases r)
    case (Inl e)
    with h one show ?thesis by (simp add: io_bind_def)
  next
    case (Inr x)
    have "R w1 (snd (f x w1))" using assms(2) by (simp add: io_keeps_def)
    with h one Inr show ?thesis by (auto simp: io_bind_def intro: io_trans)
  qed
qed

lemma if_io: "io_keeps R h \<Longrightarrow> io_keeps R k \<Longrightarrow> io_keeps R (if b then h else k)"
  by simp

lemma option_io: "io_keeps R h \<Longrightarrow> (\<And>x. io_keeps R (f x)) \<Longrightarrow> io_keeps R (case o' of None \<Rightarrow> h | Some x \<Rightarrow> f x)"
  by (simp split: option.split)

lemma prod_io: "(\<And>x y. io_keeps R (f x y)) \<Longrightarrow> io_keeps R (case p of (x, y) \<Rightarrow> f x y)"
  by (simp split: prod.split)

lemma fold_steps: "(\<And>x w. R w (f x w)) \<Longrightarrow> R w (fold f xs w)"
  by (induction xs arbitrary: w) (auto intro: io_refl io_trans)

lemmas io = ret_io err_io lift_io bind_io if_io option_io prod_io

end

end
