(* ===== verification/Text_Util.thy ===== *)
theory Text_Util
  imports Prelude
begin

text \<open>
  More of the Rust string library: \<open>str::replace\<close>, splitting from the right, trimming of given characters, case-insensitive
  comparison. The components that read listings, URLs and HTTP heads share these functions and their laws.
\<close>

section \<open>Functions\<close>

lemma find_str_drop_shorter:
  assumes "find_str p s = Some i" and "p \<noteq> []"
  shows "length (drop (i + length p) s) < length s"
  using find_str_SomeD [OF assms(1)] assms(2) by (cases p) auto

text \<open>\<open>str::replace(pat, to)\<close> for a non-empty pattern: occurrences from the left, without overlap.\<close>

function replace_str :: "string \<Rightarrow> string \<Rightarrow> string \<Rightarrow> string" where
  "replace_str p r s =
     (if p = [] then s
      else (case find_str p s of
              None \<Rightarrow> s
            | Some i \<Rightarrow> take i s @ r @ replace_str p r (drop (i + length p) s)))"
  by pat_completeness auto

termination
  by (relation "measure (\<lambda>(p, r, s). length s)") (use find_str_drop_shorter in auto)

declare replace_str.simps [simp del]

definition rsplit_once :: "char \<Rightarrow> string \<Rightarrow> (string \<times> string) option" where
  "rsplit_once c s = map_option (\<lambda>(a, b). (rev b, rev a)) (split_once c (rev s))"

definition trim_start_where :: "(char \<Rightarrow> bool) \<Rightarrow> string \<Rightarrow> string" where
  "trim_start_where p s = dropWhile p s"

definition trim_end_where :: "(char \<Rightarrow> bool) \<Rightarrow> string \<Rightarrow> string" where
  "trim_end_where p s = rev (dropWhile p (rev s))"

definition trim_where :: "(char \<Rightarrow> bool) \<Rightarrow> string \<Rightarrow> string" where
  "trim_where p s = trim_end_where p (trim_start_where p s)"

abbreviation is_slash :: "char \<Rightarrow> bool" where "is_slash c \<equiv> c = CHR ''/''"

definition starts_with :: "string \<Rightarrow> string \<Rightarrow> bool" where
  "starts_with p s \<longleftrightarrow> prefix p s"

definition ends_with :: "string \<Rightarrow> string \<Rightarrow> bool" where
  "ends_with p s \<longleftrightarrow> suffix p s"

definition eq_ignore_case :: "string \<Rightarrow> string \<Rightarrow> bool" where
  "eq_ignore_case a b \<longleftrightarrow> to_ascii_lowercase a = to_ascii_lowercase b"

text \<open>\<open>str::split_once(pat)\<close> for a string pattern.\<close>

definition split_once_str :: "string \<Rightarrow> string \<Rightarrow> (string \<times> string) option" where
  "split_once_str p s = map_option (\<lambda>i. (take i s, drop (i + length p) s)) (find_str p s)"

text \<open>\<open>str::trim_end_matches(pat)\<close> for a non-empty string pattern: the pattern is taken off the end as often as it stands there.\<close>

function trim_start_str :: "string \<Rightarrow> string \<Rightarrow> string" where
  "trim_start_str p s = (if p \<noteq> [] \<and> prefix p s then trim_start_str p (drop (length p) s) else s)"
  by pat_completeness auto

termination
  by (relation "measure (\<lambda>(p, s). length s)") (auto simp: prefix_def)

declare trim_start_str.simps [simp del]

definition trim_end_str :: "string \<Rightarrow> string \<Rightarrow> string" where
  "trim_end_str p s = rev (trim_start_str (rev p) (rev s))"

section \<open>Laws\<close>

lemma find_str_first:
  assumes "p = c # q" and "c \<notin> set a"
  shows "find_str p (a @ p @ b) = Some (length a)"
  using assms
proof (induction a)
  case Nil
  have "prefix p (p @ b)" by simp
  then show ?case using Nil by (cases "p @ b") auto
qed (auto simp: prefix_Cons)

lemma find_str_absent:
  assumes "p = c # q" and "c \<notin> set a"
  shows "find_str p a = None"
  using assms by (induction a) auto

lemma find_str_skip:
  assumes "\<And>n. n < length a \<Longrightarrow> \<not> prefix p (drop n a @ b)" and "p \<noteq> []"
  shows "find_str p (a @ b) = map_option ((+) (length a)) (find_str p b)"
  using assms(1)
proof (induction a)
  case Nil
  then show ?case by (simp add: option.map_ident)
next
  case (Cons x a)
  have "\<not> prefix p ((x # a) @ b)" using Cons.prems [of 0] by simp
  moreover have "find_str p (a @ b) = map_option ((+) (length a)) (find_str p b)"
    using Cons.prems [of "Suc n" for n] by (intro Cons.IH) auto
  ultimately show ?case by (simp add: option.map_comp comp_def)
qed

lemma rsplit_once_SomeD: "rsplit_once c s = Some (a, b) \<Longrightarrow> s = a @ c # b \<and> c \<notin> set b"
proof -
  assume "rsplit_once c s = Some (a, b)"
  then obtain x y where xy: "split_once c (rev s) = Some (x, y)" "a = rev y" "b = rev x" by (auto simp: rsplit_once_def)
  with split_once_SomeD [OF xy(1)] show ?thesis by (metis append.assoc append_Cons append_Nil rev.simps(2) rev_append rev_rev_ident set_rev)
qed

lemma rsplit_once_append: "c \<notin> set b \<Longrightarrow> rsplit_once c (a @ c # b) = Some (a, b)"
  by (simp add: rsplit_once_def split_once_append)

lemma rsplit_once_None: "rsplit_once c s = None \<longleftrightarrow> c \<notin> set s"
  by (simp add: rsplit_once_def split_once_None)

lemma trim_end_where_id: "s = [] \<or> \<not> p (last s) \<Longrightarrow> trim_end_where p s = s"
  by (cases s rule: rev_cases) (auto simp: trim_end_where_def)

lemma trim_end_where_prefix: "prefix (trim_end_where p s) s"
proof -
  have "suffix (dropWhile p (rev s)) (rev s)" by (simp add: suffix_dropWhile)
  then show ?thesis by (simp add: trim_end_where_def suffix_to_prefix)
qed

lemma split_char_append: "c \<notin> set a \<Longrightarrow> split_char c (a @ c # b) = a # split_char c b"
  by (induction a) auto

lemma split_char_join: "ps \<noteq> [] \<Longrightarrow> \<forall>p \<in> set ps. c \<notin> set p \<Longrightarrow> split_char c (join_with [c] ps) = ps"
  by (induction "[c]" ps rule: join_with.induct) (auto simp: split_char_no_sep split_char_append)

lemma split_char_concat: "split_char c (a @ c # b) = split_char c a @ split_char c b"
  by (induction a) (auto split: list.splits)

lemma replace_str_absent: "p = c # q \<Longrightarrow> c \<notin> set s \<Longrightarrow> replace_str p r s = s"
  by (subst replace_str.simps) (simp add: find_str_absent)

end
