(* ===== verification/Cron.thy ===== *)
theory Cron
  imports Text_Util
begin

text \<open>
  Cron expressions of \<open>crates/synora-core/src/schedule.rs\<close>: the field parser, the six-field
  parser, the normalisation of five and seven field input, and the matcher. The messages of the
  errors are dropped, each error site of the source is one constructor of \<open>cron_error\<close>.
  A wall-clock minute enters the matcher as the five numbers the source reads off a
  \<open>PrimitiveDateTime\<close>.
\<close>

section \<open>Data\<close>

datatype cron_error =
    EmptyElement
  | InvalidStep
  | StepZero
  | InvalidValue
  | StartAfterEnd
  | OutsideRange
  | FieldCount nat
  | SecondsUnsupported
  | YearRestricted

record FieldPart =
  fp_min :: nat
  fp_max :: nat
  fp_step :: nat

record CronField =
  parts :: "FieldPart list"

record CronExpr =
  c_minute :: CronField
  c_hour :: CronField
  c_dom :: CronField
  c_month :: CronField
  c_dow :: CronField

text \<open>The fields of a wall-clock minute; \<open>w_dow\<close> is \<open>dow_num\<close> of its weekday.\<close>

record wall_fields =
  w_minute :: nat
  w_hour :: nat
  w_day :: nat
  w_month :: nat
  w_dow :: nat

datatype Weekday = Monday | Tuesday | Wednesday | Thursday | Friday | Saturday | Sunday

fun dow_num :: "Weekday \<Rightarrow> nat" where
  "dow_num Sunday = 0"
| "dow_num Monday = 1"
| "dow_num Tuesday = 2"
| "dow_num Wednesday = 3"
| "dow_num Thursday = 4"
| "dow_num Friday = 5"
| "dow_num Saturday = 6"

definition MONTHS :: "(string \<times> nat) list" where
  "MONTHS = [(''jan'', 1), (''feb'', 2), (''mar'', 3), (''apr'', 4), (''may'', 5), (''jun'', 6),
             (''jul'', 7), (''aug'', 8), (''sep'', 9), (''oct'', 10), (''nov'', 11), (''dec'', 12)]"

definition WEEKDAYS :: "(string \<times> nat) list" where
  "WEEKDAYS = [(''sun'', 0), (''mon'', 1), (''tue'', 2), (''wed'', 3), (''thu'', 4), (''fri'', 5),
               (''sat'', 6)]"

section \<open>Matching\<close>

definition part_matches :: "FieldPart \<Rightarrow> nat \<Rightarrow> bool" where
  "part_matches p v \<longleftrightarrow> fp_min p \<le> v \<and> v \<le> fp_max p \<and> fp_step p dvd (v - fp_min p)"

definition is_full_range :: "CronField \<Rightarrow> nat \<Rightarrow> nat \<Rightarrow> bool" where
  "is_full_range f lo hi \<longleftrightarrow>
     (case parts f of [p] \<Rightarrow> fp_min p = lo \<and> fp_max p = hi \<and> fp_step p = 1 | _ \<Rightarrow> False)"

definition field_matches :: "CronField \<Rightarrow> nat \<Rightarrow> bool" where
  "field_matches f v \<longleftrightarrow> (\<exists>p \<in> set (parts f). part_matches p v)"

definition day_ok :: "CronExpr \<Rightarrow> wall_fields \<Rightarrow> bool" where
  "day_ok c t =
     (case (\<not> is_full_range (c_dom c) 1 31, \<not> is_full_range (c_dow c) 0 7) of
        (True, True) \<Rightarrow> field_matches (c_dom c) (w_day t) \<or> field_matches (c_dow c) (w_dow t)
      | (True, False) \<Rightarrow> field_matches (c_dom c) (w_day t)
      | (False, True) \<Rightarrow> field_matches (c_dow c) (w_dow t)
      | (False, False) \<Rightarrow> True)"

definition cron_matches :: "CronExpr \<Rightarrow> wall_fields \<Rightarrow> bool" where
  "cron_matches c t =
     (if \<not> field_matches (c_month c) (w_month t) then False
      else day_ok c t \<and> field_matches (c_hour c) (w_hour t) \<and> field_matches (c_minute c) (w_minute t))"

section \<open>Parsing\<close>

text \<open>A number, or a name that shares a prefix of at least three letters with a table entry.\<close>

definition resolve :: "(string \<times> nat) list \<Rightarrow> string \<Rightarrow> cron_error + nat" where
  "resolve names v =
     (let is_dow = (map_option fst (head_opt names) = Some ''sun'')
      in case parse_unsigned u32_max v of
           Some n \<Rightarrow> Ok (if is_dow \<and> n = 7 then 0 else n)
         | None \<Rightarrow>
             (let lower = to_ascii_lowercase v
              in case find (\<lambda>(name, num). 3 \<le> length lower \<and> (prefix lower name \<or> prefix name lower)) names of
                   Some (name, num) \<Rightarrow> Ok num
                 | None \<Rightarrow> Err InvalidValue))"

definition parse_step :: "string \<Rightarrow> cron_error + (string \<times> nat)" where
  "parse_step chunk =
     (case split_once (CHR ''/'') chunk of
        Some (r, st) \<Rightarrow>
          (case parse_unsigned u32_max st of
             None \<Rightarrow> Err InvalidStep
           | Some step \<Rightarrow> if step = 0 then Err StepZero else Ok (r, step))
      | None \<Rightarrow> Ok (chunk, 1))"

definition parse_part :: "nat \<Rightarrow> nat \<Rightarrow> (string \<times> nat) list \<Rightarrow> string \<Rightarrow> cron_error + FieldPart" where
  "parse_part lo hi names chunk =
     (if chunk = [] then Err EmptyElement
      else and_then (parse_step chunk) (\<lambda>(range, step).
        let (a, b) = (case split_once (CHR ''-'') range of Some (a, b) \<Rightarrow> (a, b) | None \<Rightarrow> (range, range))
        in and_then (if a = ''*'' then Ok lo else resolve names a) (\<lambda>a.
           and_then (if b = ''*'' then Ok hi else resolve names b) (\<lambda>b.
             if b < a then Err StartAfterEnd
             else if a < lo \<or> hi < b then Err OutsideRange
             else Ok \<lparr>fp_min = a, fp_max = b, fp_step = step\<rparr>))))"

definition parse_field :: "string \<Rightarrow> nat \<Rightarrow> nat \<Rightarrow> (string \<times> nat) list \<Rightarrow> cron_error + CronField" where
  "parse_field s lo hi names =
     and_then (collect_results (map (parse_part lo hi names) (split_char (CHR '','') s)))
       (\<lambda>ps. Ok \<lparr>parts = ps\<rparr>)"

definition cron_expr_parse :: "string \<Rightarrow> cron_error + CronExpr" where
  "cron_expr_parse expr =
     (case split_whitespace expr of
        [sec_s, min_s, hour_s, dom_s, mon_s, dow_s] \<Rightarrow>
          (if sec_s \<noteq> ''0'' \<and> sec_s \<noteq> ''*'' then Err SecondsUnsupported
           else
             and_then (parse_field min_s 0 59 []) (\<lambda>mi.
             and_then (parse_field hour_s 0 23 []) (\<lambda>h.
             and_then (parse_field dom_s 1 31 []) (\<lambda>d.
             and_then (parse_field mon_s 1 12 MONTHS) (\<lambda>m.
             and_then (parse_field dow_s 0 7 WEEKDAYS) (\<lambda>w.
               Ok \<lparr>c_minute = mi, c_hour = h, c_dom = d, c_month = m, c_dow = w\<rparr>))))))
      | fs \<Rightarrow> Err (FieldCount (length fs)))"

definition parse_cron_expr :: "string \<Rightarrow> cron_error + string" where
  "parse_cron_expr expr =
     (let fs = split_whitespace expr
      in and_then
           (if length fs = 5 then Ok (''0 '' @ expr)
            else if length fs = 6 then Ok expr
            else if length fs = 7 then
              (if fs ! 6 = ''*'' then Ok (join_with '' '' (take 6 fs)) else Err YearRestricted)
            else Err (FieldCount (length fs)))
           (\<lambda>normalized. and_then (cron_expr_parse normalized) (\<lambda>_. Ok normalized)))"

section \<open>Well-formed fields\<close>

definition wf_part :: "nat \<Rightarrow> nat \<Rightarrow> FieldPart \<Rightarrow> bool" where
  "wf_part lo hi p \<longleftrightarrow> lo \<le> fp_min p \<and> fp_min p \<le> fp_max p \<and> fp_max p \<le> hi \<and> 0 < fp_step p"

definition wf_field :: "nat \<Rightarrow> nat \<Rightarrow> CronField \<Rightarrow> bool" where
  "wf_field lo hi f \<longleftrightarrow> parts f \<noteq> [] \<and> (\<forall>p \<in> set (parts f). wf_part lo hi p)"

definition wf_cron :: "CronExpr \<Rightarrow> bool" where
  "wf_cron c \<longleftrightarrow> wf_field 0 59 (c_minute c) \<and> wf_field 0 23 (c_hour c) \<and> wf_field 1 31 (c_dom c)
     \<and> wf_field 1 12 (c_month c) \<and> wf_field 0 7 (c_dow c)"

lemma parse_step_pos: "parse_step chunk = Ok (r, step) \<Longrightarrow> 0 < step"
  by (auto simp: parse_step_def split: option.splits if_splits)

lemma parse_part_wf:
  assumes "parse_part lo hi names chunk = Ok p"
  shows "wf_part lo hi p"
proof -
  from assms obtain range step where st: "parse_step chunk = Ok (range, step)"
    by (auto simp: parse_part_def split: if_splits)
  with assms obtain a b where "p = \<lparr>fp_min = a, fp_max = b, fp_step = step\<rparr>"
    and "a \<le> b" and "lo \<le> a" and "b \<le> hi"
    by (simp add: parse_part_def Let_def split: if_splits prod.splits) fastforce+
  with parse_step_pos [OF st] show ?thesis by (simp add: wf_part_def)
qed

lemma parse_field_wf:
  assumes "parse_field s lo hi names = Ok f"
  shows "wf_field lo hi f"
proof -
  let ?chunks = "split_char (CHR '','') s"
  from assms obtain ps where ps: "collect_results (map (parse_part lo hi names) ?chunks) = Ok ps"
    and f: "f = \<lparr>parts = ps\<rparr>"
    by (auto simp: parse_field_def)
  from collect_results_map [OF ps] have "length ps = length ?chunks"
    and parsed: "\<forall>p \<in> set ps. \<exists>c \<in> set ?chunks. parse_part lo hi names c = Ok p"
    by auto
  then have "ps \<noteq> []" by auto
  with parsed f show ?thesis by (auto simp: wf_field_def dest: parse_part_wf)
qed

lemma cron_expr_parse_wf: "cron_expr_parse s = Ok c \<Longrightarrow> wf_cron c"
  by (auto simp: cron_expr_parse_def wf_cron_def dest: parse_field_wf split: list.splits if_splits)

text \<open>A field only matches values of its own range, so a matched wall time is in range.\<close>

lemma field_matches_range: "wf_field lo hi f \<Longrightarrow> field_matches f v \<Longrightarrow> lo \<le> v \<and> v \<le> hi"
  by (fastforce simp: wf_field_def wf_part_def field_matches_def part_matches_def)

lemma full_range_matches: "is_full_range f lo hi \<Longrightarrow> lo \<le> v \<Longrightarrow> v \<le> hi \<Longrightarrow> field_matches f v"
  by (auto simp: is_full_range_def field_matches_def part_matches_def split: list.splits)

section \<open>Normalisation\<close>

lemma cron_expr_parse_fields: "cron_expr_parse s = Ok c \<Longrightarrow> length (split_whitespace s) = 6"
  by (auto simp: cron_expr_parse_def split: list.splits)

lemma parse_cron_expr_Ok:
  "parse_cron_expr e = Ok n \<Longrightarrow> \<exists>c. cron_expr_parse n = Ok c"
  by (auto simp: parse_cron_expr_def Let_def)

lemma parse_cron_expr_six:
  "cron_expr_parse n = Ok c \<Longrightarrow> parse_cron_expr n = Ok n"
  by (auto simp: parse_cron_expr_def Let_def dest: cron_expr_parse_fields)

lemma parse_cron_expr_parsed:
  assumes "parse_cron_expr e = Ok n"
  shows "split_whitespace n =
           (if length (split_whitespace e) = 5 then ''0'' # split_whitespace e
            else take 6 (split_whitespace e))"
proof -
  have five: "split_whitespace (''0 '' @ e) = ''0'' # split_whitespace e"
    using split_whitespace_Cons [of "''0''" "CHR '' ''" e] by (simp add: is_ws_def)
  have "\<forall>w \<in> set (take 6 (split_whitespace e)). w \<noteq> [] \<and> (\<forall>c \<in> set w. \<not> is_ws c)"
    using split_whitespace_pieces by (meson in_set_takeD)
  then have seven: "split_whitespace (join_with '' '' (take 6 (split_whitespace e))) = take 6 (split_whitespace e)"
    by (rule split_whitespace_join)
  show ?thesis using assms five seven
    by (auto simp: parse_cron_expr_def Let_def split: if_splits)
qed

section \<open>The meaning of the text of a field\<close>

text \<open>
  The reference reading of a field: what a crontab user writes, how it is printed and which values it
  denotes. A value is a number or a name of the table; \<open>7\<close> on its own is Sunday in the weekday field.
\<close>

datatype cron_value = Number nat | Named string

datatype cron_part =
    Every_Value
  | Every_Step nat
  | One_Value cron_value
  | Value_Range cron_value cron_value
  | Range_Step cron_value cron_value nat

fun show_value :: "cron_value \<Rightarrow> string" where
  "show_value (Number n) = show_nat n"
| "show_value (Named s) = s"

fun show_part :: "cron_part \<Rightarrow> string" where
  "show_part Every_Value = ''*''"
| "show_part (Every_Step k) = ''*/'' @ show_nat k"
| "show_part (One_Value v) = show_value v"
| "show_part (Value_Range v w) = show_value v @ ''-'' @ show_value w"
| "show_part (Range_Step v w k) = show_value v @ ''-'' @ show_value w @ ''/'' @ show_nat k"

definition show_field :: "cron_part list \<Rightarrow> string" where
  "show_field ps = join_with '','' (map show_part ps)"

fun value_num :: "(string \<times> nat) list \<Rightarrow> cron_value \<Rightarrow> nat" where
  "value_num names (Number n) = n"
| "value_num names (Named s) = opt_default 0 (map_of names s)"

text \<open>The first and the last value of a part and its step.\<close>

fun part_bounds :: "nat \<Rightarrow> nat \<Rightarrow> (string \<times> nat) list \<Rightarrow> cron_part \<Rightarrow> nat \<times> nat \<times> nat" where
  "part_bounds lo hi names Every_Value = (lo, hi, 1)"
| "part_bounds lo hi names (Every_Step k) = (lo, hi, k)"
| "part_bounds lo hi names (One_Value v) =
     (let n = (if names = WEEKDAYS \<and> value_num names v = 7 then 0 else value_num names v) in (n, n, 1))"
| "part_bounds lo hi names (Value_Range v w) = (value_num names v, value_num names w, 1)"
| "part_bounds lo hi names (Range_Step v w k) = (value_num names v, value_num names w, k)"

definition denotes :: "nat \<Rightarrow> nat \<Rightarrow> (string \<times> nat) list \<Rightarrow> cron_part \<Rightarrow> nat \<Rightarrow> bool" where
  "denotes lo hi names p v = (case part_bounds lo hi names p of (a, b, k) \<Rightarrow> (\<exists>i. v = a + i * k \<and> v \<le> b))"

definition part_valid :: "nat \<Rightarrow> nat \<Rightarrow> (string \<times> nat) list \<Rightarrow> cron_part \<Rightarrow> bool" where
  "part_valid lo hi names p = (case part_bounds lo hi names p of (a, b, k) \<Rightarrow> lo \<le> a \<and> a \<le> b \<and> b \<le> hi \<and> 0 < k)"

text \<open>Numbers fit \<open>u32\<close>, names are in the table, and a weekday range does not use the alias \<open>7\<close>.\<close>

fun value_written :: "(string \<times> nat) list \<Rightarrow> cron_value \<Rightarrow> bool" where
  "value_written names (Number n) = (n \<le> u32_max)"
| "value_written names (Named s) = (s \<in> fst ` set names)"

definition range_written :: "(string \<times> nat) list \<Rightarrow> cron_value \<Rightarrow> bool" where
  "range_written names v \<longleftrightarrow> value_written names v \<and> \<not> (names = WEEKDAYS \<and> value_num names v = 7)"

fun part_written :: "(string \<times> nat) list \<Rightarrow> cron_part \<Rightarrow> bool" where
  "part_written names Every_Value = True"
| "part_written names (Every_Step k) = (k \<le> u32_max)"
| "part_written names (One_Value v) = value_written names v"
| "part_written names (Value_Range v w) = (range_written names v \<and> range_written names w)"
| "part_written names (Range_Step v w k) = (range_written names v \<and> range_written names w \<and> k \<le> u32_max)"

definition cron_names :: "(string \<times> nat) list \<Rightarrow> bool" where
  "cron_names names \<longleftrightarrow> names = [] \<or> names = MONTHS \<or> names = WEEKDAYS"

lemma show_nat_chars: "c \<in> set (show_nat n) \<Longrightarrow> is_digit c"
  using show_nat_digits [of n] by (auto simp: list_all_iff)

lemma parse_unsigned_show_nat [simp]: "n \<le> mx \<Longrightarrow> parse_unsigned mx (show_nat n) = Some n"
proof -
  assume "n \<le> mx"
  moreover have "\<not> is_digit (CHR ''+'')" by (simp add: is_digit_def)
  then have "CHR ''+'' \<notin> set (show_nat n)" using show_nat_chars by blast
  then have "(case show_nat n of c # r \<Rightarrow> if c = CHR ''+'' then r else show_nat n | [] \<Rightarrow> show_nat n) = show_nat n"
    by (cases "show_nat n") auto
  ultimately show ?thesis by (simp add: parse_unsigned_def)
qed

lemma names_resolve:
  assumes "cron_names names" and "s \<in> fst ` set names"
  shows "resolve names s = Ok (opt_default 0 (map_of names s))"
    and "s \<noteq> []" and "set s \<inter> {CHR '','', CHR ''/'', CHR ''-'', CHR ''*''} = {}"
proof -
  have "resolve names s = Ok (opt_default 0 (map_of names s)) \<and> s \<noteq> [] \<and> set s \<inter> {CHR '','', CHR ''/'', CHR ''-'', CHR ''*''} = {}"
    using assms unfolding cron_names_def
  proof (elim disjE)
    assume "names = MONTHS" and "s \<in> fst ` set names"
    then show ?thesis unfolding MONTHS_def
      by (elim ssubst, simp only: set_simps image_insert fst_conv image_empty insert_iff empty_iff)
         (elim disjE; simp add: resolve_def parse_unsigned_def parse_digits_def is_digit_def to_ascii_lowercase_def to_lower_def)
  next
    assume "names = WEEKDAYS" and "s \<in> fst ` set names"
    then show ?thesis unfolding WEEKDAYS_def
      by (elim ssubst, simp only: set_simps image_insert fst_conv image_empty insert_iff empty_iff)
         (elim disjE; simp add: resolve_def parse_unsigned_def parse_digits_def is_digit_def to_ascii_lowercase_def to_lower_def)
  qed simp
  then show "resolve names s = Ok (opt_default 0 (map_of names s))"
    and "s \<noteq> []" and "set s \<inter> {CHR '','', CHR ''/'', CHR ''-'', CHR ''*''} = {}" by blast+
qed

lemma weekdays_first: "cron_names names \<Longrightarrow> map_option fst (head_opt names) = Some ''sun'' \<longleftrightarrow> names = WEEKDAYS"
  by (auto simp: cron_names_def MONTHS_def WEEKDAYS_def)

lemma names_not_seven: "names = WEEKDAYS \<Longrightarrow> s \<in> fst ` set names \<Longrightarrow> opt_default 0 (map_of names s) \<noteq> 7"
  by (auto simp: WEEKDAYS_def)

lemma value_chars:
  assumes "cron_names names" and "value_written names v"
  shows "show_value v \<noteq> []" and "set (show_value v) \<inter> {CHR '','', CHR ''/'', CHR ''-'', CHR ''*''} = {}"
proof -
  have "set (show_nat n) \<inter> {CHR '','', CHR ''/'', CHR ''-'', CHR ''*''} = {}" for n
    using show_nat_chars by (fastforce simp: is_digit_def)
  then show "show_value v \<noteq> []" "set (show_value v) \<inter> {CHR '','', CHR ''/'', CHR ''-'', CHR ''*''} = {}"
    using names_resolve(2,3) [OF assms(1)] assms(2) show_nat_digits by (cases v; simp)+
qed

lemma value_resolve:
  assumes "cron_names names" and "value_written names v"
  shows "resolve names (show_value v) = Ok (if names = WEEKDAYS \<and> value_num names v = 7 then 0 else value_num names v)"
proof (cases v)
  case (Number n)
  then show ?thesis using assms weekdays_first [OF assms(1)] by (simp only: resolve_def Let_def show_value.simps value_num.simps
      value_written.simps parse_unsigned_show_nat option.case)
next
  case (Named s)
  then show ?thesis using assms names_resolve(1) [OF assms(1)] names_not_seven [of names s]
    by (cases "names = WEEKDAYS") auto
qed

text \<open>How the parser sees a printed part: the bounds, then their checks in the order of the source.\<close>

lemma parse_part_shown:
  assumes "cron_names names" and "part_written names p" and "part_bounds lo hi names p = (a, b, k)"
  shows "parse_part lo hi names (show_part p) =
    (if k = 0 then Err StepZero else if b < a then Err StartAfterEnd else if a < lo \<or> hi < b then Err OutsideRange
     else Ok \<lparr>fp_min = a, fp_max = b, fp_step = k\<rparr>)"
proof -
  have digits: "CHR ''-'' \<notin> set (show_nat n)" "CHR ''/'' \<notin> set (show_nat n)" for n
    using show_nat_chars by (fastforce simp: is_digit_def)+
  note chars = value_chars [OF assms(1)]
  have star: "show_value v \<noteq> ''*''" if "value_written names v" for v
    using chars(2) [OF that] by auto
  show ?thesis
  proof (cases p)
    case Every_Value
    then show ?thesis using assms(3) by (auto simp: parse_part_def parse_step_def)
  next
    case (Every_Step n)
    then show ?thesis using assms(2,3) by (auto simp: parse_part_def parse_step_def)
  next
    case (One_Value v)
    have "split_once (CHR ''/'') (show_value v) = None" "split_once (CHR ''-'') (show_value v) = None"
      using chars(2) [of v] One_Value assms(2) by (auto simp: split_once_None)
    then show ?thesis using One_Value assms(2,3) chars(1) star value_resolve [OF assms(1)]
      by (auto simp: parse_part_def parse_step_def Let_def)
  next
    case (Value_Range v w)
    have "split_once (CHR ''/'') (show_value v @ CHR ''-'' # show_value w) = None"
      "split_once (CHR ''-'') (show_value v @ CHR ''-'' # show_value w) = Some (show_value v, show_value w)"
      using chars(2) [of v] chars(2) [of w] Value_Range assms(2)
      by (auto simp: split_once_None range_written_def split_once_append)
    then show ?thesis using Value_Range assms(2,3) star value_resolve [OF assms(1)]
      by (auto simp: parse_part_def parse_step_def range_written_def)
  next
    case (Range_Step v w n)
    have s: "split_once (CHR ''/'') (show_value v @ CHR ''-'' # show_value w @ CHR ''/'' # show_nat n)
        = Some (show_value v @ CHR ''-'' # show_value w, show_nat n)"
      using split_once_append [of "CHR ''/''" "show_value v @ CHR ''-'' # show_value w" "show_nat n"]
        chars(2) [of v] chars(2) [of w] Range_Step assms(2) by (auto simp: range_written_def)
    have d: "split_once (CHR ''-'') (show_value v @ CHR ''-'' # show_value w) = Some (show_value v, show_value w)"
      using chars(2) [of v] Range_Step assms(2) by (auto simp: range_written_def split_once_append)
    have step: "parse_step (show_part p) = (if k = 0 then Err StepZero else Ok (show_value v @ CHR ''-'' # show_value w, k))"
      using Range_Step assms(2,3) s by (auto simp: parse_step_def)
    have r: "resolve names (show_value v) = Ok a" "resolve names (show_value w) = Ok b" "show_value v \<noteq> ''*''" "show_value w \<noteq> ''*''"
      using Range_Step assms(2,3) star value_resolve [OF assms(1)] by (auto simp: range_written_def)
    have "show_part p \<noteq> []" using Range_Step by simp
    then show ?thesis by (simp add: parse_part_def step d r)
  qed
qed

lemma show_part_chars:
  assumes "cron_names names" and "part_written names p"
  shows "CHR '','' \<notin> set (show_part p)"
proof -
  have "CHR '','' \<notin> set (show_nat n)" for n using show_nat_chars by (fastforce simp: is_digit_def)
  then show ?thesis using assms value_chars(2) [OF assms(1)] by (cases p) (auto simp: range_written_def)
qed

lemma collect_results_map_iff:
  "(\<exists>ys. collect_results (map f xs) = Inr ys) \<longleftrightarrow> (\<forall>x \<in> set xs. \<exists>y. f x = Inr y)"
proof (induction xs)
  case (Cons x xs)
  then show ?case by (cases "f x"; cases "collect_results (map f xs)") auto
qed simp

lemma shown_part_valid:
  assumes "cron_names names" and "part_written names p"
  shows "(\<exists>y. parse_part lo hi names (show_part p) = Ok y) \<longleftrightarrow> part_valid lo hi names p"
  using parse_part_shown [OF assms, of lo hi]
  by (cases "part_bounds lo hi names p") (auto simp: part_valid_def)

lemma shown_part_matches:
  assumes "cron_names names" and "part_written names p" and "part_valid lo hi names p"
  shows "(\<exists>q. parse_part lo hi names (show_part p) = Ok q \<and> part_matches q v) \<longleftrightarrow> denotes lo hi names p v"
proof -
  obtain a b k where b: "part_bounds lo hi names p = (a, b, k)" by (cases "part_bounds lo hi names p")
  have "0 < k" using assms(3) b by (simp add: part_valid_def)
  have "part_matches \<lparr>fp_min = a, fp_max = b, fp_step = k\<rparr> v \<longleftrightarrow> (\<exists>i. v = a + i * k \<and> v \<le> b)"
  proof
    assume m: "part_matches \<lparr>fp_min = a, fp_max = b, fp_step = k\<rparr> v"
    then obtain i where "v - a = k * i" by (auto simp: part_matches_def)
    with m show "\<exists>i. v = a + i * k \<and> v \<le> b"
      by (intro exI [of _ i]) (auto simp: part_matches_def mult.commute)
  qed (auto simp: part_matches_def)
  then show ?thesis using parse_part_shown [OF assms(1,2) b] assms(3) b by (auto simp: part_valid_def denotes_def)
qed

section \<open>Properties\<close>

lemmas cron_eval = parse_cron_expr_def cron_expr_parse_def split_whitespace_def is_ws_def parse_field_def
  parse_part_def parse_step_def resolve_def parse_unsigned_def parse_digits_def is_digit_def digits_val_def
  digit_val_def u32_max_def to_ascii_lowercase_def to_lower_def MONTHS_def WEEKDAYS_def

text \<open>Cron normalisation. Whatever \<open>parse_cron_expr\<close> accepts (five, six or seven fields) it turns
  into an expression that \<open>CronExpr::parse\<close> accepts, whose five parsed fields hold only non-empty
  ranges inside the bounds of minute, hour, day, month and weekday with positive steps, and that
  normalises to itself. The fields are those of the input, with the seconds field \<open>0\<close> in front of a
  five-field expression and the year dropped from a seven-field one.\<close>

lemma parse_cron_expr_normalises:
  assumes "parse_cron_expr e = Ok n"
  shows "(\<exists>c. cron_expr_parse n = Ok c \<and> wf_cron c) \<and> parse_cron_expr n = Ok n
    \<and> split_whitespace n =
        (if length (split_whitespace e) = 5 then ''0'' # split_whitespace e else take 6 (split_whitespace e))"
  using parse_cron_expr_Ok [OF assms] parse_cron_expr_six cron_expr_parse_wf parse_cron_expr_parsed [OF assms]
  by blast

theorem parse_cron_expr_normalises_witness:
  "parse_cron_expr ''30 3 * * mon'' = Ok ''0 30 3 * * mon''
   \<and> (\<exists>c. cron_expr_parse ''0 30 3 * * mon'' = Ok c \<and> wf_cron c)"
proof -
  have "parse_cron_expr ''30 3 * * mon'' = Ok ''0 30 3 * * mon''" by (simp add: cron_eval)
  with parse_cron_expr_normalises [OF this] show ?thesis by blast
qed



text \<open>A step after a single value has no effect: \<open>5/15\<close> in the minute field matches minute 5 only. In the
  weekday field the alias is resolved before the range is checked: \<open>0-7\<close> matches Sunday only and \<open>5-7\<close>
  is refused.\<close>

lemma cron_field_oddities:
  "parse_field ''5/15'' 0 59 [] = Ok \<lparr>parts = [\<lparr>fp_min = 5, fp_max = 5, fp_step = 15\<rparr>]\<rparr>
   \<and> parse_field ''0-7'' 0 7 WEEKDAYS = Ok \<lparr>parts = [\<lparr>fp_min = 0, fp_max = 0, fp_step = 1\<rparr>]\<rparr>
   \<and> parse_field ''5-7'' 0 7 WEEKDAYS = Err StartAfterEnd"
  by (simp add: cron_eval)

end
