(* ===== verification/Schedule.thy ===== *)
theory Schedule
  imports Cron
begin

text \<open>
  Schedules of \<open>crates/synora-core/src/schedule.rs\<close>: human durations, weekday names, and the
  next-run computation for every schedule kind.

  Instants are whole unix seconds (the callers build them with \<open>from_unix_timestamp\<close>), a
  \<open>PrimitiveDateTime\<close> is its number of wall-clock seconds since 1970-01-01, a \<open>Date\<close> its day
  number, a \<open>Time\<close> its second of the day, a \<open>Duration\<close> its number of seconds. The calendar and
  the time-zone database belong to the crates \<open>time\<close> and \<open>time-tz\<close>: they are the fields of the
  record \<open>time_lib\<close>, an argument of every definition that uses them.
\<close>

section \<open>The time libraries as a parameter\<close>

datatype OffsetResult = OffNone | OffSome int | OffAmbiguous int int

record 'tz time_lib =
  in_range :: "int \<Rightarrow> bool"                  \<comment> \<open>\<open>from_unix_timestamp\<close> succeeds\<close>
  get_offset_utc :: "'tz \<Rightarrow> int \<Rightarrow> int"
  get_offset_local :: "'tz \<Rightarrow> int \<Rightarrow> OffsetResult"
  has_next_day :: "int \<Rightarrow> bool"              \<comment> \<open>\<open>Date::next_day\<close> is \<open>Some\<close>\<close>
  cal_weekday :: "int \<Rightarrow> Weekday"
  cal_month :: "int \<Rightarrow> nat"
  cal_day :: "int \<Rightarrow> nat"

section \<open>Schedule kinds\<close>

datatype ScheduleKind =
    Cron (cron_expr: string)
  | Daily (at_time: int)
  | Weekly (on_weekday: Weekday) (at_time: int)
  | Interval (every_secs: int)
  | Manual
  | Startup

record Schedule =
  sched_kind :: ScheduleKind

section \<open>Durations\<close>

datatype duration_error = NumberOverflow | UnitWithoutNumber | UnexpectedCharacter | ExpectedDuration | DurationPanic

definition u64_as_i64 :: "nat \<Rightarrow> int" where
  "u64_as_i64 n = (if n < 2 ^ 63 then int n else int n - 2 ^ 64)"

text \<open>
  \<open>Duration::seconds\<close>, \<open>minutes\<close>, ... and \<open>+=\<close> panic when the number of seconds leaves \<open>i64\<close>.
\<close>

definition checked_secs :: "int \<Rightarrow> duration_error + int" where
  "checked_secs s = (if i64_min \<le> s \<and> s \<le> i64_max then Ok s else Err DurationPanic)"

definition unit_secs :: "char \<Rightarrow> int" where
  "unit_secs c = (if c = CHR ''s'' then 1 else if c = CHR ''m'' then 60
                  else if c = CHR ''h'' then 3600 else 86400)"

definition is_unit :: "char \<Rightarrow> bool" where
  "is_unit c \<longleftrightarrow> c \<in> {CHR ''s'', CHR ''m'', CHR ''h'', CHR ''d''}"

record duration_state =
  d_total :: int
  d_num :: nat
  saw_digit :: bool
  saw_unit :: bool

definition push_digit :: "nat \<Rightarrow> char \<Rightarrow> nat option" where
  "push_digit n c = (if 10 * n + digit_val c \<le> u64_max then Some (10 * n + digit_val c) else None)"

definition duration_step :: "duration_state \<Rightarrow> char \<Rightarrow> duration_error + duration_state" where
  "duration_step st c =
     (if is_digit c then
        (case push_digit (d_num st) c of
           None \<Rightarrow> Err NumberOverflow
         | Some n \<Rightarrow> Ok (st\<lparr>d_num := n, saw_digit := True\<rparr>))
      else if is_unit c then
        (if \<not> saw_digit st then Err UnitWithoutNumber
         else and_then (checked_secs (u64_as_i64 (d_num st) * unit_secs c)) (\<lambda>unit.
              and_then (checked_secs (d_total st + unit)) (\<lambda>t.
                Ok \<lparr>d_total = t, d_num = 0, saw_digit = False, saw_unit = True\<rparr>)))
      else Err UnexpectedCharacter)"

fun duration_loop :: "duration_state \<Rightarrow> string \<Rightarrow> duration_error + duration_state" where
  "duration_loop st [] = Ok st"
| "duration_loop st (c # cs) = and_then (duration_step st c) (\<lambda>st'. duration_loop st' cs)"

definition parse_duration_human :: "string \<Rightarrow> duration_error + int" where
  "parse_duration_human s =
     and_then (duration_loop \<lparr>d_total = 0, d_num = 0, saw_digit = False, saw_unit = False\<rparr> s)
       (\<lambda>st. if \<not> saw_unit st \<or> saw_digit st then Err ExpectedDuration else Ok (d_total st))"

text \<open>The matches of \<open>fmt_duration\<close> divide exactly, so truncating and flooring division agree.\<close>

definition fmt_duration :: "int \<Rightarrow> string" where
  "fmt_duration s =
     (if 86400 dvd s then show_int (s div 86400) @ ''d''
      else if 3600 dvd s then show_int (s div 3600) @ ''h''
      else if 60 dvd s then show_int (s div 60) @ ''m''
      else show_int s @ ''s'')"

section \<open>Weekday names and display\<close>

definition parse_weekday :: "string \<Rightarrow> Weekday option" where
  "parse_weekday s =
     (let l = to_ascii_lowercase s
      in if l = ''sunday'' \<or> l = ''sun'' then Some Sunday
         else if l = ''monday'' \<or> l = ''mon'' then Some Monday
         else if l = ''tuesday'' \<or> l = ''tue'' then Some Tuesday
         else if l = ''wednesday'' \<or> l = ''wed'' then Some Wednesday
         else if l = ''thursday'' \<or> l = ''thu'' then Some Thursday
         else if l = ''friday'' \<or> l = ''fri'' then Some Friday
         else if l = ''saturday'' \<or> l = ''sat'' then Some Saturday
         else None)"

definition two_digits :: "int \<Rightarrow> string" where
  "two_digits n = (if 0 \<le> n \<and> n < 10 then CHR ''0'' # show_int n else show_int n)"

definition fmt_time :: "int \<Rightarrow> string" where
  "fmt_time t = two_digits (t div 3600) @ '':'' @ two_digits (t mod 3600 div 60) @ '':'' @ two_digits (t mod 60)"

definition describe :: "(Weekday \<Rightarrow> string) \<Rightarrow> Schedule \<Rightarrow> string" where
  "describe show_weekday s =
     (case sched_kind s of
        Cron e \<Rightarrow> ''cron '' @ e
      | Daily t \<Rightarrow> ''daily '' @ fmt_time t
      | Weekly wd t \<Rightarrow> ''weekly '' @ show_weekday wd @ '' '' @ fmt_time t
      | Interval ev \<Rightarrow> ''interval '' @ fmt_duration ev
      | Manual \<Rightarrow> ''manual''
      | Startup \<Rightarrow> ''startup'')"

section \<open>Next run\<close>

definition wall :: "'tz time_lib \<Rightarrow> int \<Rightarrow> 'tz \<Rightarrow> int" where
  "wall L now tz = now + get_offset_utc L tz now"

definition from_unix_timestamp :: "'tz time_lib \<Rightarrow> int \<Rightarrow> int option" where
  "from_unix_timestamp L t = (if in_range L t then Some t else None)"

definition to_utc :: "'tz time_lib \<Rightarrow> 'tz \<Rightarrow> int \<Rightarrow> int option" where
  "to_utc L tz local =
     (case get_offset_local L tz local of
        OffSome off \<Rightarrow> from_unix_timestamp L (local - off)
      | OffAmbiguous a b \<Rightarrow> from_unix_timestamp L (local - a)
      | OffNone \<Rightarrow> None)"

text \<open>The bounded loops of \<open>daily_next\<close> and \<open>weekly_next\<close> over consecutive dates.\<close>

fun daily_loop :: "'tz time_lib \<Rightarrow> 'tz \<Rightarrow> int \<Rightarrow> int \<Rightarrow> nat \<Rightarrow> int \<Rightarrow> int option" where
  "daily_loop L tz at_s now 0 date = None"
| "daily_loop L tz at_s now (Suc n) date =
     (case to_utc L tz (date * 86400 + at_s) of
        Some cand \<Rightarrow>
          if cand > now then Some cand
          else if has_next_day L date then daily_loop L tz at_s now n (date + 1) else None
      | None \<Rightarrow> if has_next_day L date then daily_loop L tz at_s now n (date + 1) else None)"

definition daily_next :: "'tz time_lib \<Rightarrow> int \<Rightarrow> int \<Rightarrow> 'tz \<Rightarrow> int option" where
  "daily_next L at_s now tz = daily_loop L tz at_s now 3 (wall L now tz div 86400)"

fun weekly_loop :: "'tz time_lib \<Rightarrow> 'tz \<Rightarrow> Weekday \<Rightarrow> int \<Rightarrow> int \<Rightarrow> nat \<Rightarrow> int \<Rightarrow> int option" where
  "weekly_loop L tz wd at_s now 0 date = None"
| "weekly_loop L tz wd at_s now (Suc n) date =
     (let continue = (if has_next_day L date then weekly_loop L tz wd at_s now n (date + 1) else None)
      in if cal_weekday L date = wd then
           (case to_utc L tz (date * 86400 + at_s) of
              Some cand \<Rightarrow> if cand > now then Some cand else continue
            | None \<Rightarrow> continue)
         else continue)"

definition weekly_next :: "'tz time_lib \<Rightarrow> Weekday \<Rightarrow> int \<Rightarrow> int \<Rightarrow> 'tz \<Rightarrow> int option" where
  "weekly_next L wd at_s now tz = weekly_loop L tz wd at_s now 9 (wall L now tz div 86400)"

text \<open>
  \<open>interval_next\<close>: \<open>None\<close> is a loop that does not end, which the \<open>while\<close> allows when \<open>every\<close> is
  not positive, or the panic of an addition that leaves the range of \<open>OffsetDateTime\<close>.
\<close>

partial_function (option) advance :: "'tz time_lib \<Rightarrow> int \<Rightarrow> int \<Rightarrow> int \<Rightarrow> int option" where
  "advance L next every now =
     (if next \<le> now then (if in_range L (next + every) then advance L (next + every) every now else None)
      else Some next)"

definition interval_next :: "'tz time_lib \<Rightarrow> int \<Rightarrow> int \<Rightarrow> int \<Rightarrow> int option" where
  "interval_next L anchor every now =
     (let every_s = nat (max every 1);
          span_secs = nat (max (now - anchor) 0);
          k = span_secs div every_s;
          next = anchor + u64_as_i64 ((k + 1) * every_s)
      in if in_range L next then advance L next every now else None)"

definition wall_fields_of :: "'tz time_lib \<Rightarrow> int \<Rightarrow> wall_fields" where
  "wall_fields_of L t =
     \<lparr>w_minute = nat (t mod 3600 div 60), w_hour = nat (t mod 86400 div 3600),
      w_day = cal_day L (t div 86400), w_month = cal_month L (t div 86400),
      w_dow = dow_num (cal_weekday L (t div 86400))\<rparr>"

definition MAX_MINUTES :: nat where
  "MAX_MINUTES = 2 * 366 * 24 * 60"

fun cron_scan :: "'tz time_lib \<Rightarrow> 'tz \<Rightarrow> CronExpr \<Rightarrow> int \<Rightarrow> nat \<Rightarrow> int \<Rightarrow> int option" where
  "cron_scan L tz cron now 0 t = None"
| "cron_scan L tz cron now (Suc n) t =
     (if cron_matches cron (wall_fields_of L t) then
        (case to_utc L tz t of
           Some utc \<Rightarrow> if utc > now then Some utc else cron_scan L tz cron now n (t + 60)
         | None \<Rightarrow> cron_scan L tz cron now n (t + 60))
      else cron_scan L tz cron now n (t + 60))"

definition cron_next :: "'tz time_lib \<Rightarrow> string \<Rightarrow> int \<Rightarrow> 'tz \<Rightarrow> int option" where
  "cron_next L expr now tz =
     (case cron_expr_parse expr of
        Inl _ \<Rightarrow> None
      | Inr cron \<Rightarrow>
          (let now_local = wall L now tz;
               candidate = now_local - now_local mod 60 + 60
           in cron_scan L tz cron now MAX_MINUTES candidate))"

text \<open>
  \<open>next_after\<close>. The outer option is whether the call returns, the inner one is the source's
  \<open>Option\<close>.
\<close>

definition next_after :: "'tz time_lib \<Rightarrow> Schedule \<Rightarrow> int \<Rightarrow> 'tz \<Rightarrow> int option \<Rightarrow> int option option" where
  "next_after L s now tz anchor =
     (case sched_kind s of
        Cron e \<Rightarrow> Some (cron_next L e now tz)
      | Daily t \<Rightarrow> Some (daily_next L t now tz)
      | Weekly wd t \<Rightarrow> Some (weekly_next L wd t now tz)
      | Interval ev \<Rightarrow> map_option Some (interval_next L (opt_default now anchor) ev now)
      | Manual \<Rightarrow> Some None
      | Startup \<Rightarrow> Some None)"

section \<open>Intervals stay on the anchor grid\<close>

lemma advance_stop: "now < nxt \<Longrightarrow> advance L nxt every now = Some nxt"
  by (simp add: advance.simps)

lemma advance_future: "advance L nxt every now = Some r \<Longrightarrow> now < r"
proof (rule advance.raw_induct [where P = "\<lambda>L nxt every now r. now < r"])
  fix f and L :: "'a time_lib" and nxt every now r :: int
  assume IH: "\<And>L nxt every now r. f L nxt every now = Some r \<Longrightarrow> now < r"
    and eq: "(if nxt \<le> now then (if in_range L (nxt + every) then f L (nxt + every) every now else None) else Some nxt) = Some r"
  show "now < r"
    using IH [of L "nxt + every" every now r] eq by (cases "nxt \<le> now"; cases "in_range L (nxt + every)") auto
qed assumption

lemma u64_as_i64_small: "int n < 2 ^ 63 \<Longrightarrow> u64_as_i64 n = int n"
  by (simp add: u64_as_i64_def nat_less_iff)

text \<open>The loop of \<open>interval_next\<close> never runs when the anchor is not in the future.\<close>

lemma interval_next_past_anchor:
  assumes "anchor \<le> now" and "1 \<le> every" and "now - anchor + every < 2 ^ 63"
  shows "interval_next L anchor every now =
    (let next = anchor + ((now - anchor) div every + 1) * every in if in_range L next then Some next else None)"
proof -
  let ?k = "(now - anchor) div every"
  have k: "int (nat (now - anchor) div nat every) = ?k"
    using assms by (simp add: zdiv_int)
  have prod: "int ((nat (now - anchor) div nat every + 1) * nat every) = (?k + 1) * every"
    using assms by (simp add: k algebra_simps)
  have mod: "0 \<le> (now - anchor) mod every" "(now - anchor) mod every < every" using assms by auto
  have le: "?k * every \<le> now - anchor" and gt: "now - anchor < (?k + 1) * every"
    using mod div_mult_mod_eq [of "now - anchor" every] distrib_right [of ?k 1 every] by linarith+
  have "(?k + 1) * every < 2 ^ 63" using le assms by (simp add: algebra_simps)
  then have "u64_as_i64 ((nat (now - anchor) div nat every + 1) * nat every) = (?k + 1) * every"
    using prod u64_as_i64_small by metis
  moreover have "max (now - anchor) 0 = now - anchor" and "max every 1 = every" using assms by auto
  moreover have "now < anchor + (?k + 1) * every" using gt by linarith
  ultimately show ?thesis by (simp only: interval_next_def Let_def advance_stop)
qed

lemma interval_next_future_anchor:
  assumes "now < anchor" and "1 \<le> every" and "every < 2 ^ 63"
  shows "interval_next L anchor every now = (if in_range L (anchor + every) then Some (anchor + every) else None)"
  using assms by (simp add: interval_next_def Let_def max_def u64_as_i64_small advance_stop)

section \<open>Bounded searches\<close>

lemma to_utc_in_range: "to_utc L tz t = Some u \<Longrightarrow> in_range L u"
  by (auto simp: to_utc_def from_unix_timestamp_def split: OffsetResult.splits if_splits)

lemma daily_loop_future: "daily_loop L tz at_s now n d = Some r \<Longrightarrow> now < r"
  by (induction n arbitrary: d) (auto split: option.splits if_splits)

lemma weekly_loop_future: "weekly_loop L tz wd at_s now n d = Some r \<Longrightarrow> now < r"
  by (induction n arbitrary: d) (auto simp: Let_def split: option.splits if_splits)

text \<open>
  Candidate \<open>t\<close> is acceptable for the cron search: it matches, exists as a wall time and lies after
  \<open>now\<close>. The scan returns the first acceptable candidate of its window and nothing else.
\<close>

definition cron_hit :: "'tz time_lib \<Rightarrow> 'tz \<Rightarrow> CronExpr \<Rightarrow> int \<Rightarrow> int \<Rightarrow> int \<Rightarrow> bool" where
  "cron_hit L tz cron now t u \<longleftrightarrow>
     cron_matches cron (wall_fields_of L t) \<and> to_utc L tz t = Some u \<and> now < u"

lemma cron_scan_Some:
  "cron_scan L tz cron now n t = Some r \<longleftrightarrow>
     (\<exists>i < n. cron_hit L tz cron now (t + 60 * int i) r \<and>
             (\<forall>j < i. \<forall>u. \<not> cron_hit L tz cron now (t + 60 * int j) u))"
proof (induction n arbitrary: t)
  case 0
  then show ?case by simp
next
  case (Suc n)
  have shift: "t + 60 + 60 * int i = t + 60 * int (Suc i)" for i by simp
  show ?case
  proof (cases "\<exists>u. cron_hit L tz cron now t u")
    case True
    then obtain u where u: "cron_hit L tz cron now t u" by blast
    then have scan: "cron_scan L tz cron now (Suc n) t = Some u"
      by (auto simp: cron_hit_def)
    show ?thesis (is "_ \<longleftrightarrow> ?R")
    proof
      assume "cron_scan L tz cron now (Suc n) t = Some r"
      with scan u show ?R by (intro exI [of _ 0]) simp
    next
      assume ?R
      then obtain i where i: "cron_hit L tz cron now (t + 60 * int i) r"
        "\<forall>j < i. \<forall>u. \<not> cron_hit L tz cron now (t + 60 * int j) u" by blast
      have "i = 0"
      proof (rule ccontr)
        assume "i \<noteq> 0"
        with i(2) have "\<not> cron_hit L tz cron now (t + 60 * int 0) u" by blast
        with u show False by simp
      qed
      with i(1) u have "r = u" by (simp add: cron_hit_def)
      with scan show "cron_scan L tz cron now (Suc n) t = Some r" by simp
    qed
  next
    case False
    then have skip: "cron_scan L tz cron now (Suc n) t = cron_scan L tz cron now n (t + 60)"
      by (auto simp: cron_hit_def split: option.splits)
    have "(\<exists>i < Suc n. cron_hit L tz cron now (t + 60 * int i) r \<and>
             (\<forall>j < i. \<forall>u. \<not> cron_hit L tz cron now (t + 60 * int j) u)) \<longleftrightarrow>
          (\<exists>i < n. cron_hit L tz cron now (t + 60 * int (Suc i)) r \<and>
             (\<forall>j < i. \<forall>u. \<not> cron_hit L tz cron now (t + 60 * int (Suc j)) u))"
      (is "?A = ?B")
    proof
      assume ?A
      then obtain i where i: "i < Suc n" "cron_hit L tz cron now (t + 60 * int i) r"
        "\<forall>j < i. \<forall>u. \<not> cron_hit L tz cron now (t + 60 * int j) u" by blast
      with False obtain m where "i = Suc m" by (cases i) auto
      moreover have "\<not> cron_hit L tz cron now (t + 60 * int (Suc j)) u" if "j < m" for j u
        using i(3) [rule_format, of "Suc j" u] that \<open>i = Suc m\<close> by simp
      ultimately show ?B using i by blast
    next
      assume ?B
      then obtain i where i: "i < n" "cron_hit L tz cron now (t + 60 * int (Suc i)) r"
        "\<forall>j < i. \<forall>u. \<not> cron_hit L tz cron now (t + 60 * int (Suc j)) u" by blast
      have "\<not> cron_hit L tz cron now (t + 60 * int j) u" if "j < Suc i" for j u
        using i(3) False that by (cases j) auto
      with i show ?A by blast
    qed
    with skip Suc.IH [of "t + 60"] shift show ?thesis by simp
  qed
qed

lemma cron_scan_None:
  "cron_scan L tz cron now n t = None \<longleftrightarrow>
     (\<forall>i < n. \<forall>u. \<not> cron_hit L tz cron now (t + 60 * int i) u)"
proof (induction n arbitrary: t)
  case (Suc n)
  have "(\<forall>i < Suc n. \<forall>u. \<not> cron_hit L tz cron now (t + 60 * int i) u) \<longleftrightarrow>
        (\<forall>u. \<not> cron_hit L tz cron now t u) \<and>
        (\<forall>i < n. \<forall>u. \<not> cron_hit L tz cron now (t + 60 + 60 * int i) u)"
    by (auto simp: less_Suc_eq_0_disj algebra_simps)
  then show ?case using Suc.IH [of "t + 60"]
    by (auto simp: cron_hit_def split: option.splits)
qed auto

lemma cron_next_future: "cron_next L e now tz = Some r \<Longrightarrow> now < r"
  by (auto simp: cron_next_def Let_def cron_scan_Some cron_hit_def split: sum.splits)

lemmas next_future = daily_loop_future weekly_loop_future cron_next_future advance_future

lemma next_after_future_aux:
  "next_after L s now tz anchor = Some (Some r) \<Longrightarrow> now < r"
  by (auto simp: next_after_def daily_next_def weekly_next_def interval_next_def Let_def
      dest: next_future split: ScheduleKind.splits if_splits)

section \<open>Zones with a fixed offset\<close>

definition fixed_zone :: "'tz time_lib \<Rightarrow> 'tz \<Rightarrow> int \<Rightarrow> bool" where
  "fixed_zone L tz off \<longleftrightarrow>
     (\<forall>t. get_offset_utc L tz t = off \<and> get_offset_local L tz t = OffSome off)
     \<and> (\<forall>t. in_range L t) \<and> (\<forall>d. has_next_day L d)"

lemma to_utc_fixed: "fixed_zone L tz off \<Longrightarrow> to_utc L tz t = Some (t - off)"
  by (simp add: fixed_zone_def to_utc_def from_unix_timestamp_def)

lemma daily_next_fixed:
  assumes "fixed_zone L tz off" and "0 \<le> at_s" and "at_s < 86400"
  shows "\<exists>r. daily_next L at_s now tz = Some r \<and> now < r \<and> r \<le> now + 86400 \<and> (r + off) mod 86400 = at_s"
proof -
  define d where "d = (now + off) div 86400"
  define m where "m = (now + off) mod 86400"
  have now: "now + off = d * 86400 + m" by (simp add: d_def m_def)
  have bounds: "0 \<le> m" "m < 86400" by (auto simp: m_def)
  have nd: "has_next_day L x" for x using assms(1) by (simp add: fixed_zone_def)
  have w: "wall L now tz div 86400 = d" using assms(1) by (simp add: wall_def fixed_zone_def d_def)
  have occ: "(d' * 86400 + at_s - off + off) mod 86400 = at_s" for d' using assms by simp
  show ?thesis
  proof (cases "now < d * 86400 + at_s - off")
    case True
    then have "daily_next L at_s now tz = Some (d * 86400 + at_s - off)"
      by (simp add: daily_next_def w eval_nat_numeral to_utc_fixed [OF assms(1)])
    with True occ [of d] now bounds assms show ?thesis by auto
  next
    case False
    have "now < (d + 1) * 86400 + at_s - off" using now bounds(2) assms(2) by (simp add: distrib_right)
    with False have "daily_next L at_s now tz = Some ((d + 1) * 86400 + at_s - off)"
      by (simp add: daily_next_def w eval_nat_numeral nd to_utc_fixed [OF assms(1)])
    with False occ [of "d + 1"] now bounds assms show ?thesis by auto
  qed
qed

section \<open>Durations\<close>

lemma digits_fold_mono: "n \<le> foldl (\<lambda>n d. 10 * n + digit_val d) n xs"
proof (induction xs arbitrary: n)
  case (Cons x xs)
  have "n \<le> 10 * n + digit_val x" by simp
  also have "\<dots> \<le> foldl (\<lambda>n d. 10 * n + digit_val d) (10 * n + digit_val x) xs" by (rule Cons.IH)
  finally show ?case by simp
qed simp

lemma duration_loop_digits:
  assumes "list_all is_digit ds" and "ds \<noteq> []"
    and "foldl (\<lambda>n d. 10 * n + digit_val d) (d_num st) ds \<le> u64_max"
  shows "duration_loop st (ds @ cs) =
           duration_loop (st\<lparr>d_num := foldl (\<lambda>n d. 10 * n + digit_val d) (d_num st) ds, saw_digit := True\<rparr>) cs"
  using assms
proof (induction ds arbitrary: st)
  case (Cons d ds)
  let ?n = "10 * d_num st + digit_val d"
  have le: "?n \<le> u64_max" using Cons.prems(3) digits_fold_mono [of ?n ds] by simp
  then have step: "duration_step st d = Ok (st\<lparr>d_num := ?n, saw_digit := True\<rparr>)"
    using Cons.prems(1) by (simp add: duration_step_def push_digit_def)
  show ?case
  proof (cases "ds = []")
    case True
    then show ?thesis by (simp add: step)
  next
    case False
    then show ?thesis
      using Cons.IH [of "st\<lparr>d_num := ?n, saw_digit := True\<rparr>"] Cons.prems by (simp add: step)
  qed
qed simp

lemma parse_duration_unit:
  assumes "0 \<le> n" and "n * unit_secs c \<le> i64_max" and "is_unit c"
  shows "parse_duration_human (show_int n @ [c]) = Ok (n * unit_secs c)"
proof -
  have one: "1 \<le> unit_secs c" by (simp add: unit_secs_def)
  have "n * 1 \<le> n * unit_secs c" by (rule mult_left_mono) (use assms one in auto)
  then have n: "n \<le> i64_max" using assms by simp
  have digits: "list_all is_digit (show_nat (nat n))" "show_nat (nat n) \<noteq> []"
    using show_nat_digits by auto
  have val: "foldl (\<lambda>n d. 10 * n + digit_val d) 0 (show_nat (nat n)) = nat n"
    using digits_val_show_nat [of "nat n"] by (simp add: digits_val_def)
  have "nat n \<le> u64_max" using n by (simp add: u64_max_def i64_max_def)
  then have loop: "duration_loop \<lparr>d_total = 0, d_num = 0, saw_digit = False, saw_unit = False\<rparr> (show_int n @ [c]) =
      duration_loop \<lparr>d_total = 0, d_num = nat n, saw_digit = True, saw_unit = False\<rparr> [c]"
    using duration_loop_digits [OF digits, of "\<lparr>d_total = 0, d_num = 0, saw_digit = False, saw_unit = False\<rparr>" "[c]"]
      assms(1) by (simp add: val show_int_def)
  have nd: "\<not> is_digit c" using assms(3) by (auto simp: is_digit_def is_unit_def)
  have i64: "u64_as_i64 (nat n) = n" using assms(1) n by (simp add: u64_as_i64_small i64_max_def)
  have "0 \<le> n * unit_secs c" using assms(1) one by simp
  then have "checked_secs (n * unit_secs c) = Ok (n * unit_secs c)"
    using assms(2) by (simp add: checked_secs_def i64_min_def)
  with nd assms(3) have "duration_step \<lparr>d_total = 0, d_num = nat n, saw_digit = True, saw_unit = False\<rparr> c =
      Ok \<lparr>d_total = n * unit_secs c, d_num = 0, saw_digit = False, saw_unit = True\<rparr>"
    by (simp add: duration_step_def i64)
  with loop show ?thesis by (simp add: parse_duration_human_def)
qed

lemma fmt_duration_cases:
  "\<exists>c n. is_unit c \<and> fmt_duration d = show_int n @ [c] \<and> n * unit_secs c = d"
proof -
  consider "86400 dvd d" | "\<not> 86400 dvd d" "3600 dvd d" | "\<not> 86400 dvd d" "\<not> 3600 dvd d" "60 dvd d"
    | "\<not> 86400 dvd d" "\<not> 3600 dvd d" "\<not> 60 dvd d" by blast
  then show ?thesis
  proof cases
    case 1
    then show ?thesis
      by (intro exI [of _ "CHR ''d''"] exI [of _ "d div 86400"]) (simp add: fmt_duration_def unit_secs_def is_unit_def)
  next
    case 2
    then show ?thesis
      by (intro exI [of _ "CHR ''h''"] exI [of _ "d div 3600"]) (simp add: fmt_duration_def unit_secs_def is_unit_def)
  next
    case 3
    then show ?thesis
      by (intro exI [of _ "CHR ''m''"] exI [of _ "d div 60"]) (simp add: fmt_duration_def unit_secs_def is_unit_def)
  next
    case 4
    then show ?thesis
      by (intro exI [of _ "CHR ''s''"] exI [of _ d]) (simp add: fmt_duration_def unit_secs_def is_unit_def)
  qed
qed

lemma fmt_duration_parse_aux:
  assumes "0 \<le> d" and "d \<le> i64_max"
  shows "parse_duration_human (fmt_duration d) = Ok d"
proof -
  obtain c n where c: "is_unit c"
    and f: "fmt_duration d = show_int n @ [c]" and n: "n * unit_secs c = d"
    using fmt_duration_cases by blast
  have "0 < unit_secs c" by (simp add: unit_secs_def)
  then have "0 \<le> n" using n assms(1) by (metis mult_neg_pos not_le)
  with parse_duration_unit [of n c] c n f assms show ?thesis by simp
qed

section \<open>Weekly schedules\<close>

fun next_weekday :: "Weekday \<Rightarrow> Weekday" where
  "next_weekday Sunday = Monday"
| "next_weekday Monday = Tuesday"
| "next_weekday Tuesday = Wednesday"
| "next_weekday Wednesday = Thursday"
| "next_weekday Thursday = Friday"
| "next_weekday Friday = Saturday"
| "next_weekday Saturday = Sunday"

definition weekdays_cycle :: "'tz time_lib \<Rightarrow> bool" where
  "weekdays_cycle L \<longleftrightarrow> (\<forall>d. cal_weekday L (d + 1) = next_weekday (cal_weekday L d))"

lemma weekday_within_week:
  assumes "weekdays_cycle L"
  shows "\<exists>k < 7. cal_weekday L (d + int k) = wd"
proof -
  have step: "cal_weekday L (d + int (Suc k)) = next_weekday (cal_weekday L (d + int k))" for k
    using assms unfolding weekdays_cycle_def by (metis add.assoc add.commute of_nat_Suc)
  have "cal_weekday L (d + int k) = (next_weekday ^^ k) (cal_weekday L d)" for k
    by (induction k) (use step in auto)
  moreover have "\<exists>k < 7. (next_weekday ^^ k) a = wd" for a
  proof -
    have "wd \<in> (\<lambda>k. (next_weekday ^^ k) a) ` {0, Suc 0, 2, 3, 4, 5, 6}"
      by (cases a; cases wd) (simp_all add: eval_nat_numeral)
    then obtain k where "k \<in> {0, Suc 0, 2, 3, 4, 5, 6}" and "(next_weekday ^^ k) a = wd" by blast
    then show ?thesis by (intro exI [of _ k]) auto
  qed
  ultimately show ?thesis by auto
qed

text \<open>The weekly loop over a fixed zone: the first day of the right name whose time lies after \<open>now\<close>.\<close>

lemma weekly_loop_fixed:
  assumes "fixed_zone L tz off"
    and "k < n" and "cal_weekday L (d + int k) = wd" and "now < (d + int k) * 86400 + at_s - off"
  shows "\<exists>j \<le> k. weekly_loop L tz wd at_s now n d = Some ((d + int j) * 86400 + at_s - off)
           \<and> cal_weekday L (d + int j) = wd"
  using assms(2-4)
proof (induction n arbitrary: d k)
  case (Suc n)
  have nd: "has_next_day L x" for x using assms(1) by (simp add: fixed_zone_def)
  show ?case
  proof (cases "cal_weekday L d = wd \<and> now < d * 86400 + at_s - off")
    case True
    then show ?thesis by (intro exI [of _ 0]) (simp add: Let_def to_utc_fixed [OF assms(1)])
  next
    case False
    with Suc.prems obtain k' where k': "k = Suc k'" by (cases k) auto
    have skip: "weekly_loop L tz wd at_s now (Suc n) d = weekly_loop L tz wd at_s now n (d + 1)"
      using False by (auto simp: Let_def nd to_utc_fixed [OF assms(1)])
    have eq: "d + 1 + int k' = d + int k" using k' by simp
    from Suc.IH [of k' "d + 1"] Suc.prems k' eq
    obtain j where j: "j \<le> k'" "weekly_loop L tz wd at_s now n (d + 1) = Some ((d + 1 + int j) * 86400 + at_s - off)"
      "cal_weekday L (d + 1 + int j) = wd" by auto
    then show ?thesis using skip k' by (intro exI [of _ "Suc j"]) (simp add: algebra_simps)
  qed
qed simp

lemma weekly_next_fixed:
  assumes "fixed_zone L tz off" and "weekdays_cycle L" and "0 \<le> at_s" and "at_s < 86400"
  shows "\<exists>r. weekly_next L wd at_s now tz = Some r \<and> now < r \<and> r \<le> now + 8 * 86400
           \<and> (r + off) mod 86400 = at_s \<and> cal_weekday L ((r + off) div 86400) = wd"
proof -
  define d where "d = (now + off) div 86400"
  have w: "wall L now tz div 86400 = d" using assms(1) by (simp add: wall_def fixed_zone_def d_def)
  have lo: "d * 86400 \<le> now + off" and hi: "now + off < (d + 1) * 86400"
    by (auto simp: d_def algebra_simps)
  obtain k where k: "k < 7" "cal_weekday L (d + 1 + int k) = wd"
    using weekday_within_week [OF assms(2)] by blast
  have eq: "d + int (Suc k) = d + 1 + int k" by simp
  have "(d + 1) * 86400 \<le> (d + int (Suc k)) * 86400" by simp
  then have "now < (d + int (Suc k)) * 86400 + at_s - off" using hi assms(3) by linarith
  from weekly_loop_fixed [OF assms(1) _ _ this, of 9 wd] k eq
  obtain j where j: "j \<le> Suc k" "weekly_next L wd at_s now tz = Some ((d + int j) * 86400 + at_s - off)"
    "cal_weekday L (d + int j) = wd" unfolding weekly_next_def w eq by fastforce
  define D where "D = d + int j"
  note D = j(2,3) [folded D_def]
  have "now < D * 86400 + at_s - off"
    using D(1) weekly_loop_future by (auto simp: weekly_next_def)
  moreover have "D * 86400 \<le> (d + 7) * 86400" using j(1) k(1) by (simp add: D_def)
  then have "D * 86400 + at_s - off \<le> now + 8 * 86400" using lo assms(4) by (simp add: distrib_right)
  moreover have "(D * 86400 + at_s - off + off) mod 86400 = at_s" "(D * 86400 + at_s - off + off) div 86400 = D"
    using assms by auto
  ultimately show ?thesis using D by (intro exI [of _ "D * 86400 + at_s - off"]) simp
qed

text \<open>
  A concrete time library: the proleptic Gregorian calendar and a zone given by its constant offset.
\<close>

definition civil_month_day :: "int \<Rightarrow> nat \<times> nat" where
  "civil_month_day z0 =
     (let z = z0 + 719468; doe = z mod 146097;
          yoe = (doe - doe div 1460 + doe div 36524 - doe div 146096) div 365;
          doy = doe - (365 * yoe + yoe div 4 - yoe div 100);
          mp = (5 * doy + 2) div 153
      in (nat (if mp < 10 then mp + 3 else mp - 9), nat (doy - (153 * mp + 2) div 5 + 1)))"

definition weekday_of :: "int \<Rightarrow> Weekday" where
  "weekday_of d = [Thursday, Friday, Saturday, Sunday, Monday, Tuesday, Wednesday] ! nat (d mod 7)"

definition offset_lib :: "int time_lib" where
  "offset_lib = \<lparr>in_range = (\<lambda>_. True), get_offset_utc = (\<lambda>off _. off), get_offset_local = (\<lambda>off _. OffSome off),
     has_next_day = (\<lambda>_. True), cal_weekday = weekday_of,
     cal_month = (\<lambda>d. fst (civil_month_day d)), cal_day = (\<lambda>d. snd (civil_month_day d))\<rparr>"

lemma offset_lib_fixed: "fixed_zone offset_lib off off"
  by (simp add: fixed_zone_def offset_lib_def)

lemma offset_lib_cycle: "weekdays_cycle offset_lib"
proof -
  have "weekday_of (d + 1) = next_weekday (weekday_of d)" for d
  proof -
    have r: "0 \<le> d mod 7" "d mod 7 < 7" by auto
    then have "d mod 7 \<in> {0, 1, 2, 3, 4, 5, 6}" by auto
    moreover have "(d + 1) mod 7 = (d mod 7 + 1) mod 7" by (simp add: mod_add_left_eq)
    ultimately show ?thesis by (auto simp: weekday_of_def eval_nat_numeral)
  qed
  then show ?thesis by (simp add: weekdays_cycle_def offset_lib_def)
qed

section \<open>Properties\<close>

text \<open>C34: The next run is in the future. Whatever the schedule kind, the time zone, the anchor and the
  time libraries, an instant that \<open>next_after\<close> returns lies strictly after \<open>now\<close>.\<close>

theorem next_after_strictly_future:
  assumes "next_after L s now tz anchor = Some (Some r)"
  shows "now < r"
  using assms by (rule next_after_future_aux)

theorem next_after_strictly_future_witness:
  "next_after offset_lib \<lparr>sched_kind = Interval 3600\<rparr> 10000 0 (Some 1000) = Some (Some 11800) \<and> (10000 :: int) < 11800"
proof -
  have "interval_next offset_lib 1000 3600 10000 = Some 11800"
    using interval_next_past_anchor [of 1000 10000 3600 offset_lib] by (simp add: offset_lib_def)
  then have *: "next_after offset_lib \<lparr>sched_kind = Interval 3600\<rparr> 10000 0 (Some 1000) = Some (Some 11800)"
    by (simp add: next_after_def)
  from next_after_strictly_future [OF *] * show ?thesis by blast
qed

text \<open>Interval schedules return and stay on the grid of their anchor. For a period of at least a
  second and an anchor that is not in the future, \<open>interval_next\<close> returns (its loop ends) the first
  point of the grid \<open>anchor + k * every\<close> after \<open>now\<close>: it is on the grid, after \<open>now\<close> and at most one
  period away, so a late tick never shifts the phase. For an anchor in the future it returns the
  point one period after the anchor. It panics when that point is not an instant of the time library.\<close>

lemma interval_next_grid:
  assumes "1 \<le> every" and "every < 2 ^ 63" and "now - anchor + every < 2 ^ 63"
  shows "\<exists>r. interval_next L anchor every now = (if in_range L r then Some r else None)
    \<and> (anchor \<le> now \<longrightarrow> (\<exists>k \<ge> 1. r = anchor + k * every) \<and> now < r \<and> r \<le> now + every)
    \<and> (now < anchor \<longrightarrow> r = anchor + every)"
proof (cases "anchor \<le> now")
  case True
  let ?k = "(now - anchor) div every"
  have mod: "0 \<le> (now - anchor) mod every" "(now - anchor) mod every < every" using assms(1) by auto
  have "?k * every \<le> now - anchor" "now - anchor < (?k + 1) * every"
    using mod div_mult_mod_eq [of "now - anchor" every] distrib_right [of ?k 1 every] by linarith+
  moreover have "0 \<le> ?k" using True assms(1) by (simp add: pos_imp_zdiv_nonneg_iff)
  ultimately show ?thesis
    using interval_next_past_anchor [OF True assms(1) assms(3), of L] True
    by (intro exI [of _ "anchor + (?k + 1) * every"]) (auto simp: algebra_simps Let_def intro!: exI [of _ "?k + 1"])
next
  case False
  then show ?thesis using interval_next_future_anchor [of now anchor every L] assms by auto
qed

theorem interval_next_grid_witness:
  "\<exists>r. interval_next offset_lib 100 60 250 = Some r \<and> 250 < r \<and> r \<le> 310"
  using interval_next_grid [of 60 250 100 offset_lib] by (auto simp: offset_lib_def)

text \<open>C35: A cron schedule returns its earliest match. When the expression parses, the answer is the first
  candidate of the minute grid that follows \<open>now\<close> (up to \<open>MAX_MINUTES\<close> minutes ahead) that matches the
  expression, exists in the time zone and lies after \<open>now\<close>; the answer is \<open>None\<close> exactly when the
  window has no such candidate.\<close>

theorem cron_next_first_match:
  assumes "cron_expr_parse e = Ok cron" and "t0 = wall L now tz - wall L now tz mod 60 + 60"
  shows "(cron_next L e now tz = Some r \<longleftrightarrow>
            (\<exists>i < MAX_MINUTES. cron_hit L tz cron now (t0 + 60 * int i) r
               \<and> (\<forall>j < i. \<forall>u. \<not> cron_hit L tz cron now (t0 + 60 * int j) u)))
       \<and> (cron_next L e now tz = None \<longleftrightarrow>
            (\<forall>i < MAX_MINUTES. \<forall>u. \<not> cron_hit L tz cron now (t0 + 60 * int i) u))"
  using assms(1) unfolding cron_next_def Let_def assms(2) sum.case cron_scan_Some cron_scan_None
  by (simp only: sum.case cron_scan_Some cron_scan_None simp_thms)

theorem cron_next_first_match_witness:
  "cron_next offset_lib ''0 30 * * * *'' 0 0 = Some 1800"
proof -
  have p: "cron_expr_parse ''0 30 * * * *'' =
      Ok \<lparr>c_minute = \<lparr>parts = [\<lparr>fp_min = 30, fp_max = 30, fp_step = 1\<rparr>]\<rparr>, c_hour = \<lparr>parts = [\<lparr>fp_min = 0, fp_max = 23, fp_step = 1\<rparr>]\<rparr>,
          c_dom = \<lparr>parts = [\<lparr>fp_min = 1, fp_max = 31, fp_step = 1\<rparr>]\<rparr>, c_month = \<lparr>parts = [\<lparr>fp_min = 1, fp_max = 12, fp_step = 1\<rparr>]\<rparr>,
          c_dow = \<lparr>parts = [\<lparr>fp_min = 0, fp_max = 7, fp_step = 1\<rparr>]\<rparr>\<rparr>" (is "_ = Ok ?c")
    by (simp add: cron_eval)
  have hit: "cron_hit offset_lib 0 ?c 0 (60 + 60 * int i) r \<longleftrightarrow> i = 29 \<and> r = 1800" if "i \<le> 29" for i r
  proof -
    have "(60 + 60 * int i) div 86400 = 0" "(60 + 60 * int i) mod 86400 div 3600 = 0"
      "(60 + 60 * int i) mod 3600 div 60 = 1 + int i"
      using that by auto
    moreover have "civil_month_day 0 = (1, 1)" and "dow_num (weekday_of 0) = 4"
      by code_simp+
    ultimately have f: "wall_fields_of offset_lib (60 + 60 * int i) =
        \<lparr>w_minute = Suc i, w_hour = 0, w_day = 1, w_month = 1, w_dow = 4\<rparr>"
      by (simp add: wall_fields_of_def offset_lib_def)
    show ?thesis unfolding cron_hit_def f
      by (auto simp: cron_matches_def day_ok_def is_full_range_def field_matches_def part_matches_def
          offset_lib_def to_utc_def from_unix_timestamp_def)
  qed
  have "(29 :: nat) < MAX_MINUTES" by (simp add: MAX_MINUTES_def)
  then have "\<exists>i < MAX_MINUTES. cron_hit offset_lib 0 ?c 0 (60 + 60 * int i) 1800
               \<and> (\<forall>j < i. \<forall>u. \<not> cron_hit offset_lib 0 ?c 0 (60 + 60 * int j) u)"
    by (intro exI [of _ 29] conjI allI impI) (simp_all only: hit le_refl less_imp_le simp_thms nat_less_le)
  then show ?thesis
    using cron_next_first_match [OF p, of 60 offset_lib 0 0 1800] by (simp add: wall_def offset_lib_def)
qed

text \<open>Daily and weekly schedules find their slot. In a zone of constant offset, a daily schedule
  always has a next run, at the configured second of the local day and at most a day ahead; a weekly
  one has a next run on the configured weekday, at the configured second, at most eight days ahead.
  The calendar is any one whose days have a successor and whose weekdays cycle.\<close>

lemma daily_weekly_next_found:
  assumes "fixed_zone L tz off" and "weekdays_cycle L" and "0 \<le> at_s" and "at_s < 86400"
  shows "(\<exists>r. daily_next L at_s now tz = Some r \<and> now < r \<and> r \<le> now + 86400 \<and> (r + off) mod 86400 = at_s)
    \<and> (\<exists>r. weekly_next L wd at_s now tz = Some r \<and> now < r \<and> r \<le> now + 8 * 86400
         \<and> (r + off) mod 86400 = at_s \<and> cal_weekday L ((r + off) div 86400) = wd)"
  using daily_next_fixed [OF assms(1,3,4)] weekly_next_fixed [OF assms] by blast

lemma daily_weekly_next_found_witness:
  "(\<exists>r. daily_next offset_lib 10800 1000000 28800 = Some r \<and> (r + 28800) mod 86400 = 10800)
   \<and> (\<exists>r. weekly_next offset_lib Sunday 10800 1000000 28800 = Some r \<and> weekday_of ((r + 28800) div 86400) = Sunday)"
proof -
  from daily_weekly_next_found [OF offset_lib_fixed [of 28800] offset_lib_cycle, of 10800 1000000 Sunday]
  obtain r where r: "weekly_next offset_lib Sunday 10800 1000000 28800 = Some r"
      "cal_weekday offset_lib ((r + 28800) div 86400) = Sunday"
    and dl: "\<exists>r. daily_next offset_lib 10800 1000000 28800 = Some r \<and> (r + 28800) mod 86400 = 10800" by auto
  then show ?thesis by (simp add: offset_lib_def)
qed

text \<open>Durations round-trip. Every non-negative number of seconds that \<open>Duration\<close> can hold is read
  back by \<open>parse_duration_human\<close> from what \<open>fmt_duration\<close> prints for it.\<close>

lemma fmt_duration_roundtrip:
  assumes "0 \<le> d" and "d \<le> i64_max"
  shows "parse_duration_human (fmt_duration d) = Ok d"
  using assms by (rule fmt_duration_parse_aux)

theorem fmt_duration_roundtrip_witness: "parse_duration_human (fmt_duration 5400) = Ok 5400"
  using fmt_duration_roundtrip [of 5400] by (simp add: i64_max_def)

text \<open>Huge durations are not refused as errors: the multiplication by the unit leaves the range of
  \<open>Duration\<close> and panics, and a number of at least \<open>2 ^ 63\<close> seconds wraps to a negative duration that is
  returned as a success.\<close>

lemma parse_duration_huge:
  "parse_duration_human ''9223372036854775807d'' = Err DurationPanic
   \<and> parse_duration_human ''18446744073709551615s'' = Ok (- 1)"
  by (simp add: parse_duration_human_def duration_step_def is_digit_def is_unit_def push_digit_def digit_val_def
      u64_max_def u64_as_i64_def unit_secs_def checked_secs_def i64_min_def i64_max_def)

end
