(* ===== verification/Job_Model.thy ===== *)
theory Job_Model
  imports Schedule
begin

text \<open>
  The job model of \<open>crates/synora-core/src/job.rs\<close> and the status encodings of
  \<open>crates/db/src/store.rs\<close>: job and run status with its API label, database text, gauge value and
  tunasync status; error kinds; provider configurations; the job specification itself.
\<close>

section \<open>Constants\<close>

definition RUN_LEASE_SECS :: int where "RUN_LEASE_SECS = 300"
definition WORKER_HEARTBEAT_GRACE_SECS :: int where "WORKER_HEARTBEAT_GRACE_SECS = 90"

section \<open>Status\<close>

datatype JobStatus =
    Pending | Scheduled | Queued | Syncing | Running | Success | SuccessWithWarnings
  | Failed | Retrying | Cancelling | Cancelled | Lost | Skipped

fun is_success :: "JobStatus \<Rightarrow> bool" where
  "is_success Success = True"
| "is_success SuccessWithWarnings = True"
| "is_success _ = False"

definition tunasync_status :: "bool \<Rightarrow> JobStatus \<Rightarrow> JobStatus option \<Rightarrow> bool \<Rightarrow> string" where
  "tunasync_status enabled current last_finished has_success =
     (if \<not> enabled then ''paused''
      else if current \<in> {Syncing, Running, Cancelling} then ''syncing''
      else if current \<in> {Failed, Lost, Skipped, Retrying} then ''failed''
      else if current \<in> {Success, SuccessWithWarnings} then ''success''
      else (case last_finished of
              Some l \<Rightarrow>
                if l \<in> {Failed, Lost, Skipped, Retrying} then ''failed''
                else if l \<in> {Success, SuccessWithWarnings} then ''success''
                else if l = Cancelled \<and> has_success then ''success''
                else if l = Cancelled then ''failed''
                else if has_success then ''success'' else ''none''
            | None \<Rightarrow> if has_success then ''success'' else ''none''))"

fun as_str :: "JobStatus \<Rightarrow> string" where
  "as_str Pending = ''pending''"
| "as_str Scheduled = ''scheduled''"
| "as_str Queued = ''queued''"
| "as_str Syncing = ''syncing''"
| "as_str Running = ''running''"
| "as_str Success = ''success''"
| "as_str SuccessWithWarnings = ''success_with_warnings''"
| "as_str Failed = ''failed''"
| "as_str Retrying = ''retrying''"
| "as_str Cancelling = ''cancelling''"
| "as_str Cancelled = ''cancelled''"
| "as_str Lost = ''lost''"
| "as_str Skipped = ''skipped''"

fun to_db :: "JobStatus \<Rightarrow> string" where
  "to_db Pending = ''PENDING''"
| "to_db Scheduled = ''SCHEDULED''"
| "to_db Queued = ''QUEUED''"
| "to_db Syncing = ''SYNCING''"
| "to_db Running = ''RUNNING''"
| "to_db Success = ''SUCCESS''"
| "to_db SuccessWithWarnings = ''SUCCESS_WITH_WARNINGS''"
| "to_db Failed = ''FAILED''"
| "to_db Retrying = ''RETRYING''"
| "to_db Cancelling = ''CANCELLING''"
| "to_db Cancelled = ''CANCELLED''"
| "to_db Lost = ''LOST''"
| "to_db Skipped = ''SKIPPED''"

definition from_db :: "string \<Rightarrow> JobStatus" where
  "from_db s =
     (if s = ''PENDING'' then Pending
      else if s = ''SCHEDULED'' then Scheduled
      else if s = ''QUEUED'' then Queued
      else if s = ''STARTING'' \<or> s = ''SYNCING'' then Syncing
      else if s = ''RUNNING'' then Running
      else if s = ''SUCCESS'' then Success
      else if s = ''SUCCESS_WITH_WARNINGS'' then SuccessWithWarnings
      else if s = ''FAILED'' then Failed
      else if s = ''RETRYING'' then Retrying
      else if s = ''CANCELLING'' then Cancelling
      else if s = ''CANCELLED'' then Cancelled
      else if s = ''LOST'' then Lost
      else if s = ''SKIPPED'' then Skipped
      else Pending)"

text \<open>Gauge values of \<open>status_value\<close> (\<open>crates/engine/src/executor.rs\<close>); all of them are integers.\<close>

fun status_value :: "JobStatus \<Rightarrow> nat" where
  "status_value Pending = 0"
| "status_value Scheduled = 1"
| "status_value Queued = 2"
| "status_value Syncing = 3"
| "status_value Running = 4"
| "status_value Success = 5"
| "status_value SuccessWithWarnings = 12"
| "status_value Failed = 6"
| "status_value Retrying = 7"
| "status_value Cancelling = 8"
| "status_value Cancelled = 9"
| "status_value Lost = 10"
| "status_value Skipped = 11"

section \<open>Errors and policies\<close>

datatype ErrorKind = NetworkError | TimeoutError | ProxyError | ProviderError | StorageError | ConfigError

datatype MisfirePolicy = MisfireSkip | RunImmediately | RunNext
datatype OnWorkerLost = LostRetry | LostFail
datatype StatisticsMode = StatProvider | StatFilesystem
datatype SnapshotPolicy = SnapNever | AfterSuccess | BeforeSync | BeforeAndAfter | SnapManual
datatype SnapshotFailure = SnapFail | SnapWarn | SnapIgnore

record Hooks =
  before_sync :: "string list"
  after_sync :: "string list"
  on_success :: "string list"
  on_failure :: "string list"

record Safety =
  max_delete_files :: "nat option"
  max_delete_ratio :: "f64 option"
  max_size_drop_ratio :: "f64 option"

record VerifyConfig =
  verify_enabled :: bool
  checks :: "string list"
  verify_command :: "string option"

record RetentionPolicy =
  keep_last :: "nat option"
  keep_daily :: "nat option"
  keep_weekly :: "nat option"
  keep_monthly :: "nat option"

definition default_retention :: RetentionPolicy where
  "default_retention = \<lparr>keep_last = None, keep_daily = None, keep_weekly = None, keep_monthly = None\<rparr>"

section \<open>Providers\<close>

datatype ProviderConfig =
    Rsync (options: "string list") (exclude: "string list")
  | Script (script_command: string) (env: "string list")
  | Docker (image: string) (options: "string list") (env: "string list") (volumes: "string list")
      (keep_container: bool) (network: "string option") (command: "string list")
  | Git (branch: "string option")
  | TwoStageRsync (options: "string list") (exclude: "string list") (stage1_profile: string)
  | Http (parser: string) (delete: bool) (warn_on_forbidden_files: bool) (threads: "nat option")
      (exclude: "string list")

fun provider_label :: "ProviderConfig \<Rightarrow> string" where
  "provider_label (Rsync _ _) = ''rsync''"
| "provider_label (TwoStageRsync _ _ _) = ''two-stage-rsync''"
| "provider_label (Script _ _) = ''script''"
| "provider_label (Docker _ _ _ _ _ _ _) = ''docker''"
| "provider_label (Git _) = ''git''"
| "provider_label (Http _ _ _ _ _) = ''http''"

section \<open>Job specification\<close>

record JobSpec =
  name :: string
  enabled :: bool
  worker :: "string option"
  provider :: ProviderConfig
  upstream :: "string option"
  storage :: string
  mirror_subdir :: "string option"
  storage_name :: "string option"
  proxy :: "string option"
  egress :: "string option"
  family :: string
  timeout :: "int option"
  retry :: nat
  retry_delay :: int
  retry_backoff :: f64
  success_exit_codes :: "int list"
  fail_on_match :: "string option"
  max_concurrency :: nat
  misfire_policy :: MisfirePolicy
  on_worker_lost :: OnWorkerLost
  timezone :: string
  statistics :: StatisticsMode
  resources :: "string list"
  priority :: int
  schedule :: Schedule
  hooks :: Hooks
  safety :: Safety
  memory_limit :: "nat option"
  cpu_limit :: "f64 option"
  depends_on :: "string list"
  snapshot_policy :: SnapshotPolicy
  snapshot_failure :: SnapshotFailure
  verify :: VerifyConfig

definition provider_name :: "JobSpec \<Rightarrow> string" where
  "provider_name job = provider_label (provider job)"

section \<open>Timestamps of tunasync.json\<close>

definition TUNASYNC_ZERO_TS :: int where "TUNASYNC_ZERO_TS = - 62135596800"

definition tunasync_ts :: "int option \<Rightarrow> int" where
  "tunasync_ts ts = (case ts of Some t \<Rightarrow> if t > 0 then t else TUNASYNC_ZERO_TS | None \<Rightarrow> TUNASYNC_ZERO_TS)"

section \<open>Encodings\<close>

lemma from_db_to_db: "from_db (to_db s) = s"
  by (cases s) (simp_all add: from_db_def)

lemma to_db_inj: "to_db a = to_db b \<longleftrightarrow> a = b"
  by (metis from_db_to_db)

lemma as_str_inj: "as_str a = as_str b \<longleftrightarrow> a = b"
  by (cases a; cases b) simp_all

lemma status_value_inj: "status_value a = status_value b \<longleftrightarrow> a = b"
  by (cases a; cases b) simp_all

lemma tunasync_status_range:
  "tunasync_status e c l h \<in> {''paused'', ''syncing'', ''failed'', ''success'', ''none''}"
  by (auto simp: tunasync_status_def split: option.splits)

section \<open>Properties\<close>

text \<open>Status encodings lose nothing. Reading back the database text of a status gives the status,
  the legacy text \<open>STARTING\<close> reads as \<open>Syncing\<close>, unknown text reads as \<open>Pending\<close>, and neither the API
  labels nor the gauge values confuse two statuses.\<close>

lemma status_encodings:
  "from_db (to_db s) = s \<and> from_db ''STARTING'' = Syncing
   \<and> (from_db t = Pending \<or> t = to_db (from_db t) \<or> t = ''STARTING'')
   \<and> (as_str a = as_str b \<longleftrightarrow> a = b) \<and> (status_value a = status_value b \<longleftrightarrow> a = b)"
proof -
  have "from_db t = Pending \<or> t = to_db (from_db t) \<or> t = ''STARTING''"
    by (simp add: from_db_def)
  then show ?thesis
    using from_db_to_db as_str_inj status_value_inj by (simp add: from_db_def)
qed

end
