(* ===== verification/Run_State.thy ===== *)
theory Run_State
  imports Job_Model
begin

text \<open>
  The run state machine and the retry policy of \<open>crates/synora-core/src/state.rs\<close>.
\<close>

section \<open>Transitions\<close>

datatype RunEvent =
    EvQueued | EvStarting | EvRunning | EvSuccess | EvSuccessWithWarnings | EvFailed | EvRetrying
  | EvCancelling | EvCancelled | EvLost

record StateError =
  err_from :: JobStatus
  err_event :: RunEvent

definition transition :: "JobStatus \<Rightarrow> RunEvent \<Rightarrow> StateError + JobStatus" where
  "transition cur ev =
     (case (cur, ev) of
        (Queued, EvStarting) \<Rightarrow> Ok Syncing
      | (Queued, EvCancelled) \<Rightarrow> Ok Cancelled
      | (Syncing, EvRunning) \<Rightarrow> Ok Running
      | (Syncing, EvSuccessWithWarnings) \<Rightarrow> Ok SuccessWithWarnings
      | (Running, EvSuccessWithWarnings) \<Rightarrow> Ok SuccessWithWarnings
      | (Syncing, EvSuccess) \<Rightarrow> Ok Success
      | (Syncing, EvFailed) \<Rightarrow> Ok Failed
      | (Syncing, EvCancelling) \<Rightarrow> Ok Cancelling
      | (Syncing, EvLost) \<Rightarrow> Ok Lost
      | (Running, EvSuccess) \<Rightarrow> Ok Success
      | (Running, EvFailed) \<Rightarrow> Ok Failed
      | (Running, EvCancelling) \<Rightarrow> Ok Cancelling
      | (Running, EvLost) \<Rightarrow> Ok Lost
      | (Failed, EvRetrying) \<Rightarrow> Ok Retrying
      | (Retrying, EvQueued) \<Rightarrow> Ok Queued
      | (Cancelling, EvCancelled) \<Rightarrow> Ok Cancelled
      | _ \<Rightarrow> Err \<lparr>err_from = cur, err_event = ev\<rparr>)"

text \<open>The status changes the state machine allows, whatever the event.\<close>

definition legal_step :: "JobStatus \<Rightarrow> JobStatus \<Rightarrow> bool" where
  "legal_step a b \<longleftrightarrow>
     (a, b) \<in> {(Queued, Syncing), (Queued, Cancelled), (Syncing, Running), (Syncing, SuccessWithWarnings),
       (Running, SuccessWithWarnings), (Syncing, Success), (Syncing, Failed), (Syncing, Cancelling),
       (Syncing, Lost), (Running, Success), (Running, Failed), (Running, Cancelling), (Running, Lost),
       (Failed, Retrying), (Retrying, Queued), (Cancelling, Cancelled)}"

lemma transition_legal: "transition a ev = Ok b \<Longrightarrow> legal_step a b"
  by (cases a; cases ev) (simp_all add: transition_def legal_step_def)

text \<open>An event that leads from one status to another, where the machine has one.\<close>

fun event_to :: "JobStatus \<Rightarrow> JobStatus \<Rightarrow> RunEvent" where
  "event_to _ Syncing = EvStarting"
| "event_to _ Cancelled = EvCancelled"
| "event_to _ Running = EvRunning"
| "event_to _ SuccessWithWarnings = EvSuccessWithWarnings"
| "event_to _ Success = EvSuccess"
| "event_to _ Failed = EvFailed"
| "event_to _ Cancelling = EvCancelling"
| "event_to _ Lost = EvLost"
| "event_to _ Retrying = EvRetrying"
| "event_to _ _ = EvQueued"

lemma legal_transition: "legal_step a b \<Longrightarrow> transition a (event_to a b) = Ok b"
  by (auto simp: legal_step_def transition_def)

lemma legal_step_iff: "legal_step a b \<longleftrightarrow> (\<exists>ev. transition a ev = Ok b)"
  using transition_legal legal_transition by blast

definition terminal :: "JobStatus \<Rightarrow> bool" where
  "terminal s \<longleftrightarrow> s \<in> {Success, SuccessWithWarnings, Cancelled, Lost, Skipped}"

lemma terminal_no_transition: "terminal s \<Longrightarrow> transition s ev = Err \<lparr>err_from = s, err_event = ev\<rparr>"
  by (auto simp: terminal_def transition_def)

text \<open>Runs of the machine over a list of events; an illegal event stops it.\<close>

fun run_events :: "JobStatus \<Rightarrow> RunEvent list \<Rightarrow> StateError + JobStatus" where
  "run_events s [] = Ok s"
| "run_events s (e # es) = and_then (transition s e) (\<lambda>s'. run_events s' es)"

text \<open>What a run can reach from \<open>QUEUED\<close>; \<open>PENDING\<close>, \<open>SCHEDULED\<close> and \<open>SKIPPED\<close> are not among it.\<close>

definition run_statuses :: "JobStatus set" where
  "run_statuses = {Queued, Syncing, Running, Success, SuccessWithWarnings, Failed, Retrying, Cancelling, Cancelled, Lost}"

lemma run_statuses_closed: "s \<in> run_statuses \<Longrightarrow> transition s e = Ok t \<Longrightarrow> t \<in> run_statuses"
  using transition_legal [of s e t] by (auto simp: legal_step_def run_statuses_def)

lemma run_events_closed: "s \<in> run_statuses \<Longrightarrow> run_events s es = Ok t \<Longrightarrow> t \<in> run_statuses"
  by (induction es arbitrary: s) (auto dest: run_statuses_closed)

text \<open>Success is only ever entered from an executing status.\<close>

lemma success_from_executing: "transition s e = Ok t \<Longrightarrow> is_success t \<Longrightarrow> s \<in> {Syncing, Running}"
  using transition_legal [of s e t] by (auto simp: legal_step_def)

section \<open>Retry policy\<close>

datatype RetryDecision = NoRetry | Retry (delay_secs: nat)

definition retry_cap :: nat where "retry_cap = 24 * 3600"

definition retry_decision ::
  "float_ops \<Rightarrow> ErrorKind \<Rightarrow> nat \<Rightarrow> nat \<Rightarrow> nat \<Rightarrow> f64 \<Rightarrow> RetryDecision" where
  "retry_decision F kind attempts retry_max delay backoff =
     (if kind = ConfigError \<or> attempts \<ge> retry_max then NoRetry
      else
        (let secs = f64_as_u64 (fmul F (of_u64 F delay) (fpowi F backoff (u32_as_i32 attempts)))
         in Retry (min secs retry_cap)))"

lemma retry_decision_cap: "retry_decision F k a m d b = Retry s \<Longrightarrow> s \<le> retry_cap \<and> a < m \<and> k \<noteq> ConfigError"
  by (auto simp: retry_decision_def Let_def split: if_splits)

lemma retry_decision_NoRetry: "retry_decision F k a m d b = NoRetry \<longleftrightarrow> k = ConfigError \<or> m \<le> a"
  by (auto simp: retry_decision_def Let_def)

lemma u32_as_i32_small: "n < 2 ^ 31 \<Longrightarrow> u32_as_i32 n = int n"
  by (simp add: u32_as_i32_def Let_def nat_less_iff)

lemma retry_decision_exact_aux:
  assumes "k \<noteq> ConfigError" and "a < m" and "a < 2 ^ 31"
  shows "retry_decision exact_ops k a m d (Fin (of_nat b)) = Retry (min (d * b ^ a) retry_cap)"
proof -
  have "(of_nat d * of_nat b ^ a :: rat) = of_nat (d * b ^ a)" by simp
  then have "f64_as_u64 (Fin (of_nat d * of_nat b ^ a)) = min u64_max (d * b ^ a)"
    by (simp del: of_nat_mult of_nat_power)
  moreover have "retry_cap \<le> u64_max" by (simp add: retry_cap_def u64_max_def)
  ultimately show ?thesis
    using assms by (simp add: retry_decision_def Let_def exact_ops_def u32_as_i32_small)
qed

section \<open>Properties\<close>

text \<open>Retry policy. A configuration error and an exhausted budget are the only reasons not to
  retry; a retry waits at most 24 hours whatever the floating-point arithmetic does, and with exact
  arithmetic and a whole backoff it waits \<open>delay * backoff ^ attempts\<close> seconds, cut at 24 hours.\<close>

lemma retry_decision_policy:
  "(retry_decision F k a m d b = NoRetry \<longleftrightarrow> k = ConfigError \<or> m \<le> a)
   \<and> (\<forall>s. retry_decision F k a m d b = Retry s \<longrightarrow> s \<le> 86400)
   \<and> (k \<noteq> ConfigError \<longrightarrow> a < m \<longrightarrow> a < 2 ^ 31 \<longrightarrow>
        retry_decision exact_ops k a m d (Fin (of_nat n)) = Retry (min (d * n ^ a) 86400))"
  using retry_decision_NoRetry [of F k a m d b] retry_decision_cap [of F k a m d b]
    retry_decision_exact_aux [of k a m d n]
  by (auto simp: retry_cap_def)

theorem retry_decision_policy_witness:
  "retry_decision exact_ops NetworkError 2 5 30 (Fin 2) = Retry 120
   \<and> retry_decision exact_ops NetworkError 20 25 30 (Fin 2) = Retry 86400"
  using retry_decision_policy [of exact_ops NetworkError 2 5 30 "Fin 2" 2]
    retry_decision_policy [of exact_ops NetworkError 20 25 30 "Fin 2" 2]
  by simp

text \<open>The run state machine. An event is accepted exactly for the sixteen status changes of the
  table; success is only entered from an executing status; success, cancelled, lost and skipped are
  final, and from \<open>QUEUED\<close> no sequence of events reaches \<open>PENDING\<close>, \<open>SCHEDULED\<close> or \<open>SKIPPED\<close>.\<close>

lemma run_state_machine:
  "((\<exists>ev. transition a ev = Ok b) \<longleftrightarrow> legal_step a b)
   \<and> (transition a ev = Ok b \<longrightarrow> is_success b \<longrightarrow> a \<in> {Syncing, Running})
   \<and> (terminal a \<longrightarrow> transition a ev = Err \<lparr>err_from = a, err_event = ev\<rparr>)
   \<and> (run_events Queued es = Ok b \<longrightarrow> b \<notin> {Pending, Scheduled, Skipped})"
  using legal_step_iff [of a b] success_from_executing [of a ev b] terminal_no_transition [of a ev]
    run_events_closed [of Queued es b]
  by (auto simp: run_statuses_def)

theorem run_state_machine_witness:
  "run_events Queued [EvStarting, EvRunning, EvFailed, EvRetrying, EvQueued, EvStarting, EvSuccess] = Ok Success
   \<and> transition Success EvQueued = Err \<lparr>err_from = Success, err_event = EvQueued\<rparr>"
  using run_state_machine [of Success Success EvQueued]
  by (simp add: transition_def terminal_def)

end
