(* ===== verification/Store.thy ===== *)
theory Store
  imports Run_State
begin

text \<open>
  The database of \<open>crates/db\<close>: the tables of \<open>migrations/\<close> as lists of records in insertion order,
  their constraints, and the SQL statements and operations of \<open>crates/db/src/store.rs\<close>.

  A statement is a function from a database to a result and a database. It either commits or, when
  the new tables would break a primary key, a foreign key or the partial unique index
  \<open>one_active_run_per_job\<close>, leaves the database alone and returns \<open>Conflict\<close>. An operation is a
  sequence of statements; an error in the middle keeps the effects of the earlier ones, because
  the source runs no transaction around them.

  Columns that hold JSON text hold the value instead. Status columns hold \<open>JobStatus\<close>: every
  write goes through \<open>to_db\<close>, which is injective, and migration 0007 rewrote the legacy text
  \<open>STARTING\<close>. \<open>unix_now()\<close> is the argument \<open>now\<close>, and \<open>RunId::new()\<close> an argument of the operation
  that draws it. Rows that tie in an \<open>ORDER BY\<close> come in table order.
\<close>

section \<open>Tables\<close>

datatype DbError = Conflict | Sql string

datatype WorkerStatus = ONLINE | OFFLINE | DRAINING | MAINTENANCE | STOPPING

record job_rec =
  jr_name :: string
  jr_enabled :: bool
  jr_worker :: "string option"
  jr_provider :: string
  jr_provider_config :: ProviderConfig
  jr_upstream :: "string option"
  jr_storage_path :: string
  jr_timeout_secs :: int
  jr_retry :: nat
  jr_retry_delay_secs :: int
  jr_retry_backoff :: f64
  jr_success_exit_codes :: "int list"
  jr_fail_on_match :: "string option"
  jr_max_concurrency :: nat
  jr_on_worker_lost :: OnWorkerLost
  jr_statistics :: StatisticsMode
  jr_resources :: "string list"
  jr_priority :: int
  jr_status :: JobStatus
  jr_updated_at :: int
  jr_config_generation :: string

record sched_rec =
  sc_job_name :: string
  sc_schedule :: Schedule
  sc_timezone :: string
  sc_misfire_policy :: string
  sc_next_run :: "int option"
  sc_anchor_at :: "int option"
  sc_created_at :: int

record worker_rec =
  wk_id :: string
  wk_hostname :: string
  wk_address :: string
  wk_version :: string
  wk_labels :: "string list"
  wk_max_concurrency :: "nat option"    \<comment> \<open>the member of the \<open>capabilities\<close> object the code reads\<close>
  wk_status :: WorkerStatus
  wk_jobs_running :: int
  wk_last_heartbeat :: int
  wk_registered_at :: int
  wk_token_name :: string

record run_rec =
  r_id :: string
  r_job_id :: string
  r_worker_id :: "string option"
  r_status :: JobStatus
  r_retry_count :: nat
  r_lost_count :: nat
  r_started_at :: "int option"
  r_finished_at :: "int option"
  r_duration_secs :: "int option"
  r_exit_code :: "int option"
  r_size_before :: "int option"
  r_size_after :: "int option"
  r_bytes_transferred :: "int option"
  r_message :: "string option"
  r_lease_expires_at :: "int option"
  r_next_retry_at :: "int option"
  r_created_at :: int
  r_priority :: int
  r_memory_bytes :: "nat option"
  r_cpu_seconds :: "f64 option"
  r_lease_token :: "string option"
  r_config_generation :: string

record event_rec =
  ev_id :: string
  ev_ts :: int
  ev_job_id :: "string option"
  ev_run_id :: "string option"
  ev_level :: string
  ev_message :: string

record log_rec =
  lg_run_id :: string
  lg_job_id :: string
  lg_log_path :: string
  lg_created_at :: int
  lg_content :: string

record repo_rec =
  rp_path :: string
  rp_size_bytes :: int
  rp_last_measured_at :: int

record history_rec =
  hi_ts :: int
  hi_job_name :: string
  hi_before :: "JobSpec option"
  hi_after :: "JobSpec option"

record db =
  t_jobs :: "job_rec list"
  t_schedules :: "sched_rec list"
  t_workers :: "worker_rec list"
  t_runs :: "run_rec list"
  t_repositories :: "repo_rec list"
  t_events :: "event_rec list"
  t_logs :: "log_rec list"
  t_history :: "history_rec list"

definition empty_db :: db where
  "empty_db = \<lparr>t_jobs = [], t_schedules = [], t_workers = [], t_runs = [], t_repositories = [],
     t_events = [], t_logs = [], t_history = []\<rparr>"

section \<open>Status classes of the WHERE clauses\<close>

definition executing :: "JobStatus \<Rightarrow> bool" where
  "executing s \<longleftrightarrow> s = Syncing \<or> s = Running"

text \<open>The statuses of the partial unique index.\<close>

definition active :: "JobStatus \<Rightarrow> bool" where
  "active s \<longleftrightarrow> s = Syncing \<or> s = Running \<or> s = Cancelling"

definition inflight :: "JobStatus \<Rightarrow> bool" where
  "inflight s \<longleftrightarrow> s = Queued \<or> s = Syncing \<or> s = Running \<or> s = Retrying \<or> s = Cancelling"

lemma executing_active: "executing s \<Longrightarrow> active s"
  by (auto simp: executing_def active_def)

lemma active_inflight: "active s \<Longrightarrow> inflight s"
  by (auto simp: inflight_def active_def)

lemma status_class_simps [simp]:
  "executing Syncing" "executing Running" "\<not> executing Queued" "\<not> executing Cancelling" "\<not> executing Lost"
  "\<not> executing Retrying" "\<not> executing Cancelled" "\<not> executing Failed" "\<not> executing Skipped"
  "active Syncing" "active Running" "active Cancelling" "\<not> active Queued" "\<not> active Retrying" "\<not> active Lost"
  "\<not> active Cancelled" "\<not> active Failed" "\<not> active Success" "\<not> active SuccessWithWarnings" "\<not> active Skipped"
  "inflight Queued" "inflight Syncing" "inflight Running" "inflight Retrying" "inflight Cancelling"
  "\<not> inflight Lost" "\<not> inflight Cancelled" "\<not> inflight Failed" "\<not> inflight Success"
  "\<not> inflight SuccessWithWarnings" "\<not> inflight Skipped"
  by (auto simp: executing_def active_def inflight_def)

section \<open>Constraints\<close>

definition active_runs :: "db \<Rightarrow> run_rec list" where
  "active_runs d = filter (\<lambda>r. active (r_status r)) (t_runs d)"

definition job_names :: "db \<Rightarrow> string list" where
  "job_names d = map jr_name (t_jobs d)"

definition worker_ids :: "db \<Rightarrow> string list" where
  "worker_ids d = map wk_id (t_workers d)"

definition constraints :: "db \<Rightarrow> bool" where
  "constraints d \<longleftrightarrow>
     distinct (job_names d)
     \<and> distinct (map sc_job_name (t_schedules d))
     \<and> list_all (\<lambda>s. sc_job_name s \<in> set (job_names d)) (t_schedules d)
     \<and> distinct (worker_ids d)
     \<and> distinct (map r_id (t_runs d))
     \<and> list_all (\<lambda>r. r_job_id r \<in> set (job_names d)
          \<and> (case r_worker_id r of None \<Rightarrow> True | Some w \<Rightarrow> w \<in> set (worker_ids d))) (t_runs d)
     \<and> distinct (map r_job_id (active_runs d))
     \<and> distinct (map rp_path (t_repositories d))
     \<and> distinct (map ev_id (t_events d))
     \<and> distinct (map lg_run_id (t_logs d))"

section \<open>Statements\<close>

type_synonym 'a stmt = "db \<Rightarrow> (DbError + 'a) \<times> db"

definition commit :: "'a \<Rightarrow> db \<Rightarrow> db \<Rightarrow> (DbError + 'a) \<times> db" where
  "commit x d' d = (if constraints d' then (Ok x, d') else (Err Conflict, d))"

definition ret :: "'a \<Rightarrow> 'a stmt" where
  "ret x d = (Ok x, d)"

definition seq :: "'a stmt \<Rightarrow> ('a \<Rightarrow> 'b stmt) \<Rightarrow> 'b stmt" where
  "seq m f d = (case m d of (Inl e, d') \<Rightarrow> (Inl e, d') | (Inr x, d') \<Rightarrow> f x d')"

text \<open>A query reads the database; \<open>let _ = ...\<close> drops the result of a statement.\<close>

definition query :: "(db \<Rightarrow> 'a) \<Rightarrow> 'a stmt" where
  "query f d = (Ok (f d), d)"

definition ignore :: "'a stmt \<Rightarrow> unit stmt" where
  "ignore m d = (Ok (), snd (m d))"

fun for_each :: "('a \<Rightarrow> unit stmt) \<Rightarrow> 'a list \<Rightarrow> unit stmt" where
  "for_each f [] = ret ()"
| "for_each f (x # xs) = seq (f x) (\<lambda>_. for_each f xs)"

definition update_runs :: "(db \<Rightarrow> run_rec \<Rightarrow> bool) \<Rightarrow> (run_rec \<Rightarrow> run_rec) \<Rightarrow> nat stmt" where
  "update_runs p f d =
     commit (count_where (p d) (t_runs d)) (d\<lparr>t_runs := update_where (p d) f (t_runs d)\<rparr>) d"

definition insert_run :: "run_rec \<Rightarrow> nat stmt" where
  "insert_run r d = commit 1 (d\<lparr>t_runs := t_runs d @ [r]\<rparr>) d"

definition update_jobs :: "(db \<Rightarrow> job_rec \<Rightarrow> bool) \<Rightarrow> (db \<Rightarrow> job_rec \<Rightarrow> job_rec) \<Rightarrow> nat stmt" where
  "update_jobs p f d =
     commit (count_where (p d) (t_jobs d)) (d\<lparr>t_jobs := update_where (p d) (f d) (t_jobs d)\<rparr>) d"

definition update_workers :: "(db \<Rightarrow> worker_rec \<Rightarrow> bool) \<Rightarrow> (db \<Rightarrow> worker_rec \<Rightarrow> worker_rec) \<Rightarrow> nat stmt" where
  "update_workers p f d =
     commit (count_where (p d) (t_workers d)) (d\<lparr>t_workers := update_where (p d) (f d) (t_workers d)\<rparr>) d"

definition find_run :: "db \<Rightarrow> string \<Rightarrow> run_rec option" where
  "find_run d i = find (\<lambda>r. r_id r = i) (t_runs d)"

section \<open>Run rows as the queries return them\<close>

record RunRow =
  rr_id :: string
  rr_job_id :: string
  rr_worker_id :: "string option"
  rr_status :: JobStatus
  rr_retry_count :: nat
  rr_lease_token :: "string option"
  rr_next_retry_at :: "int option"
  rr_created_at :: int
  rr_started_at :: "int option"
  rr_finished_at :: "int option"
  rr_duration_secs :: "int option"
  rr_exit_code :: "int option"
  rr_message :: "string option"

definition run_row :: "run_rec \<Rightarrow> RunRow" where
  "run_row r = \<lparr>rr_id = r_id r, rr_job_id = r_job_id r, rr_worker_id = r_worker_id r,
     rr_status = r_status r, rr_retry_count = r_retry_count r, rr_lease_token = r_lease_token r,
     rr_next_retry_at = r_next_retry_at r, rr_created_at = r_created_at r,
     rr_started_at = r_started_at r, rr_finished_at = r_finished_at r,
     rr_duration_secs = r_duration_secs r, rr_exit_code = r_exit_code r, rr_message = r_message r\<rparr>"

lemma run_row_simps [simp]:
  "rr_id (run_row r) = r_id r" "rr_job_id (run_row r) = r_job_id r"
  "rr_worker_id (run_row r) = r_worker_id r" "rr_status (run_row r) = r_status r"
  "rr_retry_count (run_row r) = r_retry_count r" "rr_lease_token (run_row r) = r_lease_token r"
  "rr_next_retry_at (run_row r) = r_next_retry_at r" "rr_created_at (run_row r) = r_created_at r"
  "rr_started_at (run_row r) = r_started_at r"
  by (simp_all add: run_row_def)

definition runs_where :: "(run_rec \<Rightarrow> bool) \<Rightarrow> db \<Rightarrow> RunRow list" where
  "runs_where p d = map run_row (sort_key (\<lambda>r. (- r_priority r, r_created_at r)) (filter p (t_runs d)))"

lemma set_runs_where: "set (runs_where p d) = run_row ` {r \<in> set (t_runs d). p r}"
  by (simp add: runs_where_def)

lemma runs_where_empty: "runs_where p d = [] \<longleftrightarrow> (\<forall>r \<in> set (t_runs d). \<not> p r)"
  by (auto simp: set_runs_where simp flip: set_empty)

definition get_run :: "string \<Rightarrow> db \<Rightarrow> RunRow option" where
  "get_run i d = head_opt (rev (runs_where (\<lambda>r. r_id r = i) d))"

definition active_runs_of_job :: "string \<Rightarrow> db \<Rightarrow> RunRow list" where
  "active_runs_of_job job = runs_where (\<lambda>r. r_job_id r = job \<and> executing (r_status r))"

definition active_runs_of :: "string \<Rightarrow> db \<Rightarrow> RunRow list" where
  "active_runs_of w = runs_where (\<lambda>r. r_worker_id r = Some w \<and> executing (r_status r))"

definition cancelling_runs_of :: "string \<Rightarrow> db \<Rightarrow> RunRow list" where
  "cancelling_runs_of w = runs_where (\<lambda>r. r_worker_id r = Some w \<and> r_status r = Cancelling)"

definition expired_runs :: "int \<Rightarrow> db \<Rightarrow> RunRow list" where
  "expired_runs now = runs_where (\<lambda>r. (case r_worker_id r of Some w \<Rightarrow> w \<noteq> ''local'' | None \<Rightarrow> False)
     \<and> active (r_status r) \<and> (case r_lease_expires_at r of Some e \<Rightarrow> e \<le> now | None \<Rightarrow> False))"

definition unassigned_runs :: "db \<Rightarrow> RunRow list" where
  "unassigned_runs = runs_where (\<lambda>r. r_status r = Queued \<and> r_worker_id r = None)"

definition inflight_runs_of_job :: "string \<Rightarrow> db \<Rightarrow> RunRow list" where
  "inflight_runs_of_job job = runs_where (\<lambda>r. r_job_id r = job \<and> inflight (r_status r))"

definition due_retries :: "int \<Rightarrow> db \<Rightarrow> RunRow list" where
  "due_retries now = runs_where (\<lambda>r. r_status r = Retrying
     \<and> (case r_next_retry_at r of Some t \<Rightarrow> t \<le> now | None \<Rightarrow> False))"

definition queued_runs :: "string \<Rightarrow> db \<Rightarrow> RunRow list" where
  "queued_runs w = runs_where (\<lambda>r. r_status r = Queued \<and> (r_worker_id r = None \<or> r_worker_id r = Some w))"

definition assigned_runs :: "string \<Rightarrow> db \<Rightarrow> RunRow list" where
  "assigned_runs w d = runs_where (\<lambda>r. r_status r = Queued \<and> r_worker_id r = Some w
     \<and> r_job_id r \<notin> set (map r_job_id (filter (\<lambda>q. executing (r_status q)) (t_runs d)))) d"

text \<open>\<open>ORDER BY created_at DESC, id DESC LIMIT n\<close>.\<close>

definition run_history :: "string \<Rightarrow> nat \<Rightarrow> db \<Rightarrow> RunRow list" where
  "run_history job limit d =
     take limit (map run_row (rev (sort_key (\<lambda>r. (r_created_at r, r_id r)) (filter (\<lambda>r. r_job_id r = job) (t_runs d)))))"

definition latest_runs :: "db \<Rightarrow> RunRow list" where
  "latest_runs d = filter_map (\<lambda>j. head_opt (run_history (jr_name j) 1 d)) (t_jobs d)"

definition count_runs_with_status :: "JobStatus \<Rightarrow> db \<Rightarrow> nat" where
  "count_runs_with_status s d = count_where (\<lambda>r. r_status r = s) (t_runs d)"

definition count_waiting_runs :: "db \<Rightarrow> nat" where
  "count_waiting_runs d = count_where (\<lambda>r. r_status r = Queued
     \<and> r_job_id r \<notin> set (map r_job_id (active_runs d))) (t_runs d)"

definition last_run_worker :: "string \<Rightarrow> db \<Rightarrow> string option" where
  "last_run_worker job d =
     (case sort_key (\<lambda>r. - r_created_at r) (filter (\<lambda>r. r_job_id r = job \<and> r_worker_id r \<noteq> None) (t_runs d)) of
        [] \<Rightarrow> None | r # _ \<Rightarrow> r_worker_id r)"

section \<open>Job status\<close>

definition set_job_status :: "string \<Rightarrow> JobStatus \<Rightarrow> unit stmt" where
  "set_job_status job s = seq (update_jobs (\<lambda>_ j. jr_name j = job) (\<lambda>_ j. j\<lparr>jr_status := s\<rparr>)) (\<lambda>_. ret ())"

text \<open>
  \<open>set_job_status_for_run\<close>: copy the run's current status to its job, unless another run of the
  job is active.
\<close>

definition set_job_status_for_run :: "string \<Rightarrow> unit stmt" where
  "set_job_status_for_run i =
     seq (update_jobs
            (\<lambda>d j. map_option r_job_id (find_run d i) = Some (jr_name j)
               \<and> \<not> (\<exists>r \<in> set (t_runs d). r_job_id r = jr_name j \<and> r_id r \<noteq> i \<and> active (r_status r)))
            (\<lambda>d j. case find_run d i of None \<Rightarrow> j | Some r \<Rightarrow> j\<lparr>jr_status := r_status r\<rparr>))
         (\<lambda>_. ret ())"

definition job_status_list :: "db \<Rightarrow> (string \<times> JobStatus) list" where
  "job_status_list d = map (\<lambda>j. (jr_name j, jr_status j)) (sort_key jr_name (t_jobs d))"

section \<open>Run lifecycle\<close>

definition new_run :: "string \<Rightarrow> string \<Rightarrow> string option \<Rightarrow> JobStatus \<Rightarrow> int \<Rightarrow> run_rec" where
  "new_run i job w s now =
     \<lparr>r_id = i, r_job_id = job, r_worker_id = w, r_status = s, r_retry_count = 0, r_lost_count = 0,
      r_started_at = None, r_finished_at = None, r_duration_secs = None, r_exit_code = None,
      r_size_before = None, r_size_after = None, r_bytes_transferred = None, r_message = None,
      r_lease_expires_at = None, r_next_retry_at = None, r_created_at = now, r_priority = 0,
      r_memory_bytes = None, r_cpu_seconds = None, r_lease_token = None, r_config_generation = []\<rparr>"

definition job_generation :: "db \<Rightarrow> string \<Rightarrow> string option" where
  "job_generation d job = map_option jr_config_generation (find (\<lambda>j. jr_name j = job) (t_jobs d))"

text \<open>The insert fails on a missing job: its generation would be NULL in a NOT NULL column.\<close>

definition create_run_stmt :: "string \<Rightarrow> string \<Rightarrow> string option \<Rightarrow> JobStatus \<Rightarrow> int \<Rightarrow> int \<Rightarrow> nat stmt" where
  "create_run_stmt i job w s prio now d =
     (case job_generation d job of
        None \<Rightarrow> (Err Conflict, d)
      | Some g \<Rightarrow> insert_run ((new_run i job w s now)\<lparr>r_priority := prio, r_config_generation := g\<rparr>) d)"

definition create_run :: "string \<Rightarrow> string \<Rightarrow> string option \<Rightarrow> JobStatus \<Rightarrow> int \<Rightarrow> int \<Rightarrow> unit stmt" where
  "create_run i job w s prio now =
     seq (create_run_stmt i job w s prio now) (\<lambda>_.
       if s = Queued then
         seq (query (active_runs_of_job job)) (\<lambda>act. if act = [] then set_job_status job s else ret ())
       else set_job_status job s)"

definition claimable :: "string \<Rightarrow> string \<Rightarrow> db \<Rightarrow> run_rec \<Rightarrow> bool" where
  "claimable i w d r \<longleftrightarrow> r_id r = i \<and> r_status r = Queued \<and> (r_worker_id r = None \<or> r_worker_id r = Some w)
     \<and> r_job_id r \<notin> set (map r_job_id (filter (\<lambda>q. executing (r_status q)) (t_runs d)))"

definition claim_stmt :: "string \<Rightarrow> string \<Rightarrow> string \<Rightarrow> int \<Rightarrow> nat stmt" where
  "claim_stmt i w token now =
     update_runs (claimable i w)
       (\<lambda>r. r\<lparr>r_status := Syncing, r_worker_id := Some w, r_started_at := Some now,
              r_lease_expires_at := Some (now + RUN_LEASE_SECS), r_lease_token := Some token\<rparr>)"

definition claim_run :: "string \<Rightarrow> string \<Rightarrow> string \<Rightarrow> int \<Rightarrow> bool stmt" where
  "claim_run i w token now d =
     (case claim_stmt i w token now d of
        (Inl Conflict, d1) \<Rightarrow> (Ok False, d1)
      | (Inl e, d1) \<Rightarrow> (Err e, d1)
      | (Inr n, d1) \<Rightarrow>
          if 0 < n then
            seq (case find_run d1 i of None \<Rightarrow> ret () | Some r \<Rightarrow> set_job_status (r_job_id r) Syncing)
              (\<lambda>_. ret True) d1
          else (Ok False, d1))"

definition renew_stmt :: "string \<Rightarrow> string \<Rightarrow> string \<Rightarrow> int \<Rightarrow> nat stmt" where
  "renew_stmt i w token now =
     update_runs (\<lambda>_ r. r_id r = i \<and> r_worker_id r = Some w \<and> r_lease_token r = Some token
         \<and> (case r_lease_expires_at r of Some e \<Rightarrow> now < e | None \<Rightarrow> False) \<and> active (r_status r))
       (\<lambda>r. r\<lparr>r_lease_expires_at := Some (now + RUN_LEASE_SECS)\<rparr>)"

definition renew_run_lease :: "string \<Rightarrow> string \<Rightarrow> string \<Rightarrow> int \<Rightarrow> bool stmt" where
  "renew_run_lease i w token now =
     (if token = [] then ret False else seq (renew_stmt i w token now) (\<lambda>n. ret (0 < n)))"

definition lost_message :: string where "lost_message = ''lease expired (worker lost)''"

definition expire_stmt :: "string \<Rightarrow> int \<Rightarrow> nat stmt" where
  "expire_stmt i now =
     update_runs (\<lambda>_ r. r_id r = i \<and> (case r_lease_expires_at r of Some e \<Rightarrow> e \<le> now | None \<Rightarrow> False)
         \<and> active (r_status r))
       (\<lambda>r. r\<lparr>r_status := Lost, r_finished_at := Some now, r_message := Some lost_message\<rparr>)"

definition expire_run :: "string \<Rightarrow> int \<Rightarrow> bool stmt" where
  "expire_run i now =
     seq (expire_stmt i now) (\<lambda>n.
       seq (if 0 < n then set_job_status_for_run i else ret ()) (\<lambda>_. ret (0 < n)))"

definition lost_stmt :: "string \<Rightarrow> int \<Rightarrow> nat stmt" where
  "lost_stmt i now =
     update_runs (\<lambda>_ r. r_id r = i \<and> active (r_status r))
       (\<lambda>r. r\<lparr>r_status := Lost, r_finished_at := Some now, r_message := Some lost_message\<rparr>)"

definition set_run_lost :: "string \<Rightarrow> int \<Rightarrow> unit stmt" where
  "set_run_lost i now = seq (lost_stmt i now) (\<lambda>_. set_job_status_for_run i)"

definition mark_worker_runs_lost :: "string \<Rightarrow> int \<Rightarrow> RunRow list stmt" where
  "mark_worker_runs_lost w now =
     seq (query (active_runs_of w)) (\<lambda>runs.
       seq (for_each (\<lambda>r. set_run_lost (rr_id r) now) runs) (\<lambda>_. ret runs))"

text \<open>
  \<open>create_lost_requeue\<close>: a fresh \<open>QUEUED\<close> row for a \<open>LOST\<close> run, unless the job has a run in flight.
\<close>

definition lost_requeue_stmt :: "string \<Rightarrow> string \<Rightarrow> string option \<Rightarrow> int \<Rightarrow> nat stmt" where
  "lost_requeue_stmt i new_id w now d =
     (case find_run d i of
        None \<Rightarrow> (Ok 0, d)
      | Some r \<Rightarrow>
          if r_status r = Lost \<and> \<not> (\<exists>q \<in> set (t_runs d). r_job_id q = r_job_id r \<and> inflight (r_status q))
          then insert_run ((new_run new_id (r_job_id r) w Queued now)
                 \<lparr>r_lost_count := r_lost_count r + 1, r_config_generation := r_config_generation r\<rparr>) d
          else (Ok 0, d))"

definition create_lost_requeue :: "string \<Rightarrow> string \<Rightarrow> string \<Rightarrow> string option \<Rightarrow> int \<Rightarrow> string option stmt" where
  "create_lost_requeue i new_id job w now =
     seq (lost_requeue_stmt i new_id w now) (\<lambda>n.
       if n = 0 then ret None else seq (set_job_status job Queued) (\<lambda>_. ret (Some new_id)))"

definition mark_running_stmt :: "string \<Rightarrow> string \<Rightarrow> nat stmt" where
  "mark_running_stmt w job =
     update_runs (\<lambda>_ r. r_worker_id r = Some w \<and> r_job_id r = job \<and> r_status r = Syncing)
       (\<lambda>r. r\<lparr>r_status := Running\<rparr>)"

definition mark_jobs_running :: "string \<Rightarrow> string list \<Rightarrow> unit stmt" where
  "mark_jobs_running w =
     for_each (\<lambda>job. seq (mark_running_stmt w job) (\<lambda>n.
       if 0 < n then set_job_status job Running
       else seq (query (runs_where (\<lambda>r. r_worker_id r = Some w \<and> r_job_id r = job \<and> executing (r_status r))))
              (\<lambda>rows. if rows \<noteq> [] then set_job_status job Running else ret ())))"

definition run_status_stmt :: "string \<Rightarrow> JobStatus \<Rightarrow> nat stmt" where
  "run_status_stmt i s = update_runs (\<lambda>_ r. r_id r = i) (\<lambda>r. r\<lparr>r_status := s\<rparr>)"

definition set_run_status :: "string \<Rightarrow> JobStatus \<Rightarrow> unit stmt" where
  "set_run_status i s =
     seq (run_status_stmt i s) (\<lambda>_. seq (query (\<lambda>d. find_run d i)) (\<lambda>o'.
       case o' of None \<Rightarrow> ret () | Some r \<Rightarrow> set_job_status (r_job_id r) s))"

text \<open>The completion fields that the finishing statements write.\<close>

record completion =
  cp_exit_code :: "int option"
  cp_size_before :: "int option"
  cp_size_after :: "int option"
  cp_bytes :: "int option"
  cp_message :: "string option"
  cp_duration :: int

definition finished :: "JobStatus \<Rightarrow> completion \<Rightarrow> int \<Rightarrow> run_rec \<Rightarrow> run_rec" where
  "finished s c now r = r\<lparr>r_status := s, r_finished_at := Some now, r_duration_secs := Some (cp_duration c),
     r_exit_code := cp_exit_code c, r_size_before := cp_size_before c, r_size_after := cp_size_after c,
     r_bytes_transferred := cp_bytes c, r_message := cp_message c, r_lease_expires_at := None\<rparr>"

definition finish_stmt :: "string \<Rightarrow> JobStatus \<Rightarrow> completion \<Rightarrow> int \<Rightarrow> nat stmt" where
  "finish_stmt i s c now = update_runs (\<lambda>_ r. r_id r = i) (finished s c now)"

definition finish_run :: "string \<Rightarrow> JobStatus \<Rightarrow> completion \<Rightarrow> int \<Rightarrow> unit stmt" where
  "finish_run i s c now = seq (finish_stmt i s c now) (\<lambda>_. set_job_status_for_run i)"

text \<open>The fence of a worker: its id and the lease token of its claim. An empty id is no fence.\<close>

definition fence_ok :: "(string \<times> string) option \<Rightarrow> int \<Rightarrow> run_rec \<Rightarrow> bool" where
  "fence_ok fence now r \<longleftrightarrow>
     (let w = (case fence of Some (w, _) \<Rightarrow> w | None \<Rightarrow> []);
          token = (case fence of Some (_, t) \<Rightarrow> t | None \<Rightarrow> [])
      in w = [] \<or> (r_worker_id r = Some w \<and> r_lease_token r = Some token
                     \<and> (case r_lease_expires_at r of Some e \<Rightarrow> now < e | None \<Rightarrow> False)))"

definition finishable :: "string \<Rightarrow> nat \<Rightarrow> (string \<times> string) option \<Rightarrow> int \<Rightarrow> run_rec \<Rightarrow> bool" where
  "finishable i attempt fence now r \<longleftrightarrow>
     r_id r = i \<and> r_retry_count r = attempt \<and> fence_ok fence now r \<and> active (r_status r)"

definition finish_active_stmt ::
  "string \<Rightarrow> nat \<Rightarrow> JobStatus \<Rightarrow> completion \<Rightarrow> (string \<times> string) option \<Rightarrow> int \<Rightarrow> nat stmt" where
  "finish_active_stmt i attempt s c fence now =
     update_runs (\<lambda>_. finishable i attempt fence now) (finished s c now)"

definition finish_active_run_fenced ::
  "string \<Rightarrow> nat \<Rightarrow> JobStatus \<Rightarrow> completion \<Rightarrow> (string \<times> string) option \<Rightarrow> int \<Rightarrow> bool stmt" where
  "finish_active_run_fenced i attempt s c fence now =
     seq (finish_active_stmt i attempt s c fence now) (\<lambda>changed.
       if changed = 0 then ret False else seq (set_job_status_for_run i) (\<lambda>_. ret True))"

definition finish_active_run :: "string \<Rightarrow> nat \<Rightarrow> JobStatus \<Rightarrow> completion \<Rightarrow> int \<Rightarrow> bool stmt" where
  "finish_active_run i attempt s c now = finish_active_run_fenced i attempt s c None now"

definition retry_stmt :: "string \<Rightarrow> int \<Rightarrow> nat \<Rightarrow> nat stmt" where
  "retry_stmt i next_at count =
     update_runs (\<lambda>_ r. r_id r = i)
       (\<lambda>r. r\<lparr>r_status := Retrying, r_next_retry_at := Some next_at, r_retry_count := count\<rparr>)"

definition set_retry :: "string \<Rightarrow> int \<Rightarrow> nat \<Rightarrow> unit stmt" where
  "set_retry i next_at count = seq (retry_stmt i next_at count) (\<lambda>_. set_job_status_for_run i)"

definition retry_active_stmt ::
  "string \<Rightarrow> nat \<Rightarrow> int \<Rightarrow> nat \<Rightarrow> (string \<times> string) option \<Rightarrow> int \<Rightarrow> nat stmt" where
  "retry_active_stmt i attempt next_at count fence now =
     update_runs (\<lambda>_. finishable i attempt fence now)
       (\<lambda>r. r\<lparr>r_status := Retrying, r_next_retry_at := Some next_at, r_retry_count := count,
              r_lease_expires_at := None\<rparr>)"

definition set_retry_from_active_fenced ::
  "string \<Rightarrow> nat \<Rightarrow> int \<Rightarrow> nat \<Rightarrow> (string \<times> string) option \<Rightarrow> int \<Rightarrow> bool stmt" where
  "set_retry_from_active_fenced i attempt next_at count fence now =
     seq (retry_active_stmt i attempt next_at count fence now) (\<lambda>changed.
       if changed = 0 then ret False else seq (set_job_status_for_run i) (\<lambda>_. ret True))"

definition set_retry_from_active :: "string \<Rightarrow> nat \<Rightarrow> int \<Rightarrow> nat \<Rightarrow> int \<Rightarrow> bool stmt" where
  "set_retry_from_active i attempt next_at count now = set_retry_from_active_fenced i attempt next_at count None now"

definition set_cancelling_by_job :: "string \<Rightarrow> nat stmt" where
  "set_cancelling_by_job job =
     update_runs (\<lambda>_ r. r_job_id r = job \<and> executing (r_status r)) (\<lambda>r. r\<lparr>r_status := Cancelling\<rparr>)"

definition superseded :: "db \<Rightarrow> run_rec \<Rightarrow> bool" where
  "superseded d q \<longleftrightarrow> r_status q \<in> {Queued, Retrying, Cancelling}
     \<and> (\<exists>a \<in> set (t_runs d). r_job_id a = r_job_id q \<and> r_id a \<noteq> r_id q \<and> executing (r_status a))"

definition drop_superseded_runs :: "int \<Rightarrow> nat stmt" where
  "drop_superseded_runs now =
     update_runs superseded
       (\<lambda>r. r\<lparr>r_status := Cancelled, r_finished_at := Some now, r_message := Some ''superseded by an active run''\<rparr>)"

definition assign_stmt :: "string \<Rightarrow> string \<Rightarrow> nat stmt" where
  "assign_stmt i w =
     update_runs (\<lambda>_ r. r_id r = i \<and> r_status r = Queued \<and> r_worker_id r = None)
       (\<lambda>r. r\<lparr>r_worker_id := Some w\<rparr>)"

definition assign_queued_run :: "string \<Rightarrow> string \<Rightarrow> bool stmt" where
  "assign_queued_run i w = seq (assign_stmt i w) (\<lambda>n. ret (0 < n))"

text \<open>The statement of \<open>retry_tick\<close> (\<open>crates/engine/src/scheduler.rs\<close>).\<close>

definition requeue_stmt :: "string \<Rightarrow> nat \<Rightarrow> int \<Rightarrow> nat stmt" where
  "requeue_stmt i count now =
     update_runs (\<lambda>_ r. r_id r = i \<and> r_status r = Retrying \<and> r_retry_count r = count
         \<and> (case r_next_retry_at r of Some t \<Rightarrow> t \<le> now | None \<Rightarrow> False))
       (\<lambda>r. r\<lparr>r_status := Queued\<rparr>)"

text \<open>The statement of \<open>reload\<close> (\<open>crates/engine/src/engine.rs\<close>) that drops waiting runs of a changed job.\<close>

definition cancel_waiting_stmt :: "string \<Rightarrow> int \<Rightarrow> nat stmt" where
  "cancel_waiting_stmt job now =
     update_runs (\<lambda>_ r. r_job_id r = job \<and> (r_status r = Queued \<or> r_status r = Retrying))
       (\<lambda>r. r\<lparr>r_status := Cancelled, r_finished_at := Some now,
              r_message := Some ''configuration changed before execution''\<rparr>)"

text \<open>The statement of the reaper (\<open>crates/manager/src/main.rs\<close>) that unassigns runs of absent workers.\<close>

definition unassign_stmt :: "nat stmt" where
  "unassign_stmt =
     update_runs (\<lambda>d r. r_status r = Queued
         \<and> (case r_worker_id r of None \<Rightarrow> True
            | Some w \<Rightarrow> w \<notin> set (map wk_id (filter (\<lambda>k. wk_status k = ONLINE) (t_workers d)))))
       (\<lambda>r. r\<lparr>r_worker_id := None\<rparr>)"

definition set_run_resources :: "string \<Rightarrow> nat option \<Rightarrow> f64 option \<Rightarrow> unit stmt" where
  "set_run_resources i mem cpu =
     seq (update_runs (\<lambda>_ r. r_id r = i)
            (\<lambda>r. r\<lparr>r_memory_bytes := coalesce mem (r_memory_bytes r), r_cpu_seconds := coalesce cpu (r_cpu_seconds r)\<rparr>))
         (\<lambda>_. ret ())"

end
