(* ===== verification/Store_Ops.thy ===== *)
theory Store_Ops
  imports Store
begin

text \<open>
  The rest of \<open>crates/db/src/store.rs\<close>: job and schedule synchronisation, workers, repositories,
  events, logs, the latest-run statistics, \<open>purge_job\<close> and the status reconciliation.
\<close>

section \<open>Tables other than runs\<close>

definition update_schedules :: "(sched_rec \<Rightarrow> bool) \<Rightarrow> (sched_rec \<Rightarrow> sched_rec) \<Rightarrow> nat stmt" where
  "update_schedules p f d =
     commit (count_where p (t_schedules d)) (d\<lparr>t_schedules := update_where p f (t_schedules d)\<rparr>) d"

text \<open>\<open>INSERT ... ON CONFLICT(key) DO UPDATE\<close>: edit the row of the key, or append a new one.\<close>

definition upsert :: "('r \<Rightarrow> bool) \<Rightarrow> ('r \<Rightarrow> 'r) \<Rightarrow> 'r \<Rightarrow> 'r list \<Rightarrow> 'r list" where
  "upsert p f new rows = (if \<exists>r \<in> set rows. p r then update_where p f rows else rows @ [new])"

lemma upsert_keys:
  assumes "\<And>r. key (f r) = key r" and "\<And>r. p r \<longleftrightarrow> key r = key new"
  shows "set (map key (upsert p f new rows)) = insert (key new) (set (map key rows))"
proof -
  have "map key (update_where p f rows) = map key rows" using assms(1) by (simp add: map_update_where)
  then have "key ` set (update_where p f rows) = key ` set rows" by (metis set_map)
  then show ?thesis using assms(2) by (auto simp: upsert_def image_iff) metis+
qed

lemma upsert_distinct:
  assumes "\<And>r. key (f r) = key r" and "\<And>r. p r \<longleftrightarrow> key r = key new" and "distinct (map key rows)"
  shows "distinct (map key (upsert p f new rows))"
  using assms by (auto simp: upsert_def map_update_where)

section \<open>Jobs and schedules\<close>

definition job_row :: "JobSpec \<Rightarrow> int \<Rightarrow> job_rec" where
  "job_row job now =
     \<lparr>jr_name = name job, jr_enabled = enabled job, jr_worker = worker job,
      jr_provider = provider_label (provider job), jr_provider_config = provider job,
      jr_upstream = upstream job, jr_storage_path = storage job,
      jr_timeout_secs = (case timeout job of None \<Rightarrow> 0 | Some t \<Rightarrow> max t 1),
      jr_retry = retry job, jr_retry_delay_secs = max (retry_delay job) 1,
      jr_retry_backoff = retry_backoff job, jr_success_exit_codes = success_exit_codes job,
      jr_fail_on_match = fail_on_match job, jr_max_concurrency = max_concurrency job,
      jr_on_worker_lost = on_worker_lost job, jr_statistics = statistics job, jr_resources = resources job,
      jr_priority = priority job, jr_status = Pending, jr_updated_at = now, jr_config_generation = []\<rparr>"

text \<open>An existing row keeps its status and generation.\<close>

definition sync_job :: "JobSpec \<Rightarrow> int \<Rightarrow> unit stmt" where
  "sync_job job now d =
     commit () (d\<lparr>t_jobs := upsert (\<lambda>j. jr_name j = name job)
        (\<lambda>j. (job_row job now)\<lparr>jr_status := jr_status j, jr_config_generation := jr_config_generation j\<rparr>)
        (job_row job now) (t_jobs d)\<rparr>) d"

definition sync_schedule ::
  "string \<Rightarrow> Schedule \<Rightarrow> string \<Rightarrow> string \<Rightarrow> int option \<Rightarrow> int option \<Rightarrow> int \<Rightarrow> unit stmt" where
  "sync_schedule job sched tz misfire next_run anchor now d =
     commit () (d\<lparr>t_schedules := upsert (\<lambda>s. sc_job_name s = job)
        (\<lambda>s. s\<lparr>sc_schedule := sched, sc_timezone := tz, sc_misfire_policy := misfire,
               sc_next_run := next_run, sc_anchor_at := coalesce anchor (sc_anchor_at s)\<rparr>)
        \<lparr>sc_job_name = job, sc_schedule = sched, sc_timezone = tz, sc_misfire_policy = misfire,
         sc_next_run = next_run, sc_anchor_at = anchor, sc_created_at = now\<rparr> (t_schedules d)\<rparr>) d"

record ScheduleRow =
  sr_schedule :: Schedule
  sr_timezone :: string
  sr_misfire_policy :: string
  sr_next_run :: "int option"
  sr_anchor_at :: "int option"

definition schedule_row :: "sched_rec \<Rightarrow> ScheduleRow" where
  "schedule_row s = \<lparr>sr_schedule = sc_schedule s, sr_timezone = sc_timezone s,
     sr_misfire_policy = sc_misfire_policy s, sr_next_run = sc_next_run s, sr_anchor_at = sc_anchor_at s\<rparr>"

definition get_schedule :: "string \<Rightarrow> db \<Rightarrow> ScheduleRow option" where
  "get_schedule job d = map_option schedule_row (find (\<lambda>s. sc_job_name s = job) (t_schedules d))"

definition all_schedules :: "db \<Rightarrow> (string \<times> ScheduleRow) list" where
  "all_schedules d = map (\<lambda>s. (sc_job_name s, schedule_row s)) (t_schedules d)"

definition set_next_run :: "string \<Rightarrow> int option \<Rightarrow> int option \<Rightarrow> unit stmt" where
  "set_next_run job next_run anchor =
     seq (update_schedules (\<lambda>s. sc_job_name s = job)
            (\<lambda>s. s\<lparr>sc_next_run := next_run, sc_anchor_at := coalesce anchor (sc_anchor_at s)\<rparr>))
         (\<lambda>_. ret ())"

section \<open>Workers\<close>

definition find_worker :: "db \<Rightarrow> string \<Rightarrow> worker_rec option" where
  "find_worker d i = find (\<lambda>w. wk_id w = i) (t_workers d)"

definition kept_status :: "WorkerStatus \<Rightarrow> bool" where
  "kept_status s \<longleftrightarrow> s = DRAINING \<or> s = MAINTENANCE"

definition upsert_worker ::
  "string \<Rightarrow> string \<Rightarrow> string \<Rightarrow> string \<Rightarrow> string list \<Rightarrow> string \<Rightarrow> int \<Rightarrow> unit stmt" where
  "upsert_worker i hostname address version labels token_name now d =
     commit () (d\<lparr>t_workers := upsert (\<lambda>w. wk_id w = i)
        (\<lambda>w. w\<lparr>wk_hostname := hostname, wk_address := address, wk_version := version, wk_labels := labels,
               wk_last_heartbeat := now,
               wk_token_name := (if wk_token_name w = [] then token_name else wk_token_name w),
               wk_status := (if kept_status (wk_status w) then wk_status w else ONLINE)\<rparr>)
        \<lparr>wk_id = i, wk_hostname = hostname, wk_address = address, wk_version = version, wk_labels = labels,
         wk_max_concurrency = None, wk_status = ONLINE, wk_jobs_running = 0, wk_last_heartbeat = now,
         wk_registered_at = now, wk_token_name = token_name\<rparr> (t_workers d)\<rparr>) d"

definition list_workers :: "db \<Rightarrow> worker_rec list" where
  "list_workers d = sort_key wk_id (t_workers d)"

definition get_worker :: "string \<Rightarrow> db \<Rightarrow> worker_rec option" where
  "get_worker i d = head_opt (rev (filter (\<lambda>w. wk_id w = i) (t_workers d)))"

definition touch_heartbeat :: "string \<Rightarrow> nat \<Rightarrow> int \<Rightarrow> unit stmt" where
  "touch_heartbeat i jobs_running now =
     seq (update_workers (\<lambda>_ w. wk_id w = i)
            (\<lambda>_ w. w\<lparr>wk_last_heartbeat := now, wk_jobs_running := int jobs_running,
                     wk_status := (if wk_status w = OFFLINE then ONLINE else wk_status w)\<rparr>))
         (\<lambda>_. ret ())"

definition set_worker_status :: "string \<Rightarrow> WorkerStatus \<Rightarrow> unit stmt" where
  "set_worker_status i s =
     seq (update_workers (\<lambda>_ w. wk_id w = i) (\<lambda>_ w. w\<lparr>wk_status := s\<rparr>)) (\<lambda>_. ret ())"

definition begin_worker_shutdown :: "string \<Rightarrow> unit stmt" where
  "begin_worker_shutdown i =
     seq (update_workers (\<lambda>_ w. wk_id w = i)
            (\<lambda>_ w. w\<lparr>wk_status := (if kept_status (wk_status w) then wk_status w else STOPPING)\<rparr>))
         (\<lambda>_. ret ())"

definition unregister_worker :: "string \<Rightarrow> unit stmt" where
  "unregister_worker i =
     seq (update_workers (\<lambda>_ w. wk_id w = i)
            (\<lambda>_ w. w\<lparr>wk_status := (if kept_status (wk_status w) then wk_status w else OFFLINE),
                     wk_jobs_running := 0\<rparr>))
         (\<lambda>_. ret ())"

definition eligible_workers :: "nat \<Rightarrow> db \<Rightarrow> (string \<times> string list) list" where
  "eligible_workers max_jobs d =
     map (\<lambda>w. (wk_id w, wk_labels w))
       (sort_key (\<lambda>w. (wk_jobs_running w, wk_id w))
          (filter (\<lambda>w. wk_status w = ONLINE \<and> wk_jobs_running w < int max_jobs) (t_workers d)))"

definition worker_token :: "string \<Rightarrow> db \<Rightarrow> string option" where
  "worker_token i d = map_option wk_token_name (find_worker d i)"

text \<open>The runs that occupy a slot of a worker: active, with a live lease or on the local worker.\<close>

definition occupies :: "int \<Rightarrow> string \<Rightarrow> run_rec \<Rightarrow> bool" where
  "occupies now w r \<longleftrightarrow> r_worker_id r = Some w \<and> active (r_status r)
     \<and> ((case r_lease_expires_at r of Some e \<Rightarrow> now < e | None \<Rightarrow> False) \<or> w = ''local'')"

definition in_scope :: "string option \<Rightarrow> worker_rec \<Rightarrow> bool" where
  "in_scope scope w \<longleftrightarrow> (case scope of None \<Rightarrow> True | Some i \<Rightarrow> wk_id w = i)"

definition reconcile_worker_run_counts ::
  "string option \<Rightarrow> int \<Rightarrow> (string \<times> WorkerStatus \<times> int) list stmt" where
  "reconcile_worker_run_counts scope now =
     seq (update_workers (\<lambda>_. in_scope scope)
            (\<lambda>d w. w\<lparr>wk_jobs_running := int (count_where (occupies now (wk_id w)) (t_runs d))\<rparr>))
         (\<lambda>_. query (\<lambda>d. map (\<lambda>w. (wk_id w, wk_status w, wk_jobs_running w)) (filter (in_scope scope) (t_workers d))))"

section \<open>Repositories, events and logs\<close>

definition set_repository_size :: "string \<Rightarrow> int \<Rightarrow> int \<Rightarrow> unit stmt" where
  "set_repository_size path bytes now d =
     commit () (d\<lparr>t_repositories := upsert (\<lambda>p. rp_path p = path)
        (\<lambda>p. p\<lparr>rp_size_bytes := bytes, rp_last_measured_at := now\<rparr>)
        \<lparr>rp_path = path, rp_size_bytes = bytes, rp_last_measured_at = now\<rparr> (t_repositories d)\<rparr>) d"

definition list_repository_sizes :: "db \<Rightarrow> (string \<times> int) list" where
  "list_repository_sizes d = map (\<lambda>p. (rp_path p, rp_size_bytes p)) (t_repositories d)"

definition repository_size :: "string \<Rightarrow> db \<Rightarrow> int option" where
  "repository_size path d = map_option rp_size_bytes (find (\<lambda>p. rp_path p = path) (t_repositories d))"

definition insert_event ::
  "string \<Rightarrow> string option \<Rightarrow> string option \<Rightarrow> string \<Rightarrow> string \<Rightarrow> int \<Rightarrow> unit stmt" where
  "insert_event event_id job_id run_id level message now d =
     commit () (d\<lparr>t_events := t_events d @ [\<lparr>ev_id = event_id, ev_ts = now, ev_job_id = job_id,
        ev_run_id = run_id, ev_level = level, ev_message = message\<rparr>]\<rparr>) d"

definition insert_log_with :: "string \<Rightarrow> string \<Rightarrow> string \<Rightarrow> string \<Rightarrow> int \<Rightarrow> unit stmt" where
  "insert_log_with run_id job log_path content now d =
     commit () (d\<lparr>t_logs := upsert (\<lambda>l. lg_run_id l = run_id) (\<lambda>l. l\<lparr>lg_content := content\<rparr>)
        \<lparr>lg_run_id = run_id, lg_job_id = job, lg_log_path = log_path, lg_created_at = now, lg_content = content\<rparr>
        (t_logs d)\<rparr>) d"

definition insert_log :: "string \<Rightarrow> string \<Rightarrow> string \<Rightarrow> int \<Rightarrow> unit stmt" where
  "insert_log run_id job log_path now = insert_log_with run_id job log_path [] now"

text \<open>
  \<open>insert_log_fenced\<close>: the \<open>SELECT\<close> yields the run only while its lease is held by the caller; the
  conflict clause edits an existing log under the same condition and only for the named job.
\<close>

definition lease_held :: "string \<Rightarrow> string \<Rightarrow> string \<Rightarrow> int \<Rightarrow> run_rec \<Rightarrow> bool" where
  "lease_held i w token now r \<longleftrightarrow> r_id r = i \<and> r_worker_id r = Some w \<and> r_lease_token r = Some token
     \<and> (case r_lease_expires_at r of Some e \<Rightarrow> now < e | None \<Rightarrow> False) \<and> active (r_status r)"

definition insert_log_fenced :: "string \<Rightarrow> string \<Rightarrow> string \<Rightarrow> string \<Rightarrow> string \<Rightarrow> int \<Rightarrow> unit stmt" where
  "insert_log_fenced run_id w token job content now d =
     (case find (lease_held run_id w token now) (t_runs d) of
        None \<Rightarrow> (Ok (), d)
      | Some r \<Rightarrow>
          commit () (d\<lparr>t_logs := upsert (\<lambda>l. lg_run_id l = run_id)
             (\<lambda>l. if r_job_id r = job then l\<lparr>lg_content := content\<rparr> else l)
             \<lparr>lg_run_id = run_id, lg_job_id = r_job_id r, lg_log_path = [], lg_created_at = now, lg_content = content\<rparr>
             (t_logs d)\<rparr>) d)"

definition latest_log_content :: "string \<Rightarrow> db \<Rightarrow> string option" where
  "latest_log_content job d =
     map_option lg_content (head_opt (sort_key (\<lambda>l. - lg_created_at l) (filter (\<lambda>l. lg_job_id l = job) (t_logs d))))"

section \<open>Statistics over runs\<close>

text \<open>\<open>ROW_NUMBER() OVER (PARTITION BY job_id ORDER BY k DESC) = 1\<close> among the rows satisfying \<open>p\<close>.\<close>

definition latest_by :: "(run_rec \<Rightarrow> int) \<Rightarrow> (run_rec \<Rightarrow> bool) \<Rightarrow> string \<Rightarrow> db \<Rightarrow> run_rec option" where
  "latest_by k p job d = head_opt (sort_key (\<lambda>r. - k r) (filter (\<lambda>r. r_job_id r = job \<and> p r) (t_runs d)))"

definition end_or_creation :: "run_rec \<Rightarrow> int" where
  "end_or_creation r = opt_default (r_created_at r) (r_finished_at r)"

definition latest_run_size :: "string \<Rightarrow> db \<Rightarrow> int option" where
  "latest_run_size job d =
     Option.bind (latest_by end_or_creation (\<lambda>r. r_size_after r \<noteq> None) job d) r_size_after"

definition latest_run_sizes :: "db \<Rightarrow> (string \<times> int) list" where
  "latest_run_sizes d =
     filter_map (\<lambda>job. map_option (Pair job) (latest_run_size job d)) (remdups (map r_job_id (t_runs d)))"

record JobRunStats =
  st_job_id :: string
  st_last_start :: "int option"
  st_last_end :: "int option"
  st_last_success :: "int option"
  st_last_finished_status :: "JobStatus option"
  st_last_worker :: "string option"
  st_duration_secs :: "int option"
  st_memory_bytes :: "nat option"
  st_cpu_seconds :: "f64 option"

definition job_run_stats :: "string \<Rightarrow> db \<Rightarrow> JobRunStats option" where
  "job_run_stats job d =
     (let fin = latest_by end_or_creation (\<lambda>r. r_finished_at r \<noteq> None) job d;
          succ = latest_by (\<lambda>r. opt_default 0 (r_finished_at r))
                   (\<lambda>r. is_success (r_status r) \<and> r_finished_at r \<noteq> None) job d;
          start = latest_by (\<lambda>r. opt_default 0 (r_started_at r)) (\<lambda>r. r_started_at r \<noteq> None) job d;
          wrk = latest_by r_created_at (\<lambda>r. r_worker_id r \<noteq> None) job d
      in if fin = None \<and> succ = None \<and> start = None \<and> wrk = None then None
         else Some
           \<lparr>st_job_id = job,
            st_last_start = (case start of Some r \<Rightarrow> r_started_at r | None \<Rightarrow> Option.bind fin r_started_at),
            st_last_end = Option.bind fin r_finished_at,
            st_last_success = Option.bind succ r_finished_at,
            st_last_finished_status = map_option r_status fin,
            st_last_worker = Option.bind wrk r_worker_id,
            st_duration_secs = Option.bind fin r_duration_secs,
            st_memory_bytes = Option.bind fin r_memory_bytes,
            st_cpu_seconds = Option.bind fin r_cpu_seconds\<rparr>)"

text \<open>The result of the source is a hash map's values; the order is that of the first run of a job.\<close>

definition latest_run_stats :: "db \<Rightarrow> JobRunStats list" where
  "latest_run_stats d = filter_map (\<lambda>job. job_run_stats job d) (remdups (map r_job_id (t_runs d)))"

section \<open>Purging and reconciliation\<close>

definition del_logs :: "string \<Rightarrow> unit stmt" where
  "del_logs job d = commit () (d\<lparr>t_logs := filter (\<lambda>l. lg_job_id l \<noteq> job) (t_logs d)\<rparr>) d"

definition del_events :: "string \<Rightarrow> unit stmt" where
  "del_events job d = commit () (d\<lparr>t_events := filter (\<lambda>e. ev_job_id e \<noteq> Some job) (t_events d)\<rparr>) d"

definition del_history :: "string \<Rightarrow> unit stmt" where
  "del_history job d = commit () (d\<lparr>t_history := filter (\<lambda>h. hi_job_name h \<noteq> job) (t_history d)\<rparr>) d"

definition del_runs :: "string \<Rightarrow> unit stmt" where
  "del_runs job d = commit () (d\<lparr>t_runs := filter (\<lambda>r. r_job_id r \<noteq> job) (t_runs d)\<rparr>) d"

definition del_schedules :: "string \<Rightarrow> unit stmt" where
  "del_schedules job d = commit () (d\<lparr>t_schedules := filter (\<lambda>s. sc_job_name s \<noteq> job) (t_schedules d)\<rparr>) d"

definition del_jobs :: "string \<Rightarrow> unit stmt" where
  "del_jobs job d = commit () (d\<lparr>t_jobs := filter (\<lambda>j. jr_name j \<noteq> job) (t_jobs d)\<rparr>) d"

definition del_repository :: "string \<Rightarrow> unit stmt" where
  "del_repository path d = commit () (d\<lparr>t_repositories := filter (\<lambda>p. rp_path p \<noteq> path) (t_repositories d)\<rparr>) d"

definition purge_job :: "string \<Rightarrow> unit stmt" where
  "purge_job job =
     seq (query (\<lambda>d. map_option jr_storage_path (find (\<lambda>j. jr_name j = job) (t_jobs d)))) (\<lambda>storage_path.
     seq (del_logs job) (\<lambda>_.
     seq (del_events job) (\<lambda>_.
     seq (del_history job) (\<lambda>_.
     seq (del_runs job) (\<lambda>_.
     seq (del_schedules job) (\<lambda>_.
     seq (del_jobs job) (\<lambda>_.
       (case storage_path of
          None \<Rightarrow> ret ()
        | Some path \<Rightarrow>
            seq (query (\<lambda>d. filter (\<lambda>j. jr_storage_path j = path) (t_jobs d))) (\<lambda>others.
              if others = [] then ignore (del_repository path) else ret ())))))))))"

text \<open>The \<open>COALESCE\<close> of \<open>reconcile_stale_job_status\<close>.\<close>

definition reconciled_status :: "db \<Rightarrow> job_rec \<Rightarrow> JobStatus" where
  "reconciled_status d j =
     (let runs = filter (\<lambda>r. r_job_id r = jr_name j) (t_runs d);
          has = (\<lambda>s. \<exists>r \<in> set runs. r_status r = s)
      in if has Running then Running
         else if has Syncing then Syncing
         else if has Cancelling then Cancelling
         else if has Queued then Queued
         else if has Retrying then Retrying
         else (case sort_key (\<lambda>r. (- end_or_creation r, - r_created_at r)) runs of
                 [] \<Rightarrow> jr_status j | r # _ \<Rightarrow> r_status r))"

definition reconcile_stale_job_status :: "nat stmt" where
  "reconcile_stale_job_status = update_jobs (\<lambda>_ _. True) (\<lambda>d j. j\<lparr>jr_status := reconciled_status d j\<rparr>)"

end
