(* ===== verification/Store_Laws.thy ===== *)
theory Store_Laws
  imports Store_Ops
begin

text \<open>
  General laws of database statements. A relation on databases that is reflexive and transitive is
  kept by a sequence of statements as soon as each statement keeps it: the locale \<open>stmt_preorder\<close>
  proves this once for the combinators \<open>ret\<close>, \<open>query\<close>, \<open>seq\<close>, \<open>ignore\<close> and \<open>for_each\<close>. It is interpreted
  on two relations of the model: the tables keep satisfying the constraints, and an operation
  leaves the table of runs alone.
\<close>

section \<open>Preserved relations\<close>

definition preserves :: "(db \<Rightarrow> db \<Rightarrow> bool) \<Rightarrow> 'a stmt \<Rightarrow> bool" where
  "preserves R m \<longleftrightarrow> (\<forall>d. R d (snd (m d)))"

lemma preservesI: "(\<And>d. R d (snd (m d))) \<Longrightarrow> preserves R m"
  by (simp add: preserves_def)

lemma preservesD: "preserves R m \<Longrightarrow> m d = (x, d') \<Longrightarrow> R d d'"
  unfolding preserves_def by (metis snd_conv)

locale stmt_preorder =
  fixes R :: "db \<Rightarrow> db \<Rightarrow> bool"
  assumes rel_refl: "R d d"
    and rel_trans: "R a b \<Longrightarrow> R b c \<Longrightarrow> R a c"
begin

lemma ret_keeps: "preserves R (ret x)"
  by (simp add: preserves_def ret_def rel_refl)

lemma query_keeps: "preserves R (query f)"
  by (simp add: preserves_def query_def rel_refl)

lemma ignore_keeps: "preserves R m \<Longrightarrow> preserves R (ignore m)"
  by (simp add: preserves_def ignore_def)

lemma seq_keeps:
  assumes "preserves R m" and "\<And>x. preserves R (f x)"
  shows "preserves R (seq m f)"
proof (rule preservesI)
  fix d
  obtain r d1 where m: "m d = (r, d1)" by (cases "m d")
  then have one: "R d d1" using assms(1) by (rule preservesD [rotated])
  show "R d (snd (seq m f d))"
  proof (cases r)
    case (Inl e)
    with m one show ?thesis by (simp add: seq_def)
  next
    case (Inr x)
    have "R d1 (snd (f x d1))" using assms(2) by (simp add: preserves_def)
    with m one Inr show ?thesis by (auto simp: seq_def intro: rel_trans)
  qed
qed

lemma for_each_keeps: "(\<And>x. preserves R (f x)) \<Longrightarrow> preserves R (for_each f xs)"
  by (induction xs) (auto intro: ret_keeps seq_keeps)

lemma if_keeps: "preserves R m \<Longrightarrow> preserves R n \<Longrightarrow> preserves R (if b then m else n)"
  by simp

lemma option_keeps:
  "preserves R m \<Longrightarrow> (\<And>x. preserves R (f x)) \<Longrightarrow> preserves R (case o' of None \<Rightarrow> m | Some x \<Rightarrow> f x)"
  by (simp split: option.split)

lemma commit_keeps:
  "(\<And>d. constraints (g d) \<Longrightarrow> R d (g d)) \<Longrightarrow> preserves R (\<lambda>d. commit (x d) (g d) d)"
  by (auto simp: preserves_def commit_def rel_refl)

lemmas keeps = ret_keeps query_keeps ignore_keeps seq_keeps for_each_keeps if_keeps option_keeps

end

text \<open>Every statement commits only tables that satisfy the constraints.\<close>

definition stays_valid :: "db \<Rightarrow> db \<Rightarrow> bool" where
  "stays_valid d d' \<longleftrightarrow> (constraints d \<longrightarrow> constraints d')"

interpretation valid: stmt_preorder stays_valid
  by unfold_locales (auto simp: stays_valid_def)

definition same_runs :: "db \<Rightarrow> db \<Rightarrow> bool" where
  "same_runs d d' \<longleftrightarrow> t_runs d' = t_runs d"

interpretation runs_alone: stmt_preorder same_runs
  by unfold_locales (auto simp: same_runs_def)

section \<open>Operations keep the constraints\<close>

lemma commit_valid: "preserves stays_valid (\<lambda>d. commit (x d) (g d) d)"
  by (rule valid.commit_keeps) (simp add: stays_valid_def)

lemma update_runs_valid [inv_intros]: "preserves stays_valid (update_runs p f)"
  using commit_valid unfolding update_runs_def [abs_def] .

lemma insert_run_valid [inv_intros]: "preserves stays_valid (insert_run r)"
  using commit_valid unfolding insert_run_def [abs_def] .

lemma update_jobs_valid [inv_intros]: "preserves stays_valid (update_jobs p g)"
  using commit_valid unfolding update_jobs_def [abs_def] .

lemma update_workers_valid [inv_intros]: "preserves stays_valid (update_workers p h)"
  using commit_valid unfolding update_workers_def [abs_def] .

lemma create_run_stmt_valid [inv_intros]: "preserves stays_valid (create_run_stmt i job w s prio now)"
proof (rule preservesI)
  fix d
  show "stays_valid d (snd (create_run_stmt i job w s prio now d))"
    using insert_run_valid by (auto simp: create_run_stmt_def preserves_def stays_valid_def split: option.split)
qed

lemma lost_requeue_stmt_valid [inv_intros]: "preserves stays_valid (lost_requeue_stmt i n w now)"
proof (rule preservesI)
  fix d
  show "stays_valid d (snd (lost_requeue_stmt i n w now d))"
    using insert_run_valid by (auto simp: lost_requeue_stmt_def preserves_def stays_valid_def split: option.split)
qed

lemmas stmt_defs = claim_stmt_def renew_stmt_def expire_stmt_def lost_stmt_def mark_running_stmt_def
  run_status_stmt_def finish_stmt_def finish_active_stmt_def retry_stmt_def retry_active_stmt_def
  set_cancelling_by_job_def drop_superseded_runs_def assign_stmt_def requeue_stmt_def cancel_waiting_stmt_def
  unassign_stmt_def

lemma job_status_valid [inv_intros]:
  "preserves stays_valid (set_job_status job s)" "preserves stays_valid (set_job_status_for_run i)"
  unfolding set_job_status_def set_job_status_for_run_def by (intro valid.keeps inv_intros)+

lemma run_ops_valid [inv_intros]:
  "preserves stays_valid (create_run i job w s prio now)"
  "preserves stays_valid (renew_run_lease i v token now)"
  "preserves stays_valid (expire_run i now)"
  "preserves stays_valid (set_run_lost i now)"
  "preserves stays_valid (mark_worker_runs_lost v now)"
  "preserves stays_valid (create_lost_requeue i n job w now)"
  "preserves stays_valid (mark_jobs_running v jobs)"
  "preserves stays_valid (set_run_status i s)"
  "preserves stays_valid (finish_run i s c now)"
  "preserves stays_valid (finish_active_run_fenced i a s c fence now)"
  "preserves stays_valid (set_retry i at' n')"
  "preserves stays_valid (set_retry_from_active_fenced i a at' n' fence now)"
  "preserves stays_valid (set_cancelling_by_job job)"
  "preserves stays_valid (drop_superseded_runs now)"
  "preserves stays_valid (assign_queued_run i v)"
  unfolding create_run_def renew_run_lease_def expire_run_def set_run_lost_def mark_worker_runs_lost_def
    create_lost_requeue_def mark_jobs_running_def set_run_status_def finish_run_def finish_active_run_fenced_def
    set_retry_def set_retry_from_active_fenced_def assign_queued_run_def stmt_defs
  by (intro valid.keeps inv_intros)+

lemma claim_run_valid [inv_intros]: "preserves stays_valid (claim_run i w token now)"
proof (rule preservesI)
  fix d
  have stmt: "preserves stays_valid (claim_stmt i w token now)"
    unfolding claim_stmt_def by (rule inv_intros)
  have rest: "preserves stays_valid (seq (case o' of None \<Rightarrow> ret () | Some r \<Rightarrow> set_job_status (r_job_id r) Syncing) (\<lambda>_. ret True))"
    for o' :: "run_rec option" by (intro valid.keeps inv_intros)
  obtain res d1 where c: "claim_stmt i w token now d = (res, d1)" by (cases "claim_stmt i w token now d")
  then have "stays_valid d d1" using stmt by (rule preservesD [rotated])
  moreover have "stays_valid d1 (snd (seq (case find_run d1 i of None \<Rightarrow> ret () | Some r \<Rightarrow> set_job_status (r_job_id r) Syncing) (\<lambda>_. ret True) d1))"
    using rest by (simp add: preserves_def)
  ultimately show "stays_valid d (snd (claim_run i w token now d))"
    using c by (auto simp: claim_run_def split: sum.split DbError.split intro: valid.rel_trans)
qed

section \<open>Finding runs\<close>

lemma constraints_run_ids: "constraints d \<Longrightarrow> distinct (map r_id (t_runs d))"
  by (simp add: constraints_def)

lemma find_run_SomeD: "find_run d i = Some r \<Longrightarrow> r \<in> set (t_runs d) \<and> r_id r = i"
  by (auto simp: find_run_def find_Some_iff)

lemma distinct_map_inj: "distinct (map f xs) \<Longrightarrow> x \<in> set xs \<Longrightarrow> y \<in> set xs \<Longrightarrow> f x = f y \<Longrightarrow> x = y"
  by (metis distinct_map inj_onD)

lemma find_run_iff:
  assumes "constraints d"
  shows "find_run d i = Some r \<longleftrightarrow> r \<in> set (t_runs d) \<and> r_id r = i"
proof
  assume r: "r \<in> set (t_runs d) \<and> r_id r = i"
  then obtain r' where r': "find_run d i = Some r'"
    by (cases "find_run d i") (auto simp: find_run_def find_None_iff)
  with r have "r' = r"
    using find_run_SomeD [OF r'] distinct_map_inj [OF constraints_run_ids [OF assms]] by metis
  with r' show "find_run d i = Some r" by simp
qed (rule find_run_SomeD)

lemma find_run_unique:
  "constraints d \<Longrightarrow> find_run d i = Some r \<Longrightarrow> q \<in> set (t_runs d) \<Longrightarrow> r_id q = i \<Longrightarrow> q = r"
  by (metis find_run_iff option.inject)

lemma find_run_None: "find_run d i = None \<longleftrightarrow> (\<forall>r \<in> set (t_runs d). r_id r \<noteq> i)"
  by (auto simp: find_run_def find_None_iff)

lemma one_active:
  assumes "constraints d" and "r \<in> set (t_runs d)" and "q \<in> set (t_runs d)"
    and "active (r_status r)" and "active (r_status q)" and "r_job_id r = r_job_id q"
  shows "r = q"
proof (rule distinct_map_inj [of r_job_id "active_runs d"])
  show "distinct (map r_job_id (active_runs d))" using assms(1) by (simp add: constraints_def)
qed (use assms in \<open>auto simp: active_runs_def\<close>)

section \<open>Effects of statements\<close>

lemma update_runs_effect:
  assumes "update_runs p f d = (Ok n, d')"
  shows "d' = d\<lparr>t_runs := update_where (p d) f (t_runs d)\<rparr> \<and> n = count_where (p d) (t_runs d) \<and> constraints d'"
  using assms by (auto simp: update_runs_def commit_def split: if_splits)

lemma update_runs_Err: "update_runs p f d = (Err e, d') \<Longrightarrow> d' = d \<and> e = Conflict"
  by (auto simp: update_runs_def commit_def split: if_splits)

lemma update_runs_idle:
  assumes "constraints d" and "\<forall>r \<in> set (t_runs d). \<not> p d r"
  shows "update_runs p f d = (Ok 0, d)"
  using assms by (simp add: update_runs_def commit_def update_where_none count_where_def)

lemma update_runs_hit:
  assumes "r \<in> set (t_runs d)" and "p d r" and "constraints (d\<lparr>t_runs := update_where (p d) f (t_runs d)\<rparr>)"
  shows "\<exists>n > 0. update_runs p f d = (Ok n, d\<lparr>t_runs := update_where (p d) f (t_runs d)\<rparr>)"
  using assms by (auto simp: update_runs_def commit_def count_where_pos)

lemma table_views [simp]:
  "worker_ids (d\<lparr>t_jobs := js\<rparr>) = worker_ids d" "active_runs (d\<lparr>t_jobs := js\<rparr>) = active_runs d"
  "job_names (d\<lparr>t_runs := rs\<rparr>) = job_names d" "worker_ids (d\<lparr>t_runs := rs\<rparr>) = worker_ids d"
  "job_names (d\<lparr>t_workers := ws\<rparr>) = job_names d" "active_runs (d\<lparr>t_workers := ws\<rparr>) = active_runs d"
  by (simp_all add: job_names_def worker_ids_def active_runs_def)

lemma job_names_update: "(\<And>j. jr_name (f j) = jr_name j) \<Longrightarrow> job_names (d\<lparr>t_jobs := update_where p f (t_jobs d)\<rparr>) = job_names d"
  by (simp add: job_names_def map_update_where)

lemma update_jobs_total: "constraints d \<Longrightarrow> (\<And>j. jr_name (f d j) = jr_name j) \<Longrightarrow>
  update_jobs p f d = (Ok (count_where (p d) (t_jobs d)), d\<lparr>t_jobs := update_where (p d) (f d) (t_jobs d)\<rparr>)"
  by (simp add: update_jobs_def commit_def constraints_def job_names_update cong: option.case_cong)

lemma set_job_status_total:
  assumes "constraints d"
  shows "\<exists>js. set_job_status job s d = (Ok (), d\<lparr>t_jobs := js\<rparr>)"
  using update_jobs_total [OF assms, of "\<lambda>_ j. j\<lparr>jr_status := s\<rparr>" "\<lambda>_ j. jr_name j = job"]
  by (auto simp: set_job_status_def seq_def ret_def)

lemma set_job_status_for_run_total:
  assumes "constraints d"
  shows "\<exists>js. set_job_status_for_run i d = (Ok (), d\<lparr>t_jobs := js\<rparr>)"
  using update_jobs_total [OF assms, of "\<lambda>d j. case find_run d i of None \<Rightarrow> j | Some r \<Rightarrow> j\<lparr>jr_status := r_status r\<rparr>"]
  by (auto simp: set_job_status_for_run_def seq_def ret_def split: option.split)

lemma set_job_status_runs [store_simps]:
  "t_runs (snd (set_job_status job s d)) = t_runs d" "t_runs (snd (set_job_status_for_run i d)) = t_runs d"
  by (simp_all add: set_job_status_def set_job_status_for_run_def seq_def update_jobs_def commit_def ret_def)

end
