(* ===== verification/Run_Protocol.thy ===== *)
theory Run_Protocol
  imports Store_Laws
begin

text \<open>
  The manager as a transition system over the database, one SQL statement per step: the HTTP
  handlers of \<open>crates/manager/src/router.rs\<close>, the reaper of \<open>crates/manager/src/main.rs\<close> and the
  scheduler of \<open>crates/engine/src/scheduler.rs\<close> are tasks that interleave between statements, because
  the connection is locked for one statement at a time (\<open>SqliteDb::execute\<close>).

  \<open>run_step\<close> is the specification of a single run's life; \<open>mgr_step\<close> is the manager. The simulation
  lemma \<open>mgr_step_rows\<close> says that a manager step edits every run by a step of the specification, adds
  only waiting or skipped runs and removes runs only by purging their job. The invariants and the
  fencing theorems follow from the specification alone.

  The set \<open>T\<close> holds the identifiers that \<open>RunId::new\<close> can still draw, for runs and for lease tokens.
\<close>

section \<open>The life of one run\<close>

inductive run_step :: "string set \<Rightarrow> run_rec \<Rightarrow> run_rec \<Rightarrow> bool" for T where
  stay: "run_step T r r"
| claim: "r_status r = Queued \<Longrightarrow> t \<in> T \<Longrightarrow>
    run_step T r (r\<lparr>r_status := Syncing, r_worker_id := Some w, r_started_at := Some now,
                    r_lease_expires_at := Some (now + RUN_LEASE_SECS), r_lease_token := Some t\<rparr>)"
| renew: "active (r_status r) \<Longrightarrow> r_lease_expires_at r = Some e \<Longrightarrow> now < e \<Longrightarrow>
    run_step T r (r\<lparr>r_lease_expires_at := Some (now + RUN_LEASE_SECS)\<rparr>)"
| expire: "active (r_status r) \<Longrightarrow> r_lease_expires_at r = Some e \<Longrightarrow> e \<le> now \<Longrightarrow>
    run_step T r (r\<lparr>r_status := Lost, r_finished_at := Some now, r_message := Some lost_message\<rparr>)"
| mark_running: "r_status r = Syncing \<Longrightarrow> run_step T r (r\<lparr>r_status := Running\<rparr>)"
| finish: "active (r_status r) \<Longrightarrow> s \<in> {Success, SuccessWithWarnings, Failed, Cancelled, Lost} \<Longrightarrow>
    run_step T r (finished s c now r)"
| retry: "active (r_status r) \<Longrightarrow>
    run_step T r (r\<lparr>r_status := Retrying, r_next_retry_at := Some next_at, r_retry_count := n, r_lease_expires_at := None\<rparr>)"
| cancel: "executing (r_status r) \<Longrightarrow> run_step T r (r\<lparr>r_status := Cancelling\<rparr>)"
| drop: "r_status r \<in> {Queued, Retrying, Cancelling} \<Longrightarrow>
    run_step T r (r\<lparr>r_status := Cancelled, r_finished_at := Some now, r_message := Some m\<rparr>)"
| assign: "r_status r = Queued \<Longrightarrow> run_step T r (r\<lparr>r_worker_id := w'\<rparr>)"
| requeue: "r_status r = Retrying \<Longrightarrow> run_step T r (r\<lparr>r_status := Queued\<rparr>)"
| resources: "run_step T r (r\<lparr>r_memory_bytes := mem, r_cpu_seconds := cpu\<rparr>)"
| abandon: "r_status r \<in> {Retrying, Cancelled} \<Longrightarrow> run_step T r (finished Cancelled c now r)"
| settle_skipped: "r_status r = Skipped \<Longrightarrow> run_step T r (finished Skipped c now r)"
| vanish: "r_status r = Queued \<Longrightarrow> run_step T r (finished Failed c now r)"

inductive_cases run_stepE: "run_step T r r'"

section \<open>The manager\<close>

inductive mgr_step :: "string set \<Rightarrow> db \<Rightarrow> db \<Rightarrow> bool" for T where
  create: "i \<in> T \<Longrightarrow> s \<in> {Queued, Skipped} \<Longrightarrow> mgr_step T d (snd (create_run_stmt i job w' s prio now d))"
| claim: "t \<in> T \<Longrightarrow> mgr_step T d (snd (claim_stmt i w t now d))"
| renew: "mgr_step T d (snd (renew_stmt i w t now d))"
| expire: "mgr_step T d (snd (expire_stmt i now d))"
| lost_requeue: "n \<in> T \<Longrightarrow> mgr_step T d (snd (lost_requeue_stmt i n w' now d))"
| mark_running: "mgr_step T d (snd (mark_running_stmt w job d))"
| finish: "s \<in> {Success, SuccessWithWarnings, Failed, Cancelled, Lost} \<Longrightarrow>
    mgr_step T d (snd (finish_active_stmt i a s c fence now d))"
| retry: "mgr_step T d (snd (retry_active_stmt i a next_at m fence now d))"
| cancel: "mgr_step T d (snd (set_cancelling_by_job job d))"
| superseded: "mgr_step T d (snd (drop_superseded_runs now d))"
| assign: "mgr_step T d (snd (assign_stmt i w d))"
| requeue: "mgr_step T d (snd (requeue_stmt i m now d))"
| cancel_waiting: "mgr_step T d (snd (cancel_waiting_stmt job now d))"
| unassign: "mgr_step T d (snd (unassign_stmt d))"
| resources: "mgr_step T d (snd (set_run_resources i mem cpu d))"
| abandon_retry: "find_run d i = Some r \<Longrightarrow> r_status r \<in> {Retrying, Cancelled} \<Longrightarrow>
    mgr_step T d (snd (finish_stmt i Cancelled c now d))"
| settle_skipped: "find_run d i = Some r \<Longrightarrow> r_status r = Skipped \<Longrightarrow>
    mgr_step T d (snd (finish_stmt i Skipped c now d))"
| vanish: "find_run d i = Some r \<Longrightarrow> r_status r = Queued \<Longrightarrow>
    mgr_step T d (snd (finish_stmt i Failed c now d))"
| purge: "mgr_step T d (snd (del_runs job d))"
| other: "constraints d' \<Longrightarrow> t_runs d' = t_runs d \<Longrightarrow> mgr_step T d d'"

section \<open>Simulation\<close>

definition fresh_row :: "run_rec \<Rightarrow> bool" where
  "fresh_row r \<longleftrightarrow> r_status r \<in> {Queued, Skipped} \<and> r_lease_expires_at r = None \<and> r_lease_token r = None
     \<and> r_retry_count r = 0"

definition rows_step :: "string set \<Rightarrow> db \<Rightarrow> db \<Rightarrow> bool" where
  "rows_step T d d' \<longleftrightarrow>
     (\<exists>keep g new. t_runs d' = map g (filter keep (t_runs d)) @ new
        \<and> (\<forall>r \<in> set (t_runs d). run_step T r (g r) \<and> r_id (g r) = r_id r)
        \<and> (\<forall>r \<in> set new. fresh_row r \<and> r_id r \<in> T)
        \<and> (new = [] \<or> keep = (\<lambda>_. True)))"

lemma rows_step_same: "t_runs d' = t_runs d \<Longrightarrow> rows_step T d d'"
  unfolding rows_step_def
  by (rule exI [of _ "\<lambda>_. True"], rule exI [of _ "\<lambda>r. r"], rule exI [of _ "[]"]) (simp add: run_step.stay)

lemma rows_step_update:
  assumes "\<And>r. r \<in> set (t_runs d) \<Longrightarrow> p d r \<Longrightarrow> run_step T r (f r) \<and> r_id (f r) = r_id r"
  shows "rows_step T d (snd (update_runs p f d))"
proof (cases "constraints (d\<lparr>t_runs := update_where (p d) f (t_runs d)\<rparr>)")
  case True
  then show ?thesis
    unfolding rows_step_def update_runs_def commit_def update_where_def
    by (intro exI [of _ "\<lambda>_. True"] exI [of _ "\<lambda>r. if p d r then f r else r"] exI [of _ "[]"])
       (auto simp: assms run_step.stay)
qed (simp add: update_runs_def commit_def rows_step_same)

lemma rows_step_insert: "fresh_row r \<Longrightarrow> r_id r \<in> T \<Longrightarrow> rows_step T d (snd (insert_run r d))"
proof (cases "constraints (d\<lparr>t_runs := t_runs d @ [r]\<rparr>)")
  case True
  assume "fresh_row r" and "r_id r \<in> T"
  with True show ?thesis
    unfolding rows_step_def insert_run_def commit_def
    by (intro exI [of _ "\<lambda>_. True"] exI [of _ "\<lambda>r. r"] exI [of _ "[r]"]) (auto simp: run_step.stay)
qed (simp add: insert_run_def commit_def rows_step_same)

lemma rows_step_purge: "rows_step T d (snd (del_runs job d))"
proof (cases "constraints (d\<lparr>t_runs := filter (\<lambda>r. r_job_id r \<noteq> job) (t_runs d)\<rparr>)")
  case True
  then show ?thesis
    unfolding rows_step_def del_runs_def commit_def
    by (intro exI [of _ "\<lambda>r. r_job_id r \<noteq> job"] exI [of _ "\<lambda>r. r"] exI [of _ "[]"]) (auto simp: run_step.stay)
qed (simp add: del_runs_def commit_def rows_step_same)

text \<open>A fence only restricts: whatever it is, a finishable run is active.\<close>

lemma finishable_active: "finishable i a fence now r \<Longrightarrow> active (r_status r)"
  by (simp add: finishable_def)

lemma finished_id [simp]: "r_id (finished s c now r) = r_id r" "r_status (finished s c now r) = s"
  "r_job_id (finished s c now r) = r_job_id r" "r_worker_id (finished s c now r) = r_worker_id r"
  "r_lease_token (finished s c now r) = r_lease_token r" "r_lease_expires_at (finished s c now r) = None"
  "r_finished_at (finished s c now r) = Some now" "r_retry_count (finished s c now r) = r_retry_count r"
  "r_next_retry_at (finished s c now r) = r_next_retry_at r" "r_started_at (finished s c now r) = r_started_at r"
  by (simp_all add: finished_def)

lemmas opt_case_simps = option.case_eq_if

lemma seq_ret_snd [simp]: "snd (seq m (\<lambda>_. ret x) d) = snd (m d)"
  by (simp add: seq_def ret_def split: prod.split sum.split)

lemma mgr_step_rows:
  assumes "mgr_step T d d'" and "constraints d"
  shows "rows_step T d d'"
  using assms
proof (induction rule: mgr_step.induct)
  case (create i s d job w' prio now)
  then show ?case
    by (auto simp: create_run_stmt_def new_run_def fresh_row_def rows_step_same
        split: option.split intro!: rows_step_insert)
next
  case (lost_requeue n d i w' now)
  then show ?case
    by (auto simp: lost_requeue_stmt_def new_run_def fresh_row_def rows_step_same
        split: option.split intro!: rows_step_insert)
next
  case (claim t d i w now)
  then show ?case unfolding claim_stmt_def
    by (intro rows_step_update) (auto simp: claimable_def intro: run_step.claim)
next
  case (renew d i w t now)
  then show ?case unfolding renew_stmt_def
    by (intro rows_step_update) (auto intro: run_step.renew split: option.splits)
next
  case (expire d i now)
  then show ?case unfolding expire_stmt_def
    by (intro rows_step_update) (auto intro: run_step.expire split: option.splits)
next
  case (mark_running d w job)
  then show ?case unfolding mark_running_stmt_def
    by (intro rows_step_update) (auto intro: run_step.mark_running)
next
  case (finish s d i a c fence now)
  then show ?case unfolding finish_active_stmt_def
    by (intro rows_step_update) (auto intro: run_step.finish dest: finishable_active)
next
  case (retry d i a next_at m fence now)
  then show ?case unfolding retry_active_stmt_def
    by (intro rows_step_update) (auto intro: run_step.retry dest: finishable_active)
next
  case (cancel d job)
  then show ?case unfolding set_cancelling_by_job_def
    by (intro rows_step_update) (auto intro: run_step.cancel)
next
  case (superseded d now)
  then show ?case unfolding drop_superseded_runs_def
    by (intro rows_step_update) (auto simp: superseded_def intro: run_step.drop)
next
  case (assign d i w)
  then show ?case unfolding assign_stmt_def
    by (intro rows_step_update) (auto intro: run_step.assign)
next
  case (requeue d i m now)
  then show ?case unfolding requeue_stmt_def
    by (intro rows_step_update) (auto intro: run_step.requeue)
next
  case (cancel_waiting d job now)
  then show ?case unfolding cancel_waiting_stmt_def
    by (intro rows_step_update) (auto intro: run_step.drop)
next
  case (unassign d)
  then show ?case unfolding unassign_stmt_def
    by (intro rows_step_update) (auto intro: run_step.assign)
next
  case (resources d i mem cpu)
  then show ?case unfolding set_run_resources_def seq_ret_snd
    by (intro rows_step_update) (auto intro: run_step.resources)
next
  case (abandon_retry d i r c now)
  have "q = r" if "q \<in> set (t_runs d)" "r_id q = i" for q
    using abandon_retry that find_run_unique by blast
  with abandon_retry show ?case unfolding finish_stmt_def
    by (intro rows_step_update) (auto intro: run_step.abandon)
next
  case (settle_skipped d i r c now)
  have "q = r" if "q \<in> set (t_runs d)" "r_id q = i" for q
    using settle_skipped that find_run_unique by blast
  with settle_skipped show ?case unfolding finish_stmt_def
    by (intro rows_step_update) (auto intro: run_step.settle_skipped)
next
  case (vanish d i r c now)
  have "q = r" if "q \<in> set (t_runs d)" "r_id q = i" for q
    using vanish that find_run_unique by blast
  with vanish show ?case unfolding finish_stmt_def
    by (intro rows_step_update) (auto intro: run_step.vanish)
next
  case (purge d job)
  show ?case by (rule rows_step_purge)
next
  case (other d' d)
  then show ?case by (simp add: rows_step_same)
qed

section \<open>Invariants of a run\<close>

definition settled :: "JobStatus \<Rightarrow> bool" where
  "settled s \<longleftrightarrow> s \<in> {Success, SuccessWithWarnings, Failed, Cancelled, Lost}"

text \<open>
  What a run row always satisfies: an active run has a worker, a start time, a lease and its token; a
  waiting run holds no lease; a retry has its time; a settled run has its end time; no run is
  pending or scheduled.
\<close>

definition run_ok :: "run_rec \<Rightarrow> bool" where
  "run_ok r \<longleftrightarrow>
     (active (r_status r) \<longrightarrow> r_worker_id r \<noteq> None \<and> r_started_at r \<noteq> None
        \<and> r_lease_expires_at r \<noteq> None \<and> r_lease_token r \<noteq> None)
     \<and> (r_status r \<in> {Queued, Retrying} \<longrightarrow> r_lease_expires_at r = None)
     \<and> (r_status r = Retrying \<longrightarrow> r_next_retry_at r \<noteq> None)
     \<and> (settled (r_status r) \<longrightarrow> r_finished_at r \<noteq> None)
     \<and> r_status r \<noteq> Pending \<and> r_status r \<noteq> Scheduled"

lemma fresh_row_ok: "fresh_row r \<Longrightarrow> run_ok r"
  by (auto simp: fresh_row_def run_ok_def settled_def)

lemma run_step_ok: "run_step T r r' \<Longrightarrow> run_ok r \<Longrightarrow> run_ok r'"
  by (induction rule: run_step.induct)
     (auto simp: run_ok_def settled_def active_def executing_def)

text \<open>The status changes of the manager.\<close>

definition mgr_edge :: "JobStatus \<Rightarrow> JobStatus \<Rightarrow> bool" where
  "mgr_edge a b \<longleftrightarrow>
     (a = Queued \<and> b \<in> {Syncing, Cancelled, Failed})
     \<or> (a = Syncing \<and> b = Running)
     \<or> (executing a \<and> b = Cancelling)
     \<or> (active a \<and> b \<in> {Success, SuccessWithWarnings, Failed, Cancelled, Lost, Retrying})
     \<or> (a = Retrying \<and> b \<in> {Queued, Cancelled})"

lemma run_step_edge: "run_step T r r' \<Longrightarrow> r_status r' = r_status r \<or> mgr_edge (r_status r) (r_status r')"
  by (induction rule: run_step.induct) (auto simp: mgr_edge_def)

lemma run_step_identity:
  "run_step T r r' \<Longrightarrow> r_id r' = r_id r \<and> r_job_id r' = r_job_id r \<and> r_created_at r' = r_created_at r
     \<and> r_priority r' = r_priority r \<and> r_lost_count r' = r_lost_count r
     \<and> r_config_generation r' = r_config_generation r"
  by (induction rule: run_step.induct) (auto simp: finished_def)

text \<open>
  A token that no claim can draw any more is dead for a run that does not hold it: the run never
  becomes active under it again.
\<close>

definition holds_token :: "string \<Rightarrow> run_rec \<Rightarrow> bool" where
  "holds_token t r \<longleftrightarrow> active (r_status r) \<and> r_lease_token r = Some t"

lemma run_step_token: "run_step T r r' \<Longrightarrow> t \<notin> T \<Longrightarrow> holds_token t r' \<Longrightarrow> holds_token t r"
  by (induction rule: run_step.induct) (auto simp: holds_token_def active_def executing_def)

text \<open>Success, failure and loss are final; so is the end time they were given.\<close>

lemma run_step_final:
  "run_step T r r' \<Longrightarrow> r_status r \<in> {Success, SuccessWithWarnings, Failed, Lost} \<Longrightarrow>
     r_status r' = r_status r \<and> r_finished_at r' = r_finished_at r \<and> r_message r' = r_message r
     \<and> r_exit_code r' = r_exit_code r"
  by (induction rule: run_step.induct) (auto simp: active_def executing_def)

section \<open>Executions\<close>

definition mgr_inv :: "db \<Rightarrow> bool" where
  "mgr_inv d \<longleftrightarrow> constraints d \<and> (\<forall>r \<in> set (t_runs d). run_ok r)"

lemma mgr_step_valid: "mgr_step T d d' \<Longrightarrow> constraints d \<Longrightarrow> constraints d'"
proof (induction rule: mgr_step.induct)
  case (purge d job)
  then show ?case by (auto simp: del_runs_def commit_def)
next
  case (resources d i mem cpu)
  then show ?case
    using update_runs_valid by (auto simp: set_run_resources_def preserves_def stays_valid_def)
qed (use update_runs_valid create_run_stmt_valid lost_requeue_stmt_valid in
      \<open>auto simp: stmt_defs preserves_def stays_valid_def\<close>)

lemma rows_stepE:
  assumes "rows_step T d d'" and "r' \<in> set (t_runs d')"
  obtains (old) r where "r \<in> set (t_runs d)" and "run_step T r r'" and "r_id r' = r_id r"
        | (new) "fresh_row r'" and "r_id r' \<in> T"
  using assms unfolding rows_step_def by auto

lemma mgr_step_inv: "mgr_step T d d' \<Longrightarrow> mgr_inv d \<Longrightarrow> mgr_inv d'"
  unfolding mgr_inv_def
  by (metis mgr_step_valid mgr_step_rows rows_stepE run_step_ok fresh_row_ok)

abbreviation reaches :: "string set \<Rightarrow> db \<Rightarrow> db \<Rightarrow> bool" where
  "reaches T \<equiv> (mgr_step T)\<^sup>*\<^sup>*"

lemma reaches_inv: "reaches T d d' \<Longrightarrow> mgr_inv d \<Longrightarrow> mgr_inv d'"
  by (induction rule: rtranclp_induct) (auto intro: mgr_step_inv)

lemma empty_db_inv: "mgr_inv empty_db"
  by (simp add: mgr_inv_def constraints_def empty_db_def job_names_def worker_ids_def active_runs_def)

section \<open>Following a run\<close>

lemma mgr_step_forward:
  assumes "mgr_step T d d'" and "constraints d" and "find_run d i = Some r"
  shows "find_run d' i = None \<or> (\<exists>r'. find_run d' i = Some r' \<and> run_step T r r')"
proof (cases "find_run d' i")
  case (Some r')
  have c': "constraints d'" using mgr_step_valid [OF assms(1,2)] .
  have r: "r \<in> set (t_runs d)" "r_id r = i" using assms(3) find_run_SomeD by auto
  have r': "r' \<in> set (t_runs d')" "r_id r' = i" using Some find_run_SomeD by auto
  obtain keep g new where rows: "t_runs d' = map g (filter keep (t_runs d)) @ new"
    and g: "\<forall>r \<in> set (t_runs d). run_step T r (g r) \<and> r_id (g r) = r_id r"
    and new: "new = [] \<or> keep = (\<lambda>_. True)"
    using mgr_step_rows [OF assms(1,2)] unfolding rows_step_def by blast
  have "r' = g r"
  proof (cases "keep = (\<lambda>_. True)")
    case True
    then have "g r \<in> set (t_runs d')" using rows r by auto
    then show ?thesis using find_run_unique [OF c' Some] g r by simp
  next
    case False
    then obtain q where "q \<in> set (t_runs d)" "r' = g q" using rows new r' by auto
    then show ?thesis using find_run_unique [OF assms(2,3)] g r' by auto
  qed
  then show ?thesis using Some g r by auto
qed simp

lemma mgr_step_gone:
  assumes "mgr_step T d d'" and "constraints d" and "i \<notin> T" and "find_run d i = None"
  shows "find_run d' i = None"
  using mgr_step_rows [OF assms(1,2)] assms(3,4) by (auto simp: find_run_None elim!: rows_stepE)

text \<open>A property of run rows that every step of the specification keeps holds along every execution.\<close>

lemma reaches_follow:
  assumes "reaches T d d'" and "constraints d" and "i \<notin> T"
    and "\<And>a b. run_step T a b \<Longrightarrow> P a \<Longrightarrow> P b"
    and "find_run d i = None \<or> (\<exists>r. find_run d i = Some r \<and> P r)"
  shows "constraints d' \<and> (find_run d' i = None \<or> (\<exists>r. find_run d' i = Some r \<and> P r))"
  using assms(1)
proof (induction rule: rtranclp_induct)
  case base
  then show ?case using assms by blast
next
  case (step y z)
  then have c: "constraints y" by blast
  then have "constraints z" using mgr_step_valid step.hyps(2) by blast
  moreover have "find_run z i = None \<or> (\<exists>r. find_run z i = Some r \<and> P r)"
  proof (cases "find_run y i")
    case None
    then show ?thesis using mgr_step_gone [OF step.hyps(2) c assms(3)] by simp
  next
    case (Some r)
    then have "P r" using step.IH by simp
    then show ?thesis using mgr_step_forward [OF step.hyps(2) c Some] assms(4) by blast
  qed
  ultimately show ?case by blast
qed

end
