(* ===== verification/Leases.thy ===== *)
theory Leases
  imports Run_Protocol
begin

text \<open>
  Claims, leases and fencing: \<open>claim_run\<close>, \<open>renew_run_lease\<close>, \<open>finish_active_run_fenced\<close>,
  \<open>set_retry_from_active_fenced\<close>, \<open>insert_log_fenced\<close>, \<open>expire_run\<close> and \<open>create_lost_requeue\<close> of
  \<open>crates/db/src/store.rs\<close>.

  The locale \<open>fenced_op\<close> is the contract of an operation that a worker performs under the lease of a
  run: without the lease it is refused and changes nothing. It is interpreted on the four operations
  that carry a fence, and gives for each of them that a stale worker stays harmless for ever.
\<close>

section \<open>Constraints on changed runs\<close>

lemma distinct_active_iff:
  assumes "distinct (map r_id rs)"
  shows "distinct (map r_job_id (filter act rs)) \<longleftrightarrow>
           (\<forall>x \<in> set rs. \<forall>y \<in> set rs. act x \<longrightarrow> act y \<longrightarrow> r_job_id x = r_job_id y \<longrightarrow> x = y)"
proof -
  have "distinct rs" using assms by (simp add: distinct_map)
  then show ?thesis by (auto simp: distinct_map inj_on_def)
qed

definition refs_ok :: "db \<Rightarrow> run_rec \<Rightarrow> bool" where
  "refs_ok d r \<longleftrightarrow> r_job_id r \<in> set (job_names d)
     \<and> (case r_worker_id r of None \<Rightarrow> True | Some w \<Rightarrow> w \<in> set (worker_ids d))"

lemma constraints_runs:
  assumes "constraints d" and "distinct (map r_id rs)"
  shows "constraints (d\<lparr>t_runs := rs\<rparr>) \<longleftrightarrow> (\<forall>r \<in> set rs. refs_ok d r)
    \<and> (\<forall>x \<in> set rs. \<forall>y \<in> set rs. active (r_status x) \<longrightarrow> active (r_status y) \<longrightarrow> r_job_id x = r_job_id y \<longrightarrow> x = y)"
  using assms distinct_active_iff [OF assms(2), of "\<lambda>r. active (r_status r)"]
  by (auto simp: constraints_def refs_ok_def active_runs_def list_all_iff cong: option.case_cong)

lemma constraints_refs: "constraints d \<Longrightarrow> r \<in> set (t_runs d) \<Longrightarrow> refs_ok d r"
  by (auto simp: constraints_def refs_ok_def list_all_iff)

text \<open>
  An update that keeps identifiers and jobs, names only known workers and activates no run of a job
  that has an active run is committed.
\<close>

lemma update_runs_commits:
  assumes "constraints d"
    and id: "\<And>r. r_id (f r) = r_id r \<and> r_job_id (f r) = r_job_id r"
    and refs: "\<And>r. r \<in> set (t_runs d) \<Longrightarrow> p d r \<Longrightarrow> refs_ok d (f r)"
    and act: "\<And>r q. r \<in> set (t_runs d) \<Longrightarrow> q \<in> set (t_runs d) \<Longrightarrow> p d r \<Longrightarrow> active (r_status (f r)) \<Longrightarrow>
               r_job_id q = r_job_id r \<Longrightarrow> active (r_status q) \<or> p d q \<Longrightarrow> q = r"
  shows "update_runs p f d = (Ok (count_where (p d) (t_runs d)), d\<lparr>t_runs := update_where (p d) f (t_runs d)\<rparr>)"
proof -
  let ?rs = "update_where (p d) f (t_runs d)"
  have ids: "distinct (map r_id ?rs)"
    using constraints_run_ids [OF assms(1)] id by (simp add: map_update_where)
  have "constraints (d\<lparr>t_runs := ?rs\<rparr>)"
    unfolding constraints_runs [OF assms(1) ids]
  proof (intro conjI ballI impI)
    fix r assume "r \<in> set ?rs"
    then show "refs_ok d r" using constraints_refs [OF assms(1)] refs by (auto simp: set_update_where)
  next
    fix x y assume xy: "x \<in> set ?rs" "y \<in> set ?rs" "active (r_status x)" "active (r_status y)" "r_job_id x = r_job_id y"
    from xy(1) obtain a where a: "a \<in> set (t_runs d)" "x = (if p d a then f a else a)" by (auto simp: update_where_def)
    from xy(2) obtain b where b: "b \<in> set (t_runs d)" "y = (if p d b then f b else b)" by (auto simp: update_where_def)
    have job: "r_job_id a = r_job_id b" using a b xy(5) id by (auto split: if_splits)
    have "a = b"
    proof (cases "p d a")
      case True
      then show ?thesis using act [OF a(1) b(1)] a(2) b(2) xy job by (auto split: if_splits)
    next
      case False
      then show ?thesis
        using act [OF b(1) a(1)] one_active [OF assms(1) a(1) b(1)] a(2) b(2) xy job by (auto split: if_splits)
    qed
    with a b show "x = y" by simp
  qed
  then show ?thesis by (simp add: update_runs_def commit_def)
qed

text \<open>Statements that deactivate runs or keep their status class commit.\<close>

lemma update_runs_passive:
  assumes "constraints d"
    and "\<And>r. r_id (f r) = r_id r \<and> r_job_id (f r) = r_job_id r \<and> r_worker_id (f r) = r_worker_id r"
    and "\<And>r. p d r \<Longrightarrow> active (r_status (f r)) \<Longrightarrow> active (r_status r)"
    and "\<And>r q. p d r \<Longrightarrow> p d q \<Longrightarrow> active (r_status (f r)) \<Longrightarrow> active (r_status q)"
  shows "update_runs p f d = (Ok (count_where (p d) (t_runs d)), d\<lparr>t_runs := update_where (p d) f (t_runs d)\<rparr>)"
proof (rule update_runs_commits [OF assms(1)])
  fix r assume "r \<in> set (t_runs d)"
  then show "refs_ok d (f r)" using constraints_refs [OF assms(1)] assms(2) by (simp add: refs_ok_def)
next
  fix r q assume "r \<in> set (t_runs d)" "q \<in> set (t_runs d)" "p d r" "active (r_status (f r))" "r_job_id q = r_job_id r"
    "active (r_status q) \<or> p d q"
  then show "q = r" using one_active [OF assms(1)] assms(3,4) by metis
qed (use assms(2) in simp)

section \<open>Claims\<close>

definition claimed :: "string \<Rightarrow> string \<Rightarrow> int \<Rightarrow> run_rec \<Rightarrow> run_rec" where
  "claimed w token now r = r\<lparr>r_status := Syncing, r_worker_id := Some w, r_started_at := Some now,
     r_lease_expires_at := Some (now + RUN_LEASE_SECS), r_lease_token := Some token\<rparr>"

lemma claimed_simps [simp]:
  "r_id (claimed w t now r) = r_id r" "r_job_id (claimed w t now r) = r_job_id r"
  "r_status (claimed w t now r) = Syncing" "r_worker_id (claimed w t now r) = Some w"
  "r_lease_token (claimed w t now r) = Some t" "r_lease_expires_at (claimed w t now r) = Some (now + RUN_LEASE_SECS)"
  by (simp_all add: claimed_def)

lemma claim_stmt_alt: "claim_stmt i w token now = update_runs (claimable i w) (claimed w token now)"
  by (simp add: claim_stmt_def claimed_def [abs_def])

lemma claim_run_idle:
  assumes "constraints d" and "\<forall>r \<in> set (t_runs d). \<not> claimable i w d r"
  shows "claim_run i w token now d = (Ok False, d)"
  using update_runs_idle [of d "claimable i w"] assms by (simp add: claim_run_def claim_stmt_alt)

text \<open>A claim either changes nothing and answers false, or activates exactly the claimed run.\<close>

lemma claim_run_cases:
  assumes "constraints d"
  shows "claim_run i w token now d = (Ok False, d)
    \<or> (\<exists>r js. find_run d i = Some r \<and> claimable i w d r
         \<and> claim_run i w token now d =
             (Ok True, d\<lparr>t_runs := update_where (claimable i w d) (claimed w token now) (t_runs d), t_jobs := js\<rparr>)
         \<and> constraints (d\<lparr>t_runs := update_where (claimable i w d) (claimed w token now) (t_runs d)\<rparr>))"
proof (cases "\<forall>r \<in> set (t_runs d). \<not> claimable i w d r")
  case True
  then show ?thesis using claim_run_idle [OF assms] by blast
next
  case False
  then obtain r where r: "r \<in> set (t_runs d)" "claimable i w d r" by blast
  then have found: "find_run d i = Some r" using find_run_iff [OF assms] by (simp add: claimable_def)
  let ?d = "d\<lparr>t_runs := update_where (claimable i w d) (claimed w token now) (t_runs d)\<rparr>"
  show ?thesis
  proof (cases "constraints ?d")
    case False
    then show ?thesis by (simp add: claim_run_def claim_stmt_alt update_runs_def commit_def)
  next
    case True
    have "0 < count_where (claimable i w d) (t_runs d)" using r by (auto simp: count_where_pos)
    moreover have "claimed w token now r \<in> set (t_runs ?d)" using r by (simp add: set_update_where)
    then have "find_run ?d i = Some (claimed w token now r)"
      using find_run_iff [OF True] r by (simp add: claimable_def)
    moreover obtain js where "set_job_status (r_job_id r) Syncing ?d = (Ok (), ?d\<lparr>t_jobs := js\<rparr>)"
      using set_job_status_total [OF True] by blast
    ultimately have "claim_run i w token now d = (Ok True, ?d\<lparr>t_jobs := js\<rparr>)"
      using True by (simp add: claim_run_def claim_stmt_alt update_runs_def commit_def seq_def ret_def)
    with True r found show ?thesis by auto
  qed
qed

lemma claim_run_True:
  assumes "constraints d" and "claim_run i w token now d = (Ok True, d')"
  shows "\<exists>r. find_run d i = Some r \<and> claimable i w d r \<and> constraints d'
           \<and> t_runs d' = update_where (claimable i w d) (claimed w token now) (t_runs d)
           \<and> find_run d' i = Some (claimed w token now r)
           \<and> (\<forall>q \<in> set (t_runs d). r_job_id q = r_job_id r \<longrightarrow> \<not> active (r_status q))"
proof -
  from claim_run_cases [OF assms(1), of i w token now] assms(2) obtain r js
    where r: "find_run d i = Some r" "claimable i w d r"
      and d': "d' = d\<lparr>t_runs := update_where (claimable i w d) (claimed w token now) (t_runs d), t_jobs := js\<rparr>"
    by auto
  have c': "constraints d'" using claim_run_valid [THEN preservesD, OF assms(2)] assms(1) by (simp add: stays_valid_def)
  have rin: "r \<in> set (t_runs d)" "r_id r = i" using r find_run_SomeD by auto
  have runs: "t_runs d' = update_where (claimable i w d) (claimed w token now) (t_runs d)" by (simp add: d')
  have in': "claimed w token now r \<in> set (t_runs d')" using rin r by (auto simp: runs set_update_where)
  have noact: "\<not> active (r_status q)" if q: "q \<in> set (t_runs d)" "r_job_id q = r_job_id r" for q
  proof
    assume a: "active (r_status q)"
    then have "\<not> claimable i w d q" by (auto simp: claimable_def)
    then have "q \<in> set (t_runs d')" using q by (auto simp: runs set_update_where)
    from one_active [OF c' this in'] a q have "q = claimed w token now r" by simp
    then have "r_id q = r_id r" by simp
    then have "q = r" using find_run_unique [OF assms(1) r(1) q(1)] rin by simp
    then show False using a r(2) by (simp add: claimable_def)
  qed
  from in' rin have "find_run d' i = Some (claimed w token now r)" using find_run_iff [OF c'] by simp
  with r c' runs noact show ?thesis by blast
qed

text \<open>Conversely, a waiting run of an idle job is given to a registered worker.\<close>

lemma claim_run_succeeds:
  assumes "constraints d" and "find_run d i = Some r" and "r_status r = Queued"
    and "r_worker_id r = None \<or> r_worker_id r = Some w" and "w \<in> set (worker_ids d)"
    and "\<forall>q \<in> set (t_runs d). r_job_id q = r_job_id r \<longrightarrow> \<not> active (r_status q)"
  shows "\<exists>d'. claim_run i w token now d = (Ok True, d')"
proof -
  have rin: "r \<in> set (t_runs d)" "r_id r = i" using assms(2) find_run_SomeD by auto
  have cl: "claimable i w d r" using assms rin by (auto simp: claimable_def dest: executing_active)
  have only: "q = r" if "q \<in> set (t_runs d)" "claimable i w d q" for q
    using find_run_unique [OF assms(1,2)] that by (simp add: claimable_def)
  have "update_runs (claimable i w) (claimed w token now) d = (Ok (count_where (claimable i w d) (t_runs d)),
      d\<lparr>t_runs := update_where (claimable i w d) (claimed w token now) (t_runs d)\<rparr>)"
  proof (rule update_runs_commits [OF assms(1)])
    fix q assume "q \<in> set (t_runs d)"
    then show "refs_ok d (claimed w token now q)"
      using constraints_refs [OF assms(1)] assms(5) by (simp add: refs_ok_def)
  next
    fix a q assume "a \<in> set (t_runs d)" "q \<in> set (t_runs d)" "claimable i w d a" "r_job_id q = r_job_id a"
      "active (r_status q) \<or> claimable i w d q"
    then show "q = a" using only assms(6) by metis
  qed simp
  moreover have "0 < count_where (claimable i w d) (t_runs d)" using rin cl by (auto simp: count_where_pos)
  ultimately have "fst (claim_run i w token now d) \<noteq> Ok False"
    using claim_run_cases [OF assms(1), of i w token now] rin cl
    by (auto simp: claim_run_def claim_stmt_alt seq_def ret_def split: option.split prod.split sum.split)
  then show ?thesis using claim_run_cases [OF assms(1), of i w token now] by auto
qed

section \<open>Fenced operations\<close>

lemma lease_held_iff:
  "lease_held i w t now r \<longleftrightarrow> r_id r = i \<and> fence_ok (Some (w, t)) now r \<and> active (r_status r)" if "w \<noteq> []"
  using that by (auto simp: lease_held_def fence_ok_def)

lemma finishable_held: "w \<noteq> [] \<Longrightarrow> finishable i a (Some (w, t)) now r \<longleftrightarrow> lease_held i w t now r \<and> r_retry_count r = a"
  by (auto simp: finishable_def lease_held_iff)

locale fenced_op =
  fixes perform :: "string \<Rightarrow> string \<Rightarrow> string \<Rightarrow> int \<Rightarrow> 'a stmt"
    and refused :: 'a
  assumes no_lease: "constraints d \<Longrightarrow> w \<noteq> [] \<Longrightarrow> \<forall>r \<in> set (t_runs d). \<not> lease_held i w t now r \<Longrightarrow>
            perform i w t now d = (Ok refused, d)"
begin

lemma expired_lease:
  assumes "constraints d" and "w \<noteq> []" and "find_run d i = Some r"
    and "case r_lease_expires_at r of Some e \<Rightarrow> e \<le> now | None \<Rightarrow> True"
  shows "perform i w t now d = (Ok refused, d)"
proof (rule no_lease [OF assms(1,2)])
  show "\<forall>q \<in> set (t_runs d). \<not> lease_held i w t now q"
    using find_run_unique [OF assms(1,3)] assms(4) by (fastforce simp: lease_held_def split: option.splits)
qed

lemma wrong_holder:
  assumes "constraints d" and "w \<noteq> []" and "find_run d i = Some r"
    and "r_worker_id r \<noteq> Some w \<or> r_lease_token r \<noteq> Some t \<or> \<not> active (r_status r)"
  shows "perform i w t now d = (Ok refused, d)"
proof (rule no_lease [OF assms(1,2)])
  show "\<forall>q \<in> set (t_runs d). \<not> lease_held i w t now q"
    using find_run_unique [OF assms(1,3)] assms(4) by (auto simp: lease_held_def)
qed

text \<open>A token that a run does not hold and that cannot be drawn again is refused in every later state.\<close>

lemma stale_for_ever:
  assumes "reaches T d d'" and "constraints d" and "w \<noteq> []" and "i \<notin> T" and "t \<notin> T"
    and "\<forall>r. find_run d i = Some r \<longrightarrow> \<not> holds_token t r"
  shows "perform i w t now d' = (Ok refused, d')"
proof -
  have step: "\<not> holds_token t b" if "run_step T a b" "\<not> holds_token t a" for a b
    using run_step_token [OF that(1) assms(5)] that(2) by blast
  have start: "find_run d i = None \<or> (\<exists>r. find_run d i = Some r \<and> \<not> holds_token t r)"
    using assms(6) by (cases "find_run d i") auto
  have "constraints d' \<and> (find_run d' i = None \<or> (\<exists>r. find_run d' i = Some r \<and> \<not> holds_token t r))"
    by (rule reaches_follow [OF assms(1,2,4)]) (use step start in auto)
  then have c': "constraints d'" and dead: "find_run d' i = None \<or> (\<exists>r. find_run d' i = Some r \<and> \<not> holds_token t r)"
    by blast+
  show ?thesis
  proof (rule no_lease [OF c' assms(3)])
    show "\<forall>q \<in> set (t_runs d'). \<not> lease_held i w t now q"
      using dead find_run_unique [OF c'] by (auto simp: find_run_None lease_held_def holds_token_def)
  qed
qed

end

interpretation complete_op: fenced_op "\<lambda>i w t now. finish_active_run_fenced i a s c (Some (w, t)) now" False for a s c
proof
  fix d :: db and w :: string and i :: string and t :: string and now :: int
  assume "constraints d" and "w \<noteq> []" and none: "\<forall>r \<in> set (t_runs d). \<not> lease_held i w t now r"
  then show "finish_active_run_fenced i a s c (Some (w, t)) now d = (Ok False, d)"
    using update_runs_idle [of d "\<lambda>_. finishable i a (Some (w, t)) now" "finished s c now"]
    by (simp add: finish_active_run_fenced_def finish_active_stmt_def finishable_held seq_def ret_def)
qed

interpretation retry_op: fenced_op "\<lambda>i w t now. set_retry_from_active_fenced i a next_at n (Some (w, t)) now" False
  for a next_at n
proof
  fix d :: db and w :: string and i :: string and t :: string and now :: int
  assume "constraints d" and "w \<noteq> []" and none: "\<forall>r \<in> set (t_runs d). \<not> lease_held i w t now r"
  then show "set_retry_from_active_fenced i a next_at n (Some (w, t)) now d = (Ok False, d)"
    using update_runs_idle [of d "\<lambda>_. finishable i a (Some (w, t)) now"]
    by (simp add: set_retry_from_active_fenced_def retry_active_stmt_def finishable_held seq_def ret_def)
qed

interpretation renew_op: fenced_op renew_run_lease False
proof
  fix d :: db and w :: string and i :: string and t :: string and now :: int
  assume c: "constraints d" and "w \<noteq> []" and none: "\<forall>r \<in> set (t_runs d). \<not> lease_held i w t now r"
  have "renew_stmt i w t now d = (Ok 0, d)"
    unfolding renew_stmt_def by (rule update_runs_idle [OF c]) (use none in \<open>auto simp: lease_held_def\<close>)
  then show "renew_run_lease i w t now d = (Ok False, d)"
    by (simp add: renew_run_lease_def seq_def ret_def)
qed

interpretation log_op: fenced_op "\<lambda>i w t now. insert_log_fenced i w t job content now" "()" for job content
proof
  fix d :: db and w :: string and i :: string and t :: string and now :: int
  assume "\<forall>r \<in> set (t_runs d). \<not> lease_held i w t now r"
  then have "find (lease_held i w t now) (t_runs d) = None" by (simp add: find_None_iff)
  then show "insert_log_fenced i w t job content now d = (Ok (), d)" by (simp add: insert_log_fenced_def)
qed

text \<open>The holder of the lease is served.\<close>

lemma finish_fenced_holder:
  assumes "constraints d" and "find_run d i = Some r" and "lease_held i w t now r" and "w \<noteq> []" and "\<not> active s"
  shows "\<exists>d'. finish_active_run_fenced i (r_retry_count r) s c (Some (w, t)) now d = (Ok True, d')
           \<and> find_run d' i = Some (finished s c now r) \<and> constraints d'"
proof -
  let ?p = "\<lambda>_ :: db. finishable i (r_retry_count r) (Some (w, t)) now"
  let ?d = "d\<lparr>t_runs := update_where (?p d) (finished s c now) (t_runs d)\<rparr>"
  have rin: "r \<in> set (t_runs d)" "r_id r = i" using assms(2) find_run_SomeD by auto
  have p: "?p d r" using assms by (simp add: finishable_held)
  have u: "update_runs ?p (finished s c now) d = (Ok (count_where (?p d) (t_runs d)), ?d)"
    by (rule update_runs_passive [OF assms(1)]) (use assms(5) in auto)
  then have c': "constraints ?d" by (rule update_runs_effect [THEN conjunct2, THEN conjunct2])
  have "0 < count_where (?p d) (t_runs d)" using rin p by (auto simp: count_where_pos)
  moreover obtain js where "set_job_status_for_run i ?d = (Ok (), ?d\<lparr>t_jobs := js\<rparr>)"
    using set_job_status_for_run_total [OF c'] by blast
  ultimately have "finish_active_run_fenced i (r_retry_count r) s c (Some (w, t)) now d = (Ok True, ?d\<lparr>t_jobs := js\<rparr>)"
    by (simp add: finish_active_run_fenced_def finish_active_stmt_def u seq_def ret_def del: count_where_0)
  moreover from this have c2: "constraints (?d\<lparr>t_jobs := js\<rparr>)"
    using run_ops_valid(10) [THEN preservesD] assms(1) by (fastforce simp: stays_valid_def)
  moreover have "find_run (?d\<lparr>t_jobs := js\<rparr>) i = Some (finished s c now r)"
    unfolding find_run_iff [OF c2] using rin p by (auto simp: set_update_where)
  ultimately show ?thesis by blast
qed

section \<open>Expiry and requeue\<close>

lemma expire_run_effect:
  assumes "constraints d" and "find_run d i = Some r" and "active (r_status r)"
    and "r_lease_expires_at r = Some e" and "e \<le> now"
  shows "\<exists>d'. expire_run i now d = (Ok True, d') \<and> constraints d'
           \<and> find_run d' i = Some (r\<lparr>r_status := Lost, r_finished_at := Some now, r_message := Some lost_message\<rparr>)"
proof -
  let ?p = "\<lambda>(_ :: db) r. r_id r = i \<and> (case r_lease_expires_at r of Some e \<Rightarrow> e \<le> now | None \<Rightarrow> False) \<and> active (r_status r)"
  let ?f = "\<lambda>r. r\<lparr>r_status := Lost, r_finished_at := Some now, r_message := Some lost_message\<rparr>"
  let ?d = "d\<lparr>t_runs := update_where (?p d) ?f (t_runs d)\<rparr>"
  have rin: "r \<in> set (t_runs d)" "r_id r = i" using assms(2) find_run_SomeD by auto
  have p: "?p d r" using assms rin by simp
  have u: "update_runs ?p ?f d = (Ok (count_where (?p d) (t_runs d)), ?d)"
    by (rule update_runs_passive [OF assms(1)]) auto
  then have c': "constraints ?d" by (rule update_runs_effect [THEN conjunct2, THEN conjunct2])
  have n: "0 < count_where (?p d) (t_runs d)" using rin p by (auto simp: count_where_pos)
  obtain js where js: "set_job_status_for_run i ?d = (Ok (), ?d\<lparr>t_jobs := js\<rparr>)"
    using set_job_status_for_run_total [OF c'] by blast
  have e: "expire_run i now d = (Ok True, ?d\<lparr>t_jobs := js\<rparr>)"
    using n js by (simp add: expire_run_def expire_stmt_def u seq_def ret_def del: count_where_0)
  then have c2: "constraints (?d\<lparr>t_jobs := js\<rparr>)"
    using run_ops_valid(3) [THEN preservesD] assms(1) by (fastforce simp: stays_valid_def)
  have "?f r \<in> set (t_runs ?d)" using rin(1) p unfolding update_where_def by force
  then have "find_run (?d\<lparr>t_jobs := js\<rparr>) i = Some (?f r)"
    unfolding find_run_iff [OF c2] using rin by simp
  with e c2 show ?thesis by blast
qed

lemma expire_run_idle:
  assumes "constraints d"
    and "\<forall>r. find_run d i = Some r \<longrightarrow> \<not> active (r_status r) \<or> (case r_lease_expires_at r of Some e \<Rightarrow> now < e | None \<Rightarrow> True)"
  shows "expire_run i now d = (Ok False, d)"
proof -
  have "expire_stmt i now d = (Ok 0, d)"
    unfolding expire_stmt_def
    by (rule update_runs_idle [OF assms(1)])
       (use assms(2) find_run_iff [OF assms(1)] in \<open>fastforce split: option.splits\<close>)
  then show ?thesis by (simp add: expire_run_def seq_def ret_def)
qed

lemma insert_run_effect:
  "insert_run r d = (Ok n, d') \<Longrightarrow> d' = d\<lparr>t_runs := t_runs d @ [r]\<rparr> \<and> n = 1 \<and> constraints d'"
  by (auto simp: insert_run_def commit_def split: if_splits)

lemma lost_requeue_stmt_cases:
  assumes "lost_requeue_stmt i n w now d = (Ok m, d1)"
  shows "(m = 0 \<and> d1 = d)
    \<or> (m = 1 \<and> (\<exists>r. find_run d i = Some r \<and> r_status r = Lost
         \<and> (\<forall>q \<in> set (t_runs d). r_job_id q = r_job_id r \<longrightarrow> \<not> inflight (r_status q))
         \<and> t_runs d1 = t_runs d @ [(new_run n (r_job_id r) w Queued now)
               \<lparr>r_lost_count := r_lost_count r + 1, r_config_generation := r_config_generation r\<rparr>]))"
proof (cases "find_run d i")
  case None
  then show ?thesis using assms by (simp add: lost_requeue_stmt_def)
next
  case (Some r)
  let ?new = "(new_run n (r_job_id r) w Queued now)
     \<lparr>r_lost_count := r_lost_count r + 1, r_config_generation := r_config_generation r\<rparr>"
  show ?thesis
  proof (cases "r_status r = Lost \<and> \<not> (\<exists>q \<in> set (t_runs d). r_job_id q = r_job_id r \<and> inflight (r_status q))")
    case True
    then have "insert_run ?new d = (Ok m, d1)" using assms Some by (simp add: lost_requeue_stmt_def)
    from insert_run_effect [OF this] have "m = 1" and "t_runs d1 = t_runs d @ [?new]" by simp_all
    with True Some show ?thesis by blast
  next
    case False
    then show ?thesis using assms Some unfolding lost_requeue_stmt_def by (simp only: option.case if_False) simp
  qed
qed

lemma lost_requeue_cases:
  assumes "create_lost_requeue i n job w now d = (Ok res, d')" and "constraints d"
  shows "(res = None \<and> d' = d)
    \<or> (res = Some n \<and> (\<exists>r. find_run d i = Some r \<and> r_status r = Lost
         \<and> (\<forall>q \<in> set (t_runs d). r_job_id q = r_job_id r \<longrightarrow> \<not> inflight (r_status q))
         \<and> t_runs d' = t_runs d @ [(new_run n (r_job_id r) w Queued now)
               \<lparr>r_lost_count := r_lost_count r + 1, r_config_generation := r_config_generation r\<rparr>]))"
proof -
  obtain x d1 where st: "lost_requeue_stmt i n w now d = (x, d1)" by (cases "lost_requeue_stmt i n w now d")
  from assms(1) st obtain m where x: "x = Ok m" by (cases x) (auto simp: create_lost_requeue_def seq_def)
  note stmt = lost_requeue_stmt_cases [OF st [unfolded x]]
  show ?thesis
  proof (cases "m = 0")
    case True
    then have "res = None \<and> d' = d1" using assms(1) st x by (simp add: create_lost_requeue_def seq_def ret_def)
    with True stmt show ?thesis by simp
  next
    case False
    obtain y d2 where y: "set_job_status job Queued d1 = (y, d2)" by (cases "set_job_status job Queued d1")
    then have "t_runs d2 = t_runs d1" using set_job_status_runs(1) [of job Queued d1] by simp
    then have "res = Some n \<and> t_runs d' = t_runs d1"
      using assms(1) st x y False by (cases y) (simp_all add: create_lost_requeue_def seq_def ret_def)
    with False stmt show ?thesis by simp
  qed
qed

section \<open>A small database\<close>

text \<open>One job, two workers; a run is created, then claimed. The properties below are instantiated on it.\<close>

definition demo_job :: "string \<Rightarrow> job_rec" where
  "demo_job n = \<lparr>jr_name = n, jr_enabled = True, jr_worker = None, jr_provider = ''rsync'',
     jr_provider_config = Rsync [] [], jr_upstream = None, jr_storage_path = ''/srv/m'', jr_timeout_secs = 0,
     jr_retry = 3, jr_retry_delay_secs = 60, jr_retry_backoff = Fin 2, jr_success_exit_codes = [],
     jr_fail_on_match = None, jr_max_concurrency = 1, jr_on_worker_lost = LostRetry, jr_statistics = StatProvider,
     jr_resources = [], jr_priority = 50, jr_status = Pending, jr_updated_at = 0, jr_config_generation = ''g''\<rparr>"

definition demo_worker :: "string \<Rightarrow> worker_rec" where
  "demo_worker i = \<lparr>wk_id = i, wk_hostname = i, wk_address = i, wk_version = ''1'', wk_labels = [],
     wk_max_concurrency = None, wk_status = ONLINE, wk_jobs_running = 0, wk_last_heartbeat = 900,
     wk_registered_at = 0, wk_token_name = i\<rparr>"

definition demo_db :: db where
  "demo_db = empty_db\<lparr>t_jobs := [demo_job ''m''], t_workers := [demo_worker ''w1'', demo_worker ''w2'']\<rparr>"

definition demo_run :: run_rec where
  "demo_run = (new_run ''r1'' ''m'' None Queued 900)\<lparr>r_config_generation := ''g''\<rparr>"

definition demo_queued :: db where
  "demo_queued = demo_db\<lparr>t_runs := [demo_run]\<rparr>"

definition demo_active :: db where
  "demo_active = demo_db\<lparr>t_runs := [claimed ''w1'' ''t1'' 1000 demo_run]\<rparr>"

lemmas demo_eval = demo_db_def demo_queued_def demo_active_def demo_job_def demo_worker_def demo_run_def empty_db_def
  new_run_def constraints_def job_names_def worker_ids_def active_runs_def

lemma demo_valid: "constraints demo_db" "constraints demo_queued" "constraints demo_active"
  by (simp_all add: demo_eval claimed_def)

lemma demo_find: "find_run demo_queued ''r1'' = Some demo_run" "find_run demo_active ''r1'' = Some (claimed ''w1'' ''t1'' 1000 demo_run)"
  by (simp_all add: find_run_def demo_queued_def demo_active_def demo_run_def new_run_def)

lemma demo_runs: "t_runs demo_db = []" "t_runs demo_queued = [demo_run]" "t_runs demo_active = [claimed ''w1'' ''t1'' 1000 demo_run]"
  by (simp_all add: demo_db_def demo_queued_def demo_active_def empty_db_def)

lemma demo_run_simps [simp]: "r_id demo_run = ''r1''" "r_job_id demo_run = ''m''" "r_status demo_run = Queued"
  "r_worker_id demo_run = None" "r_retry_count demo_run = 0"
  by (simp_all add: demo_run_def new_run_def)

lemma demo_create: "snd (create_run_stmt ''r1'' ''m'' None Queued 0 900 demo_db) = demo_queued"
  using demo_valid(2) by (simp add: create_run_stmt_def job_generation_def insert_run_def commit_def
      demo_db_def demo_job_def demo_queued_def demo_run_def new_run_def empty_db_def)

lemma demo_claim: "snd (claim_stmt ''r1'' ''w1'' ''t1'' 1000 demo_queued) = demo_active"
  using demo_valid(3)
  by (simp add: claim_stmt_alt update_runs_def commit_def demo_runs update_where_def claimable_def demo_active_def
      demo_queued_def)

lemma demo_reach: "reaches {''r1'', ''t1''} empty_db demo_active"
proof -
  have "mgr_step {''r1'', ''t1''} empty_db demo_db"
    by (rule mgr_step.other) (simp_all add: demo_valid, simp add: demo_runs empty_db_def)
  moreover have "mgr_step {''r1'', ''t1''} demo_db demo_queued"
    using mgr_step.create [of "''r1''" _ Queued demo_db "''m''" None 0 900] demo_create by simp
  moreover have "mgr_step {''r1'', ''t1''} demo_queued demo_active"
    using mgr_step.claim [of "''t1''" _ demo_queued "''r1''" "''w1''" 1000] demo_claim by simp
  ultimately show ?thesis by (meson rtranclp.rtrancl_into_rtrancl rtranclp.rtrancl_refl)
qed

lemma demo_claim_run: "\<exists>d'. claim_run ''r1'' ''w1'' ''t1'' 1000 demo_queued = (Ok True, d')"
  by (rule claim_run_succeeds [OF demo_valid(2) demo_find(1)])
     (auto simp: demo_runs demo_queued_def demo_db_def worker_ids_def demo_worker_def)

section \<open>Properties\<close>

text \<open>C3: The manager's invariant. In every state that the manager reaches from the empty database, by
  any interleaving of its statements, the keys and references of the tables hold, a job has at most
  one active run, every active run has a worker, a start time, a lease and a token, waiting runs
  hold no lease, a run to be retried knows when, and a settled run has its end time.\<close>

theorem manager_invariant:
  assumes "reaches T empty_db d"
  shows "constraints d \<and> (\<forall>r \<in> set (t_runs d). run_ok r)
    \<and> (\<forall>r \<in> set (t_runs d). \<forall>q \<in> set (t_runs d).
         active (r_status r) \<longrightarrow> active (r_status q) \<longrightarrow> r_job_id r = r_job_id q \<longrightarrow> r = q)"
proof -
  have "mgr_inv d" using reaches_inv [OF assms] empty_db_inv by blast
  then have c: "constraints d" and "\<forall>r \<in> set (t_runs d). run_ok r" by (auto simp: mgr_inv_def)
  with one_active [OF c] show ?thesis by blast
qed

theorem manager_invariant_witness:
  "constraints demo_active \<and> t_runs demo_active = [claimed ''w1'' ''t1'' 1000 demo_run]
   \<and> run_ok (claimed ''w1'' ''t1'' 1000 demo_run) \<and> active (r_status (claimed ''w1'' ''t1'' 1000 demo_run))"
  using manager_invariant [OF demo_reach] by (simp add: demo_runs)

text \<open>The manager refines the life of a run. A statement of the manager, whatever its arguments,
  either leaves a run alone, changes it by one step of the specification \<open>run_step\<close>, or purges it
  with its job. It keeps the run's job, creation time, priority, loss count and generation, and
  changes its status only along the edges of \<open>mgr_edge\<close>: success, failure and loss are entered from
  an active status only and never left.\<close>

lemma manager_refines_run_life:
  assumes "mgr_step T d d'" and "constraints d" and "find_run d i = Some r"
  shows "find_run d' i = None \<or>
    (\<exists>r'. find_run d' i = Some r' \<and> run_step T r r'
        \<and> (r_status r' = r_status r \<or> mgr_edge (r_status r) (r_status r'))
        \<and> r_job_id r' = r_job_id r \<and> r_created_at r' = r_created_at r \<and> r_priority r' = r_priority r
        \<and> r_lost_count r' = r_lost_count r \<and> r_config_generation r' = r_config_generation r)"
  using mgr_step_forward [OF assms] run_step_edge run_step_identity by meson

theorem manager_refines_run_life_witness:
  "mgr_step {''t1''} demo_queued demo_active
   \<and> (\<exists>r'. find_run demo_active ''r1'' = Some r' \<and> mgr_edge Queued (r_status r'))"
proof -
  have step: "mgr_step {''t1''} demo_queued demo_active"
    using mgr_step.claim [of "''t1''" _ demo_queued "''r1''" "''w1''" 1000] demo_claim by simp
  from manager_refines_run_life [OF step demo_valid(2) demo_find(1)] step show ?thesis
    by (auto simp: demo_find)
qed

text \<open>C5: Outcomes are final. A run that succeeded, failed or was lost keeps its status, end time, message
  and exit code in every state the manager reaches later, until its job is purged.\<close>

theorem outcome_final:
  assumes "reaches T d d'" and "constraints d" and "i \<notin> T" and "find_run d i = Some r"
    and "r_status r \<in> {Success, SuccessWithWarnings, Failed, Lost}"
  shows "find_run d' i = None \<or> (\<exists>r'. find_run d' i = Some r' \<and> r_status r' = r_status r
    \<and> r_finished_at r' = r_finished_at r \<and> r_message r' = r_message r \<and> r_exit_code r' = r_exit_code r)"
proof -
  let ?P = "\<lambda>q. r_status q = r_status r \<and> r_finished_at q = r_finished_at r \<and> r_message q = r_message r \<and> r_exit_code q = r_exit_code r"
  have "?P b" if "run_step T a b" "?P a" for a b using run_step_final [OF that(1)] that(2) assms(5) by simp
  then have "constraints d' \<and> (find_run d' i = None \<or> (\<exists>r'. find_run d' i = Some r' \<and> ?P r'))"
    by (rule reaches_follow [OF assms(1-3)]) (use assms(4) in auto)
  then show ?thesis by blast
qed

theorem outcome_final_witness:
  "\<exists>d r'. reaches {} d (snd (requeue_stmt ''r1'' 0 5000 d))
     \<and> find_run (snd (requeue_stmt ''r1'' 0 5000 d)) ''r1'' = Some r' \<and> r_status r' = Lost"
proof -
  let ?r = "demo_run\<lparr>r_status := Lost\<rparr>"
  let ?d = "demo_db\<lparr>t_runs := [?r]\<rparr>"
  have c: "constraints ?d" by (simp add: demo_eval)
  have f: "find_run ?d ''r1'' = Some ?r" by (simp add: find_run_def)
  have s: "reaches {} ?d (snd (requeue_stmt ''r1'' 0 5000 ?d))" by (simp add: mgr_step.requeue r_into_rtranclp)
  have "snd (requeue_stmt ''r1'' 0 5000 ?d) = ?d"
    unfolding requeue_stmt_def using update_runs_idle [OF c] by simp
  with outcome_final [OF s c _ f] f obtain r' where
    "find_run (snd (requeue_stmt ''r1'' 0 5000 ?d)) ''r1'' = Some r'" "r_status r' = Lost" by auto
  with s show ?thesis by blast
qed

text \<open>Claims are exclusive. A claim answers \<open>false\<close> and changes nothing, or it answers \<open>true\<close>, and then
  the run was waiting for nobody else, no run of its job was active, and afterwards the run is held
  by the claiming worker under the new token for \<open>RUN_LEASE_SECS\<close>, while every further claim of any run
  of that job is refused without effect. The operation never fails with a database error.\<close>

lemma claim_exclusive:
  assumes "constraints d"
  shows "claim_run i w t now d = (Ok False, d)
    \<or> (\<exists>d' r. claim_run i w t now d = (Ok True, d') \<and> constraints d' \<and> find_run d i = Some r
        \<and> r_status r = Queued \<and> r_worker_id r \<in> {None, Some w}
        \<and> (\<forall>q \<in> set (t_runs d). r_job_id q = r_job_id r \<longrightarrow> \<not> active (r_status q))
        \<and> find_run d' i = Some (claimed w t now r)
        \<and> (\<forall>j v u n q. find_run d' j = Some q \<longrightarrow> r_job_id q = r_job_id r \<longrightarrow> claim_run j v u n d' = (Ok False, d')))"
proof (cases "claim_run i w t now d = (Ok False, d)")
  case False
  then obtain d' where d': "claim_run i w t now d = (Ok True, d')" using claim_run_cases [OF assms] by blast
  from claim_run_True [OF assms this] obtain r where r: "find_run d i = Some r" "claimable i w d r" "constraints d'"
    "find_run d' i = Some (claimed w t now r)"
    "\<forall>q \<in> set (t_runs d). r_job_id q = r_job_id r \<longrightarrow> \<not> active (r_status q)" by blast
  have "claim_run j v u n d' = (Ok False, d')" if "find_run d' j = Some q" "r_job_id q = r_job_id r" for j v u n q
  proof (rule claim_run_idle [OF r(3)])
    have "claimed w t now r \<in> set (t_runs d')" using r(4) find_run_SomeD by blast
    then have "r_job_id (claimed w t now r) \<in> r_job_id ` {x \<in> set (t_runs d'). executing (r_status x)}"
      by (intro imageI) simp
    then show "\<forall>x \<in> set (t_runs d'). \<not> claimable j v d' x"
      using find_run_unique [OF r(3) that(1)] that(2) by (auto simp: claimable_def)
  qed
  with d' r show ?thesis by (auto simp: claimable_def)
qed simp

theorem claim_exclusive_witness:
  "\<exists>d'. claim_run ''r1'' ''w1'' ''t1'' 1000 demo_queued = (Ok True, d') \<and> claim_run ''r1'' ''w2'' ''t2'' 1001 d' = (Ok False, d')"
  using claim_exclusive [OF demo_valid(2), of "''r1''" "''w1''" "''t1''" 1000] demo_claim_run demo_find by auto

text \<open>A waiting run of an idle job is never withheld: if the run is unassigned or assigned to the
  worker, the worker is registered and no run of the job is active, the claim succeeds.\<close>

lemma claim_available:
  assumes "constraints d" and "find_run d i = Some r" and "r_status r = Queued"
    and "r_worker_id r = None \<or> r_worker_id r = Some w" and "w \<in> set (worker_ids d)"
    and "\<forall>q \<in> set (t_runs d). r_job_id q = r_job_id r \<longrightarrow> \<not> active (r_status q)"
  shows "\<exists>d'. claim_run i w token now d = (Ok True, d')"
  using claim_run_succeeds [OF assms] .

lemma claim_available_witness: "\<exists>d'. claim_run ''r1'' ''w2'' ''t9'' 5 demo_queued = (Ok True, d')"
  by (rule claim_available [OF demo_valid(2) demo_find(1)])
     (auto simp: demo_runs demo_queued_def demo_db_def worker_ids_def demo_worker_def)

text \<open>C4: A stale worker is harmless for ever. Once a run does not hold a lease token and the token
  cannot be drawn again, then in every later state, whatever happened to the run in between (expiry,
  retry, a claim by another worker), the worker's completion, retry report, lease renewal and log
  upload under that token are refused and leave the database as it is.\<close>

theorem stale_worker_harmless:
  assumes "reaches T d d'" and "constraints d" and "w \<noteq> []" and "i \<notin> T" and "t \<notin> T"
    and "\<forall>r. find_run d i = Some r \<longrightarrow> \<not> holds_token t r"
  shows "finish_active_run_fenced i a s c (Some (w, t)) now d' = (Ok False, d')
    \<and> set_retry_from_active_fenced i a next_at n (Some (w, t)) now d' = (Ok False, d')
    \<and> renew_run_lease i w t now d' = (Ok False, d')
    \<and> insert_log_fenced i w t job content now d' = (Ok (), d')"
  using complete_op.stale_for_ever [OF assms] retry_op.stale_for_ever [OF assms]
    renew_op.stale_for_ever [OF assms] log_op.stale_for_ever [OF assms] by blast

theorem stale_worker_harmless_witness:
  "renew_run_lease ''r1'' ''w1'' ''t0'' 1001 demo_active = (Ok False, demo_active)"
proof -
  have "reaches {''t1''} demo_queued demo_active"
    using mgr_step.claim [of "''t1''" _ demo_queued "''r1''" "''w1''" 1000] demo_claim by (simp add: r_into_rtranclp)
  from stale_worker_harmless [OF this demo_valid(2), of "''w1''" "''r1''" "''t0''"] show ?thesis
    by (simp add: demo_find holds_token_def)
qed

text \<open>Completion is fenced and happens once. The holder of an unexpired lease who reports the
  current attempt finishes the run: it gets the reported status and loses its lease. Any caller whose
  worker, token or attempt is not the current one, or whose lease has run out, or who repeats a
  completion, is answered \<open>false\<close> and changes nothing.\<close>

lemma completion_fenced:
  assumes "constraints d" and "find_run d i = Some r" and "w \<noteq> []" and "\<not> active s"
  shows "(lease_held i w t now r \<longrightarrow>
      (\<exists>d'. finish_active_run_fenced i (r_retry_count r) s c (Some (w, t)) now d = (Ok True, d')
         \<and> find_run d' i = Some (finished s c now r) \<and> constraints d'
         \<and> (\<forall>b s' c' now' fence. finish_active_run_fenced i b s' c' fence now' d' = (Ok False, d'))))
    \<and> (\<not> lease_held i w t now r \<or> a \<noteq> r_retry_count r \<longrightarrow>
        finish_active_run_fenced i a s c (Some (w, t)) now d = (Ok False, d))"
proof (intro conjI impI)
  assume "lease_held i w t now r"
  from finish_fenced_holder [OF assms(1,2) this assms(3,4), of c]
  obtain d' where d': "finish_active_run_fenced i (r_retry_count r) s c (Some (w, t)) now d = (Ok True, d')"
    "find_run d' i = Some (finished s c now r)" "constraints d'" by blast
  have "finish_active_run_fenced i b s' c' fence now' d' = (Ok False, d')" for b s' c' now' fence
  proof -
    have "\<not> finishable i b fence now' q" if "q \<in> set (t_runs d')" for q
      using find_run_unique [OF d'(3,2) that] assms(4) by (auto simp: finishable_def)
    then show ?thesis
      using update_runs_idle [OF d'(3), of "\<lambda>_. finishable i b fence now'"]
      by (simp add: finish_active_run_fenced_def finish_active_stmt_def seq_def ret_def)
  qed
  with d' show "\<exists>d'. finish_active_run_fenced i (r_retry_count r) s c (Some (w, t)) now d = (Ok True, d')
         \<and> find_run d' i = Some (finished s c now r) \<and> constraints d'
         \<and> (\<forall>b s' c' now' fence. finish_active_run_fenced i b s' c' fence now' d' = (Ok False, d'))" by blast
next
  assume no: "\<not> lease_held i w t now r \<or> a \<noteq> r_retry_count r"
  have "\<not> finishable i a (Some (w, t)) now q" if "q \<in> set (t_runs d)" for q
    using find_run_unique [OF assms(1,2) that] no assms(3) by (auto simp: finishable_held lease_held_def)
  then show "finish_active_run_fenced i a s c (Some (w, t)) now d = (Ok False, d)"
    using update_runs_idle [OF assms(1), of "\<lambda>_. finishable i a (Some (w, t)) now"]
    by (simp add: finish_active_run_fenced_def finish_active_stmt_def seq_def ret_def)
qed

definition demo_completion :: completion where
  "demo_completion = \<lparr>cp_exit_code = Some 0, cp_size_before = None, cp_size_after = Some 10, cp_bytes = None,
     cp_message = None, cp_duration = 5\<rparr>"

theorem completion_fenced_witness:
  "(\<exists>d'. finish_active_run_fenced ''r1'' 0 Success demo_completion (Some (''w1'', ''t1'')) 1100 demo_active = (Ok True, d')
      \<and> finish_active_run_fenced ''r1'' 0 Success demo_completion (Some (''w1'', ''t1'')) 1100 d' = (Ok False, d'))
   \<and> finish_active_run_fenced ''r1'' 0 Success demo_completion (Some (''w1'', ''t1'')) 1300 demo_active = (Ok False, demo_active)"
  using completion_fenced [OF demo_valid(3) demo_find(2), of "''w1''" Success "''t1''" 1100 demo_completion 0]
    completion_fenced [OF demo_valid(3) demo_find(2), of "''w1''" Success "''t1''" 1300 demo_completion 0]
  by (auto simp: lease_held_def RUN_LEASE_SECS_def claimed_def)

text \<open>No run stays active for ever. In a state the manager reaches, an active run has a lease end
  \<open>e\<close>. From \<open>e\<close> on the reaper sees it (unless it runs on the local worker) and \<open>expire_run\<close> marks it
  \<open>LOST\<close> with its end time; before \<open>e\<close> \<open>expire_run\<close> does nothing.\<close>

lemma active_run_expires:
  assumes "reaches T empty_db d" and "find_run d i = Some r" and "active (r_status r)"
  shows "\<exists>e w. r_lease_expires_at r = Some e \<and> r_worker_id r = Some w
    \<and> (\<forall>now \<ge> e. (w \<noteq> ''local'' \<longrightarrow> run_row r \<in> set (expired_runs now d))
         \<and> (\<exists>d'. expire_run i now d = (Ok True, d') \<and> find_run d' i =
              Some (r\<lparr>r_status := Lost, r_finished_at := Some now, r_message := Some lost_message\<rparr>)))
    \<and> (\<forall>now < e. expire_run i now d = (Ok False, d))"
proof -
  have inv: "mgr_inv d" using reaches_inv [OF assms(1)] empty_db_inv by blast
  then have c: "constraints d" by (simp add: mgr_inv_def)
  have rin: "r \<in> set (t_runs d)" using assms(2) find_run_SomeD by blast
  with inv assms(3) obtain e w where ew: "r_lease_expires_at r = Some e" "r_worker_id r = Some w"
    by (auto simp: mgr_inv_def run_ok_def)
  have "run_row r \<in> set (expired_runs now d)" if "e \<le> now" "w \<noteq> ''local''" for now
    using rin ew that assms(3) by (auto simp: expired_runs_def set_runs_where)
  moreover have "\<exists>d'. expire_run i now d = (Ok True, d') \<and> find_run d' i =
      Some (r\<lparr>r_status := Lost, r_finished_at := Some now, r_message := Some lost_message\<rparr>)" if "e \<le> now" for now
    using expire_run_effect [OF c assms(2,3) ew(1) that] by blast
  moreover have "expire_run i now d = (Ok False, d)" if "now < e" for now
    using expire_run_idle [OF c] assms(2) ew that by simp
  ultimately show ?thesis using ew by blast
qed

lemma active_run_expires_witness:
  "expire_run ''r1'' 1299 demo_active = (Ok False, demo_active) \<and> (\<exists>d'. expire_run ''r1'' 1300 demo_active = (Ok True, d'))"
proof -
  from active_run_expires [OF demo_reach demo_find(2)] obtain e where
    "r_lease_expires_at (claimed ''w1'' ''t1'' 1000 demo_run) = Some e"
    "\<forall>now \<ge> e. \<exists>d'. expire_run ''r1'' now demo_active = (Ok True, d')"
    "\<forall>now < e. expire_run ''r1'' now demo_active = (Ok False, demo_active)" by auto
  then show ?thesis by (simp add: RUN_LEASE_SECS_def)
qed

text \<open>A lost run is requeued at most once. \<open>create_lost_requeue\<close> either answers nothing and changes
  nothing, or the run was \<open>LOST\<close> with no other run of its job in flight, and exactly one waiting run
  is added: for the same job, with a fresh retry budget, one more loss counted and the lost run's
  configuration generation. A second call for the same run then answers nothing.\<close>

lemma lost_requeue_once:
  assumes "create_lost_requeue i n job w now d = (Ok res, d')" and "constraints d"
  shows "(res = None \<and> d' = d) \<or>
    (res = Some n \<and> (\<exists>r. find_run d i = Some r \<and> r_status r = Lost
       \<and> (\<forall>q \<in> set (t_runs d). r_job_id q = r_job_id r \<longrightarrow> \<not> inflight (r_status q))
       \<and> t_runs d' = t_runs d @ [(new_run n (r_job_id r) w Queued now)
             \<lparr>r_lost_count := r_lost_count r + 1, r_config_generation := r_config_generation r\<rparr>])
     \<and> (\<forall>n2 w2 now2. create_lost_requeue i n2 job w2 now2 d' = (Ok None, d')))"
proof -
  from lost_requeue_cases [OF assms] consider "res = None \<and> d' = d"
    | r where "res = Some n" "find_run d i = Some r" "r_status r = Lost"
      "\<forall>q \<in> set (t_runs d). r_job_id q = r_job_id r \<longrightarrow> \<not> inflight (r_status q)"
      "t_runs d' = t_runs d @ [(new_run n (r_job_id r) w Queued now)
             \<lparr>r_lost_count := r_lost_count r + 1, r_config_generation := r_config_generation r\<rparr>]" by blast
  then show ?thesis
  proof cases
    case (2 r)
    let ?new = "(new_run n (r_job_id r) w Queued now)
             \<lparr>r_lost_count := r_lost_count r + 1, r_config_generation := r_config_generation r\<rparr>"
    have f: "find_run d' i = Some r" using 2 by (simp add: find_run_def find_append_Some)
    have "?new \<in> set (t_runs d')" "r_job_id ?new = r_job_id r" "inflight (r_status ?new)"
      using 2 by (simp_all add: new_run_def)
    then have "\<exists>q \<in> set (t_runs d'). r_job_id q = r_job_id r \<and> inflight (r_status q)" by blast
    then have "lost_requeue_stmt i n2 w2 now2 d' = (Ok 0, d')" for n2 w2 now2
      using f by (simp add: lost_requeue_stmt_def)
    then have "create_lost_requeue i n2 job w2 now2 d' = (Ok None, d')" for n2 w2 now2
      by (simp add: create_lost_requeue_def seq_def ret_def)
    with 2 show ?thesis by blast
  qed blast
qed

theorem lost_requeue_once_witness:
  "\<exists>d d'. create_lost_requeue ''r1'' ''r2'' ''m'' None 2000 d = (Ok (Some ''r2''), d')
     \<and> create_lost_requeue ''r1'' ''r3'' ''m'' None 2001 d' = (Ok None, d')"
proof -
  let ?d = "demo_db\<lparr>t_runs := [demo_run\<lparr>r_status := Lost\<rparr>]\<rparr>"
  have c: "constraints ?d" by (simp add: demo_eval)
  obtain res d' where r: "create_lost_requeue ''r1'' ''r2'' ''m'' None 2000 ?d = (Ok res, d')" and "res = Some ''r2''"
    by (simp add: create_lost_requeue_def lost_requeue_stmt_def insert_run_def commit_def seq_def ret_def
        set_job_status_def update_jobs_def find_run_def count_where_def update_where_def demo_eval)
  with lost_requeue_once [OF r c] have "create_lost_requeue ''r1'' ''r3'' ''m'' None 2001 d' = (Ok None, d')" by auto
  with r \<open>res = Some ''r2''\<close> show ?thesis by blast
qed

end
