(* ===== verification/Metrics.thy ===== *)
theory Metrics
  imports Prelude "HOL-Library.Multiset"
begin

text \<open>
  The metrics registry of \<open>crates/synora-core/src/metrics.rs\<close>. The hash map from keys to entries is an
  association list with distinct keys; its order has no meaning, \<open>render\<close> sorts. The registry lock makes
  every operation atomic. The text of a number (\<open>Display\<close> of \<open>f64\<close>) is the argument \<open>show_f64\<close> of \<open>render\<close>.

  The locale \<open>keyed_table\<close> states what the operations rely on of the hash map: what a lookup returns after
  an insertion and after \<open>retain\<close>.
\<close>

section \<open>The table\<close>

type_synonym ('k, 'v) assoc = "('k \<times> 'v) list"

definition assoc_retain :: "('k \<Rightarrow> bool) \<Rightarrow> ('k, 'v) assoc \<Rightarrow> ('k, 'v) assoc" where
  "assoc_retain p t = filter (\<lambda>(k, _). p k) t"

definition assoc_insert :: "'k \<Rightarrow> 'v \<Rightarrow> ('k, 'v) assoc \<Rightarrow> ('k, 'v) assoc" where
  "assoc_insert k v t = (k, v) # assoc_retain (\<lambda>k'. k' \<noteq> k) t"

locale keyed_table =
  fixes look :: "'t \<Rightarrow> 'k \<Rightarrow> 'v option"
    and ins :: "'k \<Rightarrow> 'v \<Rightarrow> 't \<Rightarrow> 't"
    and ret :: "('k \<Rightarrow> bool) \<Rightarrow> 't \<Rightarrow> 't"
  assumes look_insert: "look (ins k v t) k' = (if k' = k then Some v else look t k')"
    and look_retain: "look (ret p t) k' = (if p k' then look t k' else None)"
begin

text \<open>Dropping a class of keys and inserting one of them leaves that key alone in its class.\<close>

lemma replace_class:
  assumes "C k"
  shows "C k' \<Longrightarrow> look (ins k v (ret (\<lambda>x. \<not> C x) t)) k' = (if k' = k then Some v else None)"
    and "\<not> C k' \<Longrightarrow> look (ins k v (ret (\<lambda>x. \<not> C x) t)) k' = look t k'"
  using assms by (auto simp: look_insert look_retain)

lemma last_write_wins: "look (ins k b (ins k a t)) k' = look (ins k b t) k'"
  by (simp add: look_insert)

end

lemma map_of_retain: "map_of (assoc_retain p t) k' = (if p k' then map_of t k' else None)"
  by (induction t) (auto simp: assoc_retain_def)

interpretation assoc_table: keyed_table map_of assoc_insert assoc_retain
  by unfold_locales (auto simp: assoc_insert_def map_of_retain)

lemma assoc_retain_distinct: "distinct (map fst t) \<Longrightarrow> distinct (map fst (assoc_retain p t))"
  unfolding assoc_retain_def by (induction t) auto

lemma assoc_insert_distinct: "distinct (map fst t) \<Longrightarrow> distinct (map fst (assoc_insert k v t))"
  using assoc_retain_distinct [of t "\<lambda>k'. k' \<noteq> k"] by (auto simp: assoc_insert_def assoc_retain_def)

section \<open>Registry\<close>

datatype MetricType = Gauge | Counter

fun metric_type_str :: "MetricType \<Rightarrow> string" where
  "metric_type_str Gauge = ''gauge''"
| "metric_type_str Counter = ''counter''"

record Key =
  key_name :: string
  key_labels :: "(string \<times> string) list"

record Entry =
  entry_kind :: MetricType
  entry_value :: f64

type_synonym Metrics = "(Key, Entry) assoc"

definition metrics_new :: Metrics where
  "metrics_new = []"

definition mk_key :: "string \<Rightarrow> (string \<times> string) list \<Rightarrow> Key" where
  "mk_key n labels = \<lparr>key_name = n, key_labels = sort labels\<rparr>"

definition has_label :: "string \<Rightarrow> string \<Rightarrow> Key \<Rightarrow> bool" where
  "has_label l v k \<longleftrightarrow> (l, v) \<in> set (key_labels k)"

definition metrics_write :: "MetricType \<Rightarrow> string \<Rightarrow> (string \<times> string) list \<Rightarrow> f64 \<Rightarrow> Metrics \<Rightarrow> Metrics" where
  "metrics_write kind n labels v m = assoc_insert (mk_key n labels) \<lparr>entry_kind = kind, entry_value = v\<rparr> m"

definition set_gauge :: "string \<Rightarrow> (string \<times> string) list \<Rightarrow> f64 \<Rightarrow> Metrics \<Rightarrow> Metrics" where
  "set_gauge n labels v m = metrics_write Gauge n labels v m"

definition set_job_gauge :: "string \<Rightarrow> string \<Rightarrow> (string \<times> string) list \<Rightarrow> f64 \<Rightarrow> Metrics \<Rightarrow> Metrics" where
  "set_job_gauge n job labels v m =
     assoc_insert (mk_key n labels) \<lparr>entry_kind = Gauge, entry_value = v\<rparr>
       (assoc_retain (\<lambda>k. \<not> (key_name k = n \<and> has_label ''job'' job k)) m)"

definition remove_job_metric :: "string \<Rightarrow> string \<Rightarrow> Metrics \<Rightarrow> Metrics" where
  "remove_job_metric n job m = assoc_retain (\<lambda>k. \<not> (key_name k = n \<and> has_label ''job'' job k)) m"

definition remove_job_worker_metric :: "string \<Rightarrow> string \<Rightarrow> string \<Rightarrow> Metrics \<Rightarrow> Metrics" where
  "remove_job_worker_metric n job w m =
     assoc_retain (\<lambda>k. \<not> (key_name k = n \<and> has_label ''job'' job k \<and> has_label ''worker'' w k)) m"

definition remove_worker_metrics :: "string list \<Rightarrow> string \<Rightarrow> Metrics \<Rightarrow> Metrics" where
  "remove_worker_metrics names w m =
     assoc_retain (\<lambda>k. \<not> (key_name k \<in> set names \<and> has_label ''worker'' w k)) m"

definition inc_counter :: "float_ops \<Rightarrow> string \<Rightarrow> (string \<times> string) list \<Rightarrow> f64 \<Rightarrow> Metrics \<Rightarrow> Metrics" where
  "inc_counter F n labels delta m =
     (let key = mk_key n labels;
          entry = opt_default \<lparr>entry_kind = Counter, entry_value = Fin 0\<rparr> (map_of m key)
      in assoc_insert key (entry\<lparr>entry_value := fadd F (entry_value entry) delta\<rparr>) m)"

definition remove_job :: "string \<Rightarrow> Metrics \<Rightarrow> Metrics" where
  "remove_job job m = assoc_retain (\<lambda>k. \<not> has_label ''job'' job k) m"

section \<open>Exposition\<close>

text \<open>\<open>str::replace\<close> of a character.\<close>

definition replace_char :: "char \<Rightarrow> string \<Rightarrow> string \<Rightarrow> string" where
  "replace_char c by s = concat (map (\<lambda>x. if x = c then by else [x]) s)"

definition escape_label :: "string \<Rightarrow> string" where
  "escape_label v = replace_char (CHR 0x0A) [CHR 0x5C, CHR ''n'']
     (replace_char (CHR 0x22) [CHR 0x5C, CHR 0x22] (replace_char (CHR 0x5C) [CHR 0x5C, CHR 0x5C] v))"

definition render_labels :: "(string \<times> string) list \<Rightarrow> string" where
  "render_labels ls = join_with '','' (map (\<lambda>(k, v). k @ ''='' @ [CHR 0x22] @ escape_label v @ [CHR 0x22]) ls)"

definition render_sample :: "(f64 \<Rightarrow> string) \<Rightarrow> Key \<Rightarrow> Entry \<Rightarrow> string" where
  "render_sample show_f64 k e =
     key_name k @ (if key_labels k = [] then [] else ''{'' @ render_labels (key_labels k) @ ''}'')
       @ '' '' @ show_f64 (entry_value e)"

fun render_lines :: "string option \<Rightarrow> (string \<times> MetricType \<times> string) list \<Rightarrow> string" where
  "render_lines prev [] = []"
| "render_lines prev ((n, kind, sample) # rest) =
     (if prev \<noteq> Some n then ''# TYPE '' @ n @ '' '' @ metric_type_str kind @ [CHR 0x0A] else [])
       @ sample @ [CHR 0x0A] @ render_lines (Some n) rest"

definition render :: "(f64 \<Rightarrow> string) \<Rightarrow> Metrics \<Rightarrow> string" where
  "render show_f64 m =
     (let samples = map (\<lambda>(k, e). (key_name k, entry_kind e, render_sample show_f64 k e)) m
      in render_lines None (sort_key (\<lambda>(n, kind, s). (n, s)) samples))"

section \<open>Lemmas\<close>

lemma mk_key_perm: "mset a = mset b \<Longrightarrow> mk_key n a = mk_key n b"
  by (simp add: mk_key_def) (metis properties_for_sort mset_sort sorted_sort)

lemma mk_key_simps [simp]: "key_name (mk_key n ls) = n" "has_label l v (mk_key n ls) \<longleftrightarrow> (l, v) \<in> set ls"
  by (simp_all add: mk_key_def has_label_def)

text \<open>The three passes of \<open>escape_label\<close> are one pass.\<close>

definition esc :: "char \<Rightarrow> string" where
  "esc c = (if c = CHR 0x5C then [CHR 0x5C, CHR 0x5C] else if c = CHR 0x22 then [CHR 0x5C, CHR 0x22]
            else if c = CHR 0x0A then [CHR 0x5C, CHR ''n''] else [c])"

lemma replace_char_Nil [simp]: "replace_char c by [] = []"
  by (simp add: replace_char_def)

lemma replace_char_Cons [simp]: "replace_char c by (x # xs) = (if x = c then by else [x]) @ replace_char c by xs"
  by (simp add: replace_char_def)

lemma replace_char_append [simp]: "replace_char c by (xs @ ys) = replace_char c by xs @ replace_char c by ys"
  by (simp add: replace_char_def)

lemma escape_label_alt: "escape_label v = concat (map esc v)"
  unfolding escape_label_def by (induction v) (simp_all add: esc_def)

text \<open>The reading of an escaped label value, as the exposition format defines it.\<close>

fun unescape :: "string \<Rightarrow> string" where
  "unescape [] = []"
| "unescape [c] = [c]"
| "unescape (c # d # cs) =
     (if c = CHR 0x5C then (if d = CHR ''n'' then CHR 0x0A else d) # unescape cs else c # unescape (d # cs))"

lemma unescape_plain: "c \<noteq> CHR 0x5C \<Longrightarrow> unescape (c # cs) = c # unescape cs"
  by (cases cs) auto

lemma unescape_escape: "unescape (escape_label v) = v"
  unfolding escape_label_alt by (induction v) (auto simp: esc_def unescape_plain)

lemma escape_no_newline: "CHR 0x0A \<notin> set (escape_label v)"
  unfolding escape_label_alt by (induction v) (auto simp: esc_def)

section \<open>Properties\<close>

text \<open>Series identity. Writing a metric depends on its labels as a multiset only: the order in which
  a caller lists them never creates a second series. The written series has the new value, every
  other one is as before, and a second write to the same series replaces the first.\<close>

lemma metric_identity:
  assumes "mset l1 = mset l2"
  shows "set_gauge n l1 v m = set_gauge n l2 v m
    \<and> map_of (set_gauge n l1 v m) (mk_key n l2) = Some \<lparr>entry_kind = Gauge, entry_value = v\<rparr>
    \<and> (k \<noteq> mk_key n l1 \<longrightarrow> map_of (set_gauge n l1 v m) k = map_of m k)
    \<and> map_of (set_gauge n l2 v2 (set_gauge n l1 v m)) k = map_of (set_gauge n l1 v2 m) k
    \<and> (distinct (map fst m) \<longrightarrow> distinct (map fst (set_gauge n l1 v m)))"
  using mk_key_perm [OF assms, of n]
  by (auto simp: set_gauge_def metrics_write_def assoc_table.look_insert intro: assoc_insert_distinct)

lemma metric_identity_witness:
  "set_gauge ''x'' [(''b'', ''2''), (''a'', ''1'')] (Fin 3) [] = set_gauge ''x'' [(''a'', ''1''), (''b'', ''2'')] (Fin 3) []"
  using metric_identity [of "[(''b'', ''2''), (''a'', ''1'')]" "[(''a'', ''1''), (''b'', ''2'')]"] by simp

text \<open>A job has one series of a job gauge. After \<open>set_job_gauge\<close> with labels that name the job,
  the written series is the only one of that metric that carries the job, whatever workers reported
  it before; series of other metrics or other jobs are untouched. After \<open>remove_job\<close> no series of any
  metric carries the job, and all others remain.\<close>

lemma job_gauge_single:
  assumes "(''job'', job) \<in> set labels"
  shows "map_of (set_job_gauge n job labels v m) (mk_key n labels) = Some \<lparr>entry_kind = Gauge, entry_value = v\<rparr>
    \<and> (key_name k = n \<and> has_label ''job'' job k \<and> k \<noteq> mk_key n labels \<longrightarrow> map_of (set_job_gauge n job labels v m) k = None)
    \<and> (\<not> (key_name k = n \<and> has_label ''job'' job k) \<longrightarrow> map_of (set_job_gauge n job labels v m) k = map_of m k)
    \<and> map_of (remove_job job m) k = (if has_label ''job'' job k then None else map_of m k)"
  using assms
    assoc_table.replace_class [of "\<lambda>k. key_name k = n \<and> has_label ''job'' job k" "mk_key n labels" k
      "\<lparr>entry_kind = Gauge, entry_value = v\<rparr>" m]
    assoc_table.replace_class [of "\<lambda>k. key_name k = n \<and> has_label ''job'' job k" "mk_key n labels" "mk_key n labels"
      "\<lparr>entry_kind = Gauge, entry_value = v\<rparr>" m]
  by (auto simp: set_job_gauge_def remove_job_def map_of_retain)

lemma job_gauge_single_witness:
  "map_of (set_job_gauge ''s'' ''j'' [(''job'', ''j''), (''worker'', ''b'')] (Fin 4)
     (set_gauge ''s'' [(''job'', ''j''), (''worker'', ''a'')] (Fin 6) [])) (mk_key ''s'' [(''job'', ''j''), (''worker'', ''a'')]) = None"
  using job_gauge_single [of "''j''" "[(''job'', ''j''), (''worker'', ''b'')]" "''s''" "Fin 4"
      "set_gauge ''s'' [(''job'', ''j''), (''worker'', ''a'')] (Fin 6) []" "mk_key ''s'' [(''job'', ''j''), (''worker'', ''a'')]"]
  by (simp add: mk_key_def has_label_def)

text \<open>Label values survive the exposition format. The three replacements of \<open>escape_label\<close> do not
  disturb each other: reading the escaped text back gives the value, so two values never look the
  same, and the escaped text has no line break, so a value cannot forge a sample line.\<close>

lemma escape_label_faithful:
  "unescape (escape_label v) = v \<and> (escape_label v = escape_label w \<longleftrightarrow> v = w) \<and> CHR 0x0A \<notin> set (escape_label v)"
  using unescape_escape escape_no_newline by metis

end
