(* ===== verification/Storage.thy ===== *)
theory Storage
  imports Prelude
begin

text \<open>
  Repository backends of \<open>crates/storage/src/lib.rs\<close>: \<open>StorageManager\<close> and \<open>StorageLock\<close>.

  The command line tools and the file system are arguments: \<open>run_cli\<close> runs a tool, \<open>list_dir\<close> answers for a directory nothing when it cannot be opened, an error when
  reading fails, and otherwise whether it has an entry; \<open>is_dir\<close> and \<open>statvfs\<close> read the file system.
  Locks are a table of held lock files, with the rule of \<open>flock\<close>: an exclusive lock admits no other
  lock on the same file. Paths of locks are canonical, as lists of components; the lock file of a
  path is its sibling \<open>.synora-lock-<name>\<close>, one per path.
\<close>

section \<open>Backends\<close>

datatype StorageError = StCommand string | StNotFound | StNotEmpty | StUnsupported string

datatype StorageKind =
    Dir
  | Zfs string string "(string \<times> string) list"   \<comment> \<open>pool, dataset, options\<close>
  | Btrfs string                                 \<comment> \<open>subvol\<close>

record StorageConfig =
  st_kind :: StorageKind
  mountpoint :: "string option"
  auto_create :: bool
  require_empty :: bool

record 'w storage_env =
  run_cli :: "string \<Rightarrow> string list \<Rightarrow> ('w, StorageError, string) io"
  create_dir_all :: "string \<Rightarrow> ('w, StorageError, unit) io"
  list_dir :: "string \<Rightarrow> 'w \<Rightarrow> (StorageError + bool) option"
  is_dir :: "string \<Rightarrow> 'w \<Rightarrow> bool"
  statvfs :: "string \<Rightarrow> 'w \<Rightarrow> StorageError + (nat \<times> nat)"

definition zfs_dataset_id :: "string \<Rightarrow> string \<Rightarrow> string" where
  "zfs_dataset_id pool dataset =
     (let ds = trim dataset
      in if ds = [] then pool else if CHR ''/'' \<in> set ds then ds else pool @ ''/'' @ ds)"

definition check_empty :: "'w storage_env \<Rightarrow> string \<Rightarrow> bool \<Rightarrow> ('w, StorageError, unit) io" where
  "check_empty E dir require w =
     (if \<not> require then (Ok (), w)
      else (case list_dir E dir w of
              None \<Rightarrow> (Ok (), w)
            | Some (Inl e) \<Rightarrow> (Err e, w)
            | Some (Inr nonempty) \<Rightarrow> if nonempty then (Err StNotEmpty, w) else (Ok (), w)))"

text \<open>Equality of \<open>Path\<close> ignores repeated and trailing slashes; \<open>path_eq\<close> is the comparison of components.\<close>

definition path_components :: "string \<Rightarrow> string list" where
  "path_components p = filter (\<lambda>c. c \<noteq> [] \<and> c \<noteq> ''.'') (split_char (CHR ''/'') p)"

text \<open>\<open>Path::file_name\<close>: the last component, unless it is \<open>..\<close>.\<close>

definition path_file_name :: "string \<Rightarrow> string option" where
  "path_file_name p = (let cs = path_components p in if cs = [] \<or> last cs = ''..'' then None else Some (last cs))"

text \<open>\<open>Path::starts_with\<close> compares whole components.\<close>

definition path_starts_with :: "string \<Rightarrow> string \<Rightarrow> bool" where
  "path_starts_with p base \<longleftrightarrow> is_absolute p = is_absolute base \<and> prefix (path_components base) (path_components p)"

definition path_eq :: "string \<Rightarrow> string \<Rightarrow> bool" where
  "path_eq a b \<longleftrightarrow> is_absolute a = is_absolute b \<and> path_components a = path_components b"

definition validate_zfs_mount :: "'w storage_env \<Rightarrow> string \<Rightarrow> string \<Rightarrow> string \<Rightarrow> ('w, StorageError, unit) io" where
  "validate_zfs_mount E expected actual mounted w =
     (if mounted \<noteq> ''yes'' \<or> \<not> is_absolute actual \<or> \<not> path_eq actual expected then (Err (StCommand ''ZFS mount mismatch''), w)
      else if \<not> is_dir E expected w then (Err StNotFound, w)
      else (Ok (), w))"

definition zfs_create_args :: "(string \<times> string) list \<Rightarrow> string \<Rightarrow> string list" where
  "zfs_create_args options ds = ''create'' # concat (map (\<lambda>(k, v). [''-o'', k @ ''='' @ v]) options) @ [ds]"

definition zfs_present :: "'w storage_env \<Rightarrow> StorageConfig \<Rightarrow> (string \<times> string) list \<Rightarrow> string \<Rightarrow> string \<Rightarrow> ('w, StorageError, unit) io" where
  "zfs_present E cfg options ds mount w =
     (case run_cli E ''zfs'' [''list'', ds] w of
        (Inr _, w1) \<Rightarrow> (Ok (), w1)
      | (Inl (StUnsupported m), w1) \<Rightarrow> (Err (StUnsupported m), w1)
      | (Inl e, w1) \<Rightarrow>
          if auto_create cfg then
            io_bind (run_cli E ''zfs'' (zfs_create_args options ds)) (\<lambda>_.
            io_bind (run_cli E ''zfs'' [''set'', ''mountpoint='' @ mount, ds]) (\<lambda>_. io_ret ())) w1
          else (Err (StCommand ''zfs dataset not found''), w1))"

definition btrfs_present :: "'w storage_env \<Rightarrow> StorageConfig \<Rightarrow> string \<Rightarrow> ('w, StorageError, unit) io" where
  "btrfs_present E cfg sv w =
     (case run_cli E ''btrfs'' [''subvolume'', ''show'', sv] w of
        (Inr _, w1) \<Rightarrow> (Ok (), w1)
      | (Inl (StUnsupported m), w1) \<Rightarrow> (Err (StUnsupported m), w1)
      | (Inl e, w1) \<Rightarrow>
          if auto_create cfg then io_bind (run_cli E ''btrfs'' [''subvolume'', ''create'', sv]) (\<lambda>_. io_ret ()) w1
          else (Err StNotFound, w1))"

definition ensure :: "'w storage_env \<Rightarrow> (string \<rightharpoonup> StorageConfig) \<Rightarrow> string \<Rightarrow> ('w, StorageError, string) io" where
  "ensure E storages name =
     (case storages name of
        None \<Rightarrow> io_err StNotFound
      | Some cfg \<Rightarrow>
          (case st_kind cfg of
             Dir \<Rightarrow>
               (case mountpoint cfg of
                  None \<Rightarrow> io_err (StUnsupported ''dir storage requires a mountpoint'')
                | Some mount \<Rightarrow>
                    io_bind (create_dir_all E mount) (\<lambda>_.
                    io_bind (check_empty E mount (require_empty cfg)) (\<lambda>_. io_ret mount)))
           | Zfs pool dataset options \<Rightarrow>
               (let ds = zfs_dataset_id pool dataset;
                    mount = opt_default (''/'' @ ds) (mountpoint cfg)
                in io_bind (zfs_present E cfg options ds mount) (\<lambda>_.
                   io_bind (run_cli E ''zfs'' [''get'', ''-H'', ''-o'', ''value'', ''mountpoint'', ds]) (\<lambda>actual.
                   io_bind (run_cli E ''zfs'' [''get'', ''-H'', ''-o'', ''value'', ''mounted'', ds]) (\<lambda>mounted.
                   io_bind (validate_zfs_mount E mount (trim actual) (trim mounted)) (\<lambda>_.
                   io_bind (check_empty E mount (require_empty cfg)) (\<lambda>_. io_ret mount))))))
           | Btrfs sv \<Rightarrow>
               io_bind (btrfs_present E cfg sv) (\<lambda>_.
               io_bind (check_empty E sv (require_empty cfg)) (\<lambda>_. io_ret sv))))"

text \<open>The product of two \<open>u64\<close> wraps in a release build.\<close>

definition free_bytes :: "'w storage_env \<Rightarrow> string \<Rightarrow> 'w \<Rightarrow> StorageError + nat" where
  "free_bytes E path w =
     (if CHR 0x00 \<in> set path then Err (StCommand ''path contains NUL'')
      else and_then (statvfs E path w) (\<lambda>(frsize, bavail). Ok (frsize * bavail mod 2 ^ 64)))"

definition check_min_free :: "'w storage_env \<Rightarrow> string \<Rightarrow> nat option \<Rightarrow> 'w \<Rightarrow> StorageError + unit" where
  "check_min_free E path min_free w =
     (case min_free of
        None \<Rightarrow> Ok ()
      | Some m \<Rightarrow> and_then (free_bytes E path w) (\<lambda>free.
          if free < m then Err (StCommand ''insufficient free space'') else Ok ()))"

section \<open>Locks\<close>

datatype lock_mode = LOCK_SH | LOCK_EX

type_synonym path = "string list"

record StorageLock =
  lk_root :: path
  lk_path :: path
  lk_files :: "(path \<times> lock_mode) list"

type_synonym lock_table = "StorageLock list"

definition conflicting :: "lock_mode \<Rightarrow> lock_mode \<Rightarrow> bool" where
  "conflicting a b \<longleftrightarrow> a = LOCK_EX \<or> b = LOCK_EX"

definition flock_free :: "lock_table \<Rightarrow> path \<Rightarrow> lock_mode \<Rightarrow> bool" where
  "flock_free t p m \<longleftrightarrow> (\<forall>l \<in> set t. \<forall>(q, m') \<in> set (lk_files l). q = p \<longrightarrow> \<not> conflicting m m')"

definition acquire_mode :: "lock_table \<Rightarrow> path \<Rightarrow> lock_mode \<Rightarrow> StorageError + (path \<times> lock_mode)" where
  "acquire_mode t p m =
     (if p = [] then Err (StCommand ''cannot lock filesystem root'')
      else if flock_free t p m then Ok (p, m) else Err (StCommand ''storage is locked by another run or rollback''))"

fun acquire_chain :: "lock_table \<Rightarrow> path \<Rightarrow> path \<Rightarrow> (path \<times> lock_mode) list \<Rightarrow> StorageError + (path \<times> lock_mode) list" where
  "acquire_chain t current [] files = and_then (acquire_mode t current LOCK_EX) (\<lambda>f. Ok (files @ [f]))"
| "acquire_chain t current (c # cs) files =
     and_then (acquire_mode t current LOCK_SH) (\<lambda>f. acquire_chain t (current @ [c]) cs (files @ [f]))"

definition acquire_under :: "path \<Rightarrow> path \<Rightarrow> lock_table \<Rightarrow> StorageError + StorageLock" where
  "acquire_under base p t =
     (if \<not> prefix base p then Err (StCommand ''mirror path is outside storage root'')
      else and_then (acquire_chain t base (drop (length base) p) []) (\<lambda>files.
             Ok \<lparr>lk_root = base, lk_path = p, lk_files = files\<rparr>))"

definition acquire :: "path \<Rightarrow> lock_table \<Rightarrow> StorageError + StorageLock" where
  "acquire p t = and_then (acquire_mode t p LOCK_EX) (\<lambda>f. Ok \<lparr>lk_root = p, lk_path = p, lk_files = [f]\<rparr>)"

text \<open>The lock tables of a machine: locks are taken and dropped in any order.\<close>

inductive lock_reach :: "lock_table \<Rightarrow> bool" where
  none: "lock_reach []"
| under: "lock_reach t \<Longrightarrow> acquire_under base p t = Ok l \<Longrightarrow> lock_reach (l # t)"
| whole: "lock_reach t \<Longrightarrow> acquire p t = Ok l \<Longrightarrow> lock_reach (l # t)"
| release: "lock_reach (a @ l # b) \<Longrightarrow> lock_reach (a @ b)"

section \<open>Lemmas\<close>

text \<open>The files of a chain: the ancestors shared, the path itself exclusive.\<close>

definition chain_files :: "path \<Rightarrow> path \<Rightarrow> (path \<times> lock_mode) set" where
  "chain_files base p = {(q, LOCK_SH) | q. prefix base q \<and> strict_prefix q p} \<union> {(p, LOCK_EX)}"

lemma chain_files_step:
  "chain_files cur (cur @ c # cs) = insert (cur, LOCK_SH) (chain_files (cur @ [c]) (cur @ c # cs))"
proof -
  have "prefix cur q \<and> strict_prefix q (cur @ c # cs) \<longleftrightarrow>
      q = cur \<or> (prefix (cur @ [c]) q \<and> strict_prefix q (cur @ c # cs))" for q
    by (auto simp: prefix_def strict_prefix_def Cons_eq_append_conv append_eq_append_conv2)
  then show ?thesis by (auto simp: chain_files_def)
qed

lemma chain_files_self: "chain_files p p = {(p, LOCK_EX)}"
  by (auto simp: chain_files_def dest: prefix_order.antisym_conv2)

lemma acquire_mode_Ok: "acquire_mode t p m = Ok f \<longleftrightarrow> p \<noteq> [] \<and> flock_free t p m \<and> f = (p, m)"
  by (auto simp: acquire_mode_def)

lemma acquire_chain_Ok:
  "acquire_chain t cur rel fs = Ok fs' \<Longrightarrow> cur \<noteq> [] \<and> set fs' = set fs \<union> chain_files cur (cur @ rel)
     \<and> (\<forall>(q, m) \<in> chain_files cur (cur @ rel). flock_free t q m)"
proof (induction rel arbitrary: cur fs)
  case Nil
  then show ?case by (auto simp: acquire_mode_Ok chain_files_self)
next
  case (Cons c cs)
  then have h: "cur \<noteq> []" "flock_free t cur LOCK_SH" "acquire_chain t (cur @ [c]) cs (fs @ [(cur, LOCK_SH)]) = Ok fs'"
    by (auto simp: acquire_mode_Ok)
  from Cons.IH [OF h(3)] h(1,2) show ?case by (auto simp: chain_files_step)
qed

lemma acquire_chain_free:
  "cur \<noteq> [] \<Longrightarrow> (\<forall>(q, m) \<in> chain_files cur (cur @ rel). flock_free t q m) \<Longrightarrow> \<exists>fs'. acquire_chain t cur rel fs = Ok fs'"
proof (induction rel arbitrary: cur fs)
  case Nil
  then show ?case by (simp add: acquire_mode_def chain_files_self)
next
  case (Cons c cs)
  then have "flock_free t cur LOCK_SH" "\<forall>(q, m) \<in> chain_files (cur @ [c]) ((cur @ [c]) @ cs). flock_free t q m"
    by (auto simp: chain_files_step)
  with Cons show ?case by (auto simp: acquire_mode_def)
qed

lemma acquire_under_Ok:
  "acquire_under base p t = Ok l \<Longrightarrow> lk_root l = base \<and> lk_path l = p \<and> prefix base p \<and> set (lk_files l) = chain_files base p
     \<and> (\<forall>(q, m) \<in> chain_files base p. flock_free t q m)"
proof -
  assume a: "acquire_under base p t = Ok l"
  then obtain rel files where p: "p = base @ rel" and f: "acquire_chain t base rel [] = Ok files"
    and l: "l = \<lparr>lk_root = base, lk_path = p, lk_files = files\<rparr>"
    by (auto simp: acquire_under_def split: if_splits elim!: prefixE)
  with acquire_chain_Ok [OF f] show ?thesis by simp
qed

lemma acquire_Ok:
  "acquire p t = Ok l \<Longrightarrow> lk_root l = p \<and> lk_path l = p \<and> set (lk_files l) = chain_files p p \<and> flock_free t p LOCK_EX"
  by (auto simp: acquire_def acquire_mode_Ok chain_files_self)

definition compatible :: "StorageLock \<Rightarrow> StorageLock \<Rightarrow> bool" where
  "compatible a b \<longleftrightarrow> (\<forall>(p, m) \<in> set (lk_files a). \<forall>(q, m') \<in> set (lk_files b). p = q \<longrightarrow> \<not> conflicting m m')"

definition lock_inv :: "lock_table \<Rightarrow> bool" where
  "lock_inv t \<longleftrightarrow> sorted_wrt compatible t
     \<and> (\<forall>l \<in> set t. prefix (lk_root l) (lk_path l) \<and> set (lk_files l) = chain_files (lk_root l) (lk_path l))"

lemma flock_free_compatible:
  "\<forall>(q, m) \<in> set (lk_files l). flock_free t q m \<Longrightarrow> k \<in> set t \<Longrightarrow> compatible l k"
  by (fastforce simp: compatible_def flock_free_def)

lemma lock_reach_inv: "lock_reach t \<Longrightarrow> lock_inv t"
proof (induction rule: lock_reach.induct)
  case (under t base p l)
  from acquire_under_Ok [OF under.hyps(2)] under.IH flock_free_compatible [of l t] show ?case
    by (simp add: lock_inv_def)
next
  case (whole t p l)
  from acquire_Ok [OF whole.hyps(2)] whole.IH flock_free_compatible [of l t] show ?case
    by (auto simp: lock_inv_def chain_files_self)
qed (auto simp: lock_inv_def sorted_wrt_append)

lemma compatibleD:
  "compatible a b \<Longrightarrow> (p, m) \<in> set (lk_files a) \<Longrightarrow> (p, m') \<in> set (lk_files b) \<Longrightarrow> m \<noteq> LOCK_EX \<and> m' \<noteq> LOCK_EX"
  unfolding compatible_def conflicting_def by blast

lemma compatible_paths:
  assumes "compatible a b" and "set (lk_files a) = chain_files (lk_root a) (lk_path a)"
    and "set (lk_files b) = chain_files (lk_root b) (lk_path b)"
  shows "\<not> (prefix (lk_root b) (lk_path a) \<and> prefix (lk_path a) (lk_path b))"
    and "\<not> (prefix (lk_root a) (lk_path b) \<and> prefix (lk_path b) (lk_path a))"
proof -
  have ex: "(lk_path a, LOCK_EX) \<in> set (lk_files a)" "(lk_path b, LOCK_EX) \<in> set (lk_files b)"
    using assms(2,3) by (auto simp: chain_files_def)
  have on: "\<exists>m. (p, m) \<in> chain_files r q" if "prefix r p" "prefix p q" for p q r :: path
    using that by (cases "p = q") (auto simp: chain_files_def strict_prefix_def)
  show "\<not> (prefix (lk_root b) (lk_path a) \<and> prefix (lk_path a) (lk_path b))"
    using on [of "lk_root b" "lk_path a" "lk_path b"] ex compatibleD [OF assms(1) ex(1)] assms(3) by auto
  show "\<not> (prefix (lk_root a) (lk_path b) \<and> prefix (lk_path b) (lk_path a))"
    using on [of "lk_root a" "lk_path b" "lk_path a"] ex compatibleD [OF assms(1) _ ex(2)] assms(2) by auto
qed

text \<open>A command line that records every command it is given.\<close>

definition logged :: "'w storage_env \<Rightarrow> ('w \<times> (string \<times> string list) list) storage_env" where
  "logged E =
     \<lparr>run_cli = (\<lambda>c args (w, log). case run_cli E c args w of (r, w') \<Rightarrow> (r, (w', log @ [(c, args)]))),
      create_dir_all = (\<lambda>p (w, log). case create_dir_all E p w of (r, w') \<Rightarrow> (r, (w', log))),
      list_dir = (\<lambda>p (w, log). list_dir E p w), is_dir = (\<lambda>p (w, log). is_dir E p w),
      statvfs = (\<lambda>p (w, log). statvfs E p w)\<rparr>"

definition harmless :: "string \<times> string list \<Rightarrow> bool" where
  "harmless cmd \<longleftrightarrow> (case cmd of (c, args) \<Rightarrow>
     (c = ''zfs'' \<and> args \<noteq> [] \<and> hd args \<in> {''list'', ''create'', ''set'', ''get''})
     \<or> (c = ''btrfs'' \<and> take 2 args \<in> {[''subvolume'', ''show''], [''subvolume'', ''create'']}))"

text \<open>An operation of a logged environment that only adds harmless commands to the log.\<close>

definition tame :: "('w \<times> (string \<times> string list) list, StorageError, 'a) io \<Rightarrow> bool" where
  "tame m \<longleftrightarrow> (\<forall>w log. list_all harmless log \<longrightarrow> list_all harmless (snd (snd (m (w, log)))))"

lemma tame_bind: "tame m \<Longrightarrow> (\<And>x. tame (f x)) \<Longrightarrow> tame (io_bind m f)"
  unfolding tame_def io_bind_def by (auto split: prod.split sum.split) (metis prod.collapse snd_conv)+

lemma tame_ret: "tame (io_ret x)" "tame (io_err e)"
  by (simp_all add: tame_def io_ret_def io_err_def)

lemma tame_cli: "harmless (c, args) \<Longrightarrow> tame (run_cli (logged E) c args)"
  by (auto simp: tame_def logged_def split: prod.split)

lemma tame_reads: "tame (check_empty (logged E) d r)" "tame (validate_zfs_mount (logged E) a b c)"
  "tame (create_dir_all (logged E) p)"
  by (auto simp: tame_def check_empty_def validate_zfs_mount_def logged_def split: prod.split option.split sum.split)

lemma tame_case:
  assumes "tame c" and "tame m"
  shows "tame (\<lambda>w. case c w of (Inr _, w1) \<Rightarrow> (Ok (), w1) | (Inl (StUnsupported u), w1) \<Rightarrow> (Err (StUnsupported u), w1)
     | (Inl e, w1) \<Rightarrow> m w1)"
  unfolding tame_def
proof (intro allI impI)
  fix w log assume "list_all harmless (log :: (string \<times> string list) list)"
  then have "list_all harmless (snd (snd (c (w, log))))" using assms(1) by (simp add: tame_def)
  then show "list_all harmless (snd (snd (case c (w, log) of (Inr _, w1) \<Rightarrow> (Ok (), w1)
      | (Inl (StUnsupported u), w1) \<Rightarrow> (Err (StUnsupported u), w1) | (Inl e, w1) \<Rightarrow> m w1)))"
    using assms(2) by (auto simp: tame_def split: prod.split sum.split StorageError.split)
qed

lemma tame_present: "tame (zfs_present (logged E) cfg opts ds mount)" "tame (btrfs_present (logged E) cfg sv)"
proof -
  have "tame (\<lambda>w1. if auto_create cfg then
            io_bind (run_cli (logged E) ''zfs'' (zfs_create_args opts ds)) (\<lambda>_.
            io_bind (run_cli (logged E) ''zfs'' [''set'', ''mountpoint='' @ mount, ds]) (\<lambda>_. io_ret ())) w1
          else (Err (StCommand ''zfs dataset not found''), w1))"
  proof (cases "auto_create cfg")
    case True
    have "tame (io_bind (run_cli (logged E) ''zfs'' (zfs_create_args opts ds)) (\<lambda>_.
            io_bind (run_cli (logged E) ''zfs'' [''set'', ''mountpoint='' @ mount, ds]) (\<lambda>_. io_ret ())))"
      by (intro tame_bind tame_ret tame_cli) (auto simp: harmless_def zfs_create_args_def)
    with True show ?thesis by simp
  next
    case False
    then show ?thesis by (simp add: tame_def)
  qed
  then show "tame (zfs_present (logged E) cfg opts ds mount)"
    unfolding zfs_present_def [abs_def] by (intro tame_case tame_cli) (auto simp: harmless_def)
  have "tame (\<lambda>w1. if auto_create cfg then io_bind (run_cli (logged E) ''btrfs'' [''subvolume'', ''create'', sv]) (\<lambda>_. io_ret ()) w1
          else (Err StNotFound, w1))"
  proof (cases "auto_create cfg")
    case True
    have "tame (io_bind (run_cli (logged E) ''btrfs'' [''subvolume'', ''create'', sv]) (\<lambda>_. io_ret ()))"
      by (intro tame_bind tame_ret tame_cli) (auto simp: harmless_def)
    with True show ?thesis by simp
  next
    case False
    then show ?thesis by (simp add: tame_def)
  qed
  then show "tame (btrfs_present (logged E) cfg sv)"
    unfolding btrfs_present_def [abs_def] by (intro tame_case tame_cli) (auto simp: harmless_def)
qed

lemma ensure_tame: "tame (ensure (logged E) storages n)"
  unfolding ensure_def Let_def
  by (auto split: option.split StorageKind.split simp: harmless_def
      intro!: tame_bind tame_ret tame_reads tame_present tame_cli)

lemma check_empty_Ok: "check_empty E d r w = (Ok u, w') \<Longrightarrow> w' = w \<and> (r \<longrightarrow> list_dir E d w \<noteq> Some (Ok True))"
  by (auto simp: check_empty_def split: if_splits option.splits sum.splits)

lemma ensure_empty_aux:
  assumes "ensure E storages n w = (Ok mount, w')" and "storages n = Some cfg" and "require_empty cfg"
  shows "list_dir E mount w' \<noteq> Some (Ok True)"
  using assms
  by (auto simp: ensure_def Let_def io_bind_Inr io_ret_def io_err_def split: StorageKind.splits option.splits
      dest!: check_empty_Ok)

section \<open>Properties\<close>



text \<open>A free path can be locked. Below a non-trivial root the lock is granted exactly when every
  ancestor from the root on can be shared and the path itself is unused, so mirrors in different
  directories do not wait for each other.\<close>

lemma storage_lock_granted:
  assumes "prefix base p" and "base \<noteq> []"
  shows "(\<exists>l. acquire_under base p t = Ok l) \<longleftrightarrow>
    (\<forall>q. prefix base q \<and> strict_prefix q p \<longrightarrow> flock_free t q LOCK_SH) \<and> flock_free t p LOCK_EX"
proof -
  obtain rel where p: "p = base @ rel" using assms(1) by (auto elim: prefixE)
  have all: "(\<forall>(q, m) \<in> chain_files base p. flock_free t q m) \<longleftrightarrow>
      (\<forall>q. prefix base q \<and> strict_prefix q p \<longrightarrow> flock_free t q LOCK_SH) \<and> flock_free t p LOCK_EX"
    by (auto simp: chain_files_def)
  show ?thesis
  proof
    assume "\<exists>l. acquire_under base p t = Ok l"
    then show "(\<forall>q. prefix base q \<and> strict_prefix q p \<longrightarrow> flock_free t q LOCK_SH) \<and> flock_free t p LOCK_EX"
      using acquire_under_Ok all by blast
  next
    assume "(\<forall>q. prefix base q \<and> strict_prefix q p \<longrightarrow> flock_free t q LOCK_SH) \<and> flock_free t p LOCK_EX"
    with all have "\<forall>(q, m) \<in> chain_files base (base @ rel). flock_free t q m" using p by blast
    from acquire_chain_free [OF assms(2) this, of "[]"] show "\<exists>l. acquire_under base p t = Ok l"
      by (auto simp: acquire_under_def p)
  qed
qed

lemma storage_lock_granted_witness: "\<exists>l. acquire_under [''srv''] [''srv'', ''a''] [] = Ok l"
  using storage_lock_granted [of "[''srv'']" "[''srv'', ''a'']" "[]"] by (simp add: flock_free_def)

text \<open>Preparing a storage destroys nothing. Whatever the tools answer, \<open>ensure\<close> runs only \<open>zfs\<close> with
  \<open>list\<close>, \<open>create\<close>, \<open>set\<close> or \<open>get\<close> and \<open>btrfs subvolume\<close> with \<open>show\<close> or \<open>create\<close>; and when it succeeds for a
  storage that must be empty, the directory it returns has no entry.\<close>

lemma ensure_safe:
  "list_all harmless (snd (snd (ensure (logged E) storages n (w, []))))
   \<and> (ensure E storages n w = (Ok mount, w') \<and> storages n = Some cfg \<and> require_empty cfg \<longrightarrow> list_dir E mount w' \<noteq> Some (Ok True))"
  using ensure_tame [of E storages n] ensure_empty_aux [of E storages n w mount w' cfg] by (auto simp: tame_def)

definition demo_env :: "nat storage_env" where
  "demo_env = \<lparr>run_cli = (\<lambda>_ _ w. (Ok [], w)), create_dir_all = (\<lambda>_ w. (Ok (), Suc w)), list_dir = (\<lambda>_ _. Some (Ok False)),
     is_dir = (\<lambda>_ _. True), statvfs = (\<lambda>_ _. Ok (4096, 100))\<rparr>"

theorem ensure_safe_witness:
  "ensure demo_env [''s'' \<mapsto> \<lparr>st_kind = Dir, mountpoint = Some ''/srv'', auto_create = True, require_empty = True\<rparr>] ''s'' 0 = (Ok ''/srv'', 1)
   \<and> list_dir demo_env ''/srv'' 1 \<noteq> Some (Ok True)"
proof -
  have e: "ensure demo_env [''s'' \<mapsto> \<lparr>st_kind = Dir, mountpoint = Some ''/srv'', auto_create = True, require_empty = True\<rparr>] ''s'' 0 = (Ok ''/srv'', 1)"
    by (simp add: ensure_def io_bind_def io_ret_def check_empty_def demo_env_def)
  with ensure_safe [of demo_env "[''s'' \<mapsto> \<lparr>st_kind = Dir, mountpoint = Some ''/srv'', auto_create = True, require_empty = True\<rparr>]" "''s''" 0 "''/srv''" 1
      "\<lparr>st_kind = Dir, mountpoint = Some ''/srv'', auto_create = True, require_empty = True\<rparr>"]
  show ?thesis by simp
qed

end
