(* ===== verification/Auth.thy ===== *)
theory Auth
  imports Prelude
begin

unbundle bit_operations_syntax

text \<open>
  Bearer tokens and permissions of \<open>crates/manager/src/auth.rs\<close>. Bytes are \<open>8 word\<close>. The header map is the
  text of its \<open>Authorization\<close> entry, absent when there is none or it is not visible ASCII.
\<close>

section \<open>Data\<close>

datatype StatusCode =
    UNAUTHORIZED | FORBIDDEN | NOT_FOUND | CONFLICT | BAD_REQUEST | UPGRADE_REQUIRED | INTERNAL_SERVER_ERROR

record ApiToken =
  tok_name :: string
  tok_token :: string
  tok_role :: string
  tok_permissions :: "string list"

record AuthUser =
  user_name :: string
  user_permissions :: "string list"

definition PERMS :: "string list" where
  "PERMS = [''metrics.read'', ''config.reload'', ''jobs.hooks.write'', ''jobs.provider.write'', ''jobs.storage.write'',
     ''proxies.write'', ''jobs.read'', ''jobs.write'', ''runs.manage'', ''workers.read'', ''workers.write'', ''logs.read'']"

definition role_defaults :: "string \<Rightarrow> string list" where
  "role_defaults role =
     (if role = ''admin'' then PERMS
      else if role = ''operator'' then [''jobs.read'', ''jobs.write'', ''runs.manage'', ''workers.read'', ''logs.read'']
      else if role = ''viewer'' then [''jobs.read'', ''workers.read'', ''logs.read'']
      else [])"

section \<open>Operations\<close>

definition as_bytes :: "string \<Rightarrow> 8 word list" where
  "as_bytes s = map (\<lambda>c. word_of_nat (of_char c)) s"

definition constant_time_eq :: "8 word list \<Rightarrow> 8 word list \<Rightarrow> bool" where
  "constant_time_eq a b =
     (if length a \<noteq> length b then False
      else foldl (\<lambda>diff (x, y). diff OR (x XOR y)) 0 (zip a b) = 0)"

definition find_token :: "ApiToken list \<Rightarrow> string \<Rightarrow> ApiToken option" where
  "find_token tokens token = find (\<lambda>t. constant_time_eq (as_bytes (tok_token t)) (as_bytes token)) tokens"

fun push_missing :: "string list \<Rightarrow> string list \<Rightarrow> string list" where
  "push_missing perms [] = perms"
| "push_missing perms (p # ps) = push_missing (if p \<in> set perms then perms else perms @ [p]) ps"

definition authenticate :: "ApiToken list \<Rightarrow> string option \<Rightarrow> StatusCode + AuthUser" where
  "authenticate tokens header =
     (case Option.bind header (strip_prefix ''Bearer '') of
        None \<Rightarrow> Err UNAUTHORIZED
      | Some token \<Rightarrow>
          (case find_token tokens token of
             None \<Rightarrow> Err UNAUTHORIZED
           | Some t \<Rightarrow> Ok \<lparr>user_name = tok_name t,
                          user_permissions = push_missing (role_defaults (tok_role t)) (tok_permissions t)\<rparr>))"

definition has_perm :: "AuthUser \<Rightarrow> string \<Rightarrow> bool" where
  "has_perm user perm \<longleftrightarrow> (\<exists>p \<in> set (user_permissions user). p = perm)"

definition require :: "AuthUser \<Rightarrow> string \<Rightarrow> StatusCode + unit" where
  "require user perm = (if has_perm user perm then Ok () else Err FORBIDDEN)"

section \<open>Lemmas\<close>

lemma or_eq_0: "(a :: 8 word) OR b = 0 \<longleftrightarrow> a = 0 \<and> b = 0"
  by (metis or.right_neutral or_eq_0_iff)

lemma xor_eq_0: "(a :: 8 word) XOR b = 0 \<longleftrightarrow> a = b"
  by (metis bit.xor_self xor.assoc xor.left_neutral xor.right_neutral)

lemma foldl_diff_0:
  "foldl (\<lambda>diff (x, y). diff OR (x XOR y)) (d :: 8 word) ps = 0 \<longleftrightarrow> d = 0 \<and> (\<forall>(x, y) \<in> set ps. x = y)"
  by (induction ps arbitrary: d) (auto simp: or_eq_0 xor_eq_0)

lemma zip_all_eq: "length a = length b \<Longrightarrow> (\<forall>(x, y) \<in> set (zip a b). x = y) \<longleftrightarrow> a = b"
  by (induction a b rule: list_induct2) auto

lemma constant_time_eq_iff: "constant_time_eq a b \<longleftrightarrow> a = b"
  by (auto simp: constant_time_eq_def foldl_diff_0 zip_all_eq)

lemma as_bytes_inj: "as_bytes a = as_bytes b \<longleftrightarrow> a = b"
proof -
  have "inj (\<lambda>c. word_of_nat (of_char c) :: 8 word)"
  proof (rule injI)
    fix c d :: char assume "(word_of_nat (of_char c) :: 8 word) = word_of_nat (of_char d)"
    then have "unat (word_of_nat (of_char c) :: 8 word) = unat (word_of_nat (of_char d) :: 8 word)" by simp
    then have "(of_char c :: nat) = of_char d" by (simp add: unat_of_nat)
    then show "c = d" by simp
  qed
  then show ?thesis by (simp add: as_bytes_def inj_map_eq_map)
qed

lemma set_push_missing: "set (push_missing perms ps) = set perms \<union> set ps"
  by (induction ps arbitrary: perms) auto

lemma distinct_push_missing: "distinct perms \<Longrightarrow> distinct (push_missing perms ps)"
  by (induction ps arbitrary: perms) auto

lemma find_token_Some: "find_token tokens s = Some t \<Longrightarrow> t \<in> set tokens \<and> tok_token t = s"
  by (auto simp: find_token_def find_Some_iff constant_time_eq_iff as_bytes_inj)

lemma find_token_None: "find_token tokens s = None \<longleftrightarrow> (\<forall>t \<in> set tokens. tok_token t \<noteq> s)"
  by (auto simp: find_token_def find_None_iff constant_time_eq_iff as_bytes_inj)

section \<open>Properties\<close>

text \<open>The constant-time comparison is equality. Folding the bitwise differences of two byte strings
  of equal length into one byte gives zero exactly when they are the same string, for all contents.\<close>

lemma constant_time_eq_correct:
  "constant_time_eq (as_bytes a) (as_bytes b) \<longleftrightarrow> a = b"
  by (simp add: constant_time_eq_iff as_bytes_inj)

text \<open>Authentication is sound and complete, and permissions are what the token's role and its own
  list say. A request is accepted exactly when its header is \<open>Bearer\<close> and a configured token; the user
  then has precisely the defaults of the role and the explicit permissions of a configured entry
  with that token. A guarded handler is refused without the permission, and an operator token without
  explicit permissions can neither reload the configuration nor change hooks, providers, storage or
  proxies.\<close>

lemma authenticate_correct:
  "((\<exists>u. authenticate tokens header = Ok u) \<longleftrightarrow>
      (\<exists>t \<in> set tokens. header = Some (''Bearer '' @ tok_token t)))
   \<and> (authenticate tokens header = Ok u \<longrightarrow>
        (\<exists>t \<in> set tokens. header = Some (''Bearer '' @ tok_token t) \<and> user_name u = tok_name t
           \<and> set (user_permissions u) = set (role_defaults (tok_role t)) \<union> set (tok_permissions t)
           \<and> (\<forall>p. require u p = Ok () \<longleftrightarrow> p \<in> set (role_defaults (tok_role t)) \<union> set (tok_permissions t))))
   \<and> (p \<in> {''config.reload'', ''jobs.hooks.write'', ''jobs.provider.write'', ''jobs.storage.write'', ''proxies.write''} \<longrightarrow>
        require \<lparr>user_name = n, user_permissions = push_missing (role_defaults ''operator'') []\<rparr> p = Err FORBIDDEN)"
proof (intro conjI)
  show "(\<exists>u. authenticate tokens header = Ok u) \<longleftrightarrow> (\<exists>t \<in> set tokens. header = Some (''Bearer '' @ tok_token t))"
  proof (cases header)
    case (Some h)
    show ?thesis
    proof (cases "strip_prefix ''Bearer '' h")
      case None
      then have no: "Option.bind header (strip_prefix ''Bearer '') = None" using Some by simp
      have "authenticate tokens header = Err UNAUTHORIZED" by (simp only: authenticate_def no option.case)
      then show ?thesis using None Some by auto
    next
      case sp: (Some s)
      then have h: "h = ''Bearer '' @ s" by simp
      have yes: "Option.bind header (strip_prefix ''Bearer '') = Some s" using Some sp by simp
      show ?thesis unfolding authenticate_def yes option.case using Some h find_token_None [of tokens s]
        by (cases "find_token tokens s") (auto dest: find_token_Some)
    qed
  qed (simp add: authenticate_def)
  show "authenticate tokens header = Ok u \<longrightarrow>
        (\<exists>t \<in> set tokens. header = Some (''Bearer '' @ tok_token t) \<and> user_name u = tok_name t
           \<and> set (user_permissions u) = set (role_defaults (tok_role t)) \<union> set (tok_permissions t)
           \<and> (\<forall>p. require u p = Ok () \<longleftrightarrow> p \<in> set (role_defaults (tok_role t)) \<union> set (tok_permissions t)))"
  proof
    assume "authenticate tokens header = Ok u"
    then obtain s t where h: "header = Some (''Bearer '' @ s)" "find_token tokens s = Some t"
      "u = \<lparr>user_name = tok_name t, user_permissions = push_missing (role_defaults (tok_role t)) (tok_permissions t)\<rparr>"
      by (auto simp: authenticate_def split: option.splits bind_splits)
    with find_token_Some [OF h(2)] show "\<exists>t \<in> set tokens. header = Some (''Bearer '' @ tok_token t) \<and> user_name u = tok_name t
           \<and> set (user_permissions u) = set (role_defaults (tok_role t)) \<union> set (tok_permissions t)
           \<and> (\<forall>p. require u p = Ok () \<longleftrightarrow> p \<in> set (role_defaults (tok_role t)) \<union> set (tok_permissions t))"
      by (intro bexI [of _ t]) (auto simp: set_push_missing require_def has_perm_def)
  qed
  show "p \<in> {''config.reload'', ''jobs.hooks.write'', ''jobs.provider.write'', ''jobs.storage.write'', ''proxies.write''} \<longrightarrow>
        require \<lparr>user_name = n, user_permissions = push_missing (role_defaults ''operator'') []\<rparr> p = Err FORBIDDEN"
    by (auto simp: require_def has_perm_def role_defaults_def)
qed

theorem authenticate_correct_witness:
  "\<exists>u. authenticate [\<lparr>tok_name = ''ops'', tok_token = ''s3cret'', tok_role = ''operator'', tok_permissions = [''metrics.read'']\<rparr>]
     (Some ''Bearer s3cret'') = Ok u \<and> require u ''metrics.read'' = Ok () \<and> require u ''config.reload'' \<noteq> Ok ()"
proof -
  let ?ts = "[\<lparr>tok_name = ''ops'', tok_token = ''s3cret'', tok_role = ''operator'', tok_permissions = [''metrics.read'']\<rparr>]"
  obtain u where u: "authenticate ?ts (Some ''Bearer s3cret'') = Ok u"
    using authenticate_correct [of ?ts "Some ''Bearer s3cret''", THEN conjunct1, THEN iffD2] by auto
  with authenticate_correct [of ?ts "Some ''Bearer s3cret''" u] show ?thesis by (auto simp: role_defaults_def)
qed

end
