(* ===== verification/Engine.thy ===== *)
theory Engine
  imports Leases Metrics Storage Auth
begin

text \<open>
  The engine of \<open>crates/engine/src/engine.rs\<close>: its state, dispatch, configuration synchronisation, reload,
  job removal, notifications and the storage paths of runs.

  The state is the record \<open>engine\<close>: the database, the metrics and the maps behind the engine's mutexes.
  What the operations get from elsewhere is the record \<open>engine_env\<close>: the time libraries, the lookup of a time
  zone, the identifiers that \<open>RunId::new\<close> draws (the \<open>n\<close>-th one), the planner and the rounding of numbers. The clock
  is read once per operation and is its argument \<open>now\<close>. Database errors other than constraint conflicts
  do not occur. An operation that calls \<open>next_after\<close> has an \<open>option\<close> around its result, \<open>None\<close> when the call does not
  return. JSON texts are compared as the values they encode. Log messages, the deletion of a log
  directory and the sending of a webhook are not modelled.
\<close>

section \<open>State\<close>

record engine =
  en_db :: db
  en_metrics :: Metrics
  live_jobs :: "JobSpec list"                  \<comment> \<open>the values of the hash map, in any order\<close>
  failure_streak :: "string \<rightharpoonup> nat"
  en_active :: "string \<rightharpoonup> nat"
  run_tokens :: "string \<rightharpoonup> bool"             \<comment> \<open>cancellation tokens, true when cancelled\<close>
  en_shutdown :: bool
  en_permits :: nat                            \<comment> \<open>free permits of the global semaphore\<close>
  en_ids :: nat                                \<comment> \<open>identifiers drawn so far\<close>

record 'tz engine_env =
  tlib :: "'tz time_lib"
  tz_by_name :: "string \<Rightarrow> 'tz option"
  run_id :: "nat \<Rightarrow> string"
  planner :: "(JobSpec \<Rightarrow> string option) option"
  fops :: float_ops

datatype engine_error =
    UnknownJob | JobDisabled | HeldAfterLoss | DbFailure DbError | UnknownTimezone | InvalidJobName | NotRunning
  | NoConfigSource | ConfigInvalid | ReloadRejected string

definition LOCAL_WORKER :: string where "LOCAL_WORKER = ''local''"

definition draw_id :: "'tz engine_env \<Rightarrow> engine \<Rightarrow> string \<times> engine" where
  "draw_id E e = (run_id E (en_ids e), e\<lparr>en_ids := Suc (en_ids e)\<rparr>)"

definition on_db :: "'a stmt \<Rightarrow> engine \<Rightarrow> (DbError + 'a) \<times> engine" where
  "on_db m e = (case m (en_db e) of (r, d) \<Rightarrow> (r, e\<lparr>en_db := d\<rparr>))"

text \<open>\<open>let _ = self.store...\<close>\<close>

definition on_db_ignored :: "'a stmt \<Rightarrow> engine \<Rightarrow> engine" where
  "on_db_ignored m e = snd (on_db m e)"

definition on_metrics :: "(Metrics \<Rightarrow> Metrics) \<Rightarrow> engine \<Rightarrow> engine" where
  "on_metrics f e = e\<lparr>en_metrics := f (en_metrics e)\<rparr>"

definition engine_job :: "engine \<Rightarrow> string \<Rightarrow> JobSpec option" where
  "engine_job e n = find (\<lambda>j. name j = n) (live_jobs e)"

section \<open>Accounting of active runs\<close>

definition active_inc :: "string \<Rightarrow> engine \<Rightarrow> nat \<times> engine" where
  "active_inc job e =
     (let n = opt_default 0 (en_active e job) + 1 in (n, e\<lparr>en_active := (en_active e)(job \<mapsto> n)\<rparr>))"

text \<open>The counter is removed when it reaches zero, so the subtraction never sees a zero.\<close>

definition active_dec :: "string \<Rightarrow> engine \<Rightarrow> nat \<times> engine" where
  "active_dec job e =
     (case en_active e job of
        None \<Rightarrow> (0, e)
      | Some n \<Rightarrow>
          if n - 1 = 0 then (0, e\<lparr>en_active := (en_active e)(job := None)\<rparr>)
          else (n - 1, e\<lparr>en_active := (en_active e)(job \<mapsto> n - 1)\<rparr>))"

definition stop_job :: "string \<Rightarrow> engine \<Rightarrow> (engine_error + unit) \<times> engine" where
  "stop_job job e =
     (case run_tokens e job of
        None \<Rightarrow> (Err NotRunning, e)
      | Some _ \<Rightarrow> (Ok (), e\<lparr>run_tokens := (run_tokens e)(job \<mapsto> True)\<rparr>))"

definition register_run :: "string \<Rightarrow> engine \<Rightarrow> engine" where
  "register_run job e = e\<lparr>run_tokens := (run_tokens e)(job \<mapsto> False)\<rparr>"

definition remove_run :: "string \<Rightarrow> engine \<Rightarrow> engine" where
  "remove_run job e = e\<lparr>run_tokens := (run_tokens e)(job := None)\<rparr>"

section \<open>Dispatch\<close>

definition no_outcome :: "string option \<Rightarrow> completion" where
  "no_outcome m = \<lparr>cp_exit_code = None, cp_size_before = None, cp_size_after = None, cp_bytes = None,
     cp_message = m, cp_duration = 0\<rparr>"

definition dep_ok :: "db \<Rightarrow> string \<Rightarrow> bool" where
  "dep_ok d dep = (case run_history dep 1 d of [] \<Rightarrow> False | r # _ \<Rightarrow> is_success (rr_status r))"

definition held_after_loss :: "db \<Rightarrow> JobSpec \<Rightarrow> bool" where
  "held_after_loss d job \<longleftrightarrow> on_worker_lost job = LostFail
     \<and> (case run_history (name job) 1 d of [] \<Rightarrow> False | r # _ \<Rightarrow> rr_status r = Lost)"

definition skip_run :: "'tz engine_env \<Rightarrow> string \<Rightarrow> string \<Rightarrow> int \<Rightarrow> engine \<Rightarrow> (engine_error + string) \<times> engine" where
  "skip_run E job dep now e =
     (let (i, e1) = draw_id E e;
          e2 = on_db_ignored (create_run i job None Skipped 0 now) e1;
          e3 = on_db_ignored (finish_run i Skipped (no_outcome (Some (''dependency `'' @ dep @ ''` has not succeeded''))) now) e2;
          (ev, e4) = draw_id E e3;
          e5 = on_db_ignored (insert_event ev (Some job) (Some i) ''WARN'' (''skipped: dependency `'' @ dep @ ''` has not succeeded'') now) e4
      in (Ok i, e5))"

definition planned_worker :: "'tz engine_env \<Rightarrow> JobSpec \<Rightarrow> string option" where
  "planned_worker E job = (case planner E of None \<Rightarrow> Some LOCAL_WORKER | Some p \<Rightarrow> p job)"

definition queue_run :: "'tz engine_env \<Rightarrow> JobSpec \<Rightarrow> bool \<Rightarrow> int \<Rightarrow> engine \<Rightarrow> (engine_error + string) \<times> engine" where
  "queue_run E job forced now e =
     (case inflight_runs_of_job (name job) (en_db e) of
        existing # _ \<Rightarrow> (Ok (rr_id existing), e)
      | [] \<Rightarrow>
          (let (i, e1) = draw_id E e
           in case on_db (create_run i (name job) (planned_worker E job) Queued (if forced then 1 else 0) now) e1 of
                (Inl err, e2) \<Rightarrow> (Err (DbFailure err), e2)
              | (Inr _, e2) \<Rightarrow>
                  (let (ev, e3) = draw_id E e2
                   in (Ok i, on_db_ignored (insert_event ev (Some (name job)) (Some i) ''INFO'' ''run queued'' now) e3))))"

definition dispatch_current :: "'tz engine_env \<Rightarrow> string \<Rightarrow> bool \<Rightarrow> int \<Rightarrow> engine \<Rightarrow> (engine_error + string) \<times> engine" where
  "dispatch_current E job_name forced now e =
     (case engine_job e job_name of
        None \<Rightarrow> (Err UnknownJob, e)
      | Some job \<Rightarrow>
          if \<not> enabled job then (Err JobDisabled, e)
          else if \<not> forced \<and> held_after_loss (en_db e) job then (Err HeldAfterLoss, e)
          else (case find (\<lambda>dep. \<not> dep_ok (en_db e) dep) (depends_on job) of
                  Some dep \<Rightarrow> skip_run E job_name dep now e
                | None \<Rightarrow> queue_run E job forced now e))"

section \<open>Schedules\<close>

definition sat_add :: "int \<Rightarrow> int \<Rightarrow> int" where
  "sat_add a b = max i64_min (min i64_max (a + b))"

fun misfire_str :: "MisfirePolicy \<Rightarrow> string" where
  "misfire_str MisfireSkip = ''skip''"
| "misfire_str RunImmediately = ''run-immediately''"
| "misfire_str RunNext = ''run-next''"

text \<open>The new due time and anchor of a job.\<close>

definition next_and_anchor ::
  "'tz engine_env \<Rightarrow> 'tz \<Rightarrow> JobSpec \<Rightarrow> ScheduleRow option \<Rightarrow> int \<Rightarrow> bool \<Rightarrow> int option \<times> int option" where
  "next_and_anchor E tz job existing now immediate =
     (let unchanged = (case existing of
                         None \<Rightarrow> None
                       | Some row \<Rightarrow> if sr_schedule row = schedule job \<and> sr_timezone row = timezone job then Some row else None)
      in case unchanged of
           Some row \<Rightarrow> (sr_next_run row, sr_anchor_at row)
         | None \<Rightarrow>
             (case sched_kind (schedule job) of
                Manual \<Rightarrow> (None, None)
              | Startup \<Rightarrow> (None, None)
              | Interval every \<Rightarrow> (Some (if immediate then now else sat_add now (max every 1)), Some now)
              | _ \<Rightarrow> (opt_default None (next_after (tlib E) (schedule job) now tz None), None)))"

text \<open>\<open>next_after\<close> fails to return for intervals only, so the default above is never taken.\<close>

lemma next_after_calendar:
  "\<not> (\<exists>every. sched_kind s = Interval every) \<Longrightarrow> \<exists>r. next_after L s now tz anchor = Some r"
  by (cases "sched_kind s") (simp_all add: next_after_def)

definition set_generation_stmt :: "string \<Rightarrow> string \<Rightarrow> nat stmt" where
  "set_generation_stmt job gen = update_jobs (\<lambda>_ j. jr_name j = job) (\<lambda>_ j. j\<lparr>jr_config_generation := gen\<rparr>)"

definition next_run_gauge :: "'tz engine_env \<Rightarrow> string \<Rightarrow> int option \<Rightarrow> engine \<Rightarrow> engine" where
  "next_run_gauge E job next =
     on_metrics (set_gauge ''synora_job_next_run_timestamp'' [(''job'', job)] (of_i64 (fops E) (opt_default 0 next)))"

definition sync_schedule_for ::
  "'tz engine_env \<Rightarrow> JobSpec \<Rightarrow> int \<Rightarrow> bool \<Rightarrow> engine \<Rightarrow> (engine_error + unit) \<times> engine" where
  "sync_schedule_for E job now immediate e =
     (let (gen, e1) = draw_id E e
      in case on_db (set_generation_stmt (name job) gen) e1 of
           (Inl err, e2) \<Rightarrow> (Err (DbFailure err), e2)
         | (Inr _, e2) \<Rightarrow>
             (case tz_by_name E (timezone job) of
                None \<Rightarrow> (Err UnknownTimezone, e2)
              | Some tz \<Rightarrow>
                  (let (next_run, anchor) = next_and_anchor E tz job (get_schedule (name job) (en_db e2)) now immediate
                   in case on_db (sync_schedule (name job) (schedule job) (timezone job)
                                      (misfire_str (misfire_policy job)) next_run anchor now) e2 of
                        (Inl err, e3) \<Rightarrow> (Err (DbFailure err), e3)
                      | (Inr _, e3) \<Rightarrow> (Ok (), next_run_gauge E (name job) next_run e3))))"

section \<open>Removing jobs\<close>

definition job_name_ok :: "string \<Rightarrow> bool" where
  "job_name_ok n \<longleftrightarrow> \<not> (n = [] \<or> n = ''.'' \<or> contains_str ''..'' n \<or> CHR ''/'' \<in> set n \<or> CHR 0x5C \<in> set n \<or> CHR 0x00 \<in> set n)"

definition forget_job_current :: "string \<Rightarrow> engine \<Rightarrow> (engine_error + unit) \<times> engine" where
  "forget_job_current n e =
     (if \<not> job_name_ok n then (Err InvalidJobName, e)
      else
        (let e1 = snd (stop_job n e);
             e2 = on_db_ignored (set_cancelling_by_job n) e1;
             e3 = e2\<lparr>live_jobs := filter (\<lambda>j. name j \<noteq> n) (live_jobs e2),
                     failure_streak := (failure_streak e2)(n := None),
                     en_active := (en_active e2)(n := None),
                     run_tokens := (run_tokens e2)(n := None)\<rparr>
         in case on_db (purge_job n) e3 of
              (Inl err, e4) \<Rightarrow> (Err (DbFailure err), e4)
            | (Inr _, e4) \<Rightarrow> (Ok (), on_metrics (remove_job n) e4)))"

text \<open>A loop over names or jobs that stops at the first error.\<close>

fun try_each :: "('a \<Rightarrow> engine \<Rightarrow> (engine_error + unit) \<times> engine) \<Rightarrow> 'a list \<Rightarrow> engine \<Rightarrow> (engine_error + unit) \<times> engine" where
  "try_each f [] e = (Ok (), e)"
| "try_each f (x # xs) e = (case f x e of (Inl err, e1) \<Rightarrow> (Err err, e1) | (Inr _, e1) \<Rightarrow> try_each f xs e1)"

definition sync_one :: "'tz engine_env \<Rightarrow> int \<Rightarrow> bool \<Rightarrow> JobSpec \<Rightarrow> engine \<Rightarrow> (engine_error + unit) \<times> engine" where
  "sync_one E now immediate job e =
     (case on_db (sync_job job now) e of
        (Inl err, e1) \<Rightarrow> (Err (DbFailure err), e1)
      | (Inr _, e1) \<Rightarrow> sync_schedule_for E job now immediate e1)"

definition sync_config :: "'tz engine_env \<Rightarrow> int \<Rightarrow> engine \<Rightarrow> (engine_error + unit) \<times> engine" where
  "sync_config E now e =
     (let jobs = live_jobs e
      in case try_each (sync_one E now True) jobs e of
           (Inl err, e1) \<Rightarrow> (Err err, e1)
         | (Inr _, e1) \<Rightarrow>
             try_each forget_job_current
               (filter (\<lambda>n. \<not> (\<exists>j \<in> set jobs. name j = n)) (map fst (job_status_list (en_db e1)))) e1)"

section \<open>Reload\<close>

datatype DbKind = Sqlite | Postgres

record DbConfig =
  dbc_kind :: DbKind
  dbc_path :: string
  dbc_url :: "string option"

record ApiConfig =
  api_metrics_auth :: bool
  api_listen :: string
  api_tls :: "string option \<times> string option \<times> string option"
  api_tokens :: "ApiToken list"
  api_synora_json_path :: string
  api_tunasync_json_path :: string
  api_status_format :: string

record NotificationConfig =
  webhook_url :: "string option"
  alert_after_failures :: nat

text \<open>The parts of \<open>ResolvedConfig\<close> that \<open>reload\<close> compares or applies; routing belongs to another crate.\<close>

record ResolvedConfig =
  rc_db :: DbConfig
  rc_max_concurrency :: nat
  rc_log_dir :: string
  rc_api :: ApiConfig
  rc_storages :: "string \<rightharpoonup> StorageConfig"
  rc_cgroup :: "string option"
  rc_snapshot_retention :: RetentionPolicy
  rc_min_free_bytes :: "nat option"
  rc_notifications :: NotificationConfig
  rc_jobs :: "JobSpec list"

definition reload_rejects :: "ResolvedConfig \<Rightarrow> ResolvedConfig \<Rightarrow> string option" where
  "reload_rejects old new =
     (if rc_db old \<noteq> rc_db new then Some ''daemon.db''
      else if rc_max_concurrency old \<noteq> rc_max_concurrency new then Some ''daemon.max_concurrency''
      else if rc_log_dir old \<noteq> rc_log_dir new then Some ''daemon.log_dir''
      else if rc_api old \<noteq> rc_api new then Some ''api''
      else if rc_storages old \<noteq> rc_storages new then Some ''storage''
      else if rc_cgroup old \<noteq> rc_cgroup new then Some ''cgroup''
      else if rc_snapshot_retention old \<noteq> rc_snapshot_retention new then Some ''snapshot.retention''
      else if rc_min_free_bytes old \<noteq> rc_min_free_bytes new then Some ''storage.min_free_bytes''
      else if rc_notifications old \<noteq> rc_notifications new then Some ''notification''
      else None)"

definition apply_changed :: "'tz engine_env \<Rightarrow> int \<Rightarrow> JobSpec \<Rightarrow> engine \<Rightarrow> (engine_error + unit) \<times> engine" where
  "apply_changed E now job e =
     (if engine_job e (name job) = Some job then (Ok (), e)
      else
        (case on_db (cancel_waiting_stmt (name job) now) e of
           (Inl err, e1) \<Rightarrow> (Err (DbFailure err), e1)
         | (Inr _, e1) \<Rightarrow> sync_one E now False job e1))"

definition put_job :: "JobSpec \<Rightarrow> JobSpec list \<Rightarrow> JobSpec list" where
  "put_job job jobs =
     (if \<exists>j \<in> set jobs. name j = name job then map (\<lambda>j. if name j = name job then job else j) jobs else jobs @ [job])"

fun swap_jobs :: "JobSpec list \<Rightarrow> JobSpec list \<Rightarrow> (string \<times> JobSpec option \<times> JobSpec) list \<times> JobSpec list" where
  "swap_jobs [] jobs = ([], jobs)"
| "swap_jobs (j # js) jobs =
     (let before = find (\<lambda>k. name k = name j) jobs; (audit, jobs') = swap_jobs js (put_job j jobs)
      in ((name j, before, j) # audit, jobs'))"

definition insert_history :: "int \<Rightarrow> string \<Rightarrow> JobSpec option \<Rightarrow> JobSpec \<Rightarrow> unit stmt" where
  "insert_history now n before after d =
     commit () (d\<lparr>t_history := t_history d @ [\<lparr>hi_ts = now, hi_job_name = n, hi_before = before, hi_after = Some after\<rparr>]\<rparr>) d"

definition reload_message :: "nat \<Rightarrow> nat \<Rightarrow> nat \<Rightarrow> nat \<Rightarrow> string" where
  "reload_message added modified removed changed =
     ''config reloaded: '' @ show_nat added @ '' added, '' @ show_nat modified @ '' modified, '' @ show_nat removed
       @ '' removed ('' @ show_nat changed @ '' job(s) applied)''"

text \<open>
  \<open>reload\<close>: \<open>loaded\<close> is the outcome of the configuration loader, absent when the engine has no
  configuration source.
\<close>

definition reload ::
  "'tz engine_env \<Rightarrow> ResolvedConfig \<Rightarrow> ResolvedConfig option option \<Rightarrow> int \<Rightarrow> engine \<Rightarrow> (engine_error + nat) \<times> engine" where
  "reload E old loaded now e =
     (case loaded of
        None \<Rightarrow> (Err NoConfigSource, e)
      | Some None \<Rightarrow> (Err ConfigInvalid, e)
      | Some (Some new) \<Rightarrow>
          (case reload_rejects old new of
             Some field \<Rightarrow> (Err (ReloadRejected field), e)
           | None \<Rightarrow>
               (let changed = filter (\<lambda>j. engine_job e (name j) \<noteq> Some j) (rc_jobs new);
                    added = length (filter (\<lambda>j. engine_job e (name j) = None) changed);
                    removed = filter (\<lambda>n. \<not> (\<exists>j \<in> set (rc_jobs new). name j = n)) (map name (live_jobs e))
                in case try_each (apply_changed E now) changed e of
                     (Inl err, e1) \<Rightarrow> (Err err, e1)
                   | (Inr _, e1) \<Rightarrow>
                       (case try_each forget_job_current removed e1 of
                          (Inl err, e2) \<Rightarrow> (Err err, e2)
                        | (Inr _, e2) \<Rightarrow>
                            (let (audit, jobs') = swap_jobs changed (live_jobs e2);
                                 e3 = e2\<lparr>live_jobs := jobs'\<rparr>;
                                 e4 = on_db_ignored (for_each (\<lambda>(n, b, a). ignore (insert_history now n b a)) audit) e3;
                                 n = length changed + length removed;
                                 (ev, e5) = draw_id E e4
                             in (Ok n, on_db_ignored (insert_event ev None None ''INFO''
                                  (reload_message added (length changed - added) (length removed) n) now) e5))))))"

section \<open>Notifications\<close>

text \<open>
  The decision of \<open>notify\<close>: the event to send, if any, and the next streak. Without a webhook nothing
  happens.
\<close>

definition notify :: "NotificationConfig \<Rightarrow> string \<Rightarrow> string option \<Rightarrow> (string \<rightharpoonup> nat) \<Rightarrow> string option \<times> (string \<rightharpoonup> nat)" where
  "notify cfg event job streaks =
     (if webhook_url cfg = None then (None, streaks)
      else
        (let key = opt_default [] job; threshold = max (alert_after_failures cfg) 1
         in if event = ''sync_failed'' then
              (let n = opt_default 0 (streaks key) + 1
               in (if n = threshold then Some event else None, streaks(key \<mapsto> n)))
            else if event = ''sync_success'' then
              (let was_alerted = threshold \<le> opt_default 0 (streaks key)
               in (if was_alerted then Some ''sync_recovered'' else None, streaks(key := None)))
            else (Some event, streaks)))"

section \<open>Storage of a run\<close>

record RunStorageCtx =
  ctx_storages :: "(string \<times> StorageConfig) list"
  ctx_retention :: RetentionPolicy
  ctx_min_free_bytes :: "nat option"
  ctx_cgroup_base :: string

definition storage_for :: "RunStorageCtx \<Rightarrow> JobSpec \<Rightarrow> (string \<times> StorageConfig) option" where
  "storage_for c job =
     (case Option.bind (storage_name job) (\<lambda>n. map_option (Pair n) (map_of (ctx_storages c) n)) of
        Some entry \<Rightarrow> Some entry
      | None \<Rightarrow> find (\<lambda>(_, s). mountpoint s = Some (storage job)) (ctx_storages c))"

text \<open>\<open>PathBuf::join\<close>: an absolute argument replaces the base.\<close>

definition path_join :: "string \<Rightarrow> string \<Rightarrow> string" where
  "path_join a b = (if is_absolute b then b else if a = [] \<or> last a = CHR ''/'' then a @ b else a @ ''/'' @ b)"

definition strip_root :: "string \<Rightarrow> string" where
  "strip_root p = join_with ''/'' (path_components p)"

definition resolve_storage_path :: "RunStorageCtx \<Rightarrow> JobSpec \<Rightarrow> string" where
  "resolve_storage_path c job =
     (case storage_for c job of
        Some (_, s) \<Rightarrow>
          if storage_name job \<noteq> None then
            (let base = opt_default ''/srv/mirror'' (mountpoint s)
             in if storage job = [] then path_join base (name job)
                else if is_absolute (storage job) then path_join base (strip_root (storage job))
                else path_join base (storage job))
          else storage job
      | None \<Rightarrow> storage job)"

end
