(* ===== verification/Purge.thy ===== *)
theory Purge
  imports Leases
begin

text \<open>
  \<open>purge_job\<close> of \<open>crates/db/src/store.rs\<close> deletes in an order that no foreign key obstructs: logs, events
  and history, then runs and the schedule, then the job. Each deletion commits, and nothing that
  names the job remains.
\<close>

section \<open>Deletions commit\<close>

lemma list_all_filter: "list_all p xs \<Longrightarrow> list_all p (filter q xs)"
  by (auto simp: list_all_iff)

lemma active_runs_filter: "active_runs (d\<lparr>t_runs := filter p (t_runs d)\<rparr>) = filter p (active_runs d)"
  by (simp add: active_runs_def conj_commute)

lemma del_plain:
  assumes "constraints d"
  shows "del_logs job d = (Ok (), d\<lparr>t_logs := filter (\<lambda>l. lg_job_id l \<noteq> job) (t_logs d)\<rparr>)"
    and "del_events job d = (Ok (), d\<lparr>t_events := filter (\<lambda>e. ev_job_id e \<noteq> Some job) (t_events d)\<rparr>)"
    and "del_history job d = (Ok (), d\<lparr>t_history := filter (\<lambda>h. hi_job_name h \<noteq> job) (t_history d)\<rparr>)"
    and "del_repository path d = (Ok (), d\<lparr>t_repositories := filter (\<lambda>p. rp_path p \<noteq> path) (t_repositories d)\<rparr>)"
  using assms
  by (simp_all add: del_logs_def del_events_def del_history_def del_repository_def commit_def constraints_def
      job_names_def worker_ids_def active_runs_def distinct_map_filter cong: option.case_cong)

lemma del_runs_commits:
  "constraints d \<Longrightarrow> del_runs job d = (Ok (), d\<lparr>t_runs := filter (\<lambda>r. r_job_id r \<noteq> job) (t_runs d)\<rparr>)"
  by (simp add: del_runs_def commit_def constraints_def active_runs_filter distinct_map_filter list_all_filter
      cong: option.case_cong)

lemma del_schedules_commits:
  "constraints d \<Longrightarrow> del_schedules job d = (Ok (), d\<lparr>t_schedules := filter (\<lambda>s. sc_job_name s \<noteq> job) (t_schedules d)\<rparr>)"
  by (simp add: del_schedules_def commit_def constraints_def distinct_map_filter list_all_filter
      job_names_def worker_ids_def active_runs_def cong: option.case_cong)

lemma del_jobs_commits:
  assumes "constraints d" and "\<forall>r \<in> set (t_runs d). r_job_id r \<noteq> job" and "\<forall>s \<in> set (t_schedules d). sc_job_name s \<noteq> job"
  shows "del_jobs job d = (Ok (), d\<lparr>t_jobs := filter (\<lambda>j. jr_name j \<noteq> job) (t_jobs d)\<rparr>)"
proof -
  let ?d = "d\<lparr>t_jobs := filter (\<lambda>j. jr_name j \<noteq> job) (t_jobs d)\<rparr>"
  have names: "set (job_names ?d) = set (job_names d) - {job}" by (auto simp: job_names_def)
  have "distinct (job_names ?d)" using assms(1) by (simp add: constraints_def job_names_def distinct_map_filter)
  moreover have "list_all (\<lambda>s. sc_job_name s \<in> set (job_names ?d)) (t_schedules d)"
    using assms(1,3) unfolding names by (simp add: constraints_def list_all_iff)
  moreover have "list_all (\<lambda>r. r_job_id r \<in> set (job_names ?d)
          \<and> (case r_worker_id r of None \<Rightarrow> True | Some w \<Rightarrow> w \<in> set (worker_ids d))) (t_runs d)"
    using assms(1,2) unfolding names by (simp add: constraints_def list_all_iff)
  ultimately have "constraints ?d" using assms(1) by (simp add: constraints_def cong: option.case_cong)
  then show ?thesis by (simp add: del_jobs_def commit_def)
qed

lemma commit_constraints: "commit x d' d = (Ok y, d2) \<Longrightarrow> constraints d2"
  by (auto simp: commit_def split: if_splits)

lemma del_constraints:
  "del_logs job d = (Ok (), d') \<Longrightarrow> constraints d'" "del_events job d = (Ok (), d') \<Longrightarrow> constraints d'"
  "del_history job d = (Ok (), d') \<Longrightarrow> constraints d'" "del_runs job d = (Ok (), d') \<Longrightarrow> constraints d'"
  "del_schedules job d = (Ok (), d') \<Longrightarrow> constraints d'" "del_jobs job d = (Ok (), d') \<Longrightarrow> constraints d'"
  "del_repository path d = (Ok (), d') \<Longrightarrow> constraints d'"
  unfolding del_logs_def del_events_def del_history_def del_runs_def del_schedules_def del_jobs_def del_repository_def
  by (auto dest: commit_constraints)

lemma seq_Ok: "m d = (Ok x, d1) \<Longrightarrow> seq m f d = f x d1"
  by (simp add: seq_def)

text \<open>The state after the deletions, before the repository row.\<close>

definition purged :: "string \<Rightarrow> db \<Rightarrow> db" where
  "purged job d = d\<lparr>t_logs := filter (\<lambda>l. lg_job_id l \<noteq> job) (t_logs d), t_events := filter (\<lambda>e. ev_job_id e \<noteq> Some job) (t_events d),
     t_history := filter (\<lambda>h. hi_job_name h \<noteq> job) (t_history d), t_runs := filter (\<lambda>r. r_job_id r \<noteq> job) (t_runs d),
     t_schedules := filter (\<lambda>s. sc_job_name s \<noteq> job) (t_schedules d), t_jobs := filter (\<lambda>j. jr_name j \<noteq> job) (t_jobs d)\<rparr>"

lemma purge_job_result:
  assumes "constraints d"
  shows "\<exists>reps. purge_job job d = (Ok (), (purged job d)\<lparr>t_repositories := reps\<rparr>)
           \<and> set reps \<subseteq> set (t_repositories d) \<and> constraints ((purged job d)\<lparr>t_repositories := reps\<rparr>)"
proof -
  let ?d1 = "d\<lparr>t_logs := filter (\<lambda>l. lg_job_id l \<noteq> job) (t_logs d)\<rparr>"
  let ?d2 = "?d1\<lparr>t_events := filter (\<lambda>e. ev_job_id e \<noteq> Some job) (t_events d)\<rparr>"
  let ?d3 = "?d2\<lparr>t_history := filter (\<lambda>h. hi_job_name h \<noteq> job) (t_history d)\<rparr>"
  let ?d4 = "?d3\<lparr>t_runs := filter (\<lambda>r. r_job_id r \<noteq> job) (t_runs d)\<rparr>"
  let ?d5 = "?d4\<lparr>t_schedules := filter (\<lambda>s. sc_job_name s \<noteq> job) (t_schedules d)\<rparr>"
  let ?d6 = "purged job d"
  have s1: "del_logs job d = (Ok (), ?d1)" using del_plain(1) [OF assms] .
  have s2: "del_events job ?d1 = (Ok (), ?d2)" using del_plain(2) [OF del_constraints(1) [OF s1], of job] by simp
  have s3: "del_history job ?d2 = (Ok (), ?d3)" using del_plain(3) [OF del_constraints(2) [OF s2], of job] by simp
  have s4: "del_runs job ?d3 = (Ok (), ?d4)" using del_runs_commits [OF del_constraints(3) [OF s3], of job] by simp
  have s5: "del_schedules job ?d4 = (Ok (), ?d5)" using del_schedules_commits [OF del_constraints(4) [OF s4], of job] by simp
  have gone: "\<forall>r \<in> set (t_runs ?d5). r_job_id r \<noteq> job" "\<forall>s \<in> set (t_schedules ?d5). sc_job_name s \<noteq> job"
    by simp_all
  have "?d5\<lparr>t_jobs := filter (\<lambda>j. jr_name j \<noteq> job) (t_jobs ?d5)\<rparr> = ?d6" unfolding purged_def by simp
  with del_jobs_commits [OF del_constraints(5) [OF s5] gone] have s6: "del_jobs job ?d5 = (Ok (), ?d6)"
    by (simp only:)
  have c6: "constraints ?d6" using del_constraints(6) [OF s6] .
  let ?sp = "map_option jr_storage_path (find (\<lambda>j. jr_name j = job) (t_jobs d))"
  have q: "query (\<lambda>d. map_option jr_storage_path (find (\<lambda>j. jr_name j = job) (t_jobs d))) d = (Ok ?sp, d)"
    by (simp add: query_def)
  have chain: "purge_job job d = (case ?sp of None \<Rightarrow> ret () | Some path \<Rightarrow>
      seq (query (\<lambda>d. filter (\<lambda>j. jr_storage_path j = path) (t_jobs d))) (\<lambda>others.
        if others = [] then ignore (del_repository path) else ret ())) ?d6"
    unfolding purge_job_def seq_Ok [of "query _", OF q] seq_Ok [of "del_logs job", OF s1] seq_Ok [of "del_events job", OF s2] seq_Ok [of "del_history job", OF s3] seq_Ok [of "del_runs job", OF s4]
      seq_Ok [of "del_schedules job", OF s5] seq_Ok [of "del_jobs job", OF s6] by (rule refl)
  have keep: "?d6 = ?d6\<lparr>t_repositories := t_repositories d\<rparr>" by (simp add: purged_def)
  show ?thesis
  proof (cases ?sp)
    case None
    then have "purge_job job d = (Ok (), ?d6)" unfolding chain by (simp add: ret_def)
    with keep c6 show ?thesis by (intro exI [of _ "t_repositories d"]) simp
  next
    case (Some path)
    show ?thesis
    proof (cases "filter (\<lambda>j. jr_storage_path j = path) (t_jobs ?d6) = []")
      case True
      have del: "del_repository path ?d6 = (Ok (), ?d6\<lparr>t_repositories := filter (\<lambda>p. rp_path p \<noteq> path) (t_repositories ?d6)\<rparr>)"
        using del_plain(4) [OF c6] .
      have "purge_job job d = (Ok (), ?d6\<lparr>t_repositories := filter (\<lambda>p. rp_path p \<noteq> path) (t_repositories ?d6)\<rparr>)"
        unfolding chain Some option.case using True by (simp add: seq_def query_def ignore_def del)
      with del_constraints(7) [OF del] show ?thesis
        by (intro exI [of _ "filter (\<lambda>p. rp_path p \<noteq> path) (t_repositories ?d6)"]) (auto simp: purged_def)
    next
      case False
      then have "purge_job job d = (Ok (), ?d6)" unfolding chain Some option.case by (simp add: seq_def query_def ret_def)
      with keep c6 show ?thesis by (intro exI [of _ "t_repositories d"]) simp
    qed
  qed
qed

section \<open>Properties\<close>

text \<open>A purge leaves nothing of the job and touches nothing else. On a consistent database \<open>purge_job\<close>
  succeeds; afterwards no job, schedule, run, log, event or history row names the job, the rows of
  all other jobs and all workers are as before, repository sizes were at most removed, and the
  database is consistent.\<close>

lemma purge_job_complete:
  assumes "constraints d"
  shows "\<exists>d'. purge_job job d = (Ok (), d') \<and> constraints d'
    \<and> t_jobs d' = filter (\<lambda>j. jr_name j \<noteq> job) (t_jobs d)
    \<and> t_schedules d' = filter (\<lambda>s. sc_job_name s \<noteq> job) (t_schedules d)
    \<and> t_runs d' = filter (\<lambda>r. r_job_id r \<noteq> job) (t_runs d)
    \<and> t_logs d' = filter (\<lambda>l. lg_job_id l \<noteq> job) (t_logs d)
    \<and> t_events d' = filter (\<lambda>e. ev_job_id e \<noteq> Some job) (t_events d)
    \<and> t_history d' = filter (\<lambda>h. hi_job_name h \<noteq> job) (t_history d)
    \<and> t_workers d' = t_workers d \<and> set (t_repositories d') \<subseteq> set (t_repositories d)"
  using purge_job_result [OF assms, of job] by (auto simp: purged_def)

lemma purge_job_complete_witness:
  "\<exists>d'. purge_job ''m'' demo_active = (Ok (), d') \<and> t_runs d' = [] \<and> t_jobs d' = []"
  using purge_job_complete [OF demo_valid(3), of "''m''"] by (auto simp: demo_runs) (simp add: demo_eval)

end
