(* ===== verification/Dispatch.thy ===== *)
theory Dispatch
  imports Engine Purge
begin

text \<open>
  Correctness of dispatch, notifications, job removal and reload (\<open>crates/engine/src/engine.rs\<close>).
\<close>

section \<open>Effects on the run table\<close>

definition created :: "string \<Rightarrow> string \<Rightarrow> string option \<Rightarrow> JobStatus \<Rightarrow> int \<Rightarrow> int \<Rightarrow> string \<Rightarrow> run_rec" where
  "created i job w s prio now g = (new_run i job w s now)\<lparr>r_priority := prio, r_config_generation := g\<rparr>"

lemma created_simps [simp]: "r_id (created i job w s prio now g) = i" "r_job_id (created i job w s prio now g) = job"
  "r_status (created i job w s prio now g) = s" "r_worker_id (created i job w s prio now g) = w"
  by (simp_all add: created_def new_run_def)

lemma create_run_effect:
  assumes "create_run i job w s prio now d = (res, d')" and "constraints d"
  shows "constraints d' \<and> ((\<exists>e. res = Err e) \<and> d' = d
    \<or> res = Ok () \<and> (\<exists>g. job_generation d job = Some g \<and> t_runs d' = t_runs d @ [created i job w s prio now g]))"
proof -
  have c': "constraints d'"
    using run_ops_valid(1) [THEN preservesD, OF assms(1)] assms(2) by (simp add: stays_valid_def)
  show ?thesis
  proof (cases "job_generation d job")
    case None
    then show ?thesis using assms c' by (auto simp: create_run_def create_run_stmt_def seq_def)
  next
    case (Some g)
    let ?r = "created i job w s prio now g"
    have stmt: "create_run_stmt i job w s prio now d = insert_run ?r d"
      using Some by (simp add: create_run_stmt_def created_def)
    show ?thesis
    proof (cases "constraints (d\<lparr>t_runs := t_runs d @ [?r]\<rparr>)")
      case False
      then have "create_run_stmt i job w s prio now d = (Err Conflict, d)"
        unfolding stmt by (simp add: insert_run_def commit_def)
      then show ?thesis using assms c' by (auto simp: create_run_def seq_def)
    next
      case True
      let ?d = "d\<lparr>t_runs := t_runs d @ [?r]\<rparr>"
      have one: "create_run_stmt i job w s prio now d = (Ok 1, ?d)"
        unfolding stmt using True by (simp add: insert_run_def commit_def)
      obtain js where js: "set_job_status job s ?d = (Ok (), ?d\<lparr>t_jobs := js\<rparr>)"
        using set_job_status_total [OF True] by blast
      have "create_run i job w s prio now d \<in> {(Ok (), ?d\<lparr>t_jobs := js\<rparr>), (Ok (), ?d)}"
        using js by (auto simp: create_run_def seq_def one query_def ret_def)
      then have "res = Ok ()" "t_runs d' = t_runs d @ [?r]" using assms(1) by auto
      with Some c' show ?thesis by blast
    qed
  qed
qed

lemma create_run_fresh:
  assumes "constraints d" and "job_generation d job = Some g" and "\<forall>r \<in> set (t_runs d). r_id r \<noteq> i"
    and "case w of None \<Rightarrow> True | Some v \<Rightarrow> v \<in> set (worker_ids d)" and "\<not> active s"
  shows "\<exists>d'. create_run i job w s prio now d = (Ok (), d')"
proof -
  let ?r = "created i job w s prio now g"
  have job: "job \<in> set (job_names d)"
    using assms(2) by (auto simp: job_generation_def job_names_def find_Some_iff)
  have ids: "distinct (map r_id (t_runs d @ [?r]))"
    using constraints_run_ids [OF assms(1)] assms(3) by auto
  have "constraints (d\<lparr>t_runs := t_runs d @ [?r]\<rparr>)"
    unfolding constraints_runs [OF assms(1) ids]
    using constraints_refs [OF assms(1)] one_active [OF assms(1)] job assms(4,5) by (auto simp: refs_ok_def)
  then have "create_run_stmt i job w s prio now d = (Ok 1, d\<lparr>t_runs := t_runs d @ [?r]\<rparr>)"
    using assms(2) by (simp add: create_run_stmt_def insert_run_def commit_def created_def)
  moreover obtain res d' where r: "create_run i job w s prio now d = (res, d')" by (cases "create_run i job w s prio now d")
  ultimately have "d' \<noteq> d \<or> res = Ok ()"
    using create_run_effect [OF r assms(1)] set_job_status_runs(1) [of job s "d\<lparr>t_runs := t_runs d @ [?r]\<rparr>"]
    by (cases res) (auto simp: create_run_def seq_def query_def ret_def split: if_splits prod.splits sum.splits)
  with create_run_effect [OF r assms(1)] r show ?thesis by auto
qed

lemma insert_event_runs [store_simps]: "t_runs (snd (insert_event ev j r l m now d)) = t_runs d"
  by (simp add: insert_event_def commit_def)

lemma insert_event_valid [inv_intros]: "preserves stays_valid (insert_event ev j r l m now)"
  using commit_valid unfolding insert_event_def [abs_def] .

lemma on_db_simps [simp]:
  "fst (on_db m e) = fst (m (en_db e))" "snd (on_db m e) = e\<lparr>en_db := snd (m (en_db e))\<rparr>"
  "on_db_ignored m e = e\<lparr>en_db := snd (m (en_db e))\<rparr>"
  by (simp_all add: on_db_def on_db_ignored_def split: prod.split)

lemma on_db_eq: "on_db m e = (r, e') \<longleftrightarrow> (\<exists>d. m (en_db e) = (r, d) \<and> e' = e\<lparr>en_db := d\<rparr>)"
  by (auto simp: on_db_def split: prod.split)

section \<open>Queueing\<close>

lemma inflight_runs_empty:
  "inflight_runs_of_job job d = [] \<longleftrightarrow> (\<forall>r \<in> set (t_runs d). r_job_id r = job \<longrightarrow> \<not> inflight (r_status r))"
  by (auto simp: inflight_runs_of_job_def runs_where_empty)

lemma inflight_runs_Cons:
  "inflight_runs_of_job job d = q # qs \<Longrightarrow> \<exists>r \<in> set (t_runs d). q = run_row r \<and> r_job_id r = job \<and> inflight (r_status r)"
proof -
  assume a: "inflight_runs_of_job job d = q # qs"
  have "q \<in> set (inflight_runs_of_job job d)" unfolding a by simp
  then show ?thesis by (auto simp: inflight_runs_of_job_def set_runs_where)
qed

lemma queue_run_existing:
  assumes "\<exists>r \<in> set (t_runs (en_db e)). r_job_id r = name job \<and> inflight (r_status r)"
  shows "\<exists>r \<in> set (t_runs (en_db e)). r_job_id r = name job \<and> inflight (r_status r)
    \<and> queue_run E job forced now e = (Ok (r_id r), e)"
proof -
  obtain q qs where q: "inflight_runs_of_job (name job) (en_db e) = q # qs"
    using assms inflight_runs_empty [of "name job" "en_db e"] by (cases "inflight_runs_of_job (name job) (en_db e)") auto
  from inflight_runs_Cons [OF q] obtain r where r: "r \<in> set (t_runs (en_db e))" "q = run_row r" "r_job_id r = name job"
    "inflight (r_status r)" by blast
  then show ?thesis using q by (intro bexI [of _ r]) (simp_all add: queue_run_def)
qed

lemma queue_run_new:
  assumes "constraints (en_db e)"
    and "\<forall>r \<in> set (t_runs (en_db e)). r_job_id r = name job \<longrightarrow> \<not> inflight (r_status r)"
    and "queue_run E job forced now e = (res, e')"
  shows "constraints (en_db e') \<and>
    ((\<exists>err. res = Err (DbFailure err)) \<and> t_runs (en_db e') = t_runs (en_db e)
     \<or> (\<exists>g. res = Ok (run_id E (en_ids e))
          \<and> t_runs (en_db e') = t_runs (en_db e) @ [created (run_id E (en_ids e)) (name job) (planned_worker E job) Queued
               (if forced then 1 else 0) now g]))"
proof -
  let ?i = "run_id E (en_ids e)"
  let ?e1 = "e\<lparr>en_ids := Suc (en_ids e)\<rparr>"
  have none: "inflight_runs_of_job (name job) (en_db e) = []" using assms(2) inflight_runs_empty by blast
  obtain r d' where c: "create_run ?i (name job) (planned_worker E job) Queued (if forced then 1 else 0) now (en_db e) = (r, d')"
    by (cases "create_run ?i (name job) (planned_worker E job) Queued (if forced then 1 else 0) now (en_db e)")
  note eff = create_run_effect [OF c assms(1)]
  show ?thesis
  proof (cases r)
    case (Inl err)
    then have "res = Err (DbFailure err) \<and> en_db e' = d'"
      using assms(3) c none by (auto simp: queue_run_def draw_id_def on_db_def)
    with eff Inl show ?thesis by auto
  next
    case (Inr u)
    then have res: "res = Ok ?i"
      and e': "en_db e' = snd (insert_event (run_id E (Suc (en_ids e))) (Some (name job)) (Some ?i) ''INFO'' ''run queued'' now d')"
      using assms(3) c none by (auto simp: queue_run_def draw_id_def on_db_def)
    have "constraints (en_db e')"
      unfolding e' using insert_event_valid eff by (auto simp: preserves_def stays_valid_def)
    with eff Inr res e' show ?thesis by (auto simp: insert_event_runs)
  qed
qed

section \<open>Skipping\<close>

lemma update_where_last:
  "(\<forall>x \<in> set xs. \<not> p x) \<Longrightarrow> p y \<Longrightarrow> update_where p f (xs @ [y]) = xs @ [f y]"
  by (simp add: update_where_def map_idI)

lemma finish_run_runs:
  assumes "constraints d" and "\<not> active s"
  shows "t_runs (snd (finish_run i s c now d)) = update_where (\<lambda>r. r_id r = i) (finished s c now) (t_runs d)
    \<and> constraints (snd (finish_run i s c now d))"
proof -
  have u: "finish_stmt i s c now d = (Ok (count_where (\<lambda>r. r_id r = i) (t_runs d)),
      d\<lparr>t_runs := update_where (\<lambda>r. r_id r = i) (finished s c now) (t_runs d)\<rparr>)" (is "_ = (_, ?d)")
    unfolding finish_stmt_def by (rule update_runs_passive [OF assms(1)]) (use assms(2) in auto)
  have "constraints (snd (finish_run i s c now d))"
    using run_ops_valid(9) assms(1) by (auto simp: preserves_def stays_valid_def)
  moreover have "t_runs (snd (finish_run i s c now d)) = t_runs (snd (set_job_status_for_run i ?d))"
    by (simp add: finish_run_def seq_def u)
  ultimately show ?thesis by (simp add: set_job_status_runs)
qed

lemma skip_run_effect:
  assumes "constraints (en_db e)" and "skip_run E job dep now e = (res, e')"
    and fresh: "\<forall>r \<in> set (t_runs (en_db e)). r_id r \<noteq> run_id E (en_ids e)"
  shows "res = Ok (run_id E (en_ids e)) \<and> constraints (en_db e')
    \<and> (t_runs (en_db e') = t_runs (en_db e)
       \<or> (\<exists>x. t_runs (en_db e') = t_runs (en_db e) @ [x] \<and> r_id x = run_id E (en_ids e) \<and> r_job_id x = job \<and> r_status x = Skipped))"
proof -
  let ?i = "run_id E (en_ids e)"
  let ?c = "no_outcome (Some (''dependency `'' @ dep @ ''` has not succeeded''))"
  obtain r d1 where c: "create_run ?i job None Skipped 0 now (en_db e) = (r, d1)"
    by (cases "create_run ?i job None Skipped 0 now (en_db e)")
  let ?d2 = "snd (finish_run ?i Skipped ?c now d1)"
  have eff: "constraints d1" "t_runs d1 = t_runs (en_db e) \<or> (\<exists>g. t_runs d1 = t_runs (en_db e) @ [created ?i job None Skipped 0 now g])"
    using create_run_effect [OF c assms(1)] by auto
  have fin: "t_runs ?d2 = update_where (\<lambda>r. r_id r = ?i) (finished Skipped ?c now) (t_runs d1)" "constraints ?d2"
    using finish_run_runs [OF eff(1), of Skipped] by auto
  have e': "res = Ok ?i" "t_runs (en_db e') = t_runs ?d2" "constraints (en_db e')"
    using assms(2) fin(2) insert_event_valid
    by (auto simp: skip_run_def draw_id_def Let_def c insert_event_runs preserves_def stays_valid_def)
  from eff(2) show ?thesis
  proof
    assume "t_runs d1 = t_runs (en_db e)"
    then have "t_runs ?d2 = t_runs (en_db e)" using fin(1) fresh by (simp add: update_where_none)
    with e' show ?thesis by simp
  next
    assume "\<exists>g. t_runs d1 = t_runs (en_db e) @ [created ?i job None Skipped 0 now g]"
    then obtain g where "t_runs d1 = t_runs (en_db e) @ [created ?i job None Skipped 0 now g]" ..
    then have "t_runs ?d2 = t_runs (en_db e) @ [finished Skipped ?c now (created ?i job None Skipped 0 now g)]"
      unfolding fin(1) using update_where_last [OF fresh, of "created ?i job None Skipped 0 now g"] by simp
    with e' show ?thesis by auto
  qed
qed

lemma skip_run_fresh:
  assumes "constraints (en_db e)" and "skip_run E job dep now e = (res, e')"
    and "\<forall>r \<in> set (t_runs (en_db e)). r_id r \<noteq> run_id E (en_ids e)" and "job_generation (en_db e) job = Some g"
  shows "\<exists>x. t_runs (en_db e') = t_runs (en_db e) @ [x] \<and> r_job_id x = job \<and> r_status x = Skipped"
proof -
  let ?i = "run_id E (en_ids e)"
  obtain d1 where c: "create_run ?i job None Skipped 0 now (en_db e) = (Ok (), d1)"
    using create_run_fresh [OF assms(1,4,3), of None Skipped 0 now] by auto
  from create_run_effect [OF c assms(1)] have "t_runs d1 \<noteq> t_runs (en_db e)" "constraints d1" by auto
  then have "length (t_runs d1) \<noteq> length (t_runs (en_db e))" using create_run_effect [OF c assms(1)] by auto
  moreover have "t_runs (en_db e') = t_runs (snd (finish_run ?i Skipped (no_outcome (Some (''dependency `'' @ dep @ ''` has not succeeded''))) now d1))"
    using assms(2) by (auto simp: skip_run_def draw_id_def Let_def c insert_event_runs)
  then have "length (t_runs (en_db e')) = length (t_runs d1)"
    using finish_run_runs [OF \<open>constraints d1\<close>, of Skipped] by (simp add: update_where_def)
  ultimately show ?thesis using skip_run_effect [OF assms(1-3)] by auto
qed

section \<open>Reload\<close>

lemma find_SomeD: "find p xs = Some x \<Longrightarrow> x \<in> set xs \<and> p x"
  by (auto simp: find_Some_iff)

lemma put_job_find:
  "find (\<lambda>k. name k = n) (put_job j jobs) = (if n = name j then Some j else find (\<lambda>k. name k = n) jobs)"
proof (cases "\<exists>k \<in> set jobs. name k = name j")
  case True
  have "find (\<lambda>k. name k = n) (map (\<lambda>k. if name k = name j then j else k) jobs) =
      (if n = name j then (if \<exists>k \<in> set jobs. name k = n then Some j else None) else find (\<lambda>k. name k = n) jobs)"
    by (induction jobs) auto
  with True show ?thesis by (auto simp: put_job_def)
next
  case False
  then have "find (\<lambda>k. name k = n) (jobs @ [j]) = (if n = name j then Some j else find (\<lambda>k. name k = n) jobs)"
    by (induction jobs) auto
  with False show ?thesis by (simp add: put_job_def)
qed

lemma swap_jobs_find:
  "distinct (map name cs) \<Longrightarrow> find (\<lambda>k. name k = n) (snd (swap_jobs cs jobs)) =
     (case find (\<lambda>k. name k = n) cs of Some j \<Rightarrow> Some j | None \<Rightarrow> find (\<lambda>k. name k = n) jobs)"
proof (induction cs arbitrary: jobs)
  case (Cons j js)
  have step: "snd (swap_jobs (j # js) jobs) = snd (swap_jobs js (put_job j jobs))"
    by (simp add: Let_def split: prod.split)
  have nj: "find (\<lambda>k. name k = name j) js = None" using Cons.prems by (force simp: find_None_iff image_iff)
  show ?case
  proof (cases "n = name j")
    case True
    then show ?thesis using Cons nj unfolding step by (simp add: put_job_find)
  next
    case False
    then show ?thesis using Cons unfolding step by (auto simp: put_job_find split: option.split)
  qed
qed simp

text \<open>Operations that leave the live jobs alone.\<close>

lemma sync_schedule_for_jobs: "sync_schedule_for E job now im e = (r, e') \<Longrightarrow> live_jobs e' = live_jobs e"
  by (auto simp: sync_schedule_for_def draw_id_def on_db_def next_run_gauge_def on_metrics_def
      split: prod.splits sum.splits option.splits)

lemma sync_one_jobs: "sync_one E now im job e = (r, e') \<Longrightarrow> live_jobs e' = live_jobs e"
  by (auto simp: sync_one_def on_db_def split: prod.splits sum.splits dest!: sync_schedule_for_jobs)

lemma apply_changed_jobs: "apply_changed E now job e = (r, e') \<Longrightarrow> live_jobs e' = live_jobs e"
  by (auto simp: apply_changed_def on_db_def split: prod.splits sum.splits if_splits dest!: sync_one_jobs)

lemma try_each_jobs:
  "(\<And>x e r e'. f x e = (r, e') \<Longrightarrow> live_jobs e' = live_jobs e) \<Longrightarrow> try_each f xs e = (r, e') \<Longrightarrow> live_jobs e' = live_jobs e"
proof (induction xs arbitrary: e)
  case (Cons x xs)
  obtain r1 e1 where x: "f x e = (r1, e1)" by (cases "f x e")
  then have "live_jobs e1 = live_jobs e" using Cons.prems(1) by blast
  moreover have "live_jobs e' = live_jobs e1"
    using Cons.IH [OF Cons.prems(1)] Cons.prems(2) x by (cases r1) auto
  ultimately show ?case by simp
qed simp

lemma forget_job_jobs:
  "forget_job_current n e = (Ok u, e') \<Longrightarrow> live_jobs e' = filter (\<lambda>j. name j \<noteq> n) (live_jobs e)"
  by (auto simp: forget_job_current_def Let_def on_db_def on_metrics_def stop_job_def
      split: if_splits prod.splits sum.splits option.splits)

lemma forget_each_jobs:
  "try_each forget_job_current ns e = (Ok u, e') \<Longrightarrow>
     live_jobs e' = filter (\<lambda>j. name j \<notin> set ns) (live_jobs e)"
proof (induction ns arbitrary: e)
  case (Cons n ns)
  obtain r1 e1 where f: "forget_job_current n e = (r1, e1)" by (cases "forget_job_current n e")
  with Cons.prems obtain v where r1: "r1 = Ok v" by (cases r1) auto
  with f have "live_jobs e1 = filter (\<lambda>j. name j \<noteq> n) (live_jobs e)" using forget_job_jobs by blast
  moreover have "live_jobs e' = filter (\<lambda>j. name j \<notin> set ns) (live_jobs e1)" using Cons f r1 by simp
  ultimately show ?case by (simp add: conj_commute)
qed simp

lemma find_filter_name:
  "find (\<lambda>j. name j = n) (filter (\<lambda>j. p (name j)) jobs) = (if p n then find (\<lambda>j. name j = n) jobs else None)"
  by (induction jobs) auto

lemma reload_live_jobs:
  assumes "reload E old (Some (Some new)) now e = (Ok k, e')" and "distinct (map name (rc_jobs new))"
  shows "engine_job e' n = find (\<lambda>j. name j = n) (rc_jobs new) \<and> reload_rejects old new = None"
proof -
  let ?changed = "filter (\<lambda>j. engine_job e (name j) \<noteq> Some j) (rc_jobs new)"
  let ?removed = "filter (\<lambda>n. \<not> (\<exists>j \<in> set (rc_jobs new). name j = n)) (map name (live_jobs e))"
  have ok: "reload_rejects old new = None" using assms(1) by (auto simp: reload_def split: option.splits)
  obtain r1 e1 where s1: "try_each (apply_changed E now) ?changed e = (r1, e1)"
    by (cases "try_each (apply_changed E now) ?changed e")
  then obtain u1 where u1: "r1 = Ok u1" using assms(1) ok by (cases r1) (auto simp: reload_def)
  obtain r2 e2 where s2: "try_each forget_job_current ?removed e1 = (r2, e2)"
    by (cases "try_each forget_job_current ?removed e1")
  then obtain u2 where u2: "r2 = Ok u2" using assms(1) ok s1 u1 by (cases r2) (auto simp: reload_def)
  have l1: "live_jobs e1 = live_jobs e" using try_each_jobs [OF apply_changed_jobs s1] .
  have l2: "live_jobs e2 = filter (\<lambda>j. name j \<notin> set ?removed) (live_jobs e)"
    using forget_each_jobs [OF s2 [unfolded u2]] unfolding l1 .
  obtain audit jobs' where sw: "swap_jobs ?changed (live_jobs e2) = (audit, jobs')" by (cases "swap_jobs ?changed (live_jobs e2)")
  then have live: "live_jobs e' = snd (swap_jobs ?changed (live_jobs e2))"
    using assms(1) unfolding reload_def Let_def
    by (simp only: ok s1 u1 s2 u2 sw option.case sum.case prod.case draw_id_def) auto
  have "distinct (map name ?changed)" using assms(2) by (simp add: distinct_map_filter)
  from swap_jobs_find [OF this, of n "live_jobs e2"]
  have "engine_job e' n = (case find (\<lambda>j. name j = n) ?changed of Some j \<Rightarrow> Some j
      | None \<Rightarrow> find (\<lambda>j. name j = n) (filter (\<lambda>j. name j \<notin> set ?removed) (live_jobs e)))"
    unfolding engine_job_def [of e'] live l2 .
  moreover have "\<dots> = find (\<lambda>j. name j = n) (rc_jobs new)"
  proof (cases "find (\<lambda>j. name j = n) (rc_jobs new)")
    case None
    then have no: "\<forall>j \<in> set (rc_jobs new). name j \<noteq> n" by (auto simp: find_None_iff)
    then have "find (\<lambda>j. name j = n) ?changed = None" by (auto simp: find_None_iff)
    moreover have "find (\<lambda>j. name j = n) (filter (\<lambda>j. name j \<notin> set ?removed) (live_jobs e)) = None"
      using no by (auto simp: find_None_iff)
    ultimately show ?thesis using None by simp
  next
    case (Some j)
    then have j: "j \<in> set (rc_jobs new)" "name j = n" by (auto simp: find_Some_iff)
    have uniq: "k = j" if "k \<in> set (rc_jobs new)" "name k = n" for k
      using assms(2) that j by (metis distinct_map inj_onD)
    show ?thesis
    proof (cases "engine_job e n = Some j")
      case True
      then have "find (\<lambda>j. name j = n) ?changed = None" using uniq by (auto simp: find_None_iff)
      moreover have "n \<notin> set ?removed" using j by auto
      ultimately show ?thesis using True Some find_filter_name [of n "\<lambda>m. m \<notin> set ?removed" "live_jobs e"]
        by (simp add: engine_job_def)
    next
      case False
      then have "j \<in> set ?changed" using j by auto
      then obtain k where "find (\<lambda>j. name j = n) ?changed = Some k"
        using j by (cases "find (\<lambda>j. name j = n) ?changed") (auto simp: find_None_iff)
      moreover from find_SomeD [OF this] have "k \<in> set (rc_jobs new)" "name k = n" by auto
      ultimately show ?thesis using uniq Some by simp
    qed
  qed
  ultimately show ?thesis using ok by simp
qed

section \<open>Removal\<close>

lemma cancelling_effect:
  assumes "constraints d"
  shows "\<exists>rs. snd (set_cancelling_by_job job d) = d\<lparr>t_runs := rs\<rparr> \<and> constraints (d\<lparr>t_runs := rs\<rparr>)
    \<and> filter (\<lambda>r. r_job_id r \<noteq> job) rs = filter (\<lambda>r. r_job_id r \<noteq> job) (t_runs d)"
proof (cases "set_cancelling_by_job job d")
  case (Pair res d')
  show ?thesis
  proof (cases res)
    case (Inl err)
    then have "d' = d" using Pair update_runs_Err unfolding set_cancelling_by_job_def by blast
    with Pair assms show ?thesis by (intro exI [of _ "t_runs d"]) simp
  next
    case (Inr k)
    have filt: "filter (\<lambda>r. r_job_id r \<noteq> job) (update_where (\<lambda>r. r_job_id r = job \<and> executing (r_status r)) (\<lambda>r. r\<lparr>r_status := Cancelling\<rparr>) xs)
        = filter (\<lambda>r. r_job_id r \<noteq> job) xs" for xs
      by (induction xs) (auto simp: update_where_def)
    from Pair Inr have "update_runs (\<lambda>_ r. r_job_id r = job \<and> executing (r_status r)) (\<lambda>r. r\<lparr>r_status := Cancelling\<rparr>) d = (Ok k, d')"
      unfolding set_cancelling_by_job_def by simp
    from update_runs_effect [OF this] Pair filt show ?thesis by auto
  qed
qed

lemma forget_job_result:
  assumes "constraints (en_db e)" and "job_name_ok n"
  shows "\<exists>e'. forget_job_current n e = (Ok (), e') \<and> constraints (en_db e')
    \<and> live_jobs e' = filter (\<lambda>j. name j \<noteq> n) (live_jobs e) \<and> failure_streak e' = (failure_streak e)(n := None)
    \<and> en_active e' = (en_active e)(n := None) \<and> run_tokens e' = (run_tokens e)(n := None)
    \<and> en_metrics e' = remove_job n (en_metrics e)
    \<and> (\<exists>reps. en_db e' = (purged n (en_db e))\<lparr>t_repositories := reps\<rparr>)"
proof -
  obtain rs where rs: "snd (set_cancelling_by_job n (en_db e)) = (en_db e)\<lparr>t_runs := rs\<rparr>"
    "constraints ((en_db e)\<lparr>t_runs := rs\<rparr>)" "filter (\<lambda>r. r_job_id r \<noteq> n) rs = filter (\<lambda>r. r_job_id r \<noteq> n) (t_runs (en_db e))"
    using cancelling_effect [OF assms(1), of n] by blast
  obtain reps where p: "purge_job n ((en_db e)\<lparr>t_runs := rs\<rparr>) = (Ok (), (purged n ((en_db e)\<lparr>t_runs := rs\<rparr>))\<lparr>t_repositories := reps\<rparr>)"
    "constraints ((purged n ((en_db e)\<lparr>t_runs := rs\<rparr>))\<lparr>t_repositories := reps\<rparr>)"
    using purge_job_result [OF rs(2), of n] by blast
  have pr: "purged n ((en_db e)\<lparr>t_runs := rs\<rparr>) = purged n (en_db e)" using rs(3) by (simp add: purged_def)
  show ?thesis using assms(2) rs(1) p unfolding pr
    by (cases "run_tokens e n") (auto simp: forget_job_current_def Let_def stop_job_def on_db_def on_db_ignored_def on_metrics_def)
qed

section \<open>Notifications\<close>

text \<open>The alerts that \<open>k\<close> failures in a row send, and the streaks after them.\<close>

fun notify_failures :: "NotificationConfig \<Rightarrow> string option \<Rightarrow> nat \<Rightarrow> (string \<rightharpoonup> nat) \<Rightarrow> string list \<times> (string \<rightharpoonup> nat)" where
  "notify_failures cfg job 0 streaks = ([], streaks)"
| "notify_failures cfg job (Suc k) streaks =
     (case notify cfg ''sync_failed'' job streaks of (sent, s1) \<Rightarrow>
        (case notify_failures cfg job k s1 of (evs, s2) \<Rightarrow>
           ((case sent of None \<Rightarrow> evs | Some ev \<Rightarrow> ev # evs), s2)))"

lemma notify_failures_from:
  assumes "webhook_url cfg \<noteq> None"
  shows "opt_default 0 (streaks (opt_default [] job)) = m \<Longrightarrow>
    notify_failures cfg job k streaks =
      (if m < max (alert_after_failures cfg) 1 \<and> max (alert_after_failures cfg) 1 \<le> m + k then [''sync_failed''] else [],
       if k = 0 then streaks else streaks(opt_default [] job \<mapsto> m + k))"
proof (induction k arbitrary: m streaks)
  case (Suc k)
  define s1 where "s1 = streaks(opt_default [] job \<mapsto> Suc m)"
  have n: "notify cfg ''sync_failed'' job streaks = (if Suc m = max (alert_after_failures cfg) 1 then Some ''sync_failed'' else None, s1)"
    using assms Suc.prems by (auto simp: notify_def Let_def s1_def)
  have "opt_default 0 (s1 (opt_default [] job)) = Suc m" by (simp add: s1_def)
  note ih = Suc.IH [of s1, OF this]
  have upd: "(if k = 0 then s1 else s1(opt_default [] job \<mapsto> Suc m + k)) = streaks(opt_default [] job \<mapsto> m + Suc k)"
    by (simp add: s1_def)
  show ?case by (simp only: notify_failures.simps n ih upd prod.case) auto
qed auto

section \<open>A small engine\<close>

definition demo_spec :: JobSpec where
  "demo_spec = \<lparr>name = ''m'', enabled = True, worker = None, provider = Rsync [] [], upstream = None, storage = ''/srv/m'',
     mirror_subdir = None, storage_name = None, proxy = None, egress = None, family = ''auto'', timeout = None, retry = 3,
     retry_delay = 60, retry_backoff = Fin 2, success_exit_codes = [], fail_on_match = None, max_concurrency = 1,
     misfire_policy = RunNext, on_worker_lost = LostRetry, timezone = ''UTC'', statistics = StatProvider, resources = [],
     priority = 50, schedule = \<lparr>sched_kind = Interval 60\<rparr>,
     hooks = \<lparr>before_sync = [], after_sync = [], on_success = [], on_failure = []\<rparr>,
     safety = \<lparr>max_delete_files = None, max_delete_ratio = None, max_size_drop_ratio = None\<rparr>,
     memory_limit = None, cpu_limit = None, depends_on = [], snapshot_policy = SnapNever, snapshot_failure = SnapWarn,
     verify = \<lparr>verify_enabled = False, checks = [], verify_command = None\<rparr>\<rparr>"

definition demo_time :: "unit time_lib" where
  "demo_time = \<lparr>in_range = (\<lambda>_. True), get_offset_utc = (\<lambda>_ _. 0), get_offset_local = (\<lambda>_ _. OffSome 0),
     has_next_day = (\<lambda>_. True), cal_weekday = (\<lambda>_. Monday), cal_month = (\<lambda>_. 1), cal_day = (\<lambda>_. 1)\<rparr>"

definition demo_eng_env :: "unit engine_env" where
  "demo_eng_env = \<lparr>tlib = demo_time, tz_by_name = (\<lambda>_. Some ()), run_id = (\<lambda>n. replicate (Suc n) CHR ''x''),
     planner = Some (\<lambda>_. None), fops = exact_ops\<rparr>"

definition demo_engine :: engine where
  "demo_engine = \<lparr>en_db = demo_db, en_metrics = metrics_new, live_jobs = [demo_spec], failure_streak = Map.empty,
     en_active = Map.empty, run_tokens = Map.empty, en_shutdown = False, en_permits = 4, en_ids = 0\<rparr>"

lemma demo_engine_simps [simp]:
  "en_db demo_engine = demo_db" "live_jobs demo_engine = [demo_spec]" "en_ids demo_engine = 0"
  "engine_job demo_engine ''m'' = Some demo_spec" "name demo_spec = ''m''" "enabled demo_spec" "depends_on demo_spec = []"
  "\<not> held_after_loss d demo_spec"
  by (simp_all add: demo_engine_def engine_job_def demo_spec_def held_after_loss_def)

section \<open>Properties\<close>

text \<open>C37: Dispatch never duplicates a run. For an enabled job whose guards pass, \<open>dispatch_current\<close> answers
  the id of a run of the job that is already in flight and changes nothing, if there is one.
  Otherwise it either fails in the database and leaves the runs alone or adds exactly one queued run,
  with the planned worker and a raised priority when forced; it does succeed when the id is new, the
  job is in the database and the planned worker is registered. The database stays consistent.\<close>

theorem dispatch_no_duplicate:
  assumes "constraints (en_db e)" and "engine_job e n = Some job" and "enabled job"
    and "forced \<or> \<not> held_after_loss (en_db e) job" and "\<forall>dep \<in> set (depends_on job). dep_ok (en_db e) dep"
    and "dispatch_current E n forced now e = (res, e')"
  shows "if \<exists>r \<in> set (t_runs (en_db e)). r_job_id r = n \<and> inflight (r_status r)
    then e' = e \<and> (\<exists>r \<in> set (t_runs (en_db e)). r_job_id r = n \<and> inflight (r_status r) \<and> res = Ok (r_id r))
    else constraints (en_db e')
      \<and> ((\<exists>err. res = Err (DbFailure err)) \<and> t_runs (en_db e') = t_runs (en_db e)
         \<or> (\<exists>g. res = Ok (run_id E (en_ids e)) \<and> t_runs (en_db e') = t_runs (en_db e)
              @ [created (run_id E (en_ids e)) n (planned_worker E job) Queued (if forced then 1 else 0) now g]))
      \<and> (job_generation (en_db e) n \<noteq> None \<and> run_id E (en_ids e) \<notin> r_id ` set (t_runs (en_db e))
           \<and> (case planned_worker E job of None \<Rightarrow> True | Some v \<Rightarrow> v \<in> set (worker_ids (en_db e)))
         \<longrightarrow> res = Ok (run_id E (en_ids e)))"
proof -
  have nm: "name job = n" using find_SomeD [of "\<lambda>j. name j = n"] assms(2) unfolding engine_job_def by blast
  have "find (\<lambda>dep. \<not> dep_ok (en_db e) dep) (depends_on job) = None" using assms(5) by (auto simp: find_None_iff)
  then have q: "queue_run E job forced now e = (res, e')" using assms(2,3,4,6) by (simp add: dispatch_current_def split: if_splits)
  show ?thesis
  proof (cases "\<exists>r \<in> set (t_runs (en_db e)). r_job_id r = n \<and> inflight (r_status r)")
    case True
    then show ?thesis using queue_run_existing [of e job E forced now] q nm by auto
  next
    case False
    then have no: "\<forall>r \<in> set (t_runs (en_db e)). r_job_id r = name job \<longrightarrow> \<not> inflight (r_status r)" using nm by blast
    from no have none: "inflight_runs_of_job (name job) (en_db e) = []" using inflight_runs_empty by blast
    have "res = Ok (run_id E (en_ids e))" if "job_generation (en_db e) n = Some g" "run_id E (en_ids e) \<notin> r_id ` set (t_runs (en_db e))"
      "case planned_worker E job of None \<Rightarrow> True | Some v \<Rightarrow> v \<in> set (worker_ids (en_db e))" for g
    proof -
      have "\<forall>r \<in> set (t_runs (en_db e)). r_id r \<noteq> run_id E (en_ids e)" using that(2) by force
      from create_run_fresh [OF assms(1) that(1) this that(3), of Queued "if forced then 1 else 0" now] obtain d' where
        "create_run (run_id E (en_ids e)) n (planned_worker E job) Queued (if forced then 1 else 0) now (en_db e) = (Ok (), d')" by auto
      then show ?thesis using q none nm by (auto simp: queue_run_def draw_id_def on_db_def)
    qed
    then show ?thesis using False queue_run_new [OF assms(1) no q] unfolding nm by auto
  qed
qed

theorem dispatch_no_duplicate_witness:
  "fst (dispatch_current demo_eng_env ''m'' False 1000 demo_engine) = Ok ''x''"
proof -
  obtain res e' where r: "dispatch_current demo_eng_env ''m'' False 1000 demo_engine = (res, e')"
    by (cases "dispatch_current demo_eng_env ''m'' False 1000 demo_engine")
  have "res = Ok (run_id demo_eng_env 0)"
    using dispatch_no_duplicate [OF _ _ _ _ _ r] demo_valid(1)
    by (simp add: demo_runs job_generation_def planned_worker_def demo_eng_env_def) (simp add: demo_db_def demo_job_def)
  with r show ?thesis by (simp add: demo_eng_env_def)
qed

text \<open>C38: What dispatch refuses. An unknown job, a disabled job, and an unforced job that is held after a
  loss, are refused with their own errors and change nothing. A job with a dependency whose latest
  run did not succeed is not queued: the answer is a run id, at most one run is added, it belongs to
  the job and is \<open>SKIPPED\<close>, and no other run changes.\<close>

theorem dispatch_guards:
  assumes "constraints (en_db e)" and "run_id E (en_ids e) \<notin> r_id ` set (t_runs (en_db e))"
  shows "(engine_job e n = None \<longrightarrow> dispatch_current E n forced now e = (Err UnknownJob, e))
    \<and> (\<forall>job. engine_job e n = Some job \<longrightarrow>
        (\<not> enabled job \<longrightarrow> dispatch_current E n forced now e = (Err JobDisabled, e))
      \<and> (enabled job \<and> \<not> forced \<and> held_after_loss (en_db e) job \<longrightarrow> dispatch_current E n forced now e = (Err HeldAfterLoss, e))
      \<and> (enabled job \<and> (forced \<or> \<not> held_after_loss (en_db e) job) \<and> (\<exists>dep \<in> set (depends_on job). \<not> dep_ok (en_db e) dep) \<longrightarrow>
          (\<exists>e'. dispatch_current E n forced now e = (Ok (run_id E (en_ids e)), e') \<and> constraints (en_db e')
             \<and> (t_runs (en_db e') = t_runs (en_db e)
                \<or> (\<exists>x. t_runs (en_db e') = t_runs (en_db e) @ [x] \<and> r_job_id x = n \<and> r_status x = Skipped)))))"
proof -
  have "\<exists>e'. dispatch_current E n forced now e = (Ok (run_id E (en_ids e)), e') \<and> constraints (en_db e')
             \<and> (t_runs (en_db e') = t_runs (en_db e)
                \<or> (\<exists>x. t_runs (en_db e') = t_runs (en_db e) @ [x] \<and> r_job_id x = n \<and> r_status x = Skipped))"
    if pass: "engine_job e n = Some job" "enabled job" "forced \<or> \<not> held_after_loss (en_db e) job"
      "\<exists>dep \<in> set (depends_on job). \<not> dep_ok (en_db e) dep" for job
  proof -
    obtain dep where "find (\<lambda>dep. \<not> dep_ok (en_db e) dep) (depends_on job) = Some dep"
      using pass(4) by (cases "find (\<lambda>dep. \<not> dep_ok (en_db e) dep) (depends_on job)") (auto simp: find_None_iff)
    then have d: "dispatch_current E n forced now e = skip_run E n dep now e"
      using pass by (auto simp: dispatch_current_def)
    obtain res e' where s: "skip_run E n dep now e = (res, e')" by (cases "skip_run E n dep now e")
    have "\<forall>r \<in> set (t_runs (en_db e)). r_id r \<noteq> run_id E (en_ids e)" using assms(2) by force
    from skip_run_effect [OF assms(1) s this] show ?thesis unfolding d s by auto
  qed
  then show ?thesis by (auto simp: dispatch_current_def)
qed

theorem dispatch_guards_witness:
  "dispatch_current demo_eng_env ''nope'' True 1000 demo_engine = (Err UnknownJob, demo_engine)"
  using dispatch_guards [of demo_engine demo_eng_env "''nope''" True 1000] demo_valid(1)
  by (simp add: demo_runs) (simp add: engine_job_def)

text \<open>Reload makes the live jobs those of the new configuration. A rejected reload (no source, an invalid
  configuration, a change of a setting that needs a restart) changes nothing. A reload that
  succeeds found no such change, and afterwards the live job of every name is the new
  configuration's: changed jobs are replaced, new ones added, removed ones gone.\<close>

lemma reload_applies:
  assumes "distinct (map name (rc_jobs new))"
  shows "reload E old None now e = (Err NoConfigSource, e) \<and> reload E old (Some None) now e = (Err ConfigInvalid, e)
    \<and> (case reload_rejects old new of
         Some field \<Rightarrow> reload E old (Some (Some new)) now e = (Err (ReloadRejected field), e)
       | None \<Rightarrow> (\<forall>k e'. reload E old (Some (Some new)) now e = (Ok k, e') \<longrightarrow>
                    (\<forall>n. engine_job e' n = find (\<lambda>j. name j = n) (rc_jobs new))))"
proof (cases "reload_rejects old new")
  case None
  moreover have "reload E old None now e = (Err NoConfigSource, e)" "reload E old (Some None) now e = (Err ConfigInvalid, e)"
    by (simp_all add: reload_def)
  ultimately show ?thesis using reload_live_jobs [OF _ assms, of E old now e] by auto
qed (simp add: reload_def)

definition demo_config :: "JobSpec list \<Rightarrow> ResolvedConfig" where
  "demo_config jobs = \<lparr>rc_db = \<lparr>dbc_kind = Sqlite, dbc_path = ''/db'', dbc_url = None\<rparr>, rc_max_concurrency = 4, rc_log_dir = ''/log'',
     rc_api = \<lparr>api_metrics_auth = False, api_listen = ''[::]:80'', api_tls = (None, None, None), api_tokens = [],
       api_synora_json_path = ''/a'', api_tunasync_json_path = ''/b'', api_status_format = ''synora''\<rparr>,
     rc_storages = Map.empty, rc_cgroup = None, rc_snapshot_retention = default_retention, rc_min_free_bytes = None,
     rc_notifications = \<lparr>webhook_url = Some ''http://hook'', alert_after_failures = 3\<rparr>, rc_jobs = jobs\<rparr>"

theorem reload_applies_witness:
  "\<exists>k e'. reload demo_eng_env (demo_config [demo_spec]) (Some (Some (demo_config []))) 1000 demo_engine = (Ok k, e')
     \<and> engine_job e' ''m'' = None"
proof -
  obtain f where f: "forget_job_current ''m'' demo_engine = (Ok (), f)"
    using forget_job_result [of demo_engine "''m''"] demo_valid(1) by (auto simp: job_name_ok_def contains_str_def)
  obtain k e' where r: "reload demo_eng_env (demo_config [demo_spec]) (Some (Some (demo_config []))) 1000 demo_engine = (Ok k, e')"
    by (simp add: reload_def reload_rejects_def demo_config_def f Let_def draw_id_def)
  have "reload_rejects (demo_config [demo_spec]) (demo_config []) = None" by (simp add: reload_rejects_def demo_config_def)
  with reload_applies [of "demo_config []" demo_eng_env "demo_config [demo_spec]" 1000 demo_engine] r
  have "engine_job e' ''m'' = None" by (simp add: demo_config_def)
  with r show ?thesis by blast
qed

text \<open>A failing mirror alerts once. With a webhook configured, the failures of a job after a success
  send exactly one alert, when their number reaches the threshold (at least one), however many
  follow; the next success sends a recovery notice exactly when that alert was sent, and restores
  the state before the failures. The streaks of other jobs are untouched.\<close>

lemma notify_once:
  assumes "webhook_url cfg \<noteq> None" and "streaks (opt_default [] job) = None"
  shows "\<exists>streaks'. notify_failures cfg job k streaks = (if max (alert_after_failures cfg) 1 \<le> k then [''sync_failed''] else [], streaks')
    \<and> notify cfg ''sync_success'' job streaks' = (if max (alert_after_failures cfg) 1 \<le> k then Some ''sync_recovered'' else None, streaks)
    \<and> (\<forall>j. j \<noteq> opt_default [] job \<longrightarrow> streaks' j = streaks j)"
  using notify_failures_from [OF assms(1), where job = job and k = k and m = 0 and streaks = streaks] assms
  by (auto simp: notify_def Let_def fun_upd_idem)

lemma notify_once_witness:
  "fst (notify_failures (rc_notifications (demo_config [])) (Some ''m'') 5 Map.empty) = [''sync_failed'']"
  using notify_once [of "rc_notifications (demo_config [])" Map.empty "Some ''m''" 5] by (auto simp: demo_config_def)

text \<open>Forgetting a job leaves no trace of it. A name that could leave the log directory (empty, \<open>.\<close>,
  or containing \<open>..\<close>, a slash, a backslash or NUL) is refused and nothing changes. Any other name is
  removed from the live jobs, the failure streaks, the counters, the tokens, the metrics and every
  table, and everything that belongs to other jobs stays.\<close>

lemma forget_job_complete:
  assumes "constraints (en_db e)"
  shows "(\<not> job_name_ok n \<longrightarrow> forget_job_current n e = (Err InvalidJobName, e))
    \<and> (job_name_ok n \<longrightarrow> (\<exists>e'. forget_job_current n e = (Ok (), e') \<and> constraints (en_db e')
        \<and> live_jobs e' = filter (\<lambda>j. name j \<noteq> n) (live_jobs e) \<and> failure_streak e' = (failure_streak e)(n := None)
        \<and> en_active e' = (en_active e)(n := None) \<and> run_tokens e' = (run_tokens e)(n := None)
        \<and> (\<forall>key. map_of (en_metrics e') key = (if has_label ''job'' n key then None else map_of (en_metrics e) key))
        \<and> t_runs (en_db e') = filter (\<lambda>r. r_job_id r \<noteq> n) (t_runs (en_db e))
        \<and> t_jobs (en_db e') = filter (\<lambda>j. jr_name j \<noteq> n) (t_jobs (en_db e))
        \<and> t_schedules (en_db e') = filter (\<lambda>s. sc_job_name s \<noteq> n) (t_schedules (en_db e))
        \<and> t_workers (en_db e') = t_workers (en_db e)))"
proof (cases "job_name_ok n")
  case True
  then show ?thesis using forget_job_result [OF assms True] by (auto simp: purged_def remove_job_def map_of_retain)
qed (simp add: forget_job_current_def)

theorem forget_job_complete_witness:
  "(\<exists>e'. forget_job_current ''m'' (demo_engine\<lparr>en_db := demo_active\<rparr>) = (Ok (), e') \<and> t_runs (en_db e') = [])
    \<and> forget_job_current ''../etc'' demo_engine = (Err InvalidJobName, demo_engine)"
  using forget_job_complete [of "demo_engine\<lparr>en_db := demo_active\<rparr>" "''m''"] forget_job_complete [of demo_engine "''../etc''"]
    demo_valid by (auto simp: job_name_ok_def contains_str_def demo_runs)

end
