(* ===== verification/Scheduler.thy ===== *)
theory Scheduler
  imports Dispatch
begin

text \<open>
  The scheduler of \<open>crates/engine/src/scheduler.rs\<close>: the boot pass over missed runs, the retry tick, the
  dispatch of due schedules and the execution of queued runs, as steps over the engine's state.

  The pass over the schedules reads the clock anew for every row: \<open>clk n\<close> is the time read for the
  job \<open>n\<close>, not earlier than the \<open>now\<close> of the tick. A pass is \<open>None\<close> when a call of \<open>next_after\<close> does not return or panics.
  The locale \<open>table_scan\<close> is the contract of such a pass over a snapshot of a keyed table whose rows the
  pass itself changes; it is interpreted on the boot pass and on the dispatch of due schedules.
\<close>

section \<open>Definitions\<close>

definition recompute_next :: "'tz engine_env \<Rightarrow> string \<Rightarrow> int \<Rightarrow> engine \<Rightarrow> engine option" where
  "recompute_next E n now e =
     (case get_schedule n (en_db e) of
        None \<Rightarrow> Some e
      | Some row \<Rightarrow>
          (case engine_job e n of
             None \<Rightarrow> Some e
           | Some job \<Rightarrow>
               (case tz_by_name E (sr_timezone row) of
                  None \<Rightarrow> Some e
                | Some tz \<Rightarrow>
                    (case next_after (tlib E) (schedule job) now tz
                            (map_option (\<lambda>a. if in_range (tlib E) a then a else now) (sr_anchor_at row)) of
                       None \<Rightarrow> None
                     | Some next \<Rightarrow> Some (next_run_gauge E n next (on_db_ignored (set_next_run n next None) e))))))"

text \<open>A loop over rows that were read before it started.\<close>

fun each_row :: "('k \<Rightarrow> 's \<Rightarrow> 's option) \<Rightarrow> 'k list \<Rightarrow> 's \<Rightarrow> 's option" where
  "each_row step [] s = Some s"
| "each_row step (k # ks) s = (case step k s of None \<Rightarrow> None | Some s1 \<Rightarrow> each_row step ks s1)"

definition boot_row :: "'tz engine_env \<Rightarrow> int \<Rightarrow> int \<Rightarrow> (string \<Rightarrow> int) \<Rightarrow> string \<times> ScheduleRow \<Rightarrow> engine \<Rightarrow> engine option" where
  "boot_row E boot now clk = (\<lambda>(n, row) e.
     case sr_next_run row of
       None \<Rightarrow> Some e
     | Some next_run \<Rightarrow>
         if now < next_run \<or> boot \<le> next_run then Some e
         else if sr_misfire_policy row = ''run-immediately''
         then recompute_next E n (clk n) (snd (dispatch_current E n False (clk n) e))
         else recompute_next E n (clk n) e)"

definition boot_pass :: "'tz engine_env \<Rightarrow> int \<Rightarrow> int \<Rightarrow> (string \<Rightarrow> int) \<Rightarrow> engine \<Rightarrow> engine option" where
  "boot_pass E boot now clk e = each_row (boot_row E boot now clk) (all_schedules (en_db e)) e"

definition due_row :: "'tz engine_env \<Rightarrow> int \<Rightarrow> (string \<Rightarrow> int) \<Rightarrow> string \<times> ScheduleRow \<Rightarrow> engine \<Rightarrow> engine option" where
  "due_row E now clk = (\<lambda>(n, row) e.
     case sr_next_run row of
       None \<Rightarrow> Some e
     | Some next_run \<Rightarrow>
         if now < next_run then Some e
         else recompute_next E n (clk n) (snd (dispatch_current E n False (clk n) e)))"

definition dispatch_due :: "'tz engine_env \<Rightarrow> int \<Rightarrow> (string \<Rightarrow> int) \<Rightarrow> engine \<Rightarrow> engine option" where
  "dispatch_due E now clk e = each_row (due_row E now clk) (all_schedules (en_db e)) e"

definition retry_row :: "int \<Rightarrow> RunRow \<Rightarrow> engine \<Rightarrow> engine" where
  "retry_row now run e =
     (if (case engine_job e (rr_job_id run) of None \<Rightarrow> False | Some j \<Rightarrow> \<not> enabled j)
      then on_db_ignored (finish_run (rr_id run) Cancelled (no_outcome (Some ''job disabled'')) now) e
      else if active_runs_of_job (rr_job_id run) (en_db e) \<noteq> [] then e
      else on_db_ignored (requeue_stmt (rr_id run) (rr_retry_count run) now) e)"

definition retry_tick :: "int \<Rightarrow> engine \<Rightarrow> engine" where
  "retry_tick now e = fold (retry_row now) (due_retries now (en_db e)) e"

text \<open>
  One queued run: \<open>Some\<close> when its execution was started. A permit that is not used is returned, and
  \<open>execute_run\<close> keeps the permit of a started run until it ends.
\<close>

definition execute_one :: "'tz engine_env \<Rightarrow> int \<Rightarrow> RunRow \<Rightarrow> engine \<Rightarrow> (string \<times> JobSpec) option \<times> engine" where
  "execute_one E now run e =
     (case engine_job e (rr_job_id run) of
        None \<Rightarrow> (None, on_db_ignored (finish_run (rr_id run) Failed (no_outcome (Some ''job removed from config'')) now) e)
      | Some job \<Rightarrow>
          if (case en_active e (rr_job_id run) of None \<Rightarrow> False | Some n \<Rightarrow> max_concurrency job \<le> n) then (None, e)
          else if en_permits e = 0 then (None, e)
          else
            (let (token, e1) = draw_id E e
             in case on_db (claim_run (rr_id run) LOCAL_WORKER token now) e1 of
                  (Inl _, e2) \<Rightarrow> (None, e2)
                | (Inr ok, e2) \<Rightarrow>
                    if \<not> ok then (None, e2)
                    else (Some (rr_id run, job), snd (active_inc (rr_job_id run) (e2\<lparr>en_permits := en_permits e2 - 1\<rparr>)))))"

fun execute_loop :: "'tz engine_env \<Rightarrow> int \<Rightarrow> RunRow list \<Rightarrow> engine \<Rightarrow> (string \<times> JobSpec) list \<times> engine" where
  "execute_loop E now [] e = ([], e)"
| "execute_loop E now (run # runs) e =
     (if en_shutdown e then ([], e)
      else
        (let (started, e1) = execute_one E now run e; (others, e2) = execute_loop E now runs e1
         in (case started of None \<Rightarrow> others | Some x \<Rightarrow> x # others, e2)))"

definition execute_queued :: "'tz engine_env \<Rightarrow> int \<Rightarrow> engine \<Rightarrow> (string \<times> JobSpec) list \<times> engine" where
  "execute_queued E now e =
     (let queued = queued_runs LOCAL_WORKER (en_db e);
          mine = (if planner E = None then queued else filter (\<lambda>r. rr_worker_id r = Some LOCAL_WORKER) queued)
      in execute_loop E now mine e)"

text \<open>One tick of the main loop, without the control directory.\<close>

definition tick :: "'tz engine_env \<Rightarrow> int \<Rightarrow> (string \<Rightarrow> int) \<Rightarrow> int \<Rightarrow> engine \<Rightarrow> ((string \<times> JobSpec) list \<times> engine) option" where
  "tick E now clk later e = map_option (execute_queued E later) (dispatch_due E now clk (retry_tick now e))"

section \<open>Passes over a snapshot of a table\<close>

text \<open>
  Rows are identified by a key. A step on a row that is still as it was read (\<open>pending\<close>) settles it; a
  step on another row keeps both.
\<close>

locale table_scan =
  fixes step :: "'k \<Rightarrow> 's \<Rightarrow> 's option" and key :: "'k \<Rightarrow> 'i"
    and pending :: "'k \<Rightarrow> 's \<Rightarrow> bool" and settled :: "'k \<Rightarrow> 's \<Rightarrow> bool" and inv :: "'s \<Rightarrow> bool"
  assumes step_inv: "inv s \<Longrightarrow> step k s = Some s' \<Longrightarrow> inv s'"
    and step_settles: "inv s \<Longrightarrow> pending k s \<Longrightarrow> step k s = Some s' \<Longrightarrow> settled k s'"
    and step_pending: "inv s \<Longrightarrow> key j \<noteq> key k \<Longrightarrow> pending j s \<Longrightarrow> step k s = Some s' \<Longrightarrow> pending j s'"
    and step_settled: "inv s \<Longrightarrow> key j \<noteq> key k \<Longrightarrow> settled j s \<Longrightarrow> step k s = Some s' \<Longrightarrow> settled j s'"
begin

lemma scan_keeps_settled:
  "inv s \<Longrightarrow> settled j s \<Longrightarrow> key j \<notin> key ` set ks \<Longrightarrow> each_row step ks s = Some s' \<Longrightarrow> settled j s' \<and> inv s'"
proof (induction ks arbitrary: s)
  case (Cons k ks)
  obtain s1 where s1: "step k s = Some s1" "each_row step ks s1 = Some s'"
    using Cons.prems(4) by (auto split: option.splits)
  have "settled j s1" using Cons.prems s1(1) step_settled [of s j k s1] by simp
  with Cons s1 step_inv [of s k s1] show ?case by simp
qed simp

lemma scan_settles:
  "inv s \<Longrightarrow> distinct (map key ks) \<Longrightarrow> (\<forall>k \<in> set ks. pending k s) \<Longrightarrow> each_row step ks s = Some s' \<Longrightarrow>
     inv s' \<and> (\<forall>k \<in> set ks. settled k s')"
proof (induction ks arbitrary: s)
  case (Cons k ks)
  obtain s1 where s1: "step k s = Some s1" "each_row step ks s1 = Some s'"
    using Cons.prems(4) by (auto split: option.splits)
  have i1: "inv s1" using step_inv Cons.prems(1) s1(1) by blast
  have "\<forall>j \<in> set ks. key j \<noteq> key k" using Cons.prems(2) by (auto simp: image_iff)
  then have "\<forall>j \<in> set ks. pending j s1" using step_pending [OF Cons.prems(1) _ _ s1(1)] Cons.prems(3) by simp
  with Cons.IH [OF i1] Cons.prems(2) s1(2) have rest: "inv s' \<and> (\<forall>j \<in> set ks. settled j s')" by simp
  have "settled k s1" using step_settles Cons.prems s1(1) by simp
  then have "settled k s'" using scan_keeps_settled [OF i1 _ _ s1(2)] Cons.prems(2) by simp
  with rest show ?case by simp
qed simp

lemma scan_returns:
  "(\<And>k s. inv s \<Longrightarrow> J s \<Longrightarrow> \<exists>s'. step k s = Some s' \<and> J s') \<Longrightarrow> inv s \<Longrightarrow> J s \<Longrightarrow> \<exists>s'. each_row step ks s = Some s'"
proof (induction ks arbitrary: s)
  case (Cons k ks)
  obtain s1 where "step k s = Some s1" "J s1" using Cons.prems by blast
  moreover from this Cons have "\<exists>s'. each_row step ks s1 = Some s'" using step_inv by metis
  ultimately show ?case by simp
qed simp

end

section \<open>What an engine step leaves alone\<close>

definition same_schedules :: "db \<Rightarrow> db \<Rightarrow> bool" where
  "same_schedules d d' \<longleftrightarrow> t_schedules d' = t_schedules d \<and> t_workers d' = t_workers d"

interpretation scheds_alone: stmt_preorder same_schedules
  by unfold_locales (auto simp: same_schedules_def)

lemma basic_stmts_schedules [inv_intros]:
  "preserves same_schedules (update_runs p f)" "preserves same_schedules (update_jobs q g)"
  "preserves same_schedules (insert_event ev j r l m now)" "preserves same_schedules (create_run_stmt i job w s prio now)"
  by (auto simp: preserves_def same_schedules_def update_runs_def update_jobs_def insert_event_def create_run_stmt_def
      insert_run_def commit_def split: option.split)

lemma job_status_schedules [inv_intros]:
  "preserves same_schedules (set_job_status job s)" "preserves same_schedules (set_job_status_for_run i)"
  unfolding set_job_status_def set_job_status_for_run_def by (intro scheds_alone.keeps inv_intros)+

lemma run_ops_schedules [inv_intros]:
  "preserves same_schedules (create_run i job w s prio now)" "preserves same_schedules (finish_run i s c now)"
  "preserves same_schedules (requeue_stmt i n now)"
  unfolding create_run_def finish_run_def finish_stmt_def requeue_stmt_def by (intro scheds_alone.keeps inv_intros)+

lemma ops_schedules [simp]:
  "t_schedules (snd (create_run i job w s prio now d)) = t_schedules d"
  "t_schedules (snd (finish_run i s c now d)) = t_schedules d"
  "t_schedules (snd (insert_event ev j r l m now d)) = t_schedules d"
  "t_workers (snd (create_run i job w s prio now d)) = t_workers d"
  "t_workers (snd (finish_run i s c now d)) = t_workers d"
  "t_workers (snd (insert_event ev j r l m now d)) = t_workers d"
  using run_ops_schedules basic_stmts_schedules(3) by (auto simp: preserves_def same_schedules_def)

lemma ops_constraints [simp]:
  assumes "constraints d"
  shows "constraints (snd (create_run i job w s prio now d))" "constraints (snd (finish_run i s c now d))"
    "constraints (snd (insert_event ev j r l m now d))"
  using assms run_ops_valid insert_event_valid by (auto simp: preserves_def stays_valid_def)

lemma skip_run_frame:
  "live_jobs (snd (skip_run E n dep now e)) = live_jobs e"
  "t_schedules (en_db (snd (skip_run E n dep now e))) = t_schedules (en_db e)"
  "t_workers (en_db (snd (skip_run E n dep now e))) = t_workers (en_db e)"
  "en_ids e \<le> en_ids (snd (skip_run E n dep now e))"
  "constraints (en_db e) \<Longrightarrow> constraints (en_db (snd (skip_run E n dep now e)))"
  by (simp_all add: skip_run_def draw_id_def Let_def)

lemma queue_run_frame:
  "live_jobs (snd (queue_run E job f now e)) = live_jobs e
    \<and> t_schedules (en_db (snd (queue_run E job f now e))) = t_schedules (en_db e)
    \<and> t_workers (en_db (snd (queue_run E job f now e))) = t_workers (en_db e)
    \<and> en_ids e \<le> en_ids (snd (queue_run E job f now e))
    \<and> (constraints (en_db e) \<longrightarrow> constraints (en_db (snd (queue_run E job f now e))))"
proof (cases "inflight_runs_of_job (name job) (en_db e)")
  case Nil
  let ?m = "create_run (run_id E (en_ids e)) (name job) (planned_worker E job) Queued (if f then 1 else 0) now"
  obtain r d' where c: "?m (en_db e) = (r, d')" by (cases "?m (en_db e)")
  from c have d': "t_schedules d' = t_schedules (en_db e)" "t_workers d' = t_workers (en_db e)" "constraints (en_db e) \<Longrightarrow> constraints d'"
    using ops_schedules(1,4) ops_constraints(1) by (metis snd_conv)+
  show ?thesis using Nil d' by (cases r) (simp_all add: queue_run_def draw_id_def on_db_def c)
qed (simp add: queue_run_def)

lemmas queue_run_frames = queue_run_frame [THEN conjunct1] queue_run_frame [THEN conjunct2, THEN conjunct1]
  queue_run_frame [THEN conjunct2, THEN conjunct2, THEN conjunct1]
  queue_run_frame [THEN conjunct2, THEN conjunct2, THEN conjunct2, THEN conjunct1]
  queue_run_frame [THEN conjunct2, THEN conjunct2, THEN conjunct2, THEN conjunct2, rule_format]

lemma dispatch_frame:
  "live_jobs (snd (dispatch_current E n f now e)) = live_jobs e"
  "t_schedules (en_db (snd (dispatch_current E n f now e))) = t_schedules (en_db e)"
  "t_workers (en_db (snd (dispatch_current E n f now e))) = t_workers (en_db e)"
  "en_ids e \<le> en_ids (snd (dispatch_current E n f now e))"
  "constraints (en_db e) \<Longrightarrow> constraints (en_db (snd (dispatch_current E n f now e)))"
  by (auto simp: dispatch_current_def skip_run_frame queue_run_frames split: option.split)

section \<open>Recomputing the due time\<close>

lemma find_update_where:
  "(\<And>x. q (f x) \<longleftrightarrow> q x) \<Longrightarrow> find q (update_where p f xs) = map_option (\<lambda>x. if p x then f x else x) (find q xs)"
  by (induction xs) (auto simp: update_where_def)

lemma set_next_run_total:
  assumes "constraints d"
  shows "\<exists>ss. snd (set_next_run n nxt None d) = d\<lparr>t_schedules := ss\<rparr> \<and> constraints (d\<lparr>t_schedules := ss\<rparr>)
    \<and> (\<forall>m. get_schedule m (d\<lparr>t_schedules := ss\<rparr>) =
           (if m = n then map_option (\<lambda>row. row\<lparr>sr_next_run := nxt\<rparr>) (get_schedule m d) else get_schedule m d))"
proof -
  define ss where "ss = update_where (\<lambda>s. sc_job_name s = n) (\<lambda>s. s\<lparr>sc_next_run := nxt\<rparr>) (t_schedules d)"
  have names: "map sc_job_name ss = map sc_job_name (t_schedules d)" unfolding ss_def by (rule map_update_where) simp
  have all: "list_all (\<lambda>s. sc_job_name s \<in> A) xs \<longleftrightarrow> set (map sc_job_name xs) \<subseteq> A" for A xs
    by (auto simp: list_all_iff)
  have c: "constraints (d\<lparr>t_schedules := ss\<rparr>)"
    using assms unfolding constraints_def all by (simp add: names job_names_def worker_ids_def active_runs_def del: set_map
        cong: option.case_cong)
  then have "snd (set_next_run n nxt None d) = d\<lparr>t_schedules := ss\<rparr>"
    by (simp add: set_next_run_def seq_def update_schedules_def commit_def ret_def ss_def)
  moreover have "find (\<lambda>s. sc_job_name s = m) ss =
      map_option (\<lambda>s. if sc_job_name s = n then s\<lparr>sc_next_run := nxt\<rparr> else s) (find (\<lambda>s. sc_job_name s = m) (t_schedules d))" for m
    unfolding ss_def by (rule find_update_where) simp
  then have "get_schedule m (d\<lparr>t_schedules := ss\<rparr>) =
      (if m = n then map_option (\<lambda>row. row\<lparr>sr_next_run := nxt\<rparr>) (get_schedule m d) else get_schedule m d)" for m
    by (cases "find (\<lambda>s. sc_job_name s = m) (t_schedules d)")
       (auto simp: get_schedule_def schedule_row_def dest: find_SomeD)
  ultimately show ?thesis using c by blast
qed

text \<open>A row is settled when its job is not live, its zone is unknown, or its due time satisfies \<open>ok\<close>.\<close>

definition row_settled :: "'tz engine_env \<Rightarrow> JobSpec list \<Rightarrow> (string \<Rightarrow> int \<Rightarrow> bool) \<Rightarrow> string \<times> ScheduleRow \<Rightarrow> engine \<Rightarrow> bool" where
  "row_settled E jobs ok = (\<lambda>(n, row) e. \<exists>nxt. get_schedule n (en_db e) = Some (row\<lparr>sr_next_run := nxt\<rparr>)
     \<and> (find (\<lambda>j. name j = n) jobs \<noteq> None \<and> tz_by_name E (sr_timezone row) \<noteq> None \<longrightarrow>
          (case nxt of None \<Rightarrow> True | Some t \<Rightarrow> ok n t)))"

definition row_pending :: "string \<times> ScheduleRow \<Rightarrow> engine \<Rightarrow> bool" where
  "row_pending = (\<lambda>(n, row) e. get_schedule n (en_db e) = Some row)"

definition engine_ok :: "JobSpec list \<Rightarrow> engine \<Rightarrow> bool" where
  "engine_ok jobs e \<longleftrightarrow> constraints (en_db e) \<and> live_jobs e = jobs"

lemma recompute_next_effect:
  assumes "engine_ok jobs e" and "recompute_next E n now e = Some e'"
  shows "engine_ok jobs e' \<and> t_runs (en_db e') = t_runs (en_db e) \<and> t_workers (en_db e') = t_workers (en_db e) \<and> en_ids e' = en_ids e
    \<and> (\<forall>m. m \<noteq> n \<longrightarrow> get_schedule m (en_db e') = get_schedule m (en_db e))
    \<and> (\<forall>row. get_schedule n (en_db e) = Some row \<longrightarrow> row_settled E jobs (\<lambda>_ t. now < t) (n, row) e')"
proof (cases "e' = e \<and> (get_schedule n (en_db e) = None \<or> engine_job e n = None
    \<or> (\<exists>row. get_schedule n (en_db e) = Some row \<and> tz_by_name E (sr_timezone row) = None))")
  case True
  have "row_settled E jobs (\<lambda>_ t. now < t) (n, row) e" if "get_schedule n (en_db e) = Some row" for row
    using True assms(1) that unfolding row_settled_def
    by (auto simp: engine_ok_def engine_job_def intro!: exI [of _ "sr_next_run row"])
  with True assms(1) show ?thesis by blast
next
  case False
  then obtain row job tz nxt where r: "get_schedule n (en_db e) = Some row" "engine_job e n = Some job"
    "tz_by_name E (sr_timezone row) = Some tz"
    and nx: "next_after (tlib E) (schedule job) now tz (map_option (\<lambda>a. if in_range (tlib E) a then a else now) (sr_anchor_at row)) = Some nxt"
    and e': "e' = next_run_gauge E n nxt (on_db_ignored (set_next_run n nxt None) e)"
    using assms(2) by (auto simp: recompute_next_def split: option.splits)
  obtain ss where ss: "snd (set_next_run n nxt None (en_db e)) = (en_db e)\<lparr>t_schedules := ss\<rparr>" "constraints ((en_db e)\<lparr>t_schedules := ss\<rparr>)"
    "\<forall>m. get_schedule m ((en_db e)\<lparr>t_schedules := ss\<rparr>) =
       (if m = n then map_option (\<lambda>row. row\<lparr>sr_next_run := nxt\<rparr>) (get_schedule m (en_db e)) else get_schedule m (en_db e))"
    using set_next_run_total [of "en_db e" n nxt] assms(1) unfolding engine_ok_def by blast
  have db: "en_db e' = (en_db e)\<lparr>t_schedules := ss\<rparr>" "live_jobs e' = live_jobs e" "en_ids e' = en_ids e"
    using ss(1) by (simp_all add: e' next_run_gauge_def on_metrics_def)
  have "case nxt of None \<Rightarrow> True | Some t \<Rightarrow> now < t" using nx next_after_future_aux by (auto split: option.split)
  then show ?thesis using assms(1) ss r by (auto simp: engine_ok_def db row_settled_def)
qed

lemma engine_ok_dispatch: "engine_ok jobs e \<Longrightarrow> engine_ok jobs (snd (dispatch_current E n f now e))"
  by (simp add: engine_ok_def dispatch_frame)

lemma get_schedule_dispatch: "get_schedule m (en_db (snd (dispatch_current E n f now e))) = get_schedule m (en_db e)"
  by (simp add: get_schedule_def dispatch_frame)

text \<open>Both passes do one of three things to a row.\<close>

inductive row_step :: "'tz engine_env \<Rightarrow> int \<Rightarrow> string \<Rightarrow> engine \<Rightarrow> engine \<Rightarrow> bool" for E now n where
  stay: "row_step E now n e e"
| skip: "recompute_next E n now e = Some e' \<Longrightarrow> row_step E now n e e'"
| fire: "recompute_next E n now (snd (dispatch_current E n False now e)) = Some e' \<Longrightarrow> row_step E now n e e'"

lemma row_step_frame:
  assumes "row_step E now n e e'" and "engine_ok jobs e"
  shows "engine_ok jobs e' \<and> (\<forall>m. m \<noteq> n \<longrightarrow> get_schedule m (en_db e') = get_schedule m (en_db e))"
  using assms
proof cases
  case fire
  from recompute_next_effect [OF engine_ok_dispatch [OF assms(2)] this] show ?thesis by (simp add: get_schedule_dispatch)
next
  case skip
  from recompute_next_effect [OF assms(2) this] show ?thesis by simp
qed (simp add: assms(2))

lemma due_row_step: "due_row E now clk k e = Some e' \<Longrightarrow> row_step E (clk (fst k)) (fst k) e e'"
  by (auto simp: due_row_def row_step.simps split: prod.splits option.splits if_splits)

lemma boot_row_step: "boot_row E boot now clk k e = Some e' \<Longrightarrow> row_step E (clk (fst k)) (fst k) e e'"
  by (auto simp: boot_row_def row_step.simps split: prod.splits option.splits if_splits)

lemma row_settled_weaken:
  "row_settled E jobs ok k e \<Longrightarrow> (\<And>t. ok (fst k) t \<Longrightarrow> ok' (fst k) t) \<Longrightarrow> row_settled E jobs ok' k e"
  unfolding row_settled_def by (cases k) (fastforce split: option.splits)

lemma recompute_settles:
  assumes "engine_ok jobs e" and "row_pending k e"
  shows "recompute_next E (fst k) now e = Some e' \<Longrightarrow> row_settled E jobs (\<lambda>_ t. now < t) k e'"
    and "recompute_next E (fst k) now (snd (dispatch_current E (fst k) False now e)) = Some e' \<Longrightarrow>
           row_settled E jobs (\<lambda>_ t. now < t) k e'"
proof -
  have p: "get_schedule (fst k) (en_db e) = Some (snd k)" using assms(2) by (simp add: row_pending_def split: prod.splits)
  show "recompute_next E (fst k) now e = Some e' \<Longrightarrow> row_settled E jobs (\<lambda>_ t. now < t) k e'"
    using recompute_next_effect [OF assms(1)] p by (metis prod.collapse)
  show "row_settled E jobs (\<lambda>_ t. now < t) k e'"
    if "recompute_next E (fst k) now (snd (dispatch_current E (fst k) False now e)) = Some e'"
    using recompute_next_effect [OF engine_ok_dispatch [OF assms(1)] that] p by (simp add: get_schedule_dispatch)
qed

interpretation due: table_scan "due_row E now clk" fst row_pending
  "row_settled E jobs (\<lambda>n t. now \<le> clk n \<longrightarrow> now < t)" "engine_ok jobs" for E now clk jobs
proof
  fix k :: "string \<times> ScheduleRow" and s s'
  assume s: "engine_ok jobs s" "row_pending k s" "due_row E now clk k s = Some s'"
  obtain n row where k: "k = (n, row)" by (cases k)
  show "row_settled E jobs (\<lambda>n t. now \<le> clk n \<longrightarrow> now < t) k s'"
  proof (cases "case sr_next_run row of None \<Rightarrow> True | Some t \<Rightarrow> now < t")
    case True
    then have "s' = s" using s(3) by (auto simp: due_row_def k split: option.splits)
    then show ?thesis using True s(2) by (auto simp: row_settled_def row_pending_def k intro!: exI [of _ "sr_next_run row"] split: option.splits)
  next
    case False
    then have "recompute_next E n (clk n) (snd (dispatch_current E n False (clk n) s)) = Some s'"
      using s(3) by (auto simp: due_row_def k split: option.splits)
    with recompute_settles(2) [OF s(1,2)] have "row_settled E jobs (\<lambda>_ t. clk n < t) k s'" by (simp add: k)
    then show ?thesis by (rule row_settled_weaken) (simp add: k)
  qed
qed (auto dest!: due_row_step row_step_frame simp: row_pending_def row_settled_def)

interpretation boot: table_scan "boot_row E boot now clk" fst row_pending
  "row_settled E jobs (\<lambda>n t. now \<le> clk n \<longrightarrow> now < t \<or> boot \<le> t)" "engine_ok jobs" for E boot now clk jobs
proof
  fix k :: "string \<times> ScheduleRow" and s s'
  assume s: "engine_ok jobs s" "row_pending k s" "boot_row E boot now clk k s = Some s'"
  obtain n row where k: "k = (n, row)" by (cases k)
  show "row_settled E jobs (\<lambda>n t. now \<le> clk n \<longrightarrow> now < t \<or> boot \<le> t) k s'"
  proof (cases "case sr_next_run row of None \<Rightarrow> True | Some t \<Rightarrow> now < t \<or> boot \<le> t")
    case True
    then have "s' = s" using s(3) by (auto simp: boot_row_def k split: option.splits)
    then show ?thesis using True s(2) by (auto simp: row_settled_def row_pending_def k intro!: exI [of _ "sr_next_run row"] split: option.splits)
  next
    case False
    then have "recompute_next E n (clk n) (snd (dispatch_current E n False (clk n) s)) = Some s' \<or> recompute_next E n (clk n) s = Some s'"
      using s(3) by (auto simp: boot_row_def k split: option.splits if_splits)
    with recompute_settles [OF s(1,2)] have "row_settled E jobs (\<lambda>_ t. clk n < t) k s'" by (auto simp: k)
    then show ?thesis by (rule row_settled_weaken) (simp add: k)
  qed
qed (auto dest!: boot_row_step row_step_frame simp: row_pending_def row_settled_def)

lemma boot_pass_skips:
  assumes "engine_ok jobs e" and "\<forall>k \<in> set ks. sr_misfire_policy (snd k) \<noteq> ''run-immediately''"
    and "each_row (boot_row E boot now clk) ks e = Some e'"
  shows "t_runs (en_db e') = t_runs (en_db e)"
  using assms
proof (induction ks arbitrary: e)
  case (Cons k ks)
  obtain e1 where e1: "boot_row E boot now clk k e = Some e1" "each_row (boot_row E boot now clk) ks e1 = Some e'"
    using Cons.prems(3) by (auto split: option.splits)
  then have "e1 = e \<or> recompute_next E (fst k) (clk (fst k)) e = Some e1"
    using Cons.prems(2) by (auto simp: boot_row_def split: prod.splits option.splits if_splits)
  with recompute_next_effect [OF Cons.prems(1)] have "t_runs (en_db e1) = t_runs (en_db e)" by auto
  moreover have "engine_ok jobs e1" using row_step_frame [OF boot_row_step [OF e1(1)] Cons.prems(1)] by blast
  ultimately show ?case using Cons.IH e1(2) Cons.prems(2) by simp
qed simp

lemma all_schedules_rows:
  assumes "constraints d"
  shows "distinct (map fst (all_schedules d))"
    and "(n, row) \<in> set (all_schedules d) \<longleftrightarrow> get_schedule n d = Some row"
proof -
  have dist: "distinct (map sc_job_name (t_schedules d))" using assms by (simp add: constraints_def)
  then show "distinct (map fst (all_schedules d))" by (simp add: all_schedules_def comp_def)
  have "map_option schedule_row (find (\<lambda>s. sc_job_name s = n) ss) = map_of (map (\<lambda>s. (sc_job_name s, schedule_row s)) ss) n" for ss
    by (induction ss) auto
  then have "get_schedule n d = map_of (all_schedules d) n" by (simp add: get_schedule_def all_schedules_def)
  with \<open>distinct (map fst (all_schedules d))\<close> show "(n, row) \<in> set (all_schedules d) \<longleftrightarrow> get_schedule n d = Some row"
    by (metis map_of_eq_Some_iff)
qed

section \<open>Passes return\<close>

text \<open>
  What \<open>interval_next\<close> needs to return: the time library's instants are an interval far from the bounds of
  a 64-bit integer (the crate stays within the year 9999), every interval is at least a second, and
  neither the clock nor an anchor is within one interval of the end of that range.
\<close>

definition times_bounded :: "'tz engine_env \<Rightarrow> bool" where
  "times_bounded E \<longleftrightarrow> (\<exists>lo hi. - (2 ^ 61) \<le> lo \<and> hi \<le> 2 ^ 61 \<and> (\<forall>t. in_range (tlib E) t \<longleftrightarrow> lo \<le> t \<and> t \<le> hi))"

definition intervals_fit :: "'tz engine_env \<Rightarrow> (string \<Rightarrow> int) \<Rightarrow> engine \<Rightarrow> bool" where
  "intervals_fit E clk e \<longleftrightarrow> (\<forall>n job ev. engine_job e n = Some job \<longrightarrow> sched_kind (schedule job) = Interval ev \<longrightarrow>
     1 \<le> ev \<and> in_range (tlib E) (clk n + ev)
     \<and> (\<forall>row a. get_schedule n (en_db e) = Some row \<longrightarrow> sr_anchor_at row = Some a \<longrightarrow> in_range (tlib E) a \<longrightarrow> in_range (tlib E) (a + ev)))"

lemma interval_next_returns:
  assumes "times_bounded E" and "1 \<le> ev" and "in_range (tlib E) now" and "in_range (tlib E) (now + ev)"
    and "in_range (tlib E) anchor" and "in_range (tlib E) (anchor + ev)"
  shows "interval_next (tlib E) anchor ev now \<noteq> None"
proof -
  obtain lo hi where r: "- (2 ^ 61) \<le> lo" "hi \<le> 2 ^ 61" "\<And>t. in_range (tlib E) t \<longleftrightarrow> lo \<le> t \<and> t \<le> hi"
    using assms(1) unfolding times_bounded_def by blast
  from assms(3-6) have "lo \<le> now" "now + ev \<le> hi" "lo \<le> anchor" "anchor \<le> hi" unfolding r(3) by auto
  then have "now - anchor + ev < 2 ^ 63" "ev < 2 ^ 63" using r(1,2) by auto
  then obtain x where x: "interval_next (tlib E) anchor ev now = (if in_range (tlib E) x then Some x else None)"
    "anchor \<le> now \<Longrightarrow> now < x \<and> x \<le> now + ev" "now < anchor \<Longrightarrow> x = anchor + ev"
    using interval_next_grid [OF assms(2), of now anchor "tlib E"] by blast
  have "in_range (tlib E) x"
  proof (cases "anchor \<le> now")
    case True
    then show ?thesis using x(2) assms(3,4) unfolding r(3) by auto
  next
    case False
    then show ?thesis using x(3) assms(6) by simp
  qed
  then show ?thesis using x(1) by simp
qed

lemma recompute_next_returns:
  assumes "times_bounded E" and "intervals_fit E clk e" and "in_range (tlib E) (clk n)"
  shows "recompute_next E n (clk n) e \<noteq> None"
proof -
  have "next_after (tlib E) (schedule job) (clk n) tz (map_option (\<lambda>a. if in_range (tlib E) a then a else clk n) (sr_anchor_at row)) \<noteq> None"
    if "engine_job e n = Some job" "get_schedule n (en_db e) = Some row" for job tz row
  proof (cases "sched_kind (schedule job)")
    case (Interval ev)
    then have ev: "1 \<le> ev" "in_range (tlib E) (clk n + ev)"
      "\<And>a. sr_anchor_at row = Some a \<Longrightarrow> in_range (tlib E) a \<Longrightarrow> in_range (tlib E) (a + ev)"
      using assms(2) that unfolding intervals_fit_def by blast+
    have "interval_next (tlib E) a ev (clk n) \<noteq> None"
      if "a = opt_default (clk n) (map_option (\<lambda>a. if in_range (tlib E) a then a else clk n) (sr_anchor_at row))" for a
      using interval_next_returns [OF assms(1) ev(1) assms(3) ev(2), of a] that assms(3) ev(2,3)
      by (cases "sr_anchor_at row") (auto split: if_splits)
    then show ?thesis by (simp add: next_after_def Interval)
  qed (simp_all add: next_after_def)
  then show ?thesis by (auto simp: recompute_next_def simp del: not_None_eq split: option.split)
qed

lemma intervals_fit_cong:
  assumes "intervals_fit E clk e" and "live_jobs e' = live_jobs e"
    and "\<And>n. map_option sr_anchor_at (get_schedule n (en_db e')) = map_option sr_anchor_at (get_schedule n (en_db e))"
  shows "intervals_fit E clk e'"
proof -
  have "\<exists>row0. get_schedule n (en_db e) = Some row0 \<and> sr_anchor_at row0 = sr_anchor_at row"
    if "get_schedule n (en_db e') = Some row" for n row
    using assms(3) [of n] that by (cases "get_schedule n (en_db e)") auto
  then show ?thesis using assms(1,2) unfolding intervals_fit_def engine_job_def by metis
qed

lemma row_step_fits:
  assumes "row_step E now n e e'" and "engine_ok jobs e" and "intervals_fit E clk e"
  shows "intervals_fit E clk e'"
proof (rule intervals_fit_cong [OF assms(3)])
  note frame = row_step_frame [OF assms(1,2)]
  show "live_jobs e' = live_jobs e" using frame assms(2) by (simp add: engine_ok_def)
  show "map_option sr_anchor_at (get_schedule m (en_db e')) = map_option sr_anchor_at (get_schedule m (en_db e))" for m
  proof (cases "m = n")
    case True
    have "map_option sr_anchor_at (get_schedule n (en_db e2)) = map_option sr_anchor_at (get_schedule n (en_db e1))"
      if "engine_ok jobs e1" "recompute_next E n now e1 = Some e2" for e1 e2
    proof (cases "get_schedule n (en_db e1)")
      case None
      then show ?thesis using that(2) by (simp add: recompute_next_def)
    next
      case (Some row)
      then have "row_settled E jobs (\<lambda>_ t. now < t) (n, row) e2" using recompute_next_effect [OF that] by blast
      then show ?thesis using Some by (auto simp: row_settled_def)
    qed
    note anchors = this
    from assms(1) show ?thesis
    proof cases
      case fire
      from anchors [OF engine_ok_dispatch [OF assms(2)] fire] show ?thesis by (simp add: True get_schedule_dispatch)
    qed (use anchors [OF assms(2)] True in auto)
  qed (use frame in simp)
qed

lemma rows_return:
  assumes "times_bounded E" and "\<forall>n. in_range (tlib E) (clk n)" and "engine_ok jobs e" and "intervals_fit E clk e"
  shows "\<exists>e'. due_row E now clk k e = Some e' \<and> intervals_fit E clk e'"
    and "\<exists>e'. boot_row E boot now clk k e = Some e' \<and> intervals_fit E clk e'"
proof -
  have fits: "intervals_fit E clk (snd (dispatch_current E n f t e))" for n f t
    by (rule intervals_fit_cong [OF assms(4)]) (simp_all add: dispatch_frame get_schedule_dispatch)
  have ret: "\<exists>e'. recompute_next E n (clk n) f = Some e'" if "intervals_fit E clk f" for n f
    using recompute_next_returns [OF assms(1) that, of n] assms(2) by simp
  have "due_row E now clk k e \<noteq> None" "boot_row E boot now clk k e \<noteq> None"
    using ret [OF assms(4)] ret [OF fits] by (auto simp: due_row_def boot_row_def split: prod.splits option.splits)
  then show "\<exists>e'. due_row E now clk k e = Some e' \<and> intervals_fit E clk e'"
    "\<exists>e'. boot_row E boot now clk k e = Some e' \<and> intervals_fit E clk e'"
    using row_step_fits [OF due_row_step assms(3,4)] row_step_fits [OF boot_row_step assms(3,4)] by blast+
qed

section \<open>Due schedules fire\<close>

text \<open>The run ids still to be drawn are new: what the source relies on its UUIDs for.\<close>

definition ids_fresh :: "'tz engine_env \<Rightarrow> engine \<Rightarrow> bool" where
  "ids_fresh E e \<longleftrightarrow> inj (run_id E) \<and> (\<forall>n \<ge> en_ids e. find_run (en_db e) (run_id E n) = None)"

text \<open>Jobs that the pass is to run: due, live, enabled, not held, with a registered worker if one is planned.\<close>

definition due_now :: "db \<Rightarrow> int \<Rightarrow> string \<Rightarrow> bool" where
  "due_now d now n \<longleftrightarrow> (\<exists>row t. get_schedule n d = Some row \<and> sr_next_run row = Some t \<and> t \<le> now)"

definition to_fire :: "'tz engine_env \<Rightarrow> engine \<Rightarrow> string \<Rightarrow> JobSpec \<Rightarrow> bool" where
  "to_fire E e n job \<longleftrightarrow> engine_job e n = Some job \<and> enabled job \<and> \<not> held_after_loss (en_db e) job
     \<and> (case planned_worker E job of None \<Rightarrow> True | Some w \<Rightarrow> w \<in> set (worker_ids (en_db e)))"

lemma run_history_append:
  "t_runs d' = t_runs d @ [x] \<Longrightarrow> r_job_id x \<noteq> n \<Longrightarrow> run_history n k d' = run_history n k d"
  by (simp add: run_history_def runs_where_def)

lemma dispatch_fires:
  assumes "constraints (en_db e)" and "ids_fresh E e" and "dispatch_current E n False now e = (res, e')"
  shows "(t_runs (en_db e') = t_runs (en_db e)
       \<or> (\<exists>x. t_runs (en_db e') = t_runs (en_db e) @ [x] \<and> r_id x = run_id E (en_ids e) \<and> en_ids e < en_ids e'
            \<and> r_job_id x = n \<and> r_status x \<in> {Queued, Skipped}))"
    and "to_fire E e n job \<Longrightarrow> n \<in> set (job_names (en_db e)) \<Longrightarrow>
       (\<exists>r \<in> set (t_runs (en_db e')). r_job_id r = n \<and> inflight (r_status r))
       \<or> (\<exists>dep \<in> set (depends_on job). \<not> dep_ok (en_db e) dep)
         \<and> (\<exists>x. t_runs (en_db e') = t_runs (en_db e) @ [x] \<and> r_job_id x = n \<and> r_status x = Skipped)"
proof -
  have fresh: "\<forall>r \<in> set (t_runs (en_db e)). r_id r \<noteq> run_id E (en_ids e)"
    using assms(2) by (auto simp: ids_fresh_def find_run_None)
  note defs = dispatch_current_def held_after_loss_def
  have jn: "name job = n" if "engine_job e n = Some job" for job
    using find_SomeD that unfolding engine_job_def by fastforce
  have ids: "en_ids e < en_ids e'" if "t_runs (en_db e') \<noteq> t_runs (en_db e)"
  proof -
    have "snd (queue_run E job False now e) = e \<or> en_ids e < en_ids (snd (queue_run E job False now e))" for job
      by (cases "inflight_runs_of_job (name job) (en_db e)")
         (auto simp: queue_run_def draw_id_def on_db_def split: prod.splits sum.splits)
    moreover have "en_ids e < en_ids (snd (skip_run E n dep now e))" for dep
      by (simp add: skip_run_def draw_id_def Let_def)
    ultimately have "e' = e \<or> en_ids e < en_ids e'"
      using assms(3) unfolding dispatch_current_def by (auto split: option.splits if_splits) (metis snd_conv)+
    with that show ?thesis by auto
  qed
  show "(t_runs (en_db e') = t_runs (en_db e)
       \<or> (\<exists>x. t_runs (en_db e') = t_runs (en_db e) @ [x] \<and> r_id x = run_id E (en_ids e) \<and> en_ids e < en_ids e'
            \<and> r_job_id x = n \<and> r_status x \<in> {Queued, Skipped}))"
  proof (cases "engine_job e n")
    case None
    then show ?thesis using assms(3) by (simp add: dispatch_current_def)
  next
    case (Some job)
    consider "e' = e" | dep where "skip_run E n dep now e = (res, e')" | "queue_run E job False now e = (res, e')"
      using assms(3) Some by (auto simp: dispatch_current_def split: if_splits option.splits)
    then show ?thesis
    proof cases
      case 2
      from skip_run_effect [OF assms(1) 2 fresh] ids show ?thesis by auto
    next
      case 3
      show ?thesis
      proof (cases "\<exists>r \<in> set (t_runs (en_db e)). r_job_id r = name job \<and> inflight (r_status r)")
        case True
        from queue_run_existing [OF this, of E False now] 3 show ?thesis by auto
      next
        case False
        then have "\<forall>r \<in> set (t_runs (en_db e)). r_job_id r = name job \<longrightarrow> \<not> inflight (r_status r)" by blast
        from queue_run_new [OF assms(1) this 3] ids jn [OF Some] show ?thesis by auto
      qed
    qed simp
  qed
  show "(\<exists>r \<in> set (t_runs (en_db e')). r_job_id r = n \<and> inflight (r_status r))
       \<or> (\<exists>dep \<in> set (depends_on job). \<not> dep_ok (en_db e) dep)
         \<and> (\<exists>x. t_runs (en_db e') = t_runs (en_db e) @ [x] \<and> r_job_id x = n \<and> r_status x = Skipped)"
    if fire: "to_fire E e n job" and db: "n \<in> set (job_names (en_db e))"
  proof -
    have job: "engine_job e n = Some job" "enabled job" "\<not> held_after_loss (en_db e) job" "name job = n"
      using fire jn by (auto simp: to_fire_def)
    obtain g where g: "job_generation (en_db e) n = Some g"
      using db by (auto simp: job_generation_def job_names_def find_None_iff image_iff simp del: not_None_eq)
        (metis (mono_tags, lifting) find_None_iff option.exhaust)
    show ?thesis
    proof (cases "find (\<lambda>dep. \<not> dep_ok (en_db e) dep) (depends_on job)")
      case None
      then have q: "queue_run E job False now e = (res, e')" using assms(3) job by (simp add: dispatch_current_def)
      show ?thesis
      proof (cases "\<exists>r \<in> set (t_runs (en_db e)). r_job_id r = name job \<and> inflight (r_status r)")
        case True
        from queue_run_existing [OF this, of E False now] q job(4) show ?thesis by auto
      next
        case False
        then have no: "\<forall>r \<in> set (t_runs (en_db e)). r_job_id r = name job \<longrightarrow> \<not> inflight (r_status r)" by blast
        have "\<exists>d'. create_run (run_id E (en_ids e)) n (planned_worker E job) Queued 0 now (en_db e) = (Ok (), d')"
          using create_run_fresh [OF assms(1) g fresh] fire by (simp add: to_fire_def)
        then have "res = Ok (run_id E (en_ids e))"
          using q no inflight_runs_empty [of "name job" "en_db e"] job(4) by (auto simp: queue_run_def draw_id_def on_db_def)
        with queue_run_new [OF assms(1) no q] job(4) show ?thesis by auto
      qed
    next
      case (Some dep)
      then have d: "dep \<in> set (depends_on job)" "\<not> dep_ok (en_db e) dep" using find_SomeD by fastforce+
      from Some have s: "skip_run E n dep now e = (res, e')" using assms(3) job by (simp add: dispatch_current_def)
      from skip_run_fresh [OF assms(1) s fresh g] d show ?thesis by blast
    qed
  qed
qed

definition row_due :: "int \<Rightarrow> ScheduleRow \<Rightarrow> bool" where
  "row_due now row \<longleftrightarrow> (\<exists>t. sr_next_run row = Some t \<and> t \<le> now)"

lemma due_row_effect:
  assumes "engine_ok jobs e" and "ids_fresh E e" and "due_row E now clk (n, row) e = Some e1"
  shows "engine_ok jobs e1 \<and> ids_fresh E e1 \<and> t_workers (en_db e1) = t_workers (en_db e)
    \<and> (t_runs (en_db e1) = t_runs (en_db e)
       \<or> (\<exists>x. t_runs (en_db e1) = t_runs (en_db e) @ [x] \<and> r_job_id x = n \<and> r_status x \<in> {Queued, Skipped} \<and> row_due now row))"
    and "row_due now row \<Longrightarrow> to_fire E e n job \<Longrightarrow> n \<in> set (job_names (en_db e)) \<Longrightarrow>
       (\<exists>r \<in> set (t_runs (en_db e1)). r_job_id r = n \<and> inflight (r_status r))
       \<or> (\<exists>dep \<in> set (depends_on job). \<not> dep_ok (en_db e) dep)
         \<and> (\<exists>x. t_runs (en_db e1) = t_runs (en_db e) @ [x] \<and> r_job_id x = n \<and> r_status x = Skipped)"
proof -
  obtain res f where d: "dispatch_current E n False (clk n) e = (res, f)" by (cases "dispatch_current E n False (clk n) e")
  have c: "constraints (en_db e)" using assms(1) by (simp add: engine_ok_def)
  have "f = snd (dispatch_current E n False (clk n) e)" using d by simp
  then have f: "engine_ok jobs f" "t_workers (en_db f) = t_workers (en_db e)" "en_ids e \<le> en_ids f"
    using engine_ok_dispatch [OF assms(1)] by (simp_all add: dispatch_frame)
  have step: "(row_due now row \<and> recompute_next E n (clk n) f = Some e1) \<or> (\<not> row_due now row \<and> e1 = e)"
    using assms(3) d by (auto simp: due_row_def row_due_def split: option.splits if_splits)
  have eff: "engine_ok jobs e1 \<and> t_runs (en_db e1) = t_runs (en_db f) \<and> t_workers (en_db e1) = t_workers (en_db f) \<and> en_ids e1 = en_ids f"
    if "row_due now row"
    using recompute_next_effect [OF f(1)] step that by blast
  note fires = dispatch_fires [OF c assms(2) d]
  have fresh: "ids_fresh E f"
    using fires(1)
  proof (elim disjE exE conjE)
    fix x assume x: "t_runs (en_db f) = t_runs (en_db e) @ [x]" "r_id x = run_id E (en_ids e)" "en_ids e < en_ids f"
    have "run_id E (en_ids e) \<noteq> run_id E k" if "en_ids f \<le> k" for k
      using that x(3) assms(2) by (auto simp: ids_fresh_def dest: injD)
    then show ?thesis using assms(2) x by (auto simp: ids_fresh_def find_run_None)
  qed (use assms(2) f(3) in \<open>auto simp: ids_fresh_def find_run_None\<close>)
  show "engine_ok jobs e1 \<and> ids_fresh E e1 \<and> t_workers (en_db e1) = t_workers (en_db e)
    \<and> (t_runs (en_db e1) = t_runs (en_db e)
       \<or> (\<exists>x. t_runs (en_db e1) = t_runs (en_db e) @ [x] \<and> r_job_id x = n \<and> r_status x \<in> {Queued, Skipped} \<and> row_due now row))"
  proof (cases "row_due now row")
    case True
    have "ids_fresh E e1" using fresh eff [OF True] by (simp add: ids_fresh_def find_run_None)
    then show ?thesis using eff [OF True] f(2) fires(1) True by auto
  next
    case False
    then show ?thesis using step assms(1,2) by simp
  qed
  show "(\<exists>r \<in> set (t_runs (en_db e1)). r_job_id r = n \<and> inflight (r_status r))
       \<or> (\<exists>dep \<in> set (depends_on job). \<not> dep_ok (en_db e) dep)
         \<and> (\<exists>x. t_runs (en_db e1) = t_runs (en_db e) @ [x] \<and> r_job_id x = n \<and> r_status x = Skipped)"
    if "row_due now row" "to_fire E e n job" "n \<in> set (job_names (en_db e))"
    using fires(2) [OF that(2,3)] eff [OF that(1)] by simp
qed

lemma scheduled_jobs: "constraints d \<Longrightarrow> get_schedule n d = Some row \<Longrightarrow> n \<in> set (job_names d)"
  by (auto simp: constraints_def get_schedule_def list_all_iff dest!: find_SomeD)

lemma to_fire_step:
  assumes "t_runs (en_db e1) = t_runs (en_db e) \<or> (\<exists>x. t_runs (en_db e1) = t_runs (en_db e) @ [x] \<and> r_job_id x \<noteq> n)"
    and "live_jobs e1 = live_jobs e" and "t_workers (en_db e1) = t_workers (en_db e)"
  shows "to_fire E e n job \<Longrightarrow> to_fire E e1 n job"
proof -
  assume fire: "to_fire E e n job"
  then have "name job = n" using find_SomeD unfolding to_fire_def engine_job_def by fastforce
  moreover have "run_history n 1 (en_db e1) = run_history n 1 (en_db e)"
    using assms(1) run_history_append by (auto simp: run_history_def runs_where_def)
  moreover have "worker_ids (en_db e1) = worker_ids (en_db e)" using assms(3) by (simp add: worker_ids_def)
  ultimately show ?thesis using fire assms(2) by (simp add: to_fire_def engine_job_def held_after_loss_def split: option.splits)
qed

text \<open>The runs that a pass over the rows \<open>ks\<close> adds, and the jobs it has to serve.\<close>

definition pass_runs :: "int \<Rightarrow> (string \<times> ScheduleRow) list \<Rightarrow> run_rec list \<Rightarrow> bool" where
  "pass_runs now ks new \<longleftrightarrow> distinct (map r_job_id new)
     \<and> (\<forall>r \<in> set new. r_status r \<in> {Queued, Skipped} \<and> (\<exists>row. (r_job_id r, row) \<in> set ks \<and> row_due now row))"

definition pass_served :: "int \<Rightarrow> (string \<times> ScheduleRow) list \<Rightarrow> db \<Rightarrow> db \<Rightarrow> run_rec list \<Rightarrow> string \<Rightarrow> JobSpec \<Rightarrow> bool" where
  "pass_served now ks d d' new n job \<longleftrightarrow>
     (\<exists>r \<in> set (t_runs d'). r_job_id r = n \<and> inflight (r_status r))
     \<or> (\<exists>r \<in> set new. r_job_id r = n \<and> r_status r = Skipped)
       \<and> (\<exists>dep \<in> set (depends_on job). \<not> dep_ok d dep \<or> (\<exists>row. (dep, row) \<in> set ks \<and> row_due now row))"

lemma due_pass_runs:
  assumes "engine_ok jobs e" and "ids_fresh E e" and "each_row (due_row E now clk) ks e = Some e'"
    and "distinct (map fst ks)" and "\<forall>k \<in> set ks. row_pending k e"
  shows "\<exists>new. t_runs (en_db e') = t_runs (en_db e) @ new \<and> pass_runs now ks new
    \<and> (\<forall>n row job. (n, row) \<in> set ks \<longrightarrow> row_due now row \<longrightarrow> to_fire E e n job \<longrightarrow> pass_served now ks (en_db e) (en_db e') new n job)"
  using assms
proof (induction ks arbitrary: e)
  case Nil
  then show ?case by (simp add: pass_runs_def)
next
  case (Cons k ks)
  obtain n row where k: "k = (n, row)" by (cases k)
  obtain e1 where e1: "due_row E now clk (n, row) e = Some e1" "each_row (due_row E now clk) ks e1 = Some e'"
    using Cons.prems(3) by (auto simp: k split: option.splits)
  note step = due_row_effect [OF Cons.prems(1,2) e1(1)]
  have other: "\<forall>j \<in> set ks. fst j \<noteq> n" using Cons.prems(4) by (auto simp: k image_iff)
  have "\<forall>j \<in> set ks. row_pending j e1"
    using row_step_frame [OF due_row_step [OF e1(1)] Cons.prems(1)] Cons.prems(5) other
    by (auto simp: row_pending_def split: prod.splits)
  then obtain new where new: "t_runs (en_db e') = t_runs (en_db e1) @ new" "pass_runs now ks new"
    and served: "\<And>m r job. (m, r) \<in> set ks \<Longrightarrow> row_due now r \<Longrightarrow> to_fire E e1 m job \<Longrightarrow> pass_served now ks (en_db e1) (en_db e') new m job"
    using Cons.IH [OF _ _ e1(2)] step(1) Cons.prems(4) by auto
  obtain xs where xs: "t_runs (en_db e1) = t_runs (en_db e) @ xs"
    "xs = [] \<or> (\<exists>x. xs = [x] \<and> r_job_id x = n \<and> r_status x \<in> {Queued, Skipped} \<and> row_due now row)"
    using step(1) by (metis append_Nil2)
  have runs: "t_runs (en_db e') = t_runs (en_db e) @ xs @ new" using new(1) xs(1) by simp
  have names: "n \<notin> r_job_id ` set new" using new(2) other by (force simp: pass_runs_def)
  have pass: "pass_runs now (k # ks) (xs @ new)"
    using xs(2) new(2) names by (fastforce simp: pass_runs_def k)
  have "pass_served now (k # ks) (en_db e) (en_db e') (xs @ new) m job"
    if m: "(m, r) \<in> set (k # ks)" "row_due now r" "to_fire E e m job" for m r job
  proof (cases "m = n")
    case True
    have "row_due now row" using m(1,2) other by (auto simp: True k)
    moreover have "n \<in> set (job_names (en_db e))"
      using Cons.prems(1,5) scheduled_jobs by (auto simp: k row_pending_def engine_ok_def)
    ultimately show ?thesis
      using step(2) [of job] m(3) runs xs(1) by (fastforce simp: True pass_served_def)
  next
    case False
    have "to_fire E e1 m job"
      using to_fire_step [OF _ _ _ m(3), of e1] step(1) Cons.prems(1) False by (auto simp: engine_ok_def)
    then have sv: "pass_served now ks (en_db e1) (en_db e') new m job" using served [of m r job] m(1,2) False by (auto simp: k)
    have "dep_ok (en_db e1) dep = dep_ok (en_db e) dep \<or> dep = n \<and> row_due now row" for dep
    proof (cases "dep = n \<and> row_due now row")
      case no: False
      then have "run_history dep 1 (en_db e1) = run_history dep 1 (en_db e)"
        using step(1) run_history_append by (auto simp: run_history_def runs_where_def)
      then show ?thesis by (simp add: dep_ok_def)
    qed simp
    then show ?thesis using sv by (fastforce simp: pass_served_def k)
  qed
  then show ?case using runs pass by blast
qed

section \<open>Execution\<close>

lemma claim_run_preserves [simp]: "constraints d \<Longrightarrow> constraints (snd (claim_run i w token now d))"
  using claim_run_valid by (simp add: preserves_def stays_valid_def)

lemma find_run_update_other:
  "(\<And>r. r_id (f r) = r_id r) \<Longrightarrow> (\<And>r. p r \<Longrightarrow> r_id r = i) \<Longrightarrow> j \<noteq> i \<Longrightarrow>
     find_run (d\<lparr>t_runs := update_where p f rs\<rparr>) j = find_run (d\<lparr>t_runs := rs\<rparr>) j"
proof -
  assume f: "\<And>r. r_id (f r) = r_id r" and p: "\<And>r. p r \<Longrightarrow> r_id r = i" and "j \<noteq> i"
  have "find (\<lambda>r. r_id r = j) (update_where p f rs) = map_option (\<lambda>r. if p r then f r else r) (find (\<lambda>r. r_id r = j) rs)"
    by (rule find_update_where) (simp add: f)
  moreover have "\<not> p r" if "find (\<lambda>r. r_id r = j) rs = Some r" for r
    using find_SomeD [OF that] p \<open>j \<noteq> i\<close> by auto
  ultimately show ?thesis by (cases "find (\<lambda>r. r_id r = j) rs") (auto simp: find_run_def)
qed

lemma find_run_cong: "t_runs d = t_runs d' \<Longrightarrow> find_run d i = find_run d' i"
  by (simp add: find_run_def)

lemma finish_run_other:
  assumes "constraints d" and "\<not> active s" and "j \<noteq> i"
  shows "find_run (snd (finish_run i s c now d)) j = find_run d j"
proof -
  have "find_run (snd (finish_run i s c now d)) j = find_run (d\<lparr>t_runs := update_where (\<lambda>r. r_id r = i) (finished s c now) (t_runs d)\<rparr>) j"
    using finish_run_runs [OF assms(1,2), of i c now] by (intro find_run_cong) simp
  also have "\<dots> = find_run (d\<lparr>t_runs := t_runs d\<rparr>) j" by (rule find_run_update_other [of _ _ i]) (use assms(3) in \<open>auto simp: finished_def\<close>)
  finally show ?thesis by simp
qed

lemma claim_run_other:
  assumes "constraints d" and "j \<noteq> i"
  shows "find_run (snd (claim_run i w token now d)) j = find_run d j"
  using claim_run_cases [OF assms(1), of i w token now]
proof (elim disjE exE conjE)
  fix r js
  assume eq: "claim_run i w token now d = (Ok True, d\<lparr>t_runs := update_where (claimable i w d) (claimed w token now) (t_runs d), t_jobs := js\<rparr>)"
  have "find_run (d\<lparr>t_runs := update_where (claimable i w d) (claimed w token now) (t_runs d)\<rparr>) j = find_run (d\<lparr>t_runs := t_runs d\<rparr>) j"
    by (rule find_run_update_other [of _ _ i]) (use assms(2) in \<open>auto simp: claimable_def\<close>)
  then show ?thesis unfolding eq by (simp add: find_run_def)
qed simp

text \<open>What one iteration does; \<open>started\<close> runs hold the lease of the local worker.\<close>

definition exec_started :: "engine \<Rightarrow> engine \<Rightarrow> string \<Rightarrow> JobSpec \<Rightarrow> bool" where
  "exec_started e e1 i job \<longleftrightarrow> engine_job e (name job) = Some job \<and> en_permits e = Suc (en_permits e1)
     \<and> en_active e1 = (en_active e)(name job \<mapsto> opt_default 0 (en_active e (name job)) + 1)
     \<and> opt_default 0 (en_active e (name job)) < max 1 (max_concurrency job)
     \<and> (\<exists>r token now. find_run (en_db e) i = Some r \<and> claimable i LOCAL_WORKER (en_db e) r
          \<and> find_run (en_db e1) i = Some (claimed LOCAL_WORKER token now r))"

lemma execute_one_effect:
  assumes "constraints (en_db e)" and "execute_one E now run e = (st, e1)"
  shows "constraints (en_db e1) \<and> live_jobs e1 = live_jobs e \<and> en_shutdown e1 = en_shutdown e
    \<and> (\<forall>j. j \<noteq> rr_id run \<longrightarrow> find_run (en_db e1) j = find_run (en_db e) j)
    \<and> (case st of None \<Rightarrow> en_permits e1 = en_permits e \<and> en_active e1 = en_active e
        | Some (i, job) \<Rightarrow> i = rr_id run \<and> name job = rr_job_id run \<and> exec_started e e1 i job)"
proof (cases "engine_job e (rr_job_id run)")
  case None
  then have st: "st = None"
    and e1: "e1 = e\<lparr>en_db := snd (finish_run (rr_id run) Failed (no_outcome (Some ''job removed from config'')) now (en_db e))\<rparr>"
    using assms(2) by (simp_all add: execute_one_def)
  show ?thesis using assms(1) finish_run_other [OF assms(1), of Failed] by (simp add: st e1)
next
  case (Some job)
  then have nm: "name job = rr_job_id run" using find_SomeD unfolding engine_job_def by fastforce
  show ?thesis
  proof (cases "(case en_active e (rr_job_id run) of None \<Rightarrow> False | Some n \<Rightarrow> max_concurrency job \<le> n) \<or> en_permits e = 0")
    case True
    then have "st = None" "e1 = e" using assms(2) Some by (auto simp: execute_one_def split: if_splits)
    then show ?thesis using assms(1) by simp
  next
    case False
    let ?t = "run_id E (en_ids e)"
    obtain r d1 where c: "claim_run (rr_id run) LOCAL_WORKER ?t now (en_db e) = (r, d1)"
      by (cases "claim_run (rr_id run) LOCAL_WORKER ?t now (en_db e)")
    have d1: "constraints d1" "\<And>j. j \<noteq> rr_id run \<Longrightarrow> find_run d1 j = find_run (en_db e) j"
      using claim_run_preserves [OF assms(1)] claim_run_other [OF assms(1)] c by (metis snd_conv)+
    show ?thesis
    proof (cases "r = Ok True")
      case True
      then have st: "st = Some (rr_id run, job)"
        and e1: "e1 = e\<lparr>en_ids := Suc (en_ids e), en_db := d1, en_permits := en_permits e - 1,
                  en_active := (en_active e)(rr_job_id run \<mapsto> opt_default 0 (en_active e (rr_job_id run)) + 1)\<rparr>"
        using assms(2) Some False c by (auto simp: execute_one_def draw_id_def on_db_def active_inc_def Let_def split: option.splits)
      from claim_run_True [OF assms(1) c [unfolded True]] False Some have "exec_started e e1 (rr_id run) job"
        by (auto simp: exec_started_def e1 nm split: option.splits)
      then show ?thesis using d1 by (simp add: st e1 nm)
    next
      case no: False
      then have "st = None" "e1 = e\<lparr>en_ids := Suc (en_ids e), en_db := d1\<rparr>"
        using assms(2) Some False c by (auto simp: execute_one_def draw_id_def on_db_def split: sum.splits option.splits)
      then show ?thesis using d1 by simp
    qed
  qed
qed

definition rows_current :: "RunRow list \<Rightarrow> db \<Rightarrow> bool" where
  "rows_current runs d \<longleftrightarrow> distinct (map rr_id runs)
     \<and> (\<forall>q \<in> set runs. \<forall>r. find_run d (rr_id q) = Some r \<longrightarrow> r_job_id r = rr_job_id q)"

text \<open>A run that is executing keeps its job from being started again.\<close>

definition blocks :: "db \<Rightarrow> string set \<Rightarrow> string \<Rightarrow> bool" where
  "blocks d ids n \<longleftrightarrow> (\<exists>i r. i \<notin> ids \<and> find_run d i = Some r \<and> executing (r_status r) \<and> r_job_id r = n)"

definition lease_taken :: "db \<Rightarrow> string \<Rightarrow> string \<Rightarrow> bool" where
  "lease_taken d i n \<longleftrightarrow> (\<exists>r. find_run d i = Some r \<and> r_status r = Syncing \<and> r_worker_id r = Some LOCAL_WORKER \<and> r_job_id r = n)"

lemma exec_started_blocks:
  assumes "exec_started e e1 i job" and "\<And>r. find_run (en_db e) i = Some r \<Longrightarrow> r_job_id r = name job"
  shows "lease_taken (en_db e1) i (name job)" and "i \<notin> ids \<Longrightarrow> blocks (en_db e1) ids (name job)"
    and "\<not> blocks (en_db e) ids (name job)"
proof -
  obtain r t now where r: "find_run (en_db e) i = Some r" "claimable i LOCAL_WORKER (en_db e) r"
    "find_run (en_db e1) i = Some (claimed LOCAL_WORKER t now r)" using assms(1) unfolding exec_started_def by blast
  then show "lease_taken (en_db e1) i (name job)" "i \<notin> ids \<Longrightarrow> blocks (en_db e1) ids (name job)"
    using assms(2) by (auto simp: lease_taken_def blocks_def)
  show "\<not> blocks (en_db e) ids (name job)"
  proof
    assume "blocks (en_db e) ids (name job)"
    then obtain j q where q: "find_run (en_db e) j = Some q" "executing (r_status q)" "r_job_id q = r_job_id r"
      using assms(2) [OF r(1)] by (auto simp: blocks_def)
    have "q \<in> set (t_runs (en_db e))" using find_run_SomeD [OF q(1)] by simp
    with r(2) q(2,3) show False by (auto simp: claimable_def image_iff)
  qed
qed

lemma execute_loop_effect:
  assumes "constraints (en_db e)" and "rows_current runs (en_db e)" and "execute_loop E now runs e = (started, e')"
  shows "constraints (en_db e') \<and> live_jobs e' = live_jobs e \<and> en_permits e' + length started = en_permits e
    \<and> (\<forall>j. j \<notin> rr_id ` set runs \<longrightarrow> find_run (en_db e') j = find_run (en_db e) j)
    \<and> distinct (map (\<lambda>x. name (snd x)) started)
    \<and> (\<forall>(i, job) \<in> set started. i \<in> rr_id ` set runs \<and> engine_job e (name job) = Some job
         \<and> lease_taken (en_db e') i (name job) \<and> \<not> blocks (en_db e) (rr_id ` set runs) (name job)
         \<and> opt_default 0 (en_active e (name job)) < max 1 (max_concurrency job))
    \<and> (\<forall>n. opt_default 0 (en_active e' n) = opt_default 0 (en_active e n) + length (filter (\<lambda>(_, j). name j = n) started))"
  using assms
proof (induction runs arbitrary: e started e')
  case (Cons run runs)
  show ?case
  proof (cases "en_shutdown e")
    case True
    then show ?thesis using Cons.prems by simp
  next
    case False
    obtain st e1 where one: "execute_one E now run e = (st, e1)" by (cases "execute_one E now run e")
    obtain rest e2 where loop: "execute_loop E now runs e1 = (rest, e2)" by (cases "execute_loop E now runs e1")
    have res: "started = (case st of None \<Rightarrow> rest | Some x \<Rightarrow> x # rest)" "e' = e2"
      using Cons.prems(3) False one loop by (auto split: option.splits)
    note step = execute_one_effect [OF Cons.prems(1) one]
    have ids: "rr_id run \<notin> rr_id ` set runs" using Cons.prems(2) by (auto simp: rows_current_def)
    have other: "find_run (en_db e1) j = find_run (en_db e) j" if "j \<noteq> rr_id run" for j using step that by blast
    have cur: "rows_current runs (en_db e1)"
      using Cons.prems(2) ids other by (auto simp: rows_current_def) (metis imageI)
    note ih = Cons.IH [OF _ cur loop]
    have c1: "constraints (en_db e1)" and lj: "live_jobs e1 = live_jobs e" using step by auto
    have jobs: "engine_job e1 n = engine_job e n" for n by (simp add: engine_job_def lj)
    have blk: "blocks (en_db e) (rr_id ` set (run # runs)) n \<Longrightarrow> blocks (en_db e1) (rr_id ` set runs) n" for n
      using other by (fastforce simp: blocks_def)
    show ?thesis
    proof (cases st)
      case None
      then show ?thesis using ih [OF c1] step res blk ids other jobs by fastforce
    next
      case (Some x)
      then obtain job where x: "x = (rr_id run, job)" and ex: "exec_started e e1 (rr_id run) job" and nm: "name job = rr_job_id run"
        using step by (cases x) auto
      have jid: "r_job_id r = name job" if "find_run (en_db e) (rr_id run) = Some r" for r
        using Cons.prems(2) that nm by (auto simp: rows_current_def)
      note bl = exec_started_blocks [OF ex jid]
      have new: "\<forall>(i, k) \<in> set rest. name k \<noteq> name job" using ih [OF c1] bl(2) [OF _ ids] by fastforce
      have keep: "lease_taken (en_db e2) (rr_id run) (name job)"
        using bl(1) ih [OF c1] ids by (auto simp: lease_taken_def)
      have "find_run (en_db e2) j = find_run (en_db e) j" if "j \<notin> rr_id ` set (run # runs)" for j
        using ih [OF c1] other [of j] that by simp
      moreover have "en_permits e2 + length (x # rest) = en_permits e" using ih [OF c1] ex by (simp add: exec_started_def)
      moreover have "distinct (map (\<lambda>x. name (snd x)) (x # rest))" using ih [OF c1] new by (auto simp: x)
      moreover have "opt_default 0 (en_active e2 n) = opt_default 0 (en_active e n) + length (filter (\<lambda>(_, j). name j = n) (x # rest))" for n
        using ih [OF c1] ex by (simp add: x exec_started_def)
      moreover have "rr_id run \<in> rr_id ` set (run # runs) \<and> engine_job e (name job) = Some job \<and> lease_taken (en_db e2) (rr_id run) (name job)
          \<and> \<not> blocks (en_db e) (rr_id ` set (run # runs)) (name job) \<and> opt_default 0 (en_active e (name job)) < max 1 (max_concurrency job)"
        using keep bl(3) ex by (simp add: exec_started_def)
      moreover have "\<forall>(i, k) \<in> set rest. i \<in> rr_id ` set (run # runs) \<and> engine_job e (name k) = Some k
         \<and> lease_taken (en_db e2) i (name k) \<and> \<not> blocks (en_db e) (rr_id ` set (run # runs)) (name k)
         \<and> opt_default 0 (en_active e (name k)) < max 1 (max_concurrency k)"
        using ih [OF c1] blk new jobs ex by (fastforce simp: exec_started_def)
      ultimately show ?thesis using ih [OF c1] lj by (simp add: res Some x)
    qed
  qed
qed simp

section \<open>Retries\<close>

definition retry_due :: "int \<Rightarrow> run_rec \<Rightarrow> bool" where
  "retry_due now r \<longleftrightarrow> r_status r = Retrying \<and> (case r_next_retry_at r of Some t \<Rightarrow> t \<le> now | None \<Rightarrow> False)"

definition busy_jobs :: "db \<Rightarrow> string set" where
  "busy_jobs d = r_job_id ` set (filter (\<lambda>r. executing (r_status r)) (t_runs d))"

text \<open>What the retry tick makes of a run, given the live jobs and the jobs with an executing run.\<close>

definition retried :: "JobSpec list \<Rightarrow> string set \<Rightarrow> int \<Rightarrow> run_rec \<Rightarrow> run_rec" where
  "retried jobs busy now r =
     (if \<not> retry_due now r then r
      else if (\<exists>j. find (\<lambda>j. name j = r_job_id r) jobs = Some j \<and> \<not> enabled j)
      then finished Cancelled (no_outcome (Some ''job disabled'')) now r
      else if r_job_id r \<in> busy then r
      else r\<lparr>r_status := Queued\<rparr>)"

lemma retried_simps [simp]: "r_id (retried jobs busy now r) = r_id r" "r_job_id (retried jobs busy now r) = r_job_id r"
  "executing (r_status (retried jobs busy now r)) \<longleftrightarrow> executing (r_status r)"
  by (auto simp: retried_def finished_def retry_due_def)

lemma update_where_map: "update_where p f xs = map (\<lambda>x. if p x then f x else x) xs"
  by (simp add: update_where_def)

lemma busy_jobs_map:
  "(\<And>r. r_job_id (f r) = r_job_id r \<and> (executing (r_status (f r)) \<longleftrightarrow> executing (r_status r))) \<Longrightarrow> t_runs d' = map f (t_runs d) \<Longrightarrow>
     busy_jobs d' = busy_jobs d"
  by (auto simp: busy_jobs_def filter_map image_image comp_def)

lemma retry_row_effect:
  assumes "constraints (en_db e)" and "r \<in> set (t_runs (en_db e))" and "retry_due now r"
  shows "let e1 = retry_row now (run_row r) e in constraints (en_db e1) \<and> live_jobs e1 = live_jobs e
    \<and> t_runs (en_db e1) = map (\<lambda>q. if r_id q = r_id r then retried (live_jobs e) (busy_jobs (en_db e)) now q else q) (t_runs (en_db e))"
proof -
  have uniq: "q = r" if "q \<in> set (t_runs (en_db e))" "r_id q = r_id r" for q
    using constraints_run_ids [OF assms(1)] that assms(2) distinct_map_inj by metis
  let ?dis = "\<exists>j. find (\<lambda>j. name j = r_job_id r) (live_jobs e) = Some j \<and> \<not> enabled j"
  have dis: "(case engine_job e (r_job_id r) of None \<Rightarrow> False | Some j \<Rightarrow> \<not> enabled j) \<longleftrightarrow> ?dis"
    by (auto simp: engine_job_def split: option.split)
  have act: "active_runs_of_job (r_job_id r) (en_db e) \<noteq> [] \<longleftrightarrow> r_job_id r \<in> busy_jobs (en_db e)"
    by (auto simp: active_runs_of_job_def runs_where_empty busy_jobs_def image_iff)
  show ?thesis
  proof (cases ?dis)
    case True
    let ?c = "no_outcome (Some ''job disabled'')"
    have e1: "retry_row now (run_row r) e = e\<lparr>en_db := snd (finish_run (r_id r) Cancelled ?c now (en_db e))\<rparr>"
      using True dis by (simp add: retry_row_def)
    have "finished Cancelled ?c now q = retried (live_jobs e) (busy_jobs (en_db e)) now q"
      if "q \<in> set (t_runs (en_db e))" "r_id q = r_id r" for q
      using uniq [OF that] True assms(3) by (simp add: retried_def)
    then show ?thesis using finish_run_runs [OF assms(1), of Cancelled "r_id r" ?c now]
      by (simp add: e1 update_where_map)
  next
    case enabled: False
    show ?thesis
    proof (cases "r_job_id r \<in> busy_jobs (en_db e)")
      case True
      then have "retry_row now (run_row r) e = e" using enabled dis act by (auto simp: retry_row_def)
      moreover have "map (\<lambda>q. if r_id q = r_id r then retried (live_jobs e) (busy_jobs (en_db e)) now q else q) (t_runs (en_db e)) = t_runs (en_db e)"
        using uniq True enabled by (intro map_idI) (auto simp: retried_def)
      ultimately show ?thesis using assms(1) by simp
    next
      case False
      have e1: "retry_row now (run_row r) e = e\<lparr>en_db := snd (requeue_stmt (r_id r) (r_retry_count r) now (en_db e))\<rparr>"
        using False enabled dis act by (auto simp: retry_row_def)
      let ?p = "\<lambda>q. r_id q = r_id r \<and> r_status q = Retrying \<and> r_retry_count q = r_retry_count r
         \<and> (case r_next_retry_at q of Some t \<Rightarrow> t \<le> now | None \<Rightarrow> False)"
      have u: "requeue_stmt (r_id r) (r_retry_count r) now (en_db e) = (Ok (count_where ?p (t_runs (en_db e))),
          (en_db e)\<lparr>t_runs := update_where ?p (\<lambda>r. r\<lparr>r_status := Queued\<rparr>) (t_runs (en_db e))\<rparr>)"
        unfolding requeue_stmt_def by (rule update_runs_passive [OF assms(1)]) auto
      have "(if ?p q then q\<lparr>r_status := Queued\<rparr> else q) = (if r_id q = r_id r then retried (live_jobs e) (busy_jobs (en_db e)) now q else q)"
        if "q \<in> set (t_runs (en_db e))" for q
        using uniq [OF that] assms(3) enabled False by (auto simp: retried_def retry_due_def)
      moreover have "constraints (snd (requeue_stmt (r_id r) (r_retry_count r) now (en_db e)))"
        using update_runs_valid assms(1) unfolding requeue_stmt_def by (auto simp: preserves_def stays_valid_def)
      ultimately show ?thesis by (simp add: e1 u update_where_map)
    qed
  qed
qed

lemma retry_fold:
  assumes "constraints (en_db e)" and "set rs \<subseteq> set (t_runs (en_db e))" and "distinct (map r_id rs)" and "\<forall>r \<in> set rs. retry_due now r"
  shows "let e1 = fold (retry_row now) (map run_row rs) e in constraints (en_db e1) \<and> live_jobs e1 = live_jobs e
    \<and> t_runs (en_db e1) = map (\<lambda>q. if r_id q \<in> r_id ` set rs then retried (live_jobs e) (busy_jobs (en_db e)) now q else q) (t_runs (en_db e))"
  using assms
proof (induction rs arbitrary: e)
  case (Cons r rs)
  let ?e1 = "retry_row now (run_row r) e"
  let ?f = "\<lambda>q. if r_id q = r_id r then retried (live_jobs e) (busy_jobs (en_db e)) now q else q"
  have one: "constraints (en_db ?e1)" "live_jobs ?e1 = live_jobs e" "t_runs (en_db ?e1) = map ?f (t_runs (en_db e))"
    using retry_row_effect [OF Cons.prems(1), of r now] Cons.prems by (simp_all add: Let_def)
  have busy: "busy_jobs (en_db ?e1) = busy_jobs (en_db e)" by (rule busy_jobs_map [OF _ one(3)]) simp
  have "q \<in> set (t_runs (en_db ?e1))" if "q \<in> set rs" for q
  proof -
    have "q \<in> set (t_runs (en_db e))" "r_id q \<noteq> r_id r" using that Cons.prems by (auto simp: image_iff)
    then show ?thesis unfolding one(3) by (force simp: image_iff)
  qed
  then have "set rs \<subseteq> set (t_runs (en_db ?e1))" by blast
  from Cons.IH [OF one(1) this] Cons.prems show ?case
    by (auto simp: Let_def one(2,3) busy)
qed simp

lemma queued_rows_current:
  assumes "constraints d"
  shows "rows_current (filter p (queued_runs w d)) d"
proof -
  have ids: "distinct (map r_id (t_runs d))" using constraints_run_ids [OF assms] .
  have "distinct (map rr_id (runs_where q d))" for q
    using ids by (simp add: runs_where_def comp_def distinct_map inj_on_def)
  then have "distinct (map rr_id (filter p (queued_runs w d)))" by (simp add: queued_runs_def distinct_map_filter)
  moreover have "r_job_id r = rr_job_id q" if row: "q \<in> set (queued_runs w d)" "find_run d (rr_id q) = Some r" for q r
  proof -
    obtain x where x: "x \<in> set (t_runs d)" "q = run_row x" using row(1) by (auto simp: queued_runs_def set_runs_where)
    with row(2) have "r = x" using find_run_unique [OF assms row(2)] by simp
    with x show ?thesis by simp
  qed
  ultimately show ?thesis by (auto simp: rows_current_def)
qed

section \<open>An engine with a due schedule\<close>

definition sched_db :: db where
  "sched_db = demo_queued\<lparr>t_schedules := [\<lparr>sc_job_name = ''m'', sc_schedule = schedule demo_spec, sc_timezone = ''UTC'',
     sc_misfire_policy = ''run-next'', sc_next_run = Some 960, sc_anchor_at = Some 900, sc_created_at = 900\<rparr>],
     t_workers := demo_worker LOCAL_WORKER # t_workers demo_queued\<rparr>"

definition sched_time :: "unit time_lib" where
  "sched_time = demo_time\<lparr>in_range := (\<lambda>t. \<bar>t\<bar> \<le> 253402300799)\<rparr>"

definition sched_env :: "unit engine_env" where
  "sched_env = demo_eng_env\<lparr>tlib := sched_time, planner := None\<rparr>"

definition sched_engine :: engine where
  "sched_engine = demo_engine\<lparr>en_db := sched_db\<rparr>"

lemma sched_valid: "constraints sched_db"
  by (simp add: sched_db_def demo_eval LOCAL_WORKER_def)

lemma sched_engine_simps [simp]: "en_db sched_engine = sched_db" "live_jobs sched_engine = [demo_spec]"
  "t_runs sched_db = [demo_run]"
  "in_range (tlib sched_env) t \<longleftrightarrow> \<bar>t\<bar> \<le> 253402300799" "tz_by_name sched_env z = Some ()" "engine_job sched_engine ''m'' = Some demo_spec"
  by (simp_all add: sched_engine_def sched_env_def sched_time_def demo_spec_def
      sched_db_def demo_queued_def engine_job_def demo_eng_env_def demo_engine_def)

lemma sched_bounded [simp]: "times_bounded sched_env"
  unfolding times_bounded_def by (intro exI [of _ "- 253402300799"] exI [of _ 253402300799]) auto

lemma sched_fits [simp]: "intervals_fit sched_env (\<lambda>_. 1001) sched_engine"
  by (auto simp: intervals_fit_def engine_job_def demo_spec_def sched_db_def get_schedule_def schedule_row_def split: if_splits)

lemma sched_fresh [simp]: "ids_fresh sched_env sched_engine"
proof -
  have ids: "run_id sched_env = (\<lambda>n. replicate (Suc n) CHR ''x'')" by (simp add: sched_env_def demo_eng_env_def)
  have "inj (run_id sched_env)" unfolding ids by (rule injI) (metis length_replicate nat.inject)
  moreover have "r_id demo_run \<noteq> run_id sched_env k" for k by (simp add: ids demo_run_def new_run_def)
  ultimately show ?thesis by (auto simp: ids_fresh_def find_run_None)
qed

lemma sched_get: "get_schedule ''m'' sched_db = Some \<lparr>sr_schedule = schedule demo_spec, sr_timezone = ''UTC'',
    sr_misfire_policy = ''run-next'', sr_next_run = Some 960, sr_anchor_at = Some 900\<rparr>"
  by (simp add: sched_db_def get_schedule_def schedule_row_def)

section \<open>Properties\<close>



text \<open>The boot pass handles missed runs once and by policy. It returns; a row whose due time lies
  before the boot and before now (missed while offline) gets a due time after now or none, all other
  rows keep theirs. When no row asks for \<open>run-immediately\<close>, no run is created or changed.\<close>

lemma boot_pass_settles:
  assumes "constraints (en_db e)" and "times_bounded E" and "intervals_fit E clk e"
    and "\<forall>n. in_range (tlib E) (clk n) \<and> now \<le> clk n"
  shows "\<exists>e'. boot_pass E boot now clk e = Some e' \<and> constraints (en_db e')
    \<and> (\<forall>n row. get_schedule n (en_db e) = Some row \<longrightarrow>
         (\<exists>nxt. get_schedule n (en_db e') = Some (row\<lparr>sr_next_run := nxt\<rparr>)
            \<and> (engine_job e n \<noteq> None \<and> tz_by_name E (sr_timezone row) \<noteq> None \<longrightarrow>
                 (case nxt of None \<Rightarrow> True | Some t \<Rightarrow> now < t \<or> boot \<le> t))))
    \<and> ((\<forall>n row. get_schedule n (en_db e) = Some row \<longrightarrow> sr_misfire_policy row \<noteq> ''run-immediately'') \<longrightarrow>
         t_runs (en_db e') = t_runs (en_db e))"
proof -
  have ok: "engine_ok (live_jobs e) e" using assms(1) by (simp add: engine_ok_def)
  have "\<exists>e'. boot_pass E boot now clk e = Some e'"
    unfolding boot_pass_def using rows_return(2) [OF assms(2)] assms(3,4) by (intro boot.scan_returns [OF _ ok, of "intervals_fit E clk"]) blast+
  then obtain e' where e': "each_row (boot_row E boot now clk) (all_schedules (en_db e)) e = Some e'" by (auto simp: boot_pass_def)
  have "\<forall>k \<in> set (all_schedules (en_db e)). row_pending k e" using all_schedules_rows(2) [OF assms(1)] by (auto simp: row_pending_def)
  from boot.scan_settles [OF ok all_schedules_rows(1) [OF assms(1)] this e']
  have post: "engine_ok (live_jobs e) e'" "\<And>k. k \<in> set (all_schedules (en_db e)) \<Longrightarrow>
      row_settled E (live_jobs e) (\<lambda>n t. now \<le> clk n \<longrightarrow> now < t \<or> boot \<le> t) k e'" by blast+
  have "\<exists>nxt. get_schedule n (en_db e') = Some (row\<lparr>sr_next_run := nxt\<rparr>)
      \<and> (engine_job e n \<noteq> None \<and> tz_by_name E (sr_timezone row) \<noteq> None \<longrightarrow> (case nxt of None \<Rightarrow> True | Some t \<Rightarrow> now < t \<or> boot \<le> t))"
    if "get_schedule n (en_db e) = Some row" for n row
    using post(2) [of "(n, row)"] that assms(4) all_schedules_rows(2) [OF assms(1), of n row]
    by (auto simp: row_settled_def engine_job_def split: option.splits)
  moreover have "t_runs (en_db e') = t_runs (en_db e)"
    if "\<forall>n row. get_schedule n (en_db e) = Some row \<longrightarrow> sr_misfire_policy row \<noteq> ''run-immediately''"
  proof (rule boot_pass_skips [OF ok _ e'])
    show "\<forall>k \<in> set (all_schedules (en_db e)). sr_misfire_policy (snd k) \<noteq> ''run-immediately''"
      using that all_schedules_rows(2) [OF assms(1)] by auto
  qed
  ultimately show ?thesis using e' post(1) by (auto simp: engine_ok_def boot_pass_def)
qed

theorem boot_pass_settles_witness:
  "\<exists>e' row. boot_pass sched_env 990 1000 (\<lambda>_. 1001) sched_engine = Some e' \<and> get_schedule ''m'' (en_db e') = Some row
     \<and> (case sr_next_run row of None \<Rightarrow> True | Some t \<Rightarrow> 1000 < t \<or> 990 \<le> t)"
proof -
  from boot_pass_settles [of sched_engine sched_env "\<lambda>_. 1001" 1000 990] sched_valid obtain e' where
    e': "boot_pass sched_env 990 1000 (\<lambda>_. 1001) sched_engine = Some e'" and
    rows: "\<forall>n row. get_schedule n (en_db sched_engine) = Some row \<longrightarrow> (\<exists>nxt. get_schedule n (en_db e') = Some (row\<lparr>sr_next_run := nxt\<rparr>)
      \<and> (engine_job sched_engine n \<noteq> None \<and> tz_by_name sched_env (sr_timezone row) \<noteq> None \<longrightarrow>
           (case nxt of None \<Rightarrow> True | Some t \<Rightarrow> 1000 < t \<or> 990 \<le> t)))"
    by auto
  from rows [rule_format, of "''m''"] sched_get e' show ?thesis by auto
qed

text \<open>Starting queued runs respects the gates. The permits taken are exactly the runs started; a
  started run belongs to a live job, is leased to the local worker, and its job had fewer active
  runs than its limit (one, if the limit is zero) and no executing run; no job is started twice; the
  per-job counters grow by what was started. Nothing is started after a shutdown.\<close>

lemma execute_queued_gates:
  assumes "constraints (en_db e)" and "execute_queued E now e = (started, e')"
  shows "constraints (en_db e') \<and> en_permits e' + length started = en_permits e
    \<and> distinct (map (\<lambda>x. name (snd x)) started)
    \<and> (\<forall>(i, job) \<in> set started. engine_job e (name job) = Some job \<and> lease_taken (en_db e') i (name job)
         \<and> opt_default 0 (en_active e (name job)) < max 1 (max_concurrency job))
    \<and> (\<forall>n. opt_default 0 (en_active e' n) = opt_default 0 (en_active e n) + length (filter (\<lambda>(_, j). name j = n) started))
    \<and> (en_shutdown e \<longrightarrow> started = [] \<and> e' = e)"
proof -
  define p where "p = (\<lambda>r :: RunRow. planner E = None \<or> rr_worker_id r = Some LOCAL_WORKER)"
  have loop: "execute_loop E now (filter p (queued_runs LOCAL_WORKER (en_db e))) e = (started, e')"
    using assms(2) by (cases "planner E") (simp_all add: execute_queued_def p_def Let_def)
  have "execute_loop E now runs e = ([], e)" if "en_shutdown e" for runs using that by (cases runs) auto
  then have down: "en_shutdown e \<longrightarrow> started = [] \<and> e' = e" using loop by (metis Pair_inject)
  note eff = execute_loop_effect [OF assms(1) queued_rows_current [OF assms(1)] loop]
  then have "\<forall>(i, job) \<in> set started. engine_job e (name job) = Some job \<and> lease_taken (en_db e') i (name job)
         \<and> opt_default 0 (en_active e (name job)) < max 1 (max_concurrency job)" by blast
  with eff down show ?thesis by blast
qed

theorem execute_queued_gates_witness:
  "\<exists>started e'. execute_queued sched_env 1000 sched_engine = (started, e') \<and> en_permits e' + length started = 4"
proof -
  obtain started e' where r: "execute_queued sched_env 1000 sched_engine = (started, e')"
    by (cases "execute_queued sched_env 1000 sched_engine")
  have "en_permits e' + length started = en_permits sched_engine"
    using execute_queued_gates [OF _ r] sched_valid by simp
  with r show ?thesis by (simp add: sched_engine_def demo_engine_def)
qed

text \<open>The retry tick requeues exactly the due retries. A run in \<open>RETRYING\<close> whose wait has elapsed is
  cancelled when its job is disabled, stays while another run of its job executes, and is queued
  otherwise; every other run is untouched.\<close>

lemma retry_tick_exact:
  assumes "constraints (en_db e)"
  shows "constraints (en_db (retry_tick now e))
    \<and> t_runs (en_db (retry_tick now e)) = map (retried (live_jobs e) (busy_jobs (en_db e)) now) (t_runs (en_db e))"
proof -
  let ?rs = "sort_key (\<lambda>r. (- r_priority r, r_created_at r)) (filter (retry_due now) (t_runs (en_db e)))"
  have due: "due_retries now (en_db e) = map run_row ?rs"
    by (simp add: due_retries_def runs_where_def retry_due_def [abs_def])
  have dist: "distinct (map r_id ?rs)"
    using constraints_run_ids [OF assms] by (simp add: distinct_map inj_on_def)
  have eq: "(if r_id q \<in> r_id ` set ?rs then retried (live_jobs e) (busy_jobs (en_db e)) now q else q) = retried (live_jobs e) (busy_jobs (en_db e)) now q"
    if "q \<in> set (t_runs (en_db e))" for q
    using that distinct_map_inj [OF constraints_run_ids [OF assms]] by (auto simp: retried_def image_iff)
  have "map (\<lambda>q. if r_id q \<in> r_id ` set ?rs then retried (live_jobs e) (busy_jobs (en_db e)) now q else q) (t_runs (en_db e))
      = map (retried (live_jobs e) (busy_jobs (en_db e)) now) (t_runs (en_db e))"
    by (rule map_cong [OF refl eq])
  moreover have "set ?rs \<subseteq> set (t_runs (en_db e))" "\<forall>r \<in> set ?rs. retry_due now r" by auto
  ultimately show ?thesis using retry_fold [OF assms _ dist, of now] by (simp only: retry_tick_def due Let_def)
qed

theorem retry_tick_exact_witness:
  "t_runs (en_db (retry_tick 2000 (sched_engine\<lparr>en_db := sched_db\<lparr>t_runs := [demo_run\<lparr>r_status := Retrying, r_next_retry_at := Some 1500\<rparr>]\<rparr>\<rparr>)))
     = [demo_run\<lparr>r_next_retry_at := Some 1500\<rparr>]"
proof -
  let ?r = "demo_run\<lparr>r_status := Retrying, r_next_retry_at := Some 1500\<rparr>"
  let ?e = "sched_engine\<lparr>en_db := sched_db\<lparr>t_runs := [?r]\<rparr>\<rparr>"
  have c: "constraints (en_db ?e)" using sched_valid by (simp add: sched_db_def demo_eval LOCAL_WORKER_def)
  have "retried (live_jobs ?e) (busy_jobs (en_db ?e)) 2000 ?r = demo_run\<lparr>r_next_retry_at := Some 1500\<rparr>"
    by (simp add: retried_def retry_due_def busy_jobs_def demo_run_def new_run_def)
  with retry_tick_exact [OF c, of 2000] show ?thesis by simp
qed

end
