(* ===== verification/Snapshot.thy ===== *)
theory Snapshot
  imports Job_Model
begin

text \<open>
  Snapshots of \<open>crates/snapshot/src/lib.rs\<close>: snapshot names, the listing parsers, the ZFS and Btrfs
  providers and the retention plan.

  Calendar functions of the crate \<open>time\<close> are the record \<open>cal_lib\<close>; a \<open>Date\<close> is its day number, an instant
  its unix seconds, an offset its seconds east of UTC. The command line tools are the argument
  \<open>cli\<close>, a function from a command and a state of the outside world to its answer and the next state;
  so is the storage lock. A provider's operation is a function of the world too, so a theorem can
  say that an operation touched nothing.
\<close>

section \<open>Parameters\<close>

record cal_lib =
  from_calendar_date :: "int \<Rightarrow> nat \<Rightarrow> nat \<Rightarrow> int option"
  from_hms :: "nat \<Rightarrow> nat \<Rightarrow> nat \<Rightarrow> int option"
  ts_in_range :: "int \<Rightarrow> bool"
  year_of :: "int \<Rightarrow> int"
  month_of :: "int \<Rightarrow> nat"
  iso_week :: "int \<Rightarrow> nat"
  number_from_monday :: "int \<Rightarrow> nat"

datatype SnapshotError = SnapCommand string | SnapUnsupported string

type_synonym ('w, 'a) sio = "('w, SnapshotError, 'a) io"
type_synonym 'w cli = "string \<Rightarrow> string list \<Rightarrow> ('w, string) sio"

section \<open>Names\<close>

record SnapshotInfo =
  si_name :: string
  si_created_at :: int

definition is_alphanumeric :: "char \<Rightarrow> bool" where
  "is_alphanumeric c \<longleftrightarrow> is_digit c
     \<or> (65 \<le> (of_char c :: nat) \<and> (of_char c :: nat) \<le> 90) \<or> (97 \<le> (of_char c :: nat) \<and> (of_char c :: nat) \<le> 122)"

definition is_hexdigit :: "char \<Rightarrow> bool" where
  "is_hexdigit c \<longleftrightarrow> is_digit c
     \<or> (65 \<le> (of_char c :: nat) \<and> (of_char c :: nat) \<le> 70) \<or> (97 \<le> (of_char c :: nat) \<and> (of_char c :: nat) \<le> 102)"

definition validate_name :: "string \<Rightarrow> SnapshotError + unit" where
  "validate_name n =
     (if n = [] \<or> 200 < length n \<or> \<not> list_all (\<lambda>b. is_alphanumeric b \<or> b = CHR ''-'' \<or> b = CHR ''_'') n
      then Err (SnapCommand ''invalid snapshot name'') else Ok ())"

text \<open>\<open>snapshot_name\<close>: \<open>stamp\<close> is the text of the time crate's formatter, \<open>uuid\<close> that of \<open>RunId::new\<close>.\<close>

definition snapshot_name :: "string \<Rightarrow> string \<Rightarrow> string" where
  "snapshot_name stamp uuid = stamp @ ''-'' @ uuid"

definition two :: "string \<Rightarrow> nat option" where
  "two s = parse_unsigned u8_max s"

definition slice :: "nat \<Rightarrow> nat \<Rightarrow> string \<Rightarrow> string" where
  "slice a b s = take (b - a) (drop a s)"

definition bind_opt :: "'a option \<Rightarrow> ('a \<Rightarrow> 'b option) \<Rightarrow> 'b option" where
  "bind_opt o' f = (case o' of None \<Rightarrow> None | Some x \<Rightarrow> f x)"

lemma bind_opt_simps [simp]: "bind_opt None f = None" "bind_opt (Some x) f = f x"
  by (simp_all add: bind_opt_def)

definition strip_uuid :: "string \<Rightarrow> string option" where
  "strip_uuid time_s =
     (case split_once (CHR ''-'') time_s of
        Some (tm, sfx) \<Rightarrow>
          if length sfx \<noteq> 36 \<or> \<not> list_all (\<lambda>b. is_hexdigit b \<or> b = CHR ''-'') sfx then None else Some tm
      | None \<Rightarrow> Some time_s)"

definition parse_snapshot_name :: "cal_lib \<Rightarrow> string \<Rightarrow> int \<Rightarrow> int option" where
  "parse_snapshot_name L n offset =
     bind_opt (strip_prefix ''synora-'' n) (\<lambda>rest.
     bind_opt (split_once (CHR ''-'') rest) (\<lambda>(date_s, time_s).
     bind_opt (strip_uuid time_s) (\<lambda>time_s.
       if length date_s \<noteq> 8 \<or> length time_s \<noteq> 6 then None
       else
         bind_opt (parse_i64 (slice 0 4 date_s)) (\<lambda>y.
         bind_opt (two (slice 4 6 date_s)) (\<lambda>m.
         bind_opt (two (slice 6 8 date_s)) (\<lambda>d.
         bind_opt (from_calendar_date L y m d) (\<lambda>date.
         bind_opt (two (slice 0 2 time_s)) (\<lambda>h.
         bind_opt (two (slice 2 4 time_s)) (\<lambda>mi.
         bind_opt (two (slice 4 6 time_s)) (\<lambda>s.
         bind_opt (from_hms L h mi s) (\<lambda>tod. Some (date * 86400 + tod - offset)))))))))))) "

definition matches_synora :: "cal_lib \<Rightarrow> string \<Rightarrow> bool" where
  "matches_synora L n \<longleftrightarrow> parse_snapshot_name L n 0 \<noteq> None"

fun rfind_str :: "string \<Rightarrow> string \<Rightarrow> nat option" where
  "rfind_str p [] = (if p = [] then Some 0 else None)"
| "rfind_str p (x # xs) =
     (case rfind_str p xs of Some i \<Rightarrow> Some (Suc i) | None \<Rightarrow> if prefix p (x # xs) then Some 0 else None)"

definition snapshot_name_from_path :: "cal_lib \<Rightarrow> string \<Rightarrow> string option" where
  "snapshot_name_from_path L path =
     bind_opt (rfind_str ''synora-'' path) (\<lambda>start.
       let cand = drop start path in if matches_synora L cand then Some cand else None)"

definition snapshot_path :: "string \<Rightarrow> string \<Rightarrow> string" where
  "snapshot_path subvol n = subvol @ ''-'' @ n"

section \<open>Listings\<close>

definition parse_zfs_list :: "string \<Rightarrow> string \<Rightarrow> SnapshotInfo list" where
  "parse_zfs_list out pool_dataset =
     filter_map (\<lambda>line.
       bind_opt (split_once (CHR 0x09) line) (\<lambda>(full, ts).
       bind_opt (strip_prefix (pool_dataset @ ''@'') full) (\<lambda>n.
       bind_opt (parse_i64 (trim ts)) (\<lambda>t. Some \<lparr>si_name = n, si_created_at = t\<rparr>)))) (str_lines out)"

definition last_opt :: "'a list \<Rightarrow> 'a option" where
  "last_opt xs = (if xs = [] then None else Some (last xs))"

definition parse_btrfs_list :: "cal_lib \<Rightarrow> string \<Rightarrow> SnapshotInfo list" where
  "parse_btrfs_list L out =
     filter_map (\<lambda>line.
       bind_opt (last_opt (split_whitespace line)) (\<lambda>path.
       bind_opt (snapshot_name_from_path L path) (\<lambda>n. Some \<lparr>si_name = n, si_created_at = 0\<rparr>))) (str_lines out)"

section \<open>Retention\<close>

definition effective_ts :: "cal_lib \<Rightarrow> SnapshotInfo \<Rightarrow> int \<Rightarrow> int option" where
  "effective_ts L s offset =
     (if 0 < si_created_at s then (if ts_in_range L (si_created_at s) then Some (si_created_at s) else None)
      else parse_snapshot_name L (si_name s) offset)"

text \<open>\<open>OffsetDateTime::date\<close>: the local day number.\<close>

definition local_date :: "int \<Rightarrow> int \<Rightarrow> int" where
  "local_date offset t = (t + offset) div 86400"

definition iso_week_key :: "cal_lib \<Rightarrow> int \<Rightarrow> int \<times> nat" where
  "iso_week_key L d =
     (let monday = d - (int (number_from_monday L d) - 1); thursday = monday + 3
      in (year_of L thursday, iso_week L d))"

fun period_reps :: "(SnapshotInfo \<Rightarrow> 'k option) \<Rightarrow> 'k list \<Rightarrow> SnapshotInfo list \<Rightarrow> string list" where
  "period_reps key_of seen [] = []"
| "period_reps key_of seen (s # ss) =
     (case key_of s of
        None \<Rightarrow> period_reps key_of seen ss
      | Some k \<Rightarrow> if k \<in> set seen then period_reps key_of seen ss
                  else si_name s # period_reps key_of (k # seen) ss)"

definition periodic_kept :: "SnapshotInfo list \<Rightarrow> nat \<Rightarrow> (SnapshotInfo \<Rightarrow> 'k option) \<Rightarrow> string list" where
  "periodic_kept srt n key_of = (if n = 0 then [] else take n (rev (period_reps key_of [] srt)))"

definition prune_sorted :: "cal_lib \<Rightarrow> SnapshotInfo list \<Rightarrow> SnapshotInfo list" where
  "prune_sorted L snaps =
     sort_key (\<lambda>s. (si_created_at s, si_name s)) (filter (\<lambda>s. matches_synora L (si_name s)) snaps)"

definition kept_last :: "SnapshotInfo list \<Rightarrow> nat option \<Rightarrow> string list" where
  "kept_last srt n = (case n of None \<Rightarrow> [] | Some n \<Rightarrow> map si_name (take n (rev srt)))"

definition kept_by :: "SnapshotInfo list \<Rightarrow> nat option \<Rightarrow> (SnapshotInfo \<Rightarrow> 'k option) \<Rightarrow> string list" where
  "kept_by srt n key_of = (case n of None \<Rightarrow> [] | Some n \<Rightarrow> periodic_kept srt n key_of)"

definition day_key :: "cal_lib \<Rightarrow> int \<Rightarrow> SnapshotInfo \<Rightarrow> int option" where
  "day_key L offset s = map_option (local_date offset) (effective_ts L s offset)"

definition week_key :: "cal_lib \<Rightarrow> int \<Rightarrow> SnapshotInfo \<Rightarrow> (int \<times> nat) option" where
  "week_key L offset s = map_option (\<lambda>t. iso_week_key L (local_date offset t)) (effective_ts L s offset)"

definition month_key :: "cal_lib \<Rightarrow> int \<Rightarrow> SnapshotInfo \<Rightarrow> (int \<times> nat) option" where
  "month_key L offset s =
     map_option (\<lambda>t. (year_of L (local_date offset t), month_of L (local_date offset t))) (effective_ts L s offset)"

definition prune_keep :: "cal_lib \<Rightarrow> SnapshotInfo list \<Rightarrow> RetentionPolicy \<Rightarrow> int \<Rightarrow> string list" where
  "prune_keep L snaps policy offset =
     (let srt = prune_sorted L snaps
      in kept_last srt (keep_last policy)
         @ kept_by srt (keep_daily policy) (day_key L offset)
         @ kept_by srt (keep_weekly policy) (week_key L offset)
         @ kept_by srt (keep_monthly policy) (month_key L offset))"

definition prune_plan :: "cal_lib \<Rightarrow> SnapshotInfo list \<Rightarrow> RetentionPolicy \<Rightarrow> int \<Rightarrow> string list" where
  "prune_plan L snaps policy offset =
     map si_name (filter (\<lambda>s. si_name s \<notin> set (prune_keep L snaps policy offset)) (prune_sorted L snaps))"

section \<open>Providers\<close>

definition zfs_create :: "'w cli \<Rightarrow> string \<Rightarrow> string \<Rightarrow> int \<Rightarrow> ('w, SnapshotInfo) sio" where
  "zfs_create cli pool_dataset n now =
     io_bind (io_lift (validate_name n)) (\<lambda>_.
     io_bind (cli ''zfs'' [''snapshot'', pool_dataset @ ''@'' @ n]) (\<lambda>_.
       io_ret \<lparr>si_name = n, si_created_at = now\<rparr>))"

definition zfs_delete :: "'w cli \<Rightarrow> string \<Rightarrow> string \<Rightarrow> ('w, unit) sio" where
  "zfs_delete cli pool_dataset n =
     io_bind (io_lift (validate_name n)) (\<lambda>_.
     io_bind (cli ''zfs'' [''destroy'', pool_dataset @ ''@'' @ n]) (\<lambda>_. io_ret ()))"

text \<open>\<open>lock\<close> is \<open>StorageLock::acquire\<close> on a path.\<close>

definition zfs_rollback :: "'w cli \<Rightarrow> (string \<Rightarrow> ('w, unit) sio) \<Rightarrow> string \<Rightarrow> string \<Rightarrow> ('w, unit) sio" where
  "zfs_rollback cli lock pool_dataset n =
     io_bind (cli ''zfs'' [''get'', ''-H'', ''-o'', ''value'', ''mountpoint'', pool_dataset]) (\<lambda>mount.
       if \<not> is_absolute (trim mount) then io_err (SnapUnsupported ''rollback requires an absolute ZFS mountpoint'')
       else io_bind (lock (trim mount)) (\<lambda>_.
            io_bind (io_lift (validate_name n)) (\<lambda>_.
            io_bind (cli ''zfs'' [''rollback'', pool_dataset @ ''@'' @ n]) (\<lambda>_. io_ret ()))))"

definition zfs_list :: "'w cli \<Rightarrow> string \<Rightarrow> ('w, SnapshotInfo list) sio" where
  "zfs_list cli pool_dataset =
     io_bind (cli ''zfs'' [''list'', ''-Hp'', ''-t'', ''snapshot'', ''-o'', ''name,creation'', ''-s'', ''creation'', pool_dataset])
       (\<lambda>out. io_ret (parse_zfs_list out pool_dataset))"

definition btrfs_create :: "'w cli \<Rightarrow> string \<Rightarrow> string \<Rightarrow> ('w, SnapshotInfo) sio" where
  "btrfs_create cli subvol n =
     io_bind (io_lift (validate_name n)) (\<lambda>_.
     io_bind (cli ''btrfs'' [''subvolume'', ''snapshot'', ''-r'', subvol, snapshot_path subvol n]) (\<lambda>_.
       io_ret \<lparr>si_name = n, si_created_at = 0\<rparr>))"

definition btrfs_delete :: "'w cli \<Rightarrow> string \<Rightarrow> string \<Rightarrow> ('w, unit) sio" where
  "btrfs_delete cli subvol n =
     io_bind (io_lift (validate_name n)) (\<lambda>_.
     io_bind (cli ''btrfs'' [''subvolume'', ''delete'', snapshot_path subvol n]) (\<lambda>_. io_ret ()))"

text \<open>\<open>exchange\<close> is \<open>exchange_paths\<close>, \<open>uuid\<close> the text of \<open>RunId::new\<close>.\<close>

definition btrfs_rollback ::
  "'w cli \<Rightarrow> (string \<Rightarrow> ('w, unit) sio) \<Rightarrow> (string \<Rightarrow> string \<Rightarrow> ('w, unit) sio) \<Rightarrow> string \<Rightarrow> string \<Rightarrow> string \<Rightarrow> ('w, unit) sio" where
  "btrfs_rollback cli lock exchange uuid subvol n =
     io_bind (io_lift (validate_name n)) (\<lambda>_.
     io_bind (lock subvol) (\<lambda>_.
       let target = snapshot_path subvol n; prepared = snapshot_path subvol (''rollback-old-'' @ uuid)
       in io_bind (cli ''btrfs'' [''subvolume'', ''snapshot'', target, prepared]) (\<lambda>_.
          io_bind (exchange subvol prepared) (\<lambda>_. io_ret ()))))"

section \<open>Lemmas\<close>

lemma validate_name_cases: "validate_name n = Ok () \<or> validate_name n = Err (SnapCommand ''invalid snapshot name'')"
  by (simp add: validate_name_def)

lemma set_prune_plan:
  "x \<in> set (prune_plan L snaps p off) \<longleftrightarrow>
     (\<exists>s \<in> set snaps. matches_synora L (si_name s) \<and> si_name s = x) \<and> x \<notin> set (prune_keep L snaps p off)"
  by (auto simp: prune_plan_def prune_sorted_def)

lemma set_prune_sorted: "set (prune_sorted L snaps) = {s \<in> set snaps. matches_synora L (si_name s)}"
  by (auto simp: prune_sorted_def)

lemma length_kept:
  "length (kept_last srt n) \<le> opt_default 0 n" "length (kept_by srt n key_of) \<le> opt_default 0 n"
  by (auto simp: kept_last_def kept_by_def periodic_kept_def split: option.splits)

text \<open>
  The representatives: one per period that is not already seen, the first snapshot of its period in
  the given order, in that order.
\<close>

definition first_of_period :: "(SnapshotInfo \<Rightarrow> 'k option) \<Rightarrow> SnapshotInfo list \<Rightarrow> SnapshotInfo \<Rightarrow> bool" where
  "first_of_period key_of srt s \<longleftrightarrow>
     (\<exists>pre post k. srt = pre @ s # post \<and> key_of s = Some k \<and> (\<forall>q \<in> set pre. key_of q \<noteq> Some k))"

lemma first_split:
  "(\<exists>pre s post k. a # srt = pre @ s # post \<and> si_name s = x \<and> key_of s = Some k \<and> k \<notin> S
        \<and> (\<forall>q \<in> set pre. key_of q \<noteq> Some k)) \<longleftrightarrow>
   (si_name a = x \<and> (\<exists>k. key_of a = Some k \<and> k \<notin> S))
   \<or> (\<exists>pre s post k. srt = pre @ s # post \<and> si_name s = x \<and> key_of s = Some k \<and> k \<notin> S
        \<and> (\<forall>q \<in> set pre. key_of q \<noteq> Some k) \<and> key_of a \<noteq> Some k)" (is "?L \<longleftrightarrow> ?here \<or> ?later")
proof
  assume ?L
  then obtain pre s post k where *: "a # srt = pre @ s # post" "si_name s = x" "key_of s = Some k" "k \<notin> S"
    "\<forall>q \<in> set pre. key_of q \<noteq> Some k" by blast
  show "?here \<or> ?later"
  proof (cases pre)
    case Nil
    with * show ?thesis by auto
  next
    case (Cons b pre')
    with * have "srt = pre' @ s # post" "key_of a \<noteq> Some k" "\<forall>q \<in> set pre'. key_of q \<noteq> Some k" by auto
    with * have ?later by blast
    then show ?thesis ..
  qed
next
  assume "?here \<or> ?later"
  then show ?L
  proof
    assume ?here
    then show ?L by (intro exI [of _ "[]"]) auto
  next
    assume ?later
    then obtain pre s post k where "srt = pre @ s # post" "si_name s = x" "key_of s = Some k" "k \<notin> S"
      "\<forall>q \<in> set pre. key_of q \<noteq> Some k" "key_of a \<noteq> Some k" by blast
    then show ?L by (intro exI [of _ "a # pre"] exI [of _ s] exI [of _ post] exI [of _ k]) auto
  qed
qed

lemma period_reps_first:
  "x \<in> set (period_reps key_of seen srt) \<longleftrightarrow>
     (\<exists>pre s post k. srt = pre @ s # post \<and> si_name s = x \<and> key_of s = Some k \<and> k \<notin> set seen
        \<and> (\<forall>q \<in> set pre. key_of q \<noteq> Some k))"
proof (induction srt arbitrary: seen)
  case (Cons a srt)
  show ?case
  proof (cases "key_of a")
    case None
    then show ?thesis unfolding first_split by (simp add: Cons.IH)
  next
    case (Some k)
    then show ?thesis unfolding first_split by (cases "k \<in> set seen") (auto simp: Cons.IH)
  qed
qed simp

lemma period_reps_set:
  "set (period_reps key_of [] srt) = si_name ` {s. first_of_period key_of srt s}"
  by (rule set_eqI)
     (simp only: period_reps_first first_of_period_def image_iff mem_Collect_eq list.set empty_iff simp_thms bex_simps, blast)

lemma slice_length [simp]: "b \<le> length s \<Longrightarrow> length (slice a b s) = b - a"
  by (simp add: slice_def)

lemma digit_not_sign: "is_digit c \<Longrightarrow> c \<noteq> CHR ''+'' \<and> c \<noteq> CHR ''-'' \<and> is_hexdigit c \<and> is_alphanumeric c"
  by (auto simp: is_digit_def is_hexdigit_def is_alphanumeric_def)

lemma parse_unsigned_digits:
  assumes "list_all is_digit s" and "s \<noteq> []" and "digits_val s \<le> mx"
  shows "parse_unsigned mx s = Some (digits_val s)"
proof -
  obtain c r where "s = c # r" "is_digit c" using assms(1,2) by (cases s) auto
  with assms digit_not_sign [of c] show ?thesis by (simp add: parse_unsigned_def parse_digits_def)
qed

lemma parse_i64_digits:
  assumes "list_all is_digit s" and "s \<noteq> []" and "digits_val s \<le> 2 ^ 63 - 1"
  shows "parse_i64 s = Some (int (digits_val s))"
proof -
  obtain c r where "s = c # r" "is_digit c" using assms(1,2) by (cases s) auto
  with digit_not_sign [of c] parse_unsigned_digits [OF assms] show ?thesis by (simp add: parse_i64_def)
qed

lemma slice_digits: "list_all is_digit s \<Longrightarrow> list_all is_digit (slice a b s)"
  by (auto simp: slice_def list_all_iff dest!: in_set_takeD in_set_dropD)

lemma two_digits_value:
  assumes "list_all is_digit s" and "b \<le> length s" and "b = a + 2"
  shows "two (slice a b s) = Some (digits_val (slice a b s))"
proof -
  have len: "length (slice a b s) = 2" using assms by simp
  have "digits_val (slice a b s) < 10 ^ 2" using digits_val_bound [OF slice_digits [OF assms(1)], of a b] len by simp
  then show ?thesis unfolding two_def
    by (intro parse_unsigned_digits slice_digits assms) (use len in \<open>auto simp: u8_max_def\<close>)
qed

lemma year_value:
  assumes "list_all is_digit s" and "4 \<le> length s"
  shows "parse_i64 (slice 0 4 s) = Some (int (digits_val (slice 0 4 s)))"
proof -
  have len: "length (slice 0 4 s) = 4" using assms by simp
  have "digits_val (slice 0 4 s) < 10 ^ 4" using digits_val_bound [OF slice_digits [OF assms(1)], of 0 4] len by simp
  then show ?thesis by (intro parse_i64_digits slice_digits assms) (use len in auto)
qed

section \<open>Properties\<close>

text \<open>Synora recognises its own snapshots. A name that \<open>snapshot_name\<close> builds from an eight-digit date
  and a six-digit time that the calendar accepts and from a UUID is accepted by \<open>validate_name\<close>, so it
  can be created and deleted, and is parsed back to its time by \<open>parse_snapshot_name\<close>, so pruning
  sees it.\<close>

lemma created_name_recognised:
  assumes "list_all is_digit ds" and "length ds = 8" and "list_all is_digit ts" and "length ts = 6"
    and "length uuid = 36" and "list_all (\<lambda>b. is_hexdigit b \<or> b = CHR ''-'') uuid"
    and "from_calendar_date L (int (digits_val (slice 0 4 ds))) (digits_val (slice 4 6 ds)) (digits_val (slice 6 8 ds)) = Some date"
    and "from_hms L (digits_val (slice 0 2 ts)) (digits_val (slice 2 4 ts)) (digits_val (slice 4 6 ts)) = Some tod"
  shows "parse_snapshot_name L (snapshot_name (''synora-'' @ ds @ ''-'' @ ts) uuid) off = Some (date * 86400 + tod - off)
    \<and> matches_synora L (snapshot_name (''synora-'' @ ds @ ''-'' @ ts) uuid)
    \<and> validate_name (snapshot_name (''synora-'' @ ds @ ''-'' @ ts) uuid) = Ok ()"
proof -
  let ?n = "snapshot_name (''synora-'' @ ds @ ''-'' @ ts) uuid"
  have nodash: "CHR ''-'' \<notin> set ds" "CHR ''-'' \<notin> set ts"
    using assms(1,3) digit_not_sign by (auto simp: list_all_iff)
  have one: "split_once (CHR ''-'') (ds @ CHR ''-'' # ts @ CHR ''-'' # uuid) = Some (ds, ts @ CHR ''-'' # uuid)"
    using split_once_append [OF nodash(1)] by simp
  have uu: "strip_uuid (ts @ CHR ''-'' # uuid) = Some ts"
    unfolding strip_uuid_def split_once_append [OF nodash(2)] using assms(5,6) by simp
  have pre: "strip_prefix ''synora-'' ?n = Some (ds @ CHR ''-'' # ts @ CHR ''-'' # uuid)"
    by (simp add: snapshot_name_def)
  have parsed: "parse_snapshot_name L ?n o' = Some (date * 86400 + tod - o')" for o'
    unfolding parse_snapshot_name_def pre bind_opt_simps one
    using assms by (simp add: uu two_digits_value year_value)
  have "is_hexdigit b \<Longrightarrow> is_alphanumeric b" for b by (auto simp: is_hexdigit_def is_alphanumeric_def)
  then have "list_all (\<lambda>b. is_alphanumeric b \<or> b = CHR ''-'' \<or> b = CHR ''_'') ?n"
    using assms(1,3,6) digit_not_sign
    by (auto simp: snapshot_name_def list_all_iff) (auto simp: is_alphanumeric_def)
  then have "validate_name ?n = Ok ()" using assms(2,4,5) by (simp add: validate_name_def snapshot_name_def)
  with parsed show ?thesis by (simp add: matches_synora_def)
qed

definition demo_cal :: cal_lib where
  "demo_cal = \<lparr>from_calendar_date = (\<lambda>y m d. if 1 \<le> m \<and> m \<le> 12 \<and> 1 \<le> d \<and> d \<le> 28 then Some (y * 372 + int m * 31 + int d) else None),
     from_hms = (\<lambda>h m s. if h < 24 \<and> m < 60 \<and> s < 60 then Some (int (h * 3600 + m * 60 + s)) else None),
     ts_in_range = (\<lambda>_. True), year_of = (\<lambda>d. d div 372), month_of = (\<lambda>d. nat (d mod 372 div 31)),
     iso_week = (\<lambda>d. nat (d mod 372 div 7)), number_from_monday = (\<lambda>d. nat (d mod 7) + 1)\<rparr>"

theorem created_name_recognised_witness:
  "matches_synora demo_cal (snapshot_name (''synora-'' @ ''20260214'' @ ''-'' @ ''031500'') (replicate 36 (CHR ''a'')))"
  using created_name_recognised [of "''20260214''" "''031500''" "replicate 36 (CHR ''a'')" demo_cal "2026 * 372 + 2 * 31 + 14" "3 * 3600 + 15 * 60"]
  by (simp add: is_digit_def is_hexdigit_def list_all_iff slice_def digits_val_def digit_val_def demo_cal_def)


text \<open>Without a retention policy everything goes. With the default policy, in which no number is
  set, the plan deletes every snapshot of the convention, the newest one included.\<close>

lemma prune_plan_default_deletes_all:
  "set (prune_plan L snaps default_retention off) = {si_name s | s. s \<in> set snaps \<and> matches_synora L (si_name s)}"
  by (auto simp: set_prune_plan prune_keep_def default_retention_def kept_last_def kept_by_def Let_def)

text \<open>Names cannot carry arguments. With an invalid name (empty, over 200 bytes, or with a byte
  other than a letter, digit, dash or underscore) no provider operation creates or deletes anything:
  creation and deletion fail before any command is run, and so does a Btrfs rollback before it locks
  or copies; a ZFS rollback ends in an error.\<close>

lemma invalid_name_runs_nothing:
  assumes "validate_name n \<noteq> Ok ()"
  shows "zfs_create cli ds n now w = (Err (SnapCommand ''invalid snapshot name''), w)
    \<and> zfs_delete cli ds n w = (Err (SnapCommand ''invalid snapshot name''), w)
    \<and> btrfs_create cli ds n w = (Err (SnapCommand ''invalid snapshot name''), w)
    \<and> btrfs_delete cli ds n w = (Err (SnapCommand ''invalid snapshot name''), w)
    \<and> btrfs_rollback cli lock exchange uuid ds n w = (Err (SnapCommand ''invalid snapshot name''), w)
    \<and> (\<exists>e. fst (zfs_rollback cli lock ds n w) = Err e)"
proof -
  have e: "validate_name n = Err (SnapCommand ''invalid snapshot name'')" using assms validate_name_cases by auto
  have "\<exists>e. fst (zfs_rollback cli lock ds n w) = Err e"
    by (auto simp: zfs_rollback_def io_bind_def io_err_def io_lift_def e split: prod.split sum.split)
  with e show ?thesis
    by (simp add: zfs_create_def zfs_delete_def btrfs_create_def btrfs_delete_def btrfs_rollback_def)
qed

lemma invalid_name_runs_nothing_witness:
  "zfs_delete (\<lambda>_ _ n. (Ok [], Suc n)) ''tank/a'' ''x@y'' 0 = (Err (SnapCommand ''invalid snapshot name''), 0)"
  using invalid_name_runs_nothing [of "''x@y''" "\<lambda>_ _ n. (Ok [], Suc n)" "''tank/a''" 0 0]
  by (simp add: validate_name_def is_alphanumeric_def is_digit_def)

end
