(* ===== verification/Executor.thy ===== *)
theory Executor
  imports Scheduler Snapshot
begin

text \<open>
  The executor of \<open>crates/engine/src/executor.rs\<close> and the contract of provider results of
  \<open>crates/provider/src/lib.rs\<close>.

  \<open>run_once\<close> is a function on a world \<open>'w\<close>. What it gets from outside (the provider, hooks, the file
  system, regular expressions, commands, the clock, cancellation, the resource samplers) is the record
  \<open>exec_env\<close>; storage preparation and snapshots are the definitions of the theories \<open>Storage\<close> and \<open>Snapshot\<close>
  over it. \<open>build_provider\<close> has no error case. Log lines are not modelled; of the messages of a safety
  violation, of a failed snapshot and of a failed verify command only the fixed part is kept. The engine side (\<open>execute_run\<close>, \<open>finish_run\<close>, \<open>metrics_tail\<close>) is a function on
  the engine's state.
\<close>

section \<open>Provider results\<close>

datatype ProviderError = Spawn string | Exit int | PTimeout | PCancelled | PConfig string | POther string

fun provider_kind :: "ProviderError \<Rightarrow> ErrorKind" where
  "provider_kind PTimeout = TimeoutError"
| "provider_kind (PConfig _) = ConfigError"
| "provider_kind (Spawn _) = ConfigError"
| "provider_kind _ = ProviderError"

fun error_text :: "ProviderError \<Rightarrow> string" where
  "error_text (Spawn m) = ''failed to start process: '' @ m"
| "error_text (Exit c) = ''provider exited with '' @ show_int c"
| "error_text PTimeout = ''provider timed out''"
| "error_text PCancelled = ''cancelled by operator''"
| "error_text (PConfig m) = ''invalid provider config: '' @ m"
| "error_text (POther m) = ''provider failed: '' @ m"

text \<open>Standard output and error are given as the text of their lossy decoding.\<close>

record SyncResult =
  res_exit_code :: "int option"
  res_stdout :: string
  res_stderr :: string
  res_size_hint :: "nat option"
  res_bytes_transferred :: "nat option"
  res_message :: "string option"
  res_status :: "string option"

definition ok_status :: "string \<Rightarrow> bool" where
  "ok_status s \<longleftrightarrow> s = ''success'' \<or> s = ''success_with_warnings''"

definition process_result_is_success :: "int option \<Rightarrow> string option \<Rightarrow> int list \<Rightarrow> bool" where
  "process_result_is_success exit_code reported allowed \<longleftrightarrow>
     (case reported of None \<Rightarrow> True | Some s \<Rightarrow> ok_status s)
     \<and> (case exit_code of None \<Rightarrow> False | Some c \<Rightarrow> c = 0 \<or> c \<in> set allowed)"

definition reported_completion_failure_reason :: "JobSpec \<Rightarrow> int option \<Rightarrow> string option \<Rightarrow> string option" where
  "reported_completion_failure_reason job exit_code reported =
     (let allowed = (case provider job of Rsync _ _ \<Rightarrow> success_exit_codes job
                     | TwoStageRsync _ _ _ \<Rightarrow> success_exit_codes job | _ \<Rightarrow> [])
      in if process_result_is_success exit_code reported allowed then None
         else (case reported of
                 Some s \<Rightarrow> if \<not> ok_status s then Some (''provider reported status '' @ s)
                           else Some (case exit_code of Some c \<Rightarrow> ''provider exited with '' @ show_int c
                                      | None \<Rightarrow> ''provider terminated without an exit code'')
               | None \<Rightarrow> Some (case exit_code of Some c \<Rightarrow> ''provider exited with '' @ show_int c
                               | None \<Rightarrow> ''provider terminated without an exit code'')))"

definition sync_result_failure_reason :: "JobSpec \<Rightarrow> SyncResult \<Rightarrow> string option" where
  "sync_result_failure_reason job r = reported_completion_failure_reason job (res_exit_code r) (res_status r)"

section \<open>The environment of a run\<close>

record 'w exec_env =
  x_storage :: "'w storage_env"
  x_cli :: "'w cli"
  x_cal :: cal_lib
  x_float :: float_ops
  x_sync :: "JobSpec \<Rightarrow> ('w, ProviderError, SyncResult) io"  \<comment> \<open>\<open>provider.sync\<close> to its natural end\<close>
  x_times_out :: "int \<Rightarrow> JobSpec \<Rightarrow> 'w \<Rightarrow> bool"            \<comment> \<open>the timer wins the \<open>select\<close>\<close>
  x_abort :: "JobSpec \<Rightarrow> 'w \<Rightarrow> 'w"                      \<comment> \<open>cancel the provider and wait for it\<close>
  x_hook :: "string \<Rightarrow> JobSpec \<Rightarrow> string option \<Rightarrow> 'w \<Rightarrow> 'w"
  x_cancelled :: "'w \<Rightarrow> bool"
  x_create_dir :: "string \<Rightarrow> ('w, string, unit) io"
  x_walk :: "string \<Rightarrow> 'w \<Rightarrow> nat \<times> nat"                 \<comment> \<open>files and bytes below a directory\<close>
  x_exists :: "string \<Rightarrow> 'w \<Rightarrow> bool"
  x_is_match :: "string \<Rightarrow> string \<Rightarrow> bool option"       \<comment> \<open>\<open>None\<close>: not a regular expression\<close>
  x_command :: "string \<Rightarrow> JobSpec \<Rightarrow> ('w, string, int option) io"
  x_stamp :: "'w \<Rightarrow> string"
  x_uuid :: "'w \<Rightarrow> string"
  x_clock :: "'w \<Rightarrow> int"
  x_usage :: "'w \<Rightarrow> nat option \<times> f64 option"
  x_lock :: "string \<Rightarrow> ('w, string, unit) io"                     \<comment> \<open>\<open>StorageLock::acquire\<close>\<close>
  x_lock_under :: "string \<Rightarrow> string \<Rightarrow> ('w, string, unit) io"        \<comment> \<open>\<open>StorageLock::acquire_under\<close>\<close>
  x_measure :: "string \<Rightarrow> 'w \<Rightarrow> nat option"               \<comment> \<open>\<open>measure_repo_size\<close>\<close>

record RunOutcome =
  out_result :: "ProviderError + SyncResult"
  out_duration :: int
  out_mem_peak :: "nat option"
  out_cpu_seconds :: "f64 option"

section \<open>Snapshots of a run\<close>

datatype snap_provider = ZfsProvider string | BtrfsProvider string

fun provider_for :: "StorageKind \<Rightarrow> SnapshotError + snap_provider" where
  "provider_for Dir = Err (SnapUnsupported ''dir storage does not support snapshots'')"
| "provider_for (Zfs pl ds _) = Ok (ZfsProvider (zfs_dataset_id pl ds))"
| "provider_for (Btrfs sv) = Ok (BtrfsProvider sv)"

definition parent_or_self :: "string \<Rightarrow> string" where
  "parent_or_self p = (let cs = path_components p
     in if cs = [] then p else (if is_absolute p then ''/'' else []) @ join_with ''/'' (butlast cs))"

definition btrfs_list :: "cal_lib \<Rightarrow> 'w cli \<Rightarrow> string \<Rightarrow> ('w, SnapshotInfo list) sio" where
  "btrfs_list L cli subvol =
     io_bind (cli ''btrfs'' [''subvolume'', ''list'', ''-o'', parent_or_self subvol]) (\<lambda>out. io_ret (parse_btrfs_list L out))"

definition snap_create :: "'w exec_env \<Rightarrow> snap_provider \<Rightarrow> string \<Rightarrow> ('w, SnapshotInfo) sio" where
  "snap_create E p n w =
     (case p of ZfsProvider ds \<Rightarrow> zfs_create (x_cli E) ds n (x_clock E w) w | BtrfsProvider sv \<Rightarrow> btrfs_create (x_cli E) sv n w)"

definition snap_delete :: "'w exec_env \<Rightarrow> snap_provider \<Rightarrow> string \<Rightarrow> ('w, unit) sio" where
  "snap_delete E p n = (case p of ZfsProvider ds \<Rightarrow> zfs_delete (x_cli E) ds n | BtrfsProvider sv \<Rightarrow> btrfs_delete (x_cli E) sv n)"

definition snap_list :: "'w exec_env \<Rightarrow> snap_provider \<Rightarrow> ('w, SnapshotInfo list) sio" where
  "snap_list E p = (case p of ZfsProvider ds \<Rightarrow> zfs_list (x_cli E) ds | BtrfsProvider sv \<Rightarrow> btrfs_list (x_cal E) (x_cli E) sv)"

definition job_snapshots :: "RunStorageCtx option \<Rightarrow> JobSpec \<Rightarrow> snap_provider option" where
  "job_snapshots ctx job =
     Option.bind ctx (\<lambda>c. Option.bind (storage_for c job) (\<lambda>(_, sc).
       case provider_for (st_kind sc) of Inl _ \<Rightarrow> None | Inr p \<Rightarrow> Some p))"

text \<open>Deletions whose failure is only logged.\<close>

fun prune_each :: "'w exec_env \<Rightarrow> snap_provider \<Rightarrow> string list \<Rightarrow> 'w \<Rightarrow> 'w" where
  "prune_each E p [] w = w"
| "prune_each E p (n # ns) w = prune_each E p ns (snd (snap_delete E p n w))"

section \<open>Checks of a run\<close>

definition safety_on :: "JobSpec \<Rightarrow> bool" where
  "safety_on job \<longleftrightarrow> max_delete_files (safety job) \<noteq> None \<or> max_delete_ratio (safety job) \<noteq> None
     \<or> max_size_drop_ratio (safety job) \<noteq> None"

definition safety_violation :: "float_ops \<Rightarrow> JobSpec \<Rightarrow> nat \<times> nat \<Rightarrow> nat \<times> nat \<Rightarrow> ProviderError option" where
  "safety_violation F job before after =
     (let deleted = fst before - fst after
      in if (case max_delete_files (safety job) of None \<Rightarrow> False | Some m \<Rightarrow> m < deleted)
         then Some (POther ''safety: over max_delete_files'')
         else if (case max_delete_ratio (safety job) of None \<Rightarrow> False
                  | Some ratio \<Rightarrow> 0 < fst before \<and> f64_lt ratio (fdiv F (of_u64 F deleted) (of_u64 F (fst before))))
         then Some (POther ''safety: over max_delete_ratio'')
         else if (case max_size_drop_ratio (safety job) of None \<Rightarrow> False
                  | Some ratio \<Rightarrow> 0 < snd before
                      \<and> f64_lt (of_u64 F (snd after)) (fmul F (of_u64 F (snd before)) (fsub F (Fin 1) ratio)))
         then Some (POther ''safety: over max_size_drop_ratio'')
         else None)"

definition fails_on_match :: "'w exec_env \<Rightarrow> JobSpec \<Rightarrow> SyncResult \<Rightarrow> bool" where
  "fails_on_match E job r =
     (case fail_on_match job of
        None \<Rightarrow> False
      | Some re \<Rightarrow> opt_default False (x_is_match E re (res_stdout r @ [CHR 0x0A] @ res_stderr r)))"

definition verify_check :: "'w exec_env \<Rightarrow> JobSpec \<Rightarrow> SyncResult \<Rightarrow> string \<Rightarrow> ('w, string, unit) io" where
  "verify_check E job r check w =
     (if check = ''path'' then
        (if x_exists E (storage job) w then (Ok (), w) else (Err (''storage path '' @ storage job @ '' missing''), w))
      else if check = ''size'' then
        (let sz = (case res_size_hint r of Some s \<Rightarrow> Some s
                   | None \<Rightarrow> if statistics job = StatFilesystem then Some (snd (x_walk E (storage job) w)) else None)
         in if opt_default 0 sz = 0 then (Err ''repository size is zero'', w) else (Ok (), w))
      else if check = ''command'' then
        (case verify_command (verify job) of
           None \<Rightarrow> (Err ''verify `command` check configured without a command'', w)
         | Some cmd \<Rightarrow>
             (case x_command E cmd job w of
                (Inl e, w1) \<Rightarrow> (Err e, w1)
              | (Inr code, w1) \<Rightarrow>
                  if code = Some 0 then (Ok (), w1) else (Err (''verify command `'' @ cmd @ ''` failed''), w1)))
      else (Err (''unknown verify check `'' @ check @ ''`''), w))"

fun verify_all :: "'w exec_env \<Rightarrow> JobSpec \<Rightarrow> SyncResult \<Rightarrow> string list \<Rightarrow> ('w, string, unit) io" where
  "verify_all E job r [] w = (Ok (), w)"
| "verify_all E job r (c # cs) w =
     (case verify_check E job r c w of (Inl e, w1) \<Rightarrow> (Err e, w1) | (Inr _, w1) \<Rightarrow> verify_all E job r cs w1)"

definition run_verify :: "'w exec_env \<Rightarrow> JobSpec \<Rightarrow> SyncResult \<Rightarrow> ('w, string, unit) io" where
  "run_verify E job r w = (if \<not> verify_enabled (verify job) then (Ok (), w) else verify_all E job r (checks (verify job)) w)"

text \<open>A hook's outcome is only logged; a cancelled run skips the rest.\<close>

fun run_hooks :: "'w exec_env \<Rightarrow> string list \<Rightarrow> JobSpec \<Rightarrow> string option \<Rightarrow> 'w \<Rightarrow> 'w" where
  "run_hooks E [] job st w = w"
| "run_hooks E (h # hs) job st w = (if x_cancelled E w then w else run_hooks E hs job st (x_hook E h job st w))"

section \<open>One run\<close>

fun storage_error_text :: "StorageError \<Rightarrow> string" where
  "storage_error_text (StCommand m) = m"
| "storage_error_text StNotFound = ''storage backend not found''"
| "storage_error_text StNotEmpty = ''storage target is not empty (require_empty)''"
| "storage_error_text (StUnsupported m) = m"

definition storage_gate :: "'w exec_env \<Rightarrow> RunStorageCtx option \<Rightarrow> JobSpec \<Rightarrow> ('w, ProviderError, unit) io" where
  "storage_gate E ctx job w =
     (case ctx of
        None \<Rightarrow> (Ok (), w)
      | Some c \<Rightarrow>
          (case storage_for c job of
             None \<Rightarrow> (Ok (), w)
           | Some (n, _) \<Rightarrow>
               (case ensure (x_storage E) (map_of (ctx_storages c)) n w of
                  (Inl e, w1) \<Rightarrow> (Err (POther (''storage: '' @ storage_error_text e)), w1)
                | (Inr path, w1) \<Rightarrow>
                    (case check_min_free (x_storage E) path (ctx_min_free_bytes c) w1 of
                       Inl e \<Rightarrow> (Err (POther (''BLOCKED_STORAGE: '' @ storage_error_text e)), w1)
                     | Inr _ \<Rightarrow> (Ok (), w1)))))"

definition dir_gate :: "'w exec_env \<Rightarrow> JobSpec \<Rightarrow> ('w, ProviderError, unit) io" where
  "dir_gate E job w =
     (case x_create_dir E (storage job) w of
        (Inl e, w1) \<Rightarrow> (Err (PConfig (''cannot create storage dir: '' @ e)), w1)
      | (Inr _, w1) \<Rightarrow> (Ok (), w1))"

definition new_snapshot :: "'w exec_env \<Rightarrow> snap_provider option \<Rightarrow> 'w \<Rightarrow> bool \<times> 'w" where
  "new_snapshot E sp w =
     (case sp of
        None \<Rightarrow> (False, w)
      | Some p \<Rightarrow> (case snap_create E p (snapshot_name (x_stamp E w) (x_uuid E w)) w of
                     (Inl _, w1) \<Rightarrow> (False, w1) | (Inr _, w1) \<Rightarrow> (True, w1)))"

definition before_gate :: "'w exec_env \<Rightarrow> RunStorageCtx option \<Rightarrow> JobSpec \<Rightarrow> ('w, ProviderError, unit) io" where
  "before_gate E ctx job w =
     (if snapshot_policy job \<in> {BeforeSync, BeforeAndAfter} then
        (case new_snapshot E (job_snapshots ctx job) w of (made, w1) \<Rightarrow>
           if \<not> made \<and> snapshot_failure job = SnapFail then (Err (POther ''before-sync snapshot''), w1) else (Ok (), w1))
      else (Ok (), w))"

definition gates :: "'w exec_env \<Rightarrow> RunStorageCtx option \<Rightarrow> JobSpec \<Rightarrow> ('w, ProviderError, unit) io" where
  "gates E ctx job =
     io_bind (storage_gate E ctx job) (\<lambda>_. io_bind (dir_gate E job) (\<lambda>_. before_gate E ctx job))"

text \<open>The provider under the job's timeout.\<close>

definition timed_sync :: "'w exec_env \<Rightarrow> JobSpec \<Rightarrow> ('w, ProviderError, SyncResult) io" where
  "timed_sync E job w =
     (case timeout job of
        None \<Rightarrow> x_sync E job w
      | Some t \<Rightarrow> if x_times_out E (max t 1) job w then (Err PTimeout, x_abort E job w) else x_sync E job w)"

text \<open>The verdict on a result: safety limits, output match, verification.\<close>

definition judge :: "'w exec_env \<Rightarrow> JobSpec \<Rightarrow> nat \<times> nat \<Rightarrow> ProviderError + SyncResult \<Rightarrow> ('w, ProviderError, SyncResult) io" where
  "judge E job before outcome w =
     (case outcome of
        Inl e \<Rightarrow> (Err e, w)
      | Inr r \<Rightarrow>
          (case (if safety_on job then safety_violation (x_float E) job before (x_walk E (storage job) w) else None) of
             Some e \<Rightarrow> (Err e, w)
           | None \<Rightarrow>
               if fails_on_match E job r then (Err (POther ''output matched fail_on_match''), w)
               else (case run_verify E job r w of
                       (Inl m, w1) \<Rightarrow> (Err (POther (''verify failed: '' @ m)), w1)
                     | (Inr _, w1) \<Rightarrow> (Ok r, w1))))"

definition after_snapshot :: "'w exec_env \<Rightarrow> RunStorageCtx option \<Rightarrow> JobSpec \<Rightarrow> SyncResult \<Rightarrow> ('w, ProviderError, SyncResult) io" where
  "after_snapshot E ctx job r w =
     (if snapshot_policy job \<in> {AfterSuccess, BeforeAndAfter} then
        (case job_snapshots ctx job of
           None \<Rightarrow> if snapshot_failure job = SnapFail
                   then (Err (POther ''snapshot backend unavailable for this storage''), w) else (Ok r, w)
         | Some p \<Rightarrow>
             (case snap_create E p (snapshot_name (x_stamp E w) (x_uuid E w)) w of
                (Inl _, w1) \<Rightarrow> if snapshot_failure job = SnapFail then (Err (POther ''after-success snapshot''), w1) else (Ok r, w1)
              | (Inr _, w1) \<Rightarrow>
                  (case ctx of
                     None \<Rightarrow> (Ok r, w1)
                   | Some c \<Rightarrow>
                       (case snap_list E p w1 of
                          (Inl _, w2) \<Rightarrow> (Ok r, w2)
                        | (Inr snaps, w2) \<Rightarrow> (Ok r, prune_each E p (prune_plan (x_cal E) snaps (ctx_retention c) 0) w2)))))
      else (Ok r, w))"

definition run_once_inner :: "'w exec_env \<Rightarrow> RunStorageCtx option \<Rightarrow> JobSpec \<Rightarrow> 'w \<Rightarrow> RunOutcome \<times> 'w" where
  "run_once_inner E ctx job w =
     (case gates E ctx job w of
        (Inl e, w1) \<Rightarrow> (\<lparr>out_result = Err e, out_duration = x_clock E w1 - x_clock E w, out_mem_peak = None, out_cpu_seconds = None\<rparr>, w1)
      | (Inr _, w1) \<Rightarrow>
          (let w2 = run_hooks E (before_sync (hooks job)) job None w1;
               before = (if safety_on job then x_walk E (storage job) w2 else (0, 0));
               (outcome, w3) = timed_sync E job w2;
               w4 = run_hooks E (after_sync (hooks job)) job None w3;
               (res, w5) = io_bind (judge E job before outcome) (after_snapshot E ctx job) w4;
               (mem, cpu) = x_usage E w5
           in (\<lparr>out_result = res, out_duration = x_clock E w5 - x_clock E w, out_mem_peak = mem, out_cpu_seconds = cpu\<rparr>, w5)))"

definition resolve_local_job :: "JobSpec \<Rightarrow> RunStorageCtx option \<Rightarrow> JobSpec" where
  "resolve_local_job job ctx =
     (case ctx of
        None \<Rightarrow> job
      | Some c \<Rightarrow>
          if storage_name job = None then job
          else if path_eq (resolve_storage_path c job) (storage job) then job
          else job\<lparr>storage := resolve_storage_path c job\<rparr>)"

definition run_lock_path :: "RunStorageCtx option \<Rightarrow> JobSpec \<Rightarrow> string" where
  "run_lock_path ctx hook_job =
     (case Option.bind ctx (\<lambda>c. storage_for c hook_job) of
        None \<Rightarrow> storage hook_job
      | Some (_, cfg) \<Rightarrow>
          (case st_kind cfg of
             Zfs pl ds _ \<Rightarrow> opt_default (''/'' @ zfs_dataset_id pl ds) (mountpoint cfg)
           | Btrfs sv \<Rightarrow> sv
           | Dir \<Rightarrow> storage hook_job))"

definition run_lock :: "'w exec_env \<Rightarrow> RunStorageCtx option \<Rightarrow> JobSpec \<Rightarrow> JobSpec \<Rightarrow> ('w, string, unit) io" where
  "run_lock E ctx job hook_job w =
     (if snapshot_policy job \<in> {SnapNever, SnapManual} \<and> is_dir (x_storage E) (run_lock_path ctx hook_job) w
      then x_lock_under E (run_lock_path ctx hook_job) (storage hook_job) w
      else x_lock E (run_lock_path ctx hook_job) w)"

definition failed_early :: "ProviderError \<Rightarrow> RunOutcome" where
  "failed_early e = \<lparr>out_result = Err e, out_duration = 0, out_mem_peak = None, out_cpu_seconds = None\<rparr>"

definition succeeded :: "JobSpec \<Rightarrow> ProviderError + SyncResult \<Rightarrow> bool" where
  "succeeded job res = (case res of Inl _ \<Rightarrow> False | Inr r \<Rightarrow> sync_result_failure_reason job r = None)"

definition run_once :: "'w exec_env \<Rightarrow> RunStorageCtx option \<Rightarrow> JobSpec \<Rightarrow> 'w \<Rightarrow> RunOutcome \<times> 'w" where
  "run_once E ctx job w =
     (let hook_job = resolve_local_job job ctx
      in case run_lock E ctx job hook_job w of
           (Inl e, w1) \<Rightarrow> (failed_early (POther e), w1)
         | (Inr _, w1) \<Rightarrow>
             if x_cancelled E w1 then (failed_early PCancelled, w1)
             else
               (let (outcome, w2) = run_once_inner E ctx hook_job w1; ok = succeeded hook_job (out_result outcome)
                in (outcome, run_hooks E (if ok then on_success (hooks hook_job) else on_failure (hooks hook_job)) hook_job
                               (Some (if ok then ''success'' else ''failure'')) w2)))"

section \<open>The engine's side of a run\<close>

definition job_label :: "JobSpec \<Rightarrow> (string \<times> string) list" where
  "job_label job = [(''job'', name job)]"

definition local_labels :: "JobSpec \<Rightarrow> (string \<times> string) list" where
  "local_labels job = [(''job'', name job), (''worker'', LOCAL_WORKER)]"

definition resource_metrics :: "string list" where
  "resource_metrics = [''synora_job_memory_bytes'', ''synora_job_cpu_seconds'', ''synora_job_cpu_percent'', ''synora_job_bandwidth_bytes'']"

definition log_event :: "'tz engine_env \<Rightarrow> string \<Rightarrow> string \<Rightarrow> string \<Rightarrow> string \<Rightarrow> int \<Rightarrow> engine \<Rightarrow> engine" where
  "log_event E job i level message now e =
     (let (ev, e1) = draw_id E e in on_db_ignored (insert_event ev (Some job) (Some i) level message now) e1)"

definition engine_notify :: "NotificationConfig \<Rightarrow> string \<Rightarrow> string \<Rightarrow> engine \<Rightarrow> engine" where
  "engine_notify cfg event job e = e\<lparr>failure_streak := snd (notify cfg event (Some job) (failure_streak e))\<rparr>"

definition size_after :: "JobSpec \<Rightarrow> SyncResult \<Rightarrow> nat option \<Rightarrow> nat \<Rightarrow> int option" where
  "size_after job r measured walked =
     (case res_size_hint r of
        Some h \<Rightarrow> Some (u64_as_i64 h)
      | None \<Rightarrow> (case measured of
                   Some z \<Rightarrow> Some (u64_as_i64 z)
                 | None \<Rightarrow> if statistics job = StatFilesystem then Some (u64_as_i64 walked) else None))"

definition metrics_tail :: "float_ops \<Rightarrow> JobSpec \<Rightarrow> JobStatus \<Rightarrow> int \<Rightarrow> int \<Rightarrow> int \<Rightarrow> bool \<Rightarrow> Metrics \<Rightarrow> Metrics" where
  "metrics_tail F job status started ended duration success m =
     (let m1 = set_job_gauge ''synora_job_status'' (name job) (local_labels job) (Fin (of_nat (status_value status))) m;
          m2 = set_gauge ''synora_job_last_end_timestamp'' (job_label job) (of_i64 F ended) m1;
          m3 = set_gauge ''synora_job_last_start_timestamp'' (job_label job) (of_i64 F started) m2;
          m4 = set_gauge ''synora_job_duration_seconds'' (job_label job) (of_i64 F duration) m3
      in if success
         then inc_counter F ''synora_job_success_total'' (job_label job) (Fin 1)
                (set_gauge ''synora_job_last_success_timestamp'' (job_label job) (of_i64 F ended) m4)
         else m4)"

definition success_status :: "SyncResult \<Rightarrow> JobStatus" where
  "success_status r = (if res_status r = Some ''success_with_warnings'' then SuccessWithWarnings else Success)"

definition success_text :: "JobStatus \<Rightarrow> string" where
  "success_text s = (if s = SuccessWithWarnings then ''run completed with warnings'' else ''run succeeded'')"

definition success_completion :: "JobSpec \<Rightarrow> SyncResult \<Rightarrow> int option \<Rightarrow> int \<Rightarrow> completion" where
  "success_completion job r sz duration =
     \<lparr>cp_exit_code = res_exit_code r, cp_size_before = None, cp_size_after = sz,
      cp_bytes = map_option u64_as_i64 (res_bytes_transferred r), cp_message = res_message r, cp_duration = duration\<rparr>"

definition success_tail ::
  "'tz engine_env \<Rightarrow> NotificationConfig \<Rightarrow> JobSpec \<Rightarrow> string \<Rightarrow> SyncResult \<Rightarrow> int option \<Rightarrow> RunOutcome \<Rightarrow> int \<Rightarrow> engine \<Rightarrow> engine" where
  "success_tail E cfg job i r sz out now e =
     (let s = success_status r; F = fops E;
          e1 = on_db_ignored (finish_run i s (success_completion job r sz (out_duration out)) now) e;
          e2 = (case sz of
                  None \<Rightarrow> e1
                | Some z \<Rightarrow> on_metrics (set_gauge ''synora_repository_size_bytes'' (job_label job) (of_i64 F z))
                              (on_db_ignored (set_repository_size (storage job) z now) e1));
          e3 = (case res_bytes_transferred r of
                  None \<Rightarrow> e2
                | Some b \<Rightarrow> on_metrics (inc_counter F ''synora_job_bytes_transferred_total'' (local_labels job) (of_u64 F b)) e2);
          e4 = (case out_cpu_seconds out of
                  None \<Rightarrow> e3
                | Some c \<Rightarrow> on_metrics (inc_counter F ''synora_job_cpu_usage_seconds_total'' (local_labels job) c) e3);
          e5 = log_event E (name job) i (if s = SuccessWithWarnings then ''WARN'' else ''INFO'') (success_text s) now e4
      in engine_notify cfg ''sync_success'' (name job) e5)"

definition failure_kind :: "ProviderError + SyncResult \<Rightarrow> ErrorKind" where
  "failure_kind res = (case res of Inl e \<Rightarrow> provider_kind e | Inr _ \<Rightarrow> ProviderError)"

definition failure_message :: "JobSpec \<Rightarrow> ProviderError + SyncResult \<Rightarrow> string" where
  "failure_message job res =
     (case res of Inl e \<Rightarrow> error_text e
      | Inr r \<Rightarrow> opt_default ''provider result marked failure'' (sync_result_failure_reason job r))"

definition retry_of :: "float_ops \<Rightarrow> JobSpec \<Rightarrow> ErrorKind \<Rightarrow> nat \<Rightarrow> RetryDecision" where
  "retry_of F job kind tries = retry_decision F kind tries (retry job) (nat (max (retry_delay job) 1)) (retry_backoff job)"

definition local_retry :: "'tz engine_env \<Rightarrow> JobSpec \<Rightarrow> string \<Rightarrow> nat \<Rightarrow> nat \<Rightarrow> string \<Rightarrow> int \<Rightarrow> engine \<Rightarrow> engine" where
  "local_retry E job i tries delay message now e =
     (let e1 = on_db_ignored (set_retry i (now + int delay) (tries + 1)) e;
          e2 = on_db_ignored (set_run_status i Retrying) e1;
          e3 = on_metrics (inc_counter (fops E) ''synora_job_retries_total'' (job_label job) (Fin 1)) e2
      in log_event E (name job) i ''WARN'' (''retry scheduled: '' @ message) now e3)"

definition failure_completion :: "ProviderError + SyncResult \<Rightarrow> string \<Rightarrow> int \<Rightarrow> completion" where
  "failure_completion res message duration =
     \<lparr>cp_exit_code = (case res of Inl _ \<Rightarrow> None | Inr r \<Rightarrow> res_exit_code r), cp_size_before = None, cp_size_after = None,
      cp_bytes = None, cp_message = Some message, cp_duration = duration\<rparr>"

definition failure_tail ::
  "'tz engine_env \<Rightarrow> NotificationConfig \<Rightarrow> JobSpec \<Rightarrow> string \<Rightarrow> RunOutcome \<Rightarrow> string \<Rightarrow> int \<Rightarrow> engine \<Rightarrow> engine" where
  "failure_tail E cfg job i out message now e =
     (let e1 = on_db_ignored (finish_run i Failed (failure_completion (out_result out) message (out_duration out)) now) e;
          e2 = on_metrics (inc_counter (fops E) ''synora_job_failures_total'' (job_label job) (Fin 1)) e1;
          e3 = log_event E (name job) i ''ERROR'' (''run failed: '' @ message) now e2
      in engine_notify cfg ''sync_failed'' (name job) e3)"

definition closing_tail :: "'tz engine_env \<Rightarrow> JobSpec \<Rightarrow> string \<Rightarrow> JobStatus \<Rightarrow> RunOutcome \<Rightarrow> bool \<Rightarrow> int \<Rightarrow> engine \<Rightarrow> engine" where
  "closing_tail E job i status out success now e =
     (let e1 = on_metrics (fold (\<lambda>metric. remove_job_worker_metric metric (name job) LOCAL_WORKER) resource_metrics) e;
          e2 = on_metrics (metrics_tail (fops E) job status (now - out_duration out) now (out_duration out) success) e1
      in if out_mem_peak out \<noteq> None \<or> out_cpu_seconds out \<noteq> None
         then on_db_ignored (set_run_resources i (out_mem_peak out) (out_cpu_seconds out)) e2 else e2)"

definition cancelled_completion :: "int \<Rightarrow> completion" where
  "cancelled_completion duration = (no_outcome (Some ''cancelled by operator''))\<lparr>cp_duration := duration\<rparr>"

text \<open>\<open>finish_run\<close> of the executor; \<open>measured\<close> and \<open>walked\<close> are what \<open>size_after\<close> reads from the file system.\<close>

definition finish_outcome ::
  "'tz engine_env \<Rightarrow> NotificationConfig \<Rightarrow> string \<Rightarrow> JobSpec \<Rightarrow> RunOutcome \<Rightarrow> nat option \<Rightarrow> nat \<Rightarrow> int \<Rightarrow> engine \<Rightarrow> engine" where
  "finish_outcome E cfg i job out measured walked now e =
     (let tries = (case get_run i (en_db e) of None \<Rightarrow> 0 | Some r \<Rightarrow> rr_retry_count r);
          res = out_result out; message = failure_message job res
      in if res = Inl PCancelled then
           on_metrics (metrics_tail (fops E) job Cancelled (now - out_duration out) now (out_duration out) False)
             (log_event E (name job) i ''WARN'' ''run cancelled'' now
               (on_db_ignored (finish_run i Cancelled (cancelled_completion (out_duration out)) now) e))
         else if succeeded job res then
           (case res of
              Inr r \<Rightarrow> closing_tail E job i (success_status r) out True now
                         (success_tail E cfg job i r (size_after job r measured walked) out now e)
            | Inl _ \<Rightarrow> e)
         else
           (case retry_of (fops E) job (failure_kind res) tries of
              Retry delay \<Rightarrow> local_retry E job i tries delay message now e
            | NoRetry \<Rightarrow> closing_tail E job i Failed out False now (failure_tail E cfg job i out message now e)))"

definition start_run :: "'tz engine_env \<Rightarrow> string \<Rightarrow> string \<Rightarrow> JobSpec \<Rightarrow> int \<Rightarrow> engine \<Rightarrow> engine" where
  "start_run E log_path i job now e =
     (let e1 = on_db_ignored (insert_log i (name job) log_path now) e;
          e2 = on_db_ignored (set_run_status i Running) e1;
          e3 = on_metrics (set_job_gauge ''synora_job_status'' (name job) (local_labels job) (Fin (of_nat (status_value Running)))) e2;
          e4 = on_metrics (set_gauge ''synora_job_last_start_timestamp'' (job_label job) (of_i64 (fops E) now)) e3;
          e5 = on_metrics (inc_counter (fops E) ''synora_job_runs_total'' (job_label job) (Fin 1)) e4
      in register_run (name job) e5)"

text \<open>\<open>execute_run\<close>: start, run, apply the outcome, give the permit back.\<close>

definition execute_run ::
  "'tz engine_env \<Rightarrow> 'w exec_env \<Rightarrow> NotificationConfig \<Rightarrow> RunStorageCtx option \<Rightarrow> string \<Rightarrow> string \<Rightarrow> JobSpec \<Rightarrow> 'w \<times> engine \<Rightarrow> 'w \<times> engine" where
  "execute_run E X cfg ctx log_path i job = (\<lambda>(w, e).
     let e1 = start_run E log_path i job (x_clock X w) e;
         (out, w1) = run_once X ctx job w;
         e2 = finish_outcome E cfg i job out (x_measure X (storage job) w1) (snd (x_walk X (storage job) w1)) (x_clock X w1) e1;
         e3 = snd (active_dec (name job) (remove_run (name job) e2))
     in (w1, e3\<lparr>en_permits := en_permits e3 + 1\<rparr>))"

section \<open>Edits of one run\<close>

text \<open>A step of the engine edits at most the run \<open>i\<close>.\<close>

definition row_edit :: "string \<Rightarrow> (run_rec \<Rightarrow> run_rec) \<Rightarrow> engine \<Rightarrow> engine \<Rightarrow> bool" where
  "row_edit i g e e' \<longleftrightarrow> (constraints (en_db e) \<longrightarrow> constraints (en_db e')
     \<and> t_runs (en_db e') = update_where (\<lambda>r. r_id r = i) g (t_runs (en_db e)))"

lemma row_edit_same: "constraints (en_db e) \<longrightarrow> constraints (en_db e') \<Longrightarrow> t_runs (en_db e') = t_runs (en_db e) \<Longrightarrow> row_edit i (\<lambda>r. r) e e'"
  by (simp add: row_edit_def update_where_map)

lemma row_edit_refl: "row_edit i (\<lambda>r. r) e e"
  by (simp add: row_edit_same)

lemma row_edit_trans:
  "row_edit i g a b \<Longrightarrow> row_edit i h b c \<Longrightarrow> (\<And>r. r_id (g r) = r_id r) \<Longrightarrow> row_edit i (\<lambda>r. h (g r)) a c"
  by (auto simp: row_edit_def update_where_map)

lemma row_edit_find:
  assumes "row_edit i g e e'" and "constraints (en_db e)" and "\<And>r. r_id (g r) = r_id r"
  shows "find_run (en_db e') j = (if j = i then map_option g (find_run (en_db e) j) else find_run (en_db e) j)"
proof -
  have "find (\<lambda>r. r_id r = j) (t_runs (en_db e')) =
      map_option (\<lambda>r. if r_id r = i then g r else r) (find (\<lambda>r. r_id r = j) (t_runs (en_db e)))"
    using assms by (simp add: row_edit_def find_update_where)
  then show ?thesis
    by (cases "find (\<lambda>r. r_id r = j) (t_runs (en_db e))") (auto simp: find_run_def dest: find_SomeD)
qed

named_theorems edits

lemma edit_metrics [edits]: "row_edit i (\<lambda>r. r) e (on_metrics f e)"
  by (rule row_edit_same) (simp_all add: on_metrics_def)

lemma edit_notify [edits]: "row_edit i (\<lambda>r. r) e (engine_notify cfg ev job e)"
  by (rule row_edit_same) (simp_all add: engine_notify_def)

lemma edit_event [edits]: "row_edit i (\<lambda>r. r) e (log_event E job j level m now e)"
  by (rule row_edit_same) (simp_all add: log_event_def draw_id_def insert_event_runs)

lemma edit_tokens [edits]: "row_edit i (\<lambda>r. r) e (register_run job e)" "row_edit i (\<lambda>r. r) e (remove_run job e)"
  by (rule row_edit_same; simp add: register_run_def remove_run_def)+

lemma edit_size [edits]: "row_edit i (\<lambda>r. r) e (on_db_ignored (set_repository_size p z now) e)"
proof (rule row_edit_same)
  show "constraints (en_db e) \<longrightarrow> constraints (en_db (on_db_ignored (set_repository_size p z now) e))"
    by (simp add: set_repository_size_def commit_def)
qed (simp add: set_repository_size_def commit_def)

lemma edit_log [edits]: "row_edit i (\<lambda>r. r) e (on_db_ignored (insert_log j job path now) e)"
proof (rule row_edit_same)
  show "constraints (en_db e) \<longrightarrow> constraints (en_db (on_db_ignored (insert_log j job path now) e))"
    by (simp add: insert_log_def insert_log_with_def commit_def)
qed (simp add: insert_log_def insert_log_with_def commit_def)

lemma edit_finish [edits]: "\<not> active s \<Longrightarrow> row_edit i (finished s c now) e (on_db_ignored (finish_run i s c now) e)"
  using finish_run_runs [of "en_db e" s] by (auto simp: row_edit_def)

lemma edit_plain:
  assumes "\<And>r. r_id (f r) = r_id r \<and> r_job_id (f r) = r_job_id r \<and> r_worker_id (f r) = r_worker_id r"
    and "\<And>r. active (r_status (f r)) \<Longrightarrow> active (r_status r)" and "constraints d"
  shows "update_runs (\<lambda>_ r. r_id r = i) f d = (Ok (count_where (\<lambda>r. r_id r = i) (t_runs d)), d\<lparr>t_runs := update_where (\<lambda>r. r_id r = i) f (t_runs d)\<rparr>)
    \<and> constraints (d\<lparr>t_runs := update_where (\<lambda>r. r_id r = i) f (t_runs d)\<rparr>)"
proof -
  have "update_runs (\<lambda>_ r. r_id r = i) f d =
      (Ok (count_where ((\<lambda>_ r. r_id r = i) d) (t_runs d)), d\<lparr>t_runs := update_where ((\<lambda>_ r. r_id r = i) d) f (t_runs d)\<rparr>)"
  proof (rule update_runs_commits [OF assms(3)])
    fix r q
    assume rq: "r \<in> set (t_runs d)" "q \<in> set (t_runs d)" "r_id r = i" "active (r_status (f r))" "r_job_id q = r_job_id r"
      "active (r_status q) \<or> r_id q = i"
    then show "q = r"
      using one_active [OF assms(3)] assms(2) distinct_map_inj [OF constraints_run_ids [OF assms(3)]] by metis
  qed (use assms constraints_refs [OF assms(3)] in \<open>auto simp: refs_ok_def\<close>)
  then show ?thesis using update_runs_effect by blast
qed

definition retrying :: "int \<Rightarrow> nat \<Rightarrow> run_rec \<Rightarrow> run_rec" where
  "retrying next_at tries r = r\<lparr>r_status := Retrying, r_next_retry_at := Some next_at, r_retry_count := tries\<rparr>"

lemma edit_retry [edits]: "row_edit i (retrying next_at tries) e (on_db_ignored (set_retry i next_at tries) e)"
  unfolding row_edit_def
proof (intro impI)
  assume c: "constraints (en_db e)"
  have u: "retry_stmt i next_at tries (en_db e) = (Ok (count_where (\<lambda>r. r_id r = i) (t_runs (en_db e))),
      (en_db e)\<lparr>t_runs := update_where (\<lambda>r. r_id r = i) (retrying next_at tries) (t_runs (en_db e))\<rparr>)"
    using edit_plain [OF _ _ c, of "retrying next_at tries" i]
    by (simp add: retry_stmt_def retrying_def [abs_def])
  have "constraints (snd (set_retry i next_at tries (en_db e)))"
    using run_ops_valid(11) c by (auto simp: preserves_def stays_valid_def)
  moreover have "t_runs (snd (set_retry i next_at tries (en_db e))) = update_where (\<lambda>r. r_id r = i) (retrying next_at tries) (t_runs (en_db e))"
    by (simp add: set_retry_def seq_def u set_job_status_runs)
  ultimately show "constraints (en_db (on_db_ignored (set_retry i next_at tries) e)) \<and>
    t_runs (en_db (on_db_ignored (set_retry i next_at tries) e)) = update_where (\<lambda>r. r_id r = i) (retrying next_at tries) (t_runs (en_db e))"
    by simp
qed

lemma edit_status [edits]:
  assumes "\<not> active s"
  shows "row_edit i (\<lambda>r. r\<lparr>r_status := s\<rparr>) e (on_db_ignored (set_run_status i s) e)"
  unfolding row_edit_def
proof (intro impI)
  assume c: "constraints (en_db e)"
  let ?d = "(en_db e)\<lparr>t_runs := update_where (\<lambda>r. r_id r = i) (\<lambda>r. r\<lparr>r_status := s\<rparr>) (t_runs (en_db e))\<rparr>"
  have u: "run_status_stmt i s (en_db e) = (Ok (count_where (\<lambda>r. r_id r = i) (t_runs (en_db e))), ?d)"
    using edit_plain [OF _ _ c, of "\<lambda>r. r\<lparr>r_status := s\<rparr>" i] assms by (simp add: run_status_stmt_def)
  have "constraints (snd (set_run_status i s (en_db e)))"
    using run_ops_valid(8) c by (auto simp: preserves_def stays_valid_def)
  moreover have "t_runs (snd (set_run_status i s (en_db e))) = t_runs ?d"
    by (cases "find_run ?d i") (simp_all add: set_run_status_def seq_def u query_def ret_def set_job_status_runs)
  ultimately show "constraints (en_db (on_db_ignored (set_run_status i s) e)) \<and>
    t_runs (en_db (on_db_ignored (set_run_status i s) e)) = update_where (\<lambda>r. r_id r = i) (\<lambda>r. r\<lparr>r_status := s\<rparr>) (t_runs (en_db e))"
    by simp
qed

definition with_resources :: "nat option \<Rightarrow> f64 option \<Rightarrow> run_rec \<Rightarrow> run_rec" where
  "with_resources mem cpu r = r\<lparr>r_memory_bytes := coalesce mem (r_memory_bytes r), r_cpu_seconds := coalesce cpu (r_cpu_seconds r)\<rparr>"

lemma with_resources_None [simp]: "with_resources None None r = r"
  by (simp add: with_resources_def)

lemma edit_resources [edits]: "row_edit i (with_resources mem cpu) e (on_db_ignored (set_run_resources i mem cpu) e)"
  unfolding row_edit_def
proof (intro impI)
  assume c: "constraints (en_db e)"
  from edit_plain [OF _ _ c, of "with_resources mem cpu" i]
  show "constraints (en_db (on_db_ignored (set_run_resources i mem cpu) e)) \<and>
    t_runs (en_db (on_db_ignored (set_run_resources i mem cpu) e)) = update_where (\<lambda>r. r_id r = i) (with_resources mem cpu) (t_runs (en_db e))"
    by (simp add: set_run_resources_def seq_def ret_def with_resources_def [abs_def])
qed

lemma row_edit_then: "row_edit i g a b \<Longrightarrow> row_edit i (\<lambda>r. r) b c \<Longrightarrow> row_edit i g a c"
  by (auto simp: row_edit_def update_where_map)

lemma edit_option: "row_edit i g a x \<Longrightarrow> (\<And>y. row_edit i g a (f y)) \<Longrightarrow> row_edit i g a (case o' of None \<Rightarrow> x | Some y \<Rightarrow> f y)"
  by (simp split: option.split)

lemmas edits_then = edit_option edit_metrics [THEN row_edit_then [rotated]] edit_notify [THEN row_edit_then [rotated]]
  edit_event [THEN row_edit_then [rotated]] edit_size [THEN row_edit_then [rotated]]

lemma closing_tail_edit: "row_edit i (with_resources (out_mem_peak out) (out_cpu_seconds out)) e (closing_tail E job i s out ok now e)"
proof -
  let ?e2 = "on_metrics (metrics_tail (fops E) job s (now - out_duration out) now (out_duration out) ok)
    (on_metrics (fold (\<lambda>metric. remove_job_worker_metric metric (name job) LOCAL_WORKER) resource_metrics) e)"
  have two: "row_edit i (\<lambda>r. r) e ?e2" using row_edit_trans [OF edit_metrics edit_metrics] by simp
  show ?thesis
  proof (cases "out_mem_peak out \<noteq> None \<or> out_cpu_seconds out \<noteq> None")
    case True
    then show ?thesis using row_edit_trans [OF two edit_resources] by (simp add: closing_tail_def Let_def)
  next
    case False
    then show ?thesis using two by (simp add: closing_tail_def Let_def with_resources_def [abs_def])
  qed
qed

lemma success_status_passive [simp]: "\<not> active (success_status r)" "is_success (success_status r)"
  by (simp_all add: success_status_def)

lemma success_tail_edit:
  "row_edit i (finished (success_status r) (success_completion job r sz (out_duration out)) now) e (success_tail E cfg job i r sz out now e)"
  unfolding success_tail_def Let_def by (intro edits_then edit_finish success_status_passive)

lemma failure_tail_edit:
  "row_edit i (finished Failed (failure_completion (out_result out) m (out_duration out)) now) e (failure_tail E cfg job i out m now e)"
  unfolding failure_tail_def Let_def by (intro edits_then edit_finish) simp

lemma local_retry_edit: "row_edit i (retrying (now + int delay) (tries + 1)) e (local_retry E job i tries delay m now e)"
proof -
  have "row_edit i (\<lambda>r. (retrying (now + int delay) (tries + 1) r)\<lparr>r_status := Retrying\<rparr>) e
      (on_db_ignored (set_run_status i Retrying) (on_db_ignored (set_retry i (now + int delay) (tries + 1)) e))"
    by (rule row_edit_trans [OF edit_retry edit_status]) (simp_all add: retrying_def)
  moreover have "(retrying a b r)\<lparr>r_status := Retrying\<rparr> = retrying a b r" for a b r
    by (cases r) (simp add: retrying_def)
  ultimately have "row_edit i (retrying (now + int delay) (tries + 1)) e
      (on_db_ignored (set_run_status i Retrying) (on_db_ignored (set_retry i (now + int delay) (tries + 1)) e))"
    by (simp only:)
  then show ?thesis unfolding local_retry_def Let_def by (intro edits_then)
qed

text \<open>The row that an outcome leaves behind.\<close>

definition outcome_row :: "float_ops \<Rightarrow> JobSpec \<Rightarrow> RunOutcome \<Rightarrow> nat option \<Rightarrow> nat \<Rightarrow> int \<Rightarrow> run_rec \<Rightarrow> run_rec" where
  "outcome_row F job out measured walked now r =
     (let res = out_result out
      in if res = Inl PCancelled then finished Cancelled (cancelled_completion (out_duration out)) now r
         else if succeeded job res then
           (case res of
              Inr q \<Rightarrow> with_resources (out_mem_peak out) (out_cpu_seconds out)
                 (finished (success_status q) (success_completion job q (size_after job q measured walked) (out_duration out)) now r)
            | Inl _ \<Rightarrow> r)
         else
           (case retry_of F job (failure_kind res) (r_retry_count r) of
              Retry delay \<Rightarrow> retrying (now + int delay) (r_retry_count r + 1) r
            | NoRetry \<Rightarrow> with_resources (out_mem_peak out) (out_cpu_seconds out)
                 (finished Failed (failure_completion res (failure_message job res) (out_duration out)) now r)))"

lemma get_run_find: "constraints d \<Longrightarrow> get_run i d = map_option run_row (find_run d i)"
proof -
  assume c: "constraints d"
  have "filter (\<lambda>r. r_id r = i) (t_runs d) = (case find_run d i of None \<Rightarrow> [] | Some r \<Rightarrow> [r])"
  proof (cases "find_run d i")
    case None
    then have "\<forall>r \<in> set (t_runs d). r_id r \<noteq> i" by (auto simp: find_run_def find_None_iff)
    with None show ?thesis by (simp add: filter_empty_conv)
  next
    case (Some r)
    have "distinct (t_runs d)" using constraints_run_ids [OF c] by (simp add: distinct_map)
    moreover have "set (filter (\<lambda>r. r_id r = i) (t_runs d)) = {r}"
      using find_run_unique [OF c Some] find_run_SomeD [OF Some] by auto
    ultimately have "length (filter (\<lambda>r. r_id r = i) (t_runs d)) = 1"
      by (metis distinct_card distinct_filter card_insert_disjoint card.empty finite.emptyI empty_iff One_nat_def)
    then obtain y where y: "filter (\<lambda>r. r_id r = i) (t_runs d) = [y]" by (auto simp: length_Suc_conv)
    with \<open>set (filter (\<lambda>r. r_id r = i) (t_runs d)) = {r}\<close> have "y = r" by (metis list.set(1,2) singleton_iff insertI1)
    with y Some show ?thesis by simp
  qed
  then show ?thesis by (simp add: get_run_def runs_where_def head_opt_def split: option.split)
qed

lemma finish_outcome_row:
  assumes "constraints (en_db e)" and "find_run (en_db e) i = Some r"
  shows "let e' = finish_outcome E cfg i job out measured walked now e
    in constraints (en_db e') \<and> find_run (en_db e') i = Some (outcome_row (fops E) job out measured walked now r)
       \<and> (\<forall>j. j \<noteq> i \<longrightarrow> find_run (en_db e') j = find_run (en_db e) j)"
proof -
  let ?e' = "finish_outcome E cfg i job out measured walked now e"
  have tries: "(case get_run i (en_db e) of None \<Rightarrow> 0 | Some r \<Rightarrow> rr_retry_count r) = r_retry_count r"
    using get_run_find [OF assms(1)] assms(2) by simp
  have "\<exists>g. row_edit i g e ?e' \<and> (\<forall>q. r_id (g q) = r_id q) \<and> g r = outcome_row (fops E) job out measured walked now r"
  proof -
    let ?res = "out_result out"
    have ex: ?thesis if "row_edit i g e ?e'" "\<And>q. r_id (g q) = r_id q" "g r = outcome_row (fops E) job out measured walked now r" for g
      using that by blast
    consider "?res = Inl PCancelled" | q where "?res = Inr q" "succeeded job ?res"
      | delay where "?res \<noteq> Inl PCancelled" "\<not> succeeded job ?res" "retry_of (fops E) job (failure_kind ?res) (r_retry_count r) = Retry delay"
      | "?res \<noteq> Inl PCancelled" "\<not> succeeded job ?res" "retry_of (fops E) job (failure_kind ?res) (r_retry_count r) = NoRetry"
      by (cases "?res"; cases "retry_of (fops E) job (failure_kind ?res) (r_retry_count r)") (auto simp: succeeded_def)
    then show ?thesis
    proof cases
      case 1
      have "row_edit i (finished Cancelled (cancelled_completion (out_duration out)) now) e ?e'"
        unfolding finish_outcome_def tries Let_def 1 if_True refl simp_thms(6) by (intro edits_then edit_finish) simp
      then show ?thesis by (rule ex) (simp_all add: outcome_row_def 1 finished_def Let_def)
    next
      case (2 q)
      have "row_edit i (\<lambda>r. with_resources (out_mem_peak out) (out_cpu_seconds out)
          (finished (success_status q) (success_completion job q (size_after job q measured walked) (out_duration out)) now r)) e ?e'"
        unfolding finish_outcome_def tries Let_def using 2 row_edit_trans [OF success_tail_edit closing_tail_edit]
        by (simp add: finished_def)
      then show ?thesis by (rule ex) (use 2 in \<open>simp_all add: outcome_row_def finished_def Let_def with_resources_def\<close>)
    next
      case (3 delay)
      have "row_edit i (retrying (now + int delay) (r_retry_count r + 1)) e ?e'"
        unfolding finish_outcome_def tries Let_def using 3 local_retry_edit by simp
      then show ?thesis by (rule ex) (use 3 in \<open>simp_all add: outcome_row_def retrying_def Let_def\<close>)
    next
      case 4
      have "row_edit i (\<lambda>r. with_resources (out_mem_peak out) (out_cpu_seconds out)
          (finished Failed (failure_completion ?res (failure_message job ?res) (out_duration out)) now r)) e ?e'"
        unfolding finish_outcome_def tries Let_def using 4 row_edit_trans [OF failure_tail_edit closing_tail_edit]
        by (simp add: finished_def)
      then show ?thesis by (rule ex) (use 4 in \<open>simp_all add: outcome_row_def finished_def Let_def with_resources_def\<close>)
    qed
  qed
  then obtain g where g: "row_edit i g e ?e'" "\<And>q. r_id (g q) = r_id q" "g r = outcome_row (fops E) job out measured walked now r" by blast
  have "constraints (en_db ?e')" using g(1) assms(1) by (simp add: row_edit_def)
  with row_edit_find [OF g(1) assms(1) g(2)] assms(2) g(3) show ?thesis by (simp add: Let_def)
qed

lemma start_run_row:
  assumes "constraints (en_db e)" and "find_run (en_db e) i = Some r"
  shows "let e' = start_run E p i job now e in constraints (en_db e') \<and> (\<exists>s. find_run (en_db e') i = Some (r\<lparr>r_status := s\<rparr>))
    \<and> (\<forall>j. j \<noteq> i \<longrightarrow> find_run (en_db e') j = find_run (en_db e) j)"
proof -
  let ?e1 = "on_db_ignored (insert_log i (name job) p now) e"
  have e1: "constraints (en_db ?e1)" "t_runs (en_db ?e1) = t_runs (en_db e)"
    using edit_log [of i e i "name job" p now] assms(1) by (simp_all add: row_edit_def update_where_map)
  let ?d2 = "snd (set_run_status i Running (en_db ?e1))"
  have c2: "constraints ?d2" using run_ops_valid(8) e1(1) by (auto simp: preserves_def stays_valid_def)
  have "t_runs ?d2 = t_runs (en_db ?e1) \<or> t_runs ?d2 = update_where (\<lambda>r. r_id r = i) (\<lambda>r. r\<lparr>r_status := Running\<rparr>) (t_runs (en_db ?e1))"
    by (auto simp: set_run_status_def run_status_stmt_def seq_def update_runs_def commit_def query_def ret_def set_job_status_runs
        split: option.split)
  then have "t_runs ?d2 = t_runs (en_db e) \<or> t_runs ?d2 = update_where (\<lambda>r. r_id r = i) (\<lambda>r. r\<lparr>r_status := Running\<rparr>) (t_runs (en_db e))"
    unfolding e1(2) .
  then have find: "find_run ?d2 j = find_run (en_db e) j
      \<or> find_run ?d2 j = map_option (\<lambda>r. if r_id r = i then r\<lparr>r_status := Running\<rparr> else r) (find_run (en_db e) j)" for j
  proof
    assume "t_runs ?d2 = t_runs (en_db e)"
    then show ?thesis unfolding find_run_def by (intro disjI1) (rule arg_cong)
  next
    assume u: "t_runs ?d2 = update_where (\<lambda>r. r_id r = i) (\<lambda>r. r\<lparr>r_status := Running\<rparr>) (t_runs (en_db e))"
    show ?thesis unfolding find_run_def u by (rule disjI2, rule find_update_where) simp
  qed
  have rows: "find_run ?d2 i = Some r \<or> find_run ?d2 i = Some (r\<lparr>r_status := Running\<rparr>)"
    using find [of i] assms(2) find_run_SomeD [OF assms(2)] by (simp del: on_db_simps)
  have others: "find_run ?d2 j = find_run (en_db e) j" if "j \<noteq> i" for j
    using find [of j] that by (cases "find_run (en_db e) j") (auto dest: find_run_SomeD simp del: on_db_simps)
  have db: "en_db (start_run E p i job now e) = ?d2"
    by (simp add: start_run_def Let_def register_run_def on_metrics_def)
  have "r = r\<lparr>r_status := r_status r\<rparr>" by simp
  with rows have "\<exists>s. find_run ?d2 i = Some (r\<lparr>r_status := s\<rparr>)" by metis
  with c2 others show ?thesis unfolding Let_def db by blast
qed

lemma finish_outcome_accounts:
  "en_permits (finish_outcome E cfg i job out z k now e) = en_permits e" "en_active (finish_outcome E cfg i job out z k now e) = en_active e"
  "run_tokens (finish_outcome E cfg i job out z k now e) = run_tokens e"
  by (auto simp: finish_outcome_def Let_def closing_tail_def success_tail_def failure_tail_def local_retry_def on_metrics_def
      log_event_def draw_id_def engine_notify_def split: sum.split option.split RetryDecision.split)

lemma start_run_accounts:
  "en_permits (start_run E p i job now e) = en_permits e" "en_active (start_run E p i job now e) = en_active e"
  "run_tokens (start_run E p i job now e) = (run_tokens e)(name job \<mapsto> False)"
  by (simp_all add: start_run_def Let_def register_run_def on_metrics_def)

lemma outcome_row_status:
  "\<not> active (r_status (outcome_row F job out z k now r)) \<and> \<not> r_status (outcome_row F job out z k now r) = Queued
   \<and> (is_success (r_status (outcome_row F job out z k now r)) \<longleftrightarrow> succeeded job (out_result out))
   \<and> (r_status (outcome_row F job out z k now r) = Retrying \<longrightarrow>
        r_retry_count (outcome_row F job out z k now r) = Suc (r_retry_count r) \<and> r_retry_count r < retry job)"
proof -
  have "retry_of F job kd n = Retry dl \<Longrightarrow> n < retry job" for kd n dl
    using retry_decision_cap by (auto simp: retry_of_def)
  then show ?thesis
    by (auto simp: outcome_row_def Let_def finished_def with_resources_def retrying_def succeeded_def success_status_def
        split: sum.split RetryDecision.split)
qed

section \<open>What a successful run went through\<close>

lemma judge_Ok:
  assumes "judge E job before outcome w = (Ok r, w')"
  shows "outcome = Ok r \<and> (safety_on job \<longrightarrow> safety_violation (x_float E) job before (x_walk E (storage job) w) = None)
    \<and> \<not> fails_on_match E job r \<and> fst (run_verify E job r w) = Ok ()"
  using assms by (auto simp: judge_def split: sum.splits option.splits if_splits prod.splits)

lemma after_snapshot_Ok: "fst (after_snapshot E ctx job r w) = Ok q \<Longrightarrow> q = r"
  by (auto simp: after_snapshot_def split: if_splits option.splits sum.splits prod.splits)

lemma run_once_inner_Ok:
  assumes "run_once_inner E ctx job w = (out, w')" and "out_result out = Ok r"
  shows "\<exists>w1 w3. gates E ctx job w = (Ok (), w1)
    \<and> timed_sync E job (run_hooks E (before_sync (hooks job)) job None w1) = (Ok r, w3)
    \<and> (let w2 = run_hooks E (before_sync (hooks job)) job None w1; w4 = run_hooks E (after_sync (hooks job)) job None w3
       in (safety_on job \<longrightarrow> safety_violation (x_float E) job (x_walk E (storage job) w2) (x_walk E (storage job) w4) = None)
          \<and> \<not> fails_on_match E job r \<and> fst (run_verify E job r w4) = Ok ())"
proof -
  obtain g w1 where g: "gates E ctx job w = (g, w1)" by fastforce
  from assms g have "g = Ok ()" by (cases g) (auto simp: run_once_inner_def)
  let ?w2 = "run_hooks E (before_sync (hooks job)) job None w1"
  let ?before = "if safety_on job then x_walk E (storage job) ?w2 else (0, 0)"
  obtain o' w3 where s: "timed_sync E job ?w2 = (o', w3)" by fastforce
  let ?w4 = "run_hooks E (after_sync (hooks job)) job None w3"
  obtain q w5 where j: "judge E job ?before o' ?w4 = (q, w5)" by fastforce
  have "fst (io_bind (judge E job ?before o') (after_snapshot E ctx job) ?w4) = Ok r"
    using assms g \<open>g = Ok ()\<close> s by (auto simp: run_once_inner_def Let_def split: prod.splits)
  with j have "q = Ok r" by (cases q) (auto simp: io_bind_def dest: after_snapshot_Ok)
  with j have "judge E job ?before o' ?w4 = (Ok r, w5)" by simp
  from judge_Ok [OF this] g \<open>g = Ok ()\<close> s show ?thesis by (auto simp: Let_def)
qed

section \<open>Runs that never reach the provider\<close>

lemma run_hooks_provider [simp]: "run_hooks (E\<lparr>x_sync := s\<rparr>) hs job st w = run_hooks E hs job st w"
  by (induction hs arbitrary: w) simp_all

lemma gate_providers [simp]:
  "storage_gate (E\<lparr>x_sync := s\<rparr>) = storage_gate E" "dir_gate (E\<lparr>x_sync := s\<rparr>) = dir_gate E"
  "snap_create (E\<lparr>x_sync := s\<rparr>) = snap_create E"
  by (simp_all add: storage_gate_def dir_gate_def snap_create_def fun_eq_iff cong: option.case_cong sum.case_cong prod.case_cong snap_provider.case_cong)

lemma before_gate_provider [simp]: "before_gate (E\<lparr>x_sync := s\<rparr>) = before_gate E"
proof -
  have "new_snapshot (E\<lparr>x_sync := s\<rparr>) = new_snapshot E" by (simp add: new_snapshot_def fun_eq_iff cong: option.case_cong)
  then show ?thesis by (simp add: before_gate_def fun_eq_iff)
qed

lemma gates_provider [simp]: "gates (E\<lparr>x_sync := s\<rparr>) = gates E"
  by (simp add: gates_def fun_eq_iff)

lemma run_lock_provider [simp]: "run_lock (E\<lparr>x_sync := s\<rparr>) ctx job hj w = run_lock E ctx job hj w"
  by (simp add: run_lock_def)

text \<open>A run is blocked when the storage lock is refused, the run is cancelled by then, or a gate fails.\<close>

definition blocked :: "'w exec_env \<Rightarrow> RunStorageCtx option \<Rightarrow> JobSpec \<Rightarrow> 'w \<Rightarrow> bool" where
  "blocked E ctx job w =
     (let hj = resolve_local_job job ctx
      in case run_lock E ctx job hj w of
           (Inl _, _) \<Rightarrow> True
         | (Inr _, w1) \<Rightarrow> x_cancelled E w1 \<or> (case gates E ctx hj w1 of (Inl _, _) \<Rightarrow> True | (Inr _, _) \<Rightarrow> False))"

section \<open>A small run\<close>

text \<open>The world counts the calls of the provider.\<close>

definition demo_result :: SyncResult where
  "demo_result = \<lparr>res_exit_code = Some 0, res_stdout = ''ok'', res_stderr = [], res_size_hint = Some 10,
     res_bytes_transferred = Some 5, res_message = None, res_status = None\<rparr>"

definition demo_exec :: "nat exec_env" where
  "demo_exec = \<lparr>x_storage = \<lparr>run_cli = (\<lambda>_ _ w. (Ok [], w)), create_dir_all = (\<lambda>_ w. (Ok (), w)), list_dir = (\<lambda>_ _. None),
       is_dir = (\<lambda>_ _. False), statvfs = (\<lambda>_ _. Ok (1, 1))\<rparr>,
     x_cli = (\<lambda>_ _ w. (Ok [], w)), x_cal = demo_cal, x_float = exact_ops,
     x_sync = (\<lambda>_ w. (Ok demo_result, Suc w)), x_times_out = (\<lambda>_ _ _. False), x_abort = (\<lambda>_ w. w),
     x_hook = (\<lambda>_ _ _ w. w), x_cancelled = (\<lambda>_. False), x_create_dir = (\<lambda>_ w. (Ok (), w)), x_walk = (\<lambda>_ _. (0, 0)),
     x_exists = (\<lambda>_ _. True), x_is_match = (\<lambda>_ _. None), x_command = (\<lambda>_ _ w. (Ok (Some 0), w)), x_stamp = (\<lambda>_. []),
     x_uuid = (\<lambda>_. []), x_clock = (\<lambda>w. 1000 + int w), x_usage = (\<lambda>_. (None, None)), x_lock = (\<lambda>_ w. (Ok (), w)),
     x_lock_under = (\<lambda>_ _ w. (Ok (), w)), x_measure = (\<lambda>_ _. None)\<rparr>"

section \<open>Properties\<close>

text \<open>C31: A run succeeds only through every gate. If \<open>run_once\<close> returns a result, the storage lock
  was granted, the run was not cancelled by then, storage preparation, directory creation and the
  snapshot before the sync passed, the provider itself returned that result within the timeout, and
  the safety limits on the tree before and after, the output match and the verification all passed.\<close>

theorem run_success_gates:
  assumes "run_once E ctx job w = (out, w')" and "out_result out = Ok r"
  shows "\<exists>w1 w2 w4. run_lock E ctx job (resolve_local_job job ctx) w = (Ok (), w1) \<and> \<not> x_cancelled E w1
    \<and> gates E ctx (resolve_local_job job ctx) w1 = (Ok (), w2)
    \<and> (let hj = resolve_local_job job ctx; w3 = run_hooks E (before_sync (hooks hj)) hj None w2;
           w5 = run_hooks E (after_sync (hooks hj)) hj None w4
       in timed_sync E hj w3 = (Ok r, w4)
          \<and> (safety_on hj \<longrightarrow> safety_violation (x_float E) hj (x_walk E (storage hj) w3) (x_walk E (storage hj) w5) = None)
          \<and> \<not> fails_on_match E hj r \<and> fst (run_verify E hj r w5) = Ok ())"
proof -
  let ?hj = "resolve_local_job job ctx"
  obtain l w1 where l: "run_lock E ctx job ?hj w = (l, w1)" by fastforce
  from assms l have lock: "l = Ok ()" by (cases l) (auto simp: run_once_def Let_def failed_early_def)
  with assms l have live: "\<not> x_cancelled E w1" by (auto simp: run_once_def Let_def failed_early_def)
  obtain o' w2 where i: "run_once_inner E ctx ?hj w1 = (o', w2)" by fastforce
  have "o' = out" using assms(1) l lock live i by (simp add: run_once_def Let_def)
  from run_once_inner_Ok [OF i, unfolded \<open>o' = out\<close>, OF assms(2)] l lock live show ?thesis
    unfolding Let_def by blast
qed

theorem run_success_gates_witness:
  "\<exists>w4. timed_sync demo_exec demo_spec 0 = (Ok demo_result, w4)"
proof -
  have "run_once demo_exec None demo_spec 0 =
    (\<lparr>out_result = Ok demo_result, out_duration = 1, out_mem_peak = None, out_cpu_seconds = None\<rparr>, 1)"
    by (code_simp)
  from run_success_gates [OF this] show ?thesis
    by (auto simp: Let_def resolve_local_job_def run_lock_def demo_exec_def gates_def io_bind_def storage_gate_def dir_gate_def
        before_gate_def demo_spec_def)
qed



text \<open>C33: Executing a run settles it and gives everything back. The run's row becomes the row of its
  outcome: no longer active or queued, successful exactly when the provider's result counts as a
  success, and scheduled for a retry only while retries remain, with the count raised by one. No
  other run changes, the database stays consistent, the permit returns to the pool, the
  cancellation token goes and the job's active counter drops by one.\<close>

theorem execute_run_completes:
  assumes "constraints (en_db e)" and "find_run (en_db e) i = Some r" and "execute_run E X cfg ctx p i job (w, e) = (w', e')"
  shows "constraints (en_db e') \<and> en_permits e' = en_permits e + 1 \<and> run_tokens e' = (run_tokens e)(name job := None)
    \<and> opt_default 0 (en_active e' (name job)) = opt_default 0 (en_active e (name job)) - 1
    \<and> (\<forall>j. j \<noteq> i \<longrightarrow> find_run (en_db e') j = find_run (en_db e) j)
    \<and> (\<exists>r'. find_run (en_db e') i = Some r' \<and> \<not> active (r_status r') \<and> r_status r' \<noteq> Queued
         \<and> (is_success (r_status r') \<longleftrightarrow> succeeded job (out_result (fst (run_once X ctx job w))))
         \<and> (r_status r' = Retrying \<longrightarrow> r_retry_count r' = Suc (r_retry_count r) \<and> r_retry_count r < retry job))"
proof -
  obtain out w1 where o: "run_once X ctx job w = (out, w1)" by fastforce
  let ?e1 = "start_run E p i job (x_clock X w) e"
  let ?z = "x_measure X (storage job) w1" and ?k = "snd (x_walk X (storage job) w1)" and ?now = "x_clock X w1"
  let ?e2 = "finish_outcome E cfg i job out ?z ?k ?now ?e1"
  let ?e3 = "snd (active_dec (name job) (remove_run (name job) ?e2))"
  have "execute_run E X cfg ctx p i job (w, e) = (w1, ?e3\<lparr>en_permits := en_permits ?e3 + 1\<rparr>)"
    by (simp add: execute_run_def Let_def o)
  then have e': "e' = ?e3\<lparr>en_permits := en_permits ?e3 + 1\<rparr>" using assms(3) by simp
  have db: "en_db ?e3 = en_db ?e2" by (simp add: active_dec_def remove_run_def split: option.split)
  from start_run_row [OF assms(1,2), of E p job "x_clock X w"] obtain s where
    s: "constraints (en_db ?e1)" "find_run (en_db ?e1) i = Some (r\<lparr>r_status := s\<rparr>)"
      "\<forall>j. j \<noteq> i \<longrightarrow> find_run (en_db ?e1) j = find_run (en_db e) j" by (auto simp: Let_def)
  note row = finish_outcome_row [OF s(1,2), of E cfg job out ?z ?k ?now, unfolded Let_def]
  note st = outcome_row_status [of "fops E" job out ?z ?k ?now "r\<lparr>r_status := s\<rparr>"]
  have acc: "en_permits ?e3 = en_permits e" "run_tokens ?e3 = (run_tokens e)(name job := None)"
    "opt_default 0 (en_active ?e3 (name job)) = opt_default 0 (en_active e (name job)) - 1"
    by (auto simp: active_dec_def remove_run_def finish_outcome_accounts start_run_accounts opt_default_def split: option.split)
  from row st s(3) acc show ?thesis by (simp add: e' db o)
qed

theorem execute_run_completes_witness:
  "\<exists>r'. find_run (en_db (snd (execute_run sched_env demo_exec \<lparr>webhook_url = None, alert_after_failures = 1\<rparr> None ''log'' ''r1'' demo_spec (0, sched_engine)))) ''r1'' = Some r'
     \<and> is_success (r_status r')"
proof -
  let ?x = "execute_run sched_env demo_exec \<lparr>webhook_url = None, alert_after_failures = 1\<rparr> None ''log'' ''r1'' demo_spec (0, sched_engine)"
  have f: "find_run (en_db sched_engine) ''r1'' = Some demo_run" by (simp add: find_run_def demo_run_def new_run_def)
  have "succeeded demo_spec (out_result (fst (run_once demo_exec None demo_spec 0)))" by code_simp
  with execute_run_completes [OF _ f, of sched_env demo_exec "\<lparr>webhook_url = None, alert_after_failures = 1\<rparr>" None "''log''" demo_spec 0 "fst ?x" "snd ?x"]
    sched_valid show ?thesis by auto
qed

end
