(* ===== verification/Manager.thy ===== *)
theory Manager
  imports Executor Auth
begin

text \<open>
  The HTTP handlers and the worker picker of \<open>crates/manager/src/router.rs\<close> with the request and
  response types of \<open>crates/api/src/lib.rs\<close>, and \<open>refresh_worker_metrics\<close> of the engine.

  The state is the engine with the picker's snapshot. A handler is a state transformer with an error
  status, composed with \<open>io_bind\<close> the way the code composes its \<open>?\<close>. Every handler takes the time as an
  argument and reads it once. Outside the model: JSON (requests and responses are records), the proxy
  environment of a job (a parameter), the metrics and job locks (a handler is one step; the lock of
  a job exists exactly when the job does), log lines of the server itself.
\<close>

section \<open>Requests and responses\<close>

text \<open>Of the capabilities of a worker only \<open>max_concurrency\<close> is read: absent, not a number, or a number.\<close>

record RegisterRequest =
  rq_name :: "string option"
  rq_hostname :: string
  rq_address :: string
  rq_version :: string
  rq_labels :: "string list"
  rq_max_concurrency :: "nat option option"

record RegisterResponse =
  rs_worker_id :: string
  rs_heartbeat_interval_secs :: nat

record RunLease =
  rl_run_id :: string
  rl_lease_token :: string

record JobLogSample =
  ls_run_id :: string
  ls_job :: string
  ls_content :: string

record JobResourceSample =
  js_job :: string
  js_memory_bytes :: "nat option"
  js_cpu_seconds :: "f64 option"
  js_cpu_percent :: "f64 option"
  js_bandwidth_bytes :: "f64 option"

record HeartbeatRequest =
  hb_active_runs :: "RunLease list"
  hb_jobs_running :: nat
  hb_resources :: "JobResourceSample list"
  hb_logs :: "JobLogSample list"

record RunAssignment =
  ra_lease_token :: string
  ra_run_id :: string
  ra_attempt :: nat
  ra_job :: JobSpec
  ra_proxy_env :: "(string \<times> string) list"

record HeartbeatResponse =
  hr_cancel_runs :: "string list"
  hr_assignment :: "RunAssignment option"
  hr_assignments :: "RunAssignment list"
  hr_cancel_run :: "string option"
  hr_offline_grace_secs :: nat

definition offered_assignments :: "HeartbeatResponse \<Rightarrow> RunAssignment list" where
  "offered_assignments r =
     (case hr_assignment r of
        None \<Rightarrow> hr_assignments r
      | Some first \<Rightarrow> if \<exists>a \<in> set (hr_assignments r). ra_run_id a = ra_run_id first then hr_assignments r
                      else first # hr_assignments r)"

record CompleteRequest =
  cq_lease_token :: string
  cq_worker_id :: string
  cq_attempt :: "nat option"
  cq_status :: string
  cq_exit_code :: "int option"
  cq_size_before :: "int option"
  cq_size_after :: "int option"
  cq_bytes_transferred :: "int option"
  cq_message :: "string option"
  cq_log :: "string option"
  cq_memory_bytes :: "nat option"
  cq_cpu_seconds :: "f64 option"

section \<open>The worker picker\<close>

record WorkerInfo =
  wi_labels :: "string list"
  wi_jobs_running :: nat
  wi_max_concurrency :: nat
  wi_status :: WorkerStatus

record manager =
  mg_engine :: engine
  mg_picker :: "(string \<times> WorkerInfo) list"

text \<open>
  What the manager gets from outside its model: the engine's environment, the iteration orders of the
  hash maps of workers and of repository sizes, the proxy environment of a job and the storage context.
\<close>

record 'tz mgr_env =
  m_engine :: "'tz engine_env"
  m_order :: "(string \<times> WorkerInfo) list \<Rightarrow> (string \<times> WorkerInfo) list"
  m_size_order :: "(string \<times> int) list \<Rightarrow> (string \<times> int) list"
  m_proxy_env :: "JobSpec \<Rightarrow> (string \<times> string) list"
  m_storage :: "RunStorageCtx option"
  m_show_weekday :: "Weekday \<Rightarrow> string"   \<comment> \<open>\<open>Display\<close> of the \<open>time\<close> crate\<close>

abbreviation mdb :: "manager \<Rightarrow> db" where "mdb m \<equiv> en_db (mg_engine m)"

definition as_u32 :: "int \<Rightarrow> nat" where
  "as_u32 i = nat (i mod 2 ^ 32)"

definition i64_as_i32 :: "int \<Rightarrow> int" where
  "i64_as_i32 i = u32_as_i32 (as_u32 i)"

definition worker_info :: "worker_rec \<Rightarrow> string \<times> WorkerInfo" where
  "worker_info w = (wk_id w, \<lparr>wi_labels = wk_labels w, wi_jobs_running = as_u32 (wk_jobs_running w),
     wi_max_concurrency = as_u32 (int (opt_default 8 (wk_max_concurrency w))), wi_status = wk_status w\<rparr>)"

definition refresh :: "'tz mgr_env \<Rightarrow> manager \<Rightarrow> manager" where
  "refresh M m = m\<lparr>mg_picker := m_order M (map worker_info (list_workers (mdb m)))\<rparr>"

text \<open>\<open>Iterator::min_by_key\<close>: the first of the least elements.\<close>

fun min_by_key :: "('a \<Rightarrow> nat) \<Rightarrow> 'a list \<Rightarrow> 'a option" where
  "min_by_key k [] = None"
| "min_by_key k (x # xs) =
     (case min_by_key k xs of None \<Rightarrow> Some x | Some y \<Rightarrow> if k x \<le> k y then Some x else Some y)"

definition available :: "string \<times> WorkerInfo \<Rightarrow> bool" where
  "available = (\<lambda>(_, w). wi_status w = ONLINE \<and> wi_jobs_running w < wi_max_concurrency w)"

definition pick :: "(string \<times> WorkerInfo) list \<Rightarrow> JobSpec \<Rightarrow> string option" where
  "pick snap job =
     (let online = filter available snap;
          least = (\<lambda>p. map_option fst (min_by_key (\<lambda>(_, w). wi_jobs_running w) (filter p online)))
      in if online = [] then None
         else case worker job of
                Some n \<Rightarrow>
                  if \<exists>x \<in> set online. fst x = n then Some n
                  else least (\<lambda>(_, w). n \<in> set (wi_labels w))
              | None \<Rightarrow> least (\<lambda>(_, w). set (resources job) \<subseteq> set (wi_labels w)))"

section \<open>Steps of a handler\<close>

type_synonym 'a handler = "(manager, StatusCode, 'a) io"

definition require_perm :: "AuthUser \<Rightarrow> string \<Rightarrow> unit handler" where
  "require_perm auth perm = io_lift (require auth perm)"

definition check :: "(manager \<Rightarrow> bool) \<Rightarrow> StatusCode \<Rightarrow> unit handler" where
  "check p code m = (if p m then (Ok (), m) else (Err code, m))"

definition read_state :: "(manager \<Rightarrow> 'a) \<Rightarrow> 'a handler" where
  "read_state f m = (Ok (f m), m)"

definition or_code :: "'a option \<Rightarrow> StatusCode \<Rightarrow> 'a handler" where
  "or_code o' code = (case o' of None \<Rightarrow> io_err code | Some x \<Rightarrow> io_ret x)"

definition run_stmt :: "StatusCode \<Rightarrow> 'a stmt \<Rightarrow> 'a handler" where
  "run_stmt code s m =
     (case on_db s (mg_engine m) of
        (Inl _, e) \<Rightarrow> (Err code, m\<lparr>mg_engine := e\<rparr>)
      | (Inr x, e) \<Rightarrow> (Ok x, m\<lparr>mg_engine := e\<rparr>))"

definition on_engine :: "(engine \<Rightarrow> engine) \<Rightarrow> unit handler" where
  "on_engine f m = (Ok (), m\<lparr>mg_engine := f (mg_engine m)\<rparr>)"

definition refresh_picker :: "'tz mgr_env \<Rightarrow> unit handler" where
  "refresh_picker M m = (Ok (), refresh M m)"

definition fresh_id :: "'tz mgr_env \<Rightarrow> string handler" where
  "fresh_id M m = (case draw_id (m_engine M) (mg_engine m) of (i, e) \<Rightarrow> (Ok i, m\<lparr>mg_engine := e\<rparr>))"

section \<open>Shared helpers\<close>

definition worker_gauge :: "WorkerStatus \<Rightarrow> f64" where
  "worker_gauge s = (case s of ONLINE \<Rightarrow> Fin 1 | DRAINING \<Rightarrow> Fin 2 | STOPPING \<Rightarrow> Fin 2 | MAINTENANCE \<Rightarrow> Fin 3 | _ \<Rightarrow> Fin 0)"

definition worker_row_metrics :: "float_ops \<Rightarrow> string \<times> WorkerStatus \<times> int \<Rightarrow> Metrics \<Rightarrow> Metrics" where
  "worker_row_metrics F = (\<lambda>(w, status, running) m.
     let m1 = set_gauge ''synora_worker_jobs_running'' [(''worker'', w)] (of_i64 F running) m;
         m2 = set_gauge ''synora_worker_status'' [(''worker'', w)] (worker_gauge status) m1
     in if running = 0 \<or> status = OFFLINE then remove_worker_metrics resource_metrics w m2 else m2)"

definition refresh_worker_metrics :: "'tz mgr_env \<Rightarrow> string option \<Rightarrow> int \<Rightarrow> engine \<Rightarrow> engine" where
  "refresh_worker_metrics M scope now e =
     (case on_db (reconcile_worker_run_counts scope now) e of
        (Inl _, e1) \<Rightarrow> e1
      | (Inr rows, e1) \<Rightarrow> on_metrics (fold (worker_row_metrics (fops (m_engine M))) rows) e1)"

definition token_owns_worker :: "AuthUser \<Rightarrow> string \<Rightarrow> manager \<Rightarrow> bool" where
  "token_owns_worker auth w m \<longleftrightarrow> user_name auth = w
     \<or> (case worker_token w (mdb m) of None \<Rightarrow> False | Some t \<Rightarrow> t = [] \<or> t = user_name auth)"

definition run_assignment :: "'tz mgr_env \<Rightarrow> string \<Rightarrow> nat \<Rightarrow> JobSpec \<Rightarrow> RunAssignment" where
  "run_assignment M i attempt job =
     \<lparr>ra_lease_token = [], ra_run_id = i, ra_attempt = attempt, ra_job = job, ra_proxy_env = m_proxy_env M job\<rparr>"

definition resolved_path :: "RunStorageCtx option \<Rightarrow> JobSpec \<Rightarrow> string" where
  "resolved_path ctx job = (case ctx of None \<Rightarrow> storage job | Some c \<Rightarrow> resolve_storage_path c job)"

definition size_keys_for :: "RunStorageCtx option \<Rightarrow> JobSpec \<Rightarrow> string list" where
  "size_keys_for ctx job =
     (let resolved = resolved_path ctx job;
          keys = [name job, storage job, resolved] @ (case path_file_name resolved of None \<Rightarrow> [] | Some f \<Rightarrow> [f])
      in remdups_adj (sort keys))"

definition persist_repository_size :: "'tz mgr_env \<Rightarrow> JobSpec \<Rightarrow> int \<Rightarrow> int \<Rightarrow> engine \<Rightarrow> engine" where
  "persist_repository_size M job z now e =
     on_metrics (set_gauge ''synora_repository_size_bytes'' [(''job'', name job)] (of_i64 (fops (m_engine M)) z))
       (fold (\<lambda>key. on_db_ignored (set_repository_size key z now)) (size_keys_for (m_storage M) job) e)"

section \<open>Worker-facing handlers\<close>

definition set_capabilities_stmt :: "string \<Rightarrow> nat option \<Rightarrow> nat stmt" where
  "set_capabilities_stmt w cap = update_workers (\<lambda>_ k. wk_id k = w) (\<lambda>_ k. k\<lparr>wk_max_concurrency := cap\<rparr>)"

definition register :: "'tz mgr_env \<Rightarrow> AuthUser \<Rightarrow> RegisterRequest \<Rightarrow> int \<Rightarrow> RegisterResponse handler" where
  "register M auth body now =
     io_bind (require_perm auth ''runs.manage'') (\<lambda>_.
     let w = (case rq_name body of Some n \<Rightarrow> if n = [] then user_name auth else n | None \<Rightarrow> user_name auth)
     in io_bind (check (\<lambda>m. case worker_token w (mdb m) of None \<Rightarrow> True | Some owner \<Rightarrow> owner = [] \<or> owner = user_name auth) CONFLICT) (\<lambda>_.
        io_bind (run_stmt INTERNAL_SERVER_ERROR
          (upsert_worker w (rq_hostname body) (rq_address body) (rq_version body) (rq_labels body) (user_name auth) now)) (\<lambda>_.
        io_bind (on_engine (on_db_ignored (set_capabilities_stmt w (opt_default (Some 8) (rq_max_concurrency body))))) (\<lambda>_.
        io_bind (refresh_picker M) (\<lambda>_.
        io_ret \<lparr>rs_worker_id = w, rs_heartbeat_interval_secs = 15\<rparr>)))))"

text \<open>The leases that were renewed, with the job of each run.\<close>

fun renew_all :: "string \<Rightarrow> int \<Rightarrow> RunLease list \<Rightarrow> (string \<times> string) list stmt" where
  "renew_all w now [] = ret []"
| "renew_all w now (l # ls) =
     seq (renew_run_lease (rl_run_id l) w (rl_lease_token l) now) (\<lambda>ok.
     seq (query (get_run (rl_run_id l))) (\<lambda>row.
     seq (renew_all w now ls) (\<lambda>rest.
       ret (case row of Some r \<Rightarrow> if ok then (rl_run_id l, rr_job_id r) # rest else rest | None \<Rightarrow> rest))))"

definition opt_gauge :: "string \<Rightarrow> (string \<times> string) list \<Rightarrow> f64 option \<Rightarrow> Metrics \<Rightarrow> Metrics" where
  "opt_gauge metric labels o' m = (case o' of None \<Rightarrow> m | Some x \<Rightarrow> set_gauge metric labels x m)"

definition bandwidth_ok :: "f64 \<Rightarrow> bool" where
  "bandwidth_ok x = (case x of Fin q \<Rightarrow> 0 \<le> q \<and> q \<le> 20000000000 | _ \<Rightarrow> False)"

definition sample_metrics :: "float_ops \<Rightarrow> string \<Rightarrow> JobResourceSample \<Rightarrow> Metrics \<Rightarrow> Metrics" where
  "sample_metrics F w s m =
     (let labels = [(''job'', js_job s), (''worker'', w)];
          m1 = opt_gauge ''synora_job_memory_bytes'' labels (map_option (of_u64 F) (js_memory_bytes s)) m;
          m2 = opt_gauge ''synora_job_cpu_seconds'' labels (js_cpu_seconds s) m1;
          m3 = opt_gauge ''synora_job_cpu_percent'' labels (js_cpu_percent s) m2
      in case js_bandwidth_bytes s of
           None \<Rightarrow> m3
         | Some b \<Rightarrow> if bandwidth_ok b then set_job_gauge ''synora_job_bandwidth_bytes'' (js_job s) labels b m3 else m3)"

definition live_log :: "string \<Rightarrow> RunLease list \<Rightarrow> string list \<Rightarrow> int \<Rightarrow> JobLogSample \<Rightarrow> engine \<Rightarrow> engine" where
  "live_log w leases valid now s e =
     (if ls_run_id s \<notin> set valid \<or> 512 * 1024 < length (ls_content s) then e
      else case get_run (ls_run_id s) (en_db e) of
             None \<Rightarrow> e
           | Some run \<Rightarrow>
               if rr_worker_id run \<noteq> Some w \<or> rr_job_id run \<noteq> ls_job s then e
               else case find (\<lambda>l. rl_run_id l = ls_run_id s) leases of
                      None \<Rightarrow> e
                    | Some l \<Rightarrow> on_db_ignored (insert_log_fenced (ls_run_id s) w (rl_lease_token l) (ls_job s) (ls_content s) now) e)"

definition offers :: "'tz mgr_env \<Rightarrow> string \<Rightarrow> manager \<Rightarrow> RunAssignment list" where
  "offers M w m =
     (case get_worker w (mdb m) of
        None \<Rightarrow> []
      | Some row \<Rightarrow>
          if wk_status row = ONLINE then
            filter_map (\<lambda>run. map_option (run_assignment M (rr_id run) (rr_retry_count run)) (engine_job (mg_engine m) (rr_job_id run)))
              (take 32 (assigned_runs w (mdb m)))
          else [])"

definition heartbeat :: "'tz mgr_env \<Rightarrow> AuthUser \<Rightarrow> string \<Rightarrow> HeartbeatRequest \<Rightarrow> int \<Rightarrow> HeartbeatResponse handler" where
  "heartbeat M auth w body now =
     io_bind (require_perm auth ''runs.manage'') (\<lambda>_.
     io_bind (check (token_owns_worker auth w) FORBIDDEN) (\<lambda>_.
     io_bind (run_stmt INTERNAL_SERVER_ERROR (touch_heartbeat w (hb_jobs_running body) now)) (\<lambda>_.
     io_bind (run_stmt INTERNAL_SERVER_ERROR (renew_all w now (take 256 (hb_active_runs body)))) (\<lambda>valid.
     io_bind (on_engine (on_metrics (\<lambda>mt. fold (sample_metrics (fops (m_engine M)) w)
         (filter (\<lambda>s. js_job s \<in> set (map snd valid)) (hb_resources body)) (remove_worker_metrics resource_metrics w mt)))) (\<lambda>_.
     io_bind (on_engine (fold (live_log w (hb_active_runs body) (map fst valid) now) (take 32 (hb_logs body)))) (\<lambda>_.
     io_bind (read_state (offers M w)) (\<lambda>offered.
     io_bind (read_state (\<lambda>m. map_option rr_id (head_opt (cancelling_runs_of w (mdb m))))) (\<lambda>stop.
     io_bind (on_engine (refresh_worker_metrics M (Some w) now)) (\<lambda>_.
     io_ret \<lparr>hr_cancel_runs = filter (\<lambda>i. i \<notin> set (map fst valid)) (map rl_run_id (hb_active_runs body)),
             hr_assignment = head_opt offered, hr_assignments = offered, hr_cancel_run = stop, hr_offline_grace_secs = 45\<rparr>)))))))))"

definition claim_metrics :: "float_ops \<Rightarrow> JobSpec \<Rightarrow> string \<Rightarrow> int \<Rightarrow> Metrics \<Rightarrow> Metrics" where
  "claim_metrics F job w now m =
     set_job_gauge ''synora_job_status'' (name job) [(''job'', name job), (''worker'', w)] (Fin (of_nat (status_value Syncing)))
       (set_gauge ''synora_job_last_start_timestamp'' (job_label job) (of_i64 F now)
         (inc_counter F ''synora_job_runs_total'' (job_label job) (Fin 1) m))"

definition claim :: "'tz mgr_env \<Rightarrow> AuthUser \<Rightarrow> string \<Rightarrow> (string \<rightharpoonup> string) \<Rightarrow> int \<Rightarrow> RunAssignment handler" where
  "claim M auth i params now =
     (if params ''protocol'' \<noteq> Some ''2'' then io_err UPGRADE_REQUIRED
      else
        io_bind (require_perm auth ''runs.manage'') (\<lambda>_.
        let w = (case params ''worker'' of Some x \<Rightarrow> if x = [] then user_name auth else x | None \<Rightarrow> user_name auth)
        in io_bind (check (token_owns_worker auth w) FORBIDDEN) (\<lambda>_.
           io_bind (read_state (\<lambda>m. get_run i (mdb m))) (\<lambda>row.
           io_bind (or_code row NOT_FOUND) (\<lambda>queued.
           io_bind (check (\<lambda>m. engine_job (mg_engine m) (rr_job_id queued) \<noteq> None) NOT_FOUND) (\<lambda>_.
           io_bind (check (\<lambda>m. active_runs_of_job (rr_job_id queued) (mdb m) = []) CONFLICT) (\<lambda>_.
           io_bind (fresh_id M) (\<lambda>token.
           io_bind (run_stmt INTERNAL_SERVER_ERROR (claim_run i w token now)) (\<lambda>ok.
           io_bind (check (\<lambda>_. ok) CONFLICT) (\<lambda>_.
           io_bind (read_state (\<lambda>m. get_run i (mdb m))) (\<lambda>row.
           io_bind (or_code row NOT_FOUND) (\<lambda>run.
           io_bind (read_state (\<lambda>m. engine_job (mg_engine m) (rr_job_id run))) (\<lambda>spec.
           io_bind (or_code spec NOT_FOUND) (\<lambda>job.
           io_bind (on_engine (on_metrics (claim_metrics (fops (m_engine M)) job w now))) (\<lambda>_.
           io_bind (on_engine (refresh_worker_metrics M (Some w) now)) (\<lambda>_.
           io_ret \<lparr>ra_lease_token = opt_default [] (rr_lease_token run), ra_run_id = i, ra_attempt = rr_retry_count run,
                   ra_job = job, ra_proxy_env = m_proxy_env M job\<rparr>))))))))))))))))"

section \<open>Completion\<close>

definition completion_validation_error :: "JobSpec \<Rightarrow> CompleteRequest \<Rightarrow> string option" where
  "completion_validation_error job body =
     (if ok_status (cq_status body)
      then reported_completion_failure_reason job (map_option i64_as_i32 (cq_exit_code body)) (Some (cq_status body))
      else None)"

definition effective_status :: "JobSpec \<Rightarrow> CompleteRequest \<Rightarrow> string" where
  "effective_status job body = (if completion_validation_error job body \<noteq> None then ''failed'' else cq_status body)"

definition completion_message :: "JobSpec \<Rightarrow> CompleteRequest \<Rightarrow> string option" where
  "completion_message job body =
     (case completion_validation_error job body of Some e \<Rightarrow> Some e | None \<Rightarrow> cq_message body)"

definition fence_of :: "CompleteRequest \<Rightarrow> (string \<times> string) option" where
  "fence_of body = Some (cq_worker_id body, cq_lease_token body)"

definition bare_completion :: "JobSpec \<Rightarrow> CompleteRequest \<Rightarrow> int \<Rightarrow> completion" where
  "bare_completion job body duration = (no_outcome (completion_message job body))\<lparr>cp_duration := duration\<rparr>"

text \<open>Each branch answers whether the statement took effect and the status for the gauges.\<close>

definition apply_lost :: "'tz mgr_env \<Rightarrow> string \<Rightarrow> RunRow \<Rightarrow> JobSpec \<Rightarrow> CompleteRequest \<Rightarrow> int \<Rightarrow> int \<Rightarrow> (bool \<times> JobStatus) handler" where
  "apply_lost M i run job body duration now =
     io_bind (run_stmt INTERNAL_SERVER_ERROR
       (finish_active_run_fenced i (rr_retry_count run) Lost (bare_completion job body duration) (fence_of body) now)) (\<lambda>applied.
     if \<not> applied then io_ret (False, Lost)
     else
       io_bind (on_engine (on_metrics (inc_counter (fops (m_engine M)) ''synora_job_lost_total'' (job_label job) (Fin 1)))) (\<lambda>_.
       io_bind (read_state (\<lambda>m. pick (mg_picker m) job)) (\<lambda>w.
       io_bind (fresh_id M) (\<lambda>new_id m.
         case on_db (create_lost_requeue i new_id (name job) w now) (mg_engine m) of
           (Inr (Some _), e) \<Rightarrow> (Ok (True, Queued), m\<lparr>mg_engine := e\<rparr>)
         | (_, e) \<Rightarrow> (Ok (True, Lost), m\<lparr>mg_engine := e\<rparr>)))))"

definition apply_cancelled :: "string \<Rightarrow> RunRow \<Rightarrow> JobSpec \<Rightarrow> CompleteRequest \<Rightarrow> int \<Rightarrow> int \<Rightarrow> (bool \<times> JobStatus) handler" where
  "apply_cancelled i run job body duration now =
     io_bind (run_stmt INTERNAL_SERVER_ERROR
       (finish_active_run_fenced i (rr_retry_count run) Cancelled (bare_completion job body duration) (fence_of body) now)) (\<lambda>applied.
     io_ret (applied, Cancelled))"

definition remote_success :: "string \<Rightarrow> JobStatus" where
  "remote_success s = (if s = ''success_with_warnings'' then SuccessWithWarnings else Success)"

definition remote_completion :: "JobSpec \<Rightarrow> CompleteRequest \<Rightarrow> int \<Rightarrow> completion" where
  "remote_completion job body duration =
     \<lparr>cp_exit_code = map_option i64_as_i32 (cq_exit_code body), cp_size_before = cq_size_before body,
      cp_size_after = cq_size_after body, cp_bytes = cq_bytes_transferred body,
      cp_message = completion_message job body, cp_duration = duration\<rparr>"

definition success_metrics :: "float_ops \<Rightarrow> JobSpec \<Rightarrow> string \<Rightarrow> CompleteRequest \<Rightarrow> int \<Rightarrow> Metrics \<Rightarrow> Metrics" where
  "success_metrics F job label body now m =
     (let m1 = (case cq_bytes_transferred body of
                  None \<Rightarrow> m
                | Some b \<Rightarrow> inc_counter F ''synora_job_bytes_transferred_total'' [(''job'', name job), (''worker'', label)] (of_i64 F b) m)
      in inc_counter F ''synora_job_success_total'' (job_label job) (Fin 1)
           (set_gauge ''synora_job_last_success_timestamp'' (job_label job) (of_i64 F now) m1))"

definition apply_success :: "'tz mgr_env \<Rightarrow> string \<Rightarrow> RunRow \<Rightarrow> JobSpec \<Rightarrow> string \<Rightarrow> CompleteRequest \<Rightarrow> int \<Rightarrow> int \<Rightarrow> (bool \<times> JobStatus) handler" where
  "apply_success M i run job label body duration now =
     (let s = remote_success (effective_status job body)
      in io_bind (run_stmt INTERNAL_SERVER_ERROR
           (finish_active_run_fenced i (rr_retry_count run) s (remote_completion job body duration) (fence_of body) now)) (\<lambda>applied.
         if \<not> applied then io_ret (False, s)
         else
           io_bind (on_engine (case cq_size_after body of None \<Rightarrow> id | Some z \<Rightarrow> persist_repository_size M job z now)) (\<lambda>_.
           io_bind (on_engine (on_metrics (success_metrics (fops (m_engine M)) job label body now))) (\<lambda>_.
           io_ret (True, s)))))"

definition apply_failed :: "'tz mgr_env \<Rightarrow> string \<Rightarrow> RunRow \<Rightarrow> JobSpec \<Rightarrow> CompleteRequest \<Rightarrow> int \<Rightarrow> int \<Rightarrow> (bool \<times> JobStatus) handler" where
  "apply_failed M i run job body duration now =
     (case retry_of (fops (m_engine M)) job ProviderError (rr_retry_count run) of
        Retry delay \<Rightarrow>
          io_bind (run_stmt INTERNAL_SERVER_ERROR
            (set_retry_from_active_fenced i (rr_retry_count run) (now + int delay) (rr_retry_count run + 1) (fence_of body) now)) (\<lambda>applied.
          io_bind (on_engine (if applied then on_metrics (inc_counter (fops (m_engine M)) ''synora_job_retries_total'' (job_label job) (Fin 1)) else id)) (\<lambda>_.
          io_ret (applied, Retrying)))
      | NoRetry \<Rightarrow>
          io_bind (run_stmt INTERNAL_SERVER_ERROR
            (finish_active_run_fenced i (rr_retry_count run) Failed
               ((bare_completion job body duration)\<lparr>cp_exit_code := map_option i64_as_i32 (cq_exit_code body)\<rparr>) (fence_of body) now)) (\<lambda>applied.
          io_bind (on_engine (if applied then on_metrics (inc_counter (fops (m_engine M)) ''synora_job_failures_total'' (job_label job) (Fin 1)) else id)) (\<lambda>_.
          io_ret (applied, Failed))))"

definition apply_completion :: "'tz mgr_env \<Rightarrow> string \<Rightarrow> RunRow \<Rightarrow> JobSpec \<Rightarrow> string \<Rightarrow> CompleteRequest \<Rightarrow> int \<Rightarrow> int \<Rightarrow> (bool \<times> JobStatus) handler" where
  "apply_completion M i run job label body duration now =
     (let s = effective_status job body
      in if s = ''lost'' then apply_lost M i run job body duration now
         else if s = ''cancelled'' then apply_cancelled i run job body duration now
         else if ok_status s then apply_success M i run job label body duration now
         else if s = ''failed'' then apply_failed M i run job body duration now
         else io_err BAD_REQUEST)"

text \<open>What follows a completion that took effect: log, resources and metrics.\<close>

definition completion_metrics :: "float_ops \<Rightarrow> JobSpec \<Rightarrow> string \<Rightarrow> CompleteRequest \<Rightarrow> JobStatus \<Rightarrow> int \<Rightarrow> int \<Rightarrow> Metrics \<Rightarrow> Metrics" where
  "completion_metrics F job label body status duration now m =
     (let labels = [(''job'', name job), (''worker'', label)];
          m1 = (case cq_cpu_seconds body of None \<Rightarrow> m | Some c \<Rightarrow> inc_counter F ''synora_job_cpu_usage_seconds_total'' labels c m);
          m2 = fold (\<lambda>metric. remove_job_worker_metric metric (name job) label) resource_metrics m1;
          m3 = set_job_gauge ''synora_job_status'' (name job) labels (Fin (of_nat (status_value status))) m2;
          m4 = set_gauge ''synora_job_duration_seconds'' (job_label job) (of_i64 F duration) m3
      in set_gauge ''synora_job_last_end_timestamp'' (job_label job) (of_i64 F now) m4)"

definition completion_tail :: "'tz mgr_env \<Rightarrow> string \<Rightarrow> JobSpec \<Rightarrow> string \<Rightarrow> CompleteRequest \<Rightarrow> JobStatus \<Rightarrow> int \<Rightarrow> int \<Rightarrow> engine \<Rightarrow> engine" where
  "completion_tail M i job label body status duration now e =
     (let e1 = (case cq_log body of
                  Some l \<Rightarrow> if l = [] then e
                            else on_db_ignored (insert_log_with i (name job) (''/var/log/synora/'' @ name job @ ''/current.log'') l now) e
                | None \<Rightarrow> e);
          e2 = (if cq_memory_bytes body \<noteq> None \<or> cq_cpu_seconds body \<noteq> None
                then on_db_ignored (set_run_resources i (cq_memory_bytes body) (cq_cpu_seconds body)) e1 else e1);
          e3 = on_metrics (completion_metrics (fops (m_engine M)) job label body status duration now) e2
      in refresh_worker_metrics M (Some label) now e3)"

definition completion_matches :: "RunRow \<Rightarrow> CompleteRequest \<Rightarrow> bool" where
  "completion_matches run body \<longleftrightarrow>
     cq_worker_id body = opt_default [] (rr_worker_id run) \<and> cq_lease_token body \<noteq> []
     \<and> rr_lease_token run = Some (cq_lease_token body) \<and> cq_attempt body = Some (rr_retry_count run)"

definition complete :: "'tz mgr_env \<Rightarrow> AuthUser \<Rightarrow> string \<Rightarrow> CompleteRequest \<Rightarrow> int \<Rightarrow> unit handler" where
  "complete M auth i body now =
     io_bind (require_perm auth ''runs.manage'') (\<lambda>_.
     io_bind (check (token_owns_worker auth (cq_worker_id body)) FORBIDDEN) (\<lambda>_.
     io_bind (read_state (\<lambda>m. get_run i (mdb m))) (\<lambda>row.
     io_bind (or_code row NOT_FOUND) (\<lambda>run.
     io_bind (check (\<lambda>m. engine_job (mg_engine m) (rr_job_id run) \<noteq> None) NOT_FOUND) (\<lambda>_.
     io_bind (check (token_owns_worker auth (opt_default [] (rr_worker_id run))) FORBIDDEN) (\<lambda>_.
     io_bind (check (\<lambda>_. completion_matches run body) CONFLICT) (\<lambda>_.
     io_bind (read_state (\<lambda>m. engine_job (mg_engine m) (rr_job_id run))) (\<lambda>spec.
     io_bind (or_code spec NOT_FOUND) (\<lambda>job.
     let duration = max i64_min (min i64_max (now - opt_default (rr_created_at run) (rr_started_at run)));
         label = opt_default (user_name auth) (rr_worker_id run)
     in if cq_attempt body \<noteq> None \<and> cq_attempt body \<noteq> Some (rr_retry_count run) then io_ret ()
        else
          io_bind (apply_completion M i run job label body duration now) (\<lambda>(applied, status).
          if \<not> applied then io_ret ()
          else io_bind (on_engine (completion_tail M i job label body status duration now)) (\<lambda>_. refresh_picker M)))))))))))"

section \<open>Workers leaving\<close>

definition may_manage :: "AuthUser \<Rightarrow> string \<Rightarrow> manager \<Rightarrow> bool" where
  "may_manage auth w m \<longleftrightarrow> has_perm auth ''workers.write'' \<or> token_owns_worker auth w m"

definition drain :: "'tz mgr_env \<Rightarrow> AuthUser \<Rightarrow> string \<Rightarrow> unit handler" where
  "drain M auth w =
     io_bind (check (may_manage auth w) FORBIDDEN) (\<lambda>_.
     io_bind (run_stmt NOT_FOUND (set_worker_status w DRAINING)) (\<lambda>_. refresh_picker M))"

definition worker_shutdown :: "'tz mgr_env \<Rightarrow> AuthUser \<Rightarrow> string \<Rightarrow> unit handler" where
  "worker_shutdown M auth w =
     io_bind (check (may_manage auth w) FORBIDDEN) (\<lambda>_.
     io_bind (run_stmt INTERNAL_SERVER_ERROR (begin_worker_shutdown w)) (\<lambda>_. refresh_picker M))"

definition unregister :: "'tz mgr_env \<Rightarrow> AuthUser \<Rightarrow> string \<Rightarrow> unit handler" where
  "unregister M auth w =
     io_bind (if has_perm auth ''workers.write'' then io_ret ()
              else io_bind (require_perm auth ''runs.manage'') (\<lambda>_. check (token_owns_worker auth w) FORBIDDEN)) (\<lambda>_.
     io_bind (check (\<lambda>m. active_runs_of w (mdb m) = []) CONFLICT) (\<lambda>_.
     io_bind (run_stmt NOT_FOUND (unregister_worker w)) (\<lambda>_. refresh_picker M)))"

section \<open>Operator-facing handlers\<close>

record RunDTO =
  rd_id :: string
  rd_job_id :: string
  rd_worker_id :: "string option"
  rd_status :: string
  rd_retry_count :: nat
  rd_started_at :: "int option"
  rd_finished_at :: "int option"
  rd_duration_secs :: "int option"
  rd_exit_code :: "int option"
  rd_message :: "string option"
  rd_created_at :: int

definition run_dto :: "RunRow \<Rightarrow> RunDTO" where
  "run_dto r = \<lparr>rd_id = rr_id r, rd_job_id = rr_job_id r, rd_worker_id = rr_worker_id r, rd_status = as_str (rr_status r),
     rd_retry_count = rr_retry_count r, rd_started_at = rr_started_at r, rd_finished_at = rr_finished_at r,
     rd_duration_secs = rr_duration_secs r, rd_exit_code = rr_exit_code r, rd_message = rr_message r, rd_created_at = rr_created_at r\<rparr>"

record JobDTO =
  jd_name :: string
  jd_enabled :: bool
  jd_status :: string
  jd_worker :: "string option"
  jd_provider :: string
  jd_upstream :: "string option"
  jd_storage_path :: string
  jd_schedule :: string
  jd_next_run :: "int option"
  jd_last_run :: "RunDTO option"
  jd_size_bytes :: "int option"

fun find_map :: "('a \<Rightarrow> 'b option) \<Rightarrow> 'a list \<Rightarrow> 'b option" where
  "find_map f [] = None"
| "find_map f (x # xs) = (case f x of None \<Rightarrow> find_map f xs | Some y \<Rightarrow> Some y)"

text \<open>A list collected into a hash map: the last entry of a key wins.\<close>

definition collected :: "('k \<times> 'v) list \<Rightarrow> 'k \<Rightarrow> 'v option" where
  "collected xs = map_of (rev xs)"

definition job_dto :: "'tz mgr_env \<Rightarrow> manager \<Rightarrow> string \<times> JobStatus \<Rightarrow> JobDTO" where
  "job_dto M m = (\<lambda>(n, status).
     let job = engine_job (mg_engine m) n;
         last_run = collected (map (\<lambda>r. (rr_job_id r, r)) (latest_runs (mdb m))) n;
         sizes = collected (list_repository_sizes (mdb m))
     in \<lparr>jd_name = n, jd_enabled = opt_default False (map_option enabled job), jd_status = as_str status,
         jd_worker = coalesce (Option.bind last_run rr_worker_id) (Option.bind job worker),
         jd_provider = opt_default [] (map_option (\<lambda>j. provider_label (provider j)) job),
         jd_upstream = Option.bind job upstream, jd_storage_path = opt_default [] (map_option storage job),
         jd_schedule = opt_default [] (map_option (\<lambda>j. describe (m_show_weekday M) (schedule j)) job),
         jd_next_run = Option.bind (collected (all_schedules (mdb m)) n) sr_next_run,
         jd_last_run = map_option run_dto last_run,
         jd_size_bytes = Option.bind job (\<lambda>j. find_map sizes (size_keys_for (m_storage M) j))\<rparr>)"

definition list_jobs :: "'tz mgr_env \<Rightarrow> AuthUser \<Rightarrow> JobDTO list handler" where
  "list_jobs M auth =
     io_bind (require_perm auth ''jobs.read'') (\<lambda>_.
     read_state (\<lambda>m. map (job_dto M m) (job_status_list (mdb m))))"

text \<open>\<open>remove_block\<close> is the outcome of \<open>config::remove_job_block\<close>, absent without a configuration path.\<close>

definition delete_job :: "AuthUser \<Rightarrow> string \<Rightarrow> (string + unit) option \<Rightarrow> unit handler" where
  "delete_job auth n remove_block =
     io_bind (require_perm auth ''jobs.write'') (\<lambda>_.
     io_bind (check (\<lambda>_. job_name_ok n) BAD_REQUEST) (\<lambda>_.
     io_bind (check (\<lambda>m. engine_job (mg_engine m) n \<noteq> None \<or> n \<in> set (map fst (job_status_list (mdb m)))) NOT_FOUND) (\<lambda>_.
     io_bind (check (\<lambda>_. case remove_block of Some (Inl e) \<Rightarrow> contains_str ''not found'' e | _ \<Rightarrow> True) INTERNAL_SERVER_ERROR) (\<lambda>_ m.
       case forget_job_current n (mg_engine m) of
         (Inl _, e) \<Rightarrow> (Err INTERNAL_SERVER_ERROR, m\<lparr>mg_engine := e\<rparr>)
       | (Inr _, e) \<Rightarrow> (Ok (), m\<lparr>mg_engine := e\<rparr>)))))"

text \<open>\<open>reload\<close>: the configuration of the start and the outcome of loading it anew, absent without a source.\<close>

definition reload_config :: "'tz mgr_env \<Rightarrow> AuthUser \<Rightarrow> ResolvedConfig \<Rightarrow> ResolvedConfig option option \<Rightarrow> int \<Rightarrow> nat handler" where
  "reload_config M auth old loaded now =
     io_bind (require_perm auth ''config.reload'') (\<lambda>_ m.
       case reload (m_engine M) old loaded now (mg_engine m) of
         (Inl _, e) \<Rightarrow> (Err BAD_REQUEST, m\<lparr>mg_engine := e\<rparr>)
       | (Inr n, e) \<Rightarrow> (Ok n, m\<lparr>mg_engine := e\<rparr>))"

definition trigger_run :: "'tz mgr_env \<Rightarrow> AuthUser \<Rightarrow> string \<Rightarrow> int \<Rightarrow> string handler" where
  "trigger_run M auth n now =
     io_bind (require_perm auth ''jobs.write'') (\<lambda>_ m.
       case dispatch_current ((m_engine M)\<lparr>planner := Some (pick (mg_picker m))\<rparr>) n True now (mg_engine m) of
         (Inl _, e) \<Rightarrow> (Err NOT_FOUND, m\<lparr>mg_engine := e\<rparr>)
       | (Inr i, e) \<Rightarrow> (Ok i, m\<lparr>mg_engine := e\<rparr>))"

definition stop_run :: "AuthUser \<Rightarrow> string \<Rightarrow> unit handler" where
  "stop_run auth n =
     io_bind (require_perm auth ''jobs.write'') (\<lambda>_ m.
       if \<exists>r \<in> set (active_runs_of LOCAL_WORKER (mdb m)). rr_job_id r = n
       then on_engine (\<lambda>e. snd (stop_job n e)) m
       else io_bind (run_stmt INTERNAL_SERVER_ERROR (set_cancelling_by_job n)) (\<lambda>_. io_ret ()) m)"

definition job_spec :: "AuthUser \<Rightarrow> string \<Rightarrow> JobSpec handler" where
  "job_spec auth n =
     io_bind (require_perm auth ''jobs.read'') (\<lambda>_.
     io_bind (read_state (\<lambda>m. engine_job (mg_engine m) n)) (\<lambda>spec. or_code spec NOT_FOUND))"

definition history :: "AuthUser \<Rightarrow> string \<Rightarrow> RunDTO list handler" where
  "history auth n =
     io_bind (require_perm auth ''jobs.read'') (\<lambda>_. read_state (\<lambda>m. map run_dto (run_history n 20 (mdb m))))"

section \<open>Logs\<close>

definition tail_of_str_skip :: "string \<Rightarrow> nat \<Rightarrow> nat \<Rightarrow> string" where
  "tail_of_str_skip s n skip_first =
     (let ls = str_lines s;
          rest = (if 0 < skip_first \<and> ls \<noteq> [] then drop (min skip_first (length ls)) ls else ls)
      in join_with [CHR 0x0A] (drop (length rest - n) rest))"

definition tail_of_str :: "string \<Rightarrow> nat \<Rightarrow> string" where
  "tail_of_str s n = tail_of_str_skip s n 0"

definition TAIL_WINDOW :: nat where "TAIL_WINDOW = 4 * 1024 * 1024"

definition tail_of_file :: "string option \<Rightarrow> nat \<Rightarrow> string option" where
  "tail_of_file content n =
     map_option (\<lambda>s. let want = min (length s) TAIL_WINDOW
       in tail_of_str_skip (drop (length s - want) s) n (if want < length s then 1 else 0)) content"

text \<open>The file system as the log handler sees it.\<close>

record log_fs =
  fs_canonicalize :: "string \<Rightarrow> string option"
  fs_read :: "string \<Rightarrow> string option"

definition tail_lines :: "(string \<rightharpoonup> string) \<Rightarrow> nat" where
  "tail_lines params = min (opt_default 50 (Option.bind (params ''tail'') (parse_unsigned u64_max))) 10000"

definition job_log_file :: "log_fs \<Rightarrow> string \<Rightarrow> string \<Rightarrow> StatusCode + string option" where
  "job_log_file fs log_dir n =
     (case (fs_canonicalize fs log_dir, fs_canonicalize fs (path_join (path_join log_dir n) ''current.log'')) of
        (Some base, Some p) \<Rightarrow>
          if \<not> path_starts_with p base \<or> \<not> path_starts_with p (path_join base n) then Err FORBIDDEN else Ok (Some p)
      | _ \<Rightarrow> Ok None)"

definition job_logs :: "log_fs \<Rightarrow> string \<Rightarrow> AuthUser \<Rightarrow> string \<Rightarrow> (string \<rightharpoonup> string) \<Rightarrow> string handler" where
  "job_logs fs log_dir auth n params =
     io_bind (require_perm auth ''logs.read'') (\<lambda>_.
     io_bind (check (\<lambda>_. job_name_ok n) BAD_REQUEST) (\<lambda>_.
     io_bind (check (\<lambda>m. engine_job (mg_engine m) n \<noteq> None) NOT_FOUND) (\<lambda>_.
     io_bind (io_lift (job_log_file fs log_dir n)) (\<lambda>path.
     let content = Option.bind path (\<lambda>p. tail_of_file (fs_read fs p) (tail_lines params))
     in if trim (opt_default [] content) = [] then
          io_bind (read_state (\<lambda>m. latest_log_content n (mdb m))) (\<lambda>stored.
            case stored of
              Some c \<Rightarrow> if c = [] then io_err NOT_FOUND else io_ret (tail_of_str c (tail_lines params))
            | None \<Rightarrow> io_err NOT_FOUND)
        else or_code content NOT_FOUND))))"

definition metrics_page :: "(f64 \<Rightarrow> string) \<Rightarrow> bool \<Rightarrow> ApiToken list \<Rightarrow> string option \<Rightarrow> string handler" where
  "metrics_page fmt metrics_auth tokens header =
     io_bind (if metrics_auth then io_bind (io_lift (authenticate tokens header)) (\<lambda>user. require_perm user ''metrics.read'') else io_ret ()) (\<lambda>_.
     read_state (\<lambda>m. render fmt (en_metrics (mg_engine m))))"

definition strip_userinfo :: "string \<Rightarrow> string" where
  "strip_userinfo u =
     (case find_str ''://'' u of
        None \<Rightarrow> u
      | Some k \<Rightarrow>
          let rest = drop (k + 3) u
          in case split_once (CHR ''@'') rest of
               None \<Rightarrow> u
             | Some (info, host) \<Rightarrow> if CHR '':'' \<in> set info then take k u @ ''://'' @ host else u)"

end
