(* ===== verification/Reaper.thy ===== *)
theory Reaper
  imports Manager
begin

text \<open>
  The reaper loop of \<open>crates/manager/src/main.rs\<close>: every ten seconds it settles superseded and lost
  runs, marks silent workers offline, takes queued runs away from absent workers, exports the gauges of
  workers and jobs and hands unassigned runs out again. One iteration is a function on the manager's
  state.
\<close>

section \<open>Lost runs\<close>

definition reap_one :: "'tz mgr_env \<Rightarrow> int \<Rightarrow> RunRow \<Rightarrow> manager \<Rightarrow> manager" where
  "reap_one M now run m =
     (case on_db (expire_run (rr_id run) now) (mg_engine m) of
        (Inr True, e) \<Rightarrow>
          (let e1 = on_metrics (inc_counter (fops (m_engine M)) ''synora_job_lost_total'' [(''job'', rr_job_id run)] (Fin 1)) e;
               m1 = m\<lparr>mg_engine := e1\<rparr>
           in case engine_job e1 (rr_job_id run) of
                Some job \<Rightarrow>
                  if on_worker_lost job = LostRetry then
                    (let (new_id, e2) = draw_id (m_engine M) e1
                     in m1\<lparr>mg_engine := on_db_ignored (create_lost_requeue (rr_id run) new_id (rr_job_id run) (pick (mg_picker m) job) now) e2\<rparr>)
                  else m1
              | None \<Rightarrow> m1)
      | (_, e) \<Rightarrow> m\<lparr>mg_engine := e\<rparr>)"

definition reap :: "'tz mgr_env \<Rightarrow> int \<Rightarrow> manager \<Rightarrow> manager" where
  "reap M now m = fold (reap_one M now) (expired_runs now (mdb m)) m"

section \<open>Silent workers\<close>

definition offline_stmt :: "int \<Rightarrow> nat stmt" where
  "offline_stmt now =
     update_workers (\<lambda>_ w. wk_last_heartbeat w < now - WORKER_HEARTBEAT_GRACE_SECS \<and> \<not> kept_status (wk_status w))
       (\<lambda>_ w. w\<lparr>wk_status := OFFLINE\<rparr>)"

section \<open>Gauges\<close>

definition worker_gauges :: "float_ops \<Rightarrow> worker_rec \<Rightarrow> Metrics \<Rightarrow> Metrics" where
  "worker_gauges F w m =
     (let label = [(''worker'', wk_id w)]
      in set_gauge ''synora_worker_max_concurrency'' label (of_u64 F (opt_default 8 (wk_max_concurrency w)))
           (set_gauge ''synora_worker_jobs_running'' label (of_i64 F (wk_jobs_running w))
             (set_gauge ''synora_worker_status'' label (worker_gauge (wk_status w)) m)))"

text \<open>What one pass reads once: sizes by path and by job, run statistics; \<open>rv_paths\<close> is the iteration order of the sizes.\<close>

record reaper_view =
  rv_sizes :: "string \<rightharpoonup> int"
  rv_paths :: "(string \<times> int) list"
  rv_run_sizes :: "string \<rightharpoonup> int"
  rv_stats :: "string \<rightharpoonup> JobRunStats"

definition reaper_view_of :: "'tz mgr_env \<Rightarrow> db \<Rightarrow> reaper_view" where
  "reaper_view_of M d =
     \<lparr>rv_sizes = collected (list_repository_sizes d), rv_paths = m_size_order M (list_repository_sizes d),
      rv_run_sizes = collected (latest_run_sizes d),
      rv_stats = collected (map (\<lambda>s. (st_job_id s, s)) (latest_run_stats d))\<rparr>"

definition trim_end_slashes :: "string \<Rightarrow> string" where
  "trim_end_slashes p = rev (dropWhile (\<lambda>c. c = CHR ''/'') (rev p))"

definition path_names_job :: "string \<Rightarrow> string \<Rightarrow> string \<Rightarrow> string \<Rightarrow> bool" where
  "path_names_job n raw resolved path \<longleftrightarrow>
     (let p = trim_end_slashes path
      in suffix (CHR ''/'' # n) p \<or> suffix (CHR ''/'' # raw) p \<or> p = n \<or> p = raw \<or> p = resolved)"

definition exported_size :: "'tz mgr_env \<Rightarrow> reaper_view \<Rightarrow> JobSpec \<Rightarrow> int option" where
  "exported_size M v job =
     (let resolved = resolved_path (m_storage M) job; raw = storage job; n = name job
      in coalesce (rv_sizes v resolved) (coalesce (rv_sizes v raw) (coalesce (rv_sizes v n) (coalesce (rv_run_sizes v n)
           (find_map (\<lambda>(path, z). if path_names_job n raw resolved path then Some z else None) (rv_paths v))))))"

definition positive_gauge :: "float_ops \<Rightarrow> string \<Rightarrow> string \<Rightarrow> int option \<Rightarrow> Metrics \<Rightarrow> Metrics" where
  "positive_gauge F metric n ts m =
     (case ts of None \<Rightarrow> m | Some t \<Rightarrow> if 0 < t then set_gauge metric [(''job'', n)] (of_i64 F t) m else m)"

definition stats_gauges :: "float_ops \<Rightarrow> string \<Rightarrow> JobRunStats \<Rightarrow> Metrics \<Rightarrow> Metrics" where
  "stats_gauges F n st m =
     (let m1 = positive_gauge F ''synora_job_last_end_timestamp'' n (st_last_end st) m;
          m2 = positive_gauge F ''synora_job_last_start_timestamp'' n (st_last_start st) m1;
          m3 = positive_gauge F ''synora_job_last_success_timestamp'' n (st_last_success st) m2
      in opt_gauge ''synora_job_duration_seconds'' [(''job'', n)] (map_option (of_i64 F) (st_duration_secs st)) m3)"

definition exported_worker :: "reaper_view \<Rightarrow> JobSpec option \<Rightarrow> string \<Rightarrow> string" where
  "exported_worker v job n =
     opt_default ''unassigned''
       (coalesce (Option.bind (Option.bind job worker) (\<lambda>w. if w = [] then None else Some w)) (Option.bind (rv_stats v n) st_last_worker))"

definition job_gauges :: "'tz mgr_env \<Rightarrow> engine \<Rightarrow> reaper_view \<Rightarrow> string \<times> JobStatus \<Rightarrow> Metrics \<Rightarrow> Metrics" where
  "job_gauges M e v = (\<lambda>(n, status) m.
     let F = fops (m_engine M); job = engine_job e n; w = exported_worker v job n;
         m1 = (if active status then m else fold (\<lambda>metric. remove_job_metric metric n) resource_metrics m);
         m2 = set_job_gauge ''synora_job_status'' n [(''job'', n), (''worker'', w)] (Fin (of_nat (status_value status))) m1;
         m3 = set_job_gauge ''synora_job_info'' n
                [(''job'', n), (''worker'', w), (''provider'', opt_default ''unknown'' (map_option provider_name job))] (Fin 1) m2;
         m4 = opt_gauge ''synora_repository_size_bytes'' [(''job'', n)] (map_option (of_i64 F) (Option.bind job (exported_size M v))) m3
     in case rv_stats v n of None \<Rightarrow> m4 | Some st \<Rightarrow> stats_gauges F n st m4)"

definition export_gauges :: "'tz mgr_env \<Rightarrow> engine \<Rightarrow> engine" where
  "export_gauges M e =
     (let F = fops (m_engine M); d = en_db e;
          e1 = on_metrics (fold (worker_gauges F) (list_workers d)) e;
          e2 = on_metrics (set_gauge ''synora_runs_queued'' [] (of_u64 F (count_waiting_runs d))) e1
      in on_metrics (fold (job_gauges M e2 (reaper_view_of M d)) (job_status_list d)) e2)"

section \<open>Handing out unassigned runs\<close>

definition redispatch_one :: "RunRow \<Rightarrow> manager \<Rightarrow> manager" where
  "redispatch_one run m =
     (case engine_job (mg_engine m) (rr_job_id run) of
        None \<Rightarrow> m
      | Some job \<Rightarrow>
          (case pick (mg_picker m) job of
             None \<Rightarrow> m
           | Some w \<Rightarrow> m\<lparr>mg_engine := on_db_ignored (assign_queued_run (rr_id run) w) (mg_engine m)\<rparr>))"

definition redispatch :: "manager \<Rightarrow> manager" where
  "redispatch m = fold redispatch_one (unassigned_runs (mdb m)) m"

section \<open>One iteration\<close>

definition reaper_tick :: "'tz mgr_env \<Rightarrow> int \<Rightarrow> manager \<Rightarrow> manager" where
  "reaper_tick M now m =
     (let on_db' = (\<lambda>m s. m\<lparr>mg_engine := on_db_ignored s (mg_engine m)\<rparr>);
          m1 = on_db' m (drop_superseded_runs now);
          m2 = on_db' m1 reconcile_stale_job_status;
          m3 = reap M now m2;
          m4 = on_db' m3 (offline_stmt now);
          m5 = on_db' m4 unassign_stmt;
          m6 = m5\<lparr>mg_engine := export_gauges M (mg_engine m5)\<rparr>;
          m7 = m6\<lparr>mg_engine := refresh_worker_metrics M None now (mg_engine m6)\<rparr>
      in redispatch (refresh M m7))"

end
