(* ===== verification/Timed_Protocol.thy ===== *)
theory Timed_Protocol
  imports Run_Protocol
begin

text \<open>
  The run protocol with a clock and with the identity of the reported runs. \<open>timed_step (now, K)\<close> has the
  statements of \<open>mgr_step\<close>, but those that grant, renew and expire leases run at the time \<open>now\<close>, and only runs in
  \<open>K\<close> are completed. A lease that has not run out at \<open>now\<close> then survives every step unless its own run is
  completed or purged: \<open>timed_lease\<close>. This is what a worker relies on while it executes a run.
\<close>

section \<open>Steps at a time\<close>

inductive timed_step :: "int \<times> string set \<Rightarrow> string set \<Rightarrow> db \<Rightarrow> db \<Rightarrow> bool" for N T where
  create: "i \<in> T \<Longrightarrow> s \<in> {Queued, Skipped} \<Longrightarrow> timed_step N T d (snd (create_run_stmt i job w' s prio now d))"
| claim: "t \<in> T \<Longrightarrow> timed_step N T d (snd (claim_stmt i w t (fst N) d))"
| renew: "timed_step N T d (snd (renew_stmt i w t (fst N) d))"
| expire: "timed_step N T d (snd (expire_stmt i (fst N) d))"
| lost_requeue: "n \<in> T \<Longrightarrow> timed_step N T d (snd (lost_requeue_stmt i n w' now d))"
| finish: "i \<in> snd N \<Longrightarrow> s \<in> {Success, SuccessWithWarnings, Failed, Cancelled, Lost} \<Longrightarrow>
    timed_step N T d (snd (finish_active_stmt i a s c fence now d))"
| retry: "i \<in> snd N \<Longrightarrow> timed_step N T d (snd (retry_active_stmt i a next_at m fence now d))"
| cancel: "timed_step N T d (snd (set_cancelling_by_job job d))"
| superseded: "timed_step N T d (snd (drop_superseded_runs now d))"
| assign: "timed_step N T d (snd (assign_stmt i w d))"
| requeue: "timed_step N T d (snd (requeue_stmt i m now d))"
| cancel_waiting: "timed_step N T d (snd (cancel_waiting_stmt job now d))"
| unassign: "timed_step N T d (snd (unassign_stmt d))"
| resources: "timed_step N T d (snd (set_run_resources i mem cpu d))"
| abandon_retry: "find_run d i = Some r \<Longrightarrow> r_status r \<in> {Retrying, Cancelled} \<Longrightarrow>
    timed_step N T d (snd (finish_stmt i Cancelled c now d))"
| settle_skipped: "find_run d i = Some r \<Longrightarrow> r_status r = Skipped \<Longrightarrow>
    timed_step N T d (snd (finish_stmt i Skipped c now d))"
| vanish: "find_run d i = Some r \<Longrightarrow> r_status r = Queued \<Longrightarrow>
    timed_step N T d (snd (finish_stmt i Failed c now d))"
| purge: "timed_step N T d (snd (del_runs job d))"
| other: "constraints d' \<Longrightarrow> t_runs d' = t_runs d \<Longrightarrow> timed_step N T d d'"

lemma timed_at:
  "t \<in> T \<Longrightarrow> timed_step (now, K) T d (snd (claim_stmt i w t now d))"
  "timed_step (now, K) T d (snd (renew_stmt i w t now d))" "timed_step (now, K) T d (snd (expire_stmt i now d))"
  using timed_step.claim [of _ _ "(now, K)"] timed_step.renew [of "(now, K)"] timed_step.expire [of "(now, K)"] by simp_all

abbreviation treaches :: "int \<times> string set \<Rightarrow> string set \<Rightarrow> db \<Rightarrow> db \<Rightarrow> bool" where
  "treaches N T \<equiv> (timed_step N T)\<^sup>*\<^sup>*"

lemma timed_mgr: "timed_step N T d d' \<Longrightarrow> mgr_step T d d'"
  by (induction rule: timed_step.induct) (auto intro: mgr_step.intros)

lemma timed_step_mono: "timed_step N T d d' \<Longrightarrow> T \<subseteq> T' \<Longrightarrow> timed_step N T' d d'"
  by (induction rule: timed_step.induct) (blast intro: timed_step.intros)+

lemma mgr_step_mono: "mgr_step T d d' \<Longrightarrow> T \<subseteq> T' \<Longrightarrow> mgr_step T' d d'"
  by (induction rule: mgr_step.induct) (blast intro: mgr_step.intros)+

section \<open>Families of steps\<close>

text \<open>A family of step relations, indexed by the identifiers that its steps may use.\<close>

locale id_steps =
  fixes S :: "string set \<Rightarrow> db \<Rightarrow> db \<Rightarrow> bool"
  assumes steps_mono: "S T d d' \<Longrightarrow> T \<subseteq> T' \<Longrightarrow> S T' d d'"
    and steps_valid: "S T d d' \<Longrightarrow> constraints d \<Longrightarrow> constraints d'"
    and steps_gone: "S T d d' \<Longrightarrow> constraints d \<Longrightarrow> i \<notin> T \<Longrightarrow> find_run d i = None \<Longrightarrow> find_run d' i = None"
begin

lemma reach_mono: "(S T)\<^sup>*\<^sup>* d d' \<Longrightarrow> T \<subseteq> T' \<Longrightarrow> (S T')\<^sup>*\<^sup>* d d'"
  by (induction rule: rtranclp_induct) (auto intro: rtranclp.rtrancl_into_rtrancl steps_mono)

lemma reach_valid: "(S T)\<^sup>*\<^sup>* d d' \<Longrightarrow> constraints d \<Longrightarrow> constraints d'"
  by (induction rule: rtranclp_induct) (auto intro: steps_valid)

lemma reach_gone: "(S T)\<^sup>*\<^sup>* d d' \<Longrightarrow> constraints d \<Longrightarrow> i \<notin> T \<Longrightarrow> find_run d i = None \<Longrightarrow> find_run d' i = None"
  by (induction rule: rtranclp_induct) (auto intro: steps_gone reach_valid)

end

interpretation plain: id_steps mgr_step
  by unfold_locales (auto intro: mgr_step_mono mgr_step_valid mgr_step_gone)

interpretation timed: id_steps "timed_step N" for N
  by unfold_locales (auto intro: timed_step_mono mgr_step_valid timed_mgr mgr_step_gone)

section \<open>Leases survive\<close>

definition live_lease :: "int \<Rightarrow> run_rec \<Rightarrow> bool" where
  "live_lease now r \<longleftrightarrow> active (r_status r) \<and> (case r_lease_expires_at r of Some e \<Rightarrow> now < e | None \<Rightarrow> False)"

text \<open>The row is still held by the same claim, with at least the old lease or a full one from \<open>now\<close>.\<close>

definition lease_kept :: "int \<Rightarrow> run_rec \<Rightarrow> run_rec \<Rightarrow> bool" where
  "lease_kept now r r' \<longleftrightarrow> active (r_status r') \<and> r_id r' = r_id r \<and> r_job_id r' = r_job_id r \<and> r_worker_id r' = r_worker_id r
     \<and> r_lease_token r' = r_lease_token r \<and> r_retry_count r' = r_retry_count r
     \<and> (\<exists>e e'. r_lease_expires_at r = Some e \<and> r_lease_expires_at r' = Some e' \<and> min e (now + RUN_LEASE_SECS) \<le> e')"

lemma lease_kept_refl: "live_lease now r \<Longrightarrow> lease_kept now r r"
  by (auto simp: live_lease_def lease_kept_def split: option.splits)

lemma lease_kept_live: "live_lease now r \<Longrightarrow> lease_kept now r r' \<Longrightarrow> live_lease now r'"
  by (auto simp: live_lease_def lease_kept_def RUN_LEASE_SECS_def)

lemma lease_kept_trans: "lease_kept now a b \<Longrightarrow> lease_kept now b c \<Longrightarrow> lease_kept now a c"
  by (auto simp: lease_kept_def)

lemma timed_update:
  assumes "find_run d i = Some r" and "live_lease now r" and "constraints d"
    and "p d r \<Longrightarrow> lease_kept now r (f r)" and "\<And>r. r_id (f r) = r_id r"
  shows "\<exists>r'. find_run (snd (update_runs p f d)) i = Some r' \<and> lease_kept now r r'"
proof -
  have "find (\<lambda>r. r_id r = i) (update_where (p d) f rs) = map_option (\<lambda>r. if p d r then f r else r) (find (\<lambda>r. r_id r = i) rs)" for rs
    by (induction rs) (auto simp: update_where_def assms(5))
  with assms show ?thesis by (auto simp: update_runs_def commit_def find_run_def lease_kept_refl)
qed

lemma find_append_run: "find_run d i = Some r \<Longrightarrow> find_run (d\<lparr>t_runs := t_runs d @ rs\<rparr>) i = Some r"
  by (simp add: find_run_def find_append_Some)

lemma timed_lease:
  assumes "timed_step (now, K) T d d'" and "constraints d" and "i \<notin> K" and "find_run d i = Some r" and "live_lease now r"
  shows "find_run d' i = None \<or> (\<exists>r'. find_run d' i = Some r' \<and> lease_kept now r r')"
proof -
  have act: "active (r_status r)" and ri: "r_id r = i" "r \<in> set (t_runs d)" using assms(4,5) find_run_SomeD by (auto simp: live_lease_def)
  obtain e where e: "r_lease_expires_at r = Some e" "now < e" using assms(5) by (auto simp: live_lease_def split: option.splits)
  note upd = timed_update [OF assms(4,5,2)]
  have ins: "\<exists>r'. find_run (snd (insert_run q d)) i = Some r' \<and> lease_kept now r r'" for q
    using lease_kept_refl [OF assms(5)] assms(4) find_append_run [OF assms(4), of "[q]"] by (simp add: insert_run_def commit_def)
  have same: "\<exists>r'. find_run d i = Some r' \<and> lease_kept now r r'" using assms(4) lease_kept_refl [OF assms(5)] by blast
  have diff: "r_id q \<noteq> i" if "find_run d j = Some q" "\<not> active (r_status q)" for j q
    using that act assms(4) find_run_SomeD [OF that(1)] by auto
  have "\<not> superseded d r"
  proof
    assume "superseded d r"
    then obtain a where "a \<in> set (t_runs d)" "r_job_id a = r_job_id r" "r_id a \<noteq> r_id r" "active (r_status a)"
      by (auto simp: superseded_def executing_active)
    then show False using one_active [OF assms(2)] ri(2) act by metis
  qed
  from assms(1) this show ?thesis
  proof (cases rule: timed_step.cases)
    case (create j s job w' prio m)
    then show ?thesis using ins same by (auto simp: create_run_stmt_def split: option.split)
  next
    case (lost_requeue n j w' m)
    then show ?thesis using ins same by (auto simp: lost_requeue_stmt_def split: option.split)
  next
    case (purge job)
    show ?thesis
    proof (cases "find_run d' i")
      case (Some q)
      have "q \<in> set (t_runs d)" "r_id q = i" using find_run_SomeD [OF Some] purge by (auto simp: del_runs_def commit_def split: if_splits)
      then have "q = r" by (rule find_run_unique [OF assms(2,4)])
      with Some lease_kept_refl [OF assms(5)] show ?thesis by blast
    qed simp
  next
    case other
    then show ?thesis using same by (simp add: find_run_def)
  next
    case (abandon_retry j q c m)
    then have "j \<noteq> i" using diff [of j q] find_run_SomeD [of d j q] by auto
    then show ?thesis unfolding abandon_retry finish_stmt_def using ri by (intro disjI2 upd) auto
  next
    case (settle_skipped j q c m)
    then have "j \<noteq> i" using diff [of j q] find_run_SomeD [of d j q] by auto
    then show ?thesis unfolding settle_skipped finish_stmt_def using ri by (intro disjI2 upd) auto
  next
    case (vanish j q c m)
    then have "j \<noteq> i" using diff [of j q] find_run_SomeD [of d j q] by auto
    then show ?thesis unfolding vanish finish_stmt_def using ri by (intro disjI2 upd) auto
  qed (use act e ri assms(3) in \<open>(simp only: stmt_defs set_run_resources_def seq_ret_snd fst_conv snd_conv; intro disjI2 upd;
      auto simp: claimable_def finishable_def lease_kept_def active_def executing_def)+\<close>)
qed

end
