(* ===== verification/Netroute.thy ===== *)
theory Netroute
  imports Text_Util "HOL-Library.Word"
begin

text \<open>
  Network routing, \<open>crates/netroute/src/lib.rs\<close>: the choice of a proxy or an egress address for a job from the configured
  ones, their groups and the outcome of the last probes, and the environment that a worker gets. The round-robin cursor and the
  state of the generator are 64-bit words that wrap around. The outcome of a probe is a parameter.
\<close>

section \<open>Configuration and state\<close>

datatype ProxyKind = PkDirect | PkForward string "(string \<times> string) list" | PkCommand string "(string \<times> string) list"

record ProxyConfig =
  px_kind :: ProxyKind
  px_healthcheck :: "string option"
  px_timeout :: nat
  px_expose :: "string option"
  px_expose_auth :: "string option"

record ProxyGroupConfig =
  pg_proxies :: "string list"
  pg_strategy :: string

text \<open>An address is its family and its text.\<close>

datatype IpAddr = IpV4 string | IpV6 string

record EgressConfig =
  eg_name :: string
  eg_address :: IpAddr
  eg_probe :: "string option"

record EgressGroupConfig =
  ga_addresses :: "string list"
  ga_strategy :: string

record ProxyProbe =
  pb_latency_ms :: "nat option"
  pb_egress_ip :: "string option"
  pb_healthy :: bool
  pb_last_probe_at :: "int option"

datatype Selection = SelDirect | SelForward string string "(string \<times> string) list"

datatype Family = FamilyAny | FamilyV4 | FamilyV6

text \<open>\<open>nr_lcg\<close> is the state of the generator, which all routes of the process share.\<close>

record NetRoute =
  nr_proxies :: "string \<rightharpoonup> ProxyConfig"
  nr_proxy_groups :: "string \<rightharpoonup> ProxyGroupConfig"
  nr_egresses :: "string \<rightharpoonup> EgressConfig"
  nr_egress_groups :: "string \<rightharpoonup> EgressGroupConfig"
  nr_default_proxy :: "string option"
  nr_probe_states :: "string \<rightharpoonup> ProxyProbe"
  nr_egress_health :: "string \<rightharpoonup> bool"
  nr_rr :: "64 word"
  nr_lcg :: "64 word"

text \<open>\<open>NetRoute::new\<close>: of several egresses with one name the last one counts.\<close>

definition new_route :: "(string \<rightharpoonup> ProxyConfig) \<Rightarrow> (string \<rightharpoonup> ProxyGroupConfig) \<Rightarrow> EgressConfig list \<Rightarrow> (string \<rightharpoonup> EgressGroupConfig) \<Rightarrow> string option \<Rightarrow> 64 word \<Rightarrow> NetRoute" where
  "new_route proxies groups egresses egress_groups default_proxy generator =
     \<lparr>nr_proxies = proxies, nr_proxy_groups = groups, nr_egresses = map_of (rev (map (\<lambda>e. (eg_name e, e)) egresses)),
      nr_egress_groups = egress_groups, nr_default_proxy = default_proxy, nr_probe_states = Map.empty, nr_egress_health = Map.empty,
      nr_rr = 0, nr_lcg = generator\<rparr>"

text \<open>The configured proxies come as a list here: \<open>build_optional\<close> asks whether there are any.\<close>

definition build_optional :: "(string \<times> ProxyConfig) list \<Rightarrow> (string \<rightharpoonup> ProxyGroupConfig) \<Rightarrow> EgressConfig list \<Rightarrow> (string \<rightharpoonup> EgressGroupConfig) \<Rightarrow> string option \<Rightarrow> 64 word \<Rightarrow> NetRoute option" where
  "build_optional proxies groups egresses egress_groups default_proxy generator =
     (if proxies = [] \<and> egresses = [] then None else Some (new_route (map_of proxies) groups egresses egress_groups default_proxy generator))"

section \<open>Choosing a member of a group\<close>

text \<open>\<open>lcg\<close>; \<open>seed\<close> is the process identifier, exclusive or with the rotated clock.\<close>

definition lcg :: "64 word \<Rightarrow> 64 word \<Rightarrow> 64 word" where
  "lcg seed state =
     (let s = (if state \<noteq> 0 then state else if seed \<noteq> 0 then seed else 0x9E3779B97F4A7C15)
      in s * 6364136223846793005 + 1442695040888963407)"

definition route_healthy :: "NetRoute \<Rightarrow> string \<Rightarrow> bool" where
  "route_healthy nr n = (case nr_probe_states nr n of Some p \<Rightarrow> pb_healthy p | None \<Rightarrow> True)"

definition egress_healthy :: "NetRoute \<Rightarrow> string \<Rightarrow> bool" where
  "egress_healthy nr n = (case nr_egress_health nr n of Some h \<Rightarrow> h | None \<Rightarrow> True)"

definition routable :: "NetRoute \<Rightarrow> string \<Rightarrow> bool" where
  "routable nr n =
     (case nr_proxies nr n of
        None \<Rightarrow> False
      | Some p \<Rightarrow> (case px_kind p of PkForward _ _ \<Rightarrow> True | PkDirect \<Rightarrow> True | PkCommand _ _ \<Rightarrow> False))"

text \<open>The first healthy member from \<open>start\<close> on, around the list.\<close>

definition find_from :: "(string \<Rightarrow> bool) \<Rightarrow> string list \<Rightarrow> nat \<Rightarrow> nat option" where
  "find_from healthy members start = find (\<lambda>i. healthy (members ! i)) (map (\<lambda>i. (start + i) mod length members) [0..<length members])"

definition pick_from_group :: "64 word \<Rightarrow> ProxyGroupConfig \<Rightarrow> NetRoute \<Rightarrow> string option \<times> NetRoute" where
  "pick_from_group seed g nr =
     (let members = filter (routable nr) (pg_proxies g)
      in if members = [] then (None, nr)
         else if pg_strategy g = ''fixed'' then (Some (members ! 0), nr)
         else if pg_strategy g = ''failover'' then (find (route_healthy nr) members, nr)
         else if pg_strategy g = ''round-robin'' then
           (map_option ((!) members) (find_from (route_healthy nr) members (unat (nr_rr nr) mod length members)), nr\<lparr>nr_rr := nr_rr nr + 1\<rparr>)
         else if pg_strategy g = ''random'' then
           (let n = lcg seed (nr_lcg nr)
            in (map_option ((!) members) (find_from (route_healthy nr) members (unat n mod length members)), nr\<lparr>nr_lcg := n\<rparr>))
         else (Some (members ! 0), nr))"

definition pick_egress_from_group :: "64 word \<Rightarrow> EgressGroupConfig \<Rightarrow> NetRoute \<Rightarrow> IpAddr option \<times> NetRoute" where
  "pick_egress_from_group seed g nr =
     (let members = filter (\<lambda>n. nr_egresses nr n \<noteq> None) (ga_addresses g);
          pick = (\<lambda>i. map_option eg_address (nr_egresses nr (members ! i)))
      in if members = [] then (None, nr)
         else if ga_strategy g = ''fixed'' then (pick 0, nr)
         else if ga_strategy g = ''failover'' then (Option.bind (find_from (egress_healthy nr) members 0) pick, nr)
         else if ga_strategy g = ''round-robin'' then
           (Option.bind (find_from (egress_healthy nr) members (unat (nr_rr nr) mod length members)) pick, nr\<lparr>nr_rr := nr_rr nr + 1\<rparr>)
         else if ga_strategy g = ''random'' then
           (let n = lcg seed (nr_lcg nr)
            in (Option.bind (find_from (egress_healthy nr) members (unat n mod length members)) pick, nr\<lparr>nr_lcg := n\<rparr>))
         else (pick 0, nr))"

section \<open>Selection\<close>

definition selection_for_name :: "string \<Rightarrow> ProxyConfig \<Rightarrow> Selection" where
  "selection_for_name n p =
     (case px_kind p of
        PkDirect \<Rightarrow> SelDirect
      | PkForward url env \<Rightarrow> SelForward n url env
      | PkCommand _ _ \<Rightarrow> SelDirect)"

definition select_named_proxy :: "64 word \<Rightarrow> string option \<Rightarrow> NetRoute \<Rightarrow> Selection \<times> NetRoute" where
  "select_named_proxy seed proxy nr =
     (case proxy of
        None \<Rightarrow> (SelDirect, nr)
      | Some n \<Rightarrow>
          (case nr_proxy_groups nr n of
             Some g \<Rightarrow>
               (case pick_from_group seed g nr of
                  (None, nr1) \<Rightarrow> (SelDirect, nr1)
                | (Some picked, nr1) \<Rightarrow>
                    ((case nr_proxies nr picked of Some p \<Rightarrow> selection_for_name picked p | None \<Rightarrow> SelDirect), nr1))
           | None \<Rightarrow> ((case nr_proxies nr n of Some p \<Rightarrow> selection_for_name n p | None \<Rightarrow> SelDirect), nr)))"

definition select_proxy :: "64 word \<Rightarrow> string option \<Rightarrow> NetRoute \<Rightarrow> Selection \<times> NetRoute" where
  "select_proxy seed proxy nr = select_named_proxy seed (coalesce proxy (nr_default_proxy nr)) nr"

definition select_job_proxy :: "64 word \<Rightarrow> string option \<Rightarrow> NetRoute \<Rightarrow> Selection \<times> NetRoute" where
  "select_job_proxy seed proxy nr = select_named_proxy seed proxy nr"

definition select_egress :: "64 word \<Rightarrow> string option \<Rightarrow> NetRoute \<Rightarrow> IpAddr option \<times> NetRoute" where
  "select_egress seed job_egress nr =
     (case job_egress of
        None \<Rightarrow> (None, nr)
      | Some n \<Rightarrow>
          (case nr_egress_groups nr n of
             Some g \<Rightarrow> pick_egress_from_group seed g nr
           | None \<Rightarrow> (map_option eg_address (nr_egresses nr n), nr)))"

fun select_family :: "string \<Rightarrow> IpAddr option \<Rightarrow> Family" where
  "select_family family egress =
     (let requested = (if family = ''ipv4'' then FamilyV4 else if family = ''ipv6'' then FamilyV6 else FamilyAny)
      in case (requested, egress) of
           (FamilyAny, Some (IpV4 _)) \<Rightarrow> FamilyV4
         | (FamilyAny, Some _) \<Rightarrow> FamilyV6
         | (FamilyV4, Some (IpV6 _)) \<Rightarrow> FamilyV6
         | (FamilyV6, Some (IpV4 _)) \<Rightarrow> FamilyV4
         | _ \<Rightarrow> requested)"

text \<open>Recording a probe of a configured proxy or of an unknown name, and of an egress.\<close>

definition no_probe :: ProxyProbe where
  "no_probe = \<lparr>pb_latency_ms = None, pb_egress_ip = None, pb_healthy = False, pb_last_probe_at = None\<rparr>"

definition probe :: "(string \<Rightarrow> ProxyConfig \<Rightarrow> ProxyProbe) \<Rightarrow> string \<Rightarrow> NetRoute \<Rightarrow> ProxyProbe \<times> NetRoute" where
  "probe probe_one n nr =
     (let result = (case nr_proxies nr n of Some p \<Rightarrow> probe_one n p | None \<Rightarrow> no_probe)
      in (result, nr\<lparr>nr_probe_states := (nr_probe_states nr)(n \<mapsto> result)\<rparr>))"

text \<open>\<open>connect\<close> is the outcome of a bound connection to the probe target within the timeout.\<close>

definition probe_egress :: "(IpAddr \<Rightarrow> string \<Rightarrow> bool) \<Rightarrow> string \<Rightarrow> NetRoute \<Rightarrow> bool \<times> NetRoute" where
  "probe_egress connect n nr =
     (case nr_egresses nr n of
        None \<Rightarrow> (False, nr)
      | Some eg \<Rightarrow>
          (let healthy = (case eg_probe eg of None \<Rightarrow> True | Some target \<Rightarrow> connect (eg_address eg) target)
           in (healthy, nr\<lparr>nr_egress_health := (nr_egress_health nr)(n \<mapsto> healthy)\<rparr>)))"

section \<open>Probes\<close>

text \<open>\<open>parse_ip_text\<close>; \<open>is_ip\<close> is the parser of addresses.\<close>

definition parse_ip_text :: "(string \<Rightarrow> bool) \<Rightarrow> string \<Rightarrow> string option" where
  "parse_ip_text is_ip body =
     (let t = trim body
      in if is_ip t then Some t
         else find is_ip (map trim (filter_map (strip_prefix ''ip='') (str_lines t))))"

text \<open>\<open>probe_forward\<close>; the answer is the body, if one came within the timeout, and the elapsed milliseconds.\<close>

definition probe_forward :: "(string \<Rightarrow> bool) \<Rightarrow> int option \<Rightarrow> string option \<times> nat \<Rightarrow> ProxyProbe" where
  "probe_forward is_ip now = (\<lambda>(body, elapsed).
     case body of
       None \<Rightarrow> \<lparr>pb_latency_ms = Some elapsed, pb_egress_ip = None, pb_healthy = False, pb_last_probe_at = now\<rparr>
     | Some b \<Rightarrow> \<lparr>pb_latency_ms = Some elapsed, pb_egress_ip = parse_ip_text is_ip b, pb_healthy = True, pb_last_probe_at = now\<rparr>)"

definition probe_one :: "(string \<Rightarrow> bool) \<Rightarrow> int option \<Rightarrow> (string \<Rightarrow> string \<Rightarrow> string option \<times> nat) \<Rightarrow> (string \<Rightarrow> (string \<times> string) list \<Rightarrow> bool)
    \<Rightarrow> string \<Rightarrow> string \<Rightarrow> ProxyConfig \<Rightarrow> ProxyProbe" where
  "probe_one is_ip now get check_passes probe_url n p =
     (case px_kind p of
        PkDirect \<Rightarrow> \<lparr>pb_latency_ms = None, pb_egress_ip = None, pb_healthy = True, pb_last_probe_at = now\<rparr>
      | PkCommand check env \<Rightarrow> \<lparr>pb_latency_ms = None, pb_egress_ip = None, pb_healthy = check_passes check env, pb_last_probe_at = now\<rparr>
      | PkForward url _ \<Rightarrow> probe_forward is_ip now (get url (opt_default probe_url (px_healthcheck p))))"

section \<open>The environment of a job\<close>

definition after_scheme :: "string \<Rightarrow> string" where
  "after_scheme url = (case split_once_str ''://'' url of Some (_, rest) \<Rightarrow> rest | None \<Rightarrow> url)"

definition proxy_hostport :: "string \<Rightarrow> string" where
  "proxy_hostport url = (case rsplit_once (CHR ''@'') (after_scheme url) of Some (_, host) \<Rightarrow> host | None \<Rightarrow> after_scheme url)"

definition DEFAULT_WARP_EXPOSE :: string where "DEFAULT_WARP_EXPOSE = ''0.0.0.0:14000''"

definition is_socks_url :: "string \<Rightarrow> bool" where
  "is_socks_url url = (let lower = to_ascii_lowercase url in starts_with ''socks5h://'' lower \<or> starts_with ''socks5://'' lower)"

definition is_loopback_host :: "string \<Rightarrow> bool" where
  "is_loopback_host url =
     (let hostport = proxy_hostport url;
          host = trim_where (\<lambda>c. c \<in> {CHR ''['', CHR '']''}) (case rsplit_once (CHR '':'') hostport of Some (h, _) \<Rightarrow> h | None \<Rightarrow> hostport)
      in host \<in> {''127.0.0.1'', ''localhost'', ''0.0.0.0'', ''::1''})"

text \<open>\<open>lan\<close> is \<open>lan_ipv4\<close>.\<close>

definition http_connect_from_expose :: "string option \<Rightarrow> string \<Rightarrow> string \<Rightarrow> string" where
  "http_connect_from_expose lan expose auth =
     (let host = (case lan of
                    Some l \<Rightarrow> replace_str ''localhost'' l (replace_str ''0.0.0.0'' l (replace_str ''127.0.0.1'' l expose))
                  | None \<Rightarrow> expose)
      in if CHR '':'' \<in> set auth then ''http://'' @ auth @ ''@'' @ host else ''http://'' @ host)"

definition dispatch_proxy_env :: "string option \<Rightarrow> ProxyConfig option \<Rightarrow> Selection \<Rightarrow> (string \<times> string) list" where
  "dispatch_proxy_env lan proxy selection =
     (case selection of
        SelDirect \<Rightarrow> []
      | SelForward _ url env \<Rightarrow>
          (let auth = opt_default [] (Option.bind proxy px_expose_auth);
               remote = (case Option.bind proxy px_expose of
                           Some expose \<Rightarrow> http_connect_from_expose lan expose auth
                         | None \<Rightarrow> if is_socks_url url \<and> is_loopback_host url then http_connect_from_expose lan DEFAULT_WARP_EXPOSE auth else url)
           in map (\<lambda>k. (k, remote)) [''HTTP_PROXY'', ''HTTPS_PROXY'', ''ALL_PROXY'', ''http_proxy'', ''https_proxy'', ''all_proxy'']
              @ [(''RSYNC_PROXY'', proxy_hostport remote)] @ env))"

text \<open>\<open>var\<close> is the environment of the process.\<close>

definition proxy_env :: "(string \<rightharpoonup> string) \<Rightarrow> Selection \<Rightarrow> (string \<times> string) list" where
  "proxy_env var selection =
     (case selection of
        SelDirect \<Rightarrow> []
      | SelForward _ url env \<Rightarrow>
          map (\<lambda>k. (k, url)) [''HTTP_PROXY'', ''HTTPS_PROXY'', ''ALL_PROXY'']
          @ filter_map (\<lambda>k. map_option (\<lambda>v. (k, v)) (var k)) [''NO_PROXY'', ''no_proxy''] @ env)"

text \<open>\<open>resolve_proxy_env\<close> of the executor.\<close>

definition resolve_proxy_env :: "string option \<Rightarrow> 64 word \<Rightarrow> string option \<Rightarrow> NetRoute option \<Rightarrow> (string \<times> string) list \<times> NetRoute option" where
  "resolve_proxy_env lan seed job_proxy route =
     (case route of
        None \<Rightarrow> ([], None)
      | Some nr \<Rightarrow>
          (case select_job_proxy seed job_proxy nr of
             (sel, nr1) \<Rightarrow>
               (dispatch_proxy_env lan (case sel of SelForward n _ _ \<Rightarrow> nr_proxies nr n | SelDirect \<Rightarrow> None) sel, Some nr1)))"

fun family_text :: "Family \<Rightarrow> string" where
  "family_text FamilyAny = ''any''"
| "family_text FamilyV4 = ''ipv4''"
| "family_text FamilyV6 = ''ipv6''"

text \<open>The source address and the family of a run, as the executor fills in the provider's context.\<close>

definition run_route :: "64 word \<Rightarrow> string option \<Rightarrow> string \<Rightarrow> NetRoute option \<Rightarrow> (IpAddr option \<times> string) \<times> NetRoute option" where
  "run_route seed job_egress family route =
     (case route of
        None \<Rightarrow> ((None, family), None)
      | Some nr \<Rightarrow>
          (let (address, nr1) = select_egress seed job_egress nr; (egress, nr2) = select_egress seed job_egress nr1
           in ((address, family_text (select_family family egress)), Some nr2)))"

section \<open>Laws\<close>

lemma rotation_covers: "0 < n \<Longrightarrow> (\<lambda>i. (s + i) mod n) ` {0..<n} = {0..<(n::nat)}"
proof
  assume "0 < n"
  show "{0..<n} \<subseteq> (\<lambda>i. (s + i) mod n) ` {0..<n}"
  proof
    fix j assume j: "j \<in> {0..<n}"
    have "(s + (j + n - s mod n) mod n) mod n = j"
    proof -
      have "(s + (j + n - s mod n)) mod n = (s mod n + (j + n - s mod n)) mod n" by (simp add: mod_simps)
      also have "\<dots> = (j + n) mod n" using \<open>0 < n\<close> by (simp add: less_imp_le trans_le_add2)
      also have "\<dots> = j" using j by simp
      finally show ?thesis by (simp add: mod_simps)
    qed
    then show "j \<in> (\<lambda>i. (s + i) mod n) ` {0..<n}" using \<open>0 < n\<close> by (intro image_eqI [of _ _ "(j + n - s mod n) mod n"]) auto
  qed
qed auto

lemma find_from_Some:
  assumes "find_from h ms s = Some i"
  shows "i < length ms \<and> h (ms ! i)"
proof -
  from assms obtain j where "j < length ms" "i = (s + j) mod length ms" "h (ms ! i)"
    unfolding find_from_def by (auto simp: find_Some_iff simp del: upt_Suc)
  then show ?thesis by (cases ms) auto
qed

lemma find_from_None: "find_from h ms s = None \<longleftrightarrow> (\<forall>m \<in> set ms. \<not> h m)"
proof (cases "ms = []")
  case False
  then have "(\<lambda>i. (s + i) mod length ms) ` {0..<length ms} = {0..<length ms}" by (intro rotation_covers) simp
  then have "find_from h ms s = None \<longleftrightarrow> (\<forall>j \<in> {0..<length ms}. \<not> h (ms ! j))"
    unfolding find_from_def find_None_iff by (metis (no_types, lifting) imageE imageI list.set_map set_upt)
  then show ?thesis by (auto simp: all_set_conv_all_nth)
qed (simp add: find_from_def)

lemma find_from_healthy:
  assumes "ms \<noteq> []" and "\<forall>m \<in> set ms. h m"
  shows "find_from h ms s = Some (s mod length ms)"
proof -
  have "[0..<length ms] = 0 # [1..<length ms]" using assms(1) by (simp add: upt_conv_Cons)
  then show ?thesis using assms by (simp add: find_from_def)
qed

definition group_members :: "NetRoute \<Rightarrow> ProxyGroupConfig \<Rightarrow> string list" where
  "group_members nr g = filter (routable nr) (pg_proxies g)"

definition skips_unhealthy :: "string \<Rightarrow> bool" where
  "skips_unhealthy strategy \<longleftrightarrow> strategy \<in> {''failover'', ''round-robin'', ''random''}"

lemma routable_cursor [simp]: "routable (nr\<lparr>nr_rr := c\<rparr>) = routable nr" "route_healthy (nr\<lparr>nr_rr := c\<rparr>) = route_healthy nr"
  by (simp_all add: routable_def route_healthy_def fun_eq_iff)

section \<open>Properties\<close>

text \<open>The member that a group yields is one of its members, configured, and able to carry traffic; unless the strategy is a fixed one it
  is healthy as far as the probes tell. A group yields nothing only if it has no such member.\<close>

lemma pick_from_group_correct:
  shows "(\<forall>n. fst (pick_from_group seed g nr) = Some n \<longrightarrow>
            n \<in> set (pg_proxies g) \<and> routable nr n \<and> (skips_unhealthy (pg_strategy g) \<longrightarrow> route_healthy nr n))
    \<and> (fst (pick_from_group seed g nr) = None \<longleftrightarrow>
            (\<forall>n \<in> set (pg_proxies g). routable nr n \<longrightarrow> skips_unhealthy (pg_strategy g) \<and> \<not> route_healthy nr n))"
proof (cases "group_members nr g")
  case Nil
  then show ?thesis by (auto simp: pick_from_group_def group_members_def Let_def filter_empty_conv)
next
  case (Cons m ms)
  define members where "members = group_members nr g"
  then have mem: "members \<noteq> []" "set members = {n \<in> set (pg_proxies g). routable nr n}" unfolding members_def by (simp add: Cons, simp add: group_members_def)
  have some: "n \<in> set members \<and> route_healthy nr n" if "map_option ((!) members) (find_from (route_healthy nr) members s) = Some n" for s n
    using that find_from_Some by auto
  have none: "map_option ((!) members) (find_from (route_healthy nr) members s) = None \<longleftrightarrow> (\<forall>n \<in> set members. \<not> route_healthy nr n)" for s
    by (simp add: find_from_None)
  have fail: "find (route_healthy nr) members = Some n \<Longrightarrow> n \<in> set members \<and> route_healthy nr n"
    "find (route_healthy nr) members = None \<longleftrightarrow> (\<forall>n \<in> set members. \<not> route_healthy nr n)" for n
    by (auto simp: find_Some_iff find_None_iff)
  have pick: "fst (pick_from_group seed g nr) =
      (if pg_strategy g = ''failover'' then find (route_healthy nr) members
       else if skips_unhealthy (pg_strategy g)
       then map_option ((!) members) (find_from (route_healthy nr) members (unat (if pg_strategy g = ''random'' then lcg seed (nr_lcg nr) else nr_rr nr) mod length members))
       else Some (members ! 0))"
    using mem(1) by (auto simp: pick_from_group_def skips_unhealthy_def Let_def members_def group_members_def)
  have head: "members ! 0 \<in> set members" using mem(1) by simp
  show ?thesis
  proof (cases "skips_unhealthy (pg_strategy g)")
    case True
    then show ?thesis unfolding pick using some none fail mem(2) by auto
  next
    case False
    then have "pg_strategy g \<noteq> ''failover''" by (auto simp: skips_unhealthy_def)
    then show ?thesis unfolding pick using False head mem(2) by auto
  qed
qed

fun picks :: "64 word \<Rightarrow> ProxyGroupConfig \<Rightarrow> nat \<Rightarrow> NetRoute \<Rightarrow> string option list" where
  "picks seed g 0 nr = []"
| "picks seed g (Suc k) nr = (case pick_from_group seed g nr of (r, nr1) \<Rightarrow> r # picks seed g k nr1)"

lemma picks_round_robin:
  assumes "pg_strategy g = ''round-robin''" and "group_members nr g \<noteq> []" and "\<forall>n \<in> set (group_members nr g). route_healthy nr n" and "unat (nr_rr nr) + k \<le> 2 ^ 64"
  shows "picks seed g k nr = map (\<lambda>i. Some (group_members nr g ! ((unat (nr_rr nr) + i) mod length (group_members nr g)))) [0..<k]"
  using assms
proof (induction k arbitrary: nr)
  case (Suc k)
  let ?ms = "group_members nr g" and ?nr = "nr\<lparr>nr_rr := nr_rr nr + 1\<rparr>"
  have ms: "group_members ?nr g = ?ms" by (simp add: group_members_def)
  have one: "pick_from_group seed g nr = (Some (?ms ! (unat (nr_rr nr) mod length ?ms)), ?nr)"
    using Suc.prems by (simp add: pick_from_group_def Let_def find_from_healthy flip: group_members_def)
  show ?case
  proof (cases k)
    case 0
    then show ?thesis by (simp add: one)
  next
    case (Suc j)
    then have "unat (nr_rr nr + 1) = unat (nr_rr nr) + 1"
      using Suc.prems(4) by (simp add: unat_word_ariths)
    then have "picks seed g k ?nr = map (\<lambda>i. Some (?ms ! ((unat (nr_rr nr) + 1 + i) mod length ?ms))) [0..<k]"
      using Suc.IH [of ?nr] Suc.prems by (simp add: ms)
    also have "\<dots> = map (\<lambda>i. Some (?ms ! ((unat (nr_rr nr) + i) mod length ?ms))) (map Suc [0..<k])" by simp
    finally show ?thesis by (simp add: one upt_conv_Cons map_Suc_upt del: map_map upt_Suc)
  qed
qed simp

text \<open>Round robin is fair: as long as every member is healthy, as many picks as there are members yield each member once, in the
  order of the group from the cursor on.\<close>

lemma round_robin_fair:
  assumes "pg_strategy g = ''round-robin''" and "group_members nr g \<noteq> []" and "\<forall>n \<in> set (group_members nr g). route_healthy nr n"
    and "unat (nr_rr nr) + length (group_members nr g) \<le> 2 ^ 64"
  shows "picks seed g (length (group_members nr g)) nr = map Some (rotate (unat (nr_rr nr)) (group_members nr g))"
proof -
  let ?ms = "group_members nr g"
  have "map (\<lambda>i. ?ms ! ((unat (nr_rr nr) + i) mod length ?ms)) [0..<length ?ms] = rotate (unat (nr_rr nr)) ?ms"
    by (rule nth_equalityI) (auto simp: nth_rotate add.commute simp del: upt_Suc)
  then show "picks seed g (length ?ms) nr = map Some (rotate (unat (nr_rr nr)) ?ms)"
    unfolding picks_round_robin [OF assms] by (metis (no_types, lifting) list.map_comp comp_def map_eq_conv)
qed

text \<open>A worker never gets the manager's local SOCKS endpoint: no variable of the proxy settings, apart from those configured for the proxy, names a SOCKS
  proxy on a loopback address.\<close>

lemma dispatch_never_local_socks:
  assumes "(k, v) \<in> set (dispatch_proxy_env lan proxy (SelForward n url env))" and "(k, v) \<notin> set env" and "k \<noteq> ''RSYNC_PROXY''"
  shows "\<not> (is_socks_url v \<and> is_loopback_host v)"
proof -
  have "\<not> is_socks_url (http_connect_from_expose lan expose auth)" for expose auth
    by (auto simp: is_socks_url_def http_connect_from_expose_def Let_def starts_with_def to_ascii_lowercase_def to_lower_def)
  then show ?thesis using assms by (auto simp: dispatch_proxy_env_def Let_def split: option.splits if_splits)
qed

section \<open>A small configuration\<close>

definition demo_proxy :: "string \<Rightarrow> ProxyConfig" where
  "demo_proxy url = \<lparr>px_kind = PkForward url [], px_healthcheck = None, px_timeout = 10, px_expose = None, px_expose_auth = None\<rparr>"

definition demo_route :: NetRoute where
  "demo_route =
     (new_route (map_of [(''a'', demo_proxy ''http://a:1''), (''b'', demo_proxy ''socks5h://127.0.0.1:40000'')])
        (map_of [(''g'', \<lparr>pg_proxies = [''a'', ''x'', ''b''], pg_strategy = ''round-robin''\<rparr>)])
        [\<lparr>eg_name = ''four'', eg_address = IpV4 ''192.0.2.1'', eg_probe = None\<rparr>, \<lparr>eg_name = ''six'', eg_address = IpV6 ''2001:db8::1'', eg_probe = None\<rparr>]
        (map_of [(''e'', \<lparr>ga_addresses = [''four'', ''six''], ga_strategy = ''round-robin''\<rparr>)]) None 1)
     \<lparr>nr_probe_states := [''a'' \<mapsto> no_probe]\<rparr>"

definition demo_group :: ProxyGroupConfig where
  "demo_group = \<lparr>pg_proxies = [''a'', ''x'', ''b''], pg_strategy = ''round-robin''\<rparr>"

theorem pick_from_group_correct_witness:
  "fst (pick_from_group 7 demo_group demo_route) = Some ''b'' \<and> routable demo_route ''b'' \<and> route_healthy demo_route ''b''"
proof -
  have "fst (pick_from_group 7 demo_group demo_route) = Some ''b''" "pg_strategy demo_group = ''round-robin''" by code_simp+
  then show ?thesis using pick_from_group_correct [of 7 demo_group demo_route] by (auto simp: skips_unhealthy_def)
qed

lemma round_robin_fair_example:
  "picks 7 demo_group 2 (demo_route\<lparr>nr_probe_states := Map.empty, nr_rr := 1\<rparr>) = [Some ''b'', Some ''a'']"
proof -
  let ?nr = "demo_route\<lparr>nr_probe_states := Map.empty, nr_rr := 1\<rparr>"
  have m: "group_members ?nr demo_group = [''a'', ''b'']" and "pg_strategy demo_group = ''round-robin''" by code_simp+
  moreover have "route_healthy ?nr n" for n by (simp add: route_healthy_def)
  ultimately have "picks 7 demo_group (length (group_members ?nr demo_group)) ?nr = map Some (rotate (unat (nr_rr ?nr)) (group_members ?nr demo_group))"
    by (intro round_robin_fair) simp_all
  then show ?thesis unfolding m by (simp add: numeral_2_eq_2 del: picks.simps)
qed

lemma dispatch_never_local_socks_example:
  "\<not> (is_socks_url ''http://192.0.2.9:14000'' \<and> is_loopback_host ''http://192.0.2.9:14000'')"
proof -
  have "(''ALL_PROXY'', ''http://192.0.2.9:14000'') \<in> set (dispatch_proxy_env (Some ''192.0.2.9'') None (SelForward ''b'' ''socks5h://127.0.0.1:40000'' []))"
    by code_simp
  then show ?thesis by (rule dispatch_never_local_socks) simp_all
qed

text \<open>The executor asks for the egress twice, so that a rotating group gives a run an address and the family of another one.\<close>

lemma run_route_inconsistent:
  "fst (run_route 7 (Some ''e'') ''any'' (Some demo_route)) = (Some (IpV4 ''192.0.2.1''), ''ipv6'')"
  by code_simp

end
