(* ===== verification/Status_Pages.thy ===== *)
theory Status_Pages
  imports Manager Netroute
begin

text \<open>
  The read-only pages of the manager (\<open>manager/src/router.rs\<close>): the status of all jobs in the two public JSON shapes, the listings of workers and proxies, with the
  sizes and times that they print (\<open>synora-core/src/size.rs\<close>). A JSON object is a record of its members. The local time zone and the formatting of numbers are parameters.
\<close>

section \<open>Definitions\<close>

subsection \<open>Sizes and times\<close>

text \<open>Formatting: a fixed number of decimals, rounding, and \<open>|a - b| < 1e-9\<close>. A local time is \<open>None\<close> outside of the range of the calendar.\<close>

record show_lib =
  sh_ops :: float_ops
  sh_round :: "f64 \<Rightarrow> f64"
  sh_near :: "f64 \<Rightarrow> f64 \<Rightarrow> bool"
  sh_fixed :: "nat \<Rightarrow> f64 \<Rightarrow> string"
  sh_rfc3339 :: "int \<Rightarrow> string option"
  sh_tunasync :: "int \<Rightarrow> string option"

definition f64_ge :: "f64 \<Rightarrow> f64 \<Rightarrow> bool" where
  "f64_ge a b \<longleftrightarrow> a \<noteq> NaN \<and> b \<noteq> NaN \<and> \<not> f64_lt a b"

text \<open>The loop over the units: the value and the number of divisions, at most the second argument.\<close>

fun scale :: "float_ops \<Rightarrow> nat \<Rightarrow> f64 \<Rightarrow> nat \<Rightarrow> f64 \<times> nat" where
  "scale F 0 v unit' = (v, unit')"
| "scale F (Suc n) v unit' = (if f64_ge v (Fin 1024) then scale F n (fdiv F v (Fin 1024)) (unit' + 1) else (v, unit'))"

definition human_size :: "show_lib \<Rightarrow> nat \<Rightarrow> string" where
  "human_size S bytes =
     (let (v, u) = scale (sh_ops S) 4 (of_u64 (sh_ops S) bytes) 0 in
      if u = 0 then show_nat bytes @ '' B''
      else sh_fixed S 2 v @ '' '' @ [''B'', ''KiB'', ''MiB'', ''GiB'', ''TiB''] ! u)"

definition tunasync_size :: "show_lib \<Rightarrow> nat \<Rightarrow> string" where
  "tunasync_size S bytes =
     (let F = sh_ops S; (v, u) = scale F 4 (of_u64 F bytes) 0 in
      if u = 0 then show_nat bytes
      else let rounded = fdiv F (sh_round S (fmul F v (Fin 10))) (Fin 10)
           in sh_fixed S (if sh_near S rounded (sh_round S rounded) then 0 else 1) rounded @ [[], ''K'', ''M'', ''G'', ''T''] ! u)"

definition tunasync_time :: "show_lib \<Rightarrow> int \<Rightarrow> string" where
  "tunasync_time S ts = (if ts \<le> 0 then ''0001-01-01 00:00:00 +0000'' else opt_default ''0001-01-01 00:00:00 +0000'' (sh_tunasync S ts))"

definition fmt_local :: "show_lib \<Rightarrow> int \<Rightarrow> string" where
  "fmt_local S ts = opt_default ''-'' (sh_rfc3339 S ts)"

subsection \<open>The status of jobs\<close>

record status_entry =
  se_name :: string
  se_status :: string
  se_tunasync_status :: string
  se_worker :: "string option"
  se_upstream :: "string option"
  se_size_bytes :: "nat option"
  se_size_human :: "string option"
  se_last_started :: "int option"
  se_last_finished :: "int option"
  se_last_success :: "int option"
  se_last_started_human :: "string option"
  se_last_finished_human :: "string option"
  se_next_run :: "int option"
  se_next_run_human :: "string option"

definition status_entry_of :: "show_lib \<Rightarrow> manager \<Rightarrow> string \<times> JobStatus \<Rightarrow> status_entry" where
  "status_entry_of S m = (\<lambda>(n, status).
     let d = mdb m;
         job = engine_job (mg_engine m) n;
         stats = collected (map (\<lambda>s. (st_job_id s, s)) (latest_run_stats d)) n;
         next_run = Option.bind (map_option snd (find (\<lambda>(k, _). k = n) (all_schedules d))) sr_next_run;
         size' = map_option (\<lambda>s. nat (s mod 2 ^ 64))
           (coalesce (collected (list_repository_sizes d) (opt_default [] (map_option storage job))) (collected (latest_run_sizes d) n));
         last_success = Option.bind stats st_last_success;
         last_started = Option.bind stats st_last_start;
         last_finished = Option.bind stats st_last_end
     in \<lparr>se_name = n, se_status = as_str status,
         se_tunasync_status = tunasync_status (opt_default True (map_option enabled job)) status (Option.bind stats st_last_finished_status) (last_success \<noteq> None),
         se_worker = coalesce (case Option.bind job worker of None \<Rightarrow> None | Some w \<Rightarrow> if w = [] then None else Some w) (Option.bind stats st_last_worker),
         se_upstream = map_option strip_userinfo (Option.bind job upstream), se_size_bytes = size', se_size_human = map_option (human_size S) size',
         se_last_started = last_started, se_last_finished = last_finished, se_last_success = last_success,
         se_last_started_human = map_option (fmt_local S) last_started, se_last_finished_human = map_option (fmt_local S) last_finished,
         se_next_run = next_run, se_next_run_human = map_option (fmt_local S) next_run\<rparr>)"

definition status_entries :: "show_lib \<Rightarrow> manager \<Rightarrow> status_entry list" where
  "status_entries S m = map (status_entry_of S m) (job_status_list (mdb m))"

definition synora_json :: "show_lib \<Rightarrow> status_entry list handler" where
  "synora_json S = read_state (status_entries S)"

record tunasync_entry =
  te_name :: string
  te_is_master :: bool
  te_status :: string
  te_last_update :: string
  te_last_update_ts :: int
  te_last_started :: string
  te_last_started_ts :: int
  te_last_ended :: string
  te_last_ended_ts :: int
  te_next_schedule :: string
  te_next_schedule_ts :: int
  te_upstream :: "string option"
  te_size :: string

definition tunasync_entry_of :: "show_lib \<Rightarrow> status_entry \<Rightarrow> tunasync_entry" where
  "tunasync_entry_of S e =
     (let update = tunasync_ts (coalesce (se_last_success e) (se_last_finished e));
          started = tunasync_ts (se_last_started e);
          ended = tunasync_ts (se_last_finished e);
          next_ts = tunasync_ts (se_next_run e)
      in \<lparr>te_name = se_name e, te_is_master = True, te_status = se_tunasync_status e,
          te_last_update = tunasync_time S update, te_last_update_ts = update, te_last_started = tunasync_time S started, te_last_started_ts = started,
          te_last_ended = tunasync_time S ended, te_last_ended_ts = ended, te_next_schedule = tunasync_time S next_ts, te_next_schedule_ts = next_ts,
          te_upstream = se_upstream e, te_size = opt_default ''unknown'' (map_option (tunasync_size S) (se_size_bytes e))\<rparr>)"

definition tunasync_json :: "show_lib \<Rightarrow> tunasync_entry list handler" where
  "tunasync_json S = read_state (\<lambda>m. map (tunasync_entry_of S) (status_entries S m))"

text \<open>Which of the two pages are served, and where.\<close>

definition status_routes :: "ApiConfig \<Rightarrow> (string \<times> bool) list" where
  "status_routes api =
     (if api_synora_json_path api \<noteq> [] \<and> api_status_format api \<in> set [''synora'', ''both''] then [(api_synora_json_path api, True)] else [])
     @ (if api_tunasync_json_path api \<noteq> [] \<and> api_status_format api \<in> set [''tunasync'', ''both''] then [(api_tunasync_json_path api, False)] else [])"

subsection \<open>Workers and proxies\<close>

fun worker_status_text :: "WorkerStatus \<Rightarrow> string" where
  "worker_status_text ONLINE = ''ONLINE''"
| "worker_status_text OFFLINE = ''OFFLINE''"
| "worker_status_text DRAINING = ''DRAINING''"
| "worker_status_text MAINTENANCE = ''MAINTENANCE''"
| "worker_status_text STOPPING = ''STOPPING''"

text \<open>Of the capabilities of a worker the store keeps the member that the code reads.\<close>

record WorkerDTO =
  wd_id :: string
  wd_hostname :: string
  wd_address :: string
  wd_version :: string
  wd_labels :: "string list"
  wd_capabilities :: "nat option"
  wd_status :: string
  wd_jobs_running :: nat
  wd_last_heartbeat :: int

definition worker_dto :: "worker_rec \<Rightarrow> WorkerDTO" where
  "worker_dto w = \<lparr>wd_id = wk_id w, wd_hostname = wk_hostname w, wd_address = wk_address w, wd_version = wk_version w, wd_labels = wk_labels w,
     wd_capabilities = wk_max_concurrency w, wd_status = worker_status_text (wk_status w), wd_jobs_running = nat (wk_jobs_running w mod 2 ^ 32),
     wd_last_heartbeat = wk_last_heartbeat w\<rparr>"

definition list_workers_page :: "AuthUser \<Rightarrow> WorkerDTO list handler" where
  "list_workers_page auth = io_bind (require_perm auth ''workers.read'') (\<lambda>_. read_state (\<lambda>m. map worker_dto (list_workers (mdb m))))"

record proxy_entry =
  pe_name :: string
  pe_type :: string
  pe_expose :: "string option"
  pe_healthcheck :: "string option"
  pe_probe :: ProxyProbe

definition proxy_type :: "ProxyKind \<Rightarrow> string" where
  "proxy_type k = (case k of PkDirect \<Rightarrow> ''direct'' | PkForward url _ \<Rightarrow> if starts_with ''socks5h://'' url then ''socks5h'' else ''http'' | PkCommand _ _ \<Rightarrow> ''command'')"

text \<open>\<open>routed\<close> are the proxies of the current routes, \<open>configured\<close> those of the configuration at the start, each in the iteration order of its map.\<close>

definition list_proxies :: "(string \<times> ProxyConfig) list option \<Rightarrow> (string \<times> ProxyConfig) list \<Rightarrow> (string \<rightharpoonup> ProxyProbe) \<Rightarrow> AuthUser \<Rightarrow> proxy_entry list handler" where
  "list_proxies routed configured probes auth =
     io_bind (require_perm auth ''workers.read'') (\<lambda>_.
       let current = opt_default [] routed; cfgs = (if current = [] then configured else current)
       in io_ret (map (\<lambda>(n, p). \<lparr>pe_name = n, pe_type = proxy_type (px_kind p), pe_expose = px_expose p, pe_healthcheck = px_healthcheck p,
                                 pe_probe = opt_default no_probe (probes n)\<rparr>) cfgs))"

text \<open>The proxy environment that an assignment carries; \<open>lan\<close> is the address of the manager.\<close>

definition proxy_env_for :: "string option \<Rightarrow> 64 word \<Rightarrow> NetRoute option \<Rightarrow> JobSpec \<Rightarrow> (string \<times> string) list \<times> NetRoute option" where
  "proxy_env_for lan seed route job =
     (case route of
        None \<Rightarrow> ([], None)
      | Some nr \<Rightarrow>
          (let (sel, nr') = select_job_proxy seed (proxy job) nr;
               cfg = (case sel of SelForward n _ _ \<Rightarrow> nr_proxies nr' n | SelDirect \<Rightarrow> None)
           in (dispatch_proxy_env lan cfg sel, Some nr')))"

section \<open>Laws\<close>

text \<open>The size loop ends at a unit that exists.\<close>

lemma scale_unit: "snd (scale F n v u) \<le> u + n"
proof (induction F n v u rule: scale.induct)
  case (2 F n v u)
  then show ?case by (auto simp: add_Suc_shift [symmetric])
qed simp

lemma scale_units_exist: "snd (scale F 4 v 0) < length [''B'', ''KiB'', ''MiB'', ''GiB'', ''TiB'']"
  using scale_unit [of F 4 v 0] by simp

text \<open>The pages only read: no state changes, and both list every job of the database, in its order.\<close>

lemma status_pages_inert:
  "snd (synora_json S m) = m \<and> snd (tunasync_json S m) = m \<and> snd (list_workers_page auth m) = m \<and> snd (list_proxies r c p auth m) = m"
  by (simp add: synora_json_def tunasync_json_def list_workers_page_def list_proxies_def read_state_def io_bind_def require_perm_def io_lift_def io_ret_def Let_def
      split: sum.split)

lemma status_pages_names: "map se_name (status_entries S m) = map fst (job_status_list (mdb m))"
  by (simp add: status_entries_def status_entry_of_def Let_def case_prod_beta comp_def)

text \<open>Credentials of an upstream are not shown: what stands between the scheme and an at sign is cut off if it has a colon.\<close>

lemma strip_userinfo_hides:
  assumes "CHR '':'' \<notin> set scheme" and "CHR ''@'' \<notin> set info" and "CHR '':'' \<in> set info"
  shows "strip_userinfo (scheme @ ''://'' @ info @ ''@'' @ host) = scheme @ ''://'' @ host"
proof -
  have "find_str ''://'' (scheme @ ''://'' @ (info @ ''@'' @ host)) = Some (length scheme)"
    by (rule find_str_first [OF refl assms(1)])
  moreover have "split_once (CHR ''@'') (info @ CHR ''@'' # host) = Some (info, host)" using assms(2) by (induction info) auto
  ultimately show ?thesis using assms(3) by (simp add: strip_userinfo_def)
qed

text \<open>A user name without a password stays.\<close>

lemma strip_userinfo_keeps_user: "strip_userinfo ''rsync://user@host/p'' = ''rsync://user@host/p''"
  by code_simp

text \<open>
  The time of the last update is true: it is the end of a successful run of that job, or, if the job has no success, the end of one of its runs, or the value for
  "never".
\<close>

lemma latest_by_SomeD: "latest_by k p job d = Some r \<Longrightarrow> r \<in> set (t_runs d) \<and> r_job_id r = job \<and> p r"
  using set_sort [of "\<lambda>r. - k r" "filter (\<lambda>r. r_job_id r = job \<and> p r) (t_runs d)"]
  by (cases "sort_key (\<lambda>r. - k r) (filter (\<lambda>r. r_job_id r = job \<and> p r) (t_runs d))") (auto simp: latest_by_def head_opt_def)

lemma job_run_stats_times:
  assumes "job_run_stats job d = Some s"
  shows "st_job_id s = job"
    "st_last_success s = Some t \<Longrightarrow> \<exists>r \<in> set (t_runs d). r_job_id r = job \<and> is_success (r_status r) \<and> r_finished_at r = Some t"
    "st_last_end s = Some t \<Longrightarrow> \<exists>r \<in> set (t_runs d). r_job_id r = job \<and> r_finished_at r = Some t"
proof -
  define fin where "fin = latest_by end_or_creation (\<lambda>r. r_finished_at r \<noteq> None) job d"
  define succ where "succ = latest_by (\<lambda>r. opt_default 0 (r_finished_at r)) (\<lambda>r. is_success (r_status r) \<and> r_finished_at r \<noteq> None) job d"
  have s: "st_job_id s = job \<and> st_last_success s = Option.bind succ r_finished_at \<and> st_last_end s = Option.bind fin r_finished_at"
    using assms unfolding job_run_stats_def fin_def [symmetric] succ_def [symmetric] by (auto simp: Let_def split: if_splits)
  then show "st_job_id s = job" by simp
  show "\<exists>r \<in> set (t_runs d). r_job_id r = job \<and> is_success (r_status r) \<and> r_finished_at r = Some t" if "st_last_success s = Some t"
    using that s latest_by_SomeD [OF succ_def [symmetric, THEN trans]] by (auto simp: bind_eq_Some_conv)
  show "\<exists>r \<in> set (t_runs d). r_job_id r = job \<and> r_finished_at r = Some t" if "st_last_end s = Some t"
    using that s latest_by_SomeD [OF fin_def [symmetric, THEN trans]] by (auto simp: bind_eq_Some_conv)
qed

lemma collected_stats:
  assumes "collected (map (\<lambda>s. (st_job_id s, s)) (latest_run_stats d)) n = Some s"
  shows "job_run_stats n d = Some s"
proof -
  have "(n, s) \<in> (\<lambda>s. (st_job_id s, s)) ` set (latest_run_stats d)" using map_of_SomeD [OF assms [unfolded collected_def]] by simp
  then obtain job where job: "job_run_stats job d = Some s" "n = st_job_id s" by (auto simp: latest_run_stats_def set_filter_map)
  with job_run_stats_times(1) [OF job(1)] show ?thesis by simp
qed

lemma last_update_true:
  assumes "e \<in> set (status_entries S m)" and "te_last_update_ts (tunasync_entry_of S e) = t" and "t \<noteq> TUNASYNC_ZERO_TS"
  shows "\<exists>r \<in> set (t_runs (mdb m)). r_job_id r = te_name (tunasync_entry_of S e) \<and> r_finished_at r = Some t \<and> (se_last_success e \<noteq> None \<longrightarrow> is_success (r_status r))"
proof -
  from assms(1) obtain n status where e: "e = status_entry_of S m (n, status)" by (auto simp: status_entries_def)
  let ?stats = "collected (map (\<lambda>s. (st_job_id s, s)) (latest_run_stats (mdb m))) n"
  have fields: "te_name (tunasync_entry_of S e) = n" "se_last_success e = Option.bind ?stats st_last_success" "se_last_finished e = Option.bind ?stats st_last_end"
    by (simp_all add: e status_entry_of_def tunasync_entry_of_def Let_def)
  have shown: "coalesce (se_last_success e) (se_last_finished e) = Some t"
    using assms(2,3) by (auto simp: tunasync_entry_of_def tunasync_ts_def Let_def split: option.splits if_splits)
  then obtain s where s: "?stats = Some s" by (cases ?stats) (auto simp: fields)
  note run = collected_stats [OF s]
  show ?thesis
  proof (cases "st_last_success s")
    case None
    with shown s have "st_last_end s = Some t" by (simp add: fields)
    with job_run_stats_times(3) [OF run this] None s show ?thesis by (auto simp: fields)
  next
    case (Some t')
    with shown s have "st_last_success s = Some t" by (simp add: fields)
    with job_run_stats_times(2) [OF run this] show ?thesis by (auto simp: fields)
  qed
qed

end
