(* ===== verification/Manager_Laws.thy ===== *)
theory Manager_Laws
  imports Reaper Timed_Protocol Status_Pages
begin

text \<open>
  The manager as a whole. \<open>handle\<close> is the authenticated router of \<open>build\<close>; a step of the manager is a
  request or an iteration of the reaper. The refinement says that every step is a sequence of the
  statements of \<open>Run_Protocol\<close>, with no identifiers but those drawn meanwhile, so that all that is proved there
  (invariants, fencing, finality) holds of the handlers.

  The contract \<open>io_preorder\<close> is interpreted on the refinement and on equality of the state.
\<close>

section \<open>Relations that handlers keep\<close>

interpretation frozen: io_preorder "(=)"
  by unfold_locales auto

lemma reads_frozen: "io_keeps (=) (check p c)" "io_keeps (=) (read_state f)" "io_keeps (=) (require_perm auth perm)"
  "io_keeps (=) (or_code o' c)"
  by (simp_all add: io_keeps_def check_def read_state_def require_perm_def io_lift_def or_code_def io_err_def io_ret_def
      split: option.split)

section \<open>Refinement of statements\<close>

definition refines :: "int \<times> string set \<Rightarrow> string set \<Rightarrow> db \<Rightarrow> db \<Rightarrow> bool" where
  "refines N T d d' \<longleftrightarrow> (constraints d \<longrightarrow> treaches N T d d')"

interpretation refine: stmt_preorder "refines N T" for N T
proof unfold_locales
  fix a b c assume "refines N T a b" and "refines N T b c"
  then show "refines N T a c" unfolding refines_def by (meson timed.reach_valid rtranclp_trans)
qed (simp add: refines_def)

lemma step_refines: "(\<And>d. timed_step N T d (snd (m d))) \<Longrightarrow> preserves (refines N T) m"
  by (auto simp: preserves_def refines_def)

lemma other_refines: "preserves stays_valid m \<Longrightarrow> preserves same_runs m \<Longrightarrow> preserves (refines N T) m"
  by (auto simp: preserves_def refines_def stays_valid_def same_runs_def intro: timed_step.other)

lemma job_status_runs_alone [inv_intros]: "preserves same_runs (set_job_status job s)" "preserves same_runs (set_job_status_for_run i)"
  by (simp_all add: preserves_def same_runs_def set_job_status_runs set_job_status_for_run_def seq_def update_jobs_def commit_def ret_def)

lemma status_refines: "preserves (refines N T) (set_job_status job s)" "preserves (refines N T) (set_job_status_for_run i)"
  by (intro other_refines inv_intros)+

lemma stmts_refine:
  "preserves (refines (now, K) T) (renew_stmt i w t now)" "preserves (refines (now, K) T) (expire_stmt i now)"
  "i \<in> snd N \<Longrightarrow> s \<in> {Success, SuccessWithWarnings, Failed, Cancelled, Lost} \<Longrightarrow> preserves (refines N T) (finish_active_stmt i a s c fence now)"
  "i \<in> snd N \<Longrightarrow> preserves (refines N T) (retry_active_stmt i a next_at n fence now)" "preserves (refines N T) (set_cancelling_by_job job)"
  "preserves (refines N T) (drop_superseded_runs now)" "preserves (refines N T) (assign_stmt i w)"
  "preserves (refines N T) (cancel_waiting_stmt job now)" "preserves (refines N T) unassign_stmt" "preserves (refines N T) (set_run_resources i mem cpu)"
  "preserves (refines N T) (del_runs job)"
  by (rule step_refines; (rule timed_at timed_step.intros(1,5-18))?; assumption?)+

lemma id_stmts_refine:
  "t \<in> T \<Longrightarrow> preserves (refines (now, K) T) (claim_stmt i w t now)"
  "n \<in> T \<Longrightarrow> preserves (refines N T) (lost_requeue_stmt i n w' now)"
  "i \<in> T \<Longrightarrow> s \<in> {Queued, Skipped} \<Longrightarrow> preserves (refines N T) (create_run_stmt i job w' s prio now)"
  by (rule step_refines; (rule timed_at timed_step.intros(1,5-18))?; assumption?)+

lemma ops_refine:
  "preserves (refines (now, K) T) (renew_run_lease i w t now)" "preserves (refines (now, K) T) (expire_run i now)"
  "i \<in> snd N \<Longrightarrow> s \<in> {Success, SuccessWithWarnings, Failed, Cancelled, Lost} \<Longrightarrow> preserves (refines N T) (finish_active_run_fenced i a s c fence now)"
  "i \<in> snd N \<Longrightarrow> preserves (refines N T) (set_retry_from_active_fenced i a next_at n fence now)" "preserves (refines N T) (assign_queued_run i w)"
  "n' \<in> T \<Longrightarrow> preserves (refines N T) (create_lost_requeue i n' job w' now)"
  "i \<in> T \<Longrightarrow> s' \<in> {Queued, Skipped} \<Longrightarrow> preserves (refines N T) (create_run i job w' s' prio now)"
  unfolding renew_run_lease_def expire_run_def finish_active_run_fenced_def set_retry_from_active_fenced_def
    assign_queued_run_def create_lost_requeue_def create_run_def
  by (intro refine.keeps stmts_refine id_stmts_refine status_refines; assumption)+

lemma claim_run_refines: "t \<in> T \<Longrightarrow> preserves (refines (now, K) T) (claim_run i w t now)"
proof (rule preservesI)
  fix d assume "t \<in> T"
  then have one: "refines (now, K) T d (snd (claim_stmt i w t now d))" using id_stmts_refine(1) by (simp add: preserves_def)
  have two: "refines (now, K) T d1 (snd (seq (case o' of None \<Rightarrow> ret () | Some r \<Rightarrow> set_job_status (r_job_id r) Syncing) (\<lambda>_. ret True) d1))" for d1 o'
  proof -
    have "preserves (refines (now, K) T) (seq (case o' of None \<Rightarrow> ret () | Some r \<Rightarrow> set_job_status (r_job_id r) Syncing) (\<lambda>_. ret True))"
      by (intro refine.keeps status_refines)
    then show ?thesis by (simp add: preserves_def)
  qed
  obtain res d1 where s: "claim_stmt i w t now d = (res, d1)" by (cases "claim_stmt i w t now d")
  have "snd (claim_run i w t now d) = d1 \<or> snd (claim_run i w t now d)
      = snd (seq (case find_run d1 i of None \<Rightarrow> ret () | Some r \<Rightarrow> set_job_status (r_job_id r) Syncing) (\<lambda>_. ret True) d1)"
    using s by (auto simp: claim_run_def split: sum.split DbError.split)
  moreover have "refines (now, K) T d d1" using one s by simp
  ultimately show "refines (now, K) T d (snd (claim_run i w t now d))"
    using refine.rel_trans [OF \<open>refines (now, K) T d d1\<close> two] by (elim disjE) (simp_all only:)
qed

lemma commit_runs_alone: "(\<And>d. t_runs (g d) = t_runs d) \<Longrightarrow> preserves same_runs (\<lambda>d. commit (x d) (g d) d)"
  by (rule runs_alone.commit_keeps) (simp add: same_runs_def)

lemma commit_other: "(\<And>d. t_runs (g d) = t_runs d) \<Longrightarrow> preserves (refines N T) (\<lambda>d. commit (x d) (g d) d)"
  by (intro other_refines commit_valid commit_runs_alone)

lemma tables_refine:
  "preserves (refines N T) (update_workers p f)" "preserves (refines N T) (update_jobs q g)"
  "preserves (refines N T) (upsert_worker i hn ad v ls tn now)" "preserves (refines N T) (set_repository_size path z now)"
  "preserves (refines N T) (insert_log_with i job lp content now)" "preserves (refines N T) (insert_event ev ej er lv em now)"
  "preserves (refines N T) (del_logs job)" "preserves (refines N T) (del_events job)" "preserves (refines N T) (del_history job)"
  "preserves (refines N T) (del_schedules job)" "preserves (refines N T) (del_jobs job)" "preserves (refines N T) (del_repository path)"
  "preserves (refines N T) (sync_job job' now)" "preserves (refines N T) (sync_schedule job sched tz mf next_run anchor now)"
  "preserves (refines N T) (insert_history now job before after)"
  unfolding update_workers_def [abs_def] update_jobs_def [abs_def] upsert_worker_def [abs_def] set_repository_size_def [abs_def]
    insert_log_with_def [abs_def] insert_event_def [abs_def] del_logs_def [abs_def] del_events_def [abs_def] del_history_def [abs_def]
    del_schedules_def [abs_def] del_jobs_def [abs_def] del_repository_def [abs_def] sync_job_def [abs_def] sync_schedule_def [abs_def]
    insert_history_def [abs_def]
  by (rule commit_other; simp)+

lemma log_fenced_refines: "preserves (refines N T) (insert_log_fenced i w t job content now)"
proof (rule preservesI)
  fix d
  show "refines N T d (snd (insert_log_fenced i w t job content now d))"
  proof (cases "find (lease_held i w t now) (t_runs d)")
    case None
    then show ?thesis by (simp add: insert_log_fenced_def refine.rel_refl)
  next
    case (Some r)
    have "preserves (refines N T) (\<lambda>d. commit () (d\<lparr>t_logs := upsert (\<lambda>l. lg_run_id l = i)
        (\<lambda>l. if r_job_id r = job then l\<lparr>lg_content := content\<rparr> else l)
        \<lparr>lg_run_id = i, lg_job_id = r_job_id r, lg_log_path = [], lg_created_at = now, lg_content = content\<rparr> (t_logs d)\<rparr>) d)"
      by (rule commit_other) simp
    with Some show ?thesis by (simp add: insert_log_fenced_def preserves_def)
  qed
qed

lemma worker_ops_refine:
  "preserves (refines N T) (touch_heartbeat i n now)" "preserves (refines N T) (set_worker_status i ws)"
  "preserves (refines N T) (begin_worker_shutdown i)" "preserves (refines N T) (unregister_worker i)"
  "preserves (refines N T) (reconcile_worker_run_counts scope now)" "preserves (refines N T) (set_capabilities_stmt i cap)"
  "preserves (refines N T) (offline_stmt now)" "preserves (refines N T) reconcile_stale_job_status"
  unfolding touch_heartbeat_def set_worker_status_def begin_worker_shutdown_def unregister_worker_def
    reconcile_worker_run_counts_def set_capabilities_stmt_def offline_stmt_def reconcile_stale_job_status_def
  by (intro refine.keeps tables_refine)+

lemma purge_job_refines: "preserves (refines N T) (purge_job job)"
  unfolding purge_job_def by (intro refine.keeps tables_refine stmts_refine)

lemma renew_all_refines: "preserves (refines (now, K) T) (renew_all w now ls)"
  by (induction ls) (auto intro!: refine.keeps ops_refine)

lemmas refine_ops = ops_refine claim_run_refines tables_refine log_fenced_refines worker_ops_refine purge_job_refines
  renew_all_refines stmts_refine

section \<open>Refinement of the engine's steps\<close>

definition drawn :: "'tz engine_env \<Rightarrow> engine \<Rightarrow> engine \<Rightarrow> string set" where
  "drawn E a b = run_id E ` {en_ids a ..< en_ids b}"

definition eng_steps :: "(string set \<Rightarrow> db \<Rightarrow> db \<Rightarrow> bool) \<Rightarrow> 'tz engine_env \<Rightarrow> engine \<Rightarrow> engine \<Rightarrow> bool" where
  "eng_steps S E a b \<longleftrightarrow> en_ids a \<le> en_ids b
     \<and> (constraints (en_db a) \<and> ids_fresh E a \<longrightarrow> (S (drawn E a b))\<^sup>*\<^sup>* (en_db a) (en_db b))"

abbreviation eng_refines :: "int \<times> string set \<Rightarrow> 'tz engine_env \<Rightarrow> engine \<Rightarrow> engine \<Rightarrow> bool" where
  "eng_refines N \<equiv> eng_steps (timed_step N)"

context id_steps
begin

lemma steps_refl: "eng_steps S E e e"
  by (simp add: eng_steps_def)

lemma steps_fresh:
  assumes "eng_steps S E a b" and "constraints (en_db a)" and "ids_fresh E a"
  shows "constraints (en_db b) \<and> ids_fresh E b"
proof -
  have r: "(S (drawn E a b))\<^sup>*\<^sup>* (en_db a) (en_db b)" using assms by (simp add: eng_steps_def)
  have "find_run (en_db b) (run_id E n) = None" if "en_ids b \<le> n" for n
  proof -
    have "run_id E n \<notin> drawn E a b" using assms(3) that by (auto simp: drawn_def ids_fresh_def dest!: injD)
    moreover have "find_run (en_db a) (run_id E n) = None" using assms that by (auto simp: eng_steps_def ids_fresh_def)
    ultimately show ?thesis by (rule reach_gone [OF r assms(2)])
  qed
  with reach_valid [OF r assms(2)] assms(3) show ?thesis by (simp add: ids_fresh_def)
qed

lemma steps_trans: "eng_steps S E a b \<Longrightarrow> eng_steps S E b c \<Longrightarrow> eng_steps S E a c"
proof -
  assume ab: "eng_steps S E a b" and bc: "eng_steps S E b c"
  have "(S (drawn E a c))\<^sup>*\<^sup>* (en_db a) (en_db c)" if "constraints (en_db a)" "ids_fresh E a"
  proof -
    have "(S (drawn E a c))\<^sup>*\<^sup>* (en_db a) (en_db b)"
      using ab bc that by (auto simp: eng_steps_def drawn_def elim!: reach_mono)
    moreover have "(S (drawn E a c))\<^sup>*\<^sup>* (en_db b) (en_db c)"
      using ab bc steps_fresh [OF ab that] by (auto simp: eng_steps_def drawn_def elim!: reach_mono)
    ultimately show ?thesis by (rule rtranclp_trans)
  qed
  with ab bc show ?thesis by (auto simp: eng_steps_def)
qed

end

lemmas eng_refines_fresh = timed.steps_fresh
lemmas eng_refines_trans = timed.steps_trans

lemma eng_refines_same: "en_db b = en_db a \<Longrightarrow> en_ids b = en_ids a \<Longrightarrow> eng_refines N E a b"
  by (simp add: eng_steps_def)

lemma eng_refines_stmt: "(\<And>T. preserves (refines N T) m) \<Longrightarrow> eng_refines N E e (snd (on_db m e))"
  by (auto simp: eng_steps_def on_db_def preserves_def refines_def split: prod.split) (metis snd_conv)

lemma eng_refines_ignored: "(\<And>T. preserves (refines N T) m) \<Longrightarrow> eng_refines N E e (on_db_ignored m e)"
  unfolding on_db_ignored_def by (rule eng_refines_stmt)

lemma eng_refines_draw: "eng_refines N E e (e\<lparr>en_ids := Suc (en_ids e)\<rparr>)"
  by (simp add: eng_steps_def)

lemma eng_refines_with_id:
  assumes "\<And>T. run_id E (en_ids e) \<in> T \<Longrightarrow> preserves (refines N T) m"
  shows "eng_refines N E e (e\<lparr>en_ids := Suc (en_ids e), en_db := snd (m (en_db e))\<rparr>)"
  using assms [of "{run_id E (en_ids e)}"] by (auto simp: eng_steps_def drawn_def preserves_def refines_def atLeastLessThanSuc)

interpretation eng: io_preorder "eng_refines N E" for N E
  by unfold_locales (auto intro: eng_refines_same eng_refines_trans)

text \<open>Without the clock, steps at different times compose.\<close>

lemma eng_refines_plain: "eng_refines N E a b \<Longrightarrow> eng_steps mgr_step E a b"
  using rtranclp_mono [of "timed_step N T" "mgr_step T" for T] timed_mgr
  unfolding eng_steps_def by (metis predicate2D predicate2I)

section \<open>Refinement of dispatch and removal\<close>

lemma eng_draw: "eng_refines N E e (snd (draw_id E e))"
  by (simp add: draw_id_def eng_refines_draw)

lemma on_db_alt: "on_db m e = (fst (m (en_db e)), e\<lparr>en_db := snd (m (en_db e))\<rparr>)"
  by (simp add: on_db_def split: prod.split)

lemma eng_metrics: "eng_refines N E e (on_metrics f e)"
  by (rule eng_refines_same) (simp_all add: on_metrics_def)

lemma eng_event: "eng_refines N E e (on_db_ignored (insert_event ev j i lv tx now) (snd (draw_id E e)))"
  by (rule eng_refines_trans [OF eng_draw]) (intro eng_refines_ignored tables_refine)

text \<open>Finishing the run that was just created as skipped.\<close>

lemma settle_skipped_refines:
  assumes "constraints d" and "find_run d i = None" and "i \<in> T"
  shows "treaches N T d (snd (finish_run i Skipped c now (snd (create_run i job w' Skipped prio now d))))"
proof -
  obtain res d1 where cr: "create_run i job w' Skipped prio now d = (res, d1)" by (cases "create_run i job w' Skipped prio now d")
  have one: "treaches N T d d1" using ops_refine(7) [OF assms(3), of Skipped N] assms(1) cr by (auto simp: preserves_def refines_def) (metis snd_conv)
  have c1: "constraints d1" using one assms(1) by (rule timed.reach_valid)
  have "t_runs d1 = t_runs d \<or> (\<exists>g. t_runs d1 = t_runs d @ [created i job w' Skipped prio now g])"
    using create_run_effect [OF cr assms(1)] by auto
  then have row: "find_run d1 i = None \<or> (\<exists>r. find_run d1 i = Some r \<and> r_status r = Skipped)"
  proof
    assume "\<exists>g. t_runs d1 = t_runs d @ [created i job w' Skipped prio now g]"
    then obtain g where g: "t_runs d1 = t_runs d @ [created i job w' Skipped prio now g]" ..
    then have "find_run d1 i = Some (created i job w' Skipped prio now g)"
      by (subst find_run_iff [OF c1]) simp
    then show ?thesis by simp
  qed (use assms(2) find_run_cong in metis)
  have fin: "timed_step N T d1 (snd (finish_stmt i Skipped c now d1))"
    using row
  proof
    assume "find_run d1 i = None"
    then have "snd (finish_stmt i Skipped c now d1) = d1"
      using update_runs_idle [OF c1, of "\<lambda>_ r. r_id r = i"] by (simp add: finish_stmt_def find_run_None)
    then show ?thesis using timed_step.other [OF c1] by simp
  qed (auto intro: timed_step.settle_skipped)
  have "refines N T (snd (finish_stmt i Skipped c now d1)) (snd (finish_run i Skipped c now d1))"
    using status_refines(2) [of N T i] timed.steps_valid [OF fin c1]
    by (auto simp: finish_run_def seq_def preserves_def refine.rel_refl split: prod.split sum.split)
  then have "treaches N T (snd (finish_stmt i Skipped c now d1)) (snd (finish_run i Skipped c now d1))"
    using timed.steps_valid [OF fin c1] by (simp add: refines_def)
  with one fin cr show ?thesis by (auto intro: rtranclp_trans converse_rtranclp_into_rtranclp)
qed

lemma eng_skip_run: "eng_refines N E e (snd (skip_run E job dep now e))"
proof -
  let ?i = "run_id E (en_ids e)" and ?e1 = "e\<lparr>en_ids := Suc (en_ids e)\<rparr>"
  let ?d = "snd (finish_run ?i Skipped (no_outcome (Some (''dependency `'' @ dep @ ''` has not succeeded''))) now
    (snd (create_run ?i job None Skipped 0 now (en_db e))))"
  let ?e3 = "e\<lparr>en_ids := Suc (en_ids e), en_db := ?d\<rparr>"
  have "treaches N {?i} (en_db e) ?d" if "constraints (en_db e)" "ids_fresh E e"
    using settle_skipped_refines [OF that(1), of ?i "{?i}" N] that(2) by (simp add: ids_fresh_def)
  then have "eng_refines N E e ?e3" by (simp add: eng_steps_def drawn_def atLeastLessThanSuc)
  moreover have "eng_refines N E ?e3 (on_db_ignored (insert_event ev (Some job) (Some ?i) ''WARN'' tx now) (snd (draw_id E ?e3)))" for ev tx
    by (rule eng_event)
  ultimately have all: "eng_refines N E e (on_db_ignored (insert_event ev (Some job) (Some ?i) ''WARN'' tx now) (snd (draw_id E ?e3)))" for ev tx
    by (blast intro: eng_refines_trans)
  have "snd (skip_run E job dep now e) = on_db_ignored (insert_event (run_id E (Suc (en_ids e))) (Some job) (Some ?i) ''WARN''
      (''skipped: dependency `'' @ dep @ ''` has not succeeded'') now) (snd (draw_id E ?e3))"
    by (simp add: skip_run_def Let_def draw_id_def on_db_ignored_def on_db_alt)
  with all show ?thesis by (simp only:)
qed

lemma eng_queue_run: "eng_refines N E e (snd (queue_run E job forced now e))"
proof (cases "inflight_runs_of_job (name job) (en_db e)")
  case Nil
  let ?m = "create_run (run_id E (en_ids e)) (name job) (planned_worker E job) Queued (if forced then 1 else 0) now"
  let ?e2 = "e\<lparr>en_ids := Suc (en_ids e), en_db := snd (?m (en_db e))\<rparr>"
  have two: "eng_refines N E e ?e2" by (rule eng_refines_with_id) (rule ops_refine(7), assumption, simp)
  have "eng_refines N E ?e2 (on_db_ignored (insert_event ev (Some (name job)) (Some i) ''INFO'' tx now) (snd (draw_id E ?e2)))" for ev i tx
    by (rule eng_event)
  with two have "eng_refines N E e (on_db_ignored (insert_event ev (Some (name job)) (Some i) ''INFO'' tx now) (snd (draw_id E ?e2)))" for ev i tx
    by (blast intro: eng_refines_trans)
  moreover have "snd (queue_run E job forced now e) \<in> {?e2, on_db_ignored (insert_event (run_id E (Suc (en_ids e)))
      (Some (name job)) (Some (run_id E (en_ids e))) ''INFO'' ''run queued'' now) (snd (draw_id E ?e2))}"
    using Nil by (simp add: queue_run_def Let_def draw_id_def on_db_alt split: sum.split)
  ultimately show ?thesis using two by (elim insertE) (simp_all only: empty_iff)
qed (simp add: queue_run_def eng_refines_same)

lemma eng_dispatch: "eng_refines N E e (snd (dispatch_current E n f now e))"
  by (auto simp: dispatch_current_def eng_refines_same eng_skip_run eng_queue_run split: option.split)

lemma eng_forget: "eng_refines N E e (snd (forget_job_current n e))"
proof (cases "job_name_ok n")
  case True
  let ?e1 = "snd (stop_job n e)"
  let ?e2 = "on_db_ignored (set_cancelling_by_job n) ?e1"
  let ?e3 = "?e2\<lparr>live_jobs := filter (\<lambda>j. name j \<noteq> n) (live_jobs ?e2), failure_streak := (failure_streak ?e2)(n := None),
    en_active := (en_active ?e2)(n := None), run_tokens := (run_tokens ?e2)(n := None)\<rparr>"
  have "eng_refines N E e ?e1" by (rule eng_refines_same) (simp_all add: stop_job_def split: option.split)
  moreover have "eng_refines N E ?e1 ?e2" by (intro eng_refines_ignored refine_ops)
  moreover have "eng_refines N E ?e2 ?e3" by (rule eng_refines_same) simp_all
  moreover have "eng_refines N E ?e3 (snd (on_db (purge_job n) ?e3))" by (intro eng_refines_stmt refine_ops)
  ultimately have four: "eng_refines N E e (snd (on_db (purge_job n) ?e3))" by (meson eng_refines_trans)
  obtain r e4 where p: "on_db (purge_job n) ?e3 = (r, e4)" by fastforce
  have "eng_refines N E e e4" using four unfolding p snd_conv .
  with eng_metrics have "eng_refines N E e (on_metrics (remove_job n) e4)" by (rule eng_refines_trans [rotated])
  with \<open>eng_refines N E e e4\<close> p True show ?thesis
    by (cases r) (simp_all add: forget_job_current_def Let_def)
qed (simp add: forget_job_current_def eng_refines_same)

section \<open>Refinement of a reload\<close>

lemma eng_sync_schedule: "eng_refines N E e (snd (sync_schedule_for E job now im e))"
proof -
  let ?e1 = "snd (draw_id E e)"
  let ?e2 = "snd (on_db (set_generation_stmt (name job) (fst (draw_id E e))) ?e1)"
  have "eng_refines N E ?e1 ?e2" unfolding set_generation_stmt_def by (intro eng_refines_stmt tables_refine)
  then have two: "eng_refines N E e ?e2" by (rule eng_refines_trans [OF eng_draw])
  have three: "eng_refines N E e (snd (on_db (sync_schedule n sched tz mf nxt anchor now) ?e2))" for n sched tz mf nxt anchor
    by (rule eng_refines_trans [OF two]) (intro eng_refines_stmt tables_refine)
  have four: "eng_refines N E e (next_run_gauge E n x (snd (on_db (sync_schedule n sched tz mf nxt anchor now) ?e2)))" for n x sched tz mf nxt anchor
    unfolding next_run_gauge_def by (rule eng_refines_trans [OF three eng_metrics])
  show ?thesis using two three four
    by (auto simp: sync_schedule_for_def Let_def case_prod_beta split: sum.split option.split)
qed

lemma eng_sync_one: "eng_refines N E e (snd (sync_one E now im job e))"
proof -
  obtain r e1 where s: "on_db (sync_job job now) e = (r, e1)" by fastforce
  have "eng_refines N E e (snd (on_db (sync_job job now) e))" by (intro eng_refines_stmt tables_refine)
  then have one: "eng_refines N E e e1" unfolding s snd_conv .
  show ?thesis using one eng_refines_trans [OF one eng_sync_schedule] s by (cases r) (simp_all add: sync_one_def)
qed

lemma eng_apply_changed: "eng_refines N E e (snd (apply_changed E now job e))"
proof -
  obtain r e1 where s: "on_db (cancel_waiting_stmt (name job) now) e = (r, e1)" by fastforce
  have "eng_refines N E e (snd (on_db (cancel_waiting_stmt (name job) now) e))" by (intro eng_refines_stmt stmts_refine)
  then have one: "eng_refines N E e e1" unfolding s snd_conv .
  show ?thesis using one eng_refines_trans [OF one eng_sync_one] s by (cases r) (simp_all add: apply_changed_def eng.io_refl)
qed

lemma eng_try_each: "(\<And>x e. eng_refines N E e (snd (f x e))) \<Longrightarrow> eng_refines N E e (snd (try_each f xs e))"
proof (induction xs arbitrary: e)
  case (Cons x xs)
  obtain r e1 where f: "f x e = (r, e1)" by fastforce
  have one: "eng_refines N E e e1" using Cons.prems [of e x] f by simp
  show ?case using one eng_refines_trans [OF one Cons.IH [OF Cons.prems]] f by (cases r) simp_all
qed (simp add: eng.io_refl)

lemma history_refines: "preserves (refines N T) (for_each (\<lambda>(n, b, a). ignore (insert_history now n b a)) audit)"
  by (induction audit) (auto intro!: refine.keeps tables_refine split: prod.split)

lemma eng_reload: "eng_refines N E e (snd (reload E old loaded now e))"
proof (cases "\<exists>new. loaded = Some (Some new) \<and> reload_rejects old new = None")
  case True
  then obtain new where new: "loaded = Some (Some new)" "reload_rejects old new = None" by blast
  let ?changed = "filter (\<lambda>j. engine_job e (name j) \<noteq> Some j) (rc_jobs new)"
  let ?removed = "filter (\<lambda>n. \<not> (\<exists>j \<in> set (rc_jobs new). name j = n)) (map name (live_jobs e))"
  obtain r1 e1 where s1: "try_each (apply_changed E now) ?changed e = (r1, e1)" by fastforce
  obtain r2 e2 where s2: "try_each forget_job_current ?removed e1 = (r2, e2)" by fastforce
  have "eng_refines N E e (snd (try_each (apply_changed E now) ?changed e))" by (intro eng_try_each eng_apply_changed)
  then have one: "eng_refines N E e e1" unfolding s1 snd_conv .
  have "eng_refines N E e1 (snd (try_each forget_job_current ?removed e1))" by (intro eng_try_each eng_forget)
  then have "eng_refines N E e1 e2" unfolding s2 snd_conv .
  with one have two: "eng_refines N E e e2" by (rule eng_refines_trans)
  obtain audit jobs' where sw: "swap_jobs ?changed (live_jobs e2) = (audit, jobs')" by fastforce
  let ?e3 = "e2\<lparr>live_jobs := jobs'\<rparr>"
  let ?e4 = "on_db_ignored (for_each (\<lambda>(n, b, a). ignore (insert_history now n b a)) audit) ?e3"
  have "eng_refines N E e ?e3" by (rule eng_refines_trans [OF two]) (simp add: eng_refines_same)
  moreover have "eng_refines N E ?e3 ?e4" by (intro eng_refines_ignored history_refines)
  ultimately have four: "eng_refines N E e ?e4" by (rule eng_refines_trans)
  have five: "eng_refines N E e (on_db_ignored (insert_event ev None None ''INFO'' tx now) (snd (draw_id E ?e4)))" for ev tx
    by (rule eng_refines_trans [OF four eng_event])
  show ?thesis
  proof (cases r1)
    case (Inl x)
    then show ?thesis using one by (simp add: reload_def new s1)
  next
    case (Inr u)
    then show ?thesis using two five
      by (cases r2) (simp_all only: reload_def new s1 s2 sw Let_def option.case sum.case prod.case case_prod_beta fst_conv snd_conv)
  qed
next
  case False
  then have "snd (reload E old loaded now e) = e" by (auto simp: reload_def split: option.split)
  then show ?thesis by (simp add: eng.io_refl)
qed

section \<open>Refinement of the handlers\<close>

definition mgr_refines :: "int \<times> string set \<Rightarrow> 'tz mgr_env \<Rightarrow> manager \<Rightarrow> manager \<Rightarrow> bool" where
  "mgr_refines N M a b \<longleftrightarrow> eng_refines N (m_engine M) (mg_engine a) (mg_engine b)"

interpretation mgr: io_preorder "mgr_refines N M" for N M
  by unfold_locales (auto simp: mgr_refines_def intro: eng_refines_same eng_refines_trans)

lemma read_steps:
  "io_keeps (mgr_refines N M) (check p c)" "io_keeps (mgr_refines N M) (read_state f)" "io_keeps (mgr_refines N M) (require_perm auth perm)"
  "io_keeps (mgr_refines N M) (or_code o' c)" "io_keeps (mgr_refines N M) (refresh_picker M0)"
  by (simp_all add: io_keeps_def check_def read_state_def require_perm_def io_lift_def or_code_def io_err_def io_ret_def
      refresh_picker_def refresh_def mgr_refines_def eng_refines_same split: option.split)

lemma run_stmt_step:
  assumes "\<And>T. preserves (refines N T) s"
  shows "io_keeps (mgr_refines N M) (run_stmt c s)"
  unfolding io_keeps_def
proof
  fix m :: manager
  have "mg_engine (snd (run_stmt c s m)) = snd (on_db s (mg_engine m))" by (simp add: run_stmt_def on_db_alt split: sum.split)
  then show "mgr_refines N M m (snd (run_stmt c s m))" using eng_refines_stmt [OF assms] by (simp add: mgr_refines_def)
qed

lemma on_engine_step: "(\<And>e. eng_refines N (m_engine M) e (f e)) \<Longrightarrow> io_keeps (mgr_refines N M) (on_engine f)"
  by (simp add: io_keeps_def on_engine_def mgr_refines_def)

lemma engine_answer_step:
  assumes "\<And>m. eng_refines N (m_engine M) (mg_engine m) (snd (f m))"
  shows "io_keeps (mgr_refines N M) (\<lambda>m. case f m of (r, e) \<Rightarrow> (g r, m\<lparr>mg_engine := e\<rparr>))"
  using assms by (simp add: io_keeps_def mgr_refines_def split: prod.split) (metis snd_conv)

lemma fresh_then_step:
  assumes "\<And>t T. t \<in> T \<Longrightarrow> preserves (refines N T) (s t)"
  shows "eng_refines N E e (snd (on_db (s (fst (draw_id E e))) (snd (draw_id E e))))"
  using eng_refines_with_id [where m = "s (run_id E (en_ids e))" and E = E and e = e and N = N] assms by (simp add: draw_id_def on_db_alt)

lemma fresh_stmt_step:
  assumes "\<And>t T. t \<in> T \<Longrightarrow> preserves (refines N T) (s t)" and "\<And>t x. io_keeps (mgr_refines N M) (k t x)"
  shows "io_keeps (mgr_refines N M) (io_bind (fresh_id M) (\<lambda>t. io_bind (run_stmt c (s t)) (k t)))"
  unfolding io_keeps_def
proof
  fix m :: manager
  obtain t e where d: "draw_id (m_engine M) (mg_engine m) = (t, e)" by fastforce
  obtain r e1 where s: "on_db (s t) e = (r, e1)" by fastforce
  have one: "mgr_refines N M m (m\<lparr>mg_engine := e1\<rparr>)"
    using fresh_then_step [where s = s and E = "m_engine M" and e = "mg_engine m" and N = N] assms(1) by (simp add: mgr_refines_def d s)
  have "mgr_refines N M (m\<lparr>mg_engine := e1\<rparr>) (snd (k t x (m\<lparr>mg_engine := e1\<rparr>)))" for x using assms(2) by (simp add: io_keeps_def)
  with one have "mgr_refines N M m (snd (k t x (m\<lparr>mg_engine := e1\<rparr>)))" for x by (rule mgr.io_trans)
  with one d s show "mgr_refines N M m (snd (io_bind (fresh_id M) (\<lambda>t. io_bind (run_stmt c (s t)) (k t)) m))"
    by (cases r) (simp_all add: io_bind_def fresh_id_def run_stmt_def)
qed

lemma eng_refresh_worker_metrics: "eng_refines N E e (refresh_worker_metrics M scope now e)"
proof -
  obtain r e1 where s: "on_db (reconcile_worker_run_counts scope now) e = (r, e1)" by fastforce
  have "eng_refines N E e e1" using eng_refines_stmt [OF worker_ops_refine(5), of N E e scope now] by (simp add: s)
  then show ?thesis using s eng_refines_trans [OF _ eng_metrics, where N = N] by (cases r) (auto simp: refresh_worker_metrics_def)
qed

lemma eng_cases:
  "eng_refines N E e a \<Longrightarrow> eng_refines N E e b \<Longrightarrow> eng_refines N E e (if c then a else b)"
  "eng_refines N E e a \<Longrightarrow> (\<And>x. eng_refines N E e (f x)) \<Longrightarrow> eng_refines N E e (case o' of None \<Rightarrow> a | Some x \<Rightarrow> f x)"
  by (simp_all split: option.split)

lemma eng_live_log: "eng_refines N E e (live_log w leases valid now s e)"
  unfolding live_log_def by (intro eng_cases eng.io_refl eng_refines_ignored log_fenced_refines)

lemma eng_persist_size: "eng_refines N E e (persist_repository_size M job z now e)"
  unfolding persist_repository_size_def
  by (rule eng_refines_trans [OF eng.fold_steps eng_metrics]) (intro eng_refines_ignored refine_ops)

lemma eng_completion_tail: "eng_refines N E e (completion_tail M i job label body status duration now e)"
proof -
  let ?e1 = "case cq_log body of Some l \<Rightarrow> if l = [] then e
      else on_db_ignored (insert_log_with i (name job) (''/var/log/synora/'' @ name job @ ''/current.log'') l now) e | None \<Rightarrow> e"
  let ?e2 = "if cq_memory_bytes body \<noteq> None \<or> cq_cpu_seconds body \<noteq> None
      then on_db_ignored (set_run_resources i (cq_memory_bytes body) (cq_cpu_seconds body)) ?e1 else ?e1"
  have one: "eng_refines N E e ?e1"
    by (intro eng_cases eng.io_refl eng_refines_ignored tables_refine)
  have two: "eng_refines N E ?e1 ?e2" by (intro eng_cases eng.io_refl eng_refines_ignored stmts_refine)
  show ?thesis unfolding completion_tail_def Let_def
    by (rule eng_refines_trans [OF eng_refines_trans [OF one two] eng_refines_trans [OF eng_metrics eng_refresh_worker_metrics]])
qed

lemmas handler_steps = read_steps run_stmt_step on_engine_step eng_refresh_worker_metrics eng_persist_size eng_completion_tail eng_metrics

lemma register_refines: "io_keeps (mgr_refines N M) (register M auth body now)"
  unfolding register_def Let_def by (intro mgr.io handler_steps eng_refines_ignored tables_refine worker_ops_refine)

lemma heartbeat_refines: "io_keeps (mgr_refines (now, K) M) (heartbeat M auth w body now)"
  unfolding heartbeat_def by (intro mgr.io handler_steps eng.fold_steps eng_live_log renew_all_refines worker_ops_refine)

lemma claim_refines: "io_keeps (mgr_refines (now, K) M) (claim M auth i params now)"
  unfolding claim_def Let_def by (intro mgr.if_io mgr.err_io fresh_stmt_step claim_run_refines mgr.io handler_steps; assumption?)

lemma apply_lost_refines:
  assumes "i \<in> snd N"
  shows "io_keeps (mgr_refines N M) (apply_lost M i run job body duration now)"
proof -
  have requeue: "io_keeps (mgr_refines N M) (io_bind (fresh_id M) (\<lambda>new_id m.
      case on_db (create_lost_requeue i new_id (name job) w now) (mg_engine m) of
        (Inr (Some _), e) \<Rightarrow> (Ok (True, Queued), m\<lparr>mg_engine := e\<rparr>) | (_, e) \<Rightarrow> (Ok (True, Lost), m\<lparr>mg_engine := e\<rparr>)))" for w
    unfolding io_keeps_def
  proof
    fix m :: manager
    show "mgr_refines N M m (snd (io_bind (fresh_id M) (\<lambda>new_id m.
      case on_db (create_lost_requeue i new_id (name job) w now) (mg_engine m) of
        (Inr (Some _), e) \<Rightarrow> (Ok (True, Queued), m\<lparr>mg_engine := e\<rparr>) | (_, e) \<Rightarrow> (Ok (True, Lost), m\<lparr>mg_engine := e\<rparr>)) m))"
      using fresh_then_step [where s = "\<lambda>n. create_lost_requeue i n (name job) w now" and E = "m_engine M" and e = "mg_engine m" and N = N, OF ops_refine(6)]
      by (auto simp: io_bind_def fresh_id_def mgr_refines_def on_db_alt split: prod.split sum.split option.split)
  qed
  show ?thesis unfolding apply_lost_def by (intro requeue mgr.io handler_steps ops_refine assms) simp_all
qed

lemma apply_completion_refines:
  assumes "i \<in> snd N"
  shows "io_keeps (mgr_refines N M) (apply_completion M i run job label body duration now)"
proof -
  have "io_keeps (mgr_refines N M) (apply_cancelled i run job body duration now)"
    unfolding apply_cancelled_def by (intro mgr.io handler_steps ops_refine assms) simp_all
  moreover have "io_keeps (mgr_refines N M) (apply_success M i run job label body duration now)"
    unfolding apply_success_def Let_def
    by (intro mgr.io handler_steps ops_refine assms)
       (auto simp: remote_success_def eng_refines_same split: option.split intro: eng_persist_size)
  moreover have "io_keeps (mgr_refines N M) (apply_failed M i run job body duration now)"
    unfolding apply_failed_def
    by (cases "retry_of (fops (m_engine M)) job ProviderError (rr_retry_count run)")
       (simp_all, (intro mgr.io handler_steps ops_refine assms; simp add: eng_metrics eng_refines_same)+)
  ultimately show ?thesis
    unfolding apply_completion_def Let_def by (intro mgr.io apply_lost_refines assms) simp_all
qed

lemma complete_refines:
  assumes "i \<in> snd N"
  shows "io_keeps (mgr_refines N M) (complete M auth i body now)"
  unfolding complete_def Let_def by (intro mgr.io handler_steps apply_completion_refines assms)

lemma leaving_refines:
  "io_keeps (mgr_refines N M) (drain M auth w)" "io_keeps (mgr_refines N M) (worker_shutdown M auth w)" "io_keeps (mgr_refines N M) (unregister M auth w)"
  unfolding drain_def worker_shutdown_def unregister_def by (intro mgr.io handler_steps worker_ops_refine)+

lemma operator_refines:
  "io_keeps (mgr_refines N M) (delete_job auth n rb)" "io_keeps (mgr_refines N M) (trigger_run M auth n now)" "io_keeps (mgr_refines N M) (stop_run auth n)"
  "io_keeps (mgr_refines N M) (reload_config M auth old loaded now)"
proof -
  have forget: "io_keeps (mgr_refines N M) (\<lambda>m. case forget_job_current n (mg_engine m) of
      (Inl _, e) \<Rightarrow> (Err INTERNAL_SERVER_ERROR, m\<lparr>mg_engine := e\<rparr>) | (Inr _, e) \<Rightarrow> (Ok (), m\<lparr>mg_engine := e\<rparr>))"
    unfolding io_keeps_def
  proof
    fix m :: manager
    show "mgr_refines N M m (snd (case forget_job_current n (mg_engine m) of
      (Inl _, e) \<Rightarrow> (Err INTERNAL_SERVER_ERROR, m\<lparr>mg_engine := e\<rparr>) | (Inr _, e) \<Rightarrow> (Ok (), m\<lparr>mg_engine := e\<rparr>)))"
      using eng_forget [of N "m_engine M" "mg_engine m" n] by (auto simp: mgr_refines_def split: prod.split sum.split)
  qed
  have planner: "eng_refines N (E\<lparr>planner := p\<rparr>) a b \<longleftrightarrow> eng_refines N E a b" for E :: "'a engine_env" and p a b
    by (simp add: eng_steps_def drawn_def ids_fresh_def)
  have trigger: "io_keeps (mgr_refines N M) (\<lambda>m.
      case dispatch_current ((m_engine M)\<lparr>planner := Some (pick (mg_picker m))\<rparr>) n True now (mg_engine m) of
        (Inl _, e) \<Rightarrow> (Err NOT_FOUND, m\<lparr>mg_engine := e\<rparr>) | (Inr i, e) \<Rightarrow> (Ok i, m\<lparr>mg_engine := e\<rparr>))"
    unfolding io_keeps_def
  proof
    fix m :: manager
    show "mgr_refines N M m (snd (case dispatch_current ((m_engine M)\<lparr>planner := Some (pick (mg_picker m))\<rparr>) n True now (mg_engine m) of
        (Inl _, e) \<Rightarrow> (Err NOT_FOUND, m\<lparr>mg_engine := e\<rparr>) | (Inr i, e) \<Rightarrow> (Ok i, m\<lparr>mg_engine := e\<rparr>)))"
      using eng_dispatch [of N "(m_engine M)\<lparr>planner := Some (pick (mg_picker m))\<rparr>" "mg_engine m" n True now, unfolded planner]
      by (auto simp: mgr_refines_def split: prod.split sum.split)
  qed
  have stop: "io_keeps (mgr_refines N M) (on_engine (\<lambda>e. snd (stop_job n e)))"
    "io_keeps (mgr_refines N M) (io_bind (run_stmt INTERNAL_SERVER_ERROR (set_cancelling_by_job n)) (\<lambda>_. io_ret ()))"
    by (intro on_engine_step eng_refines_same; simp add: stop_job_def split: option.split)
       (intro mgr.io handler_steps stmts_refine)
  then have stop_or: "io_keeps (mgr_refines N M) (\<lambda>m. if p m then on_engine (\<lambda>e. snd (stop_job n e)) m
      else io_bind (run_stmt INTERNAL_SERVER_ERROR (set_cancelling_by_job n)) (\<lambda>_. io_ret ()) m)" for p
    by (simp add: io_keeps_def)
  show "io_keeps (mgr_refines N M) (reload_config M auth old loaded now)" unfolding reload_config_def
    by (intro mgr.io handler_steps) (use eng_reload [of N "m_engine M"] in \<open>auto simp: io_keeps_def mgr_refines_def split: prod.split sum.split\<close>, (metis snd_conv)+)
  show "io_keeps (mgr_refines N M) (delete_job auth n rb)" unfolding delete_job_def by (intro mgr.io handler_steps forget)
  show "io_keeps (mgr_refines N M) (trigger_run M auth n now)" unfolding trigger_run_def by (intro mgr.io handler_steps trigger)
  show "io_keeps (mgr_refines N M) (stop_run auth n)" unfolding stop_run_def by (intro mgr.io handler_steps stop_or)
qed

lemma reads_are_frozen:
  "io_keeps (=) (list_jobs M auth)" "io_keeps (=) (job_spec auth n)" "io_keeps (=) (history auth n)"
  "io_keeps (=) (job_logs fs dir auth n params)" "io_keeps (=) (metrics_page fmt b tokens header)"
  "io_keeps (=) (list_workers_page auth)" "io_keeps (=) (list_proxies routed configured probes auth)"
  unfolding list_workers_page_def list_proxies_def list_jobs_def job_spec_def history_def job_logs_def metrics_page_def Let_def
  by (intro frozen.io reads_frozen)+

lemma frozen_refines: "io_keeps (=) h \<Longrightarrow> io_keeps (mgr_refines N M) h"
  by (auto simp: io_keeps_def intro: mgr.io_refl)

section \<open>The router\<close>

text \<open>
  The routes behind \<open>require_auth\<close>; \<open>retire\<close> is served by the handler of \<open>drain\<close>. What a handler reads outside
  of the modelled state is an argument of its request: the outcome of editing the configuration file
  (\<open>DeleteJob\<close>), the proxies and their probes (\<open>ListProxies\<close>), the configuration of the start and the outcome
  of loading it anew (\<open>Reload\<close>).
\<close>

datatype api_request =
    Register RegisterRequest | Heartbeat string HeartbeatRequest | Drain string | Shutdown string | Unregister string
  | Claim string "string \<rightharpoonup> string" | Complete string CompleteRequest
  | ListJobs | RunJob string | StopJob string | JobHistory string | Spec string | Logs string "string \<rightharpoonup> string"
  | DeleteJob string "(string + unit) option" | ListWorkers
  | ListProxies "(string \<times> ProxyConfig) list option" "(string \<times> ProxyConfig) list" "string \<rightharpoonup> ProxyProbe"
  | Reload ResolvedConfig "ResolvedConfig option option"

text \<open>A request behind \<open>require_auth\<close>; the body of the answer is dropped.\<close>

definition quiet :: "'a handler \<Rightarrow> unit handler" where
  "quiet h = io_bind h (\<lambda>_. io_ret ())"

definition authed :: "'tz mgr_env \<Rightarrow> log_fs \<Rightarrow> string \<Rightarrow> AuthUser \<Rightarrow> api_request \<Rightarrow> int \<Rightarrow> unit handler" where
  "authed M fs log_dir user req now =
     (case req of
        Register body \<Rightarrow> quiet (register M user body now)
      | Heartbeat w body \<Rightarrow> quiet (heartbeat M user w body now)
      | Drain w \<Rightarrow> drain M user w
      | Shutdown w \<Rightarrow> worker_shutdown M user w
      | Unregister w \<Rightarrow> unregister M user w
      | Claim i params \<Rightarrow> quiet (claim M user i params now)
      | Complete i body \<Rightarrow> complete M user i body now
      | ListJobs \<Rightarrow> quiet (list_jobs M user)
      | RunJob n \<Rightarrow> quiet (trigger_run M user n now)
      | StopJob n \<Rightarrow> stop_run user n
      | JobHistory n \<Rightarrow> quiet (history user n)
      | Spec n \<Rightarrow> quiet (job_spec user n)
      | Logs n params \<Rightarrow> quiet (job_logs fs log_dir user n params)
      | DeleteJob n rb \<Rightarrow> delete_job user n rb
      | ListWorkers \<Rightarrow> quiet (list_workers_page user)
      | ListProxies routed configured probes \<Rightarrow> quiet (list_proxies routed configured probes user)
      | Reload old loaded \<Rightarrow> quiet (reload_config M user old loaded now))"

definition handle :: "'tz mgr_env \<Rightarrow> log_fs \<Rightarrow> string \<Rightarrow> ApiToken list \<Rightarrow> string option \<Rightarrow> api_request \<Rightarrow> int \<Rightarrow> unit handler" where
  "handle M fs log_dir tokens header req now =
     io_bind (io_lift (authenticate tokens header)) (\<lambda>user. authed M fs log_dir user req now)"

text \<open>The run that a request completes.\<close>

definition completes :: "api_request \<Rightarrow> string set" where
  "completes req = (case req of Complete i _ \<Rightarrow> {i} | _ \<Rightarrow> {})"

lemma handle_refines: "completes req \<subseteq> K \<Longrightarrow> io_keeps (mgr_refines (now, K) M) (handle M fs log_dir tokens header req now)"
  unfolding handle_def authed_def quiet_def
  by (cases req)
     (simp_all add: completes_def, (intro mgr.io register_refines heartbeat_refines leaving_refines claim_refines complete_refines [where N = "(now, K)", unfolded snd_conv] operator_refines
        reads_are_frozen [THEN frozen_refines]; assumption?)+)

section \<open>The reaper\<close>

lemma reap_one_refines: "mgr_refines (now, K) M m (reap_one M now run m)"
proof -
  obtain r e where x: "on_db (expire_run (rr_id run) now) (mg_engine m) = (r, e)" by fastforce
  let ?E = "m_engine M" and ?N = "(now, K)"
  let ?e1 = "on_metrics (inc_counter (fops ?E) ''synora_job_lost_total'' [(''job'', rr_job_id run)] (Fin 1)) e"
  have e: "eng_refines ?N ?E (mg_engine m) e" using eng_refines_stmt [of ?N "expire_run (rr_id run) now" ?E "mg_engine m", OF ops_refine(2)] by (simp add: x)
  have e1: "eng_refines ?N ?E (mg_engine m) ?e1" using e eng_metrics by (rule eng_refines_trans)
  have "eng_refines ?N ?E (mg_engine m) (snd (on_db (create_lost_requeue (rr_id run) (fst (draw_id ?E ?e1)) (rr_job_id run) w now) (snd (draw_id ?E ?e1))))" for w
    using e1 fresh_then_step [where s = "\<lambda>n. create_lost_requeue (rr_id run) n (rr_job_id run) w now" and E = ?E and e = ?e1 and N = ?N, OF ops_refine(6)] by (rule eng_refines_trans)
  with e e1 x show ?thesis
    by (auto simp: reap_one_def mgr_refines_def Let_def on_db_ignored_def split: sum.split bool.split option.split prod.split)
qed

lemma redispatch_one_refines: "mgr_refines N M m (redispatch_one run m)"
  using eng_refines_ignored [OF ops_refine(5), where E = "m_engine M" and e = "mg_engine m" and N = N]
  by (auto simp: redispatch_one_def mgr_refines_def eng.io_refl split: option.split)

lemma reaper_refines: "mgr_refines (now, K) M m (reaper_tick M now m)"
proof -
  have db: "mgr_refines (now, K) M a (a\<lparr>mg_engine := on_db_ignored s (mg_engine a)\<rparr>)" if "\<And>T. preserves (refines (now, K) T) s" for a and s :: "nat stmt"
    using eng_refines_ignored [OF that] by (simp add: mgr_refines_def)
  have metrics: "mgr_refines (now, K) M a (a\<lparr>mg_engine := export_gauges M (mg_engine a)\<rparr>)" for a
    unfolding mgr_refines_def export_gauges_def Let_def by (simp add: eng_refines_same on_metrics_def)
  have counts: "mgr_refines (now, K) M a (a\<lparr>mg_engine := refresh_worker_metrics M None now (mg_engine a)\<rparr>)" for a
    using eng_refresh_worker_metrics by (simp add: mgr_refines_def)
  have reap: "mgr_refines (now, K) M a (reap M now a)" for a
    unfolding reap_def by (rule mgr.fold_steps) (rule reap_one_refines)
  have last: "mgr_refines (now, K) M a (redispatch (refresh M a))" for a
    unfolding redispatch_def
    by (rule mgr.io_trans [OF _ mgr.fold_steps]) (simp_all add: refresh_def mgr_refines_def eng.io_refl redispatch_one_refines [unfolded mgr_refines_def])
  show ?thesis unfolding reaper_tick_def Let_def
    by (rule mgr.io_trans [OF mgr.io_trans [OF mgr.io_trans [OF mgr.io_trans [OF mgr.io_trans [OF mgr.io_trans [OF
          mgr.io_trans [OF db [OF stmts_refine(6)] db [OF worker_ops_refine(8)]] reap] db [OF worker_ops_refine(7)]]
          db [OF stmts_refine(9)]] metrics] counts] last])
qed

end
