(* ===== verification/Manager_Props.thy ===== *)
theory Manager_Props
  imports Manager_Laws
begin

text \<open>
  What the handlers do to runs: a completion touches its own run and only for the holder of its lease,
  a claim is exclusive, a heartbeat renews exactly the leases it names, the picker respects
  capacity, and requests without authority change nothing.
\<close>

section \<open>Operations that spare the other runs\<close>

text \<open>Every run but \<open>i\<close> keeps its row; new runs may appear.\<close>

definition spares :: "string \<Rightarrow> db \<Rightarrow> db \<Rightarrow> bool" where
  "spares i d d' \<longleftrightarrow> (\<forall>j q. j \<noteq> i \<longrightarrow> find_run d j = Some q \<longrightarrow> find_run d' j = Some q)"

interpretation spare: stmt_preorder "spares i" for i
  by unfold_locales (auto simp: spares_def)

lemma spares_same: "preserves same_runs m \<Longrightarrow> preserves (spares i) m"
  by (simp add: preserves_def same_runs_def spares_def find_run_def)

lemma spares_update:
  assumes "\<And>r. r_id (f r) = r_id r" and "\<And>d r. p d r \<Longrightarrow> r_id r = i"
  shows "preserves (spares i) (update_runs p f)"
proof (rule preservesI)
  fix d
  have "find_run (d\<lparr>t_runs := update_where (p d) f (t_runs d)\<rparr>) j = find_run (d\<lparr>t_runs := t_runs d\<rparr>) j" if "j \<noteq> i" for j
    by (rule find_run_update_other [of f "p d" i]) (use assms that in auto)
  then show "spares i d (snd (update_runs p f d))" by (simp add: spares_def update_runs_def commit_def)
qed

lemma spares_insert: "preserves (spares i) (insert_run r)"
proof (rule preservesI)
  fix d
  have "find p (xs @ ys) = Some q" if "find p xs = Some q" for p and xs ys :: "run_rec list" and q
    using that by (induction xs) (auto split: if_splits)
  then show "spares i d (snd (insert_run r d))" by (simp add: spares_def insert_run_def commit_def find_run_def)
qed

lemma spares_requeue: "preserves (spares i) (lost_requeue_stmt j n w now)"
proof (rule preservesI)
  fix d
  show "spares i d (snd (lost_requeue_stmt j n w now d))"
    using spares_insert by (auto simp: lost_requeue_stmt_def preserves_def spare.rel_refl split: option.split)
qed

lemmas spares_status = job_status_runs_alone [THEN spares_same]

lemma tables_runs_alone:
  "preserves same_runs (update_workers p f)" "preserves same_runs (set_repository_size path z now)"
  "preserves same_runs (insert_log_with j job lp content now)"
  unfolding update_workers_def [abs_def] set_repository_size_def [abs_def] insert_log_with_def [abs_def]
  by (rule commit_runs_alone; simp)+

lemma spares_ops:
  "preserves (spares i) (finish_active_run_fenced i a s c fence now)"
  "preserves (spares i) (set_retry_from_active_fenced i a next_at n fence now)"
  "preserves (spares i) (create_lost_requeue j n' job w now)"
  "preserves (spares i) (set_run_resources i mem cpu)"
  "preserves (spares i) (reconcile_worker_run_counts scope now)"
proof -
  have fin: "preserves (spares i) (finish_active_stmt i a s c fence now)" "preserves (spares i) (retry_active_stmt i a next_at n fence now)"
    unfolding finish_active_stmt_def retry_active_stmt_def by (rule spares_update; auto simp: finishable_def finished_def)+
  show "preserves (spares i) (finish_active_run_fenced i a s c fence now)" "preserves (spares i) (set_retry_from_active_fenced i a next_at n fence now)"
    unfolding finish_active_run_fenced_def set_retry_from_active_fenced_def by (intro spare.keeps fin spares_status)+
  show "preserves (spares i) (create_lost_requeue j n' job w now)"
    unfolding create_lost_requeue_def by (intro spare.keeps spares_requeue spares_status)
  show "preserves (spares i) (set_run_resources i mem cpu)"
    unfolding set_run_resources_def by (intro spare.keeps spares_update) auto
  show "preserves (spares i) (reconcile_worker_run_counts scope now)"
    unfolding reconcile_worker_run_counts_def by (intro spare.keeps spares_same tables_runs_alone)
qed

section \<open>Handlers that spare the other runs\<close>

definition mgr_spares :: "string \<Rightarrow> manager \<Rightarrow> manager \<Rightarrow> bool" where
  "mgr_spares i m m' \<longleftrightarrow> spares i (mdb m) (mdb m')"

interpretation sparing: io_preorder "mgr_spares i" for i
  by unfold_locales (auto simp: mgr_spares_def spares_def)

lemma sparing_steps:
  "io_keeps (mgr_spares i) (check p c)" "io_keeps (mgr_spares i) (read_state f)" "io_keeps (mgr_spares i) (require_perm auth perm)"
  "io_keeps (mgr_spares i) (or_code o' c)" "io_keeps (mgr_spares i) (refresh_picker N)" "io_keeps (mgr_spares i) (fresh_id M)"
  by (simp_all add: io_keeps_def check_def read_state_def require_perm_def io_lift_def or_code_def io_err_def io_ret_def
      refresh_picker_def refresh_def mgr_spares_def fresh_id_def draw_id_def spare.rel_refl split: option.split)

lemma sparing_stmt: "preserves (spares i) s \<Longrightarrow> io_keeps (mgr_spares i) (run_stmt c s)"
  by (simp add: io_keeps_def mgr_spares_def run_stmt_def on_db_alt preserves_def split: sum.split)

lemma sparing_engine: "(\<And>e. spares i (en_db e) (en_db (f e))) \<Longrightarrow> io_keeps (mgr_spares i) (on_engine f)"
  by (simp add: io_keeps_def on_engine_def mgr_spares_def)

lemma sparing_metrics: "spares i (en_db e) (en_db (on_metrics f e))"
  by (simp add: on_metrics_def spare.rel_refl)

lemma sparing_ignored: "preserves (spares i) s \<Longrightarrow> spares i (en_db e) (en_db (on_db_ignored s e))"
  by (simp add: preserves_def)

lemma sparing_persist: "spares i (en_db e) (en_db (persist_repository_size M job z now e))"
proof -
  have "spares i (en_db e) (en_db (fold (\<lambda>key. on_db_ignored (set_repository_size key z now)) keys e))" for keys
  proof (induction keys arbitrary: e)
    case (Cons k keys)
    have "spares i (en_db e) (en_db (on_db_ignored (set_repository_size k z now) e))"
      by (intro sparing_ignored spares_same tables_runs_alone)
    from spare.rel_trans [OF this Cons.IH] show ?case by simp
  qed (simp add: spare.rel_refl)
  then show ?thesis by (simp add: persist_repository_size_def on_metrics_def)
qed

lemma sparing_tail: "spares i (en_db e) (en_db (completion_tail M i job label body status duration now e))"
proof -
  let ?e1 = "case cq_log body of Some l \<Rightarrow> if l = [] then e
      else on_db_ignored (insert_log_with i (name job) (''/var/log/synora/'' @ name job @ ''/current.log'') l now) e | None \<Rightarrow> e"
  have one: "spares i (en_db e) (en_db ?e1)"
    using sparing_ignored [OF spares_same [OF tables_runs_alone(3)]] by (simp add: spare.rel_refl split: option.split)
  have two: "spares i (en_db a) (en_db (if b then on_db_ignored (set_run_resources i mem cpu) a else a))" for a b mem cpu
    using sparing_ignored [OF spares_ops(4)] by (simp add: spare.rel_refl)
  have three: "spares i (en_db a) (en_db (refresh_worker_metrics M scope now (on_metrics g a)))" for a g scope
    using spares_ops(5) [of i scope now] sparing_metrics
    by (auto simp: refresh_worker_metrics_def on_metrics_def on_db_alt preserves_def split: sum.split)
  show ?thesis unfolding completion_tail_def Let_def
    by (rule spare.rel_trans [OF spare.rel_trans [OF one two] three])
qed

lemma complete_spares: "io_keeps (mgr_spares i) (complete M auth i body now)"
proof -
  have lost: "io_keeps (mgr_spares i) (apply_lost M i run job body duration now)" for run job duration
  proof -
    have "io_keeps (mgr_spares i) (\<lambda>m. case on_db (create_lost_requeue i n (name job) w now) (mg_engine m) of
        (Inr (Some _), e) \<Rightarrow> (Ok (True, Queued), m\<lparr>mg_engine := e\<rparr>) | (_, e) \<Rightarrow> (Ok (True, Lost), m\<lparr>mg_engine := e\<rparr>))" for n w
      using spares_ops(3) by (simp add: io_keeps_def mgr_spares_def on_db_alt preserves_def split: sum.split option.split)
    then show ?thesis unfolding apply_lost_def by (intro sparing.io sparing_steps sparing_stmt sparing_engine sparing_metrics spares_ops)
  qed
  have cancelled: "io_keeps (mgr_spares i) (apply_cancelled i run job body duration now)" for run job duration
    unfolding apply_cancelled_def by (intro sparing.io sparing_stmt spares_ops)
  have success: "io_keeps (mgr_spares i) (apply_success M i run job label body duration now)" for run job label duration
    unfolding apply_success_def Let_def
    by (intro sparing.io sparing_stmt spares_ops sparing_engine sparing_metrics)
       (simp add: spare.rel_refl sparing_persist split: option.split)
  have failed: "io_keeps (mgr_spares i) (apply_failed M i run job body duration now)" for run job duration
    unfolding apply_failed_def
    by (cases "retry_of (fops (m_engine M)) job ProviderError (rr_retry_count run)")
       (simp_all, (intro sparing.io sparing_stmt spares_ops sparing_engine; simp add: sparing_metrics spare.rel_refl)+)
  have completion: "io_keeps (mgr_spares i) (apply_completion M i run job label body duration now)" for run job label duration
    unfolding apply_completion_def Let_def by (intro sparing.io lost cancelled success failed)
  show ?thesis unfolding complete_def Let_def
    by (intro sparing.io sparing_steps completion sparing_engine sparing_tail)
qed

section \<open>The completed run\<close>

lemma fenced_commit:
  assumes "constraints d" and "find_run d i = Some r" and "finishable i (r_retry_count r) fence now r"
    and "\<And>q. r_id (f q) = r_id q \<and> r_job_id (f q) = r_job_id q \<and> r_worker_id (f q) = r_worker_id q \<and> \<not> active (r_status (f q))"
  shows "\<exists>d'. seq (update_runs (\<lambda>_. finishable i (r_retry_count r) fence now) f)
             (\<lambda>n. if n = 0 then ret False else seq (set_job_status_for_run i) (\<lambda>_. ret True)) d = (Ok True, d')
           \<and> find_run d' i = Some (f r) \<and> constraints d'"
proof -
  let ?p = "\<lambda>_ :: db. finishable i (r_retry_count r) fence now"
  let ?d = "d\<lparr>t_runs := update_where (?p d) f (t_runs d)\<rparr>"
  have rin: "r \<in> set (t_runs d)" "r_id r = i" using assms(2) find_run_SomeD by auto
  have p: "?p d r" using assms(3) .
  have u: "update_runs ?p f d = (Ok (count_where (?p d) (t_runs d)), ?d)"
    by (rule update_runs_passive [OF assms(1)]) (use assms(4) in auto)
  then have c': "constraints ?d" by (rule update_runs_effect [THEN conjunct2, THEN conjunct2])
  have n: "0 < count_where (?p d) (t_runs d)" using rin p by (auto simp: count_where_pos)
  obtain js where js: "set_job_status_for_run i ?d = (Ok (), ?d\<lparr>t_jobs := js\<rparr>)"
    using set_job_status_for_run_total [OF c'] by blast
  have c2: "constraints (?d\<lparr>t_jobs := js\<rparr>)"
    using job_status_valid(2) [THEN preservesD, OF js] c' by (simp add: stays_valid_def)
  have "f r \<in> set (t_runs (?d\<lparr>t_jobs := js\<rparr>))" using rin p by (auto simp: set_update_where)
  then have "find_run (?d\<lparr>t_jobs := js\<rparr>) i = Some (f r)" unfolding find_run_iff [OF c2] using rin assms(4) by simp
  moreover have "seq (update_runs ?p f) (\<lambda>n. if n = 0 then ret False else seq (set_job_status_for_run i) (\<lambda>_. ret True)) d
      = (Ok True, ?d\<lparr>t_jobs := js\<rparr>)"
    using n js by (simp add: u seq_def ret_def del: count_where_0)
  ultimately show ?thesis using c2 by blast
qed

definition retried_by :: "int \<Rightarrow> run_rec \<Rightarrow> run_rec" where
  "retried_by next_at r = r\<lparr>r_status := Retrying, r_next_retry_at := Some next_at, r_retry_count := r_retry_count r + 1, r_lease_expires_at := None\<rparr>"

text \<open>A fenced statement either serves the run that passes its fence or does nothing.\<close>

lemma not_finishable_idle:
  assumes "constraints d" and "find_run d i = Some r" and "\<not> finishable i a fence now r"
  shows "update_runs (\<lambda>_. finishable i a fence now) f d = (Ok 0, d)"
proof -
  have "\<not> finishable i a fence now q" if "q \<in> set (t_runs d)" for q
    using find_run_unique [OF assms(1,2) that] assms(3) by (auto simp: finishable_def)
  then show ?thesis by (intro update_runs_idle [OF assms(1)]) blast
qed

lemma finish_fenced_run:
  assumes "constraints d" and "find_run d i = Some r" and "\<not> active s"
  shows "finish_active_run_fenced i (r_retry_count r) s c fence now d = (Ok False, d)
    \<or> (finishable i (r_retry_count r) fence now r \<and> (\<exists>d'. finish_active_run_fenced i (r_retry_count r) s c fence now d = (Ok True, d')
         \<and> find_run d' i = Some (finished s c now r) \<and> constraints d'))"
proof (cases "finishable i (r_retry_count r) fence now r")
  case True
  have "\<exists>d'. finish_active_run_fenced i (r_retry_count r) s c fence now d = (Ok True, d')
      \<and> find_run d' i = Some (finished s c now r) \<and> constraints d'"
    unfolding finish_active_run_fenced_def finish_active_stmt_def
    by (rule fenced_commit [OF assms(1,2) True]) (simp add: assms(3))
  with True show ?thesis by blast
next
  case False
  then show ?thesis using not_finishable_idle [OF assms(1,2) False]
    by (simp add: finish_active_run_fenced_def finish_active_stmt_def seq_def ret_def)
qed

lemma retry_fenced_run:
  assumes "constraints d" and "find_run d i = Some r"
  shows "set_retry_from_active_fenced i (r_retry_count r) next_at (r_retry_count r + 1) fence now d = (Ok False, d)
    \<or> (finishable i (r_retry_count r) fence now r \<and> (\<exists>d'. set_retry_from_active_fenced i (r_retry_count r) next_at (r_retry_count r + 1) fence now d = (Ok True, d')
         \<and> find_run d' i = Some (retried_by next_at r) \<and> constraints d'))"
proof (cases "finishable i (r_retry_count r) fence now r")
  case True
  let ?f = "\<lambda>q. q\<lparr>r_status := Retrying, r_next_retry_at := Some next_at, r_retry_count := r_retry_count r + 1, r_lease_expires_at := None\<rparr>"
  from fenced_commit [OF assms(1,2) True, of ?f] obtain d' where
    "set_retry_from_active_fenced i (r_retry_count r) next_at (r_retry_count r + 1) fence now d = (Ok True, d')"
    "find_run d' i = Some (?f r)" "constraints d'"
    unfolding set_retry_from_active_fenced_def retry_active_stmt_def by auto
  then show ?thesis using True by (auto simp: retried_by_def)
next
  case False
  then show ?thesis using not_finishable_idle [OF assms(1,2) False]
    by (simp add: set_retry_from_active_fenced_def retry_active_stmt_def seq_def ret_def)
qed

text \<open>What a report may make of a run, by the status that counts.\<close>

definition verdict :: "float_ops \<Rightarrow> JobSpec \<Rightarrow> CompleteRequest \<Rightarrow> run_rec \<Rightarrow> run_rec \<Rightarrow> bool" where
  "verdict F job body r r' \<longleftrightarrow>
     (let s = effective_status job body
      in r_id r' = r_id r \<and> r_job_id r' = r_job_id r \<and> r_lease_expires_at r' = None
       \<and> ((s = ''lost'' \<and> r_status r' = Lost)
        \<or> (s = ''cancelled'' \<and> r_status r' = Cancelled)
        \<or> (ok_status s \<and> r_status r' = remote_success s \<and> r_exit_code r' = map_option i64_as_i32 (cq_exit_code body))
        \<or> (s = ''failed'' \<and> r_status r' = Retrying \<and> r_retry_count r' = Suc (r_retry_count r) \<and> r_retry_count r < retry job)
        \<or> (s = ''failed'' \<and> r_status r' = Failed \<and> retry_of F job ProviderError (r_retry_count r) = NoRetry)))"

lemma run_stmt_Ok: "s (mdb m) = (Ok x, d) \<Longrightarrow> run_stmt c s m = (Ok x, m\<lparr>mg_engine := (mg_engine m)\<lparr>en_db := d\<rparr>\<rparr>)"
  by (simp add: run_stmt_def on_db_def)

lemma run_stmt_bind: "io_bind (run_stmt c s) k m = (case s (mdb m) of
    (Inl _, d) \<Rightarrow> (Err c, m\<lparr>mg_engine := (mg_engine m)\<lparr>en_db := d\<rparr>\<rparr>)
  | (Inr x, d) \<Rightarrow> k x (m\<lparr>mg_engine := (mg_engine m)\<lparr>en_db := d\<rparr>\<rparr>))"
  by (simp add: io_bind_def run_stmt_def on_db_alt case_prod_beta split: sum.split)

lemma on_engine_bind: "io_bind (on_engine f) k m = k () (m\<lparr>mg_engine := f (mg_engine m)\<rparr>)"
  by (simp add: io_bind_def on_engine_def)

lemma read_bind: "io_bind (read_state f) k m = k (f m) m"
  by (simp add: io_bind_def read_state_def)

lemma fresh_bind: "io_bind (fresh_id M) k m = k (run_id (m_engine M) (en_ids (mg_engine m)))
    (m\<lparr>mg_engine := (mg_engine m)\<lparr>en_ids := Suc (en_ids (mg_engine m))\<rparr>\<rparr>)"
  by (simp add: io_bind_def fresh_id_def draw_id_def)

lemma requeue_keeps_row:
  assumes "constraints d" and "find_run d i = Some r"
  shows "find_run (snd (create_lost_requeue j n job w now d)) i = Some r"
proof -
  have "preserves (spares []) (create_lost_requeue j n job w now)" "preserves (spares ''x'') (create_lost_requeue j n job w now)"
    by (rule spares_ops)+
  then show ?thesis using assms(2) by (cases "i = []") (auto simp: preserves_def spares_def)
qed

text \<open>One branch: nothing happened, or the run passed the fence and got the row \<open>r1\<close>.\<close>

definition served :: "string \<Rightarrow> CompleteRequest \<Rightarrow> int \<Rightarrow> run_rec \<Rightarrow> run_rec \<Rightarrow> manager \<Rightarrow> (StatusCode + bool \<times> JobStatus) \<times> manager \<Rightarrow> bool" where
  "served i body now r r1 m out \<longleftrightarrow>
     (mdb (snd out) = mdb m \<and> (case fst out of Inl c \<Rightarrow> True | Inr (applied, _) \<Rightarrow> \<not> applied))
     \<or> (finishable i (r_retry_count r) (fence_of body) now r \<and> (\<exists>s. fst out = Ok (True, s))
        \<and> find_run (mdb (snd out)) i = Some r1)"

lemma inert: "\<not> active Lost" "\<not> active Cancelled" "\<not> active Failed"
  by simp_all

lemma served_lost:
  assumes ok: "constraints (mdb m)" and run: "find_run (mdb m) i = Some r"
  shows "served i body now r (finished Lost (bare_completion job body dur) now r) m (apply_lost M i (run_row r) job body dur now m)"
  using finish_fenced_run [OF ok run inert(1), of "bare_completion job body dur" "fence_of body" now]
proof (elim disjE conjE exE)
  fix d' assume d': "finishable i (r_retry_count r) (fence_of body) now r"
    "finish_active_run_fenced i (r_retry_count r) Lost (bare_completion job body dur) (fence_of body) now (mdb m) = (Ok True, d')"
    "find_run d' i = Some (finished Lost (bare_completion job body dur) now r)" "constraints d'"
  then show ?thesis
    using requeue_keeps_row [OF d'(4,3)]
    by (auto simp: served_def apply_lost_def run_stmt_bind on_engine_bind read_bind fresh_bind
        on_metrics_def on_db_alt split: sum.split option.split)
qed (simp_all add: served_def apply_lost_def run_stmt_bind io_ret_def)

lemma served_cancelled:
  assumes ok: "constraints (mdb m)" and run: "find_run (mdb m) i = Some r"
  shows "served i body now r (finished Cancelled (bare_completion job body dur) now r) m (apply_cancelled i (run_row r) job body dur now m)"
  using finish_fenced_run [OF ok run inert(2), of "bare_completion job body dur" "fence_of body" now]
  by (auto simp: served_def apply_cancelled_def run_stmt_bind io_ret_def)

lemma served_success:
  assumes ok: "constraints (mdb m)" and run: "find_run (mdb m) i = Some r"
  shows "served i body now r (finished (remote_success (effective_status job body)) (remote_completion job body dur) now r) m
     (apply_success M i (run_row r) job label body dur now m)"
proof -
  let ?s = "remote_success (effective_status job body)"
  have s: "\<not> active ?s" by (simp add: remote_success_def)
  have keep: "find_run (en_db (persist_repository_size M job z now e)) i = find_run (en_db e) i" for z e
  proof -
    have "t_runs (en_db (fold (\<lambda>key. on_db_ignored (set_repository_size key z now)) keys e)) = t_runs (en_db e)" for keys
      by (induction keys arbitrary: e) (simp_all add: set_repository_size_def commit_def)
    then show ?thesis by (simp add: persist_repository_size_def on_metrics_def find_run_def)
  qed
  show ?thesis
    using finish_fenced_run [OF ok run s, of "remote_completion job body dur" "fence_of body" now]
    by (auto simp: served_def apply_success_def Let_def run_stmt_bind on_engine_bind io_ret_def on_metrics_def keep
        split: option.split)
qed

lemma served_failed:
  assumes ok: "constraints (mdb m)" and run: "find_run (mdb m) i = Some r"
  shows "\<exists>r1. served i body now r r1 m (apply_failed M i (run_row r) job body dur now m)
     \<and> (case retry_of (fops (m_engine M)) job ProviderError (r_retry_count r) of
          Retry delay \<Rightarrow> r1 = retried_by (now + int delay) r
        | NoRetry \<Rightarrow> \<exists>c. r1 = finished Failed c now r)"
proof (cases "retry_of (fops (m_engine M)) job ProviderError (r_retry_count r)")
  case NoRetry
  let ?c = "(bare_completion job body dur)\<lparr>cp_exit_code := map_option i64_as_i32 (cq_exit_code body)\<rparr>"
  have "served i body now r (finished Failed ?c now r) m (apply_failed M i (run_row r) job body dur now m)"
    using finish_fenced_run [OF ok run inert(3), of ?c "fence_of body" now] NoRetry
    by (auto simp: served_def apply_failed_def run_stmt_bind on_engine_bind io_ret_def on_metrics_def)
  with NoRetry show ?thesis by auto
next
  case (Retry delay)
  have "served i body now r (retried_by (now + int delay) r) m (apply_failed M i (run_row r) job body dur now m)"
    using retry_fenced_run [OF ok run, of "now + int delay" "fence_of body" now] Retry
    by (auto simp: served_def apply_failed_def run_stmt_bind on_engine_bind io_ret_def on_metrics_def)
  with Retry show ?thesis by auto
qed

lemma retry_of_Retry: "retry_of F job k n = Retry delay \<Longrightarrow> n < retry job"
  using retry_decision_cap by (auto simp: retry_of_def)

lemma apply_completion_row:
  assumes "constraints (mdb m)" and "find_run (mdb m) i = Some r"
  shows "\<exists>r1. served i body now r r1 m (apply_completion M i (run_row r) job label body dur now m)
    \<and> (verdict (fops (m_engine M)) job body r r1 \<or> r1 = r \<and> \<not> is_ok (fst (apply_completion M i (run_row r) job label body dur now m)))"
proof -
  let ?s = "effective_status job body"
  consider "?s = ''lost''" | "?s = ''cancelled''" | "ok_status ?s" "?s \<noteq> ''lost''" "?s \<noteq> ''cancelled''"
    | "?s = ''failed''" | "\<not> ok_status ?s" "?s \<notin> {''lost'', ''cancelled'', ''failed''}" by auto
  then show ?thesis
  proof cases
    case 1
    then show ?thesis using served_lost [OF assms, of body now job dur M]
      by (auto simp: apply_completion_def verdict_def finished_def intro!: exI)
  next
    case 2
    then show ?thesis using served_cancelled [OF assms, of body now job dur]
      by (auto simp: apply_completion_def verdict_def finished_def intro!: exI)
  next
    case 3
    then show ?thesis using served_success [OF assms, of body now job dur M label]
      by (auto simp: apply_completion_def verdict_def finished_def remote_completion_def intro!: exI)
  next
    case 4
    then show ?thesis using served_failed [OF assms, of body now M job dur] retry_of_Retry [of "fops (m_engine M)" job ProviderError "r_retry_count r"]
      by (cases "retry_of (fops (m_engine M)) job ProviderError (r_retry_count r)")
         (auto simp: apply_completion_def verdict_def finished_def retried_by_def ok_status_def)
  next
    case 5
    then show ?thesis by (auto simp: apply_completion_def served_def io_err_def intro!: exI [of _ r])
  qed
qed

lemma check_bind: "io_bind (check p c) k m = (if p m then k () m else (Err c, m))"
  by (simp add: io_bind_def check_def)

lemma or_bind: "io_bind (or_code o' c) k m = (case o' of None \<Rightarrow> (Err c, m) | Some x \<Rightarrow> k x m)"
  by (simp add: io_bind_def or_code_def io_err_def io_ret_def split: option.split)

lemma perm_bind: "io_bind (require_perm auth p) k m = (if has_perm auth p then k () m else (Err FORBIDDEN, m))"
  by (simp add: io_bind_def require_perm_def require_def io_lift_def)

lemma refresh_bind: "io_bind (refresh_picker M) k m = k () (refresh M m)"
  by (simp add: io_bind_def refresh_picker_def)

lemmas binds = check_bind or_bind perm_bind refresh_bind read_bind fresh_bind on_engine_bind run_stmt_bind

lemma insert_log_with_edit: "row_edit i (\<lambda>r. r) e (on_db_ignored (insert_log_with j job lp content now) e)"
  by (rule row_edit_same) (simp_all add: insert_log_with_def commit_def)

lemma refresh_worker_metrics_edit: "row_edit i (\<lambda>r. r) e (refresh_worker_metrics M scope now e)"
proof -
  have "preserves stays_valid (reconcile_worker_run_counts scope now)" "preserves same_runs (reconcile_worker_run_counts scope now)"
    unfolding reconcile_worker_run_counts_def by (intro valid.keeps inv_intros runs_alone.keeps tables_runs_alone)+
  then show ?thesis
    by (intro row_edit_same)
       (auto simp: refresh_worker_metrics_def on_db_alt on_metrics_def preserves_def stays_valid_def same_runs_def split: sum.split)
qed

lemma completion_tail_edit:
  "row_edit i (with_resources (cq_memory_bytes body) (cq_cpu_seconds body)) e (completion_tail M i job label body st dur now e)"
proof -
  let ?e1 = "case cq_log body of Some l \<Rightarrow> if l = [] then e
      else on_db_ignored (insert_log_with i (name job) (''/var/log/synora/'' @ name job @ ''/current.log'') l now) e | None \<Rightarrow> e"
  let ?e2 = "if cq_memory_bytes body \<noteq> None \<or> cq_cpu_seconds body \<noteq> None
      then on_db_ignored (set_run_resources i (cq_memory_bytes body) (cq_cpu_seconds body)) ?e1 else ?e1"
  have one: "row_edit i (\<lambda>r. r) e ?e1"
    by (cases "cq_log body") (simp_all only: option.case row_edit_refl insert_log_with_edit split: if_split, simp_all add: row_edit_refl)
  have "row_edit i (with_resources (cq_memory_bytes body) (cq_cpu_seconds body)) ?e1 ?e2"
  proof (cases "cq_memory_bytes body \<noteq> None \<or> cq_cpu_seconds body \<noteq> None")
    case True
    then show ?thesis using edit_resources [of i "cq_memory_bytes body" "cq_cpu_seconds body" ?e1] by (simp only: if_True)
  next
    case False
    then show ?thesis using row_edit_refl [of i ?e1] by (simp add: with_resources_def [abs_def])
  qed
  from row_edit_trans [OF one this] have two: "row_edit i (with_resources (cq_memory_bytes body) (cq_cpu_seconds body)) e ?e2" by simp
  show ?thesis unfolding completion_tail_def Let_def
    by (rule row_edit_then [OF row_edit_then [OF two edit_metrics] refresh_worker_metrics_edit])
qed

lemma verdict_resources: "verdict F job body r r1 \<Longrightarrow> verdict F job body r (with_resources mem cpu r1)"
  by (simp add: verdict_def with_resources_def)

text \<open>
  The report names the worker, the attempt and the lease token of the active run. The database compares
  the lease's end with the clock only if the name of the worker is not empty, which is how the SQL of the store
  tells a fenced statement from an unfenced one.
\<close>

definition entitled :: "CompleteRequest \<Rightarrow> int \<Rightarrow> run_rec \<Rightarrow> bool" where
  "entitled body now r \<longleftrightarrow> active (r_status r) \<and> cq_worker_id body = opt_default [] (r_worker_id r)
     \<and> cq_lease_token body \<noteq> [] \<and> r_lease_token r = Some (cq_lease_token body) \<and> cq_attempt body = Some (r_retry_count r)
     \<and> (cq_worker_id body \<noteq> [] \<longrightarrow> (\<exists>e. r_lease_expires_at r = Some e \<and> now < e))"

lemma complete_run:
  assumes "constraints (mdb m)" and "ids_fresh (m_engine M) (mg_engine m)" and "find_run (mdb m) i = Some r"
  shows "find_run (mdb (snd (complete M auth i body now m))) i = Some r
    \<or> (fst (complete M auth i body now m) = Ok () \<and> has_perm auth ''runs.manage'' \<and> token_owns_worker auth (cq_worker_id body) m
       \<and> entitled body now r
       \<and> (\<exists>job r'. engine_job (mg_engine m) (r_job_id r) = Some job
            \<and> find_run (mdb (snd (complete M auth i body now m))) i = Some r' \<and> verdict (fops (m_engine M)) job body r r'))"
proof -
  let ?cond = "\<lambda>job. has_perm auth ''runs.manage'' \<and> token_owns_worker auth (cq_worker_id body) m
    \<and> engine_job (mg_engine m) (r_job_id r) = Some job \<and> token_owns_worker auth (opt_default [] (r_worker_id r)) m
    \<and> completion_matches (run_row r) body"
  have row: "get_run i (mdb m) = Some (run_row r)" using get_run_find [OF assms(1)] assms(3) by simp
  show ?thesis
  proof (cases "\<exists>job. ?cond job")
    case False
    then have "snd (complete M auth i body now m) = m"
      by (auto simp: complete_def binds row Let_def split: option.splits)
    then show ?thesis using assms(3) by simp
  next
    case True
    then obtain job where c: "?cond job" by blast
    let ?dur = "max i64_min (min i64_max (now - opt_default (r_created_at r) (r_started_at r)))"
    let ?label = "opt_default (user_name auth) (r_worker_id r)"
    let ?out = "apply_completion M i (run_row r) job ?label body ?dur now m"
    have eq: "complete M auth i body now m = io_bind (apply_completion M i (run_row r) job ?label body ?dur now) (\<lambda>(applied, st).
        if \<not> applied then io_ret () else io_bind (on_engine (completion_tail M i job ?label body st ?dur now)) (\<lambda>_. refresh_picker M)) m"
      using c by (simp add: complete_def binds row Let_def completion_matches_def cong: if_cong)
    have c1: "constraints (mdb (snd ?out))"
      using apply_completion_refines [of i "(now, {i})" M "run_row r" job ?label body ?dur now]
        eng_refines_fresh [where a = "mg_engine m" and N = "(now, {i})" and E = "m_engine M"] assms(1,2)
      by (simp add: io_keeps_def mgr_refines_def)
    from apply_completion_row [OF assms(1,3), of body now M job ?label ?dur] obtain r1 where
      r1: "served i body now r r1 m ?out" "verdict (fops (m_engine M)) job body r r1 \<or> r1 = r \<and> \<not> is_ok (fst ?out)" by blast
    obtain x m1 where x: "?out = (x, m1)" by fastforce
    show ?thesis
    proof (cases "mdb m1 = mdb m \<and> (case x of Inl c \<Rightarrow> True | Inr (applied, _) \<Rightarrow> \<not> applied)")
      case True
      then have "mdb (snd (complete M auth i body now m)) = mdb m"
        by (auto simp: eq io_bind_def x io_ret_def split: sum.split)
      then show ?thesis using assms(3) by (simp add: find_run_def)
    next
      case False
      with r1 x obtain s where s: "x = Ok (True, s)" "finishable i (r_retry_count r) (fence_of body) now r"
        "find_run (mdb m1) i = Some r1" by (auto simp: served_def)
      then have v: "verdict (fops (m_engine M)) job body r r1" using r1(2) x by simp
      let ?t = "completion_tail M i job ?label body s ?dur now (mg_engine m1)"
      have out: "complete M auth i body now m = (Ok (), refresh M (m1\<lparr>mg_engine := ?t\<rparr>))"
        by (simp add: eq io_bind_def x s(1) on_engine_def refresh_picker_def)
      have "find_run (en_db ?t) i = Some (with_resources (cq_memory_bytes body) (cq_cpu_seconds body) r1)"
        using row_edit_find [OF completion_tail_edit [of i body "mg_engine m1" M job ?label s ?dur now], of i] c1 x s(3)
        by (simp add: with_resources_def)
      moreover have "entitled body now r" using s(2) c
        by (auto simp: entitled_def finishable_def fence_ok_def fence_of_def completion_matches_def split: option.splits)
      ultimately show ?thesis using out c verdict_resources [OF v] by (simp add: refresh_def)
    qed
  qed
qed

section \<open>Properties\<close>

lemma effective_success:
  assumes "ok_status (effective_status job body)"
  shows "effective_status job body = cq_status body \<and> completion_validation_error job body = None
    \<and> process_result_is_success (map_option i64_as_i32 (cq_exit_code body)) (Some (cq_status body))
        (case provider job of Rsync _ _ \<Rightarrow> success_exit_codes job | TwoStageRsync _ _ _ \<Rightarrow> success_exit_codes job | _ \<Rightarrow> [])"
proof -
  have v: "completion_validation_error job body = None"
    using assms by (auto simp: effective_status_def ok_status_def split: if_splits)
  then have e: "effective_status job body = cq_status body" by (simp add: effective_status_def)
  with v assms show ?thesis
    by (auto simp: completion_validation_error_def reported_completion_failure_reason_def Let_def split: if_splits option.splits)
qed


section \<open>A small manager\<close>

definition demo_menv :: "unit mgr_env" where
  "demo_menv = \<lparr>m_engine = demo_eng_env, m_order = id, m_size_order = id, m_proxy_env = (\<lambda>_. []), m_storage = None, m_show_weekday = (\<lambda>_. [])\<rparr>"

definition demo_mgr :: "db \<Rightarrow> manager" where
  "demo_mgr d = \<lparr>mg_engine = demo_engine\<lparr>en_db := d\<rparr>, mg_picker = map worker_info (list_workers d)\<rparr>"

definition demo_user :: AuthUser where
  "demo_user = \<lparr>user_name = ''w1'', user_permissions = [''runs.manage'']\<rparr>"

definition demo_report :: CompleteRequest where
  "demo_report = \<lparr>cq_lease_token = ''t1'', cq_worker_id = ''w1'', cq_attempt = Some 0, cq_status = ''success'', cq_exit_code = Some 23,
     cq_size_before = None, cq_size_after = Some 10, cq_bytes_transferred = None, cq_message = None, cq_log = None,
     cq_memory_bytes = None, cq_cpu_seconds = None\<rparr>"

lemma demo_mgr_simps [simp]: "mdb (demo_mgr d) = d" "m_engine demo_menv = demo_eng_env" "mg_engine (demo_mgr d) = demo_engine\<lparr>en_db := d\<rparr>"
  "engine_job (demo_engine\<lparr>en_db := d\<rparr>) ''m'' = Some demo_spec" "has_perm demo_user ''runs.manage''"
  "token_owns_worker demo_user ''w1'' (demo_mgr d)"
  by (simp_all add: demo_mgr_def demo_menv_def engine_job_def demo_engine_def has_perm_def demo_user_def token_owns_worker_def)

lemma demo_fresh: "ids_fresh demo_eng_env (demo_engine\<lparr>en_db := demo_active\<rparr>)" "ids_fresh demo_eng_env (demo_engine\<lparr>en_db := demo_queued\<rparr>)"
  by (auto simp: ids_fresh_def demo_eng_env_def find_run_None demo_runs inj_def)


definition claim_worker :: "AuthUser \<Rightarrow> (string \<rightharpoonup> string) \<Rightarrow> string" where
  "claim_worker auth params = (case params ''worker'' of Some x \<Rightarrow> if x = [] then user_name auth else x | None \<Rightarrow> user_name auth)"

lemma claim_effect:
  assumes "constraints (mdb m)" and "claim M auth i params now m = (res, m')"
  shows "(\<forall>j. j \<noteq> i \<longrightarrow> find_run (mdb m') j = find_run (mdb m) j)
    \<and> (case res of
         Inl _ \<Rightarrow> t_runs (mdb m') = t_runs (mdb m)
       | Inr a \<Rightarrow> params ''protocol'' = Some ''2'' \<and> has_perm auth ''runs.manage'' \<and> token_owns_worker auth (claim_worker auth params) m
           \<and> (\<exists>r job. find_run (mdb m) i = Some r \<and> r_status r = Queued
                \<and> (r_worker_id r = None \<or> r_worker_id r = Some (claim_worker auth params))
                \<and> (\<forall>q \<in> set (t_runs (mdb m)). r_job_id q = r_job_id r \<longrightarrow> \<not> active (r_status q))
                \<and> engine_job (mg_engine m) (r_job_id r) = Some job
                \<and> (let token = run_id (m_engine M) (en_ids (mg_engine m))
                   in find_run (mdb m') i = Some (claimed (claim_worker auth params) token now r)
                      \<and> a = \<lparr>ra_lease_token = token, ra_run_id = i, ra_attempt = r_retry_count r, ra_job = job, ra_proxy_env = m_proxy_env M job\<rparr>)))"
proof -
  let ?w = "claim_worker auth params" and ?t = "run_id (m_engine M) (en_ids (mg_engine m))"
  let ?m1 = "m\<lparr>mg_engine := (mg_engine m)\<lparr>en_ids := Suc (en_ids (mg_engine m))\<rparr>\<rparr>"
  have row: "get_run i (mdb m) = map_option run_row (find_run (mdb m) i)" by (rule get_run_find [OF assms(1)])
  show ?thesis
  proof (cases "params ''protocol'' = Some ''2'' \<and> has_perm auth ''runs.manage'' \<and> token_owns_worker auth ?w m
      \<and> (\<exists>r job. find_run (mdb m) i = Some r \<and> engine_job (mg_engine m) (r_job_id r) = Some job \<and> active_runs_of_job (r_job_id r) (mdb m) = [])")
    case False
    then have "\<exists>c. (res, m') = (Err c, m)"
      unfolding assms(2) [symmetric] by (auto simp: claim_def claim_worker_def [symmetric] Let_def binds row io_err_def split: option.splits)
    then show ?thesis by auto
  next
    case True
    then obtain r job where r: "params ''protocol'' = Some ''2''" "has_perm auth ''runs.manage''" "token_owns_worker auth ?w m"
      "find_run (mdb m) i = Some r" "engine_job (mg_engine m) (r_job_id r) = Some job" "active_runs_of_job (r_job_id r) (mdb m) = []" by blast
    show ?thesis
    proof (cases "fst (claim_run i ?w ?t now (mdb m)) = Ok True")
      case False
      with claim_run_cases [OF assms(1), of i ?w ?t now] have "claim_run i ?w ?t now (mdb m) = (Ok False, mdb m)" by auto
      with r have "\<exists>c. (res, m') = (Err c, ?m1)"
        unfolding assms(2) [symmetric] by (simp add: claim_def claim_worker_def [symmetric] Let_def binds row)
      then show ?thesis by auto
    next
      case True
      then obtain d' where d': "claim_run i ?w ?t now (mdb m) = (Ok True, d')" by (metis prod.collapse)
      from claim_run_True [OF assms(1) d'] r(4) have c: "claimable i ?w (mdb m) r" "constraints d'"
        "find_run d' i = Some (claimed ?w ?t now r)" "\<forall>q \<in> set (t_runs (mdb m)). r_job_id q = r_job_id r \<longrightarrow> \<not> active (r_status q)" by auto
      have row': "get_run i d' = Some (run_row (claimed ?w ?t now r))" using get_run_find [OF c(2)] c(3) by simp
      have job': "engine_job (mg_engine m\<lparr>en_ids := n, en_db := d'\<rparr>) j = engine_job (mg_engine m) j" for n j by (simp add: engine_job_def)
      let ?e1 = "on_metrics (claim_metrics (fops (m_engine M)) job ?w now) (mg_engine m\<lparr>en_ids := Suc (en_ids (mg_engine m)), en_db := d'\<rparr>)"
      have out: "claim M auth i params now m = (Ok \<lparr>ra_lease_token = ?t, ra_run_id = i, ra_attempt = r_retry_count r, ra_job = job,
          ra_proxy_env = m_proxy_env M job\<rparr>, m\<lparr>mg_engine := refresh_worker_metrics M (Some ?w) now ?e1\<rparr>)"
        using r d' row' job' by (simp add: claim_def claim_worker_def [symmetric] Let_def binds row io_ret_def claimed_def)
      have runs: "find_run (en_db (refresh_worker_metrics M (Some ?w) now ?e1)) j = find_run d' j" for j
        using row_edit_find [OF refresh_worker_metrics_edit [of j ?e1 M "Some ?w" now], of j] c(2) by (simp add: on_metrics_def option.map_id0 option.map_ident)
      have other: "find_run d' j = find_run (mdb m) j" if "j \<noteq> i" for j using claim_run_other [OF assms(1) that, of ?w ?t now] d' by simp
      show ?thesis using assms(2) out runs other c r by (auto simp: Let_def claimable_def)
    qed
  qed
qed

text \<open>C7: A claim hands a run to one worker. A refused claim leaves every run as it was. A granted one was
  made under the current protocol by a token with \<open>runs.manage\<close> that owns the worker; the run was
  queued for that worker or for any, its job is configured and had no active run; afterwards the run
  is held by the worker under a lease token drawn for this claim, which is the token of the answer, and
  all other runs are as before.\<close>

theorem claim_hands_out_once:
  assumes "constraints (mdb m)" and "claim M auth i params now m = (res, m')"
  shows "(\<forall>j. j \<noteq> i \<longrightarrow> find_run (mdb m') j = find_run (mdb m) j)
    \<and> (case res of
         Inl _ \<Rightarrow> t_runs (mdb m') = t_runs (mdb m)
       | Inr a \<Rightarrow> params ''protocol'' = Some ''2'' \<and> has_perm auth ''runs.manage'' \<and> token_owns_worker auth (claim_worker auth params) m
           \<and> (\<exists>r job. find_run (mdb m) i = Some r \<and> r_status r = Queued
                \<and> (r_worker_id r = None \<or> r_worker_id r = Some (claim_worker auth params))
                \<and> (\<forall>q \<in> set (t_runs (mdb m)). r_job_id q = r_job_id r \<longrightarrow> \<not> active (r_status q))
                \<and> engine_job (mg_engine m) (r_job_id r) = Some job
                \<and> (let token = run_id (m_engine M) (en_ids (mg_engine m))
                   in find_run (mdb m') i = Some (claimed (claim_worker auth params) token now r)
                      \<and> a = \<lparr>ra_lease_token = token, ra_run_id = i, ra_attempt = r_retry_count r, ra_job = job, ra_proxy_env = m_proxy_env M job\<rparr>)))"
  by (rule claim_effect [OF assms])

theorem claim_hands_out_once_witness:
  "\<exists>res m'. claim demo_menv demo_user ''r1'' [''protocol'' \<mapsto> ''2''] 1000 (demo_mgr demo_queued) = (res, m')
     \<and> (case res of Inl _ \<Rightarrow> t_runs (mdb m') = [demo_run] | Inr a \<Rightarrow> ra_job a = demo_spec)"
proof -
  obtain res m' where c: "claim demo_menv demo_user ''r1'' [''protocol'' \<mapsto> ''2''] 1000 (demo_mgr demo_queued) = (res, m')" by fastforce
  from claim_hands_out_once [OF _ c] c show ?thesis
    by (auto simp: demo_valid demo_find demo_runs Let_def split: sum.splits)
qed

section \<open>Renewal of leases\<close>

definition names_lease :: "string \<Rightarrow> int \<Rightarrow> RunLease list \<Rightarrow> run_rec \<Rightarrow> bool" where
  "names_lease w now ls r \<longleftrightarrow>
     (\<exists>l \<in> set ls. rl_lease_token l \<noteq> [] \<and> lease_held (rl_run_id l) w (rl_lease_token l) now r)"

definition renewed_by :: "string \<Rightarrow> int \<Rightarrow> RunLease list \<Rightarrow> run_rec \<Rightarrow> run_rec" where
  "renewed_by w now ls r = (if names_lease w now ls r then r\<lparr>r_lease_expires_at := Some (now + RUN_LEASE_SECS)\<rparr> else r)"

lemma lease_held_renewed: "lease_held i w t now (renewed_by w now ls r) \<longleftrightarrow> lease_held i w t now r"
  by (auto simp: renewed_by_def lease_held_def names_lease_def RUN_LEASE_SECS_def split: option.splits)

lemma renew_one:
  assumes "constraints d"
  shows "\<exists>d'. renew_run_lease i w t now d = (Ok (t \<noteq> [] \<and> (\<exists>r. find_run d i = Some r \<and> lease_held i w t now r)), d')
    \<and> constraints d' \<and> (\<forall>j. find_run d' j = map_option (renewed_by w now [\<lparr>rl_run_id = i, rl_lease_token = t\<rparr>]) (find_run d j))"
proof (cases "t = []")
  case True
  then have "renewed_by w now [\<lparr>rl_run_id = i, rl_lease_token = t\<rparr>] = (\<lambda>r. r)" by (simp add: renewed_by_def names_lease_def fun_eq_iff)
  with True assms show ?thesis by (simp add: renew_run_lease_def ret_def option.map_ident)
next
  case False
  let ?p = "\<lambda>(_ :: db). lease_held i w t now" and ?f = "\<lambda>r. r\<lparr>r_lease_expires_at := Some (now + RUN_LEASE_SECS)\<rparr>"
  let ?d = "d\<lparr>t_runs := update_where (?p d) ?f (t_runs d)\<rparr>"
  have u: "update_runs ?p ?f d = (Ok (count_where (?p d) (t_runs d)), ?d)"
    by (rule update_runs_passive [OF assms]) (auto simp: lease_held_def)
  then have c: "constraints ?d" by (rule update_runs_effect [THEN conjunct2, THEN conjunct2])
  have stmt: "renew_stmt i w t now = update_runs ?p ?f" by (simp add: renew_stmt_def lease_held_def [abs_def])
  have "0 < count_where (?p d) (t_runs d) \<longleftrightarrow> (\<exists>r. find_run d i = Some r \<and> lease_held i w t now r)"
    using find_run_iff [OF assms] by (auto simp: count_where_pos lease_held_def)
  then have "renew_run_lease i w t now d = (Ok (t \<noteq> [] \<and> (\<exists>r. find_run d i = Some r \<and> lease_held i w t now r)), ?d)"
    using False by (simp add: renew_run_lease_def stmt seq_def u ret_def del: count_where_0)
  moreover have "find_run ?d j = map_option (renewed_by w now [\<lparr>rl_run_id = i, rl_lease_token = t\<rparr>]) (find_run d j)" for j
  proof -
    have "find (\<lambda>r. r_id r = j) (update_where (?p d) ?f (t_runs d)) = map_option (\<lambda>r. if ?p d r then ?f r else r) (find (\<lambda>r. r_id r = j) (t_runs d))"
      by (rule find_update_where) simp
    then show ?thesis using False by (simp add: find_run_def renewed_by_def [abs_def] names_lease_def)
  qed
  ultimately show ?thesis using c by blast
qed

lemma renewed_by_append: "renewed_by w now ls (renewed_by w now ks r) = renewed_by w now (ks @ ls) r"
proof -
  have "names_lease w now ls (renewed_by w now ks r) \<longleftrightarrow> names_lease w now ls r" by (simp add: names_lease_def lease_held_renewed)
  then show ?thesis by (auto simp: renewed_by_def names_lease_def)
qed

lemma renew_all_effect:
  assumes "constraints d"
  shows "\<exists>valid d'. renew_all w now ls d = (Ok valid, d') \<and> constraints d'
    \<and> (\<forall>j. find_run d' j = map_option (renewed_by w now ls) (find_run d j))
    \<and> set (map fst valid) = {i. \<exists>r. find_run d i = Some r \<and> names_lease w now ls r}"
  using assms
proof (induction ls arbitrary: d)
  case Nil
  have "renewed_by w now [] = (\<lambda>r. r)" by (simp add: renewed_by_def names_lease_def fun_eq_iff)
  with Nil show ?case by (simp add: ret_def names_lease_def option.map_ident)
next
  case (Cons l ls)
  obtain i t where l: "l = \<lparr>rl_run_id = i, rl_lease_token = t\<rparr>" by (metis RunLease.cases)
  let ?ok = "t \<noteq> [] \<and> (\<exists>r. find_run d i = Some r \<and> lease_held i w t now r)"
  from renew_one [OF Cons.prems, of i w t now] obtain d1 where d1: "renew_run_lease i w t now d = (Ok ?ok, d1)" "constraints d1"
    "\<And>j. find_run d1 j = map_option (renewed_by w now [l]) (find_run d j)" unfolding l by blast
  from Cons.IH [OF d1(2)] obtain valid d' where v: "renew_all w now ls d1 = (Ok valid, d')" "constraints d'"
    "\<And>j. find_run d' j = map_option (renewed_by w now ls) (find_run d1 j)"
    "set (map fst valid) = {i. \<exists>r. find_run d1 i = Some r \<and> names_lease w now ls r}" by blast
  have find: "find_run d' j = map_option (renewed_by w now (l # ls)) (find_run d j)" for j
    using renewed_by_append [of w now ls "[l]"] by (simp add: v(3) d1(3) option.map_comp comp_def)
  have names: "names_lease w now ls (renewed_by w now [l] r) \<longleftrightarrow> names_lease w now ls r" for r by (simp add: names_lease_def lease_held_renewed)
  have held: "lease_held i w t now r \<longleftrightarrow> r_id r = i \<and> lease_held i w t now r" for r by (auto simp: lease_held_def)
  obtain valid' where all: "renew_all w now (l # ls) d = (Ok valid', d')"
    and fst: "set (map fst valid') = (if ?ok then insert i (set (map fst valid)) else set (map fst valid))"
    using d1 v(1) get_run_find [OF d1(2), of i] by (cases "find_run d i") (auto simp: l seq_def query_def ret_def)
  have "set (map fst valid') = {j. \<exists>r. find_run d j = Some r \<and> names_lease w now (l # ls) r}"
    unfolding fst v(4) using find_run_SomeD [of d]
    by (auto simp: d1(3) names) (auto simp: names_lease_def l lease_held_def)
  with all v(2) find show ?case by blast
qed

lemma update_workers_total:
  assumes "constraints d" and "\<And>w. wk_id (f d w) = wk_id w"
  shows "update_workers p f d = (Ok (count_where (p d) (t_workers d)), d\<lparr>t_workers := update_where (p d) (f d) (t_workers d)\<rparr>)
    \<and> constraints (d\<lparr>t_workers := update_where (p d) (f d) (t_workers d)\<rparr>)"
proof -
  have "worker_ids (d\<lparr>t_workers := update_where (p d) (f d) (t_workers d)\<rparr>) = worker_ids d"
    using assms(2) by (simp add: worker_ids_def map_update_where)
  then have "constraints (d\<lparr>t_workers := update_where (p d) (f d) (t_workers d)\<rparr>)"
    using assms(1) by (simp add: constraints_def cong: option.case_cong)
  then show ?thesis by (simp add: update_workers_def commit_def)
qed

lemma live_log_runs: "t_runs (en_db (fold (live_log w leases valid now) xs e)) = t_runs (en_db e)"
proof (induction xs arbitrary: e)
  case (Cons s xs)
  have "t_runs (en_db (live_log w leases valid now s e)) = t_runs (en_db e)"
    by (simp add: live_log_def insert_log_fenced_def commit_def split: option.split)
  with Cons.IH show ?case by simp
qed simp

lemma live_log_workers: "t_workers (en_db (fold (live_log w leases valid now) xs e)) = t_workers (en_db e)"
proof (induction xs arbitrary: e)
  case (Cons s xs)
  have "t_workers (en_db (live_log w leases valid now s e)) = t_workers (en_db e)"
    by (simp add: live_log_def insert_log_fenced_def commit_def split: option.split)
  with Cons.IH show ?case by simp
qed simp

lemma live_log_constraints: "constraints (en_db e) \<Longrightarrow> constraints (en_db (fold (live_log w leases valid now) xs e))"
proof (induction xs arbitrary: e)
  case (Cons s xs)
  have "constraints (en_db (live_log w leases valid now s e))"
    using Cons.prems by (simp add: live_log_def insert_log_fenced_def commit_def split: option.split)
  with Cons.IH show ?case by simp
qed simp

text \<open>What a run must be to be offered.\<close>

definition offerable :: "string \<Rightarrow> db \<Rightarrow> string \<Rightarrow> bool" where
  "offerable w d i \<longleftrightarrow> (\<exists>r. find_run d i = Some r \<and> r_status r = Queued \<and> r_worker_id r = Some w
     \<and> (\<forall>q \<in> set (t_runs d). r_job_id q = r_job_id r \<longrightarrow> \<not> executing (r_status q)))"

lemma offers_offerable:
  assumes "constraints (mdb m)" and "a \<in> set (offers M w m)"
  shows "offerable w (mdb m) (ra_run_id a) \<and> (\<exists>k \<in> set (t_workers (mdb m)). wk_id k = w \<and> wk_status k = ONLINE)
    \<and> engine_job (mg_engine m) (name (ra_job a)) = Some (ra_job a)"
proof -
  from assms(2) obtain row where row: "get_worker w (mdb m) = Some row" "wk_status row = ONLINE"
    by (cases "get_worker w (mdb m)") (auto simp: offers_def split: if_splits)
  have "x \<in> set xs" if "head_opt xs = Some x" for x :: worker_rec and xs using that by (cases xs) (simp_all add: head_opt_def)
  from this [OF row(1) [unfolded get_worker_def]] have on: "row \<in> set (t_workers (mdb m))" "wk_id row = w" by auto
  from assms(2) row obtain run where run: "run \<in> set (assigned_runs w (mdb m))"
    "map_option (run_assignment M (rr_id run) (rr_retry_count run)) (engine_job (mg_engine m) (rr_job_id run)) = Some a"
    by (auto simp: offers_def set_filter_map dest: in_set_takeD)
  then obtain r where r: "r \<in> set (t_runs (mdb m))" "run = run_row r" "r_status r = Queued" "r_worker_id r = Some w"
    "r_job_id r \<notin> set (map r_job_id (filter (\<lambda>q. executing (r_status q)) (t_runs (mdb m))))"
    by (auto simp: assigned_runs_def set_runs_where)
  have "find_run (mdb m) (r_id r) = Some r" using find_run_iff [OF assms(1)] r(1) by simp
  moreover have "ra_run_id a = r_id r" using run(2) r(2) by (auto simp: run_assignment_def)
  moreover have "\<forall>q \<in> set (t_runs (mdb m)). r_job_id q = r_job_id r \<longrightarrow> \<not> executing (r_status q)"
    using r(5) unfolding set_map set_filter by (metis (mono_tags, lifting) imageI mem_Collect_eq)
  ultimately have "offerable w (mdb m) (ra_run_id a)" using r(3,4) by (simp add: offerable_def)
  moreover have "engine_job (mg_engine m) (name (ra_job a)) = Some (ra_job a)"
    using run(2) find_SomeD by (fastforce simp: run_assignment_def engine_job_def)
  ultimately show ?thesis using on row(2) by blast
qed

lemma heartbeat_effect:
  assumes "constraints (mdb m)" and "heartbeat M auth w body now m = (res, m')"
  shows "case res of
      Inl c \<Rightarrow> c = FORBIDDEN \<and> m' = m
    | Inr resp \<Rightarrow>
        has_perm auth ''runs.manage'' \<and> token_owns_worker auth w m
        \<and> (\<forall>j. find_run (mdb m') j = map_option (renewed_by w now (take 256 (hb_active_runs body))) (find_run (mdb m) j))
        \<and> set (hr_cancel_runs resp) = {i \<in> rl_run_id ` set (hb_active_runs body).
             \<not> (\<exists>r. find_run (mdb m) i = Some r \<and> names_lease w now (take 256 (hb_active_runs body)) r)}
        \<and> length (hr_assignments resp) \<le> 32
        \<and> (\<forall>a \<in> set (hr_assignments resp). offerable w (mdb m') (ra_run_id a)
             \<and> (\<exists>k \<in> set (t_workers (mdb m')). wk_id k = w \<and> wk_status k = ONLINE))"
proof (cases "has_perm auth ''runs.manage'' \<and> token_owns_worker auth w m")
  case False
  then have "(res, m') = (Err FORBIDDEN, m)" unfolding assms(2) [symmetric] by (auto simp: heartbeat_def binds)
  then show ?thesis by simp
next
  case True
  let ?ls = "take 256 (hb_active_runs body)"
  from update_workers_total [OF assms(1), of "\<lambda>_ k. k\<lparr>wk_last_heartbeat := now, wk_jobs_running := int (hb_jobs_running body),
      wk_status := (if wk_status k = OFFLINE then ONLINE else wk_status k)\<rparr>" "\<lambda>_ k. wk_id k = w"]
  obtain ws where t: "touch_heartbeat w (hb_jobs_running body) now (mdb m) = (Ok (), (mdb m)\<lparr>t_workers := ws\<rparr>)"
    "constraints ((mdb m)\<lparr>t_workers := ws\<rparr>)" by (simp add: touch_heartbeat_def seq_def ret_def)
  from renew_all_effect [OF t(2), of w now ?ls] obtain valid d2 where v: "renew_all w now ?ls ((mdb m)\<lparr>t_workers := ws\<rparr>) = (Ok valid, d2)"
    "constraints d2" "\<forall>j. find_run d2 j = map_option (renewed_by w now ?ls) (find_run (mdb m) j)"
    "set (map fst valid) = {i. \<exists>r. find_run (mdb m) i = Some r \<and> names_lease w now ?ls r}"
    by (auto simp: find_run_def)
  define e3 where "e3 = on_metrics (\<lambda>mt. fold (sample_metrics (fops (m_engine M)) w)
      (filter (\<lambda>s. js_job s \<in> set (map snd valid)) (hb_resources body)) (remove_worker_metrics resource_metrics w mt)) ((mg_engine m)\<lparr>en_db := d2\<rparr>)"
  define e4 where "e4 = fold (live_log w (hb_active_runs body) (map fst valid) now) (take 32 (hb_logs body)) e3"
  define m4 where "m4 = m\<lparr>mg_engine := e4\<rparr>"
  have db3: "en_db e3 = d2" by (simp add: e3_def on_metrics_def)
  have db4: "t_runs (en_db e4) = t_runs d2" "constraints (en_db e4)"
    unfolding e4_def using live_log_runs [of w "hb_active_runs body" "map fst valid" now "take 32 (hb_logs body)" e3]
      live_log_constraints [of e3 w "hb_active_runs body" "map fst valid" now "take 32 (hb_logs body)"] v(2) db3 by simp_all
  define e5 where "e5 = refresh_worker_metrics M (Some w) now e4"
  have out: "heartbeat M auth w body now m = (Ok \<lparr>hr_cancel_runs = filter (\<lambda>i. i \<notin> set (map fst valid)) (map rl_run_id (hb_active_runs body)),
      hr_assignment = head_opt (offers M w m4), hr_assignments = offers M w m4,
      hr_cancel_run = map_option rr_id (head_opt (cancelling_runs_of w (mdb m4))), hr_offline_grace_secs = 45\<rparr>, m\<lparr>mg_engine := e5\<rparr>)"
    using True t(1) v(1) by (simp add: heartbeat_def binds io_ret_def e3_def e4_def m4_def e5_def)
  have runs: "t_runs (en_db e5) = t_runs d2"
    using refresh_worker_metrics_edit [of "[]" e4 M "Some w" now] db4 by (simp add: e5_def row_edit_def update_where_map)
  have workers: "\<exists>k \<in> set (t_workers (en_db e5)). wk_id k = w \<and> wk_status k = ONLINE"
    if "k0 \<in> set (t_workers (en_db e4))" "wk_id k0 = w" "wk_status k0 = ONLINE" for k0
  proof -
    let ?f = "\<lambda>k. k\<lparr>wk_jobs_running := int (count_where (occupies now (wk_id k)) (t_runs (en_db e4)))\<rparr>"
    have "t_workers (en_db e5) = map (\<lambda>k. if in_scope (Some w) k then ?f k else k) (t_workers (en_db e4))"
      using update_workers_total [OF db4(2), of "\<lambda>d k. k\<lparr>wk_jobs_running := int (count_where (occupies now (wk_id k)) (t_runs d))\<rparr>" "\<lambda>_. in_scope (Some w)"]
      by (simp add: e5_def refresh_worker_metrics_def reconcile_worker_run_counts_def seq_def query_def on_db_def on_metrics_def update_where_def)
    then have "(if in_scope (Some w) k0 then ?f k0 else k0) \<in> set (t_workers (en_db e5))" using that(1) by (simp only: set_map) (rule imageI)
    then show ?thesis by (rule bexI [rotated]) (simp add: that)
  qed
  have offer: "offerable w (en_db e5) (ra_run_id a) \<and> (\<exists>k \<in> set (t_workers (en_db e5)). wk_id k = w \<and> wk_status k = ONLINE)"
    if "a \<in> set (offers M w m4)" for a
    using offers_offerable [OF _ that] db4 runs workers by (fastforce simp: m4_def offerable_def find_run_def)
  have "length (offers M w m4) \<le> 32"
  proof -
    have "length (filter_map f xs) \<le> length xs" for f :: "RunRow \<Rightarrow> RunAssignment option" and xs by (induction xs) (auto split: option.split)
    then have "length (filter_map f (take 32 xs)) \<le> 32" for f :: "RunRow \<Rightarrow> RunAssignment option" and xs
      by (rule order_trans) simp
    then show ?thesis by (simp add: offers_def split: option.split)
  qed
  with assms(2) out True v(3,4) runs offer show ?thesis by (auto simp: find_run_def)
qed

text \<open>C8: A heartbeat renews exactly the leases it names and holds. A refused heartbeat changes no run.
  Otherwise the caller has \<open>runs.manage\<close> and owns the worker; a run is renewed to a full lease from now if
  and only if the worker holds its unexpired lease and named it with its token among the first 256 leases,
  and no run changes otherwise; the answer asks the worker to cancel exactly the named runs that were not
  renewed. Runs are offered only to an online worker, only if they wait for this worker and their job
  has no executing run, at most 32 of them.\<close>

theorem heartbeat_renews_exactly:
  assumes "constraints (mdb m)" and "heartbeat M auth w body now m = (res, m')"
  shows "case res of
      Inl c \<Rightarrow> c = FORBIDDEN \<and> m' = m
    | Inr resp \<Rightarrow>
        has_perm auth ''runs.manage'' \<and> token_owns_worker auth w m
        \<and> (\<forall>j. find_run (mdb m') j = map_option (renewed_by w now (take 256 (hb_active_runs body))) (find_run (mdb m) j))
        \<and> set (hr_cancel_runs resp) = {i \<in> rl_run_id ` set (hb_active_runs body).
             \<not> (\<exists>r. find_run (mdb m) i = Some r \<and> names_lease w now (take 256 (hb_active_runs body)) r)}
        \<and> length (hr_assignments resp) \<le> 32
        \<and> (\<forall>a \<in> set (hr_assignments resp). offerable w (mdb m') (ra_run_id a)
             \<and> (\<exists>k \<in> set (t_workers (mdb m')). wk_id k = w \<and> wk_status k = ONLINE))"
  by (rule heartbeat_effect [OF assms])

definition demo_beat :: HeartbeatRequest where
  "demo_beat = \<lparr>hb_active_runs = [\<lparr>rl_run_id = ''r1'', rl_lease_token = ''t1''\<rparr>, \<lparr>rl_run_id = ''r0'', rl_lease_token = ''t0''\<rparr>],
     hb_jobs_running = 1, hb_resources = [], hb_logs = []\<rparr>"

theorem heartbeat_renews_exactly_witness:
  "\<exists>resp m'. heartbeat demo_menv demo_user ''w1'' demo_beat 1200 (demo_mgr demo_active) = (Ok resp, m')
     \<and> find_run (mdb m') ''r1'' = Some ((claimed ''w1'' ''t1'' 1000 demo_run)\<lparr>r_lease_expires_at := Some 1500\<rparr>)
     \<and> set (hr_cancel_runs resp) = {''r0''}"
proof -
  obtain res m' where h: "heartbeat demo_menv demo_user ''w1'' demo_beat 1200 (demo_mgr demo_active) = (res, m')" by fastforce
  have named: "names_lease ''w1'' 1200 (hb_active_runs demo_beat) (claimed ''w1'' ''t1'' 1000 demo_run)"
    by (simp add: names_lease_def demo_beat_def lease_held_def RUN_LEASE_SECS_def)
  have r0: "find_run demo_active ''r0'' = None" by (simp add: find_run_def demo_runs)
  from heartbeat_renews_exactly [OF _ h] have res: "case res of Inl c \<Rightarrow> m' = demo_mgr demo_active \<and> c = FORBIDDEN
      | Inr resp \<Rightarrow> find_run (mdb m') ''r1'' = map_option (renewed_by ''w1'' 1200 (take 256 (hb_active_runs demo_beat))) (find_run demo_active ''r1'')
         \<and> set (hr_cancel_runs resp) = {i \<in> rl_run_id ` set (hb_active_runs demo_beat).
             \<not> (\<exists>r. find_run demo_active i = Some r \<and> names_lease ''w1'' 1200 (take 256 (hb_active_runs demo_beat)) r)}"
    by (simp add: demo_valid split: sum.splits)
  have all: "take 256 (hb_active_runs demo_beat) = hb_active_runs demo_beat" by (simp add: demo_beat_def)
  have "res \<noteq> Err FORBIDDEN" using h by (auto simp: heartbeat_def binds io_ret_def split: prod.splits sum.splits)
  with res obtain resp where "res = Ok resp" by (cases res) auto
  have ids: "rl_run_id ` set (hb_active_runs demo_beat) = {''r1'', ''r0''}" by (simp add: demo_beat_def)
  from res \<open>res = Ok resp\<close> have "find_run (mdb m') ''r1'' = Some (renewed_by ''w1'' 1200 (hb_active_runs demo_beat) (claimed ''w1'' ''t1'' 1000 demo_run))"
    "set (hr_cancel_runs resp) = {i \<in> {''r1'', ''r0''}. \<not> (\<exists>r. find_run demo_active i = Some r \<and> names_lease ''w1'' 1200 (hb_active_runs demo_beat) r)}"
    unfolding all ids by (simp_all add: demo_find)
  moreover have "{i \<in> {''r1'', ''r0''}. \<not> (\<exists>r. find_run demo_active i = Some r \<and> names_lease ''w1'' 1200 (hb_active_runs demo_beat) r)} = {''r0''}"
    using named r0 demo_find(2) by auto
  ultimately show ?thesis using h \<open>res = Ok resp\<close> named by (simp add: renewed_by_def RUN_LEASE_SECS_def)
qed

section \<open>The picker\<close>

lemma min_by_key_None: "min_by_key k xs = None \<longleftrightarrow> xs = []"
  by (cases xs) (auto split: option.splits)

lemma min_by_key_Some: "min_by_key k xs = Some y \<Longrightarrow> y \<in> set xs \<and> (\<forall>x \<in> set xs. k y \<le> k x)"
proof (induction xs arbitrary: y)
  case (Cons x xs)
  show ?case
  proof (cases "min_by_key k xs")
    case None
    then have "xs = []" by (simp add: min_by_key_None)
    with Cons.prems None show ?thesis by simp
  next
    case (Some z)
    then show ?thesis using Cons.IH [OF Some] Cons.prems by (auto split: if_splits intro: order_trans)
  qed
qed simp

definition fits :: "JobSpec \<Rightarrow> string \<times> WorkerInfo \<Rightarrow> bool" where
  "fits job = (\<lambda>(i, w). case worker job of Some n \<Rightarrow> i = n \<or> n \<in> set (wi_labels w) | None \<Rightarrow> set (resources job) \<subseteq> set (wi_labels w))"

text \<open>The picker respects placement and capacity. In whatever order the hash map is read: a picked
  worker is in the snapshot, online and below its limit. If the job names a worker, the pick is that
  worker or, failing that, a least loaded available member of the group of that name. If it names none,
  the pick is a least loaded available worker whose labels cover the job's resources. No worker is picked
  only if no available worker fits.\<close>

lemma pick_respects_capacity:
  "case pick snap job of
     None \<Rightarrow> \<forall>x \<in> set snap. \<not> (available x \<and> fits job x)
   | Some i \<Rightarrow> (\<exists>w. (i, w) \<in> set snap \<and> available (i, w) \<and> fits job (i, w)
       \<and> (worker job = Some i \<or> (\<forall>x \<in> set snap. available x \<and> fits job x \<longrightarrow> wi_jobs_running w \<le> wi_jobs_running (snd x))))"
proof -
  let ?on = "filter available snap"
  let ?min = "\<lambda>p. min_by_key (\<lambda>(_, w). wi_jobs_running w) (filter p ?on)"
  have least: "case map_option fst (?min p) of None \<Rightarrow> \<forall>x \<in> set snap. \<not> (available x \<and> p x)
      | Some i \<Rightarrow> \<exists>w. (i, w) \<in> set snap \<and> available (i, w) \<and> p (i, w)
          \<and> (\<forall>x \<in> set snap. available x \<and> p x \<longrightarrow> wi_jobs_running w \<le> wi_jobs_running (snd x))" for p
  proof (cases "?min p")
    case None
    then show ?thesis by (auto simp: min_by_key_None filter_empty_conv)
  next
    case (Some y)
    then show ?thesis using min_by_key_Some [OF Some] by (cases y) (fastforce simp: case_prod_beta)
  qed
  show ?thesis
  proof (cases "worker job")
    case None
    then have f: "fits job = (\<lambda>(_, w). set (resources job) \<subseteq> set (wi_labels w))" by (simp add: fits_def fun_eq_iff)
    show ?thesis
    proof (cases "?on = []")
      case True
      then show ?thesis by (auto simp: pick_def Let_def filter_empty_conv)
    next
      case False
      then show ?thesis using least [of "fits job"] None by (auto simp: pick_def Let_def f split: option.splits)
    qed
  next
    case (Some n)
    show ?thesis
    proof (cases "\<exists>x \<in> set ?on. fst x = n")
      case True
      then obtain w where "(n, w) \<in> set snap" "available (n, w)" by auto
      then show ?thesis using Some True by (auto simp: pick_def Let_def fits_def filter_empty_conv)
    next
      case False
      then have f: "fits job x \<longleftrightarrow> (case x of (_, w) \<Rightarrow> n \<in> set (wi_labels w))" if "x \<in> set snap" "available x" for x
        using that Some by (auto simp: fits_def)
      show ?thesis
      proof (cases "?on = []")
        case True
        then show ?thesis by (auto simp: pick_def Let_def filter_empty_conv)
      next
        case on: False
        have "filter (\<lambda>(_, w). n \<in> set (wi_labels w)) ?on = filter (fits job) ?on" using f by (intro filter_cong) auto
        then have "pick snap job = map_option fst (?min (fits job))" using Some False on by (auto simp: pick_def Let_def)
        then show ?thesis using least [of "fits job"] by (auto split: option.splits)
      qed
    qed
  qed
qed

definition demo_snap :: "(string \<times> WorkerInfo) list" where
  "demo_snap = [(''w1'', \<lparr>wi_labels = [], wi_jobs_running = 8, wi_max_concurrency = 8, wi_status = ONLINE\<rparr>),
     (''w2'', \<lparr>wi_labels = [], wi_jobs_running = 1, wi_max_concurrency = 8, wi_status = ONLINE\<rparr>)]"

theorem pick_respects_capacity_witness:
  "pick demo_snap demo_spec = Some ''w2'' \<and> (\<exists>w. (''w2'', w) \<in> set demo_snap \<and> available (''w2'', w))"
proof -
  have p: "pick demo_snap demo_spec = Some ''w2''" by (simp add: pick_def demo_snap_def demo_spec_def available_def Let_def)
  then show ?thesis using pick_respects_capacity [of demo_snap demo_spec] by auto
qed

section \<open>Authority\<close>

text \<open>Who may make a request in a state.\<close>

definition permitted :: "AuthUser \<Rightarrow> api_request \<Rightarrow> manager \<Rightarrow> bool" where
  "permitted user req m =
     (case req of
        Register _ \<Rightarrow> has_perm user ''runs.manage''
      | Heartbeat w _ \<Rightarrow> has_perm user ''runs.manage'' \<and> token_owns_worker user w m
      | Drain w \<Rightarrow> has_perm user ''workers.write'' \<or> token_owns_worker user w m
      | Shutdown w \<Rightarrow> has_perm user ''workers.write'' \<or> token_owns_worker user w m
      | Unregister w \<Rightarrow> has_perm user ''workers.write'' \<or> (has_perm user ''runs.manage'' \<and> token_owns_worker user w m)
      | Claim _ params \<Rightarrow> has_perm user ''runs.manage'' \<and> token_owns_worker user (claim_worker user params) m
      | Complete _ body \<Rightarrow> has_perm user ''runs.manage'' \<and> token_owns_worker user (cq_worker_id body) m
      | ListJobs \<Rightarrow> has_perm user ''jobs.read''
      | RunJob _ \<Rightarrow> has_perm user ''jobs.write''
      | StopJob _ \<Rightarrow> has_perm user ''jobs.write''
      | JobHistory _ \<Rightarrow> has_perm user ''jobs.read''
      | Spec _ \<Rightarrow> has_perm user ''jobs.read''
      | Logs _ _ \<Rightarrow> has_perm user ''logs.read''
      | DeleteJob _ _ \<Rightarrow> has_perm user ''jobs.write''
      | ListWorkers \<Rightarrow> has_perm user ''workers.read''
      | ListProxies _ _ _ \<Rightarrow> has_perm user ''workers.read''
      | Reload _ _ \<Rightarrow> has_perm user ''config.reload'')"

lemma quiet_Err: "h m = (Err c, m) \<Longrightarrow> quiet h m = (Err c, m)"
  by (simp add: quiet_def io_bind_def)

lemma refusals:
  "\<not> has_perm user ''runs.manage'' \<Longrightarrow> register M user rb now m = (Err FORBIDDEN, m)"
  "\<not> (has_perm user ''runs.manage'' \<and> token_owns_worker user w m) \<Longrightarrow> heartbeat M user w hb now m = (Err FORBIDDEN, m)"
  "\<not> (has_perm user ''runs.manage'' \<and> token_owns_worker user (cq_worker_id cb) m) \<Longrightarrow> complete M user i cb now m = (Err FORBIDDEN, m)"
  "\<not> may_manage user w m \<Longrightarrow> drain M user w m = (Err FORBIDDEN, m)"
  "\<not> may_manage user w m \<Longrightarrow> worker_shutdown M user w m = (Err FORBIDDEN, m)"
  "\<not> has_perm user ''jobs.read'' \<Longrightarrow> list_jobs M user m = (Err FORBIDDEN, m)"
  "\<not> has_perm user ''jobs.write'' \<Longrightarrow> trigger_run M user n now m = (Err FORBIDDEN, m)"
  "\<not> has_perm user ''jobs.write'' \<Longrightarrow> stop_run user n m = (Err FORBIDDEN, m)"
  "\<not> has_perm user ''jobs.read'' \<Longrightarrow> history user n m = (Err FORBIDDEN, m)"
  "\<not> has_perm user ''jobs.read'' \<Longrightarrow> job_spec user n m = (Err FORBIDDEN, m)"
  "\<not> has_perm user ''logs.read'' \<Longrightarrow> job_logs fs dir user n params m = (Err FORBIDDEN, m)"
  "\<not> has_perm user ''jobs.write'' \<Longrightarrow> delete_job user n rm m = (Err FORBIDDEN, m)"
  "\<not> has_perm user ''workers.read'' \<Longrightarrow> list_workers_page user m = (Err FORBIDDEN, m)"
  "\<not> has_perm user ''workers.read'' \<Longrightarrow> list_proxies routed configured probes user m = (Err FORBIDDEN, m)"
  "\<not> has_perm user ''config.reload'' \<Longrightarrow> reload_config M user old loaded now m = (Err FORBIDDEN, m)"
  by (auto simp: list_workers_page_def list_proxies_def reload_config_def register_def heartbeat_def complete_def drain_def worker_shutdown_def list_jobs_def trigger_run_def stop_run_def
      history_def job_spec_def job_logs_def delete_job_def perm_bind check_bind)

lemma unregister_refused:
  "\<not> has_perm user ''workers.write'' \<Longrightarrow> \<not> (has_perm user ''runs.manage'' \<and> token_owns_worker user w m) \<Longrightarrow>
     unregister M user w m = (Err FORBIDDEN, m)"
  by (auto simp: unregister_def io_bind_def require_perm_def require_def io_lift_def check_def)

lemma refused:
  assumes "\<not> permitted user req m"
  shows "\<exists>c \<in> {FORBIDDEN, UPGRADE_REQUIRED}. authed M fs dir user req now m = (Err c, m)"
proof (cases req)
  case (Claim i params)
  with assms have "\<exists>c \<in> {FORBIDDEN, UPGRADE_REQUIRED}. claim M user i params now m = (Err c, m)"
    by (auto simp: permitted_def claim_def claim_worker_def [symmetric] Let_def perm_bind check_bind io_err_def)
  with Claim show ?thesis by (auto simp: authed_def quiet_Err)
qed (use assms in \<open>simp_all add: permitted_def authed_def may_manage_def refusals unregister_refused quiet_Err\<close>)

text \<open>C13: Requests without authority change nothing. Without the bearer token of a configured user a
  request is answered \<open>UNAUTHORIZED\<close>; with one, a request that the user's permissions or the ownership of
  the worker do not cover is refused as forbidden (or as an outdated claim protocol). In both cases the
  state of the manager is exactly what it was.\<close>

theorem unauthorised_requests_inert:
  "(\<forall>c. authenticate tokens header = Err c \<longrightarrow> c = UNAUTHORIZED \<and> handle M fs dir tokens header req now m = (Err UNAUTHORIZED, m))
   \<and> (\<forall>user. authenticate tokens header = Ok user \<and> \<not> permitted user req m \<longrightarrow>
        (\<exists>c \<in> {FORBIDDEN, UPGRADE_REQUIRED}. handle M fs dir tokens header req now m = (Err c, m)))"
proof (intro conjI allI impI)
  fix c assume a: "authenticate tokens header = Err c"
  then show "c = UNAUTHORIZED" by (auto simp: authenticate_def split: option.splits)
  with a show "handle M fs dir tokens header req now m = (Err UNAUTHORIZED, m)" by (simp add: handle_def io_bind_def io_lift_def)
next
  fix user assume "authenticate tokens header = Ok user \<and> \<not> permitted user req m"
  then show "\<exists>c \<in> {FORBIDDEN, UPGRADE_REQUIRED}. handle M fs dir tokens header req now m = (Err c, m)"
    using refused [of user req m M fs dir now] by (simp add: handle_def io_bind_def io_lift_def)
qed

theorem unauthorised_requests_inert_witness:
  "\<exists>c \<in> {FORBIDDEN, UPGRADE_REQUIRED}. handle demo_menv \<lparr>fs_canonicalize = (\<lambda>_. None), fs_read = (\<lambda>_. None)\<rparr> ''/log''
      [\<lparr>tok_name = ''v'', tok_token = ''s3'', tok_role = ''viewer'', tok_permissions = []\<rparr>] (Some ''Bearer s3'') (RunJob ''m'') 5 (demo_mgr demo_queued)
    = (Err c, demo_mgr demo_queued)"
proof -
  have "authenticate [\<lparr>tok_name = ''v'', tok_token = ''s3'', tok_role = ''viewer'', tok_permissions = []\<rparr>] (Some ''Bearer s3'')
      = Ok \<lparr>user_name = ''v'', user_permissions = [''jobs.read'', ''workers.read'', ''logs.read'']\<rparr>" by code_simp
  moreover have "\<not> permitted \<lparr>user_name = ''v'', user_permissions = [''jobs.read'', ''workers.read'', ''logs.read'']\<rparr> (RunJob ''m'') (demo_mgr demo_queued)"
    by (simp add: permitted_def has_perm_def)
  ultimately show ?thesis
    using unauthorised_requests_inert [of "[\<lparr>tok_name = ''v'', tok_token = ''s3'', tok_role = ''viewer'', tok_permissions = []\<rparr>]" "Some ''Bearer s3''"] by blast
qed

section \<open>The manager refines the run protocol\<close>

inductive manager_step :: "'tz mgr_env \<Rightarrow> manager \<Rightarrow> manager \<Rightarrow> bool" for M where
  request: "manager_step M m (snd (handle M fs dir tokens header req now m))"
| reaper: "manager_step M m (reaper_tick M now m)"

inductive_cases manager_stepE: "manager_step M m m'"

lemma manager_step_refines: "manager_step M m m' \<Longrightarrow> eng_steps mgr_step (m_engine M) (mg_engine m) (mg_engine m')"
  by (erule manager_stepE; simp only:; rule eng_refines_plain; fold mgr_refines_def)
     (rule handle_refines [unfolded io_keeps_def, rule_format, OF order_refl], rule reaper_refines)

lemma manager_steps_refine: "(manager_step M)\<^sup>*\<^sup>* m m' \<Longrightarrow> eng_steps mgr_step (m_engine M) (mg_engine m) (mg_engine m')"
  by (induction rule: rtranclp_induct) (auto intro: plain.steps_refl plain.steps_trans manager_step_refines)

text \<open>C2: The manager refines the run protocol. Any sequence of requests and reaper iterations, in any
  order and by anyone, is a sequence of protocol statements that uses no run ids or lease tokens but those
  drawn meanwhile. Hence the state stays consistent and keeps the invariant of runs: each job has at most
  one active run, active runs have a worker and a lease, queued and retrying runs have none.\<close>

theorem manager_refines_protocol:
  assumes "(manager_step M)\<^sup>*\<^sup>* m m'" and "mgr_inv (mdb m)" and "ids_fresh (m_engine M) (mg_engine m)"
  shows "reaches (drawn (m_engine M) (mg_engine m) (mg_engine m')) (mdb m) (mdb m')
    \<and> mgr_inv (mdb m') \<and> ids_fresh (m_engine M) (mg_engine m')
    \<and> (\<forall>a \<in> set (t_runs (mdb m')). \<forall>b \<in> set (t_runs (mdb m')).
         active (r_status a) \<and> active (r_status b) \<and> r_job_id a = r_job_id b \<longrightarrow> a = b)"
proof -
  note r = manager_steps_refine [OF assms(1)]
  have c: "constraints (mdb m)" using assms(2) by (simp add: mgr_inv_def)
  have reach: "reaches (drawn (m_engine M) (mg_engine m) (mg_engine m')) (mdb m) (mdb m')"
    using r c assms(3) by (simp add: eng_steps_def)
  have inv: "mgr_inv (mdb m')" by (rule reaches_inv [OF reach assms(2)])
  then have "constraints (mdb m')" by (simp add: mgr_inv_def)
  with reach inv plain.steps_fresh [OF r c assms(3)] show ?thesis
    using one_active by blast
qed

theorem manager_refines_protocol_witness:
  "mgr_inv (mdb (reaper_tick demo_menv 2000 (demo_mgr demo_queued)))"
proof -
  have "mgr_inv demo_queued" by (simp add: mgr_inv_def demo_valid demo_runs run_ok_def settled_def demo_run_def new_run_def)
  moreover have "(manager_step demo_menv)\<^sup>*\<^sup>* (demo_mgr demo_queued) (reaper_tick demo_menv 2000 (demo_mgr demo_queued))"
    by (rule r_into_rtranclp) (rule manager_step.reaper)
  ultimately show ?thesis using manager_refines_protocol [of demo_menv] demo_fresh(2) by (metis demo_mgr_simps(1-3))
qed

end
