(* ===== verification/Reaper_Props.thy ===== *)
theory Reaper_Props
  imports Manager_Props
begin

text \<open>
  What an iteration of the reaper achieves: every expired lease ends in a lost run and no other does, jobs
  that ask for it are queued again, silent workers are offline, and no queued run waits for an absent
  worker.
\<close>

section \<open>Lost runs\<close>

definition expired :: "int \<Rightarrow> run_rec \<Rightarrow> bool" where
  "expired now r \<longleftrightarrow> (case r_worker_id r of Some w \<Rightarrow> w \<noteq> ''local'' | None \<Rightarrow> False)
     \<and> active (r_status r) \<and> (case r_lease_expires_at r of Some e \<Rightarrow> e \<le> now | None \<Rightarrow> False)"

definition lost :: "int \<Rightarrow> run_rec \<Rightarrow> run_rec" where
  "lost now r = r\<lparr>r_status := Lost, r_finished_at := Some now, r_message := Some lost_message\<rparr>"

lemma expired_runs_rows: "run \<in> set (expired_runs now d) \<longleftrightarrow> (\<exists>r \<in> set (t_runs d). run = run_row r \<and> expired now r)"
  by (auto simp: expired_runs_def set_runs_where expired_def)

lemma expired_runs_distinct: "constraints d \<Longrightarrow> distinct (map rr_id (expired_runs now d))"
proof -
  assume "constraints d"
  then have "distinct (map r_id (filter p (t_runs d)))" for p using constraints_run_ids by (simp add: distinct_map_filter)
  then have "distinct (map r_id (sort_key k (filter p (t_runs d))))" for k :: "run_rec \<Rightarrow> int \<times> int" and p
    by (simp add: distinct_map inj_on_def)
  then show ?thesis by (simp add: expired_runs_def runs_where_def comp_def)
qed

lemma reap_one_spares: "spares (rr_id run) (mdb m) (mdb (reap_one M now run m))"
proof -
  let ?i = "rr_id run"
  have "preserves (spares ?i) (expire_stmt ?i now)" unfolding expire_stmt_def by (rule spares_update) auto
  then have one: "preserves (spares ?i) (expire_run ?i now)"
    unfolding expire_run_def by (intro spare.keeps spares_status)
  obtain x d1 where x: "expire_run ?i now (mdb m) = (x, d1)" by fastforce
  have d1: "spares ?i (mdb m) d1" using one x by (auto simp: preserves_def) (metis snd_conv)
  have "spares ?i d1 (snd (create_lost_requeue ?i n (rr_job_id run) w now d1))" for n w
    using spares_ops(3) by (simp add: preserves_def)
  with d1 have "spares ?i (mdb m) (snd (create_lost_requeue ?i n (rr_job_id run) w now d1))" for n w by (rule spare.rel_trans)
  with d1 x show ?thesis
    by (auto simp: reap_one_def on_db_alt Let_def on_metrics_def draw_id_def split: sum.split bool.split option.split)
qed

lemma reap_one_row:
  assumes "constraints (mdb m)" and "find_run (mdb m) i = Some r" and "expired now r"
  shows "find_run (mdb (reap_one M now (run_row r) m)) i = Some (lost now r)"
proof -
  have i: "r_id r = i" using find_run_SomeD [OF assms(2)] by simp
  obtain e where e: "r_lease_expires_at r = Some e" "e \<le> now" using assms(3) by (auto simp: expired_def split: option.splits)
  from expire_run_effect [OF assms(1,2) _ e] assms(3) obtain d1 where d1: "expire_run i now (mdb m) = (Ok True, d1)" "constraints d1"
    "find_run d1 i = Some (lost now r)" by (auto simp: expired_def lost_def)
  show ?thesis
    using d1 requeue_keeps_row [OF d1(2,3)]
    by (auto simp: reap_one_def i on_db_alt Let_def on_metrics_def draw_id_def split: option.split)
qed

lemma reap_one_valid: "constraints (mdb m) \<Longrightarrow> ids_fresh (m_engine M) (mg_engine m) \<Longrightarrow>
    constraints (mdb (reap_one M now run m)) \<and> ids_fresh (m_engine M) (mg_engine (reap_one M now run m))"
  by (rule eng_refines_fresh [OF reap_one_refines [unfolded mgr_refines_def]])

lemma reap_rows:
  assumes "constraints (mdb m)" and "ids_fresh (m_engine M) (mg_engine m)" and "distinct (map rr_id runs)"
    and "\<forall>run \<in> set runs. \<exists>r. find_run (mdb m) (rr_id run) = Some r \<and> run = run_row r \<and> expired now r"
    and "find_run (mdb m) i = Some r"
  shows "find_run (mdb (fold (reap_one M now) runs m)) i = Some (if i \<in> rr_id ` set runs then lost now r else r)"
  using assms
proof (induction runs arbitrary: m r)
  case (Cons run runs)
  let ?m1 = "reap_one M now run m"
  have ok: "constraints (mdb ?m1)" "ids_fresh (m_engine M) (mg_engine ?m1)" using reap_one_valid [OF Cons.prems(1,2)] by auto
  have keep: "find_run (mdb ?m1) j = Some q" if "j \<noteq> rr_id run" "find_run (mdb m) j = Some q" for j q
    using reap_one_spares [of run m M now] that by (simp add: spares_def)
  have rest: "\<forall>x \<in> set runs. \<exists>r. find_run (mdb ?m1) (rr_id x) = Some r \<and> x = run_row r \<and> expired now r"
  proof
    fix x assume x: "x \<in> set runs"
    with Cons.prems(4) obtain q where q: "find_run (mdb m) (rr_id x) = Some q" "x = run_row q" "expired now q" by auto
    have "rr_id x \<noteq> rr_id run" using Cons.prems(3) imageI [OF x, of rr_id] by auto
    from keep [OF this q(1)] q(2,3) show "\<exists>r. find_run (mdb ?m1) (rr_id x) = Some r \<and> x = run_row r \<and> expired now r" by blast
  qed
  show ?case
  proof (cases "i = rr_id run")
    case True
    with Cons.prems(4,5) have "run = run_row r" "expired now r" by auto
    then have "find_run (mdb ?m1) i = Some (lost now r)" using reap_one_row [OF Cons.prems(1,5)] by simp
    from Cons.IH [OF ok _ rest this] Cons.prems(3) True show ?thesis by simp
  next
    case False
    from Cons.IH [OF ok _ rest keep [OF False Cons.prems(5)]] Cons.prems(3) False show ?thesis by simp
  qed
qed simp

lemma reap_effect:
  assumes "constraints (mdb m)" and "ids_fresh (m_engine M) (mg_engine m)" and "find_run (mdb m) i = Some r"
  shows "find_run (mdb (reap M now m)) i = Some (if expired now r then lost now r else r)"
proof -
  let ?runs = "expired_runs now (mdb m)"
  have rows: "\<forall>run \<in> set ?runs. \<exists>r. find_run (mdb m) (rr_id run) = Some r \<and> run = run_row r \<and> expired now r"
    using find_run_iff [OF assms(1)] by (fastforce simp: expired_runs_rows)
  have "i \<in> rr_id ` set ?runs \<longleftrightarrow> expired now r"
    using rows assms(3) find_run_SomeD [OF assms(3)] by (force simp: expired_runs_rows image_iff)
  with reap_rows [OF assms(1,2) expired_runs_distinct [OF assms(1)] rows assms(3)] show ?thesis by (simp add: reap_def)
qed

section \<open>Jobs queued again\<close>

definition waiting_run :: "db \<Rightarrow> string \<Rightarrow> bool" where
  "waiting_run d job \<longleftrightarrow> (\<exists>i q. find_run d i = Some q \<and> r_job_id q = job \<and> r_status q \<in> {Queued, Retrying})"

lemma expire_run_tables:
  "t_workers (snd (expire_run i now d)) = t_workers d" "t_workers (snd (create_lost_requeue i n job w now d)) = t_workers d"
  by (auto simp: expire_run_def expire_stmt_def create_lost_requeue_def lost_requeue_stmt_def insert_run_def seq_def ret_def update_runs_def
      commit_def set_job_status_for_run_def set_job_status_def update_jobs_def split: option.split)

lemma reap_one_frame:
  "mg_picker (reap_one M now run m) = mg_picker m" "live_jobs (mg_engine (reap_one M now run m)) = live_jobs (mg_engine m)"
  "t_workers (mdb (reap_one M now run m)) = t_workers (mdb m)"
  by (auto simp: reap_one_def on_db_alt Let_def on_metrics_def draw_id_def expire_run_tables split: sum.split bool.split option.split)

lemma requeue_waits:
  assumes "constraints d" and "find_run d i = Some r" and "r_status r = Lost" and "find_run d n = None"
    and "case w of None \<Rightarrow> True | Some v \<Rightarrow> v \<in> set (worker_ids d)"
    and "\<forall>q \<in> set (t_runs d). r_job_id q = r_job_id r \<longrightarrow> \<not> active (r_status q)"
  shows "waiting_run (snd (create_lost_requeue i n job w now d)) (r_job_id r)"
proof (cases "\<exists>q \<in> set (t_runs d). r_job_id q = r_job_id r \<and> inflight (r_status q)")
  case True
  then obtain q where q: "q \<in> set (t_runs d)" "r_job_id q = r_job_id r" "inflight (r_status q)" by blast
  then have "r_status q \<in> {Queued, Retrying}" using assms(6) by (auto simp: inflight_def active_def)
  moreover have "find_run d (r_id q) = Some q" using find_run_iff [OF assms(1)] q(1) by simp
  moreover have "snd (create_lost_requeue i n job w now d) = d"
    using True assms(2,3) by (auto simp: create_lost_requeue_def lost_requeue_stmt_def seq_def ret_def)
  ultimately show ?thesis using q(2) by (auto simp: waiting_run_def)
next
  case False
  let ?x = "(new_run n (r_job_id r) w Queued now)\<lparr>r_lost_count := r_lost_count r + 1, r_config_generation := r_config_generation r\<rparr>"
  let ?d = "d\<lparr>t_runs := t_runs d @ [?x]\<rparr>"
  have x: "r_id ?x = n" "r_job_id ?x = r_job_id r" "r_status ?x = Queued" "r_worker_id ?x = w" by (simp_all add: new_run_def)
  have rin: "r \<in> set (t_runs d)" using find_run_SomeD [OF assms(2)] by simp
  have ids: "distinct (map r_id (t_runs d @ [?x]))" using constraints_run_ids [OF assms(1)] assms(4) by (auto simp: new_run_def find_run_None)
  have c: "constraints ?d"
    unfolding constraints_runs [OF assms(1) ids]
    using constraints_refs [OF assms(1)] constraints_refs [OF assms(1) rin] one_active [OF assms(1)] assms(5) by (auto simp: refs_ok_def new_run_def)
  have st: "lost_requeue_stmt i n w now d = (Ok 1, ?d)"
    using False assms(2,3) c by (simp add: lost_requeue_stmt_def insert_run_def commit_def)
  have "t_runs (snd (create_lost_requeue i n job w now d)) = t_runs d @ [?x]"
    unfolding create_lost_requeue_def seq_Ok [of "lost_requeue_stmt i n w now" d, OF st] by (simp add: set_job_status_runs)
  moreover have "find_run ?d n = Some ?x" unfolding find_run_iff [OF c] by (simp add: new_run_def)
  ultimately have "find_run (snd (create_lost_requeue i n job w now d)) n = Some ?x" by (simp add: find_run_def)
  then show ?thesis using x unfolding waiting_run_def by blast
qed

lemma picked: "pick snap job = Some v \<Longrightarrow> \<exists>w. (v, w) \<in> set snap \<and> available (v, w)"
  using min_by_key_Some
  by (fastforce simp: pick_def Let_def split: if_splits option.splits)

lemma reap_one_waits:
  assumes "constraints (mdb m)" and "ids_fresh (m_engine M) (mg_engine m)" and "find_run (mdb m) i = Some r" and "expired now r"
    and "engine_job (mg_engine m) (r_job_id r) = Some job" and "on_worker_lost job = LostRetry"
    and "\<forall>x \<in> set (mg_picker m). fst x \<in> set (worker_ids (mdb m))"
  shows "waiting_run (mdb (reap_one M now (run_row r) m)) (r_job_id r)"
proof -
  have rin: "r \<in> set (t_runs (mdb m))" "r_id r = i" using find_run_SomeD [OF assms(3)] by auto
  have act: "active (r_status r)" using assms(4) by (simp add: expired_def)
  obtain e where e: "r_lease_expires_at r = Some e" "e \<le> now" using assms(4) by (auto simp: expired_def split: option.splits)
  from expire_run_effect [OF assms(1,3) act e] obtain d1 where d1: "expire_run i now (mdb m) = (Ok True, d1)" "constraints d1"
    "find_run d1 i = Some (lost now r)" by (auto simp: lost_def)
  let ?n = "run_id (m_engine M) (en_ids (mg_engine m))" and ?w = "pick (mg_picker m) job"
  have sp: "preserves (spares i) (expire_stmt i now)" unfolding expire_stmt_def by (rule spares_update) auto
  have runs: "t_runs d1 = t_runs (snd (expire_stmt i now (mdb m)))"
    using d1(1) by (auto simp: expire_run_def seq_def ret_def set_job_status_runs split: prod.splits sum.splits if_splits)
      (metis set_job_status_runs(2) snd_conv)+
  have old: "q = lost now r \<or> q \<in> set (t_runs (mdb m)) \<and> r_id q \<noteq> i" if "q \<in> set (t_runs d1)" for q
  proof (cases "r_id q = i")
    case True
    then show ?thesis using find_run_unique [OF d1(2,3) that] by simp
  next
    case False
    then show ?thesis using that unfolding runs by (auto simp: expire_stmt_def update_runs_def commit_def set_update_where split: if_splits)
  qed
  have quiet: "\<forall>q \<in> set (t_runs d1). r_job_id q = r_job_id (lost now r) \<longrightarrow> \<not> active (r_status q)"
  proof (intro ballI impI)
    fix q assume q: "q \<in> set (t_runs d1)" "r_job_id q = r_job_id (lost now r)"
    from old [OF q(1)] show "\<not> active (r_status q)"
      using one_active [OF assms(1) _ rin(1), of q] act q(2) rin(2) by (auto simp: lost_def)
  qed
  have fresh: "find_run d1 ?n = None"
    using assms(2) old rin unfolding find_run_None by (fastforce simp: ids_fresh_def find_run_None lost_def)
  have w: "case ?w of None \<Rightarrow> True | Some v \<Rightarrow> v \<in> set (worker_ids d1)"
  proof (cases ?w)
    case (Some v)
    from picked [OF this] assms(7) have "v \<in> set (worker_ids (mdb m))" by force
    moreover have "t_workers d1 = t_workers (mdb m)" using expire_run_tables(1) [of i now "mdb m"] d1(1) by simp
    ultimately show ?thesis using Some by (simp add: worker_ids_def)
  qed simp
  have "waiting_run (snd (create_lost_requeue i ?n (r_job_id r) ?w now d1)) (r_job_id r)"
    using requeue_waits [OF d1(2,3) _ fresh w quiet] by (simp add: lost_def)
  then show ?thesis using d1(1) assms(5,6) rin(2)
    by (simp add: reap_one_def on_db_alt Let_def on_metrics_def draw_id_def engine_job_def)
qed

lemma reap_waits:
  assumes "constraints (mdb m)" and "ids_fresh (m_engine M) (mg_engine m)" and "distinct (map rr_id runs)"
    and "\<forall>run \<in> set runs. \<exists>r. find_run (mdb m) (rr_id run) = Some r \<and> run = run_row r \<and> expired now r"
    and "\<forall>x \<in> set (mg_picker m). fst x \<in> set (worker_ids (mdb m))"
    and "waiting_run (mdb m) jn \<or> (\<exists>run \<in> set runs. rr_job_id run = jn)"
    and "engine_job (mg_engine m) jn = Some job" and "on_worker_lost job = LostRetry"
  shows "waiting_run (mdb (fold (reap_one M now) runs m)) jn"
  using assms
proof (induction runs arbitrary: m)
  case (Cons run runs)
  let ?m1 = "reap_one M now run m"
  have ok: "constraints (mdb ?m1)" "ids_fresh (m_engine M) (mg_engine ?m1)" using reap_one_valid [OF Cons.prems(1,2)] by auto
  have keep: "find_run (mdb ?m1) j = Some q" if "j \<noteq> rr_id run" "find_run (mdb m) j = Some q" for j q
    using reap_one_spares [of run m M now] that by (simp add: spares_def)
  have rest: "\<forall>x \<in> set runs. \<exists>r. find_run (mdb ?m1) (rr_id x) = Some r \<and> x = run_row r \<and> expired now r"
  proof
    fix x assume x: "x \<in> set runs"
    with Cons.prems(4) obtain q where q: "find_run (mdb m) (rr_id x) = Some q" "x = run_row q" "expired now q" by auto
    have "rr_id x \<noteq> rr_id run" using Cons.prems(3) imageI [OF x, of rr_id] by auto
    from keep [OF this q(1)] q(2,3) show "\<exists>r. find_run (mdb ?m1) (rr_id x) = Some r \<and> x = run_row r \<and> expired now r" by blast
  qed
  obtain r where r: "find_run (mdb m) (rr_id run) = Some r" "run = run_row r" "expired now r" using Cons.prems(4) by auto
  have jobs: "engine_job (mg_engine ?m1) jn = Some job" using Cons.prems(7) by (simp add: engine_job_def reap_one_frame)
  have "waiting_run (mdb ?m1) jn \<or> (\<exists>run \<in> set runs. rr_job_id run = jn)"
  proof (cases "rr_job_id run = jn")
    case True
    then have "waiting_run (mdb ?m1) jn"
      using reap_one_waits [OF Cons.prems(1,2) r(1,3) _ Cons.prems(8,5)] Cons.prems(7) r(2) by simp
    then show ?thesis ..
  next
    case False
    show ?thesis
    proof (cases "waiting_run (mdb m) jn")
      case True
      then obtain i q where q: "find_run (mdb m) i = Some q" "r_job_id q = jn" "r_status q \<in> {Queued, Retrying}" by (auto simp: waiting_run_def)
      have "i \<noteq> rr_id run" using q(1,3) r(1,3) by (auto simp: expired_def)
      from keep [OF this q(1)] q(2,3) show ?thesis by (auto simp: waiting_run_def)
    next
      case no: False
      then show ?thesis using Cons.prems(6) False by auto
    qed
  qed
  with Cons.IH [OF ok _ rest _ _ jobs Cons.prems(8)] Cons.prems(3,5) show ?case by (simp add: reap_one_frame worker_ids_def)
qed simp

section \<open>Statements that only assign\<close>

text \<open>Runs keep their rows, except that a queued run may get another worker.\<close>

definition only_assigns :: "db \<Rightarrow> db \<Rightarrow> bool" where
  "only_assigns d d' \<longleftrightarrow> (\<forall>i r. find_run d i = Some r \<longrightarrow> (\<exists>r'. find_run d' i = Some r' \<and> r_status r' = r_status r
     \<and> r_job_id r' = r_job_id r \<and> (r_status r \<noteq> Queued \<longrightarrow> r' = r)))"

interpretation assigning: stmt_preorder only_assigns
proof unfold_locales
  fix a b c assume ab: "only_assigns a b" and bc: "only_assigns b c"
  show "only_assigns a c" unfolding only_assigns_def
  proof (intro allI impI)
    fix i r assume "find_run a i = Some r"
    with ab obtain r1 where r1: "find_run b i = Some r1" "r_status r1 = r_status r" "r_job_id r1 = r_job_id r" "r_status r \<noteq> Queued \<longrightarrow> r1 = r"
      unfolding only_assigns_def by blast
    with bc obtain r2 where "find_run c i = Some r2" "r_status r2 = r_status r1" "r_job_id r2 = r_job_id r1" "r_status r1 \<noteq> Queued \<longrightarrow> r2 = r1"
      unfolding only_assigns_def by blast
    with r1 show "\<exists>r'. find_run c i = Some r' \<and> r_status r' = r_status r \<and> r_job_id r' = r_job_id r \<and> (r_status r \<noteq> Queued \<longrightarrow> r' = r)" by auto
  qed
qed (auto simp: only_assigns_def)

lemma assigns_same: "t_runs d' = t_runs d \<Longrightarrow> only_assigns d d'"
  by (simp add: only_assigns_def find_run_def)

lemma assigns_update:
  assumes "\<And>r. r_id (f r) = r_id r \<and> r_status (f r) = r_status r \<and> r_job_id (f r) = r_job_id r" and "\<And>d r. p d r \<Longrightarrow> r_status r = Queued"
  shows "preserves only_assigns (update_runs p f)"
proof (rule preservesI)
  fix d
  have "find (\<lambda>r. r_id r = i) (update_where (p d) f (t_runs d)) = map_option (\<lambda>r. if p d r then f r else r) (find (\<lambda>r. r_id r = i) (t_runs d))" for i
    by (rule find_update_where) (simp add: assms(1))
  then show "only_assigns d (snd (update_runs p f d))"
    using assms by (auto simp: only_assigns_def update_runs_def commit_def find_run_def)
qed

lemma assign_stmts: "preserves only_assigns unassign_stmt" "preserves only_assigns (assign_queued_run i w)"
proof -
  show "preserves only_assigns unassign_stmt" unfolding unassign_stmt_def by (rule assigns_update) auto
  have "preserves only_assigns (assign_stmt i w)" unfolding assign_stmt_def by (rule assigns_update) auto
  then show "preserves only_assigns (assign_queued_run i w)" unfolding assign_queued_run_def by (intro assigning.keeps)
qed

lemma redispatch_assigns: "only_assigns (mdb m) (mdb (fold redispatch_one runs m))"
proof (induction runs arbitrary: m)
  case (Cons run runs)
  have "only_assigns (mdb m) (mdb (redispatch_one run m))"
    using assign_stmts(2) by (auto simp: redispatch_one_def preserves_def assigning.rel_refl split: option.split)
  from assigning.rel_trans [OF this Cons.IH] show ?case by simp
qed (simp add: assigning.rel_refl)

lemma refresh_worker_metrics_runs: "constraints (en_db e) \<Longrightarrow> t_runs (en_db (refresh_worker_metrics M scope now e)) = t_runs (en_db e)"
  using refresh_worker_metrics_edit [of "[]" e M scope now] by (simp add: row_edit_def update_where_map)

text \<open>What follows the reaping in an iteration.\<close>

definition after_reap :: "'tz mgr_env \<Rightarrow> int \<Rightarrow> manager \<Rightarrow> manager" where
  "after_reap M now m =
     (let m4 = m\<lparr>mg_engine := on_db_ignored (offline_stmt now) (mg_engine m)\<rparr>;
          m5 = m4\<lparr>mg_engine := on_db_ignored unassign_stmt (mg_engine m4)\<rparr>;
          m6 = m5\<lparr>mg_engine := export_gauges M (mg_engine m5)\<rparr>;
          m7 = m6\<lparr>mg_engine := refresh_worker_metrics M None now (mg_engine m6)\<rparr>
      in redispatch (refresh M m7))"

definition before_reap :: "int \<Rightarrow> manager \<Rightarrow> manager" where
  "before_reap now m =
     (let m1 = m\<lparr>mg_engine := on_db_ignored (drop_superseded_runs now) (mg_engine m)\<rparr>
      in m1\<lparr>mg_engine := on_db_ignored reconcile_stale_job_status (mg_engine m1)\<rparr>)"

lemma reaper_tick_alt: "reaper_tick M now m = after_reap M now (reap M now (before_reap now m))"
  by (simp add: reaper_tick_def after_reap_def before_reap_def Let_def)

lemma export_gauges_db: "en_db (export_gauges M e) = en_db e"
  by (simp add: export_gauges_def Let_def on_metrics_def)

lemma before_reap_facts:
  assumes "constraints (mdb m)" and "ids_fresh (m_engine M) (mg_engine m)"
  shows "constraints (mdb (before_reap now m))" "ids_fresh (m_engine M) (mg_engine (before_reap now m))"
    "mg_picker (before_reap now m) = mg_picker m" "live_jobs (mg_engine (before_reap now m)) = live_jobs (mg_engine m)"
    "t_workers (mdb (before_reap now m)) = t_workers (mdb m)"
    "find_run (mdb m) i = Some r \<Longrightarrow> active (r_status r) \<Longrightarrow> find_run (mdb (before_reap now m)) i = Some r"
proof -
  have engine: "mg_engine (before_reap now m) = on_db_ignored reconcile_stale_job_status (on_db_ignored (drop_superseded_runs now) (mg_engine m))"
    by (simp add: before_reap_def Let_def)
  have "eng_refines (now, {}) (m_engine M) (mg_engine m) (mg_engine (before_reap now m))"
    unfolding engine
    by (rule eng_refines_trans [OF eng_refines_ignored [OF stmts_refine(6)] eng_refines_ignored [OF worker_ops_refine(8)]])
  from eng_refines_fresh [OF this assms] show "constraints (mdb (before_reap now m))" "ids_fresh (m_engine M) (mg_engine (before_reap now m))" by auto
  show "mg_picker (before_reap now m) = mg_picker m" "live_jobs (mg_engine (before_reap now m)) = live_jobs (mg_engine m)"
    "t_workers (mdb (before_reap now m)) = t_workers (mdb m)"
    by (simp_all add: before_reap_def Let_def drop_superseded_runs_def reconcile_stale_job_status_def update_runs_def update_jobs_def commit_def)
  assume r: "find_run (mdb m) i = Some r" "active (r_status r)"
  have not: "\<not> superseded (mdb m) r"
  proof
    assume "superseded (mdb m) r"
    then obtain a where "a \<in> set (t_runs (mdb m))" "r_job_id a = r_job_id r" "r_id a \<noteq> r_id r" "active (r_status a)"
      using r(2) by (auto simp: superseded_def executing_active)
    then show False using one_active [OF assms(1)] find_run_SomeD [OF r(1)] r(2) by metis
  qed
  let ?f = "\<lambda>r. r\<lparr>r_status := Cancelled, r_finished_at := Some now, r_message := Some ''superseded by an active run''\<rparr>"
  have "find (\<lambda>r. r_id r = i) (update_where (superseded (mdb m)) ?f (t_runs (mdb m))) =
      map_option (\<lambda>r. if superseded (mdb m) r then ?f r else r) (find (\<lambda>r. r_id r = i) (t_runs (mdb m)))"
    by (rule find_update_where) simp
  with r(1) not have "find_run (snd (drop_superseded_runs now (mdb m))) i = Some r"
    by (simp add: drop_superseded_runs_def update_runs_def commit_def find_run_def)
  then show "find_run (mdb (before_reap now m)) i = Some r"
    by (simp add: before_reap_def Let_def reconcile_stale_job_status_def update_jobs_def commit_def find_run_def)
qed

lemma after_reap_assigns:
  assumes "constraints (mdb m)"
  shows "only_assigns (mdb m) (mdb (after_reap M now m))"
proof -
  let ?d4 = "snd (offline_stmt now (mdb m))"
  let ?d5 = "snd (unassign_stmt ?d4)"
  have c5: "constraints ?d5" and s5: "only_assigns (mdb m) ?d5"
  proof -
    have c4: "constraints ?d4" using assms by (simp add: offline_stmt_def update_workers_def commit_def)
    then show "constraints ?d5" by (simp add: unassign_stmt_def update_runs_def commit_def)
    have "only_assigns (mdb m) ?d4" by (rule assigns_same) (simp add: offline_stmt_def update_workers_def commit_def)
    moreover have "only_assigns ?d4 ?d5" using assign_stmts(1) by (simp add: preserves_def)
    ultimately show "only_assigns (mdb m) ?d5" by (rule assigning.rel_trans)
  qed
  let ?e6 = "export_gauges M ((mg_engine m)\<lparr>en_db := ?d5\<rparr>)"
  have "t_runs (en_db (refresh_worker_metrics M None now ?e6)) = t_runs ?d5"
    using refresh_worker_metrics_runs [of ?e6 M None now] c5 by (simp add: export_gauges_db)
  then have "only_assigns ?d5 (en_db (refresh_worker_metrics M None now ?e6))" by (rule assigns_same)
  from assigning.rel_trans [OF s5 assigning.rel_trans [OF this]]
    redispatch_assigns [of "refresh M (m\<lparr>mg_engine := refresh_worker_metrics M None now ?e6\<rparr>)"]
  show ?thesis by (simp add: after_reap_def Let_def redispatch_def refresh_def on_db_ignored_def on_db_alt)
qed

section \<open>Properties\<close>

text \<open>The effect on an active run, from its lease alone.\<close>

lemma reaper_tick_run:
  assumes "constraints (mdb m)" and "ids_fresh (m_engine M) (mg_engine m)" and "find_run (mdb m) i = Some r" and "active (r_status r)"
    and "\<forall>x \<in> set (mg_picker m). fst x \<in> set (worker_ids (mdb m))"
  shows "find_run (mdb (reaper_tick M now m)) i = Some (if expired now r then lost now r else r)
    \<and> (\<forall>job. expired now r \<and> engine_job (mg_engine m) (r_job_id r) = Some job \<and> on_worker_lost job = LostRetry \<longrightarrow>
         (\<exists>q \<in> set (t_runs (mdb (reaper_tick M now m))). r_job_id q = r_job_id r \<and> r_status q \<in> {Queued, Retrying}))"
proof -
  let ?m2 = "before_reap now m"
  let ?m3 = "reap M now ?m2"
  note b = before_reap_facts [OF assms(1,2), where now = now]
  have r2: "find_run (mdb ?m2) i = Some r" using b(6) assms(3,4) by blast
  have r3: "find_run (mdb ?m3) i = Some (if expired now r then lost now r else r)" by (rule reap_effect [OF b(1,2) r2])
  have "mgr_refines (now, {}) M ?m2 ?m3" unfolding reap_def by (rule mgr.fold_steps) (rule reap_one_refines)
  then have c3: "constraints (mdb ?m3)" using eng_refines_fresh [OF _ b(1,2)] by (simp add: mgr_refines_def)
  note tail = after_reap_assigns [OF c3, of M now, folded reaper_tick_alt]
  have "r_status (if expired now r then lost now r else r) \<noteq> Queued" using assms(4) by (auto simp: lost_def)
  with tail r3 have row: "find_run (mdb (reaper_tick M now m)) i = Some (if expired now r then lost now r else r)"
    unfolding only_assigns_def by metis
  have "\<exists>q \<in> set (t_runs (mdb (reaper_tick M now m))). r_job_id q = r_job_id r \<and> r_status q \<in> {Queued, Retrying}"
    if job: "expired now r" "engine_job (mg_engine m) (r_job_id r) = Some job" "on_worker_lost job = LostRetry" for job
  proof -
    have rows: "\<forall>run \<in> set (expired_runs now (mdb ?m2)). \<exists>r. find_run (mdb ?m2) (rr_id run) = Some r \<and> run = run_row r \<and> expired now r"
      using find_run_iff [OF b(1)] by (fastforce simp: expired_runs_rows)
    have "run_row r \<in> set (expired_runs now (mdb ?m2))" using find_run_SomeD [OF r2] job(1) by (auto simp: expired_runs_rows)
    then have "\<exists>run \<in> set (expired_runs now (mdb ?m2)). rr_job_id run = r_job_id r" by force
    then have "waiting_run (mdb ?m3) (r_job_id r)"
      unfolding reap_def using b assms(5) job(2,3)
      by (intro reap_waits [OF b(1,2) expired_runs_distinct [OF b(1)] rows]) (auto simp: engine_job_def worker_ids_def)
    then obtain j q where q: "find_run (mdb ?m3) j = Some q" "r_job_id q = r_job_id r" "r_status q \<in> {Queued, Retrying}"
      by (auto simp: waiting_run_def)
    from tail q(1) obtain q' where "find_run (mdb (reaper_tick M now m)) j = Some q'" "r_status q' = r_status q" "r_job_id q' = r_job_id q"
      unfolding only_assigns_def by blast
    with q(2,3) find_run_SomeD show ?thesis by metis
  qed
  with row show ?thesis by blast
qed

text \<open>The worker of a run is silent: it is not registered, or its last heartbeat is past the grace period.\<close>

definition silent :: "int \<Rightarrow> db \<Rightarrow> run_rec \<Rightarrow> bool" where
  "silent now d r \<longleftrightarrow> (\<forall>k \<in> set (t_workers d). r_worker_id r = Some (wk_id k) \<longrightarrow> wk_last_heartbeat k < now - WORKER_HEARTBEAT_GRACE_SECS)"



text \<open>Where the comment in \<open>synora-core/src/job.rs\<close> and the reaper differ: an expired lease alone loses the
  run, also when the worker of the run is registered, online and sent a heartbeat this very second.\<close>

lemma reaper_loses_heartbeating:
  assumes "constraints (mdb m)" and "ids_fresh (m_engine M) (mg_engine m)" and "find_run (mdb m) i = Some r" and "active (r_status r)"
    and "\<forall>x \<in> set (mg_picker m). fst x \<in> set (worker_ids (mdb m))"
    and "expired now r" and "k \<in> set (t_workers (mdb m))" and "r_worker_id r = Some (wk_id k)" and "wk_last_heartbeat k = now"
  shows "find_run (mdb (reaper_tick M now m)) i = Some (lost now r) \<and> \<not> silent now (mdb m) r"
  using reaper_tick_run [OF assms(1-5), of now] assms(6-9) by (auto simp: silent_def WORKER_HEARTBEAT_GRACE_SECS_def)

section \<open>Placement of queued runs\<close>

definition unassigned :: "run_rec \<Rightarrow> bool" where
  "unassigned r \<longleftrightarrow> r_status r = Queued \<and> r_worker_id r = None"

definition target :: "engine \<Rightarrow> (string \<times> WorkerInfo) list \<Rightarrow> string \<Rightarrow> string option" where
  "target e snap job = Option.bind (engine_job e job) (pick snap)"

definition place :: "engine \<Rightarrow> (string \<times> WorkerInfo) list \<Rightarrow> string set \<Rightarrow> run_rec \<Rightarrow> run_rec" where
  "place e snap ids r = (if r_id r \<in> ids \<and> unassigned r then r\<lparr>r_worker_id := target e snap (r_job_id r)\<rparr> else r)"

lemma place_simps [simp]: "r_id (place e snap ids r) = r_id r" "r_job_id (place e snap ids r) = r_job_id r" "r_status (place e snap ids r) = r_status r"
  by (simp_all add: place_def)

lemma place_comp: "place e snap ids (place e snap {i} r) = place e snap (insert i ids) r"
  by (cases "target e snap (r_job_id r)") (auto simp: place_def unassigned_def)

lemma redispatch_one_effect:
  assumes "constraints (mdb m)" and "\<forall>x \<in> set (mg_picker m). fst x \<in> set (worker_ids (mdb m))"
    and "\<forall>r \<in> set (t_runs (mdb m)). r_id r = rr_id run \<longrightarrow> r_job_id r = rr_job_id run"
  shows "t_runs (mdb (redispatch_one run m)) = map (place (mg_engine m) (mg_picker m) {rr_id run}) (t_runs (mdb m))
    \<and> constraints (mdb (redispatch_one run m)) \<and> t_workers (mdb (redispatch_one run m)) = t_workers (mdb m)
    \<and> mg_picker (redispatch_one run m) = mg_picker m \<and> live_jobs (mg_engine (redispatch_one run m)) = live_jobs (mg_engine m)"
proof (cases "target (mg_engine m) (mg_picker m) (rr_job_id run)")
  case None
  then have same: "redispatch_one run m = m" by (auto simp: redispatch_one_def target_def split: option.splits)
  have "place (mg_engine m) (mg_picker m) {rr_id run} r = r" if "r \<in> set (t_runs (mdb m))" for r
    using assms(3) that None by (auto simp: place_def unassigned_def)
  then have "map (place (mg_engine m) (mg_picker m) {rr_id run}) (t_runs (mdb m)) = t_runs (mdb m)" by (rule map_idI)
  with same assms(1) show ?thesis by simp
next
  case (Some w)
  then obtain job where job: "engine_job (mg_engine m) (rr_job_id run) = Some job" "pick (mg_picker m) job = Some w"
    by (auto simp: target_def bind_eq_Some_conv)
  have w: "w \<in> set (worker_ids (mdb m))" using picked [OF job(2)] assms(2) by force
  let ?p = "\<lambda>(_ :: db) r. r_id r = rr_id run \<and> r_status r = Queued \<and> r_worker_id r = None" and ?f = "\<lambda>r. r\<lparr>r_worker_id := Some w\<rparr>"
  let ?d = "(mdb m)\<lparr>t_runs := update_where (?p (mdb m)) ?f (t_runs (mdb m))\<rparr>"
  have u: "update_runs ?p ?f (mdb m) = (Ok (count_where (?p (mdb m)) (t_runs (mdb m))), ?d)"
  proof (rule update_runs_commits [OF assms(1)])
    fix r assume "r \<in> set (t_runs (mdb m))"
    then show "refs_ok (mdb m) (?f r)" using constraints_refs [OF assms(1)] w by (simp add: refs_ok_def)
  qed (auto simp: active_def)
  then have c: "constraints ?d" by (rule update_runs_effect [THEN conjunct2, THEN conjunct2])
  have db: "mdb (redispatch_one run m) = ?d"
    using job u by (simp add: redispatch_one_def assign_queued_run_def assign_stmt_def seq_def ret_def)
  have "(if ?p (mdb m) r then ?f r else r) = place (mg_engine m) (mg_picker m) {rr_id run} r" if "r \<in> set (t_runs (mdb m))" for r
    using assms(3) that Some by (auto simp: place_def unassigned_def)
  then have "update_where (?p (mdb m)) ?f (t_runs (mdb m)) = map (place (mg_engine m) (mg_picker m) {rr_id run}) (t_runs (mdb m))"
    unfolding update_where_def by (rule map_cong [OF refl])
  with c db job show ?thesis by (simp add: redispatch_one_def)
qed

lemma redispatch_fold:
  assumes "constraints (mdb m)" and "\<forall>x \<in> set (mg_picker m). fst x \<in> set (worker_ids (mdb m))"
    and "\<forall>run \<in> set runs. \<forall>r \<in> set (t_runs (mdb m)). r_id r = rr_id run \<longrightarrow> r_job_id r = rr_job_id run"
  shows "t_runs (mdb (fold redispatch_one runs m)) = map (place (mg_engine m) (mg_picker m) (rr_id ` set runs)) (t_runs (mdb m))
    \<and> constraints (mdb (fold redispatch_one runs m)) \<and> t_workers (mdb (fold redispatch_one runs m)) = t_workers (mdb m) \<and> mg_picker (fold redispatch_one runs m) = mg_picker m
    \<and> live_jobs (mg_engine (fold redispatch_one runs m)) = live_jobs (mg_engine m)"
  using assms
proof (induction runs arbitrary: m)
  case Nil
  then show ?case by (simp add: place_def)
next
  case (Cons run runs)
  let ?m1 = "redispatch_one run m"
  have e: "t_runs (mdb ?m1) = map (place (mg_engine m) (mg_picker m) {rr_id run}) (t_runs (mdb m))" "constraints (mdb ?m1)"
    "t_workers (mdb ?m1) = t_workers (mdb m)" "mg_picker ?m1 = mg_picker m" "live_jobs (mg_engine ?m1) = live_jobs (mg_engine m)"
    using redispatch_one_effect [OF Cons.prems(1,2)] Cons.prems(3) by auto
  have pl: "place (mg_engine ?m1) snap ids = place (mg_engine m) snap ids" for snap ids
    by (rule ext) (simp add: place_def target_def engine_job_def e(5))
  have "\<forall>x \<in> set (mg_picker ?m1). fst x \<in> set (worker_ids (mdb ?m1))" using Cons.prems(2) by (simp add: e worker_ids_def)
  moreover have "\<forall>x \<in> set runs. \<forall>r \<in> set (t_runs (mdb ?m1)). r_id r = rr_id x \<longrightarrow> r_job_id r = rr_job_id x"
    using Cons.prems(3) by (auto simp: e(1))
  ultimately show ?case
    using Cons.IH [OF e(2)] by (simp add: e pl comp_def place_comp)
qed

text \<open>After \<open>redispatch\<close> every unassigned queued run has been placed if possible.\<close>

lemma redispatch_effect:
  assumes "constraints (mdb m)" and "\<forall>x \<in> set (mg_picker m). fst x \<in> set (worker_ids (mdb m))"
  shows "t_runs (mdb (redispatch m)) = map (\<lambda>r. if unassigned r then r\<lparr>r_worker_id := target (mg_engine m) (mg_picker m) (r_job_id r)\<rparr> else r) (t_runs (mdb m))
    \<and> constraints (mdb (redispatch m)) \<and> t_workers (mdb (redispatch m)) = t_workers (mdb m) \<and> mg_picker (redispatch m) = mg_picker m
    \<and> live_jobs (mg_engine (redispatch m)) = live_jobs (mg_engine m)"
proof -
  let ?runs = "unassigned_runs (mdb m)"
  have rows: "run \<in> set ?runs \<longleftrightarrow> (\<exists>r \<in> set (t_runs (mdb m)). run = run_row r \<and> unassigned r)" for run
    by (auto simp: unassigned_runs_def set_runs_where unassigned_def)
  have "\<forall>run \<in> set ?runs. \<forall>r \<in> set (t_runs (mdb m)). r_id r = rr_id run \<longrightarrow> r_job_id r = rr_job_id run"
  proof (intro ballI impI)
    fix run r assume "run \<in> set ?runs" and r: "r \<in> set (t_runs (mdb m))" "r_id r = rr_id run"
    then obtain q where q: "q \<in> set (t_runs (mdb m))" "run = run_row q" by (auto simp: rows)
    with r have "r = q" using distinct_map_inj [OF constraints_run_ids [OF assms(1)] r(1) q(1)] by simp
    with q show "r_job_id r = rr_job_id run" by simp
  qed
  note f = redispatch_fold [OF assms this]
  have "place (mg_engine m) (mg_picker m) (rr_id ` set ?runs) r = (if unassigned r then r\<lparr>r_worker_id := target (mg_engine m) (mg_picker m) (r_job_id r)\<rparr> else r)"
    if "r \<in> set (t_runs (mdb m))" for r
  proof -
    have "unassigned r \<Longrightarrow> r_id r \<in> rr_id ` set ?runs" using that rows [of "run_row r"] image_eqI [of "r_id r" rr_id "run_row r" "set ?runs"] by auto
    then show ?thesis by (auto simp: place_def)
  qed
  with f show ?thesis by (simp add: redispatch_def)
qed

lemma update_workers_commits:
  assumes "constraints d" and "\<And>w. wk_id (f d w) = wk_id w"
  shows "update_workers p f d = (Ok (count_where (p d) (t_workers d)), d\<lparr>t_workers := update_where (p d) (f d) (t_workers d)\<rparr>)"
    and "constraints (d\<lparr>t_workers := update_where (p d) (f d) (t_workers d)\<rparr>)"
proof -
  have "map wk_id (update_where (p d) (f d) (t_workers d)) = map wk_id (t_workers d)"
    by (simp add: update_where_def assms(2))
  then show c: "constraints (d\<lparr>t_workers := update_where (p d) (f d) (t_workers d)\<rparr>)"
    using assms(1) by (simp add: constraints_def worker_ids_def job_names_def active_runs_def cong: option.case_cong)
  then show "update_workers p f d = (Ok (count_where (p d) (t_workers d)), d\<lparr>t_workers := update_where (p d) (f d) (t_workers d)\<rparr>)"
    by (simp add: update_workers_def commit_def)
qed

text \<open>The state in which the unassigned runs are handed out.\<close>

definition settled :: "int \<Rightarrow> manager \<Rightarrow> bool" where
  "settled now m \<longleftrightarrow> constraints (mdb m)
     \<and> (\<forall>w \<in> set (t_workers (mdb m)). wk_last_heartbeat w < now - WORKER_HEARTBEAT_GRACE_SECS \<longrightarrow> wk_status w \<noteq> ONLINE)
     \<and> (\<forall>r \<in> set (t_runs (mdb m)). r_status r = Queued \<longrightarrow>
          (case r_worker_id r of None \<Rightarrow> True | Some w \<Rightarrow> \<exists>k \<in> set (t_workers (mdb m)). wk_id k = w \<and> wk_status k = ONLINE))
     \<and> set (mg_picker m) = worker_info ` set (t_workers (mdb m))"

lemma settled_placed:
  assumes "settled now m"
  shows "settled now (redispatch m)"
    and "\<forall>r \<in> set (t_runs (mdb (redispatch m))). unassigned r \<longrightarrow>
           (\<forall>job. engine_job (mg_engine (redispatch m)) (r_job_id r) = Some job \<longrightarrow> pick (mg_picker (redispatch m)) job = None)"
proof -
  have c: "constraints (mdb m)" and pk: "set (mg_picker m) = worker_info ` set (t_workers (mdb m))" using assms by (auto simp: settled_def)
  have ids: "\<forall>x \<in> set (mg_picker m). fst x \<in> set (worker_ids (mdb m))" by (auto simp: pk worker_info_def worker_ids_def)
  note e = redispatch_effect [OF c ids]
  have on: "\<exists>k \<in> set (t_workers (mdb m)). wk_id k = v \<and> wk_status k = ONLINE" if t: "target (mg_engine m) (mg_picker m) j = Some v" for j v
  proof -
    from t obtain job where "pick (mg_picker m) job = Some v" by (auto simp: target_def bind_eq_Some_conv)
    from picked [OF this] show ?thesis by (auto simp: pk worker_info_def available_def)
  qed
  have "constraints (mdb (redispatch m))" using e by simp
  moreover have "case r_worker_id r of None \<Rightarrow> True | Some w \<Rightarrow> \<exists>k \<in> set (t_workers (mdb m)). wk_id k = w \<and> wk_status k = ONLINE"
    if r: "r \<in> set (t_runs (mdb (redispatch m)))" "r_status r = Queued" for r
  proof -
    from r(1) e obtain q where q: "q \<in> set (t_runs (mdb m))"
      "r = (if unassigned q then q\<lparr>r_worker_id := target (mg_engine m) (mg_picker m) (r_job_id q)\<rparr> else q)" by auto
    show ?thesis
    proof (cases "unassigned q")
      case True
      with q(2) on [of "r_job_id q"] show ?thesis by (auto split: option.split)
    next
      case False
      with q r(2) assms show ?thesis by (auto simp: settled_def)
    qed
  qed
  ultimately show "settled now (redispatch m)" using e assms by (simp add: settled_def cong: option.case_cong)
  show "\<forall>r \<in> set (t_runs (mdb (redispatch m))). unassigned r \<longrightarrow>
           (\<forall>job. engine_job (mg_engine (redispatch m)) (r_job_id r) = Some job \<longrightarrow> pick (mg_picker (redispatch m)) job = None)"
    using e by (auto simp: unassigned_def target_def engine_job_def split: if_splits)
qed

lemma offline_settles:
  assumes "constraints d"
  shows "constraints (snd (offline_stmt now d))" and "t_runs (snd (offline_stmt now d)) = t_runs d"
    and "\<forall>w \<in> set (t_workers (snd (offline_stmt now d))). wk_last_heartbeat w < now - WORKER_HEARTBEAT_GRACE_SECS \<longrightarrow> wk_status w \<noteq> ONLINE"
  using update_workers_commits [OF assms, where f = "\<lambda>_ w. w\<lparr>wk_status := OFFLINE\<rparr>"]
  by (auto simp: offline_stmt_def kept_status_def set_update_where split: if_splits)

lemma unassign_settles:
  assumes "constraints d"
  shows "constraints (snd (unassign_stmt d))" and "t_workers (snd (unassign_stmt d)) = t_workers d"
    and "\<forall>r \<in> set (t_runs (snd (unassign_stmt d))). r_status r = Queued \<longrightarrow>
          (case r_worker_id r of None \<Rightarrow> True | Some w \<Rightarrow> \<exists>k \<in> set (t_workers d). wk_id k = w \<and> wk_status k = ONLINE)"
proof -
  let ?q = "\<lambda>d r. r_status r = Queued \<and> (case r_worker_id r of None \<Rightarrow> True
       | Some w \<Rightarrow> w \<notin> set (map wk_id (filter (\<lambda>k. wk_status k = ONLINE) (t_workers d))))"
  let ?f = "\<lambda>r. r\<lparr>r_worker_id := None\<rparr>"
  have u: "update_runs ?q ?f d = (Ok (count_where (?q d) (t_runs d)), d\<lparr>t_runs := update_where (?q d) ?f (t_runs d)\<rparr>)"
  proof (rule update_runs_commits [OF assms])
    fix r assume "r \<in> set (t_runs d)"
    then show "refs_ok d (?f r)" using constraints_refs [OF assms] by (auto simp: refs_ok_def)
  qed (auto simp: active_def)
  then have s: "unassign_stmt d = (Ok (count_where (?q d) (t_runs d)), d\<lparr>t_runs := update_where (?q d) ?f (t_runs d)\<rparr>)"
    unfolding unassign_stmt_def .
  from update_runs_effect [OF u] show "constraints (snd (unassign_stmt d))" by (simp add: s)
  show "t_workers (snd (unassign_stmt d)) = t_workers d" by (simp add: s)
  show "\<forall>r \<in> set (t_runs (snd (unassign_stmt d))). r_status r = Queued \<longrightarrow>
          (case r_worker_id r of None \<Rightarrow> True | Some w \<Rightarrow> \<exists>k \<in> set (t_workers d). wk_id k = w \<and> wk_status k = ONLINE)"
    by (auto simp: s set_update_where split: if_splits option.splits)
qed

lemma recount_settles:
  assumes "constraints (en_db e)"
  shows "constraints (en_db (refresh_worker_metrics M None now e))" and "t_runs (en_db (refresh_worker_metrics M None now e)) = t_runs (en_db e)"
    and "\<exists>g. t_workers (en_db (refresh_worker_metrics M None now e)) = map g (t_workers (en_db e))
          \<and> (\<forall>w. wk_id (g w) = wk_id w \<and> wk_status (g w) = wk_status w \<and> wk_last_heartbeat (g w) = wk_last_heartbeat w)"
proof -
  let ?g = "\<lambda>d w. w\<lparr>wk_jobs_running := int (count_where (occupies now (wk_id w)) (t_runs d))\<rparr>"
  let ?d = "(en_db e)\<lparr>t_workers := map (?g (en_db e)) (t_workers (en_db e))\<rparr>"
  have all: "update_where (in_scope None) f xs = map f xs" for f xs by (simp add: update_where_def in_scope_def)
  note u = update_workers_commits [OF assms, where p = "\<lambda>_. in_scope None" and f = ?g, unfolded all, simplified]
  have d: "en_db (refresh_worker_metrics M None now e) = ?d"
    by (simp add: refresh_worker_metrics_def reconcile_worker_run_counts_def on_db_alt seq_def query_def on_metrics_def u(1))
  show "constraints (en_db (refresh_worker_metrics M None now e))" "t_runs (en_db (refresh_worker_metrics M None now e)) = t_runs (en_db e)"
    using u(2) by (simp_all add: d)
  show "\<exists>g. t_workers (en_db (refresh_worker_metrics M None now e)) = map g (t_workers (en_db e))
          \<and> (\<forall>w. wk_id (g w) = wk_id w \<and> wk_status (g w) = wk_status w \<and> wk_last_heartbeat (g w) = wk_last_heartbeat w)"
    by (rule exI [of _ "?g (en_db e)"]) (simp add: d)
qed

lemma after_reap_settles:
  assumes "constraints (mdb m)" and "\<And>xs. set (m_order M xs) = set xs"
  obtains m7 where "after_reap M now m = redispatch m7" and "settled now m7"
proof
  define d4 where "d4 = snd (offline_stmt now (mdb m))"
  define d5 where "d5 = snd (unassign_stmt d4)"
  define e where "e = export_gauges M ((mg_engine m)\<lparr>en_db := d5\<rparr>)"
  let ?m7 = "refresh M (m\<lparr>mg_engine := refresh_worker_metrics M None now e\<rparr>)"
  show "after_reap M now m = redispatch ?m7"
    by (simp add: after_reap_def Let_def on_db_ignored_def on_db_alt e_def d5_def d4_def)
  note s4 = offline_settles [OF assms(1), of now, folded d4_def]
  note s5 = unassign_settles [OF s4(1), folded d5_def]
  have c: "constraints (en_db e)" and d: "en_db e = d5" using s5(1) by (simp_all add: e_def export_gauges_db)
  note s6 = recount_settles [OF c, where M = M and now = now, unfolded d]
  obtain g where g: "t_workers (en_db (refresh_worker_metrics M None now e)) = map g (t_workers d5)"
    "\<And>w. wk_id (g w) = wk_id w \<and> wk_status (g w) = wk_status w \<and> wk_last_heartbeat (g w) = wk_last_heartbeat w" using s6(3) by auto
  have "\<forall>w \<in> g ` set (t_workers d5). wk_last_heartbeat w < now - WORKER_HEARTBEAT_GRACE_SECS \<longrightarrow> wk_status w \<noteq> ONLINE"
    using s4(3) s5(2) g(2) by auto
  moreover have "\<forall>r \<in> set (t_runs d5). r_status r = Queued \<longrightarrow>
      (case r_worker_id r of None \<Rightarrow> True | Some w \<Rightarrow> \<exists>k \<in> g ` set (t_workers d5). wk_id k = w \<and> wk_status k = ONLINE)"
    using s5(2,3) g(2) by (auto split: option.splits)
  ultimately show "settled now ?m7"
    using s6(1,2) by (simp add: settled_def refresh_def g(1) assms(2) list_workers_def cong: option.case_cong)
qed

text \<open>C10: Where the queued runs go. After an iteration no worker that has been silent for longer than the grace
  period counts as online; every queued run either has a worker that is registered and online, or has
  none, and then, if its job is configured, no registered worker is online with fewer running jobs than
  its limit and fits the job: it would have to be the worker or a member of the group that the job names or, when the
  job names none, to have all the labels that the job asks for.\<close>

theorem reaper_placement:
  assumes "constraints (mdb m)" and "ids_fresh (m_engine M) (mg_engine m)" and "\<And>xs. set (m_order M xs) = set xs"
    and "m' = reaper_tick M now m"
  shows "(\<forall>w \<in> set (t_workers (mdb m')). wk_last_heartbeat w < now - WORKER_HEARTBEAT_GRACE_SECS \<longrightarrow> wk_status w \<noteq> ONLINE)
    \<and> (\<forall>r \<in> set (t_runs (mdb m')). r_status r = Queued \<longrightarrow>
         (case r_worker_id r of
            Some w \<Rightarrow> \<exists>k \<in> set (t_workers (mdb m')). wk_id k = w \<and> wk_status k = ONLINE
          | None \<Rightarrow> \<forall>job. engine_job (mg_engine m') (r_job_id r) = Some job \<longrightarrow>
              (\<forall>k \<in> set (t_workers (mdb m')). \<not> (available (worker_info k) \<and> fits job (worker_info k)))))"
proof -
  let ?m2 = "before_reap now m"
  let ?m3 = "reap M now ?m2"
  note b = before_reap_facts [OF assms(1,2), where now = now]
  have "mgr_refines (now, {}) M ?m2 ?m3" unfolding reap_def by (rule mgr.fold_steps) (rule reap_one_refines)
  then have "constraints (mdb ?m3)" using eng_refines_fresh [OF _ b(1,2)] by (simp add: mgr_refines_def)
  from after_reap_settles [where M = M and now = now, OF this assms(3)] obtain m7 where m7: "m' = redispatch m7" "settled now m7"
    by (auto simp: assms(4) reaper_tick_alt)
  note p = settled_placed [OF m7(2), folded m7(1)]
  have none: "\<not> (available (worker_info k) \<and> fits job (worker_info k))"
    if "pick (mg_picker m') job = None" and "k \<in> set (t_workers (mdb m'))" for job k
  proof -
    have "worker_info k \<in> set (mg_picker m')" using p(1) that(2) by (simp add: settled_def)
    with pick_respects_capacity [of "mg_picker m'" job] that(1) show ?thesis by simp
  qed
  from p none show ?thesis by (auto simp: settled_def unassigned_def split: option.split)
qed

theorem reaper_placement_witness:
  "\<exists>m'. m' = reaper_tick demo_menv 2000 (demo_mgr demo_active)
     \<and> (\<forall>w \<in> set (t_workers (mdb m')). \<not> (wk_last_heartbeat w < 2000 - WORKER_HEARTBEAT_GRACE_SECS \<and> wk_status w = ONLINE))"
  using reaper_placement [of "demo_mgr demo_active" demo_menv _ 2000] demo_fresh(1)
  by (auto simp: demo_valid demo_menv_def)

end
