(* ===== verification/Worker.thy ===== *)
theory Worker
  imports Manager
begin

text \<open>
  The worker agent of \<open>crates/worker/src/main.rs\<close>: registration, the heartbeat loop, claims, the safety
  deadline, and the report of an outcome. \<open>ws_running\<close> is the map \<open>running\<close>, as an association list in an
  unspecified order. The cancellation token and the flag \<open>lease_timed_out\<close> of an entry are shared with the
  spawned task, so they are kept in a store of tasks, \<open>ws_tasks\<close>, under the lease token of the claim.

  Time is in seconds. The execution of a run is \<open>run_once\<close> of the theory \<open>Executor\<close>; here a task is one that
  has no outcome yet. The client of the API, its TLS and the signals are not modelled; the tail of
  a log file and the output of \<open>zfs list\<close> are given as text.
\<close>

section \<open>Resource samples\<close>

record ResourceUsage =
  ru_memory_bytes :: "nat option"
  ru_cpu_seconds :: "f64 option"
  ru_cpu_percent :: "f64 option"
  ru_bandwidth_bytes :: "f64 option"

definition no_usage :: ResourceUsage where
  "no_usage = \<lparr>ru_memory_bytes = None, ru_cpu_seconds = None, ru_cpu_percent = None, ru_bandwidth_bytes = None\<rparr>"

definition record_usage :: "nat \<Rightarrow> f64 \<Rightarrow> f64 option \<Rightarrow> ResourceUsage \<Rightarrow> ResourceUsage" where
  "record_usage mem cpu pct u =
     u\<lparr>ru_memory_bytes := Some (max (opt_default 0 (ru_memory_bytes u)) mem), ru_cpu_seconds := Some cpu,
       ru_cpu_percent := coalesce pct (ru_cpu_percent u)\<rparr>"

definition record_bandwidth :: "f64 \<Rightarrow> ResourceUsage \<Rightarrow> ResourceUsage" where
  "record_bandwidth bps u = (if bandwidth_ok bps then u\<lparr>ru_bandwidth_bytes := Some bps\<rparr> else u)"

section \<open>Configuration\<close>

record WorkerConfig =
  wc_name :: "string option"
  wc_hostname :: "string option"
  wc_manager :: string
  wc_token :: string
  wc_labels :: "string list"
  wc_max_concurrency :: nat
  wc_log_dir :: string
  wc_scripts_image :: string

definition default_scripts_image :: string where
  "default_scripts_image = ''ghcr.io/palvef/synora-scripts:latest''"

definition config_checked :: "WorkerConfig option \<Rightarrow> string + WorkerConfig" where
  "config_checked cfg =
     (case cfg of
        None \<Rightarrow> Err ''config needs a [worker] section with manager + token''
      | Some c \<Rightarrow> if wc_manager c = [] \<or> wc_token c = [] then Err ''[worker] requires `manager` (URL) and `token`'' else Ok c)"

definition register_request :: "WorkerConfig \<Rightarrow> string option \<Rightarrow> string \<Rightarrow> RegisterRequest" where
  "register_request cfg env_hostname version =
     \<lparr>rq_name = wc_name cfg, rq_hostname = opt_default ''localhost'' (coalesce (wc_hostname cfg) env_hostname), rq_address = [],
      rq_version = version, rq_labels = wc_labels cfg, rq_max_concurrency = Some (Some (wc_max_concurrency cfg))\<rparr>"

definition scripts_image :: "WorkerConfig \<Rightarrow> string" where
  "scripts_image cfg = (let image = trim (wc_scripts_image cfg) in if image = [] then default_scripts_image else image)"

text \<open>The configuration file that is found first.\<close>

definition find_config :: "(string \<Rightarrow> bool) \<Rightarrow> string option \<Rightarrow> string + string" where
  "find_config file_exists explicit =
     (case explicit of
        Some p \<Rightarrow> if file_exists p then Ok p else Err (''config file not found: '' @ p)
      | None \<Rightarrow>
          (case find file_exists [''synora.toml'', ''config/synora.toml'', ''/etc/synora/synora.toml''] of
             Some p \<Rightarrow> Ok p
           | None \<Rightarrow> Err ''no config file found (use -c PATH)''))"

section \<open>State\<close>

definition HEARTBEAT_SAFETY_SECS :: int where "HEARTBEAT_SAFETY_SECS = 240"

definition MAX_CLAIMS_PER_HEARTBEAT :: nat where "MAX_CLAIMS_PER_HEARTBEAT = 4"

record Running =
  rn_lease_token :: string
  rn_job :: string
  rn_usage :: ResourceUsage

record task =
  tk_assignment :: RunAssignment
  tk_cancelled :: bool
  tk_timed_out :: bool
  tk_outcome :: "RunOutcome option"   \<comment> \<open>\<open>None\<close> while \<open>run_once\<close> runs\<close>

record worker_state =
  ws_running :: "(string \<times> Running) list"
  ws_tasks :: "(string \<times> task) list"
  ws_shutdown :: bool
  ws_deadline :: int

definition worker_boot :: "int \<Rightarrow> worker_state" where
  "worker_boot now = \<lparr>ws_running = [], ws_tasks = [], ws_shutdown = False, ws_deadline = now + HEARTBEAT_SAFETY_SECS\<rparr>"

definition request_shutdown :: "worker_state \<Rightarrow> worker_state" where
  "request_shutdown w = w\<lparr>ws_shutdown := True\<rparr>"

definition running_tokens :: "worker_state \<Rightarrow> string set" where
  "running_tokens w = rn_lease_token ` snd ` set (ws_running w)"

definition cancel_tasks :: "bool \<Rightarrow> string set \<Rightarrow> (string \<times> task) list \<Rightarrow> (string \<times> task) list" where
  "cancel_tasks timed_out ts =
     map (\<lambda>(t, k). (t, if t \<in> ts \<and> \<not> tk_cancelled k then k\<lparr>tk_cancelled := True, tk_timed_out := tk_timed_out k \<or> timed_out\<rparr> else k))"

section \<open>The safety deadline\<close>

definition watchdog :: "int \<Rightarrow> worker_state \<Rightarrow> worker_state" where
  "watchdog now w =
     (if ws_deadline w \<le> now then w\<lparr>ws_tasks := cancel_tasks True (running_tokens w) (ws_tasks w)\<rparr> else w)"

section \<open>The heartbeat\<close>

text \<open>The last lines of the last bytes of a log; \<open>None\<close> when it cannot be read.\<close>

definition tail_run_log :: "string option \<Rightarrow> nat \<Rightarrow> nat \<Rightarrow> string option" where
  "tail_run_log content max_lines max_bytes =
     map_option (\<lambda>s. join_with [CHR 0x0A] (rev (take max_lines (rev (str_lines (drop (length s - min (length s) max_bytes) s)))))) content"

definition resource_sample :: "Running \<Rightarrow> JobResourceSample option" where
  "resource_sample r =
     (let u = rn_usage r
      in if ru_memory_bytes u \<noteq> None \<or> ru_cpu_seconds u \<noteq> None \<or> ru_cpu_percent u \<noteq> None \<or> ru_bandwidth_bytes u \<noteq> None
         then Some \<lparr>js_job = rn_job r, js_memory_bytes = ru_memory_bytes u, js_cpu_seconds = ru_cpu_seconds u,
                    js_cpu_percent = ru_cpu_percent u, js_bandwidth_bytes = ru_bandwidth_bytes u\<rparr>
         else None)"

text \<open>\<open>logs\<close> reads the log file of a job.\<close>

definition log_sample :: "(string \<Rightarrow> string option) \<Rightarrow> string \<times> Running \<Rightarrow> JobLogSample option" where
  "log_sample logs = (\<lambda>(i, r).
     map_option (\<lambda>content. \<lparr>ls_run_id = i, ls_job = rn_job r, ls_content = content\<rparr>) (tail_run_log (logs (rn_job r)) 200 (256 * 1024)))"

definition heartbeat_request :: "(string \<Rightarrow> string option) \<Rightarrow> worker_state \<Rightarrow> HeartbeatRequest" where
  "heartbeat_request logs w =
     \<lparr>hb_active_runs = map (\<lambda>(i, r). \<lparr>rl_run_id = i, rl_lease_token = rn_lease_token r\<rparr>) (ws_running w),
      hb_jobs_running = length (ws_running w),
      hb_resources = filter_map (resource_sample \<circ> snd) (ws_running w),
      hb_logs = filter_map (log_sample logs) (ws_running w)\<rparr>"

definition cancel_ids :: "HeartbeatResponse \<Rightarrow> string list" where
  "cancel_ids h = hr_cancel_runs h @ (case hr_cancel_run h of None \<Rightarrow> [] | Some i \<Rightarrow> [i])"

definition tokens_of :: "string list \<Rightarrow> worker_state \<Rightarrow> string set" where
  "tokens_of ids w = {rn_lease_token r | i r. i \<in> set ids \<and> map_of (ws_running w) i = Some r}"

text \<open>An answer to the heartbeat sent at \<open>sent\<close>: the deadline moves, and the runs it names are cancelled.\<close>

definition heartbeat_answered :: "int \<Rightarrow> HeartbeatResponse \<Rightarrow> worker_state \<Rightarrow> worker_state" where
  "heartbeat_answered sent h w =
     w\<lparr>ws_deadline := sent + HEARTBEAT_SAFETY_SECS, ws_tasks := cancel_tasks False (tokens_of (cancel_ids h) w) (ws_tasks w)\<rparr>"

section \<open>Claims\<close>

definition claim_params :: "string \<Rightarrow> string \<rightharpoonup> string" where
  "claim_params w = [''worker'' \<mapsto> w, ''protocol'' \<mapsto> ''2'']"

text \<open>The guards before a claim; the first that fails ends the loop over the offers.\<close>

definition may_claim :: "WorkerConfig \<Rightarrow> int \<Rightarrow> int \<Rightarrow> worker_state \<Rightarrow> bool" where
  "may_claim cfg sent now w \<longleftrightarrow>
     \<not> ws_shutdown w \<and> now - sent < HEARTBEAT_SAFETY_SECS \<and> length (ws_running w) < wc_max_concurrency cfg"

definition start_claimed :: "RunAssignment \<Rightarrow> worker_state \<Rightarrow> worker_state" where
  "start_claimed a w =
     w\<lparr>ws_running := assoc_insert (ra_run_id a)
         \<lparr>rn_lease_token = ra_lease_token a, rn_job = name (ra_job a), rn_usage = no_usage\<rparr> (ws_running w),
       ws_tasks := (ra_lease_token a, \<lparr>tk_assignment = a, tk_cancelled = False, tk_timed_out = False, tk_outcome = None\<rparr>) # ws_tasks w\<rparr>"

text \<open>\<open>Client::claim_run\<close>: a conflict is no error.\<close>

definition claim_reply :: "StatusCode + RunAssignment \<Rightarrow> StatusCode + RunAssignment option" where
  "claim_reply res = (case res of Inr a \<Rightarrow> Ok (Some a) | Inl c \<Rightarrow> if c = CONFLICT then Ok None else Err c)"

section \<open>The end of a run\<close>

definition outcome_status :: "JobSpec \<Rightarrow> ProviderError + SyncResult \<Rightarrow> string" where
  "outcome_status job res =
     (case res of
        Inr r \<Rightarrow> if sync_result_failure_reason job r = None
                 then (if res_status r = Some ''success_with_warnings'' then ''success_with_warnings'' else ''success'')
                 else ''failed''
      | Inl e \<Rightarrow> if e = PCancelled then ''cancelled'' else ''failed'')"

text \<open>\<open>measured\<close> and \<open>walked\<close> are the sizes read below the resolved path; \<open>tail\<close> is the text of the run's log.\<close>

definition outcome_to_complete :: "string \<Rightarrow> nat \<Rightarrow> JobSpec \<Rightarrow> RunOutcome \<Rightarrow> nat option \<Rightarrow> nat \<Rightarrow> string option \<Rightarrow> CompleteRequest" where
  "outcome_to_complete w attempt job out measured walked tail =
     (let res = out_result out; status = outcome_status job res;
          hint = (case res of Inr r \<Rightarrow> res_size_hint r | Inl _ \<Rightarrow> None)
      in \<lparr>cq_lease_token = [], cq_worker_id = w, cq_attempt = Some attempt, cq_status = status,
          cq_exit_code = (case res of Inr r \<Rightarrow> res_exit_code r | Inl _ \<Rightarrow> None), cq_size_before = None,
          cq_size_after = (if ok_status status
             then map_option u64_as_i64 (coalesce hint (coalesce measured (if statistics job = StatFilesystem then Some walked else None)))
             else None),
          cq_bytes_transferred = (case res of Inr r \<Rightarrow> map_option u64_as_i64 (res_bytes_transferred r) | Inl _ \<Rightarrow> None),
          cq_message = (case res of Inr r \<Rightarrow> coalesce (sync_result_failure_reason job r) (res_message r) | Inl e \<Rightarrow> Some (error_text e)),
          cq_log = tail_run_log tail 500 (512 * 1024), cq_memory_bytes = out_mem_peak out, cq_cpu_seconds = out_cpu_seconds out\<rparr>)"

text \<open>A safety stop is reported as a loss; the report carries the lease token.\<close>

definition completion_report :: "string \<Rightarrow> task \<Rightarrow> RunOutcome \<Rightarrow> nat option \<Rightarrow> nat \<Rightarrow> string option \<Rightarrow> CompleteRequest" where
  "completion_report w k out measured walked tail =
     (let a = tk_assignment k;
          req = outcome_to_complete w (ra_attempt a) (ra_job a) out measured walked tail;
          req = (if tk_timed_out k \<and> cq_status req = ''cancelled''
                 then req\<lparr>cq_status := ''lost'', cq_message := Some ''worker heartbeat safety deadline expired''\<rparr> else req)
      in req\<lparr>cq_lease_token := ra_lease_token a\<rparr>)"

text \<open>The attempts to report, \<open>oks n\<close> being the answer to attempt \<open>n\<close>: whether one succeeded, and the seconds slept.\<close>

function report_loop :: "(nat \<Rightarrow> bool) \<Rightarrow> nat \<Rightarrow> bool \<times> nat" where
  "report_loop oks attempt =
     (if 8 < attempt then (False, 0)
      else if oks attempt then (True, 0)
      else (case report_loop oks (Suc attempt) of (ok, slept) \<Rightarrow> (ok, 2 * attempt + slept)))"
  by pat_completeness auto

termination
  by (relation "measure (\<lambda>(_, n). 9 - n)") auto

declare report_loop.simps [simp del]

definition task_ended :: "string \<Rightarrow> RunOutcome \<Rightarrow> worker_state \<Rightarrow> worker_state" where
  "task_ended t out w = w\<lparr>ws_tasks := map (\<lambda>(t', k). (t', if t' = t then k\<lparr>tk_outcome := Some out\<rparr> else k)) (ws_tasks w)\<rparr>"

text \<open>The task leaves: the entry under its run id is removed.\<close>

definition task_left :: "string \<Rightarrow> worker_state \<Rightarrow> worker_state" where
  "task_left t w =
     (case map_of (ws_tasks w) t of
        None \<Rightarrow> w
      | Some k \<Rightarrow> w\<lparr>ws_running := assoc_retain (\<lambda>i. i \<noteq> ra_run_id (tk_assignment k)) (ws_running w),
                     ws_tasks := assoc_retain (\<lambda>t'. t' \<noteq> t) (ws_tasks w)\<rparr>)"

definition beat_delay :: "WorkerConfig \<Rightarrow> worker_state \<Rightarrow> int" where
  "beat_delay cfg w = (if length (ws_running w) < wc_max_concurrency cfg then 2 else 15)"

definition exits :: "worker_state \<Rightarrow> bool" where
  "exits w \<longleftrightarrow> ws_shutdown w \<and> ws_running w = []"

section \<open>Repository sizes\<close>

record RepoSizeSample =
  rz_path :: string
  rz_bytes :: nat

definition repo_size_line :: "string \<Rightarrow> RepoSizeSample option" where
  "repo_size_line line =
     (case split_char (CHR 0x09) line of
        a # b # _ \<Rightarrow>
          (case parse_unsigned u64_max a of
             None \<Rightarrow> None
           | Some bytes \<Rightarrow> let path = trim b in if path = [] \<or> path = ''/'' then None else Some \<lparr>rz_path = path, rz_bytes = bytes\<rparr>)
      | _ \<Rightarrow> None)"

definition collect_repo_sizes :: "string option \<Rightarrow> RepoSizeSample list" where
  "collect_repo_sizes out = (case out of None \<Rightarrow> [] | Some text \<Rightarrow> filter_map repo_size_line (str_lines text))"

end
