(* ===== verification/Tick_Laws.thy ===== *)
theory Tick_Laws
  imports Manager_Props
begin

text \<open>
  The scheduler's passes refine the run protocol: the dispatch of due schedules, the boot pass and the
  retry tick are sequences of its statements. With the requests and the reaper this covers everything
  that changes runs in a manager whose runs are executed by workers.
\<close>

section \<open>Passes over the schedules\<close>

lemma set_next_run_refines: "preserves (refines N T) (set_next_run job next anchor)"
proof -
  have "preserves (refines N T) (update_schedules p f)" for p f
    unfolding update_schedules_def [abs_def] by (rule commit_other) simp
  then show ?thesis unfolding set_next_run_def by (intro refine.keeps)
qed

lemma recompute_next_refines: "recompute_next E n now e = Some e' \<Longrightarrow> eng_refines N E e e'"
proof -
  have "eng_refines N E e (next_run_gauge E n x (on_db_ignored (set_next_run n x None) e))" for x
    unfolding next_run_gauge_def by (rule eng_refines_trans [OF eng_refines_ignored [OF set_next_run_refines] eng_metrics])
  then show "recompute_next E n now e = Some e' \<Longrightarrow> eng_refines N E e e'"
    by (auto simp: recompute_next_def eng.io_refl split: option.splits)
qed

lemma each_row_refines:
  assumes "\<And>k a b. step k a = Some b \<Longrightarrow> eng_refines N E a b" and "each_row step ks e = Some e'"
  shows "eng_refines N E e e'"
  using assms(2)
proof (induction ks arbitrary: e)
  case (Cons k ks)
  then obtain e1 where "step k e = Some e1" "each_row step ks e1 = Some e'" by (auto split: option.splits)
  then show ?case using assms(1) Cons.IH eng_refines_trans by blast
qed (simp add: eng.io_refl)

lemma dispatch_then_next: "recompute_next E n t (snd (dispatch_current E n f now e)) = Some e' \<Longrightarrow> eng_refines N E e e'"
  by (rule eng_refines_trans [OF eng_dispatch recompute_next_refines])

lemma dispatch_due_refines: "dispatch_due E now clk e = Some e' \<Longrightarrow> eng_refines N E e e'"
  unfolding dispatch_due_def
  by (erule each_row_refines [rotated])
     (auto simp: due_row_def eng.io_refl split: option.splits if_splits prod.splits intro: dispatch_then_next)

lemma boot_pass_refines: "boot_pass E boot now clk e = Some e' \<Longrightarrow> eng_refines N E e e'"
  unfolding boot_pass_def
  by (erule each_row_refines [rotated])
     (auto simp: boot_row_def eng.io_refl split: option.splits if_splits prod.splits intro: dispatch_then_next recompute_next_refines)

section \<open>The retry tick\<close>

lemma retry_row_refines:
  assumes "constraints (en_db e)" and "find_run (en_db e) (rr_id run) = Some r" and "r_status r = Retrying"
  shows "treaches N {} (en_db e) (en_db (retry_row now run e))"
proof -
  let ?d1 = "snd (finish_stmt (rr_id run) Cancelled (no_outcome (Some ''job disabled'')) now (en_db e))"
  have step: "timed_step N {} (en_db e) ?d1"
    by (rule timed_step.abandon_retry [OF assms(2)]) (simp add: assms(3))
  have "treaches N {} ?d1 (snd (set_job_status_for_run (rr_id run) ?d1))"
    using status_refines(2) timed.steps_valid [OF step assms(1)] by (simp add: preserves_def refines_def)
  with step have "treaches N {} (en_db e) (snd (finish_run (rr_id run) Cancelled (no_outcome (Some ''job disabled'')) now (en_db e)))"
    by (auto simp: finish_run_def seq_def split: prod.split sum.split intro: converse_rtranclp_into_rtranclp)
  moreover have "treaches N {} (en_db e) (snd (requeue_stmt (rr_id run) (rr_retry_count run) now (en_db e)))"
    by (rule r_into_rtranclp) (rule timed_step.requeue)
  ultimately show ?thesis by (simp add: retry_row_def)
qed

lemma retry_row_spares: "spares (rr_id run) (en_db e) (en_db (retry_row now run e))"
proof -
  have "preserves (spares (rr_id run)) (finish_stmt (rr_id run) s c now)" for s c
    unfolding finish_stmt_def by (rule spares_update) (auto simp: finished_def)
  then have "preserves (spares (rr_id run)) (finish_run (rr_id run) s c now)" for s c
    unfolding finish_run_def by (intro spare.keeps spares_status)
  moreover have "preserves (spares (rr_id run)) (requeue_stmt (rr_id run) n now)" for n
    unfolding requeue_stmt_def by (rule spares_update) auto
  ultimately show ?thesis by (simp add: retry_row_def preserves_def spare.rel_refl)
qed

lemma retry_fold_refines:
  assumes "constraints (en_db e)" and "distinct (map rr_id runs)"
    and "\<forall>run \<in> set runs. \<exists>r. find_run (en_db e) (rr_id run) = Some r \<and> r_status r = Retrying"
  shows "treaches N {} (en_db e) (en_db (fold (retry_row now) runs e))"
  using assms
proof (induction runs arbitrary: e)
  case (Cons run runs)
  let ?e1 = "retry_row now run e"
  obtain r where r: "find_run (en_db e) (rr_id run) = Some r" "r_status r = Retrying" using Cons.prems(3) by auto
  note one = retry_row_refines [OF Cons.prems(1) r, of N now]
  have "\<exists>r. find_run (en_db ?e1) (rr_id x) = Some r \<and> r_status r = Retrying" if x: "x \<in> set runs" for x
  proof -
    have "rr_id x \<noteq> rr_id run" using Cons.prems(2) imageI [OF x, of rr_id] by auto
    with Cons.prems(3) x show ?thesis using retry_row_spares [of run e now] by (auto simp: spares_def)
  qed
  with Cons.IH [of ?e1] Cons.prems(2) timed.reach_valid [OF one Cons.prems(1)] one show ?case by (auto intro: rtranclp_trans)
qed simp

lemma due_retries_rows:
  assumes "constraints d"
  shows "distinct (map rr_id (due_retries now d))"
    and "\<forall>run \<in> set (due_retries now d). \<exists>r. find_run d (rr_id run) = Some r \<and> r_status r = Retrying"
proof -
  have "distinct (map r_id (filter p (t_runs d)))" for p using constraints_run_ids [OF assms] by (simp add: distinct_map_filter)
  then have "distinct (map r_id (sort_key k (filter p (t_runs d))))" for k :: "run_rec \<Rightarrow> int \<times> int" and p
    by (simp add: distinct_map inj_on_def)
  then show "distinct (map rr_id (due_retries now d))" by (simp add: due_retries_def runs_where_def comp_def)
  show "\<forall>run \<in> set (due_retries now d). \<exists>r. find_run d (rr_id run) = Some r \<and> r_status r = Retrying"
    using find_run_iff [OF assms] by (fastforce simp: due_retries_def set_runs_where)
qed

lemma retry_tick_ids: "en_ids (retry_tick now e) = en_ids e"
proof -
  have "en_ids (fold (retry_row now) runs e) = en_ids e" for runs
    by (induction runs arbitrary: e) (simp_all add: retry_row_def on_db_ignored_def on_db_alt)
  then show ?thesis by (simp add: retry_tick_def)
qed

lemma retry_tick_refines: "eng_refines N E e (retry_tick now e)"
  using retry_fold_refines [OF _ due_retries_rows, of e N now] unfolding eng_steps_def drawn_def retry_tick_ids
  by (simp add: retry_tick_def)

end
