(* ===== verification/Worker_System.thy ===== *)
theory Worker_System
  imports Worker Tick_Laws
begin

text \<open>
  Manager and workers together. A step of the system is a request to the manager by anyone, an iteration
  of its reaper, a pass of its scheduler, or a step of a worker's main loop, watchdog or tasks. Time
  passes between steps, requests and answers of a worker may be lost, workers may crash and restart,
  and a completion report, once sent, may reach the manager at any later time and any number of times.

  The main result is that leases exclude each other across workers: while a task executes, its run is
  held at the manager, up to the end of the safety margin after the worker's deadline.
\<close>

section \<open>Steps\<close>

datatype phase =
    Waiting
  | Beating int HeartbeatRequest             \<comment> \<open>a heartbeat is on its way\<close>
  | Beaten int HeartbeatResponse             \<comment> \<open>its answer is on its way\<close>
  | Claiming int "RunAssignment list"        \<comment> \<open>the offers that are left\<close>
  | Claimed int "StatusCode + RunAssignment" "RunAssignment list"

record agent =
  ag_state :: worker_state
  ag_phase :: phase
  ag_config :: WorkerConfig
  ag_user :: AuthUser

record system =
  sy_now :: int
  sy_mgr :: manager
  sy_agents :: "string \<rightharpoonup> agent"
  sy_reports :: "(AuthUser \<times> string \<times> CompleteRequest) set"

definition set_agent :: "string \<Rightarrow> agent \<Rightarrow> system \<Rightarrow> system" where
  "set_agent w a s = s\<lparr>sy_agents := (sy_agents s)(w \<mapsto> a)\<rparr>"

definition mgr_planner :: "'tz mgr_env \<Rightarrow> manager \<Rightarrow> 'tz engine_env" where
  "mgr_planner M m = (m_engine M)\<lparr>planner := Some (pick (mg_picker m))\<rparr>"

text \<open>With \<open>strict\<close> no run is granted to a worker that still has an entry for it.\<close>

inductive sys_step :: "'tz mgr_env \<Rightarrow> bool \<Rightarrow> system \<Rightarrow> system \<Rightarrow> bool" for M strict where
  time: "sy_now s \<le> t \<Longrightarrow> sys_step M strict s (s\<lparr>sy_now := t\<rparr>)"
| request: "completes req = {} \<Longrightarrow>
    sys_step M strict s (s\<lparr>sy_mgr := snd (handle M fs dir tokens header req (sy_now s) (sy_mgr s))\<rparr>)"
| reaper: "sys_step M strict s (s\<lparr>sy_mgr := reaper_tick M (sy_now s) (sy_mgr s)\<rparr>)"
| due: "dispatch_due (mgr_planner M (sy_mgr s)) (sy_now s) clk (mg_engine (sy_mgr s)) = Some e \<Longrightarrow>
    sys_step M strict s (s\<lparr>sy_mgr := (sy_mgr s)\<lparr>mg_engine := e\<rparr>\<rparr>)"
| retry: "sys_step M strict s (s\<lparr>sy_mgr := (sy_mgr s)\<lparr>mg_engine := retry_tick (sy_now s) (mg_engine (sy_mgr s))\<rparr>\<rparr>)"
| boot: "w \<noteq> [] \<Longrightarrow> sys_step M strict s
    (set_agent w \<lparr>ag_state = worker_boot (sy_now s), ag_phase = Waiting, ag_config = cfg, ag_user = u\<rparr> s)"
| crash: "sys_step M strict s (s\<lparr>sy_agents := (sy_agents s)(w := None)\<rparr>)"
| watchdog: "sy_agents s w = Some a \<Longrightarrow>
    sys_step M strict s (set_agent w (a\<lparr>ag_state := watchdog (sy_now s) (ag_state a)\<rparr>) s)"
| shutdown: "sy_agents s w = Some a \<Longrightarrow>
    sys_step M strict s (set_agent w (a\<lparr>ag_state := request_shutdown (ag_state a)\<rparr>) s)"
| beat_send: "sy_agents s w = Some a \<Longrightarrow> ag_phase a = Waiting \<Longrightarrow>
    sys_step M strict s (set_agent w (a\<lparr>ag_phase := Beating (sy_now s) (heartbeat_request logs (ag_state a))\<rparr>) s)"
| beat_serve: "sy_agents s w = Some a \<Longrightarrow> ag_phase a = Beating sent body \<Longrightarrow>
    heartbeat M (ag_user a) w body (sy_now s) (sy_mgr s) = (Inr h, m') \<Longrightarrow>
    sys_step M strict s (set_agent w (a\<lparr>ag_phase := Beaten sent h\<rparr>) (s\<lparr>sy_mgr := m'\<rparr>))"
| beat_fail: "sy_agents s w = Some a \<Longrightarrow> ag_phase a = Beating sent body \<or> ag_phase a = Beaten sent h \<Longrightarrow>
    sys_step M strict s (set_agent w (a\<lparr>ag_phase := Waiting\<rparr>) s)"
| beat_answer: "sy_agents s w = Some a \<Longrightarrow> ag_phase a = Beaten sent h \<Longrightarrow>
    sys_step M strict s (set_agent w (a\<lparr>ag_state := heartbeat_answered sent h (ag_state a),
      ag_phase := Claiming sent (take MAX_CLAIMS_PER_HEARTBEAT (offered_assignments h))\<rparr>) s)"
| claim_serve: "sy_agents s w = Some a \<Longrightarrow> ag_phase a = Claiming sent (b # bs) \<Longrightarrow>
    may_claim (ag_config a) sent (sy_now s) (ag_state a) \<Longrightarrow>
    claim M (ag_user a) (ra_run_id b) (claim_params w) (sy_now s) (sy_mgr s) = (res, m') \<Longrightarrow>
    sys_step M strict s (set_agent w (a\<lparr>ag_phase := Claimed sent res bs\<rparr>) (s\<lparr>sy_mgr := m'\<rparr>))"
| claim_granted: "sy_agents s w = Some a \<Longrightarrow> ag_phase a = Claimed sent (Inr b) bs \<Longrightarrow>
    strict \<longrightarrow> ra_run_id b \<notin> fst ` set (ws_running (ag_state a)) \<Longrightarrow>
    sys_step M strict s (set_agent w (a\<lparr>ag_state := start_claimed b (ag_state a), ag_phase := Claiming sent bs\<rparr>) s)"
| claim_fail: "sy_agents s w = Some a \<Longrightarrow> ag_phase a = Claimed sent res bs \<or> ag_phase a = Claiming sent (b # bs) \<Longrightarrow>
    sys_step M strict s (set_agent w (a\<lparr>ag_phase := Claiming sent bs\<rparr>) s)"
| claims_end: "sy_agents s w = Some a \<Longrightarrow> ag_phase a = Claiming sent bs \<Longrightarrow>
    bs = [] \<or> \<not> may_claim (ag_config a) sent (sy_now s) (ag_state a) \<Longrightarrow>
    sys_step M strict s (set_agent w (a\<lparr>ag_phase := Waiting\<rparr>) s)"
| task_end: "sy_agents s w = Some a \<Longrightarrow> map_of (ws_tasks (ag_state a)) t = Some k \<Longrightarrow> tk_outcome k = None \<Longrightarrow>
    sys_step M strict s (set_agent w (a\<lparr>ag_state := task_ended t out (ag_state a)\<rparr>) s)"
| report: "sy_agents s w = Some a \<Longrightarrow> map_of (ws_tasks (ag_state a)) t = Some k \<Longrightarrow> tk_outcome k = Some out \<Longrightarrow>
    sys_step M strict s (s\<lparr>sy_reports := insert (ag_user a, ra_run_id (tk_assignment k),
      completion_report w k out measured walked tail) (sy_reports s)\<rparr>)"
| report_serve: "(u, i, body) \<in> sy_reports s \<Longrightarrow>
    sys_step M strict s (s\<lparr>sy_mgr := snd (complete M u i body (sy_now s) (sy_mgr s))\<rparr>)"
| leave: "sy_agents s w = Some a \<Longrightarrow> map_of (ws_tasks (ag_state a)) t = Some k \<Longrightarrow> tk_outcome k \<noteq> None \<Longrightarrow>
    sys_step M strict s (set_agent w (a\<lparr>ag_state := task_left t (ag_state a)\<rparr>) s)"

section \<open>Invariant\<close>

definition SAFETY_MARGIN :: int where "SAFETY_MARGIN = RUN_LEASE_SECS - HEARTBEAT_SAFETY_SECS"

text \<open>An identifier that will not be drawn any more.\<close>

definition old_id :: "'tz mgr_env \<Rightarrow> manager \<Rightarrow> string \<Rightarrow> bool" where
  "old_id M m x \<longleftrightarrow> (\<forall>n \<ge> en_ids (mg_engine m). run_id (m_engine M) n \<noteq> x)"

definition tracked :: "'tz mgr_env \<Rightarrow> manager \<Rightarrow> RunAssignment \<Rightarrow> bool" where
  "tracked M m b \<longleftrightarrow> old_id M m (ra_run_id b) \<and> old_id M m (ra_lease_token b)
     \<and> (\<forall>r. find_run (mdb m) (ra_run_id b) = Some r \<longrightarrow> r_job_id r = name (ra_job b))"

text \<open>Until \<open>l\<close> the manager keeps the run, if it still exists, for this claim.\<close>

definition held :: "manager \<Rightarrow> int \<Rightarrow> int \<Rightarrow> string \<Rightarrow> RunAssignment \<Rightarrow> bool" where
  "held m now l w b \<longleftrightarrow> (now < l \<longrightarrow> (\<forall>r. find_run (mdb m) (ra_run_id b) = Some r \<longrightarrow>
     active (r_status r) \<and> r_lease_token r = Some (ra_lease_token b) \<and> r_worker_id r = Some w
     \<and> (\<exists>e. r_lease_expires_at r = Some e \<and> l \<le> e)))"

definition executing_task :: "task \<Rightarrow> bool" where
  "executing_task k \<longleftrightarrow> tk_outcome k = None \<and> \<not> tk_cancelled k"

definition tasks_ok :: "worker_state \<Rightarrow> bool" where
  "tasks_ok st \<longleftrightarrow> distinct (map fst (ws_running st)) \<and> distinct (map fst (ws_tasks st))
     \<and> (\<forall>(t, k) \<in> set (ws_tasks st). t = ra_lease_token (tk_assignment k)
          \<and> (\<exists>r. (ra_run_id (tk_assignment k), r) \<in> set (ws_running st) \<and> rn_lease_token r = t))"

definition phase_ok :: "'tz mgr_env \<Rightarrow> manager \<Rightarrow> int \<Rightarrow> string \<Rightarrow> worker_state \<Rightarrow> phase \<Rightarrow> bool" where
  "phase_ok M m now w st p \<longleftrightarrow>
     (case p of
        Waiting \<Rightarrow> True
      | Beating sent body \<Rightarrow> sent \<le> now \<and> distinct (map rl_run_id (hb_active_runs body))
          \<and> (\<forall>(i, r) \<in> set (ws_running st). \<lparr>rl_run_id = i, rl_lease_token = rn_lease_token r\<rparr> \<in> set (hb_active_runs body))
      | Beaten sent h \<Rightarrow> sent \<le> now \<and> (\<forall>(t, k) \<in> set (ws_tasks st). executing_task k
          \<and> ra_run_id (tk_assignment k) \<notin> set (hr_cancel_runs h) \<longrightarrow> held m now (sent + RUN_LEASE_SECS) w (tk_assignment k))
      | Claiming sent bs \<Rightarrow> sent \<le> now \<and> ws_deadline st = sent + HEARTBEAT_SAFETY_SECS
      | Claimed sent res bs \<Rightarrow> sent \<le> now \<and> ws_deadline st = sent + HEARTBEAT_SAFETY_SECS
          \<and> (\<forall>b. res = Inr b \<longrightarrow> tracked M m b \<and> held m now (sent + RUN_LEASE_SECS) w b))"

definition agent_ok :: "'tz mgr_env \<Rightarrow> manager \<Rightarrow> int \<Rightarrow> string \<Rightarrow> agent \<Rightarrow> bool" where
  "agent_ok M m now w a \<longleftrightarrow> w \<noteq> [] \<and> tasks_ok (ag_state a) \<and> ws_deadline (ag_state a) \<le> now + HEARTBEAT_SAFETY_SECS
     \<and> (\<forall>(t, k) \<in> set (ws_tasks (ag_state a)). tracked M m (tk_assignment k)
          \<and> (executing_task k \<longrightarrow> held m now (ws_deadline (ag_state a) + SAFETY_MARGIN) w (tk_assignment k)))
     \<and> phase_ok M m now w (ag_state a) (ag_phase a)"

text \<open>The lease tokens that an agent has: those of its tasks, and the one of an answer on its way.\<close>

definition pending_tokens :: "phase \<Rightarrow> string set" where
  "pending_tokens p = (case p of Claimed _ (Inr b) _ \<Rightarrow> {ra_lease_token b} | _ \<Rightarrow> {})"

definition agent_tokens :: "agent \<Rightarrow> string set" where
  "agent_tokens a = fst ` set (ws_tasks (ag_state a)) \<union> pending_tokens (ag_phase a)"

definition live_tokens :: "agent \<Rightarrow> string set" where
  "live_tokens a = {t. \<exists>k. (t, k) \<in> set (ws_tasks (ag_state a)) \<and> tk_outcome k = None} \<union> pending_tokens (ag_phase a)"

definition tokens_apart :: "system \<Rightarrow> bool" where
  "tokens_apart s \<longleftrightarrow> (\<forall>w w' a a'. sy_agents s w = Some a \<and> sy_agents s w' = Some a' \<and> w \<noteq> w' \<longrightarrow> agent_tokens a \<inter> agent_tokens a' = {})
     \<and> (\<forall>w a. sy_agents s w = Some a \<longrightarrow> fst ` set (ws_tasks (ag_state a)) \<inter> pending_tokens (ag_phase a) = {})"

text \<open>A report is of a task that has ended.\<close>

definition reports_ok :: "'tz mgr_env \<Rightarrow> system \<Rightarrow> bool" where
  "reports_ok M s \<longleftrightarrow> (\<forall>(u, i, body) \<in> sy_reports s. old_id M (sy_mgr s) (cq_lease_token body)
     \<and> (\<forall>w a. sy_agents s w = Some a \<longrightarrow> cq_lease_token body \<notin> live_tokens a))"

definition sys_inv :: "'tz mgr_env \<Rightarrow> system \<Rightarrow> bool" where
  "sys_inv M s \<longleftrightarrow> constraints (mdb (sy_mgr s)) \<and> ids_fresh (m_engine M) (mg_engine (sy_mgr s))
     \<and> (\<forall>w a. sy_agents s w = Some a \<longrightarrow> agent_ok M (sy_mgr s) (sy_now s) w a) \<and> tokens_apart s \<and> reports_ok M s"

lemma sys_invD:
  assumes "sys_inv M s"
  shows "constraints (mdb (sy_mgr s))" and "ids_fresh (m_engine M) (mg_engine (sy_mgr s))"
    and "sy_agents s w = Some a \<Longrightarrow> agent_ok M (sy_mgr s) (sy_now s) w a" and "tokens_apart s" and "reports_ok M s"
  using assms by (simp_all add: sys_inv_def)

lemma tokens_apartD:
  assumes "tokens_apart s" and "sy_agents s w = Some a"
  shows "sy_agents s w' = Some a' \<Longrightarrow> w \<noteq> w' \<Longrightarrow> agent_tokens a \<inter> agent_tokens a' = {}"
    and "fst ` set (ws_tasks (ag_state a)) \<inter> pending_tokens (ag_phase a) = {}"
  using assms unfolding tokens_apart_def by blast+

lemma reports_okD:
  assumes "reports_ok M s" and "(u, i, body) \<in> sy_reports s"
  shows "old_id M (sy_mgr s) (cq_lease_token body)" and "sy_agents s w = Some a \<Longrightarrow> cq_lease_token body \<notin> live_tokens a"
  using assms unfolding reports_ok_def by blast+

section \<open>What the manager keeps\<close>

lemma treaches_lease:
  assumes "treaches (now, K) T d d'" and "constraints d" and "i \<notin> K" and "i \<notin> T" and "find_run d i = Some r" and "live_lease now r"
  shows "find_run d' i = None \<or> (\<exists>r'. find_run d' i = Some r' \<and> lease_kept now r r')"
  using assms(1)
proof (induction rule: rtranclp_induct)
  case base
  then show ?case using assms(5) lease_kept_refl [OF assms(6)] by blast
next
  case (step y z)
  have c: "constraints y" using timed.reach_valid [OF step.hyps(1) assms(2)] .
  from step.IH show ?case
  proof
    assume "find_run y i = None"
    then show ?thesis using timed.steps_gone [OF step.hyps(2) c assms(4)] by blast
  next
    assume "\<exists>r'. find_run y i = Some r' \<and> lease_kept now r r'"
    then obtain q where q: "find_run y i = Some q" "lease_kept now r q" by blast
    from timed_lease [OF step.hyps(2) c assms(3) q(1) lease_kept_live [OF assms(6) q(2)]] q(2) show ?thesis
      by (blast intro: lease_kept_trans)
  qed
qed

lemma old_id_not_drawn: "old_id M m x \<Longrightarrow> x \<notin> drawn (m_engine M) (mg_engine m) e"
  by (auto simp: old_id_def drawn_def)

lemma old_id_mono: "mgr_refines N M m m' \<Longrightarrow> old_id M m x \<Longrightarrow> old_id M m' x"
  by (auto simp: old_id_def mgr_refines_def eng_steps_def)

lemma mgr_tracked:
  assumes "mgr_refines N M m m'" and "constraints (mdb m)" and "ids_fresh (m_engine M) (mg_engine m)" and "tracked M m b"
  shows "tracked M m' b"
proof -
  let ?T = "drawn (m_engine M) (mg_engine m) (mg_engine m')" and ?i = "ra_run_id b"
  have "eng_steps mgr_step (m_engine M) (mg_engine m) (mg_engine m')" using assms(1) eng_refines_plain unfolding mgr_refines_def by blast
  then have r: "reaches ?T (mdb m) (mdb m')" using assms(2,3) by (simp add: eng_steps_def)
  have "?i \<notin> ?T" using assms(4) old_id_not_drawn by (auto simp: tracked_def)
  moreover have "find_run (mdb m) ?i = None \<or> (\<exists>r. find_run (mdb m) ?i = Some r \<and> r_job_id r = name (ra_job b))"
    using assms(4) by (cases "find_run (mdb m) ?i") (auto simp: tracked_def)
  ultimately have "find_run (mdb m') ?i = None \<or> (\<exists>r. find_run (mdb m') ?i = Some r \<and> r_job_id r = name (ra_job b))"
    using reaches_follow [OF r assms(2), of ?i "\<lambda>r. r_job_id r = name (ra_job b)"] run_step_identity by auto
  with assms(1,4) show ?thesis by (auto simp: tracked_def intro: old_id_mono)
qed

lemma mgr_held:
  assumes "mgr_refines (now, K) M m m'" and "constraints (mdb m)" and "ids_fresh (m_engine M) (mg_engine m)"
    and "now < l \<Longrightarrow> ra_run_id b \<notin> K" and "old_id M m (ra_run_id b)" and "l \<le> now + RUN_LEASE_SECS" and "held m now l w b"
  shows "held m' now l w b"
  unfolding held_def
proof (intro impI allI)
  let ?T = "drawn (m_engine M) (mg_engine m) (mg_engine m')" and ?i = "ra_run_id b"
  fix r' assume now: "now < l" and r': "find_run (mdb m') ?i = Some r'"
  have t: "treaches (now, K) ?T (mdb m) (mdb m')" using assms(1-3) by (simp add: mgr_refines_def eng_steps_def)
  note T = old_id_not_drawn [OF assms(5)]
  obtain r where r: "find_run (mdb m) ?i = Some r"
    using timed.reach_gone [OF t assms(2) T] r' by (cases "find_run (mdb m) ?i") auto
  with assms(7) now obtain e where h: "active (r_status r)" "r_lease_token r = Some (ra_lease_token b)" "r_worker_id r = Some w"
    "r_lease_expires_at r = Some e" "l \<le> e" by (auto simp: held_def)
  then have "live_lease now r" using now by (simp add: live_lease_def)
  from treaches_lease [OF t assms(2) assms(4) [OF now] T r this] r' have "lease_kept now r r'" by simp
  with h assms(6) show "active (r_status r') \<and> r_lease_token r' = Some (ra_lease_token b) \<and> r_worker_id r' = Some w
      \<and> (\<exists>e. r_lease_expires_at r' = Some e \<and> l \<le> e)"
    by (auto simp: lease_kept_def)
qed

lemma held_later: "held m now l w b \<Longrightarrow> now \<le> now' \<Longrightarrow> held m now' l w b"
  by (auto simp: held_def)

lemma agent_okD:
  assumes "agent_ok M m now w a"
  shows "w \<noteq> []" and "tasks_ok (ag_state a)" and "ws_deadline (ag_state a) \<le> now + HEARTBEAT_SAFETY_SECS"
    and "phase_ok M m now w (ag_state a) (ag_phase a)"
    and "(t, k) \<in> set (ws_tasks (ag_state a)) \<Longrightarrow> tracked M m (tk_assignment k)"
    and "(t, k) \<in> set (ws_tasks (ag_state a)) \<Longrightarrow> executing_task k \<Longrightarrow>
      held m now (ws_deadline (ag_state a) + SAFETY_MARGIN) w (tk_assignment k)"
  using assms unfolding agent_ok_def by blast+

lemma agent_okI:
  assumes "w \<noteq> []" and "tasks_ok (ag_state a)" and "ws_deadline (ag_state a) \<le> now + HEARTBEAT_SAFETY_SECS"
    and "phase_ok M m now w (ag_state a) (ag_phase a)"
    and "\<And>t k. (t, k) \<in> set (ws_tasks (ag_state a)) \<Longrightarrow> tracked M m (tk_assignment k)"
    and "\<And>t k. (t, k) \<in> set (ws_tasks (ag_state a)) \<Longrightarrow> executing_task k \<Longrightarrow>
      held m now (ws_deadline (ag_state a) + SAFETY_MARGIN) w (tk_assignment k)"
  shows "agent_ok M m now w a"
  using assms unfolding agent_ok_def by blast

text \<open>The claims that an agent counts on. A manager step that completes none of their runs keeps the agent's invariant.\<close>

definition live_claims :: "agent \<Rightarrow> RunAssignment set" where
  "live_claims a = {tk_assignment k | t k. (t, k) \<in> set (ws_tasks (ag_state a)) \<and> executing_task k}
     \<union> (case ag_phase a of Claimed _ (Inr b) _ \<Rightarrow> {b} | _ \<Rightarrow> {})"

lemma live_claims_tokens:
  assumes "tasks_ok (ag_state a)" and "b \<in> live_claims a"
  shows "ra_lease_token b \<in> live_tokens a"
proof -
  have "t = ra_lease_token (tk_assignment k)" if "(t, k) \<in> set (ws_tasks (ag_state a))" for t k
    using assms(1) that unfolding tasks_ok_def by blast
  with assms(2) show ?thesis
    by (auto simp: live_claims_def live_tokens_def pending_tokens_def executing_task_def split: phase.splits sum.splits)
qed

lemma agent_ok_mgr:
  assumes "agent_ok M m now w a" and "mgr_refines (now, K) M m m'" and "constraints (mdb m)" and "ids_fresh (m_engine M) (mg_engine m)"
    and "\<And>b l. b \<in> live_claims a \<Longrightarrow> held m now l w b \<Longrightarrow> now < l \<Longrightarrow> ra_run_id b \<notin> K"
  shows "agent_ok M m' now w a"
proof -
  let ?st = "ag_state a"
  note ok = agent_okD [OF assms(1)] and tr' = mgr_tracked [OF assms(2-4)]
  have keep: "held m' now l w b" if "b \<in> live_claims a" "tracked M m b" "l \<le> now + RUN_LEASE_SECS" "held m now l w b" for b l
    using mgr_held [OF assms(2-4) assms(5) [OF that(1,4)] _ that(3,4)] that(2) by (simp add: tracked_def)
  have task: "tk_assignment k \<in> live_claims a" if "(t, k) \<in> set (ws_tasks ?st)" "executing_task k" for t k
    using that by (auto simp: live_claims_def)
  have "phase_ok M m' now w ?st (ag_phase a)"
  proof (cases "ag_phase a")
    case (Beaten sent h)
    then have b: "sent \<le> now" "\<And>t k. (t, k) \<in> set (ws_tasks ?st) \<Longrightarrow> executing_task k \<Longrightarrow> ra_run_id (tk_assignment k) \<notin> set (hr_cancel_runs h) \<Longrightarrow>
      held m now (sent + RUN_LEASE_SECS) w (tk_assignment k)" using ok(4) by (auto simp: phase_ok_def)
    then have "held m' now (sent + RUN_LEASE_SECS) w (tk_assignment k)" if "(t, k) \<in> set (ws_tasks ?st)" "executing_task k"
      "ra_run_id (tk_assignment k) \<notin> set (hr_cancel_runs h)" for t k using keep [OF task [OF that(1,2)] ok(5) [OF that(1)]] that by simp
    with b(1) show ?thesis unfolding Beaten phase_ok_def phase.case by blast
  next
    case (Claimed sent res bs)
    have "tracked M m' b \<and> held m' now (sent + RUN_LEASE_SECS) w b" if "res = Inr b" for b
    proof -
      have b: "tracked M m b" "held m now (sent + RUN_LEASE_SECS) w b" "sent \<le> now" using ok(4) Claimed that by (auto simp: phase_ok_def)
      have k: "b \<in> live_claims a" using Claimed that by (auto simp: live_claims_def)
      from tr' [OF b(1)] keep [OF k b(1) _ b(2)] b(3) show ?thesis by simp
    qed
    with ok(4) show ?thesis unfolding Claimed phase_ok_def phase.case by blast
  qed (use ok(4) in \<open>auto simp: phase_ok_def\<close>)
  moreover have "held m' now (ws_deadline ?st + SAFETY_MARGIN) w (tk_assignment k)" if "(t, k) \<in> set (ws_tasks ?st)" "executing_task k" for t k
    using keep [OF task [OF that] ok(5) [OF that(1)] _ ok(6) [OF that]] ok(3) by (simp add: SAFETY_MARGIN_def)
  ultimately show ?thesis using ok(1-3) ok(5) tr' by (intro agent_okI) blast+
qed

lemma agent_ok_later:
  assumes "agent_ok M m now w a" and "now \<le> now'"
  shows "agent_ok M m now' w a"
proof -
  have "phase_ok M m now' w (ag_state a) (ag_phase a)"
    using assms held_later [OF _ assms(2)] by (auto simp: agent_ok_def phase_ok_def split: phase.splits)
  moreover have "held m now' l w (tk_assignment k)" if "held m now l w (tk_assignment k)" for l k using held_later [OF that assms(2)] .
  ultimately show ?thesis using assms unfolding agent_ok_def by fastforce
qed

section \<open>Preservation\<close>

lemma sys_inv_mgr:
  assumes "sys_inv M s" and "mgr_refines (sy_now s, K) M (sy_mgr s) m'"
    and "\<And>w a b l. sy_agents s w = Some a \<Longrightarrow> b \<in> live_claims a \<Longrightarrow> held (sy_mgr s) (sy_now s) l w b \<Longrightarrow> sy_now s < l \<Longrightarrow> ra_run_id b \<notin> K"
  shows "sys_inv M (s\<lparr>sy_mgr := m'\<rparr>)"
  unfolding sys_inv_def
proof (intro conjI allI impI)
  note inv = sys_invD [OF assms(1)]
  have fresh: "constraints (mdb m') \<and> ids_fresh (m_engine M) (mg_engine m')"
    using eng_refines_fresh [OF assms(2) [unfolded mgr_refines_def] inv(1,2)] .
  then show "constraints (mdb (sy_mgr (s\<lparr>sy_mgr := m'\<rparr>)))" "ids_fresh (m_engine M) (mg_engine (sy_mgr (s\<lparr>sy_mgr := m'\<rparr>)))" by simp_all
  show "agent_ok M (sy_mgr (s\<lparr>sy_mgr := m'\<rparr>)) (sy_now (s\<lparr>sy_mgr := m'\<rparr>)) w a" if "sy_agents (s\<lparr>sy_mgr := m'\<rparr>) w = Some a" for w a
    using agent_ok_mgr [OF inv(3) assms(2) inv(1,2) assms(3), of w a] that by simp
  show "tokens_apart (s\<lparr>sy_mgr := m'\<rparr>)" using inv(4) by (simp add: tokens_apart_def)
  show "reports_ok M (s\<lparr>sy_mgr := m'\<rparr>)" using inv(5) old_id_mono [OF assms(2)] unfolding reports_ok_def by simp blast
qed

lemma sys_inv_set:
  assumes "sys_inv M s" and "agent_ok M (sy_mgr s) (sy_now s) w a'" and "fst ` set (ws_tasks (ag_state a')) \<inter> pending_tokens (ag_phase a') = {}"
    and "\<And>v b. v \<noteq> w \<Longrightarrow> sy_agents s v = Some b \<Longrightarrow> agent_tokens a' \<inter> agent_tokens b = {}"
    and "\<And>u i body. (u, i, body) \<in> sy_reports s \<Longrightarrow> cq_lease_token body \<notin> live_tokens a'"
  shows "sys_inv M (set_agent w a' s)"
  unfolding sys_inv_def
proof (intro conjI allI impI)
  note inv = sys_invD [OF assms(1)] and ap = tokens_apartD [OF sys_invD(4) [OF assms(1)]]
  show "constraints (mdb (sy_mgr (set_agent w a' s)))" "ids_fresh (m_engine M) (mg_engine (sy_mgr (set_agent w a' s)))"
    using inv(1,2) by (simp_all add: set_agent_def)
  show "agent_ok M (sy_mgr (set_agent w a' s)) (sy_now (set_agent w a' s)) v b" if "sy_agents (set_agent w a' s) v = Some b" for v b
    using that inv(3) [of v b] assms(2) by (cases "v = w") (simp_all add: set_agent_def)
  have "agent_tokens b \<inter> agent_tokens b' = {}"
    if "sy_agents (set_agent w a' s) v = Some b" "sy_agents (set_agent w a' s) v' = Some b'" "v \<noteq> v'" for v v' b b'
    using that ap(1) [of v b v' b'] assms(4) [of v b] assms(4) [of v' b']
    by (cases "v = w"; cases "v' = w") (simp_all add: set_agent_def Int_commute)
  moreover have "fst ` set (ws_tasks (ag_state b)) \<inter> pending_tokens (ag_phase b) = {}" if "sy_agents (set_agent w a' s) v = Some b" for v b
    using that ap(2) [of v b] assms(3) by (cases "v = w") (simp_all add: set_agent_def)
  ultimately show "tokens_apart (set_agent w a' s)" unfolding tokens_apart_def by blast
  have "cq_lease_token body \<notin> live_tokens b" if "(u, i, body) \<in> sy_reports s" "sy_agents (set_agent w a' s) v = Some b" for u i body v b
    using that reports_okD(2) [OF inv(5) that(1), of v b] assms(5) [OF that(1)] by (cases "v = w") (simp_all add: set_agent_def)
  moreover have "old_id M (sy_mgr s) (cq_lease_token body)" if "(u, i, body) \<in> sy_reports s" for u i body
    using reports_okD(1) [OF inv(5) that] .
  moreover have "sy_mgr (set_agent w a' s) = sy_mgr s" "sy_reports (set_agent w a' s) = sy_reports s" by (simp_all add: set_agent_def)
  ultimately show "reports_ok M (set_agent w a' s)" unfolding reports_ok_def by auto
qed

text \<open>Steps of an agent that get no new lease.\<close>

lemma sys_inv_shrink:
  assumes "sys_inv M s" and "sy_agents s w = Some a" and "agent_ok M (sy_mgr s) (sy_now s) w a'"
    and "fst ` set (ws_tasks (ag_state a')) \<subseteq> fst ` set (ws_tasks (ag_state a))" and "pending_tokens (ag_phase a') \<subseteq> pending_tokens (ag_phase a)"
    and "live_tokens a' \<subseteq> live_tokens a"
  shows "sys_inv M (set_agent w a' s)"
proof (rule sys_inv_set [OF assms(1,3)])
  note ap = tokens_apartD [OF sys_invD(4) [OF assms(1)] assms(2)]
  show "fst ` set (ws_tasks (ag_state a')) \<inter> pending_tokens (ag_phase a') = {}" using ap(2) assms(4,5) by blast
  have sub: "agent_tokens a' \<subseteq> agent_tokens a" using assms(4,5) by (auto simp: agent_tokens_def)
  show "agent_tokens a' \<inter> agent_tokens b = {}" if "v \<noteq> w" "sy_agents s v = Some b" for v b
    using ap(1) [OF that(2)] that(1) sub by blast
  show "cq_lease_token body \<notin> live_tokens a'" if "(u, i, body) \<in> sy_reports s" for u i body
    using reports_okD(2) [OF sys_invD(5) [OF assms(1)] that assms(2)] assms(6) by blast
qed

section \<open>The worker's own steps\<close>

lemma in_map_snd: "(t, k') \<in> set (map (\<lambda>(t, k). (t, g t k)) ks) \<longleftrightarrow> (\<exists>k. (t, k) \<in> set ks \<and> k' = g t k)"
  by force

lemma set_cancel_tasks:
  "(t, k') \<in> set (cancel_tasks b ts ks) \<longleftrightarrow> (\<exists>k. (t, k) \<in> set ks \<and> k' = (if t \<in> ts \<and> \<not> tk_cancelled k
     then k\<lparr>tk_cancelled := True, tk_timed_out := tk_timed_out k \<or> b\<rparr> else k))"
  unfolding cancel_tasks_def by (rule in_map_snd)

lemma cancel_tasks_fst: "map fst (cancel_tasks b ts ks) = map fst ks"
  by (simp add: cancel_tasks_def case_prod_beta comp_def)

lemma cancel_live:
  assumes "(t, k') \<in> set (cancel_tasks b ts ks)"
  obtains k where "(t, k) \<in> set ks" and "tk_assignment k' = tk_assignment k" and "tk_outcome k' = tk_outcome k"
    and "executing_task k' \<Longrightarrow> executing_task k \<and> t \<notin> ts"
proof -
  obtain k where k: "(t, k) \<in> set ks" "k' = (if t \<in> ts \<and> \<not> tk_cancelled k
     then k\<lparr>tk_cancelled := True, tk_timed_out := tk_timed_out k \<or> b\<rparr> else k)" using assms unfolding set_cancel_tasks by blast
  show thesis
    by (cases "t \<in> ts \<and> \<not> tk_cancelled k") (auto intro!: that [OF k(1)] simp: k(2) executing_task_def)
qed

lemma tasks_ok_cancel: "tasks_ok st \<Longrightarrow> tasks_ok (st\<lparr>ws_tasks := cancel_tasks b ts (ws_tasks st)\<rparr>)"
  unfolding tasks_ok_def by (auto simp: cancel_tasks_fst elim!: cancel_live)

lemma live_tokens_cancel:
  assumes "ws_tasks (ag_state a') = cancel_tasks b ts (ws_tasks (ag_state a))" and "pending_tokens (ag_phase a') \<subseteq> pending_tokens (ag_phase a)"
  shows "live_tokens a' \<subseteq> live_tokens a"
  using assms by (auto simp: live_tokens_def elim!: cancel_live)

lemma fst_cancel: "fst ` set (cancel_tasks b ts ks) = fst ` set ks"
  using arg_cong [OF cancel_tasks_fst [of b ts ks], of set] by simp

text \<open>Cancelling tasks keeps the invariant of the agent as long as the deadline stays.\<close>

lemma agent_ok_cancel:
  assumes "agent_ok M m now w a"
  shows "agent_ok M m now w (a\<lparr>ag_state := (ag_state a)\<lparr>ws_tasks := cancel_tasks b ts (ws_tasks (ag_state a))\<rparr>\<rparr>)"
proof -
  let ?st = "ag_state a" and ?ks = "cancel_tasks b ts (ws_tasks (ag_state a))"
  have ok: "\<And>t k. (t, k) \<in> set (ws_tasks ?st) \<Longrightarrow> tracked M m (tk_assignment k)"
    "\<And>t k. (t, k) \<in> set (ws_tasks ?st) \<Longrightarrow> executing_task k \<Longrightarrow> held m now (ws_deadline ?st + SAFETY_MARGIN) w (tk_assignment k)"
    using assms by (auto simp: agent_ok_def)
  have p: "phase_ok M m now w (?st\<lparr>ws_tasks := ?ks\<rparr>) (ag_phase a)"
  proof (cases "ag_phase a")
    case (Beaten sent h)
    then show ?thesis using assms by (auto simp: agent_ok_def phase_ok_def elim!: cancel_live)
  qed (use assms in \<open>auto simp: agent_ok_def phase_ok_def\<close>)
  have "tracked M m (tk_assignment k') \<and> (executing_task k' \<longrightarrow> held m now (ws_deadline ?st + SAFETY_MARGIN) w (tk_assignment k'))"
    if "(t, k') \<in> set ?ks" for t k'
    using that by (rule cancel_live) (simp add: ok)
  with p assms tasks_ok_cancel [of ?st b ts] show ?thesis by (auto simp: agent_ok_def)
qed

section \<open>Steps of the manager alone\<close>

lemma eng_steps_planner [simp]: "eng_steps S (E\<lparr>planner := p\<rparr>) a b \<longleftrightarrow> eng_steps S E a b"
  by (simp add: eng_steps_def drawn_def ids_fresh_def)

lemma sys_inv_quiet: "sys_inv M s \<Longrightarrow> mgr_refines (sy_now s, {}) M (sy_mgr s) m' \<Longrightarrow> sys_inv M (s\<lparr>sy_mgr := m'\<rparr>)"
  by (rule sys_inv_mgr) auto

lemma io_keepsD: "io_keeps R h \<Longrightarrow> R m (snd (h m))"
  by (simp add: io_keeps_def)

lemma inv_request: "sys_inv M s \<Longrightarrow> completes req = {} \<Longrightarrow>
    sys_inv M (s\<lparr>sy_mgr := snd (handle M fs dir tokens header req (sy_now s) (sy_mgr s))\<rparr>)"
  by (rule sys_inv_quiet, assumption, rule io_keepsD, rule handle_refines) simp

lemma inv_reaper: "sys_inv M s \<Longrightarrow> sys_inv M (s\<lparr>sy_mgr := reaper_tick M (sy_now s) (sy_mgr s)\<rparr>)"
  by (intro sys_inv_quiet reaper_refines)

lemma inv_due:
  assumes "sys_inv M s" and "dispatch_due (mgr_planner M (sy_mgr s)) (sy_now s) clk (mg_engine (sy_mgr s)) = Some e"
  shows "sys_inv M (s\<lparr>sy_mgr := (sy_mgr s)\<lparr>mg_engine := e\<rparr>\<rparr>)"
  using dispatch_due_refines [OF assms(2)] by (intro sys_inv_quiet assms(1)) (simp add: mgr_refines_def mgr_planner_def)

lemma inv_retry: "sys_inv M s \<Longrightarrow> sys_inv M (s\<lparr>sy_mgr := (sy_mgr s)\<lparr>mg_engine := retry_tick (sy_now s) (mg_engine (sy_mgr s))\<rparr>\<rparr>)"
  by (intro sys_inv_quiet) (simp_all add: mgr_refines_def retry_tick_refines)

lemma inv_time: "sys_inv M s \<Longrightarrow> sy_now s \<le> t \<Longrightarrow> sys_inv M (s\<lparr>sy_now := t\<rparr>)"
  by (auto simp: sys_inv_def tokens_apart_def reports_ok_def intro: agent_ok_later)

section \<open>Steps of an agent alone\<close>

lemma inv_boot: "sys_inv M s \<Longrightarrow> w \<noteq> [] \<Longrightarrow>
    sys_inv M (set_agent w \<lparr>ag_state = worker_boot (sy_now s), ag_phase = Waiting, ag_config = cfg, ag_user = u\<rparr> s)"
  by (rule sys_inv_set)
     (simp_all add: agent_ok_def phase_ok_def tasks_ok_def worker_boot_def agent_tokens_def live_tokens_def pending_tokens_def)

lemma inv_crash:
  assumes "sys_inv M s"
  shows "sys_inv M (s\<lparr>sy_agents := (sy_agents s)(w := None)\<rparr>)"
proof -
  have "tokens_apart (s\<lparr>sy_agents := (sy_agents s)(w := None)\<rparr>)"
    using sys_invD(4) [OF assms] by (simp add: tokens_apart_def)
  moreover have "reports_ok M (s\<lparr>sy_agents := (sy_agents s)(w := None)\<rparr>)"
    using sys_invD(5) [OF assms] unfolding reports_ok_def by auto
  ultimately show ?thesis using assms by (simp add: sys_inv_def)
qed

lemma inv_cancel:
  assumes "sys_inv M s" and "sy_agents s w = Some a"
  shows "sys_inv M (set_agent w (a\<lparr>ag_state := (ag_state a)\<lparr>ws_tasks := cancel_tasks b ts (ws_tasks (ag_state a))\<rparr>\<rparr>) s)"
  by (rule sys_inv_shrink [OF assms agent_ok_cancel [OF sys_invD(3) [OF assms]]])
     (simp_all add: fst_cancel, rule live_tokens_cancel, simp_all)

lemma set_agent_same: "sy_agents s w = Some a \<Longrightarrow> set_agent w a s = s"
  by (simp add: set_agent_def map_upd_triv)

lemma inv_watchdog:
  assumes "sys_inv M s" and "sy_agents s w = Some a"
  shows "sys_inv M (set_agent w (a\<lparr>ag_state := watchdog (sy_now s) (ag_state a)\<rparr>) s)"
  using inv_cancel [OF assms] assms set_agent_same [OF assms(2)] by (simp add: watchdog_def)

lemma inv_shutdown:
  assumes "sys_inv M s" and "sy_agents s w = Some a"
  shows "sys_inv M (set_agent w (a\<lparr>ag_state := request_shutdown (ag_state a)\<rparr>) s)"
proof (rule sys_inv_shrink [OF assms])
  show "agent_ok M (sy_mgr s) (sy_now s) w (a\<lparr>ag_state := request_shutdown (ag_state a)\<rparr>)"
    using sys_invD(3) [OF assms] by (simp add: agent_ok_def request_shutdown_def tasks_ok_def phase_ok_def split: phase.splits)
qed (simp_all add: request_shutdown_def live_tokens_def)

text \<open>The phase moves on; nothing is claimed.\<close>

lemma inv_phase:
  assumes "sys_inv M s" and "sy_agents s w = Some a" and "phase_ok M (sy_mgr s) (sy_now s) w (ag_state a) p" and "pending_tokens p \<subseteq> pending_tokens (ag_phase a)"
  shows "sys_inv M (set_agent w (a\<lparr>ag_phase := p\<rparr>) s)"
proof (rule sys_inv_shrink [OF assms(1,2)])
  show "agent_ok M (sy_mgr s) (sy_now s) w (a\<lparr>ag_phase := p\<rparr>)"
    using sys_invD(3) [OF assms(1,2)] assms(3) by (simp add: agent_ok_def)
qed (use assms(4) in \<open>auto simp: live_tokens_def\<close>)

lemma phase_ok_stmts:
  "phase_ok M m now w st Waiting"
  "phase_ok M m now w st (Claimed sent res bs) \<Longrightarrow> phase_ok M m now w st (Claiming sent bs')"
  "phase_ok M m now w st (Claiming sent bs) \<Longrightarrow> phase_ok M m now w st (Claiming sent bs')"
  "tasks_ok st \<Longrightarrow> phase_ok M m now w st (Beating now (heartbeat_request logs st))"
  by (auto simp: phase_ok_def tasks_ok_def heartbeat_request_def comp_def case_prod_beta)

lemma inv_waiting: "sys_inv M s \<Longrightarrow> sy_agents s w = Some a \<Longrightarrow> sys_inv M (set_agent w (a\<lparr>ag_phase := Waiting\<rparr>) s)"
  by (rule inv_phase) (simp_all add: phase_ok_stmts pending_tokens_def)

lemma inv_beat_send:
  assumes "sys_inv M s" and "sy_agents s w = Some a"
  shows "sys_inv M (set_agent w (a\<lparr>ag_phase := Beating (sy_now s) (heartbeat_request logs (ag_state a))\<rparr>) s)"
  using agent_okD(2) [OF sys_invD(3) [OF assms]] by (intro inv_phase assms phase_ok_stmts) (auto simp: pending_tokens_def)

lemma inv_claim_fail:
  assumes "sys_inv M s" and "sy_agents s w = Some a" and "ag_phase a = Claimed sent res bs \<or> ag_phase a = Claiming sent (b # bs)"
  shows "sys_inv M (set_agent w (a\<lparr>ag_phase := Claiming sent bs\<rparr>) s)"
  using agent_okD(4) [OF sys_invD(3) [OF assms(1,2)]] assms(3)
  by (intro inv_phase assms(1,2)) (auto simp: pending_tokens_def phase_ok_def)

section \<open>Heartbeats\<close>

lemma tasks_okD:
  assumes "tasks_ok st"
  shows "distinct (map fst (ws_running st))" and "distinct (map fst (ws_tasks st))"
    and "(t, k) \<in> set (ws_tasks st) \<Longrightarrow> t = ra_lease_token (tk_assignment k)"
    and "(t, k) \<in> set (ws_tasks st) \<Longrightarrow> \<exists>r. (ra_run_id (tk_assignment k), r) \<in> set (ws_running st) \<and> rn_lease_token r = t"
  using assms unfolding tasks_ok_def by blast+

text \<open>A heartbeat that names the run with its token and does not ask to cancel it renewed its lease.\<close>

lemma renewed_held:
  assumes "constraints (mdb m)" and "heartbeat M auth w body now m = (Inr h, m')" and "distinct (map rl_run_id (hb_active_runs body))"
    and "\<lparr>rl_run_id = ra_run_id b, rl_lease_token = ra_lease_token b\<rparr> \<in> set (hb_active_runs body)"
    and "ra_run_id b \<notin> set (hr_cancel_runs h)" and "sent \<le> now"
  shows "held m' now (sent + RUN_LEASE_SECS) w b"
proof -
  let ?ls = "take 256 (hb_active_runs body)"
  from heartbeat_effect [OF assms(1,2)] have e: "find_run (mdb m') j = map_option (renewed_by w now ?ls) (find_run (mdb m) j)"
    "set (hr_cancel_runs h) = {i \<in> rl_run_id ` set (hb_active_runs body).
       \<not> (\<exists>r. find_run (mdb m) i = Some r \<and> names_lease w now ?ls r)}" for j by simp_all
  have "ra_run_id b \<in> rl_run_id ` set (hb_active_runs body)" using imageI [OF assms(4), of rl_run_id] by simp
  with assms(5) e(2) obtain r where r: "find_run (mdb m) (ra_run_id b) = Some r" "names_lease w now ?ls r" by blast
  then obtain l where l: "l \<in> set ?ls" "lease_held (rl_run_id l) w (rl_lease_token l) now r" by (auto simp: names_lease_def)
  then have "rl_run_id l = ra_run_id b" using find_run_SomeD [OF r(1)] by (simp add: lease_held_def)
  then have "l = \<lparr>rl_run_id = ra_run_id b, rl_lease_token = ra_lease_token b\<rparr>"
    using distinct_map_inj [OF assms(3) _ assms(4), of l] in_set_takeD [OF l(1)] by simp
  with l(2) have "active (r_status r)" "r_lease_token r = Some (ra_lease_token b)" "r_worker_id r = Some w"
    by (auto simp: lease_held_def)
  then show ?thesis using r e(1) [of "ra_run_id b"] assms(6)
    by (simp add: held_def renewed_by_def)
qed

lemma inv_beat_serve:
  assumes "sys_inv M s" and "sy_agents s w = Some a" and "ag_phase a = Beating sent body"
    and "heartbeat M (ag_user a) w body (sy_now s) (sy_mgr s) = (Inr h, m')"
  shows "sys_inv M (set_agent w (a\<lparr>ag_phase := Beaten sent h\<rparr>) (s\<lparr>sy_mgr := m'\<rparr>))"
proof (rule inv_phase)
  have "mgr_refines (sy_now s, {}) M (sy_mgr s) m'"
    using heartbeat_refines [THEN io_keepsD, of "sy_now s" "{}" M "sy_mgr s" "ag_user a" w body] assms(4) by simp
  with assms(1) show "sys_inv M (s\<lparr>sy_mgr := m'\<rparr>)" by (rule sys_inv_quiet)
  show "sy_agents (s\<lparr>sy_mgr := m'\<rparr>) w = Some a" using assms(2) by simp
  note ok = agent_okD [OF sys_invD(3) [OF assms(1,2)]] and t = tasks_okD [OF agent_okD(2) [OF sys_invD(3) [OF assms(1,2)]]]
  have p: "sent \<le> sy_now s" "distinct (map rl_run_id (hb_active_runs body))"
    "\<And>i r. (i, r) \<in> set (ws_running (ag_state a)) \<Longrightarrow> \<lparr>rl_run_id = i, rl_lease_token = rn_lease_token r\<rparr> \<in> set (hb_active_runs body)"
    using ok(4) assms(3) by (auto simp: phase_ok_def)
  have "held m' (sy_now s) (sent + RUN_LEASE_SECS) w (tk_assignment k)"
    if "(x, k) \<in> set (ws_tasks (ag_state a))" "ra_run_id (tk_assignment k) \<notin> set (hr_cancel_runs h)" for x k
  proof (rule renewed_held [OF sys_invD(1) [OF assms(1)] assms(4) p(2) _ that(2) p(1)])
    from t(3,4) [OF that(1)] p(3) show "\<lparr>rl_run_id = ra_run_id (tk_assignment k), rl_lease_token = ra_lease_token (tk_assignment k)\<rparr>
        \<in> set (hb_active_runs body)" by metis
  qed
  with p(1) show "phase_ok M (sy_mgr (s\<lparr>sy_mgr := m'\<rparr>)) (sy_now (s\<lparr>sy_mgr := m'\<rparr>)) w (ag_state a) (Beaten sent h)"
    by (simp add: phase_ok_def) blast
qed (simp add: pending_tokens_def)

lemma inv_beat_answer:
  assumes "sys_inv M s" and "sy_agents s w = Some a" and "ag_phase a = Beaten sent h"
  shows "sys_inv M (set_agent w (a\<lparr>ag_state := heartbeat_answered sent h (ag_state a), ag_phase := Claiming sent bs\<rparr>) s)"
proof (rule sys_inv_shrink [OF assms(1,2)])
  let ?st = "ag_state a" and ?st' = "heartbeat_answered sent h (ag_state a)"
  let ?a = "a\<lparr>ag_state := ?st', ag_phase := Claiming sent bs\<rparr>"
  note ok = agent_okD [OF sys_invD(3) [OF assms(1,2)]]
  note t = tasks_okD [OF ok(2)]
  have p: "sent \<le> sy_now s" "\<And>x k. (x, k) \<in> set (ws_tasks ?st) \<Longrightarrow> executing_task k \<Longrightarrow> ra_run_id (tk_assignment k) \<notin> set (hr_cancel_runs h)
      \<Longrightarrow> held (sy_mgr s) (sy_now s) (sent + RUN_LEASE_SECS) w (tk_assignment k)"
    using ok(4) assms(3) by (auto simp: phase_ok_def)
  have tasks: "ws_tasks ?st' = cancel_tasks False (tokens_of (cancel_ids h) ?st) (ws_tasks ?st)" by (simp add: heartbeat_answered_def)
  have keep: "x \<in> tokens_of (cancel_ids h) ?st"
    if "(x, k) \<in> set (ws_tasks ?st)" "ra_run_id (tk_assignment k) \<in> set (hr_cancel_runs h)" for x k
    using t(4) [OF that(1)] that(2) map_of_is_SomeI [OF t(1)] by (auto simp: tokens_of_def cancel_ids_def)
  show "agent_ok M (sy_mgr s) (sy_now s) w ?a"
  proof (rule agent_okI)
    show "tasks_ok (ag_state ?a)" using tasks_ok_cancel [OF ok(2)] by (simp add: heartbeat_answered_def tasks_ok_def)
    show "phase_ok M (sy_mgr s) (sy_now s) w (ag_state ?a) (ag_phase ?a)" using p(1) by (simp add: phase_ok_def heartbeat_answered_def)
    show "tracked M (sy_mgr s) (tk_assignment k)" if "(x, k) \<in> set (ws_tasks (ag_state ?a))" for x k
      using that ok(5) by (auto simp: tasks elim!: cancel_live)
    show "held (sy_mgr s) (sy_now s) (ws_deadline (ag_state ?a) + SAFETY_MARGIN) w (tk_assignment k)"
      if k: "(x, k) \<in> set (ws_tasks (ag_state ?a))" "executing_task k" for x k
    proof -
      from k(1) obtain k0 where k0: "(x, k0) \<in> set (ws_tasks ?st)" "tk_assignment k = tk_assignment k0"
        "executing_task k0" "x \<notin> tokens_of (cancel_ids h) ?st" using k(2) by (auto simp: tasks elim!: cancel_live)
      then have "held (sy_mgr s) (sy_now s) (sent + RUN_LEASE_SECS) w (tk_assignment k0)" using keep [OF k0(1)] p(2) by blast
      with k0(2) show ?thesis by (simp add: heartbeat_answered_def SAFETY_MARGIN_def)
    qed
  qed (use ok(1) p(1) in \<open>simp_all add: heartbeat_answered_def\<close>)
  show "live_tokens ?a \<subseteq> live_tokens a" by (rule live_tokens_cancel) (simp_all add: tasks pending_tokens_def)
qed (simp_all add: heartbeat_answered_def fst_cancel pending_tokens_def)

section \<open>Claims\<close>

text \<open>The token of a granted claim was drawn by it.\<close>

lemma claim_token_drawn:
  assumes "constraints (mdb m)" and "ids_fresh (m_engine M) (mg_engine m)" and "claim M auth i params now m = (Inr b, m')"
  shows "ra_lease_token b = run_id (m_engine M) (en_ids (mg_engine m))" and "en_ids (mg_engine m) < en_ids (mg_engine m')"
proof -
  let ?t = "run_id (m_engine M) (en_ids (mg_engine m))" and ?T = "drawn (m_engine M) (mg_engine m) (mg_engine m')"
  from claim_effect [OF assms(1,3)] obtain r where r: "find_run (mdb m) i = Some r" "r_status r = Queued"
    "find_run (mdb m') i = Some (claimed (claim_worker auth params) ?t now r)" "ra_lease_token b = ?t"
    by (auto simp: Let_def)
  show "ra_lease_token b = ?t" by (rule r(4))
  have ref: "mgr_refines (now, {}) M m m'"
    using claim_refines [THEN io_keepsD, of now "{}" M m auth i params] assms(3) by simp
  have "eng_steps mgr_step (m_engine M) (mg_engine m) (mg_engine m')" using ref eng_refines_plain unfolding mgr_refines_def by blast
  then have reach: "reaches ?T (mdb m) (mdb m')" using assms(1,2) by (simp add: eng_steps_def)
  have "?t \<in> ?T"
  proof (rule ccontr)
    assume "?t \<notin> ?T"
    then have step: "\<not> holds_token ?t q" if "run_step ?T p q" "\<not> holds_token ?t p" for p q using that run_step_token by blast
    have i: "i \<notin> ?T" using r(1) assms(2) by (auto simp: drawn_def ids_fresh_def)
    have "\<not> holds_token ?t r" using r(2) by (simp add: holds_token_def)
    with r(1) have "find_run (mdb m') i = None \<or> (\<exists>r. find_run (mdb m') i = Some r \<and> \<not> holds_token ?t r)"
      using reaches_follow [OF reach assms(1) i, of "\<lambda>r. \<not> holds_token ?t r"] step by blast
    with r(3) show False by (simp add: holds_token_def)
  qed
  then show "en_ids (mg_engine m) < en_ids (mg_engine m')"
    using assms(2) by (auto simp: drawn_def ids_fresh_def dest: injD)
qed

lemma claim_worker_params: "w \<noteq> [] \<Longrightarrow> claim_worker u (claim_params w) = w"
  by (simp add: claim_worker_def claim_params_def)

lemma claim_granted_held:
  assumes "constraints (mdb m)" and "ids_fresh (m_engine M) (mg_engine m)" and "claim M u i (claim_params w) now m = (Inr b, m')"
    and "w \<noteq> []" and "sent \<le> now"
  shows "tracked M m' b" and "held m' now (sent + RUN_LEASE_SECS) w b" and "\<not> old_id M m (ra_lease_token b)"
proof -
  note t = claim_token_drawn [OF assms(1-3)]
  from claim_effect [OF assms(1,3)] obtain r job where r: "find_run (mdb m) i = Some r" "ra_run_id b = i" "ra_job b = job"
    "engine_job (mg_engine m) (r_job_id r) = Some job" "find_run (mdb m') i = Some (claimed w (ra_lease_token b) now r)"
    by (auto simp: Let_def claim_worker_params [OF assms(4)])
  have ref: "mgr_refines (now, {}) M m m'"
    using claim_refines [THEN io_keepsD, of now "{}" M m u i "claim_params w"] assms(3) by simp
  have "old_id M m i" using r(1) assms(2) by (auto simp: old_id_def ids_fresh_def)
  then have "old_id M m' i" by (rule old_id_mono [OF ref])
  moreover have "old_id M m' (ra_lease_token b)" using t assms(2) by (auto simp: old_id_def ids_fresh_def dest: injD)
  moreover have "name job = r_job_id r" using r(4) by (auto simp: engine_job_def dest: find_SomeD)
  ultimately show "tracked M m' b" using r by (simp add: tracked_def)
  show "held m' now (sent + RUN_LEASE_SECS) w b" using r assms(5) by (simp add: held_def claimed_def)
  show "\<not> old_id M m (ra_lease_token b)" using t(1) by (auto simp: old_id_def)
qed

lemma agent_tokens_old:
  assumes "agent_ok M m now w a" and "t \<in> agent_tokens a"
  shows "old_id M m t"
proof (cases "t \<in> fst ` set (ws_tasks (ag_state a))")
  case True
  then obtain k where k: "(t, k) \<in> set (ws_tasks (ag_state a))" by auto
  from agent_okD(5) [OF assms(1) k] tasks_okD(3) [OF agent_okD(2) [OF assms(1)] k] show ?thesis by (simp add: tracked_def)
next
  case False
  with assms(2) agent_okD(4) [OF assms(1)] show ?thesis
    by (auto simp: agent_tokens_def pending_tokens_def phase_ok_def tracked_def split: phase.splits sum.splits)
qed

lemma inv_claim_serve:
  assumes "sys_inv M s" and "sy_agents s w = Some a" and "ag_phase a = Claiming sent (b0 # bs)"
    and "claim M (ag_user a) i (claim_params w) (sy_now s) (sy_mgr s) = (res, m')"
  shows "sys_inv M (set_agent w (a\<lparr>ag_phase := Claimed sent res bs\<rparr>) (s\<lparr>sy_mgr := m'\<rparr>))"
proof -
  let ?s = "s\<lparr>sy_mgr := m'\<rparr>" and ?a = "a\<lparr>ag_phase := Claimed sent res bs\<rparr>"
  note inv = sys_invD [OF assms(1)] and ok = agent_okD [OF sys_invD(3) [OF assms(1,2)]]
  have ref: "mgr_refines (sy_now s, {}) M (sy_mgr s) m'"
    using claim_refines [THEN io_keepsD, of "sy_now s" "{}" M "sy_mgr s" "ag_user a" i "claim_params w"] assms(4) by simp
  have inv': "sys_inv M ?s" by (rule sys_inv_quiet [OF assms(1) ref])
  have p: "sent \<le> sy_now s" "ws_deadline (ag_state a) = sent + HEARTBEAT_SAFETY_SECS" using ok(4) assms(3) by (simp_all add: phase_ok_def)
  show ?thesis
  proof (cases res)
    case (Inl c)
    then show ?thesis using assms(2) p by (intro inv_phase inv') (simp_all add: phase_ok_def pending_tokens_def)
  next
    case (Inr b)
    note g = claim_granted_held [OF inv(1,2) assms(4) [unfolded Inr] ok(1) p(1)]
    have new: "ra_lease_token b \<notin> agent_tokens c" if "sy_agents s v = Some c" for v c
      using g(3) agent_tokens_old [OF inv(3) [OF that]] by blast
    have toks: "agent_tokens ?a = insert (ra_lease_token b) (agent_tokens a)" "live_tokens ?a = insert (ra_lease_token b) (live_tokens a)"
      using Inr assms(3) by (auto simp: agent_tokens_def live_tokens_def pending_tokens_def)
    have fresh: "cq_lease_token body \<noteq> ra_lease_token b" if "(u, j, body) \<in> sy_reports s" for u j body
      using g(3) reports_okD(1) [OF inv(5) that] by auto
    show ?thesis
    proof (rule sys_inv_set [OF inv'])
      show "agent_ok M (sy_mgr ?s) (sy_now ?s) w ?a"
        using sys_invD(3) [OF inv', of w a] assms(2) p g(1,2) Inr by (simp add: agent_ok_def phase_ok_def)
      show "fst ` set (ws_tasks (ag_state ?a)) \<inter> pending_tokens (ag_phase ?a) = {}"
        using new [OF assms(2)] Inr by (auto simp: agent_tokens_def pending_tokens_def)
      show "agent_tokens ?a \<inter> agent_tokens c = {}" if "v \<noteq> w" "sy_agents ?s v = Some c" for v c
        using tokens_apartD(1) [OF inv(4) assms(2), of v c] new [of v c] that by (simp add: toks)
      show "cq_lease_token body \<notin> live_tokens ?a" if "(u, j, body) \<in> sy_reports ?s" for u j body
        using reports_okD(2) [OF inv(5) _ assms(2), of u j body] fresh [of u j body] that by (simp add: toks)
    qed
  qed
qed

lemma tasks_ok_start:
  assumes "tasks_ok st" and "ra_run_id b \<notin> fst ` set (ws_running st)" and "ra_lease_token b \<notin> fst ` set (ws_tasks st)"
  shows "tasks_ok (start_claimed b st)"
proof -
  let ?r = "\<lparr>rn_lease_token = ra_lease_token b, rn_job = name (ra_job b), rn_usage = no_usage\<rparr>"
  have "assoc_retain (\<lambda>i. i \<noteq> ra_run_id b) (ws_running st) = ws_running st"
    unfolding assoc_retain_def using assms(2) by (intro filter_True) (auto simp: image_iff)
  then have run: "ws_running (start_claimed b st) = (ra_run_id b, ?r) # ws_running st" by (simp add: start_claimed_def assoc_insert_def)
  note t = tasks_okD [OF assms(1)]
  show ?thesis unfolding tasks_ok_def
  proof (intro conjI ballI)
    show "distinct (map fst (ws_running (start_claimed b st)))" using t(1) assms(2) by (simp add: run)
    show "distinct (map fst (ws_tasks (start_claimed b st)))" using t(2) assms(3) by (simp add: start_claimed_def)
    fix x assume x: "x \<in> set (ws_tasks (start_claimed b st))"
    show "case x of (t, k) \<Rightarrow> t = ra_lease_token (tk_assignment k)
        \<and> (\<exists>r. (ra_run_id (tk_assignment k), r) \<in> set (ws_running (start_claimed b st)) \<and> rn_lease_token r = t)"
    proof (cases "x \<in> set (ws_tasks st)")
      case True
      then show ?thesis using t(3,4) [of "fst x" "snd x"] by (auto simp: run)
    next
      case False
      with x have "x = (ra_lease_token b, \<lparr>tk_assignment = b, tk_cancelled = False, tk_timed_out = False, tk_outcome = None\<rparr>)"
        by (simp add: start_claimed_def)
      then show ?thesis by (auto simp: run)
    qed
  qed
qed

lemma live_insert: "{x. \<exists>k. (x = t0 \<and> k = k0 \<or> (x, k) \<in> ks) \<and> P k} = (if P k0 then {t0} else {}) \<union> {x. \<exists>k. (x, k) \<in> ks \<and> P k}"
  by auto

lemma inv_claim_granted:
  assumes "sys_inv M s" and "sy_agents s w = Some a" and "ag_phase a = Claimed sent (Inr b) bs"
    and "ra_run_id b \<notin> fst ` set (ws_running (ag_state a))"
  shows "sys_inv M (set_agent w (a\<lparr>ag_state := start_claimed b (ag_state a), ag_phase := Claiming sent bs\<rparr>) s)"
proof -
  let ?st = "ag_state a" and ?a = "a\<lparr>ag_state := start_claimed b (ag_state a), ag_phase := Claiming sent bs\<rparr>"
  note inv = sys_invD [OF assms(1)] and ok = agent_okD [OF sys_invD(3) [OF assms(1,2)]]
  note t = tasks_okD [OF ok(2)]
  have p: "sent \<le> sy_now s" "ws_deadline ?st = sent + HEARTBEAT_SAFETY_SECS" "tracked M (sy_mgr s) b"
    "held (sy_mgr s) (sy_now s) (sent + RUN_LEASE_SECS) w b" using ok(4) assms(3) by (simp_all add: phase_ok_def)
  have new: "ra_lease_token b \<notin> fst ` set (ws_tasks ?st)"
    using tokens_apartD(2) [OF inv(4) assms(2)] assms(3) by (simp add: pending_tokens_def)
  have toks: "agent_tokens ?a = agent_tokens a" "live_tokens ?a = live_tokens a"
    using assms(3) by (simp_all add: agent_tokens_def live_tokens_def pending_tokens_def start_claimed_def live_insert)
  show ?thesis
  proof (rule sys_inv_set [OF assms(1)])
    show "agent_ok M (sy_mgr s) (sy_now s) w ?a"
    proof (rule agent_okI)
      show "tasks_ok (ag_state ?a)"
        using tasks_ok_start [OF ok(2) assms(4) new] by simp
      show "tracked M (sy_mgr s) (tk_assignment k)" if "(x, k) \<in> set (ws_tasks (ag_state ?a))" for x k
        using that p(3) ok(5) by (auto simp: start_claimed_def)
      show "held (sy_mgr s) (sy_now s) (ws_deadline (ag_state ?a) + SAFETY_MARGIN) w (tk_assignment k)"
        if "(x, k) \<in> set (ws_tasks (ag_state ?a))" "executing_task k" for x k
        using that p(2,4) ok(6) by (auto simp: start_claimed_def SAFETY_MARGIN_def)
    qed (use ok(1,3) p in \<open>simp_all add: start_claimed_def phase_ok_def\<close>)
    show "agent_tokens ?a \<inter> agent_tokens c = {}" if "v \<noteq> w" "sy_agents s v = Some c" for v c
      using tokens_apartD(1) [OF inv(4) assms(2) that(2)] that(1) by (simp add: toks)
    show "cq_lease_token body \<notin> live_tokens ?a" if "(u, j, body) \<in> sy_reports s" for u j body
      using reports_okD(2) [OF inv(5) that assms(2)] by (simp add: toks)
  qed (simp add: pending_tokens_def)
qed

section \<open>The end of a task\<close>

lemma inv_tasks_map:
  assumes "sys_inv M s" and "sy_agents s w = Some a"
    and "\<And>t k. tk_assignment (g t k) = tk_assignment k" and "\<And>t k. executing_task (g t k) \<Longrightarrow> executing_task k"
    and "\<And>t k. tk_outcome (g t k) = None \<Longrightarrow> tk_outcome k = None"
  shows "sys_inv M (set_agent w (a\<lparr>ag_state := (ag_state a)\<lparr>ws_tasks := map (\<lambda>(t, k). (t, g t k)) (ws_tasks (ag_state a))\<rparr>\<rparr>) s)"
proof (rule sys_inv_shrink [OF assms(1,2)])
  let ?st = "ag_state a" and ?ks = "map (\<lambda>(t, k). (t, g t k)) (ws_tasks (ag_state a))"
  let ?a = "a\<lparr>ag_state := ?st\<lparr>ws_tasks := ?ks\<rparr>\<rparr>"
  note ok = agent_okD [OF sys_invD(3) [OF assms(1,2)]]
  note t = tasks_okD [OF ok(2)]
  have old: "\<exists>k0. (x, k0) \<in> set (ws_tasks ?st) \<and> tk_assignment k = tk_assignment k0 \<and> (executing_task k \<longrightarrow> executing_task k0)
      \<and> (tk_outcome k = None \<longrightarrow> tk_outcome k0 = None)" if "(x, k) \<in> set ?ks" for x k
    using that assms(3-5) unfolding in_map_snd by blast
  have fst: "map fst ?ks = map fst (ws_tasks ?st)" by (simp add: case_prod_beta comp_def)
  show "fst ` set (ws_tasks (ag_state ?a)) \<subseteq> fst ` set (ws_tasks ?st)" by force
  show "live_tokens ?a \<subseteq> live_tokens a"
  proof -
    have "\<exists>k0. (x, k0) \<in> set (ws_tasks ?st) \<and> tk_outcome k0 = None" if "(x, k) \<in> set ?ks" "tk_outcome k = None" for x k
      using old [OF that(1)] that(2) by blast
    then show ?thesis unfolding live_tokens_def by (simp del: set_map) blast
  qed
  show "agent_ok M (sy_mgr s) (sy_now s) w ?a"
  proof (rule agent_okI)
    show "tasks_ok (ag_state ?a)" unfolding tasks_ok_def
    proof (intro conjI ballI)
      show "distinct (map fst (ws_tasks (ag_state ?a)))" using t(2) by (simp add: fst del: map_map)
      fix x assume "x \<in> set (ws_tasks (ag_state ?a))"
      then obtain k0 where k0: "(fst x, k0) \<in> set (ws_tasks ?st)" "tk_assignment (snd x) = tk_assignment k0"
        using old [of "fst x" "snd x"] by (auto simp del: set_map)
      from t(3,4) [OF k0(1)] k0(2) show "case x of (y, k) \<Rightarrow> y = ra_lease_token (tk_assignment k)
          \<and> (\<exists>r. (ra_run_id (tk_assignment k), r) \<in> set (ws_running (ag_state ?a)) \<and> rn_lease_token r = y)"
        by (simp add: case_prod_beta)
    qed (use t(1) in simp)
    show "phase_ok M (sy_mgr s) (sy_now s) w (ag_state ?a) (ag_phase ?a)"
    proof (cases "ag_phase a")
      case (Beaten sent h)
      have "held (sy_mgr s) (sy_now s) (sent + RUN_LEASE_SECS) w (tk_assignment k)"
        if "(x, k) \<in> set ?ks" "executing_task k" "ra_run_id (tk_assignment k) \<notin> set (hr_cancel_runs h)" for x k
        using old [OF that(1)] that(2,3) ok(4) unfolding Beaten phase_ok_def phase.case by fastforce
      with ok(4) show ?thesis by (simp add: Beaten phase_ok_def del: set_map) blast
    qed (use ok(4) in \<open>simp_all add: phase_ok_def\<close>)
    show "tracked M (sy_mgr s) (tk_assignment k)" if "(x, k) \<in> set (ws_tasks (ag_state ?a))" for x k
      using old [of x k] that ok(5) by (auto simp del: set_map)
    show "held (sy_mgr s) (sy_now s) (ws_deadline (ag_state ?a) + SAFETY_MARGIN) w (tk_assignment k)"
      if "(x, k) \<in> set (ws_tasks (ag_state ?a))" "executing_task k" for x k
      using old [of x k] that ok(6) by (auto simp del: set_map)
  qed (use ok(1,3) in simp_all)
qed simp

lemma inv_task_end:
  assumes "sys_inv M s" and "sy_agents s w = Some a"
  shows "sys_inv M (set_agent w (a\<lparr>ag_state := task_ended t out (ag_state a)\<rparr>) s)"
  unfolding task_ended_def by (rule inv_tasks_map [OF assms]) (auto simp: executing_task_def split: if_splits)

lemma inv_report:
  assumes "sys_inv M s" and "sy_agents s w = Some a" and "map_of (ws_tasks (ag_state a)) t = Some k" and "tk_outcome k = Some out"
    and "cq_lease_token body = ra_lease_token (tk_assignment k)"
  shows "sys_inv M (s\<lparr>sy_reports := insert (u, i, body) (sy_reports s)\<rparr>)"
proof -
  note inv = sys_invD [OF assms(1)] and ok = agent_okD [OF sys_invD(3) [OF assms(1,2)]]
  note tk = tasks_okD [OF ok(2)] and k = map_of_SomeD [OF assms(3)]
  have t: "cq_lease_token body = t" using tk(3) [OF k] assms(5) by simp
  have own: "t \<in> agent_tokens a" using k by (force simp: agent_tokens_def)
  have mine: "t \<notin> live_tokens a"
  proof -
    have "tk_outcome k' = Some out" if "(t, k') \<in> set (ws_tasks (ag_state a))" for k'
      using map_of_is_SomeI [OF tk(2) that] assms(3,4) by simp
    moreover have "t \<notin> pending_tokens (ag_phase a)" using tokens_apartD(2) [OF inv(4) assms(2)] k by force
    ultimately show ?thesis by (auto simp: live_tokens_def)
  qed
  have sub: "live_tokens c \<subseteq> agent_tokens c" for c by (force simp: live_tokens_def agent_tokens_def)
  have "t \<notin> live_tokens c" if "sy_agents s v = Some c" for v c
    using tokens_apartD(1) [OF inv(4) assms(2) that] own sub [of c] mine assms(2) that by (cases "w = v") auto
  moreover have "old_id M (sy_mgr s) t" by (rule agent_tokens_old [OF inv(3) [OF assms(2)] own])
  ultimately have "reports_ok M (s\<lparr>sy_reports := insert (u, i, body) (sy_reports s)\<rparr>)"
    using inv(5) t by (simp add: reports_ok_def)
  with inv(1-4) show ?thesis by (simp add: sys_inv_def tokens_apart_def)
qed

text \<open>A report with another token than the run's changes nothing.\<close>

lemma complete_other_token:
  assumes "constraints (mdb m)" and "\<And>r. find_run (mdb m) i = Some r \<Longrightarrow> r_lease_token r \<noteq> Some (cq_lease_token body)"
  shows "snd (complete M u i body now m) = m"
  using get_run_find [OF assms(1), of i] assms(2)
  by (cases "find_run (mdb m) i") (simp_all add: complete_def binds completion_matches_def Let_def split: option.split)

lemma inv_report_serve:
  assumes "sys_inv M s" and "(u, i, body) \<in> sy_reports s"
  shows "sys_inv M (s\<lparr>sy_mgr := snd (complete M u i body (sy_now s) (sy_mgr s))\<rparr>)"
proof (cases "\<exists>r. find_run (mdb (sy_mgr s)) i = Some r \<and> r_lease_token r = Some (cq_lease_token body)")
  case False
  then have "snd (complete M u i body (sy_now s) (sy_mgr s)) = sy_mgr s"
    by (intro complete_other_token sys_invD(1) [OF assms(1)]) blast
  then show ?thesis using assms(1) by simp
next
  case True
  then obtain r where r: "find_run (mdb (sy_mgr s)) i = Some r" "r_lease_token r = Some (cq_lease_token body)" by blast
  show ?thesis
  proof (rule sys_inv_mgr [where K = "{i}", OF assms(1)])
    show "mgr_refines (sy_now s, {i}) M (sy_mgr s) (snd (complete M u i body (sy_now s) (sy_mgr s)))"
      by (rule io_keepsD, rule complete_refines) simp
    fix w a b l
    assume a: "sy_agents s w = Some a" "b \<in> live_claims a" "held (sy_mgr s) (sy_now s) l w b" "sy_now s < l"
    have "ra_lease_token b \<in> live_tokens a"
      by (rule live_claims_tokens [OF agent_okD(2) [OF sys_invD(3) [OF assms(1) a(1)]] a(2)])
    then have "ra_lease_token b \<noteq> cq_lease_token body" using reports_okD(2) [OF sys_invD(5) [OF assms(1)] assms(2) a(1)] by auto
    with a(3,4) r show "ra_run_id b \<notin> {i}" by (auto simp: held_def)
  qed
qed

lemma tasks_ok_left:
  assumes "tasks_ok st"
  shows "tasks_ok (task_left t st)"
proof (cases "map_of (ws_tasks st) t")
  case (Some k)
  note tk = tasks_okD [OF assms] and k = map_of_SomeD [OF Some]
  have left: "task_left t st = st\<lparr>ws_running := assoc_retain (\<lambda>i. i \<noteq> ra_run_id (tk_assignment k)) (ws_running st),
      ws_tasks := assoc_retain (\<lambda>t'. t' \<noteq> t) (ws_tasks st)\<rparr>" using Some by (simp add: task_left_def)
  have other: "ra_run_id (tk_assignment k') \<noteq> ra_run_id (tk_assignment k)" if "(t', k') \<in> set (ws_tasks st)" "t' \<noteq> t" for t' k'
    using tk(4) [OF that(1)] tk(4) [OF k] that(2) eq_key_imp_eq_value [OF tk(1)] by metis
  show ?thesis unfolding tasks_ok_def
  proof (intro conjI ballI)
    fix x assume "x \<in> set (ws_tasks (task_left t st))"
    then have x: "(fst x, snd x) \<in> set (ws_tasks st)" "fst x \<noteq> t" by (auto simp: left assoc_retain_def)
    from tk(3,4) [OF x(1)] other [OF x] show "case x of (y, k) \<Rightarrow> y = ra_lease_token (tk_assignment k)
        \<and> (\<exists>r. (ra_run_id (tk_assignment k), r) \<in> set (ws_running (task_left t st)) \<and> rn_lease_token r = y)"
      by (auto simp: left assoc_retain_def case_prod_beta)
  qed (use tk(1,2) in \<open>simp_all add: left assoc_retain_distinct\<close>)
qed (use assms in \<open>simp add: task_left_def\<close>)

lemma task_left_sub: "set (ws_tasks (task_left t st)) \<subseteq> set (ws_tasks st)" "set (ws_running (task_left t st)) \<subseteq> set (ws_running st)"
  "ws_deadline (task_left t st) = ws_deadline st"
  by (auto simp: task_left_def assoc_retain_def split: option.split)

lemma inv_leave:
  assumes "sys_inv M s" and "sy_agents s w = Some a"
  shows "sys_inv M (set_agent w (a\<lparr>ag_state := task_left t (ag_state a)\<rparr>) s)"
proof (rule sys_inv_shrink [OF assms])
  let ?st = "ag_state a" and ?a = "a\<lparr>ag_state := task_left t (ag_state a)\<rparr>"
  note ok = agent_okD [OF sys_invD(3) [OF assms]] and sub = task_left_sub [of t ?st]
  show "agent_ok M (sy_mgr s) (sy_now s) w ?a"
  proof (rule agent_okI)
    show "tasks_ok (ag_state ?a)" using tasks_ok_left [OF ok(2)] by simp
    show "phase_ok M (sy_mgr s) (sy_now s) w (ag_state ?a) (ag_phase ?a)"
      using ok(4) sub by (cases "ag_phase a") (simp_all add: phase_ok_def, blast+)
    show "tracked M (sy_mgr s) (tk_assignment k)" if "(x, k) \<in> set (ws_tasks (ag_state ?a))" for x k using that ok(5) sub(1) by auto
    show "held (sy_mgr s) (sy_now s) (ws_deadline (ag_state ?a) + SAFETY_MARGIN) w (tk_assignment k)"
      if "(x, k) \<in> set (ws_tasks (ag_state ?a))" "executing_task k" for x k using that ok(6) sub by auto
  qed (use ok(1,3) sub(3) in simp_all)
  show "fst ` set (ws_tasks (ag_state ?a)) \<subseteq> fst ` set (ws_tasks ?st)" using sub(1) by auto
  show "live_tokens ?a \<subseteq> live_tokens a" using sub(1) unfolding live_tokens_def by auto
qed simp

section \<open>Every step\<close>

lemma sys_step_inv:
  assumes "sys_step M True s s'" and "sys_inv M s"
  shows "sys_inv M s'"
  using assms
proof (induction rule: sys_step.induct)
  case (report s w a t k out measured walked tail)
  then show ?case by (intro inv_report) (auto simp: completion_report_def Let_def)
qed (blast intro: inv_time inv_request inv_reaper inv_due inv_retry inv_boot inv_crash inv_watchdog inv_shutdown inv_beat_send
    inv_beat_serve inv_waiting inv_beat_answer inv_claim_serve inv_claim_granted inv_claim_fail inv_task_end inv_report_serve inv_leave)+

text \<open>The manager alone: no worker has started, no report is on its way.\<close>

definition sys_initial :: "'tz mgr_env \<Rightarrow> system \<Rightarrow> bool" where
  "sys_initial M s \<longleftrightarrow> constraints (mdb (sy_mgr s)) \<and> ids_fresh (m_engine M) (mg_engine (sy_mgr s))
     \<and> sy_agents s = Map.empty \<and> sy_reports s = {}"

lemma reach_inv:
  assumes "(sys_step M True)\<^sup>*\<^sup>* s s'" and "sys_initial M s"
  shows "sys_inv M s'"
  using assms(1)
proof (induction rule: rtranclp_induct)
  case base
  then show ?case using assms(2) by (simp add: sys_initial_def sys_inv_def tokens_apart_def reports_ok_def)
qed (rule sys_step_inv)

lemma executing_row:
  assumes "sys_inv M s" and "sy_agents s w = Some a" and "(t, k) \<in> set (ws_tasks (ag_state a))" and "executing_task k"
    and "sy_now s < ws_deadline (ag_state a) + SAFETY_MARGIN" and "find_run (mdb (sy_mgr s)) (ra_run_id (tk_assignment k)) = Some r"
  shows "r \<in> set (t_runs (mdb (sy_mgr s)))" and "active (r_status r)" and "r_lease_token r = Some t" and "r_worker_id r = Some w"
    and "r_job_id r = name (ra_job (tk_assignment k))" and "\<exists>e. r_lease_expires_at r = Some e \<and> ws_deadline (ag_state a) + SAFETY_MARGIN \<le> e"
  using agent_okD(5,6) [OF sys_invD(3) [OF assms(1,2)] assms(3)] tasks_okD(3) [OF agent_okD(2) [OF sys_invD(3) [OF assms(1,2)]] assms(3)]
    assms(4-6) find_run_SomeD [OF assms(6)] by (auto simp: held_def tracked_def)

end
