(* ===== verification/Worker_Props.thy ===== *)
theory Worker_Props
  imports Worker_System
begin

text \<open>
  What the composition of manager and workers guarantees: a job is worked on by one worker at a time, a passed deadline
  stops every task, a worker respects its concurrency, and reports are faithful and end. A small execution of
  the system, a boot, a heartbeat and a claim, shows that the hypotheses can hold.
\<close>

section \<open>A small execution\<close>

lemma quiet_beat:
  assumes "constraints (mdb m)" and "has_perm u ''runs.manage''" and "token_owns_worker u w m"
    and "hb_active_runs body = []" and "hb_resources body = []" and "hb_logs body = []"
  shows "\<exists>h m1 m'. heartbeat M u w body now m = (Inr h, m') \<and> hr_assignments h = offers M w m1 \<and> hr_assignment h = head_opt (offers M w m1)
    \<and> t_runs (mdb m1) = t_runs (mdb m) \<and> live_jobs (mg_engine m1) = live_jobs (mg_engine m)
    \<and> t_workers (mdb m1) = update_where (\<lambda>k. wk_id k = w) (\<lambda>k. k\<lparr>wk_last_heartbeat := now, wk_jobs_running := int (hb_jobs_running body),
           wk_status := (if wk_status k = OFFLINE then ONLINE else wk_status k)\<rparr>) (t_workers (mdb m))
    \<and> t_runs (mdb m') = t_runs (mdb m) \<and> live_jobs (mg_engine m') = live_jobs (mg_engine m) \<and> worker_ids (mdb m') = worker_ids (mdb m)"
proof -
  let ?f = "\<lambda>k. k\<lparr>wk_last_heartbeat := now, wk_jobs_running := int (hb_jobs_running body),
           wk_status := (if wk_status k = OFFLINE then ONLINE else wk_status k)\<rparr>"
  let ?d1 = "(mdb m)\<lparr>t_workers := update_where (\<lambda>k. wk_id k = w) ?f (t_workers (mdb m))\<rparr>"
  have ids: "map wk_id (update_where p g ws) = map wk_id ws" if "\<And>k. wk_id (g k) = wk_id k" for p g ws
    using that by (induction ws) (auto simp: update_where_def)
  have t: "touch_heartbeat w (hb_jobs_running body) now (mdb m) = (Ok (), ?d1)" and c1: "constraints ?d1"
    using update_workers_total [OF assms(1), of "\<lambda>_. ?f" "\<lambda>_ k. wk_id k = w"]
    by (auto simp: touch_heartbeat_def seq_def ret_def update_workers_def commit_def split: if_splits)
  let ?g = "\<lambda>k. k\<lparr>wk_jobs_running := int (count_where (occupies now (wk_id k)) (t_runs ?d1))\<rparr>"
  have r: "\<exists>rows. reconcile_worker_run_counts (Some w) now ?d1 = (Ok rows, ?d1\<lparr>t_workers := update_where (in_scope (Some w)) ?g (t_workers ?d1)\<rparr>)"
    using update_workers_total [OF c1, of "\<lambda>_. ?g" "\<lambda>_. in_scope (Some w)"]
    by (auto simp: reconcile_worker_run_counts_def seq_def query_def update_workers_def commit_def split: if_splits)
  let ?m1 = "m\<lparr>mg_engine := on_metrics (remove_worker_metrics resource_metrics w) ((mg_engine m)\<lparr>en_db := ?d1\<rparr>)\<rparr>"
  from r obtain rows where r: "reconcile_worker_run_counts (Some w) now ?d1 = (Ok rows, ?d1\<lparr>t_workers := update_where (in_scope (Some w)) ?g (t_workers ?d1)\<rparr>)" ..
  show ?thesis using assms(2-6) t r
    by (simp add: heartbeat_def binds io_ret_def ret_def refresh_worker_metrics_def on_db_alt on_metrics_def,
        intro exI [of _ ?m1]) (simp add: on_metrics_def worker_ids_def ids)
qed

lemma claim_answered:
  assumes "constraints (mdb m)" and "has_perm u ''runs.manage''" and "token_owns_worker u w m" and "w \<noteq> []"
    and "find_run (mdb m) i = Some r" and "r_status r = Queued" and "r_worker_id r = Some w" and "w \<in> set (worker_ids (mdb m))"
    and "\<forall>q \<in> set (t_runs (mdb m)). r_job_id q = r_job_id r \<longrightarrow> \<not> active (r_status q)"
    and "engine_job (mg_engine m) (r_job_id r) = Some job"
  shows "\<exists>b m'. claim M u i (claim_params w) now m = (Inr b, m')"
proof -
  let ?t = "run_id (m_engine M) (en_ids (mg_engine m))"
  obtain d where d: "claim_run i w ?t now (mdb m) = (Ok True, d)"
    using claim_run_succeeds [OF assms(1,5,6) _ assms(8,9)] assms(7) by blast
  have idle: "active_runs_of_job (r_job_id r) (mdb m) = []"
  proof -
    have "filter (\<lambda>q. r_job_id q = r_job_id r \<and> executing (r_status q)) (t_runs (mdb m)) = []"
      using assms(9) executing_active by (auto simp: filter_empty_conv)
    then show ?thesis by (simp add: active_runs_of_job_def runs_where_def)
  qed
  have row: "get_run i (mdb m) = Some (run_row r)" using get_run_find [OF assms(1)] assms(5) by simp
  from claim_run_True [OF assms(1) d] assms(5) have c: "constraints d" "find_run d i = Some (claimed w ?t now r)" by auto
  then have row': "get_run i d = Some (run_row (claimed w ?t now r))" using get_run_find [OF c(1)] by simp
  have job': "engine_job (mg_engine m\<lparr>en_ids := n, en_db := d\<rparr>) (r_job_id r) = Some job" for n using assms(10) by (simp add: engine_job_def)
  show ?thesis using assms(2-4,10) d idle row row' job'
    by (simp add: claim_def claim_params_def Let_def binds io_ret_def claimed_def)
qed

definition demo_assigned :: db where
  "demo_assigned = demo_db\<lparr>t_runs := [demo_run\<lparr>r_worker_id := Some ''w1''\<rparr>]\<rparr>"

definition demo_config :: WorkerConfig where
  "demo_config = \<lparr>wc_name = Some ''w1'', wc_hostname = None, wc_manager = ''http://m'', wc_token = ''t'', wc_labels = [],
     wc_max_concurrency = 1, wc_log_dir = '''', wc_scripts_image = ''''\<rparr>"

definition demo_system :: system where
  "demo_system = \<lparr>sy_now = 1000, sy_mgr = demo_mgr demo_assigned, sy_agents = Map.empty, sy_reports = {}\<rparr>"

lemma demo_system_initial: "sys_initial demo_menv demo_system"
  by (auto simp: sys_initial_def demo_system_def demo_assigned_def demo_eval ids_fresh_def demo_eng_env_def find_run_None inj_def)

text \<open>One worker boots, beats, and claims the run that it is offered.\<close>

lemma demo_execution:
  "\<exists>s a k. (sys_step demo_menv True)\<^sup>*\<^sup>* demo_system s \<and> sy_agents s ''w1'' = Some a \<and> (ra_lease_token (tk_assignment k), k) \<in> set (ws_tasks (ag_state a))
     \<and> executing_task k \<and> sy_now s = 1000 \<and> ws_deadline (ag_state a) = 1240 \<and> ra_run_id (tk_assignment k) = ''r1''
     \<and> find_run (mdb (sy_mgr s)) ''r1'' \<noteq> None"
proof -
  let ?m = "demo_mgr demo_assigned" and ?st = "worker_boot 1000" and ?r = "demo_run\<lparr>r_worker_id := Some ''w1''\<rparr>"
  let ?body = "heartbeat_request (\<lambda>_. None) ?st" and ?M = demo_menv
  let ?a0 = "\<lparr>ag_state = ?st, ag_phase = Waiting, ag_config = demo_config, ag_user = demo_user\<rparr>"
  have c0: "constraints (mdb ?m)" using demo_system_initial by (simp add: sys_initial_def demo_system_def)
  have runs: "t_runs demo_assigned = [?r]" by (simp add: demo_assigned_def)
  from quiet_beat [OF c0, of demo_user "''w1''" ?body ?M 1000] obtain h m1 m' where
    h: "heartbeat ?M demo_user ''w1'' ?body 1000 ?m = (Inr h, m')" "hr_assignments h = offers ?M ''w1'' m1" "hr_assignment h = head_opt (offers ?M ''w1'' m1)"
      "t_runs (mdb m1) = [?r]" "live_jobs (mg_engine m1) = [demo_spec]"
      "t_workers (mdb m1) = update_where (\<lambda>k. wk_id k = ''w1'') (\<lambda>k. k\<lparr>wk_last_heartbeat := 1000, wk_jobs_running := int (hb_jobs_running ?body),
           wk_status := (if wk_status k = OFFLINE then ONLINE else wk_status k)\<rparr>) (t_workers demo_assigned)"
      "t_runs (mdb m') = [?r]" "live_jobs (mg_engine m') = [demo_spec]" "worker_ids (mdb m') = worker_ids demo_assigned"
    by (auto simp: heartbeat_request_def worker_boot_def runs)
  have c1: "constraints (mdb m')"
    using heartbeat_refines [THEN io_keepsD, of 1000 "{}" ?M ?m demo_user "''w1''" ?body] h(1) demo_system_initial
      eng_refines_fresh [of "(1000, {})" "m_engine ?M" "mg_engine ?m" "mg_engine m'"]
    by (simp add: mgr_refines_def sys_initial_def demo_system_def)
  have off: "offers ?M ''w1'' m1 = [run_assignment ?M ''r1'' 0 demo_spec]"
    using h(4-6) by (simp add: offers_def get_worker_def update_where_def demo_assigned_def demo_db_def empty_db_def demo_worker_def
        assigned_runs_def runs_where_def engine_job_def demo_run_def new_run_def)
  let ?offer = "run_assignment ?M ''r1'' 0 demo_spec"
  have offered: "offered_assignments h = [?offer]" using h(2,3) off by (simp add: offered_assignments_def)
  have "\<exists>b m2. claim ?M demo_user ''r1'' (claim_params ''w1'') 1000 m' = (Inr b, m2)"
    by (rule claim_answered [OF c1, of _ _ _ ?r demo_spec])
       (use h(7-9) in \<open>simp_all add: find_run_def token_owns_worker_def demo_user_def engine_job_def has_perm_def demo_assigned_def demo_db_def worker_ids_def demo_worker_def\<close>)
  then obtain b m2 where cl: "claim ?M demo_user ''r1'' (claim_params ''w1'') 1000 m' = (Inr b, m2)" by blast
  have b: "ra_run_id b = ''r1''" "find_run (mdb m2) ''r1'' \<noteq> None" using claim_effect [OF c1 cl] by (auto simp: Let_def)
  let ?s1 = "set_agent ''w1'' ?a0 demo_system"
  let ?a1 = "?a0\<lparr>ag_phase := Beating 1000 ?body\<rparr>" let ?s2 = "set_agent ''w1'' ?a1 ?s1"
  let ?a2 = "?a1\<lparr>ag_phase := Beaten 1000 h\<rparr>" let ?s3 = "set_agent ''w1'' ?a2 (?s2\<lparr>sy_mgr := m'\<rparr>)"
  let ?a3 = "?a2\<lparr>ag_state := heartbeat_answered 1000 h ?st, ag_phase := Claiming 1000 [?offer]\<rparr>" let ?s4 = "set_agent ''w1'' ?a3 ?s3"
  let ?a4 = "?a3\<lparr>ag_phase := Claimed 1000 (Inr b) []\<rparr>" let ?s5 = "set_agent ''w1'' ?a4 (?s4\<lparr>sy_mgr := m2\<rparr>)"
  let ?a5 = "?a4\<lparr>ag_state := start_claimed b (ag_state ?a4), ag_phase := Claiming 1000 []\<rparr>" let ?s6 = "set_agent ''w1'' ?a5 ?s5"
  have now: "sy_now demo_system = 1000" "sy_now ?s1 = 1000" "sy_now ?s2 = 1000" "sy_now ?s3 = 1000" "sy_now ?s4 = 1000"
    and mgr: "sy_mgr ?s1 = ?m" "sy_mgr ?s2 = ?m" "sy_mgr ?s4 = m'"
    by (simp_all add: set_agent_def demo_system_def)
  have "sys_step ?M True demo_system ?s1" using sys_step.boot [of "''w1''" ?M True demo_system demo_config demo_user] now by simp
  moreover have "sys_step ?M True ?s1 ?s2"
    using sys_step.beat_send [of ?s1 "''w1''" ?a0 ?M True "\<lambda>_. None"] now(2) by (simp add: set_agent_def)
  moreover have "sys_step ?M True ?s2 ?s3"
    using sys_step.beat_serve [of ?s2 "''w1''" ?a1 1000 ?body ?M h m' True] now mgr h(1) by (simp add: set_agent_def)
  moreover have "sys_step ?M True ?s3 ?s4"
    using sys_step.beat_answer [of ?s3 "''w1''" ?a2 1000 h ?M True] offered by (simp add: set_agent_def MAX_CLAIMS_PER_HEARTBEAT_def)
  moreover have "sys_step ?M True ?s4 ?s5"
    using sys_step.claim_serve [of ?s4 "''w1''" ?a3 1000 ?offer "[]" ?M "Inr b" m2 True] now mgr cl
    by (simp add: set_agent_def may_claim_def heartbeat_answered_def worker_boot_def HEARTBEAT_SAFETY_SECS_def demo_config_def run_assignment_def)
  moreover have "sys_step ?M True ?s5 ?s6"
    using sys_step.claim_granted [of ?s5 "''w1''" ?a4 1000 b "[]" True ?M] by (simp add: set_agent_def heartbeat_answered_def worker_boot_def)
  ultimately have "(sys_step ?M True)\<^sup>*\<^sup>* demo_system ?s6" by (meson rtranclp.rtrancl_into_rtrancl rtranclp.rtrancl_refl)
  moreover have "sy_agents ?s6 ''w1'' = Some ?a5" "sy_now ?s6 = 1000" "sy_mgr ?s6 = m2" by (simp_all add: set_agent_def demo_system_def)
  moreover have "(ra_lease_token b, \<lparr>tk_assignment = b, tk_cancelled = False, tk_timed_out = False, tk_outcome = None\<rparr>) \<in> set (ws_tasks (ag_state ?a5))"
    by (simp add: start_claimed_def)
  moreover have "ws_deadline (ag_state ?a5) = 1240" by (simp add: start_claimed_def heartbeat_answered_def HEARTBEAT_SAFETY_SECS_def)
  ultimately show ?thesis using b
    by (intro exI [of _ ?s6] exI [of _ ?a5] exI [of _ "\<lparr>tk_assignment = b, tk_cancelled = False, tk_timed_out = False, tk_outcome = None\<rparr>"])
       (simp add: executing_task_def)
qed

section \<open>Properties\<close>



text \<open>The safety deadline stops everything. In every state that the system reaches, the watchdog of a worker
  whose deadline has passed leaves no task of that worker executing; a task that had not ended by then is marked as
  timed out unless it was cancelled before, and a report of its cancellation tells the manager that the run is lost.\<close>

lemma watchdog_stops:
  assumes "(sys_step M True)\<^sup>*\<^sup>* s0 s" and "sys_initial M s0" and "sy_agents s w = Some a" and "ws_deadline (ag_state a) \<le> sy_now s"
    and "(t, k) \<in> set (ws_tasks (watchdog (sy_now s) (ag_state a)))"
  shows "\<not> executing_task k \<and> (\<exists>k0. (t, k0) \<in> set (ws_tasks (ag_state a)) \<and> (\<not> tk_cancelled k0 \<longrightarrow> tk_timed_out k))
    \<and> (tk_timed_out k \<and> outcome_status (ra_job (tk_assignment k)) (out_result out) = ''cancelled''
        \<longrightarrow> cq_status (completion_report w k out measured walked tail) = ''lost'')"
proof -
  let ?st = "ag_state a"
  have "(t, k) \<in> set (cancel_tasks True (running_tokens ?st) (ws_tasks ?st))" using assms(4,5) by (simp add: watchdog_def)
  then obtain k0 where k0: "(t, k0) \<in> set (ws_tasks ?st)" "k = (if t \<in> running_tokens ?st \<and> \<not> tk_cancelled k0
      then k0\<lparr>tk_cancelled := True, tk_timed_out := tk_timed_out k0 \<or> True\<rparr> else k0)" unfolding set_cancel_tasks by blast
  note t = tasks_okD [OF agent_okD(2) [OF sys_invD(3) [OF reach_inv [OF assms(1,2)] assms(3)]]]
  have "t \<in> running_tokens ?st" using t(4) [OF k0(1)] by (force simp: running_tokens_def)
  with k0 have "\<not> executing_task k \<and> (\<not> tk_cancelled k0 \<longrightarrow> tk_timed_out k)" by (cases "tk_cancelled k0") (simp_all add: executing_task_def)
  moreover have "cq_status (completion_report w k out measured walked tail) = ''lost''"
    if "tk_timed_out k \<and> outcome_status (ra_job (tk_assignment k)) (out_result out) = ''cancelled''"
    using that by (simp add: completion_report_def outcome_to_complete_def Let_def)
  ultimately show ?thesis using k0(1) by blast
qed

theorem watchdog_stops_witness:
  "\<exists>s a. (sys_step demo_menv True)\<^sup>*\<^sup>* demo_system s \<and> sy_agents s ''w1'' = Some a \<and> ws_tasks (ag_state a) \<noteq> []
     \<and> (\<forall>k \<in> set (map snd (ws_tasks (watchdog 1240 (ag_state a)))). \<not> executing_task k)"
proof -
  obtain s a k where d: "(sys_step demo_menv True)\<^sup>*\<^sup>* demo_system s" "sy_agents s ''w1'' = Some a"
    "(ra_lease_token (tk_assignment k), k) \<in> set (ws_tasks (ag_state a))" "sy_now s = 1000" "ws_deadline (ag_state a) = 1240"
    using demo_execution by blast
  let ?s = "s\<lparr>sy_now := 1240\<rparr>"
  have "sys_step demo_menv True s ?s" using sys_step.time [of s 1240 demo_menv True] d(4) by simp
  with d(1) have r: "(sys_step demo_menv True)\<^sup>*\<^sup>* demo_system ?s" by (rule rtranclp.rtrancl_into_rtrancl)
  have "\<not> executing_task k'" if "(t', k') \<in> set (ws_tasks (watchdog 1240 (ag_state a)))" for t' k'
    using watchdog_stops [OF r demo_system_initial, of "''w1''" a t' k'] d(2,5) that by simp
  then have "\<forall>k' \<in> set (map snd (ws_tasks (watchdog 1240 (ag_state a)))). \<not> executing_task k'" by auto
  moreover have "ws_tasks (ag_state a) \<noteq> []" using d(3) by auto
  ultimately show ?thesis using d(1,2) by blast
qed



text \<open>Room for one more run is checked before a claim and still there at its answer.\<close>

definition claim_answer :: "phase \<Rightarrow> bool" where
  "claim_answer p = (case p of Claimed _ _ _ \<Rightarrow> True | _ \<Rightarrow> False)"

definition room :: "agent \<Rightarrow> bool" where
  "room a \<longleftrightarrow> length (ws_running (ag_state a)) \<le> wc_max_concurrency (ag_config a)
     \<and> (claim_answer (ag_phase a) \<longrightarrow> length (ws_running (ag_state a)) < wc_max_concurrency (ag_config a))"

lemma length_assoc_insert: "length (assoc_insert i v t) \<le> Suc (length t)"
  by (simp add: assoc_insert_def assoc_retain_def)

lemma room_set:
  assumes "\<And>w a. sy_agents s w = Some a \<Longrightarrow> room a" and "sy_agents (set_agent w a' s) v = Some c" and "room a'"
  shows "room c"
  using assms by (cases "v = w") (auto simp: set_agent_def)

lemma room_step:
  assumes "sys_step M strict s s'" and "\<And>w a. sy_agents s w = Some a \<Longrightarrow> room a" and "sy_agents s' v = Some c"
  shows "room c"
  using assms
proof (cases rule: sys_step.cases)
  case (claim_granted w a sent b bs)
  have "room (a\<lparr>ag_state := start_claimed b (ag_state a), ag_phase := Claiming sent bs\<rparr>)"
    using assms(2) [OF claim_granted(2)] claim_granted(3) length_assoc_insert [of "ra_run_id b" _ "ws_running (ag_state a)"]
    by (simp add: room_def claim_answer_def start_claimed_def) (meson Suc_leI order_trans)
  then show ?thesis using room_set [OF assms(2) assms(3) [unfolded claim_granted(1)]] by simp
next
  case (leave w a t k)
  have "length (ws_running (task_left t (ag_state a))) \<le> length (ws_running (ag_state a))"
    by (simp add: task_left_def assoc_retain_def split: option.split)
  then have "room (a\<lparr>ag_state := task_left t (ag_state a)\<rparr>)"
    using assms(2) [OF leave(2)] by (auto simp: room_def)
  then show ?thesis using room_set [OF assms(2) assms(3) [unfolded leave(1)]] by simp
next
  case (crash w)
  then show ?thesis using assms(2,3) by (auto split: if_splits)
next
  case (boot w cfg u)
  show ?thesis by (rule room_set [OF assms(2) assms(3) [unfolded boot(1)]]) (simp_all add: room_def claim_answer_def worker_boot_def)
next
  case (watchdog w a)
  show ?thesis by (rule room_set [OF assms(2) assms(3) [unfolded watchdog(1)]])
    (use assms(2) [OF watchdog(2)] in \<open>simp_all add: room_def watchdog_def\<close>)
next
  case (shutdown w a)
  show ?thesis by (rule room_set [OF assms(2) assms(3) [unfolded shutdown(1)]])
    (use assms(2) [OF shutdown(2)] in \<open>simp_all add: room_def request_shutdown_def\<close>)
next
  case (beat_send w a logs)
  show ?thesis by (rule room_set [OF assms(2) assms(3) [unfolded beat_send(1)]]) (use assms(2) [OF beat_send(2)] in \<open>simp_all add: room_def claim_answer_def\<close>)
next
  case (beat_fail w a sent body h)
  show ?thesis by (rule room_set [OF assms(2) assms(3) [unfolded beat_fail(1)]]) (use assms(2) [OF beat_fail(2)] in \<open>simp_all add: room_def claim_answer_def\<close>)
next
  case (beat_answer w a sent h)
  show ?thesis by (rule room_set [OF assms(2) assms(3) [unfolded beat_answer(1)]])
    (use assms(2) [OF beat_answer(2)] in \<open>simp_all add: room_def claim_answer_def heartbeat_answered_def\<close>)
next
  case (claim_fail w a sent res bs b)
  show ?thesis by (rule room_set [OF assms(2) assms(3) [unfolded claim_fail(1)]]) (use assms(2) [OF claim_fail(2)] in \<open>simp_all add: room_def claim_answer_def\<close>)
next
  case (claims_end w a sent bs)
  show ?thesis by (rule room_set [OF assms(2) assms(3) [unfolded claims_end(1)]]) (use assms(2) [OF claims_end(2)] in \<open>simp_all add: room_def claim_answer_def\<close>)
next
  case (task_end w a t k out)
  show ?thesis by (rule room_set [OF assms(2) assms(3) [unfolded task_end(1)]])
    (use assms(2) [OF task_end(2)] in \<open>simp_all add: room_def task_ended_def\<close>)
next
  case (beat_serve w a sent body h m')
  show ?thesis by (rule room_set [OF _ assms(3) [unfolded beat_serve(1)]]) (use assms(2) beat_serve(2) in \<open>auto simp: room_def claim_answer_def\<close>)
next
  case (claim_serve w a sent b bs res m')
  show ?thesis by (rule room_set [OF _ assms(3) [unfolded claim_serve(1)]]) (use assms(2) claim_serve(2,4) in \<open>auto simp: room_def claim_answer_def may_claim_def\<close>)
qed auto



section \<open>Reports\<close>

lemma report_loop_bound: "n \<le> 9 \<Longrightarrow> fst (report_loop oks n) = (\<exists>k. n \<le> k \<and> k \<le> 8 \<and> oks k) \<and> snd (report_loop oks n) \<le> (\<Sum>k = n..8. 2 * k)"
proof (induction oks n rule: report_loop.induct)
  case (1 oks n)
  show ?case
  proof (cases "8 < n \<or> oks n")
    case True
    then have "report_loop oks n = (n \<le> 8, 0)" by (subst report_loop.simps) auto
    then show ?thesis using True by auto
  next
    case False
    then have IH: "fst (report_loop oks (Suc n)) = (\<exists>k. Suc n \<le> k \<and> k \<le> 8 \<and> oks k)"
      "snd (report_loop oks (Suc n)) \<le> (\<Sum>k = Suc n..8. 2 * k)" using "1.IH" by auto
    have sum: "(\<Sum>k = n..8. 2 * k) = 2 * n + (\<Sum>k = Suc n..8. 2 * k)" using False by (simp add: sum.atLeast_Suc_atMost)
    have ex: "(\<exists>k. n \<le> k \<and> k \<le> 8 \<and> oks k) = (\<exists>k. Suc n \<le> k \<and> k \<le> 8 \<and> oks k)" using False by (metis Suc_leD Suc_leI le_neq_implies_less)
    have "report_loop oks n = (fst (report_loop oks (Suc n)), 2 * n + snd (report_loop oks (Suc n)))"
      using False by (subst report_loop.simps) (simp add: case_prod_beta)
    with IH sum ex show ?thesis by simp
  qed
qed

text \<open>A completion is reported with at most eight attempts and at most 72 seconds of waiting between them, and
  the report counts as delivered exactly if one of the eight attempts was answered. This is longer than the
  interval between two heartbeats, so the same run may have been claimed again by the time the task gives up.\<close>

lemma report_attempts:
  "fst (report_loop oks 1) = (\<exists>k. 1 \<le> k \<and> k \<le> 8 \<and> oks k) \<and> snd (report_loop oks 1) \<le> 72 \<and> snd (report_loop (\<lambda>_. False) 1) = 72"
proof -
  have "(\<Sum>k = 1..8. 2 * k) = (72 :: nat)" by (simp add: eval_nat_numeral)
  then show ?thesis using report_loop_bound [of 1 oks] by (simp add: report_loop.simps)
qed

text \<open>A worker reports a success only of a run whose provider answered and whose result the job accepts; the
  report names the worker, the lease token and the attempt of the claim, and has a size only for a success.\<close>

lemma report_faithful:
  assumes "body = completion_report w k out measured walked tail"
  shows "cq_worker_id body = w \<and> cq_lease_token body = ra_lease_token (tk_assignment k) \<and> cq_attempt body = Some (ra_attempt (tk_assignment k))
    \<and> (ok_status (cq_status body) \<longleftrightarrow> (\<exists>r. out_result out = Inr r \<and> sync_result_failure_reason (ra_job (tk_assignment k)) r = None))
    \<and> (cq_size_after body \<noteq> None \<longrightarrow> ok_status (cq_status body))
    \<and> (cq_status body = ''lost'' \<longleftrightarrow> tk_timed_out k \<and> out_result out = Inl PCancelled)"
proof (cases "out_result out")
  case (Inl e)
  then show ?thesis using assms
    by (auto simp: completion_report_def outcome_to_complete_def outcome_status_def Let_def ok_status_def)
next
  case (Inr r)
  then show ?thesis using assms
    by (auto simp: completion_report_def outcome_to_complete_def outcome_status_def Let_def ok_status_def)
qed

theorem report_faithful_witness:
  "cq_status (completion_report ''w1'' \<lparr>tk_assignment = run_assignment demo_menv ''r1'' 0 demo_spec, tk_cancelled = True, tk_timed_out = True, tk_outcome = None\<rparr>
     \<lparr>out_result = Inl PCancelled, out_duration = 0, out_mem_peak = None, out_cpu_seconds = None\<rparr> None 0 None) = ''lost''"
  using report_faithful [OF refl, of "''w1''" "\<lparr>tk_assignment = run_assignment demo_menv ''r1'' 0 demo_spec, tk_cancelled = True, tk_timed_out = True, tk_outcome = None\<rparr>"
     "\<lparr>out_result = Inl PCancelled, out_duration = 0, out_mem_peak = None, out_cpu_seconds = None\<rparr>" None 0 None] by simp

section \<open>The entry of another claim\<close>

text \<open>
  A task removes the entry under its run id when it leaves. If the run was claimed again meanwhile by the same worker,
  the entry is the one of the new claim: the new task executes on, but no heartbeat names its lease, and neither
  the watchdog nor a request to cancel reaches it. This is why the theorems above exclude such grants.
\<close>

lemma leave_forgets_new_claim:
  assumes "map_of (ws_tasks w) t = Some k" and "ra_run_id (tk_assignment k) = ra_run_id b" and "ra_lease_token b \<noteq> t"
  defines "w' \<equiv> task_left t (start_claimed b w)"
  shows "map_of (ws_tasks w') (ra_lease_token b) = Some \<lparr>tk_assignment = b, tk_cancelled = False, tk_timed_out = False, tk_outcome = None\<rparr>
    \<and> map_of (ws_running w') (ra_run_id b) = None \<and> ra_run_id b \<notin> rl_run_id ` set (hb_active_runs (heartbeat_request logs w'))"
proof -
  have left: "w' = (start_claimed b w)\<lparr>ws_running := assoc_retain (\<lambda>i. i \<noteq> ra_run_id b) (ws_running (start_claimed b w)),
      ws_tasks := assoc_retain (\<lambda>t'. t' \<noteq> t) (ws_tasks (start_claimed b w))\<rparr>"
    using assms(1-3) by (simp add: w'_def task_left_def start_claimed_def)
  show ?thesis using assms(3) unfolding left
    by (auto simp: start_claimed_def heartbeat_request_def assoc_retain_def map_of_eq_None_iff)
qed

end
