(* ===== verification/Command_Runner.thy ===== *)
theory Command_Runner
  imports Text_Util
begin

text \<open>
  Control commands and run logs: \<open>command-runner/src/lib.rs\<close>, \<open>log_tail.rs\<close> and the pipe readers of
  \<open>provider/src/lib.rs\<close>. Bytes are characters. A pipe is the list of results that its reads give; after the list
  it is at its end, where a read gives no bytes. A control command fails instead of returning truncated output; the
  output of a provider keeps its end only, and the run log is a bounded file that keeps its end.
\<close>

section \<open>Definitions\<close>

subsection \<open>Control commands\<close>

datatype read_event = ReadOk string | ReadErr string

definition MAX_OUTPUT_BYTES :: nat where "MAX_OUTPUT_BYTES = 1024 * 1024"

fun drain_pipe :: "read_event list \<Rightarrow> string \<Rightarrow> string + string" where
  "drain_pipe [] out = Inr out"
| "drain_pipe (ReadErr e # _) out = Inl e"
| "drain_pipe (ReadOk d # rest) out =
     (if d = [] then Inr out
      else if length out + length d > MAX_OUTPUT_BYTES then Inl ''command output exceeds 1 MiB''
      else drain_pipe rest (out @ d))"

record command_output =
  co_code :: "int option"
  co_stdout :: string
  co_stderr :: string

text \<open>
  \<open>run\<close> once the child is spawned: \<open>late\<close> tells that the timer ends first, \<open>waited\<close> is the result of waiting for
  the child. When several of the joined futures fail, \<open>pick\<close> is the one that failed first.
\<close>

definition run_command :: "(string list \<Rightarrow> string) \<Rightarrow> string + unit \<Rightarrow> bool \<Rightarrow> string + int option \<Rightarrow> read_event list \<Rightarrow> read_event list \<Rightarrow> string + command_output" where
  "run_command pick spawned late waited outs errs =
     (case spawned of
        Inl e \<Rightarrow> Inl e
      | Inr _ \<Rightarrow>
          if late then Inl ''command timed out''
          else (case (waited, drain_pipe outs [], drain_pipe errs []) of
                  (Inr code, Inr out, Inr err) \<Rightarrow> Inr \<lparr>co_code = code, co_stdout = out, co_stderr = err\<rparr>
                | (a, b, c) \<Rightarrow> Inl (pick (filter_map (\<lambda>x. x) [case a of Inl e \<Rightarrow> Some e | Inr _ \<Rightarrow> None,
                                        case b of Inl e \<Rightarrow> Some e | Inr _ \<Rightarrow> None, case c of Inl e \<Rightarrow> Some e | Inr _ \<Rightarrow> None]))))"

subsection \<open>The run log\<close>

definition LOG_LIMIT :: nat where "LOG_LIMIT = 16 * 1024 * 1024"

definition LOG_MARKER :: string where
  "LOG_MARKER = ''[synora: older output discarded; retaining recent log tail]'' @ [CHR 0x0A]"

text \<open>The end of a list: its last \<open>n\<close> elements.\<close>

definition last_n :: "nat \<Rightarrow> 'a list \<Rightarrow> 'a list" where
  "last_n n xs = drop (length xs - n) xs"

text \<open>The text after the first newline; the whole text when there is none.\<close>

definition after_first_line :: "string \<Rightarrow> string" where
  "after_first_line s = (case find_str [CHR 0x0A] s of None \<Rightarrow> s | Some i \<Rightarrow> drop (i + 1) s)"

text \<open>\<open>locked\<close> is false when the lock cannot be taken; then nothing is written.\<close>

definition append_with_limit :: "bool \<Rightarrow> nat \<Rightarrow> string \<Rightarrow> string \<Rightarrow> string" where
  "append_with_limit locked limit file data =
     (if \<not> locked then file
      else let d = last_n (limit div 2) data
           in (if length file + length d > limit
               then LOG_MARKER @ after_first_line (last_n (min (limit div 2 - length LOG_MARKER) (length file)) file)
               else file) @ d)"

definition log_append :: "bool \<Rightarrow> string \<Rightarrow> string \<Rightarrow> string" where
  "log_append locked = append_with_limit locked LOG_LIMIT"

subsection \<open>The pipes of a provider\<close>

definition MAX_BUF :: nat where "MAX_BUF = 256 * 1024"

text \<open>A run without a log file has the log \<open>None\<close>.\<close>

definition tee_log :: "bool \<Rightarrow> string option \<Rightarrow> string \<Rightarrow> string option" where
  "tee_log locked log_file data = map_option (\<lambda>f. log_append locked f data) log_file"

fun read_pipe_tee :: "bool \<Rightarrow> read_event list \<Rightarrow> string \<Rightarrow> string option \<Rightarrow> string \<times> string option" where
  "read_pipe_tee locked [] out log_file = (out, log_file)"
| "read_pipe_tee locked (ReadErr _ # _) out log_file = (out, log_file)"
| "read_pipe_tee locked (ReadOk d # rest) out log_file =
     (if d = [] then (out, log_file)
      else let log' = tee_log locked log_file d;
               out' = out @ d;
               out'' = (if length out' > MAX_BUF then drop (length out' - MAX_BUF) out' else out')
           in read_pipe_tee locked rest out'' log')"

section \<open>Laws\<close>

text \<open>The pieces that a reader sees: up to the first error or empty read.\<close>

fun pipe_pieces :: "read_event list \<Rightarrow> string list" where
  "pipe_pieces (ReadOk d # rest) = (if d = [] then [] else d # pipe_pieces rest)"
| "pipe_pieces _ = []"

definition pipe_text :: "read_event list \<Rightarrow> string" where
  "pipe_text evs = concat (pipe_pieces evs)"

lemma pipe_text_simps [simp]:
  "pipe_text [] = []" "pipe_text (ReadErr e # r) = []"
  "pipe_text (ReadOk d # r) = (if d = [] then [] else d @ pipe_text r)"
  by (simp_all add: pipe_text_def)

lemma drain_pipe_complete:
  "drain_pipe evs acc = Inr out \<Longrightarrow> out = acc @ pipe_text evs \<and> length out \<le> max (length acc) MAX_OUTPUT_BYTES"
  by (induction evs acc rule: drain_pipe.induct) (auto split: if_splits)

lemma run_command_complete:
  assumes "run_command pick spawned late waited outs errs = Inr out"
  shows "co_stdout out = pipe_text outs \<and> co_stderr out = pipe_text errs \<and> waited = Inr (co_code out)
     \<and> length (co_stdout out) \<le> MAX_OUTPUT_BYTES \<and> length (co_stderr out) \<le> MAX_OUTPUT_BYTES"
  using assms drain_pipe_complete [of outs "[]"] drain_pipe_complete [of errs "[]"]
  by (auto simp: run_command_def split: sum.splits if_splits)

lemma length_last_n [simp]: "length (last_n n xs) = min n (length xs)"
  by (simp add: last_n_def)

lemma suffix_last_n: "suffix (last_n n xs) xs"
  by (simp add: last_n_def suffix_drop)

lemma last_n_append: "last_n n (last_n n xs @ ys) = last_n n (xs @ ys)"
  by (cases "length xs \<le> n") (simp_all add: last_n_def add.commute)

lemma last_n_short: "length xs \<le> n \<Longrightarrow> last_n n xs = xs"
  by (simp add: last_n_def)

lemma suffix_after_first_line: "suffix (after_first_line s) s"
  by (auto simp: after_first_line_def suffix_drop split: option.splits)

lemma length_after_first_line: "length (after_first_line s) \<le> length s"
  using suffix_after_first_line by (rule suffix_length_le)

lemma append_with_limit_bounded:
  assumes "length LOG_MARKER \<le> limit div 2" and "length file \<le> limit"
  shows "length (append_with_limit locked limit file data) \<le> limit"
proof (cases "locked \<and> length file + length (last_n (limit div 2) data) > limit")
  case False
  with assms show ?thesis by (auto simp: append_with_limit_def)
next
  case True
  let ?t = "last_n (min (limit div 2 - length LOG_MARKER) (length file)) file"
  have "length (after_first_line ?t) \<le> limit div 2 - length LOG_MARKER"
    using length_after_first_line [of ?t] by simp
  then have "length LOG_MARKER + length (after_first_line ?t) \<le> limit div 2"
    by (metis add.commute assms(1) le_diff_conv2)
  moreover have "min (limit div 2) (length data) \<le> limit div 2" by simp
  moreover have "limit div 2 + limit div 2 \<le> limit" by simp
  ultimately have "length (LOG_MARKER @ after_first_line ?t @ last_n (limit div 2) data) \<le> limit"
    unfolding length_append length_last_n by linarith
  moreover from True have "append_with_limit locked limit file data = LOG_MARKER @ after_first_line ?t @ last_n (limit div 2) data"
    by (simp add: append_with_limit_def Let_def)
  ultimately show ?thesis by (simp only:)
qed

lemma append_with_limit_suffix: "suffix (last_n (limit div 2) data) (append_with_limit True limit file data)"
  by (simp add: append_with_limit_def Let_def suffix_def)

lemma length_LOG_MARKER: "length LOG_MARKER = 60"
  by (simp add: LOG_MARKER_def)

text \<open>Whatever a run prints, its log never grows beyond the limit, and the log ends with what was printed last.\<close>

lemma run_log_bounded:
  "length (foldl (log_append True) [] (chunks @ [c])) \<le> LOG_LIMIT
   \<and> suffix (last_n (LOG_LIMIT div 2) c) (foldl (log_append True) [] (chunks @ [c]))"
proof -
  have "length (foldl (log_append True) f ds) \<le> LOG_LIMIT" if "length f \<le> LOG_LIMIT" for f ds
    using that
    by (induction ds arbitrary: f) (simp_all add: log_append_def append_with_limit_bounded length_LOG_MARKER LOG_LIMIT_def)
  from this [of "[]" "chunks @ [c]"] show ?thesis
    by (simp add: log_append_def append_with_limit_suffix)
qed

text \<open>A provider's output in memory is the end of what it printed, whatever the sizes of the reads.\<close>

lemma read_pipe_tee_tail: "fst (read_pipe_tee locked evs (last_n MAX_BUF out) log_file) = last_n MAX_BUF (out @ pipe_text evs)"
proof (induction evs arbitrary: out log_file)
  case (Cons ev evs)
  show ?case
  proof (cases ev)
    case (ReadOk d)
    let ?o = "last_n MAX_BUF out @ d"
    have "(if length ?o > MAX_BUF then drop (length ?o - MAX_BUF) ?o else ?o) = last_n MAX_BUF (out @ d)"
      using last_n_append [of MAX_BUF out d] by (auto simp: last_n_def)
    with Cons ReadOk show ?thesis by (simp add: Let_def)
  qed simp
qed simp

lemma read_pipe_tee_log: "snd (read_pipe_tee locked evs out (Some f)) = Some (foldl (log_append locked) f (pipe_pieces evs))"
  by (induction locked evs out "Some f" arbitrary: f rule: read_pipe_tee.induct) (simp_all add: tee_log_def Let_def)

end
