(* ===== verification/Provider_Common.thy ===== *)
theory Provider_Common
  imports Executor Command_Runner
begin

text \<open>
  What the providers share: \<open>provider/src/lib.rs\<close>. A provider builds a command, runs it as a child process whose output
  is read to the end, and judges the exit code and the lines that the tool printed. Starting a child, its output, its
  end and a cancellation are the environment \<open>proc_env\<close>; so are control commands, the file system and the conversion
  of decimal text to floating point. Text is the lossy decoding of bytes. A storage path is a string, so that the error for a path that is
  no UTF-8 does not arise. Process groups, cgroups and inherited locks are not modelled.
\<close>

section \<open>Definitions\<close>

record command =
  cmd_program :: string
  cmd_args :: "string list"
  cmd_envs :: "(string \<times> string) list"   \<comment> \<open>in the order of the calls of \<open>env\<close>\<close>
  cmd_dir :: "string option"

text \<open>How a child ends: the cancellation wins a \<open>select\<close>, waiting fails, or it ends with the reads of its two pipes.\<close>

datatype child_end = Interrupted | WaitErr string | Ended "int option" "read_event list" "read_event list"

record num_lib =
  nl_parse :: "string \<Rightarrow> f64 option"
  nl_round :: "f64 \<Rightarrow> f64"
  nl_mul :: "f64 \<Rightarrow> f64 \<Rightarrow> f64"
  nl_show :: "f64 \<Rightarrow> string"

record 'w proc_env =
  pr_spawn :: "command \<Rightarrow> ('w, string, child_end) io"
  pr_cancelled :: "'w \<Rightarrow> bool"
  pr_control :: "command \<Rightarrow> ('w, string, command_output) io"   \<comment> \<open>\<open>command_runner::run\<close>\<close>
  pr_is_file :: "string \<Rightarrow> 'w \<Rightarrow> bool"
  pr_is_dir :: "string \<Rightarrow> 'w \<Rightarrow> bool"
  pr_exists :: "string \<Rightarrow> 'w \<Rightarrow> bool"
  pr_canonicalize :: "string \<Rightarrow> 'w \<Rightarrow> string option"
  pr_read :: "string \<Rightarrow> 'w \<Rightarrow> string option"
  pr_write :: "string \<Rightarrow> string \<Rightarrow> 'w \<Rightarrow> 'w"
  pr_rename :: "string \<Rightarrow> string \<Rightarrow> ('w, string, unit) io"
  pr_unix_now :: "'w \<Rightarrow> nat"
  pr_num :: num_lib

record SyncContext =
  ctx_run_id :: string
  ctx_job_name :: string
  ctx_upstream :: "string option"
  ctx_storage :: string
  ctx_worker :: "string option"
  ctx_proxy :: "string option"
  ctx_egress :: "string option"
  ctx_job :: JobSpec
  ctx_proxy_env :: "(string \<times> string) list"
  ctx_egress_address :: "string option"
  ctx_family :: string
  ctx_log_file :: "string option"
  ctx_scripts_image :: "string option"
  ctx_manager_url :: "string option"

definition no_result :: SyncResult where
  "no_result = \<lparr>res_exit_code = None, res_stdout = [], res_stderr = [], res_size_hint = None, res_bytes_transferred = None,
                res_message = None, res_status = None\<rparr>"

subsection \<open>One child process\<close>

text \<open>
  \<open>spawn_group\<close>, the two readers, \<open>wait\<close> and \<open>cancelled_after_wait\<close>, as every provider composes them. \<open>wrap\<close> is the \<open>map_err\<close> of the
  provider; \<open>stopped\<close> is what it does besides killing the process group when the cancellation wins.
\<close>

definition run_child ::
  "'w proc_env \<Rightarrow> (ProviderError \<Rightarrow> ProviderError) \<Rightarrow> ('w \<Rightarrow> 'w) \<Rightarrow> command \<Rightarrow> ('w, ProviderError, int option \<times> string \<times> string) io" where
  "run_child E wrap stopped cmd w =
     (case pr_spawn E cmd w of
        (Inl e, w') \<Rightarrow> (Err (wrap (Spawn e)), w')
      | (Inr Interrupted, w') \<Rightarrow> (Err PCancelled, stopped w')
      | (Inr (WaitErr m), w') \<Rightarrow> (Err (POther m), w')
      | (Inr (Ended code outs errs), w') \<Rightarrow>
          if pr_cancelled E w' then (Err PCancelled, w')
          else (Ok (code, fst (read_pipe_tee True outs [] None), fst (read_pipe_tee True errs [] None)), w'))"

text \<open>A control command whose result is ignored.\<close>

definition control_ignored :: "'w proc_env \<Rightarrow> command \<Rightarrow> 'w \<Rightarrow> 'w" where
  "control_ignored E cmd w = snd (pr_control E cmd w)"

definition plain_command :: "string \<Rightarrow> string list \<Rightarrow> command" where
  "plain_command p args = \<lparr>cmd_program = p, cmd_args = args, cmd_envs = [], cmd_dir = None\<rparr>"

text \<open>The two streams of a failed tool as one detail: the error stream first, the output after it.\<close>

definition failure_detail :: "string \<Rightarrow> string \<Rightarrow> string" where
  "failure_detail out err =
     (if trim err = [] then trim out
      else if trim out \<noteq> [] then trim err @ '' | stdout: '' @ trim out else trim err)"

definition with_detail :: "nat \<Rightarrow> string \<Rightarrow> string" where
  "with_detail n detail = (if detail = [] then [] else '': '' @ take n detail)"

subsection \<open>Lines that a script prints\<close>

definition kib :: "nat \<Rightarrow> f64" where
  "kib k = Fin (1024 ^ k)"

definition unit_power :: "(char \<times> nat) list" where
  "unit_power = [(CHR ''k'', 1), (CHR ''m'', 2), (CHR ''g'', 3), (CHR ''t'', 4), (CHR ''p'', 5)]"

definition parse_iec_size :: "num_lib \<Rightarrow> string \<Rightarrow> nat option" where
  "parse_iec_size N s =
     (case split_whitespace (to_ascii_lowercase (trim s)) of
        [] \<Rightarrow> None
      | first # others \<Rightarrow>
          (let tok0 = (case others of unit' # _ \<Rightarrow> trim first @ unit' | [] \<Rightarrow> trim first);
               tok = trim_end_where (\<lambda>c. c = CHR ''b'') (trim_end_str ''ib'' tok0)
           in if tok = [] then None
              else (let (num, mult) = (case map_of unit_power (last tok) of
                                         Some k \<Rightarrow> (butlast tok, kib k) | None \<Rightarrow> (tok, Fin 1))
                    in map_option (\<lambda>v. f64_as_u64 (nl_round N (nl_mul N v mult))) (nl_parse N num))))"

definition size_prefixes :: "string list" where
  "size_prefixes = [''total size is'', ''size-sum:'', ''total size:'']"

definition script_size_line :: "num_lib \<Rightarrow> nat option \<Rightarrow> string \<Rightarrow> nat option" where
  "script_size_line N latest line =
     (let raw = trim line in
      if raw = [] then latest
      else case strip_prefix ''SYNORA_SIZE='' raw of
             Some rest \<Rightarrow> (case parse_unsigned u64_max (trim rest) of Some v \<Rightarrow> Some v | None \<Rightarrow> latest)
           | None \<Rightarrow>
               foldl (\<lambda>l p. case strip_prefix p (to_ascii_lowercase raw) of
                              None \<Rightarrow> l
                            | Some rest \<Rightarrow> (case parse_iec_size N (trim rest) of Some v \<Rightarrow> Some v | None \<Rightarrow> l))
                 latest size_prefixes)"

definition parse_script_size :: "num_lib \<Rightarrow> string \<Rightarrow> nat option" where
  "parse_script_size N s = foldl (script_size_line N) None (str_lines s)"

definition parse_script_status :: "string \<Rightarrow> string option" where
  "parse_script_status s =
     (case foldl (\<lambda>l line. case strip_prefix ''SYNORA_STATUS='' (trim line) of Some rest \<Rightarrow> Some (trim rest) | None \<Rightarrow> l) None (str_lines s) of
        None \<Rightarrow> None
      | Some v \<Rightarrow> if v = [] then None else Some v)"

definition failure_needles :: "string list" where
  "failure_needles = [''Failed YUM repos:'', ''Failed APT repos of'', ''==== SYNC yum FAILED'', ''==== SYNC docker-ce FAILED'',
     ''==== SYNC rustup FAILED'', ''git update failed with rc='', ''SYNORA_STATUS=failure'', ''SYNORA_STATUS=failed'',
     ''local official proxy failed'']"

definition script_reported_failure :: "string \<Rightarrow> string option" where
  "script_reported_failure s =
     map_option (\<lambda>line. take 512 (trim line)) (find (\<lambda>line. list_ex (\<lambda>n. contains_str n line) failure_needles) (str_lines s))"

section \<open>Laws\<close>

lemma join_split_char: "join_with [c] (split_char c s) = s"
proof (induction s)
  case (Cons x s)
  obtain p ps where "split_char c s = p # ps" by (cases "split_char c s") simp_all
  with Cons show ?case by (cases ps) auto
qed simp

lemma run_child_OkD:
  assumes "run_child E wrap stopped cmd w = (Inr (code, out, err), w')"
  shows "\<exists>outs errs. pr_spawn E cmd w = (Inr (Ended code outs errs), w') \<and> \<not> pr_cancelled E w'
     \<and> out = last_n MAX_BUF (pipe_text outs) \<and> err = last_n MAX_BUF (pipe_text errs)"
proof -
  have tail: "fst (read_pipe_tee True evs [] None) = last_n MAX_BUF (pipe_text evs)" for evs
    using read_pipe_tee_tail [of True evs "[]" None] by (simp add: last_n_def)
  from assms show ?thesis
    by (auto simp: run_child_def tail split: prod.splits sum.splits child_end.splits if_splits)
qed

end
