(* ===== verification/Rsync_Provider.thy ===== *)
theory Rsync_Provider
  imports Provider_Common
begin

text \<open>
  The rsync providers: \<open>provider/src/rsync.rs\<close>. The argument vectors of the single and of the two-stage provider, the
  environment of the proxy, the figures of \<open>--stats\<close>, and the judgement of the exit code. Both providers run rsync as
  a child process (\<open>run_child\<close>).
\<close>

section \<open>Definitions\<close>

record RsyncProvider =
  rp_options :: "string list"
  rp_exclude :: "string list"

record TwoStageRsyncProvider = RsyncProvider +
  rp_stage1_profile :: string

subsection \<open>Environment and local files\<close>

definition rsync_proxy_hostport :: "string \<Rightarrow> string" where
  "rsync_proxy_hostport url =
     (let rest = (case split_once_str ''://'' url of Some (_, r) \<Rightarrow> r | None \<Rightarrow> url)
      in case rsplit_once (CHR ''@'') rest of Some (_, host) \<Rightarrow> host | None \<Rightarrow> rest)"

definition apply_rsync_proxy_env :: "(string \<times> string) list \<Rightarrow> (string \<times> string) list" where
  "apply_rsync_proxy_env proxy_env =
     proxy_env
     @ (if list_ex (\<lambda>(k, _). eq_ignore_case k ''RSYNC_PROXY'') proxy_env then []
        else (case find (\<lambda>(k, _). eq_ignore_case k ''all_proxy'' \<or> eq_ignore_case k ''http_proxy'') proxy_env of
                None \<Rightarrow> []
              | Some (_, u) \<Rightarrow> [(''RSYNC_PROXY'', rsync_proxy_hostport u)]))"

definition local_candidates :: "string \<Rightarrow> string \<Rightarrow> string list" where
  "local_candidates pre path =
     (if contains_str ''/etc/tunasync/'' path
      then [replace_str ''/etc/tunasync/excludes/'' ''/etc/synora/excludes/''
              (replace_str ''/etc/tunasync/syncpassword/'' ''/etc/synora/syncpassword/'' path)] else [])
     @ (case path_file_name path of
          None \<Rightarrow> []
        | Some n \<Rightarrow> if pre = ''--password-file='' then [''/etc/synora/syncpassword/'' @ n, ''/etc/tunasync/syncpassword/'' @ n]
                    else [''/etc/synora/excludes/'' @ n, ''/etc/tunasync/excludes/'' @ n])"

definition local_path_prefixes :: "string list" where
  "local_path_prefixes = [''--password-file='', ''--exclude-from='']"

fun rewrite_with :: "(string \<Rightarrow> bool) \<Rightarrow> string list \<Rightarrow> string \<Rightarrow> string" where
  "rewrite_with is_file [] opt = opt"
| "rewrite_with is_file (pre # pres) opt =
     (case strip_prefix pre opt of
        None \<Rightarrow> rewrite_with is_file pres opt
      | Some path \<Rightarrow>
          if is_file path then opt
          else (case find (\<lambda>c. c \<noteq> path \<and> is_file c) (local_candidates pre path) of
                  Some c \<Rightarrow> pre @ c
                | None \<Rightarrow> rewrite_with is_file pres opt))"

definition rewrite_worker_local_path :: "(string \<Rightarrow> bool) \<Rightarrow> string \<Rightarrow> string" where
  "rewrite_worker_local_path is_file opt = rewrite_with is_file local_path_prefixes opt"

subsection \<open>Argument vectors\<close>

definition apply_tunasync_defaults :: "bool \<Rightarrow> string list" where
  "apply_tunasync_defaults deleting =
     [''-aH'', ''-v'', ''-h'', ''--no-o'', ''--no-g'', ''--filter'', ''risk .~tmp~/'', ''--exclude'', ''.~tmp~/'']
     @ (if deleting then [''--delete'', ''--delete-after'', ''--delay-updates''] else [])
     @ [''--safe-links'', ''--timeout=120'']"

definition with_slash :: "string \<Rightarrow> string" where
  "with_slash s = (if ends_with ''/'' s then s else s @ ''/'')"

definition contimeout_args :: "string \<Rightarrow> string list" where
  "contimeout_args up = (if starts_with ''rsync://'' up then [''--contimeout=120''] else [])"

definition exclude_args :: "string list \<Rightarrow> string list" where
  "exclude_args pats = map (\<lambda>p. ''--exclude='' @ p) pats"

definition max_delete_args :: "SyncContext \<Rightarrow> string list" where
  "max_delete_args ctx = (case max_delete_files (safety (ctx_job ctx)) of None \<Rightarrow> [] | Some m \<Rightarrow> [''--max-delete='' @ show_nat m])"

definition route_args :: "SyncContext \<Rightarrow> string list" where
  "route_args ctx =
     (case ctx_egress_address ctx of None \<Rightarrow> [] | Some a \<Rightarrow> [''--address'', a])
     @ (if ctx_family ctx = ''ipv4'' then [''--ipv4''] else if ctx_family ctx = ''ipv6'' then [''--ipv6''] else [])"

definition rsync_args :: "(string \<Rightarrow> bool) \<Rightarrow> RsyncProvider \<Rightarrow> SyncContext \<Rightarrow> string \<Rightarrow> string list" where
  "rsync_args is_file P ctx up =
     apply_tunasync_defaults True @ contimeout_args up @ exclude_args (rp_exclude P) @ max_delete_args ctx @ route_args ctx
     @ map (rewrite_worker_local_path is_file) (rp_options P) @ [''--stats'', with_slash up, with_slash (ctx_storage ctx)]"

definition rsync_command :: "SyncContext \<Rightarrow> string list \<Rightarrow> command" where
  "rsync_command ctx args = \<lparr>cmd_program = ''rsync'', cmd_args = args, cmd_envs = apply_rsync_proxy_env (ctx_proxy_env ctx), cmd_dir = None\<rparr>"

definition STAGE1_PROFILES :: "(string \<times> string list) list" where
  "STAGE1_PROFILES =
     [(''debian'',
       [''--include=*.diff/'', ''--include=by-hash/'', ''--exclude=*.diff/Index'', ''--exclude=Contents*'', ''--exclude=Packages*'',
        ''--exclude=Sources*'', ''--exclude=Release*'', ''--exclude=InRelease'', ''--exclude=i18n/*'', ''--exclude=dep11/*'',
        ''--exclude=installer-*/current'', ''--exclude=ls-lR*'']),
      (''debian-oldstyle'',
       [''--exclude=Packages*'', ''--exclude=Sources*'', ''--exclude=Release*'', ''--exclude=InRelease'', ''--exclude=i18n/*'',
        ''--exclude=ls-lR*'', ''--exclude=dep11/*''])]"

definition stage_tail :: "'a TwoStageRsyncProvider_scheme \<Rightarrow> SyncContext \<Rightarrow> string \<Rightarrow> bool \<Rightarrow> string list" where
  "stage_tail P ctx up with_delete_cap =
     contimeout_args up @ exclude_args (rp_exclude P) @ (if with_delete_cap then max_delete_args ctx else []) @ route_args ctx
     @ [''--stats'', with_slash up, ctx_storage ctx @ ''/'']"

definition stage1_args :: "'a TwoStageRsyncProvider_scheme \<Rightarrow> SyncContext \<Rightarrow> string \<Rightarrow> string list \<Rightarrow> string list" where
  "stage1_args P ctx up profile = apply_tunasync_defaults False @ profile @ stage_tail P ctx up False"

definition stage2_args :: "(string \<Rightarrow> bool) \<Rightarrow> 'a TwoStageRsyncProvider_scheme \<Rightarrow> SyncContext \<Rightarrow> string \<Rightarrow> string list" where
  "stage2_args is_file P ctx up =
     apply_tunasync_defaults True @ stage_tail P ctx up True @ map (rewrite_worker_local_path is_file) (rp_options P)"

subsection \<open>Statistics\<close>

fun figure_scan :: "string \<Rightarrow> string \<Rightarrow> char option \<Rightarrow> string \<times> char option" where
  "figure_scan [] num unit' = (num, unit')"
| "figure_scan (c # cs) num unit' =
     (if is_digit c \<or> c = CHR ''.'' then figure_scan cs (num @ [c]) unit'
      else if c = CHR '','' then figure_scan cs num unit'
      else if c \<in> set ''KMGT'' then figure_scan cs num (Some c)
      else (num, unit'))"

definition figure_power :: "(char \<times> nat) list" where
  "figure_power = [(CHR ''K'', 1), (CHR ''M'', 2), (CHR ''G'', 3), (CHR ''T'', 4)]"

definition parse_figure :: "num_lib \<Rightarrow> string \<Rightarrow> nat option" where
  "parse_figure N s =
     (let (num, unit') = figure_scan s [] None;
          mult = (case Option.bind unit' (map_of figure_power) of Some k \<Rightarrow> kib k | None \<Rightarrow> Fin 1)
      in map_option (\<lambda>v. f64_as_u64 (nl_round N (nl_mul N v mult))) (nl_parse N num))"

definition field_after_colon :: "string \<Rightarrow> string option" where
  "field_after_colon line = (case split_char (CHR '':'') line of _ # v # _ \<Rightarrow> Some v | _ \<Rightarrow> None)"

definition stat_line :: "num_lib \<Rightarrow> string \<Rightarrow> string \<Rightarrow> nat option" where
  "stat_line N label s =
     Option.bind (find (contains_str label) (str_lines s))
       (\<lambda>line. Option.bind (field_after_colon line) (\<lambda>v. parse_figure N (trim (trim_end_str ''bytes'' (trim v)))))"

definition old_total :: "num_lib \<Rightarrow> string \<Rightarrow> nat option" where
  "old_total N s =
     Option.bind (find (contains_str ''total size is'') (str_lines s))
       (\<lambda>l. Option.bind (split_once_str ''total size is'' l)
         (\<lambda>(_, r). Option.bind (head_opt (split_whitespace (case split_once_str ''total size is'' r of Some (x, _) \<Rightarrow> x | None \<Rightarrow> r)))
           (parse_figure N)))"

definition parse_stats :: "num_lib \<Rightarrow> string \<Rightarrow> nat option \<times> nat option" where
  "parse_stats N s = (stat_line N ''Total transferred file size'' s, coalesce (stat_line N ''Total file size'' s) (old_total N s))"

subsection \<open>The two providers\<close>

definition is_success_exit :: "int \<Rightarrow> int list \<Rightarrow> bool" where
  "is_success_exit code allowed \<longleftrightarrow> code = 0 \<or> code \<in> set allowed"

definition run_rsync :: "'w proc_env \<Rightarrow> command \<Rightarrow> ('w, ProviderError, int \<times> string \<times> string) io" where
  "run_rsync E cmd = io_bind (run_child E (\<lambda>e. Spawn (''rsync: '' @ error_text e)) (\<lambda>w. w) cmd)
     (\<lambda>(code, out, err). io_ret (opt_default (- 1) code, out, err))"

definition rsync_outcome :: "num_lib \<Rightarrow> SyncContext \<Rightarrow> int \<times> string \<times> string \<Rightarrow> ProviderError + SyncResult" where
  "rsync_outcome N ctx = (\<lambda>(code, out, err).
     if is_success_exit code (success_exit_codes (ctx_job ctx))
     then Ok (no_result\<lparr>res_exit_code := Some code, res_stdout := out, res_stderr := err,
                res_bytes_transferred := fst (parse_stats N out), res_size_hint := snd (parse_stats N out),
                res_message := (if code \<noteq> 0 then Some (''partial transfer (rsync exit '' @ show_int code
                                  @ '', counted as success per success_exit_codes)'') else None)\<rparr>)
     else Err (POther (''rsync exited with '' @ show_int code @ with_detail 8000 (failure_detail out err))))"

definition rsync_sync :: "'w proc_env \<Rightarrow> RsyncProvider \<Rightarrow> SyncContext \<Rightarrow> ('w, ProviderError, SyncResult) io" where
  "rsync_sync E P ctx w =
     (case ctx_upstream ctx of
        None \<Rightarrow> (Err (PConfig ''rsync requires `upstream`''), w)
      | Some up \<Rightarrow>
          io_bind (run_rsync E (rsync_command ctx (rsync_args (\<lambda>f. pr_is_file E f w) P ctx up)))
            (\<lambda>r. io_lift (rsync_outcome (pr_num E) ctx r)) w)"

definition two_stage_sync :: "'w proc_env \<Rightarrow> TwoStageRsyncProvider \<Rightarrow> SyncContext \<Rightarrow> ('w, ProviderError, SyncResult) io" where
  "two_stage_sync E P ctx w =
     (case ctx_upstream ctx of
        None \<Rightarrow> (Err (PConfig ''two-stage-rsync requires `upstream`''), w)
      | Some up \<Rightarrow>
          (case map_of STAGE1_PROFILES (rp_stage1_profile P) of
             None \<Rightarrow> (Err (PConfig (''unknown stage1_profile `'' @ rp_stage1_profile P @ ''`: expected debian|debian-oldstyle'')), w)
           | Some profile \<Rightarrow>
               io_bind (run_rsync E (rsync_command ctx (stage1_args P ctx up profile)))
                 (\<lambda>(code, _, err) w1.
                    if code \<noteq> 0 then (Err (POther (''stage 1 rsync exited with '' @ show_int code @ with_detail 8000 (trim err))), w1)
                    else io_bind (run_rsync E (rsync_command ctx (stage2_args (\<lambda>f. pr_is_file E f w1) P ctx up)))
                           (\<lambda>r. io_lift (rsync_outcome (pr_num E) ctx r)) w1) w))"

section \<open>Laws\<close>

lemma run_rsync_OkD:
  assumes "run_rsync E cmd w = (Inr (code, out, err), w')"
  shows "\<exists>c outs errs. pr_spawn E cmd w = (Inr (Ended c outs errs), w') \<and> \<not> pr_cancelled E w' \<and> code = opt_default (- 1) c
     \<and> out = last_n MAX_BUF (pipe_text outs) \<and> err = last_n MAX_BUF (pipe_text errs)"
  using assms by (auto simp: run_rsync_def io_bind_Inr io_ret_def dest!: run_child_OkD split: prod.splits)

text \<open>Apart from the child itself nothing changes the world.\<close>

lemma run_rsync_world: "snd (run_rsync E cmd w) = snd (pr_spawn E cmd w)"
  by (simp add: run_rsync_def run_child_def io_bind_def io_ret_def split: prod.split sum.split child_end.split)

lemma rsync_outcome_OkD:
  assumes "rsync_outcome N ctx (code, out, err) = Inr r"
  shows "is_success_exit code (success_exit_codes (ctx_job ctx)) \<and> res_exit_code r = Some code \<and> res_status r = None
     \<and> (res_message r = None \<longleftrightarrow> code = 0)"
  using assms by (auto simp: rsync_outcome_def no_result_def split: if_splits)

lemma rsync_sync_OkD:
  assumes "rsync_sync E P ctx w = (Inr r, w')"
  shows "\<exists>up code out err. ctx_upstream ctx = Some up
     \<and> run_rsync E (rsync_command ctx (rsync_args (\<lambda>f. pr_is_file E f w) P ctx up)) w = (Inr (code, out, err), w')
     \<and> rsync_outcome (pr_num E) ctx (code, out, err) = Inr r"
  using assms by (auto simp: rsync_sync_def io_bind_Inr io_lift_def split: option.splits)

lemma two_stage_sync_OkD:
  assumes "two_stage_sync E P ctx w = (Inr r, w')"
  shows "\<exists>up profile out1 err1 w1 code out err. ctx_upstream ctx = Some up \<and> map_of STAGE1_PROFILES (rp_stage1_profile P) = Some profile
     \<and> run_rsync E (rsync_command ctx (stage1_args P ctx up profile)) w = (Inr (0, out1, err1), w1)
     \<and> run_rsync E (rsync_command ctx (stage2_args (\<lambda>f. pr_is_file E f w1) P ctx up)) w1 = (Inr (code, out, err), w')
     \<and> rsync_outcome (pr_num E) ctx (code, out, err) = Inr r"
  using assms by (auto simp: two_stage_sync_def io_bind_Inr io_lift_def split: option.splits if_splits)

text \<open>No first stage deletes: of its arguments only the source, the destination and the egress address are not fixed by the code or written
  behind \<open>--exclude=\<close>.\<close>

lemma STAGE1_PROFILES_filters: "list_all (\<lambda>(_, fs). list_all (\<lambda>f. prefix ''--include='' f \<or> prefix ''--exclude='' f) fs) STAGE1_PROFILES"
  by (simp add: STAGE1_PROFILES_def)

definition deletes :: "string \<Rightarrow> bool" where
  "deletes a \<longleftrightarrow> prefix ''--delete'' a \<or> prefix ''--max-delete'' a"

lemma stage1_never_deletes:
  assumes "map_of STAGE1_PROFILES (rp_stage1_profile P) = Some profile" and "a \<in> set (stage1_args P ctx up profile)" and "deletes a"
  shows "a = with_slash up \<or> a = ctx_storage ctx @ ''/'' \<or> ctx_egress_address ctx = Some a"
proof -
  have "(rp_stage1_profile P, profile) \<in> set STAGE1_PROFILES" using assms(1) by (rule map_of_SomeD)
  then have "\<forall>f \<in> set profile. prefix ''--include='' f \<or> prefix ''--exclude='' f"
    using STAGE1_PROFILES_filters by (auto simp: list_all_iff)
  moreover have "\<not> deletes (''--include='' @ x)" "\<not> deletes (''--exclude='' @ x)" for x by (simp_all add: deletes_def)
  ultimately have profile: "\<forall>f \<in> set profile. \<not> deletes f" unfolding prefix_def by metis
  have fixed: "\<forall>f \<in> set (apply_tunasync_defaults False). \<not> deletes f" "\<forall>f \<in> set (contimeout_args up). \<not> deletes f"
    "\<forall>f \<in> set (exclude_args (rp_exclude P)). \<not> deletes f" "\<not> deletes ''--stats''"
    and words: "\<not> deletes ''--address''" "\<not> deletes ''--ipv4''" "\<not> deletes ''--ipv6''"
    by (simp_all add: apply_tunasync_defaults_def contimeout_args_def exclude_args_def deletes_def)
  have route: "f \<in> set (route_args ctx) \<Longrightarrow> deletes f \<Longrightarrow> ctx_egress_address ctx = Some f" for f
    using words by (cases "ctx_egress_address ctx") (auto simp: route_args_def split: if_splits)
  from assms(2) consider "a \<in> set (apply_tunasync_defaults False)" | "a \<in> set profile" | "a \<in> set (contimeout_args up)"
    | "a \<in> set (exclude_args (rp_exclude P))" | "a \<in> set (route_args ctx)" | "a = ''--stats''" | "a = with_slash up" | "a = ctx_storage ctx @ ''/''"
    unfolding stage1_args_def stage_tail_def by (simp only: set_append Un_iff list.set insert_iff empty_iff if_False) blast
  then show ?thesis using assms(3) profile fixed route by cases blast+
qed

lemma rsync_excludes_everywhere:
  "p \<in> set (rp_exclude P) \<Longrightarrow> ''--exclude='' @ p \<in> set (stage1_args P ctx up profile) \<inter> set (stage2_args is_file P ctx up)"
  by (simp add: stage1_args_def stage2_args_def stage_tail_def exclude_args_def)

text \<open>The credentials of a proxy do not reach rsync: the value that is made for \<open>RSYNC_PROXY\<close> has no user part.\<close>

lemma rsync_proxy_hostport_no_user: "CHR ''@'' \<notin> set (rsync_proxy_hostport url)"
  by (auto simp: rsync_proxy_hostport_def Let_def rsplit_once_None dest: rsplit_once_SomeD split: option.splits)

lemma figure_scan_digits:
  "list_all (\<lambda>c. is_digit c \<or> c = CHR '','') s \<Longrightarrow> figure_scan s num u = (num @ filter is_digit s, u)"
proof (induction s arbitrary: num)
  case (Cons c s)
  moreover have "\<not> is_digit (CHR '','')" by (simp add: is_digit_def)
  ultimately show ?case by auto
qed simp

end
