(* ===== verification/Docker_Provider.thy ===== *)
theory Docker_Provider
  imports Provider_Common
begin

text \<open>
  Containers: \<open>provider/src/docker.rs\<close>. The argument vector of \<open>docker run\<close>, the check of the options that a job may
  set, the environment of the container, the judgement of its result, and the samples of \<open>docker stats\<close>. The repair of
  an interrupted clone before the container starts (\<open>prepare_existing_repo\<close> of \<open>provider/src/git.rs\<close>) stands here too.
\<close>

section \<open>Definitions\<close>

record DockerProvider =
  dp_image :: string
  dp_options :: "string list"
  dp_env :: "string list"
  dp_volumes :: "string list"
  dp_keep_container :: bool
  dp_network :: "string option"
  dp_command :: "string list"

record DockerRunSpec =
  ds_image :: string
  ds_command :: "string list"
  ds_extra_options :: "string list"
  ds_extra_env :: "string list"
  ds_extra_volumes :: "string list"
  ds_keep_container :: bool
  ds_network :: "string option"

subsection \<open>The command of the container\<close>

definition shell_chars :: "char list" where
  "shell_chars = ''|&;<>*?[]$'' @ [CHR 0x60, CHR 0x27, CHR 0x22] @ ''()''"

definition needs_shell :: "string \<Rightarrow> bool" where
  "needs_shell s \<longleftrightarrow> list_ex (\<lambda>c. is_ws c \<or> c \<in> set shell_chars) s"

definition docker_exec_args :: "string list \<Rightarrow> string list" where
  "docker_exec_args cmd =
     (case cmd of [] \<Rightarrow> [] | [single] \<Rightarrow> if needs_shell single then [''/bin/sh'', ''-c'', single] else [single] | args \<Rightarrow> args)"

definition image_command_args :: "string \<Rightarrow> string list \<Rightarrow> string list" where
  "image_command_args img cmd =
     ''--init'' # (case cmd of entry # rest \<Rightarrow> [''--entrypoint'', entry, img] @ rest | [] \<Rightarrow> [img])"

definition scripts_image_name :: "string option \<Rightarrow> string option" where
  "scripts_image_name v = (case map_option trim v of None \<Rightarrow> None | Some s \<Rightarrow> if s = [] then None else Some s)"

subsection \<open>The proxy of the container\<close>

definition BRIDGE_GATEWAY :: string where "BRIDGE_GATEWAY = ''172.17.0.1''"

definition rewrite_loopback_proxy :: "string \<Rightarrow> string" where
  "rewrite_loopback_proxy v =
     (if contains_str ''socks5'' (to_ascii_lowercase v) then v
      else foldl (\<lambda>s (pat, pre). replace_str pat (pre @ BRIDGE_GATEWAY) s) v
             [(''@127.0.0.1'', ''@''), (''://127.0.0.1'', ''://''), (''@localhost'', ''@''), (''://localhost'', ''://''),
              (''@[::1]'', ''@''), (''://[::1]'', ''://'')])"

definition docker_proxy_env :: "(string \<times> string) list \<Rightarrow> (string \<times> string) list" where
  "docker_proxy_env proxy_env =
     (let chosen = coalesce (find (\<lambda>(k, v). eq_ignore_case k ''all_proxy'' \<and> trim v \<noteq> []) proxy_env)
                     (find (\<lambda>(k, v). (eq_ignore_case k ''http_proxy'' \<or> eq_ignore_case k ''https_proxy'') \<and> trim v \<noteq> []) proxy_env)
      in case map_option (\<lambda>(_, v). rewrite_loopback_proxy v) chosen of
           None \<Rightarrow> []
         | Some url \<Rightarrow>
             if trim url = [] then []
             else [(''ALL_PROXY'', url), (''all_proxy'', url)]
                  @ (if contains_str ''socks'' (to_ascii_lowercase url) then []
                     else [(''HTTP_PROXY'', url), (''HTTPS_PROXY'', url), (''http_proxy'', url), (''https_proxy'', url)]))"

subsection \<open>Samples\<close>

record ContainerStats =
  cs_memory_bytes :: nat
  cs_cpu_percent :: f64
  cs_net_bytes :: "nat option"
  cs_block_bytes :: "nat option"

definition is_ascii_alpha :: "char \<Rightarrow> bool" where
  "is_ascii_alpha c \<longleftrightarrow> (let n = (of_char (to_lower c) :: nat) in 97 \<le> n \<and> n \<le> 122)"

definition docker_units :: "(string \<times> nat) list" where
  "docker_units = [([], 0), (''b'', 0), (''kb'', 1), (''kib'', 1), (''mb'', 2), (''mib'', 2), (''gb'', 3), (''gib'', 3), (''tb'', 4), (''tib'', 4)]"

definition parse_docker_mem :: "num_lib \<Rightarrow> string \<Rightarrow> nat option" where
  "parse_docker_mem N s0 =
     (let s = filter (\<lambda>c. c \<noteq> CHR '','') (trim s0);
          num = takeWhile (\<lambda>c. \<not> is_ascii_alpha c) s;
          unit' = dropWhile (\<lambda>c. \<not> is_ascii_alpha c) s
      in Option.bind (nl_parse N (trim num))
           (\<lambda>n. map_option (\<lambda>k. f64_as_u64 (nl_mul N n (kib k))) (map_of docker_units (to_ascii_lowercase (trim unit')))))"

definition parse_docker_netio :: "num_lib \<Rightarrow> string \<Rightarrow> nat option" where
  "parse_docker_netio N s =
     Option.bind (split_once (CHR ''/'') s)
       (\<lambda>(rx, tx). map_option (\<lambda>r. min u64_max (r + opt_default 0 (parse_docker_mem N (trim tx)))) (parse_docker_mem N (trim rx)))"

definition parse_stats_line :: "num_lib \<Rightarrow> string \<Rightarrow> (string \<times> ContainerStats) option" where
  "parse_stats_line N line =
     (let parts = split_char (CHR 0x09) line;
          part = (\<lambda>i. if i < length parts then Some (parts ! i) else None);
          n = trim (parts ! 0);
          mem_s = opt_default [] (part 1)
      in if n = [] then None
         else Option.bind (parse_docker_mem N (trim (hd (split_char (CHR ''/'') mem_s))))
                (\<lambda>mem. map_option
                   (\<lambda>cpu. (n, \<lparr>cs_memory_bytes = mem, cs_cpu_percent = cpu, cs_net_bytes = Option.bind (part 3) (parse_docker_netio N),
                               cs_block_bytes = Option.bind (part 4) (parse_docker_netio N)\<rparr>))
                   (nl_parse N (trim_end_where (\<lambda>c. c = CHR ''%'') (trim (opt_default [] (part 2)))))))"

definition parse_stats_table :: "num_lib \<Rightarrow> string \<Rightarrow> (string \<rightharpoonup> ContainerStats)" where
  "parse_stats_table N s =
     foldl (\<lambda>m line. if trim line = [] then m
                     else case parse_stats_line N (trim line) of
                            None \<Rightarrow> m
                          | Some (n, st) \<Rightarrow> if starts_with ''synora-job-'' n then m(n \<mapsto> st) else m) Map.empty (str_lines s)"

definition collect_container_stats :: "'w proc_env \<Rightarrow> 'w \<Rightarrow> (string \<rightharpoonup> ContainerStats) \<times> 'w" where
  "collect_container_stats E w =
     (let tab = [CHR 0x09] in
      case pr_control E (plain_command ''docker'' [''stats'', ''--no-stream'', ''--format'',
             ''{{.Name}}'' @ tab @ ''{{.MemUsage}}'' @ tab @ ''{{.CPUPerc}}'' @ tab @ ''{{.NetIO}}'' @ tab @ ''{{.BlockIO}}'']) w of
        (Inr out, w') \<Rightarrow> (if co_code out = Some 0 then parse_stats_table (pr_num E) (co_stdout out) else Map.empty, w')
      | (Inl _, w') \<Rightarrow> (Map.empty, w'))"

record StatsCache =
  sc_at :: int
  sc_by_name :: "string \<rightharpoonup> ContainerStats"

text \<open>\<open>now\<close> and \<open>then'\<close>: the clock when the cache is looked at and after a collection, in seconds.\<close>

definition container_stats :: "'w proc_env \<Rightarrow> int \<Rightarrow> int \<Rightarrow> string \<Rightarrow> StatsCache \<Rightarrow> 'w \<Rightarrow> ContainerStats option \<times> StatsCache \<times> 'w" where
  "container_stats E now then' n cache w =
     (if now - sc_at cache \<ge> 2
      then (let (m, w') = collect_container_stats E w in (m n, \<lparr>sc_at = then', sc_by_name = m\<rparr>, w'))
      else (sc_by_name cache n, cache, w))"

subsection \<open>The options that a job may set\<close>

definition docker_option_keys :: "string list" where
  "docker_option_keys = [''--cpus'', ''--memory'', ''--memory-swap'', ''--pids-limit'', ''--user'', ''--workdir'', ''--env'', ''--pull'', ''--label'']"

definition option_value_ok :: "string \<Rightarrow> bool" where
  "option_value_ok v \<longleftrightarrow> v \<noteq> [] \<and> \<not> starts_with ''-'' v"

fun options_ok :: "string list \<Rightarrow> bool" where
  "options_ok [] = True"
| "options_ok (arg # rest) =
     (case split_once (CHR ''='') arg of
        Some (key, v) \<Rightarrow> key \<in> set docker_option_keys \<and> option_value_ok v \<and> options_ok rest
      | None \<Rightarrow> arg \<in> set docker_option_keys \<and> (case rest of [] \<Rightarrow> False | v # rest' \<Rightarrow> option_value_ok v \<and> options_ok rest'))"

definition forbidden_sources :: "string list" where
  "forbidden_sources = [''/proc'', ''/sys'', ''/dev'', ''/run'', ''/var/run'', ''/etc'', ''/root'']"

definition volume_ok :: "'w proc_env \<Rightarrow> 'w \<Rightarrow> string \<Rightarrow> bool" where
  "volume_ok E w v =
     (case split_char (CHR '':'') v of
        [src, dst, mode] \<Rightarrow>
          mode = ''ro''
          \<and> (case pr_canonicalize E src w of
               None \<Rightarrow> False
             | Some source \<Rightarrow>
                 (pr_is_file E source w \<or> pr_is_dir E source w) \<and> is_absolute dst \<and> \<not> path_eq source ''/''
                 \<and> \<not> list_ex (path_starts_with source) forbidden_sources
                 \<and> path_file_name source \<noteq> Some ''docker.sock'')
      | _ \<Rightarrow> False)"

definition network_ok :: "string option \<Rightarrow> bool" where
  "network_ok net = (case net of None \<Rightarrow> True | Some v \<Rightarrow> trim v \<noteq> ''host'' \<and> \<not> starts_with ''container:'' (trim v))"

definition validate_docker_options :: "'w proc_env \<Rightarrow> 'w \<Rightarrow> string list \<Rightarrow> string list \<Rightarrow> string option \<Rightarrow> ProviderError + unit" where
  "validate_docker_options E w opts vols net =
     (if network_ok net \<and> options_ok opts \<and> list_all (volume_ok E w) vols then Ok ()
      else Err (PConfig ''unsafe Docker option, mount, or host namespace; use an isolated container and read-only extra volumes''))"

subsection \<open>The argument vector\<close>

definition should_bind_host_storage_path :: "string \<Rightarrow> bool" where
  "should_bind_host_storage_path host \<longleftrightarrow> host \<noteq> ''/data'' \<and> \<not> path_starts_with host ''/data''"

definition mounts_data :: "string list \<Rightarrow> bool" where
  "mounts_data vols \<longleftrightarrow> list_ex (\<lambda>v. case split_char (CHR '':'') v of _ # dst # _ \<Rightarrow> dst = ''/data'' | _ \<Rightarrow> False) vols"

definition container_name :: "SyncContext \<Rightarrow> string" where
  "container_name ctx = ''synora-job-'' @ ctx_job_name ctx"

definition flagged :: "string \<Rightarrow> string list \<Rightarrow> string list" where
  "flagged k vs = concat (map (\<lambda>v. [k, v]) vs)"

definition network_args :: "string option \<Rightarrow> string list" where
  "network_args net = (case map_option trim net of None \<Rightarrow> [] | Some n \<Rightarrow> if n = [] then [] else [''--network'', n])"

definition limit_args :: "num_lib \<Rightarrow> JobSpec \<Rightarrow> string list" where
  "limit_args N job =
     (case memory_limit job of None \<Rightarrow> [] | Some m \<Rightarrow> [''--memory'', show_nat m])
     @ (case cpu_limit job of None \<Rightarrow> [] | Some c \<Rightarrow> [''--cpus'', nl_show N c])"

definition container_mounts :: "SyncContext \<Rightarrow> string list \<Rightarrow> string list" where
  "container_mounts ctx vols =
     (if mounts_data vols then [] else [ctx_storage ctx @ '':/data''])
     @ (if should_bind_host_storage_path (ctx_storage ctx) then [ctx_storage ctx @ '':'' @ ctx_storage ctx] else []) @ vols"

definition upstream_env :: "string option \<Rightarrow> string list" where
  "upstream_env up =
     (case up of
        None \<Rightarrow> []
      | Some u \<Rightarrow> [''SYNORA_UPSTREAM='' @ u, ''TUNASYNC_UPSTREAM_URL='' @ u]
          @ (case strip_prefix ''rsync://'' u of
               None \<Rightarrow> []
             | Some rest \<Rightarrow> (let (host, path) = opt_default (rest, []) (split_once (CHR ''/'') rest)
                             in [''RSYNC_HOST='' @ host, ''RSYNC_PATH=/'' @ path])))"

definition opt_env :: "string \<Rightarrow> string option \<Rightarrow> string list" where
  "opt_env k v = (case v of None \<Rightarrow> [] | Some x \<Rightarrow> [k @ ''='' @ x])"

definition storage_in_container :: "SyncContext \<Rightarrow> string list \<Rightarrow> string" where
  "storage_in_container ctx vols = (if mounts_data vols then ctx_storage ctx else ''/data'')"

definition container_workdir :: "SyncContext \<Rightarrow> string list \<Rightarrow> string" where
  "container_workdir ctx vols =
     (if should_bind_host_storage_path (ctx_storage ctx) then ctx_storage ctx else storage_in_container ctx vols)"

definition manager_api :: "SyncContext \<Rightarrow> string option" where
  "manager_api ctx = (case ctx_manager_url ctx of None \<Rightarrow> None | Some s \<Rightarrow> if trim s = [] then None else Some s)"

definition container_env :: "DockerRunSpec \<Rightarrow> SyncContext \<Rightarrow> string list \<times> string list" where
  "container_env spec ctx =
     (let inner = storage_in_container ctx (ds_extra_volumes spec) in
      (ds_extra_env spec @ map (\<lambda>(k, v). k @ ''='' @ v) (docker_proxy_env (ctx_proxy_env ctx))
         @ [''PYTHONUNBUFFERED=1'', ''SYNORA_JOB='' @ ctx_job_name ctx, ''TUNASYNC_MIRROR_NAME='' @ ctx_job_name ctx] @ upstream_env (ctx_upstream ctx),
       [''TUNASYNC_WORKING_DIR='' @ container_workdir ctx (ds_extra_volumes spec), ''SYNORA_STORAGE='' @ inner,
        ''SYNORA_LOG_DIR='' @ inner @ ''/.synora-log'', ''TUNASYNC_LOG_DIR='' @ inner @ ''/.synora-log'',
        ''TUNASYNC_LOG_FILE='' @ inner @ ''/.synora-log/current.log'', ''SYNORA_RUN_ID='' @ ctx_run_id ctx]
         @ opt_env ''SYNORA_WORKER'' (ctx_worker ctx) @ opt_env ''SYNORA_PROXY'' (ctx_proxy ctx) @ opt_env ''SYNORA_EGRESS'' (ctx_egress ctx)
         @ opt_env ''SYNORA_EGRESS_ADDRESS'' (ctx_egress_address ctx) @ [''SYNORA_FAMILY='' @ ctx_family ctx]
         @ opt_env ''SYNORA_API'' (map_option rewrite_loopback_proxy (manager_api ctx))))"

definition docker_run_args :: "num_lib \<Rightarrow> DockerRunSpec \<Rightarrow> SyncContext \<Rightarrow> string list" where
  "docker_run_args N spec ctx =
     [''run'', ''--security-opt=no-new-privileges'', ''--cap-drop=ALL'', ''--pids-limit=512'', ''--name'', container_name ctx]
     @ network_args (ds_network spec) @ (if ds_keep_container spec then [] else [''--rm'']) @ ds_extra_options spec
     @ limit_args N (ctx_job ctx) @ flagged ''-v'' (container_mounts ctx (ds_extra_volumes spec)) @ flagged ''-e'' (fst (container_env spec ctx))
     @ [''-w'', container_workdir ctx (ds_extra_volumes spec)] @ flagged ''-e'' (snd (container_env spec ctx))
     @ image_command_args (ds_image spec) (ds_command spec)"

subsection \<open>Repair of an interrupted clone\<close>

definition git_ok :: "'w proc_env \<Rightarrow> string list \<Rightarrow> 'w \<Rightarrow> bool \<times> 'w" where
  "git_ok E args w =
     (case pr_control E (plain_command ''git'' args) w of (Inr out, w') \<Rightarrow> (co_code out = Some 0, w') | (Inl _, w') \<Rightarrow> (False, w'))"

definition prepare_existing_repo :: "'w proc_env \<Rightarrow> string \<Rightarrow> 'w \<Rightarrow> bool \<times> 'w" where
  "prepare_existing_repo E dest w =
     (let (valid, w1) = git_ok E [''-C'', dest, ''rev-parse'', ''--git-dir''] w in
      if valid then (True, w1)
      else if pr_is_dir E (path_join dest ''objects'') w1 \<and> pr_is_file E (path_join dest ''config'') w1
      then (let head = path_join dest ''HEAD'';
                w2 = (if list_all is_ws (opt_default [] (pr_read E head w1)) then pr_write E head (''ref: refs/heads/master'' @ [CHR 0x0A]) w1 else w1)
            in git_ok E [''--git-dir'', dest, ''rev-parse'', ''--git-dir''] w2)
      else (False, w1))"

subsection \<open>One container\<close>

definition docker_rm :: "SyncContext \<Rightarrow> command" where
  "docker_rm ctx = plain_command ''docker'' [''rm'', ''-f'', container_name ctx]"

definition docker_outcome :: "num_lib \<Rightarrow> int option \<times> string \<times> string \<Rightarrow> ProviderError + SyncResult" where
  "docker_outcome N = (\<lambda>(code0, out, err).
     let code = opt_default (- 1) code0;
         combined = out @ [CHR 0x0A] @ err;
         status = parse_script_status combined
     in case script_reported_failure combined of
          Some reason \<Rightarrow> Err (POther (''script reported failure: '' @ reason))
        | None \<Rightarrow>
            if process_result_is_success (Some code) status []
            then Ok (no_result\<lparr>res_exit_code := Some code, res_stdout := out, res_stderr := err,
                       res_size_hint := parse_script_size N combined, res_status := status\<rparr>)
            else if code = 0
            then Err (POther (''script reported status '' @ opt_default ''invalid'' status @ '': ''
                              @ take 800 (if trim err = [] then trim out else trim err)))
            else Err (POther (''docker exited with '' @ show_int code @ with_detail 800 (failure_detail out err))))"

definition run_named_container :: "'w proc_env \<Rightarrow> DockerRunSpec \<Rightarrow> SyncContext \<Rightarrow> ('w, ProviderError, SyncResult) io" where
  "run_named_container E spec ctx w =
     (case validate_docker_options E w (ds_extra_options spec) (ds_extra_volumes spec) (ds_network spec) of
        Inl e \<Rightarrow> (Err e, w)
      | Inr _ \<Rightarrow>
          (let w1 = control_ignored E (docker_rm ctx) w;
               w2 = (if list_ex (contains_str ''git.sh'') (ds_command spec) then snd (prepare_existing_repo E (ctx_storage ctx) w1) else w1)
           in io_bind (run_child E (\<lambda>e. Spawn (''docker run: '' @ error_text e)) (control_ignored E (docker_rm ctx))
                         (plain_command ''docker'' (docker_run_args (pr_num E) spec ctx)))
                (\<lambda>r. io_lift (docker_outcome (pr_num E) r)) w2))"

definition docker_sync :: "'w proc_env \<Rightarrow> DockerProvider \<Rightarrow> SyncContext \<Rightarrow> ('w, ProviderError, SyncResult) io" where
  "docker_sync E P ctx =
     run_named_container E
       \<lparr>ds_image = dp_image P, ds_command = docker_exec_args (dp_command P), ds_extra_options = dp_options P, ds_extra_env = dp_env P,
        ds_extra_volumes = dp_volumes P, ds_keep_container = dp_keep_container P, ds_network = dp_network P\<rparr> ctx"

section \<open>How the command line is read\<close>

text \<open>
  The flags before the first other word, as the documentation of the Docker command line describes them: a flag that takes a value has it behind an equals sign or
  as the next word. Which flags take a value is the parameter \<open>takes\<close>.
\<close>

fun read_flags :: "(string \<Rightarrow> bool) \<Rightarrow> string list \<Rightarrow> (string \<times> string option) list \<times> string list" where
  "read_flags takes [] = ([], [])"
| "read_flags takes (a # rest) =
     (if \<not> starts_with ''-'' a then ([], a # rest)
      else case split_once (CHR ''='') a of
             Some (k, v) \<Rightarrow> (let (fs, r) = read_flags takes rest in ((k, Some v) # fs, r))
           | None \<Rightarrow>
               if takes a
               then (case rest of [] \<Rightarrow> ([(a, None)], []) | v # rest' \<Rightarrow> (let (fs, r) = read_flags takes rest' in ((a, Some v) # fs, r)))
               else (let (fs, r) = read_flags takes rest in ((a, None) # fs, r)))"

text \<open>A segment of the command line that is read as \<open>fs\<close> whatever follows it.\<close>

definition reads :: "(string \<Rightarrow> bool) \<Rightarrow> string list \<Rightarrow> (string \<times> string option) list \<Rightarrow> bool" where
  "reads takes seg fs \<longleftrightarrow> (\<forall>rest. read_flags takes (seg @ rest) = (fs @ fst (read_flags takes rest), snd (read_flags takes rest)))"

definition bare_flag :: "string \<Rightarrow> bool" where
  "bare_flag k \<longleftrightarrow> starts_with ''-'' k \<and> CHR ''='' \<notin> set k"

lemma reads_Nil: "reads takes [] []"
  by (simp add: reads_def)

lemma reads_append: "reads takes a fs \<Longrightarrow> reads takes b gs \<Longrightarrow> reads takes (a @ b) (fs @ gs)"
  by (simp add: reads_def)

lemma reads_value: "bare_flag k \<Longrightarrow> takes k \<Longrightarrow> reads takes [k, v] [(k, Some v)]"
  by (simp add: reads_def bare_flag_def split_once_None [THEN iffD2] case_prod_beta)

lemma reads_switch: "bare_flag k \<Longrightarrow> \<not> takes k \<Longrightarrow> reads takes [k] [(k, None)]"
  by (simp add: reads_def bare_flag_def split_once_None [THEN iffD2] case_prod_beta)

lemma reads_inline: "starts_with ''-'' a \<Longrightarrow> split_once (CHR ''='') a = Some (k, v) \<Longrightarrow> reads takes [a] [(k, Some v)]"
  by (simp add: reads_def case_prod_beta)

lemma reads_flagged: "bare_flag k \<Longrightarrow> takes k \<Longrightarrow> reads takes (flagged k vs) (map (\<lambda>v. (k, Some v)) vs)"
proof (induction vs)
  case (Cons v vs)
  then show ?case using reads_append [OF reads_value [of k takes v], of "flagged k vs"] by (simp add: flagged_def)
qed (simp add: flagged_def reads_Nil)

lemma option_keys_bare: "k \<in> set docker_option_keys \<Longrightarrow> bare_flag k"
  by (auto simp: docker_option_keys_def bare_flag_def starts_with_def)

text \<open>Options that pass the check are read as pairs of an admitted key and a value.\<close>

lemma options_ok_reads:
  assumes "options_ok opts" and takes: "\<forall>k \<in> set docker_option_keys. takes k"
  shows "\<exists>fs. reads takes opts fs \<and> (\<forall>(k, v) \<in> set fs. k \<in> set docker_option_keys \<and> v \<noteq> None)"
  using assms(1)
proof (induction opts rule: options_ok.induct)
  case 1
  show ?case using reads_Nil by fastforce
next
  case (2 arg rest)
  show ?case
  proof (cases "split_once (CHR ''='') arg")
    case (Some kv)
    obtain k v where kv: "kv = (k, v)" by (cases kv)
    with Some "2.prems" have k: "k \<in> set docker_option_keys" and rest: "options_ok rest" by auto
    from split_once_SomeD [OF Some [unfolded kv]] option_keys_bare [OF k] have "starts_with ''-'' arg"
      by (cases k) (auto simp: bare_flag_def starts_with_def)
    then have "reads takes [arg] [(k, Some v)]" using Some kv by (simp add: reads_inline)
    moreover obtain fs where "reads takes rest fs" "\<forall>(k, v) \<in> set fs. k \<in> set docker_option_keys \<and> v \<noteq> None"
      using "2.IH"(2) [OF Some kv [symmetric] rest] by auto
    ultimately show ?thesis using k by (intro exI [of _ "(k, Some v) # fs"]) (auto dest: reads_append)
  next
    case None
    with "2.prems" obtain v rest' where r: "rest = v # rest'" "arg \<in> set docker_option_keys" "options_ok rest'"
      by (auto split: list.splits)
    then have "reads takes [arg, v] [(arg, Some v)]" using takes by (simp add: reads_value option_keys_bare)
    moreover obtain fs where "reads takes rest' fs" "\<forall>(k, v) \<in> set fs. k \<in> set docker_option_keys \<and> v \<noteq> None"
      using "2.IH"(1) [OF None r(1) r(3)] by auto
    ultimately show ?thesis using r by (intro exI [of _ "(arg, Some v) # fs"]) (auto dest: reads_append)
  qed
qed

section \<open>No option of a job loosens the container\<close>

definition own_value_flags :: "string list" where
  "own_value_flags = [''--name'', ''--network'', ''--memory'', ''--cpus'', ''-v'', ''-e'', ''-w'', ''--entrypoint'']"

text \<open>What a flag may say: known keys; mounts of the storage and checked read-only volumes; no namespace of the host.\<close>

definition flag_confined :: "'w proc_env \<Rightarrow> 'w \<Rightarrow> SyncContext \<Rightarrow> string \<times> string option \<Rightarrow> bool" where
  "flag_confined E w ctx = (\<lambda>(k, v).
     k \<in> set (docker_option_keys @ own_value_flags @ [''--security-opt'', ''--cap-drop'', ''--rm'', ''--init''])
     \<and> (k = ''-v'' \<longrightarrow> (\<exists>m. v = Some m \<and> (m = ctx_storage ctx @ '':/data'' \<or> m = ctx_storage ctx @ '':'' @ ctx_storage ctx \<or> volume_ok E w m)))
     \<and> (k = ''--network'' \<longrightarrow> (\<exists>n. v = Some n \<and> n \<noteq> ''host'' \<and> \<not> prefix ''container:'' n))
     \<and> (k = ''--security-opt'' \<longrightarrow> v = Some ''no-new-privileges'')
     \<and> (k = ''--cap-drop'' \<longrightarrow> v = Some ''ALL''))"

lemma volume_ok_read_only: "volume_ok E w m \<Longrightarrow> \<exists>src dst. m = src @ '':'' @ dst @ '':ro'' \<and> is_absolute dst"
proof -
  assume ok: "volume_ok E w m"
  then obtain src dst where p: "split_char (CHR '':'') m = [src, dst, ''ro'']" "is_absolute dst"
    by (auto simp: volume_ok_def split: list.splits option.splits)
  have "join_with [CHR '':''] (split_char (CHR '':'') m) = m" by (rule join_split_char)
  with p show ?thesis by (intro exI [of _ src] exI [of _ dst]) simp
qed

lemma option_flag_confined: "k \<in> set docker_option_keys \<Longrightarrow> flag_confined E w ctx (k, v)"
  by (auto simp: flag_confined_def docker_option_keys_def)

lemma plain_flag_confined: "k \<in> {''--name'', ''--memory'', ''--cpus'', ''-e'', ''-w'', ''--entrypoint'', ''--rm'', ''--init'', ''--pids-limit''} \<Longrightarrow> flag_confined E w ctx (k, v)"
  by (auto simp: flag_confined_def own_value_flags_def docker_option_keys_def)

lemma mount_confined:
  "list_all (volume_ok E w) vols \<Longrightarrow> m \<in> set (container_mounts ctx vols) \<Longrightarrow> flag_confined E w ctx (''-v'', Some m)"
  by (auto simp: flag_confined_def own_value_flags_def container_mounts_def list_all_iff split: if_splits)

definition reads_confined :: "(string \<Rightarrow> bool) \<Rightarrow> 'w proc_env \<Rightarrow> 'w \<Rightarrow> SyncContext \<Rightarrow> string list \<Rightarrow> bool" where
  "reads_confined takes E w ctx seg \<longleftrightarrow> (\<exists>fs. reads takes seg fs \<and> list_all (flag_confined E w ctx) fs)"

lemma reads_confinedI: "reads takes seg fs \<Longrightarrow> list_all (flag_confined E w ctx) fs \<Longrightarrow> reads_confined takes E w ctx seg"
  by (auto simp: reads_confined_def)

lemma reads_confined_Nil: "reads_confined takes E w ctx []"
  by (rule reads_confinedI [OF reads_Nil]) simp

lemma reads_confined_append:
  "reads_confined takes E w ctx a \<Longrightarrow> reads_confined takes E w ctx b \<Longrightarrow> reads_confined takes E w ctx (a @ b)"
  by (auto simp: reads_confined_def intro: reads_append)

lemma reads_confined_pairs:
  "bare_flag k \<Longrightarrow> takes k \<Longrightarrow> (\<And>v. v \<in> set vs \<Longrightarrow> flag_confined E w ctx (k, Some v)) \<Longrightarrow> reads_confined takes E w ctx (flagged k vs)"
  by (rule reads_confinedI [OF reads_flagged]) (auto simp: list_all_iff)

lemma reads_confined_pair:
  "bare_flag k \<Longrightarrow> takes k \<Longrightarrow> flag_confined E w ctx (k, Some v) \<Longrightarrow> reads_confined takes E w ctx [k, v]"
  using reads_confined_pairs [of k takes "[v]"] by (simp add: flagged_def)

lemma reads_confined_switch:
  "bare_flag k \<Longrightarrow> \<not> takes k \<Longrightarrow> flag_confined E w ctx (k, None) \<Longrightarrow> reads_confined takes E w ctx [k]"
  by (rule reads_confinedI [OF reads_switch]) simp_all

lemma reads_confined_options:
  "options_ok opts \<Longrightarrow> \<forall>k \<in> set docker_option_keys. takes k \<Longrightarrow> reads_confined takes E w ctx opts"
  by (drule (1) options_ok_reads) (auto simp: reads_confined_def list_all_iff intro!: option_flag_confined)

lemma own_flags_bare: "k \<in> set own_value_flags \<Longrightarrow> bare_flag k" "bare_flag ''--rm''" "bare_flag ''--init''"
  by (auto simp: own_value_flags_def bare_flag_def starts_with_def)

lemma reads_confined_network:
  "network_ok net \<Longrightarrow> takes ''--network'' \<Longrightarrow> reads_confined takes E w ctx (network_args net)"
  by (auto simp: network_args_def network_ok_def flag_confined_def own_value_flags_def starts_with_def
        intro!: reads_confined_Nil reads_confined_pair own_flags_bare(1) split: option.splits)

lemma reads_confined_limits:
  "takes ''--memory'' \<Longrightarrow> takes ''--cpus'' \<Longrightarrow> reads_confined takes E w ctx (limit_args N job)"
  unfolding limit_args_def
  by (intro reads_confined_append)
     (auto simp: own_value_flags_def intro!: reads_confined_Nil reads_confined_pair own_flags_bare(1) plain_flag_confined split: option.splits)

text \<open>The flags in front of the options of a job, and those between the options and the image.\<close>

lemma fixed_flags_read:
  assumes "takes ''--name''"
  shows "reads takes [''--security-opt=no-new-privileges'', ''--cap-drop=ALL'', ''--pids-limit=512'', ''--name'', n]
     [(''--security-opt'', Some ''no-new-privileges''), (''--cap-drop'', Some ''ALL''), (''--pids-limit'', Some ''512''), (''--name'', Some n)]"
proof -
  have "split_once (CHR ''='') ''--security-opt=no-new-privileges'' = Some (''--security-opt'', ''no-new-privileges'')"
    "split_once (CHR ''='') ''--cap-drop=ALL'' = Some (''--cap-drop'', ''ALL'')"
    "split_once (CHR ''='') ''--pids-limit=512'' = Some (''--pids-limit'', ''512'')"
    by simp_all
  note inline = this [THEN reads_inline [rotated], of takes]
  have "reads takes [''--name'', n] [(''--name'', Some n)]"
    using assms by (intro reads_value own_flags_bare(1)) (simp_all add: own_value_flags_def)
  from reads_append [OF inline(1) reads_append [OF inline(2) reads_append [OF inline(3) this]]]
  show ?thesis by (simp add: starts_with_def)
qed

lemma middle_flags_confined:
  assumes ok: "network_ok (ds_network spec)" "options_ok (ds_extra_options spec)" "list_all (volume_ok E w) (ds_extra_volumes spec)"
    and takes: "\<forall>k \<in> set (docker_option_keys @ own_value_flags). takes k" "\<not> takes ''--rm''"
  shows "reads_confined takes E w ctx
     (network_args (ds_network spec) @ (if ds_keep_container spec then [] else [''--rm'']) @ ds_extra_options spec
      @ limit_args N (ctx_job ctx) @ flagged ''-v'' (container_mounts ctx (ds_extra_volumes spec)) @ flagged ''-e'' (fst (container_env spec ctx))
      @ [''-w'', container_workdir ctx (ds_extra_volumes spec)] @ flagged ''-e'' (snd (container_env spec ctx)))"
proof -
  have own: "takes k" "bare_flag k" if "k \<in> set own_value_flags" for k using takes(1) that own_flags_bare(1) by auto
  have keys: "\<forall>k \<in> set docker_option_keys. takes k" using takes(1) by auto
  have in_own: "set [''--network'', ''--memory'', ''--cpus'', ''-v'', ''-e'', ''-w''] \<subseteq> set own_value_flags" by (simp add: own_value_flags_def)
  have limits: "takes ''--network''" "takes ''--memory''" "takes ''--cpus''" using in_own own(1) by simp_all
  have "reads_confined takes E w ctx (if ds_keep_container spec then [] else [''--rm''])"
    using takes(2) by (simp add: reads_confined_Nil reads_confined_switch own_flags_bare plain_flag_confined)
  moreover have "reads_confined takes E w ctx (flagged ''-v'' (container_mounts ctx (ds_extra_volumes spec)))"
    using in_own own mount_confined [OF ok(3)] by (intro reads_confined_pairs) auto
  moreover have "reads_confined takes E w ctx (flagged ''-e'' vs)" "reads_confined takes E w ctx [''-w'', v]" for vs v
    using in_own own by (auto intro!: reads_confined_pairs reads_confined_pair plain_flag_confined)
  ultimately show ?thesis
    using reads_confined_network [OF ok(1), of takes] reads_confined_options [OF ok(2) keys] reads_confined_limits [of takes] limits
    by (intro reads_confined_append) simp_all
qed

lemma image_args_read:
  assumes "takes ''--entrypoint''" "\<not> takes ''--init''" "\<not> starts_with ''-'' img"
  shows "\<exists>fs. read_flags takes (image_command_args img cmd) = (fs, img # tl cmd) \<and> list_all (flag_confined E w ctx) fs"
proof -
  have i: "reads takes [''--init''] [(''--init'', None)]" using assms(2) by (intro reads_switch own_flags_bare)
  have img: "read_flags takes (img # rest) = ([], img # rest)" for rest using assms(3) by simp
  show ?thesis
  proof (cases cmd)
    case Nil
    with i img [of "[]"] show ?thesis by (auto simp: image_command_args_def reads_def plain_flag_confined)
  next
    case (Cons e r)
    have "reads takes [''--entrypoint'', e] [(''--entrypoint'', Some e)]"
      using assms(1) by (intro reads_value own_flags_bare(1)) (simp_all add: own_value_flags_def)
    from reads_append [OF i this] have "read_flags takes (image_command_args img cmd) = ([(''--init'', None), (''--entrypoint'', Some e)], img # r)"
      using img [of r] by (simp add: Cons image_command_args_def reads_def)
    then show ?thesis by (simp add: Cons plain_flag_confined)
  qed
qed


section \<open>A concrete run\<close>

definition demo_sync_job :: JobSpec where
  "demo_sync_job = demo_spec\<lparr>memory_limit := Some 5, cpu_limit := None\<rparr>"

definition demo_ctx :: SyncContext where
  "demo_ctx = \<lparr>ctx_run_id = ''r1'', ctx_job_name = ''debian'', ctx_upstream = Some ''rsync://h/d'', ctx_storage = ''/srv/d'', ctx_worker = None, ctx_proxy = None,
     ctx_egress = None, ctx_job = demo_sync_job, ctx_proxy_env = [], ctx_egress_address = None, ctx_family = ''ipv4'', ctx_log_file = None,
     ctx_scripts_image = None, ctx_manager_url = None\<rparr>"

definition demo_num :: num_lib where
  "demo_num = \<lparr>nl_parse = (\<lambda>s. map_option (\<lambda>n. Fin (of_nat n)) (parse_digits s)), nl_round = (\<lambda>x. x), nl_mul = exact_mul, nl_show = (\<lambda>_. ''1'')\<rparr>"

text \<open>A world that counts what was started; every child prints a status line and ends with exit code 0.\<close>

definition demo_proc :: "nat proc_env" where
  "demo_proc = \<lparr>pr_spawn = (\<lambda>_ w. (Inr (Ended (Some 0) [ReadOk ''SYNORA_STATUS=success''] []), Suc w)), pr_cancelled = (\<lambda>_. False),
     pr_control = (\<lambda>_ w. (Inr \<lparr>co_code = Some 0, co_stdout = [], co_stderr = []\<rparr>, w)), pr_is_file = (\<lambda>_ _. False), pr_is_dir = (\<lambda>_ _. True),
     pr_exists = (\<lambda>_ _. True), pr_canonicalize = (\<lambda>p _. Some p), pr_read = (\<lambda>_ _. None), pr_write = (\<lambda>_ _ w. w), pr_rename = (\<lambda>_ _ w. (Inr (), w)),
     pr_unix_now = (\<lambda>_. 0), pr_num = demo_num\<rparr>"

definition demo_container :: DockerRunSpec where
  "demo_container = \<lparr>ds_image = ''alpine'', ds_command = [''sync''], ds_extra_options = [''--cpus=2'', ''--user'', ''1''], ds_extra_env = [''A=b''],
     ds_extra_volumes = [''/opt/x:/x:ro''], ds_keep_container = False, ds_network = Some ''bridge''\<rparr>"

definition docker_takes :: "string \<Rightarrow> bool" where
  "docker_takes k \<longleftrightarrow> k \<in> set (docker_option_keys @ own_value_flags)"

lemma docker_takes_laws: "\<forall>k \<in> set (docker_option_keys @ own_value_flags). docker_takes k" "\<not> docker_takes ''--rm''" "\<not> docker_takes ''--init''"
  by (simp_all add: docker_takes_def docker_option_keys_def own_value_flags_def)

lemma demo_container_valid:
  "validate_docker_options demo_proc 0 (ds_extra_options demo_container) (ds_extra_volumes demo_container) (ds_network demo_container) = Inr ()"
  by code_simp

lemma demo_proc_simps [simp]:
  "pr_spawn demo_proc cmd w = (Inr (Ended (Some 0) [ReadOk ''SYNORA_STATUS=success''] []), Suc w)" "\<not> pr_cancelled demo_proc w"
  "snd (pr_control demo_proc cmd w) = w"
  by (simp_all add: demo_proc_def)

lemma demo_container_started: "snd (run_named_container demo_proc demo_container demo_ctx 0) = 1"
  using demo_container_valid
  by (simp add: run_named_container_def Let_def io_bind_def io_lift_def run_child_def control_ignored_def)
     (simp add: demo_container_def contains_str_def)


text \<open>The image is not checked: with an image that is a flag Docker reads the flag and takes the next word of the command as the image.\<close>

lemma docker_image_injects:
  defines "spec \<equiv> demo_container\<lparr>ds_image := ''--privileged'', ds_command := [''sh'', ''alpine'']\<rparr>"
  shows "validate_docker_options demo_proc 0 (ds_extra_options spec) (ds_extra_volumes spec) (ds_network spec) = Inr ()
     \<and> (''--privileged'', None) \<in> set (fst (read_flags docker_takes (tl (docker_run_args demo_num spec demo_ctx))))
     \<and> snd (read_flags docker_takes (tl (docker_run_args demo_num spec demo_ctx))) = [''alpine'']"
  unfolding spec_def by code_simp

end
