(* ===== verification/Index_Parser.thy ===== *)
theory Index_Parser
  imports Text_Util
begin

text \<open>
  The listing parsers of \<open>crates/nginx/src/lib.rs\<close> and \<open>crates/parser/src/lib.rs\<close>: nginx and apache index pages, S3 object
  listings, and the decoded items of a Caddy browse page. Bodies are given as their lossy decoding. The calendar
  of the \<open>time\<close> crate, its RFC 3339 parser and the parser of floating point numbers are parameters.
\<close>

section \<open>Entries\<close>

datatype EntryKind = FileEntry | DirEntry | SymlinkEntry

record PrimitiveDateTime =
  dt_year :: int
  dt_month :: nat
  dt_day :: nat
  dt_hour :: nat
  dt_minute :: nat
  dt_second :: nat

record IndexEntry =
  en_path :: string
  en_size :: "nat option"
  en_modified :: "PrimitiveDateTime option"
  en_kind :: EntryKind
  en_symlink_target :: "string option"

record listing_env =
  le_parse_f64 :: "string \<Rightarrow> f64 option"
  le_mul :: "f64 \<Rightarrow> f64 \<Rightarrow> f64"
  le_valid_date :: "int \<Rightarrow> nat \<Rightarrow> nat \<Rightarrow> bool"
  le_rfc3339 :: "string \<Rightarrow> PrimitiveDateTime option"       \<comment> \<open>its local date and time, seconds truncated\<close>
  le_plain_time :: "string \<Rightarrow> PrimitiveDateTime option"    \<comment> \<open>\<open>[year]-[month]-[day]T[hour]:[minute]:[second]\<close>\<close>

section \<open>Text of a page\<close>

definition decode_entities :: "string \<Rightarrow> string" where
  "decode_entities s =
     replace_str ''&#39;'' [CHR 0x27] (replace_str ''&quot;'' [CHR 0x22] (replace_str ''&gt;'' ''>''
       (replace_str ''&lt;'' ''<'' (replace_str ''&amp;'' ''&'' s))))"

fun strip_tags :: "bool \<Rightarrow> string \<Rightarrow> string" where
  "strip_tags in_tag [] = []"
| "strip_tags in_tag (c # s) =
     (if c = CHR ''<'' then strip_tags True s
      else if c = CHR ''>'' then CHR '' '' # strip_tags False s
      else if in_tag then strip_tags True s
      else c # strip_tags False s)"

definition strip_html :: "string \<Rightarrow> string" where
  "strip_html s = decode_entities (trim (strip_tags False s))"

definition trim_start :: "string \<Rightarrow> string" where
  "trim_start s = dropWhile is_ws s"

text \<open>\<open>split_once\<close> at the first character that satisfies a predicate.\<close>

definition split_at_char :: "(char \<Rightarrow> bool) \<Rightarrow> string \<Rightarrow> (string \<times> string) option" where
  "split_at_char p s = (case dropWhile (\<lambda>c. \<not> p c) s of [] \<Rightarrow> None | _ # b \<Rightarrow> Some (takeWhile (\<lambda>c. \<not> p c) s, b))"

definition extract_href :: "string \<Rightarrow> string option" where
  "extract_href tag =
     (case find_str ''href'' (to_ascii_lowercase tag) of
        None \<Rightarrow> None
      | Some pos \<Rightarrow>
          (case strip_prefix ''='' (trim_start (drop (pos + 4) tag)) of
             None \<Rightarrow> None
           | Some r \<Rightarrow>
               (case trim_start r of
                  [] \<Rightarrow> None
                | c # rest \<Rightarrow>
                    map_option (decode_entities \<circ> fst)
                      (if c = CHR 0x22 then split_once (CHR 0x22) rest
                       else if c = CHR 0x27 then split_once (CHR 0x27) rest
                       else split_at_char (\<lambda>x. x \<in> {CHR '' '', CHR ''>''}) (c # rest)))))"

definition from_hex :: "char \<Rightarrow> nat option" where
  "from_hex c =
     (let b = (of_char c :: nat)
      in if 48 \<le> b \<and> b \<le> 57 then Some (b - 48)
         else if 97 \<le> b \<and> b \<le> 102 then Some (b - 97 + 10)
         else if 65 \<le> b \<and> b \<le> 70 then Some (b - 65 + 10)
         else None)"

text \<open>The bytes of the decoded string, before their lossy decoding.\<close>

fun percent_decode :: "string \<Rightarrow> string" where
  "percent_decode (c # h # l # s) =
     (if c = CHR ''%'' then
        (case (from_hex h, from_hex l) of
           (Some hi, Some lo) \<Rightarrow> char_of (hi * 16 + lo) # percent_decode s
         | _ \<Rightarrow> c # percent_decode (h # l # s))
      else c # percent_decode (h # l # s))"
| "percent_decode s = s"

definition is_listable :: "string \<Rightarrow> bool" where
  "is_listable href \<longleftrightarrow>
     \<not> (href \<in> {''../'', ''..'', ''/''} \<or> starts_with ''http://'' href \<or> starts_with ''https://'' href
        \<or> starts_with ''mailto:'' href \<or> CHR ''?'' \<in> set href)
     \<and> \<not> list_ex (\<lambda>c. is_ws c \<or> c = CHR ''<'' \<or> c = CHR ''>'') href
     \<and> ''..'' \<notin> set (split_char (CHR ''/'') href)
     \<and> (let n = last (split_char (CHR ''/'') (trim_end_where is_slash href)) in n \<noteq> [] \<and> n \<noteq> ''.'')"

definition classify :: "string \<Rightarrow> string \<Rightarrow> EntryKind \<times> string \<times> string option" where
  "classify display href =
     (let path = percent_decode href
      in if ends_with ''/'' href then (DirEntry, path, None)
         else if ends_with ''@'' (trim_end_where is_slash display) then (SymlinkEntry, path, None)
         else (FileEntry, path, None))"

section \<open>Dates and sizes beside a link\<close>

definition listing_months :: "string list" where
  "listing_months = [''jan'', ''feb'', ''mar'', ''apr'', ''may'', ''jun'', ''jul'', ''aug'', ''sep'', ''oct'', ''nov'', ''dec'']"

definition two_ascii_digits :: "char \<Rightarrow> char \<Rightarrow> nat option" where
  "two_ascii_digits a b = (if \<not> is_digit a \<or> \<not> is_digit b then None else Some (digit_val a * 10 + digit_val b))"

fun position_of :: "'a \<Rightarrow> 'a list \<Rightarrow> nat option" where
  "position_of x [] = None"
| "position_of x (y # ys) = (if x = y then Some 0 else map_option Suc (position_of x ys))"

text \<open>The fields of a window that has the separators of a date.\<close>

definition window_date :: "listing_env \<Rightarrow> string \<Rightarrow> PrimitiveDateTime option" where
  "window_date L w =
     (case (two_ascii_digits (w ! 0) (w ! 1), position_of (to_ascii_lowercase (take 3 (drop 3 w))) listing_months,
            two_ascii_digits (w ! 7) (w ! 8), two_ascii_digits (w ! 9) (w ! 10), two_ascii_digits (w ! 12) (w ! 13), two_ascii_digits (w ! 15) (w ! 16)) of
        (Some day, Some m, Some y1, Some y2, Some hour, Some minute) \<Rightarrow>
          let year = int y1 * 100 + int y2
          in if le_valid_date L year (m + 1) day \<and> hour < 24 \<and> minute < 60
             then Some \<lparr>dt_year = year, dt_month = m + 1, dt_day = day, dt_hour = hour, dt_minute = minute, dt_second = 0\<rparr>
             else None
      | _ \<Rightarrow> None)"

text \<open>The loop over the windows: \<open>n\<close> windows are left, the last one of the text is never looked at.\<close>

fun find_date_from :: "listing_env \<Rightarrow> nat \<Rightarrow> string \<Rightarrow> PrimitiveDateTime option" where
  "find_date_from L 0 s = None"
| "find_date_from L (Suc n) s =
     (let w = take 17 s
      in if w ! 2 \<noteq> CHR ''-'' \<or> w ! 6 \<noteq> CHR ''-'' \<or> w ! 11 \<noteq> CHR '' '' then find_date_from L n (tl s)
         else window_date L w)"

definition find_date :: "listing_env \<Rightarrow> string \<Rightarrow> PrimitiveDateTime option" where
  "find_date L text = find_date_from L (length text - 17) text"

text \<open>\<open>f64::round\<close>: to the nearest integer, halves away from zero; the result is exact.\<close>

fun f64_round :: "f64 \<Rightarrow> f64" where
  "f64_round (Fin r) = Fin (of_int (if 0 \<le> r then \<lfloor>r + 1 / 2\<rfloor> else \<lceil>r - 1 / 2\<rceil>))"
| "f64_round x = x"

definition size_unit :: "char \<Rightarrow> rat option" where
  "size_unit c =
     (if c = CHR ''K'' then Some 1024 else if c = CHR ''M'' then Some (1024 ^ 2)
      else if c = CHR ''G'' then Some (1024 ^ 3) else if c = CHR ''T'' then Some (1024 ^ 4) else None)"

definition parse_size_token :: "listing_env \<Rightarrow> string \<Rightarrow> nat option" where
  "parse_size_token L tok =
     (if tok = [] then None
      else let (num, mult) = (case size_unit (last tok) of Some u \<Rightarrow> (butlast tok, u) | None \<Rightarrow> (tok, 1))
           in map_option (\<lambda>v. f64_as_u64 (f64_round (le_mul L v (Fin mult)))) (le_parse_f64 L num))"

text \<open>A dash of either kind ends the search; the long one is the bytes of its UTF-8 encoding.\<close>

fun find_size_in :: "listing_env \<Rightarrow> string list \<Rightarrow> nat option" where
  "find_size_in L [] = None"
| "find_size_in L (tok # toks) =
     (if tok = ''-'' \<or> tok = [CHR 0xE2, CHR 0x80, CHR 0x94] then None
      else (case parse_size_token L tok of Some n \<Rightarrow> Some n | None \<Rightarrow> find_size_in L toks))"

definition find_size :: "listing_env \<Rightarrow> string \<Rightarrow> nat option" where
  "find_size L text = find_size_in L (split_whitespace text)"

definition scan_trailing :: "listing_env \<Rightarrow> string \<Rightarrow> nat option \<times> PrimitiveDateTime option" where
  "scan_trailing L trailing =
     (let text = map (\<lambda>c. if c = CHR 0x0A then CHR '' '' else c) (strip_html (take 400 trailing))
      in (find_size L text, find_date L text))"

section \<open>The index page\<close>

definition page_entry :: "listing_env \<Rightarrow> string \<Rightarrow> string \<Rightarrow> string \<Rightarrow> IndexEntry list" where
  "page_entry L href label trailing =
     (if \<not> is_listable href then []
      else
        (let n = (if label = [] then href else label);
             (size, modified) = scan_trailing L trailing;
             (kind, path, target) = classify (trim n) href
         in [\<lparr>en_path = path, en_size = size, en_modified = modified, en_kind = kind, en_symlink_target = target\<rparr>]))"

function nginx_parse :: "listing_env \<Rightarrow> string \<Rightarrow> IndexEntry list" where
  "nginx_parse L rest =
     (case find_str ''<a '' rest of
        None \<Rightarrow> []
      | Some pos \<Rightarrow>
          (let after_a = drop (pos + 3) rest
           in case find_str ''>'' after_a of
                None \<Rightarrow> []
              | Some tag_end \<Rightarrow>
                  (let after_tag = drop (tag_end + 1) after_a
                   in case extract_href (take tag_end after_a) of
                        None \<Rightarrow> nginx_parse L after_tag
                      | Some href \<Rightarrow>
                          (case find_str ''</a>'' after_tag of
                             None \<Rightarrow> []
                           | Some link_end \<Rightarrow>
                               (let trailing = drop (link_end + 4) after_tag
                                in page_entry L href (strip_html (take link_end after_tag)) trailing @ nginx_parse L trailing)))))"
  by pat_completeness auto

termination
proof (relation "measure (\<lambda>(L, s). length s)", goal_cases)
  case (2 L rest pos after_a tag_end after_tag)
  then show ?case using find_str_SomeD [of "''<a ''" rest pos] by auto
next
  case (3 L rest pos after_a tag_end after_tag href link_end trailing)
  then show ?case using find_str_SomeD [of "''<a ''" rest pos] by auto
qed simp

declare nginx_parse.simps [simp del]

section \<open>S3 and Caddy\<close>

definition parse_mod_time :: "listing_env \<Rightarrow> string \<Rightarrow> PrimitiveDateTime option" where
  "parse_mod_time L s =
     (case le_rfc3339 L s of
        Some t \<Rightarrow> Some t
      | None \<Rightarrow>
          (let t = map (\<lambda>c. if c = CHR '' '' then CHR ''T'' else c) (trim s);
               t = takeWhile (\<lambda>c. c \<notin> {CHR ''Z'', CHR ''+'', CHR ''.''}) t
           in le_plain_time L (take 19 t)))"

definition open_tag :: "string \<Rightarrow> string" where "open_tag tag = ''<'' @ tag @ ''>''"
definition close_tag :: "string \<Rightarrow> string" where "close_tag tag = ''</'' @ tag @ ''>''"

text \<open>The first block of a tag, and the text after it.\<close>

definition take_block :: "string \<Rightarrow> string \<Rightarrow> (string \<times> string) option" where
  "take_block tag rest =
     (case split_once_str (open_tag tag) rest of
        None \<Rightarrow> None
      | Some (_, r) \<Rightarrow> split_once_str (close_tag tag) r)"

definition inner_tag :: "string \<Rightarrow> string \<Rightarrow> string option" where
  "inner_tag tag block = map_option (decode_entities \<circ> fst) (take_block tag block)"

lemma split_once_str_SomeD: "split_once_str p s = Some (a, b) \<Longrightarrow> s = a @ p @ b"
  by (auto simp: split_once_str_def dest!: find_str_SomeD)
     (metis append_take_drop_id add.commute drop_drop prefixE same_append_eq append_eq_conv_conj)

lemma take_block_shorter: "take_block tag s = Some (b, r) \<Longrightarrow> length r < length s"
  by (auto simp: take_block_def close_tag_def dest!: split_once_str_SomeD split: option.splits)

function all_blocks :: "string \<Rightarrow> string \<Rightarrow> string list" where
  "all_blocks tag s = (case take_block tag s of None \<Rightarrow> [] | Some (b, r) \<Rightarrow> b # all_blocks tag r)"
  by pat_completeness auto

termination
  by (relation "measure (\<lambda>(t, s). length s)") (auto simp: take_block_shorter)

declare all_blocks.simps [simp del]

definition s3_object :: "listing_env \<Rightarrow> string \<Rightarrow> IndexEntry option" where
  "s3_object L contents =
     (case inner_tag ''Key'' contents of
        None \<Rightarrow> None
      | Some key \<Rightarrow>
          if key = [] then None
          else Some \<lparr>en_path = key, en_size = Option.bind (inner_tag ''Size'' contents) (parse_unsigned u64_max),
                     en_modified = Option.bind (inner_tag ''LastModified'' contents) (parse_mod_time L),
                     en_kind = (if ends_with ''/'' key then DirEntry else FileEntry), en_symlink_target = None\<rparr>)"

definition s3_prefix :: "string \<Rightarrow> IndexEntry option" where
  "s3_prefix block =
     (case inner_tag ''Prefix'' block of
        None \<Rightarrow> None
      | Some p \<Rightarrow> if p = [] then None
                  else Some \<lparr>en_path = p, en_size = None, en_modified = None, en_kind = DirEntry, en_symlink_target = None\<rparr>)"

definition s3_parse :: "listing_env \<Rightarrow> string \<Rightarrow> IndexEntry list" where
  "s3_parse L text = filter_map (s3_object L) (all_blocks ''Contents'' text) @ filter_map s3_prefix (all_blocks ''CommonPrefixes'' text)"

record CaddyItem =
  ci_name :: string
  ci_size :: "nat option"
  ci_mod_time :: "string option"
  ci_is_dir :: bool

text \<open>\<open>items\<close> is the decoded JSON, \<open>None\<close> when it does not decode.\<close>

definition caddy_parse :: "listing_env \<Rightarrow> CaddyItem list option \<Rightarrow> IndexEntry list" where
  "caddy_parse L items =
     (case items of
        None \<Rightarrow> []
      | Some is \<Rightarrow>
          map (\<lambda>i. \<lparr>en_path = ci_name i, en_size = ci_size i, en_modified = Option.bind (ci_mod_time i) (parse_mod_time L),
                    en_kind = (if ci_is_dir i then DirEntry else FileEntry), en_symlink_target = None\<rparr>)
            (filter (\<lambda>i. ci_name i \<notin> {[], ''.'', ''..''}) is))"

text \<open>The parser of a name. \<open>json\<close> decodes a Caddy page.\<close>

definition parser_for :: "listing_env \<Rightarrow> (string \<Rightarrow> CaddyItem list option) \<Rightarrow> string \<Rightarrow> (string \<Rightarrow> IndexEntry list) option" where
  "parser_for L json n =
     (if n \<in> {''nginx'', ''apache'', ''directory-listing''} then Some (nginx_parse L)
      else if n = ''caddy'' then Some (caddy_parse L \<circ> json)
      else if n = ''s3'' then Some (s3_parse L)
      else if n = ''fallback'' then Some (\<lambda>_. [])
      else None)"

section \<open>Pages as servers write them\<close>

text \<open>An index page: links with their labels, each followed by text without another anchor.\<close>

definition page_link :: "string \<times> string \<times> string \<Rightarrow> string" where
  "page_link = (\<lambda>(href, label, tail). ''<a href='' @ [CHR 0x22] @ href @ [CHR 0x22] @ ''>'' @ label @ ''</a>'' @ tail)"

definition index_page :: "string \<Rightarrow> (string \<times> string \<times> string) list \<Rightarrow> string" where
  "index_page pre links = pre @ concat (map page_link links)"

definition no_anchor :: "string \<Rightarrow> bool" where
  "no_anchor s \<longleftrightarrow> find_str ''<a '' s = None"

definition link_ok :: "string \<times> string \<times> string \<Rightarrow> bool" where
  "link_ok = (\<lambda>(href, label, tail). set href \<inter> {CHR 0x22, CHR ''>'', CHR ''&''} = {} \<and> CHR ''<'' \<notin> set label \<and> no_anchor tail)"

lemma find_str_None: "p \<noteq> [] \<Longrightarrow> find_str p s = None \<longleftrightarrow> (\<forall>n. \<not> prefix p (drop n s))"
proof (induction s)
  case (Cons x s)
  have "(\<forall>n. \<not> prefix p (drop n (x # s))) \<longleftrightarrow> \<not> prefix p (x # s) \<and> (\<forall>n. \<not> prefix p (drop n s))"
    by (metis drop0 drop_Suc_Cons not0_implies_Suc)
  with Cons show ?case by simp
qed (auto simp: prefix_def)

lemma find_anchor:
  assumes "no_anchor a"
  shows "find_str ''<a '' (a @ ''<a '' @ b) = Some (length a)"
proof -
  have no: "\<not> prefix ''<a '' (drop n a)" for n using assms find_str_None [of "''<a ''" a] by (simp add: no_anchor_def)
  have "\<not> prefix ''<a '' (drop n a @ ''<a '' @ b)" if "n < length a" for n
    using no [of n] that by (cases "drop n a"; cases "tl (drop n a)"; cases "tl (tl (drop n a))") auto
  then have "find_str ''<a '' (a @ ''<a '' @ b) = map_option ((+) (length a)) (find_str ''<a '' (''<a '' @ b))" by (intro find_str_skip) auto
  then show ?thesis by simp
qed

lemma decode_plain: "CHR ''&'' \<notin> set s \<Longrightarrow> decode_entities s = s"
  using replace_str_absent [of _ "CHR ''&''" _ s] by (simp add: decode_entities_def)

lemma extract_plain_href:
  assumes "CHR 0x22 \<notin> set href" and "CHR ''&'' \<notin> set href"
  shows "extract_href (''href='' @ [CHR 0x22] @ href @ [CHR 0x22]) = Some href"
  using split_once_append [OF assms(1), of "[]"] decode_plain [OF assms(2)]
  by (simp add: extract_href_def to_ascii_lowercase_def to_lower_def trim_start_def is_ws_def strip_prefix_def)

lemma find_close:
  assumes "CHR ''<'' \<notin> set label"
  shows "find_str ''</a>'' (label @ ''</a>'' @ b) = Some (length label)"
  by (rule find_str_first [of _ "CHR ''<''" "''/a>''"]) (use assms in simp_all)

lemma nginx_parse_link:
  assumes "no_anchor pre" and "link_ok (href, label, tail)"
  shows "nginx_parse L (pre @ page_link (href, label, tail) @ b)
    = page_entry L href (strip_html label) (tail @ b) @ nginx_parse L (tail @ b)"
proof -
  let ?tag = "''href='' @ [CHR 0x22] @ href @ [CHR 0x22]"
  have ok: "CHR 0x22 \<notin> set href" "CHR ''>'' \<notin> set href" "CHR ''&'' \<notin> set href" "CHR ''<'' \<notin> set label" using assms(2) by (auto simp: link_ok_def)
  have split: "pre @ page_link (href, label, tail) @ b = pre @ ''<a '' @ ?tag @ ''>'' @ label @ ''</a>'' @ tail @ b" by (simp add: page_link_def)
  have one: "find_str ''<a '' (pre @ ''<a '' @ c) = Some (length pre)" for c by (rule find_anchor [OF assms(1)])
  have two: "find_str ''>'' (?tag @ ''>'' @ c) = Some (length ?tag)" for c
    by (rule find_str_first [of "''>''" "CHR ''>''" "[]"]) (use ok in simp_all)
  have "drop (length pre + 3) (pre @ ''<a '' @ c) = c" for c by simp
  then show ?thesis unfolding split
    by (subst nginx_parse.simps) (simp only: one two option.case Let_def, simp add: extract_plain_href [OF ok(1,3), simplified] find_close [OF ok(4), simplified])
qed

lemma nginx_parse_end: "no_anchor s \<Longrightarrow> nginx_parse L s = []"
  by (subst nginx_parse.simps) (simp add: no_anchor_def)

lemma page_entry_path:
  "map en_path (page_entry L href label trailing) = (if is_listable href then [percent_decode href] else [])"
  "map (\<lambda>e. en_kind e = DirEntry) (page_entry L href label trailing) = (if is_listable href then [ends_with ''/'' href] else [])"
  by (simp_all add: page_entry_def classify_def Let_def split: prod.split)

lemma index_page_entries:
  assumes "no_anchor pre" and "\<forall>l \<in> set links. link_ok l"
  shows "map en_path (nginx_parse L (index_page pre links)) = map (percent_decode \<circ> fst) (filter (is_listable \<circ> fst) links)"
    and "map (\<lambda>e. en_kind e = DirEntry) (nginx_parse L (index_page pre links)) = map (ends_with ''/'' \<circ> fst) (filter (is_listable \<circ> fst) links)"
  using assms
proof (induction links arbitrary: pre)
  case Nil
  {
    case 1
    then show ?case by (simp add: index_page_def nginx_parse_end)
  next
    case 2
    then show ?case by (simp add: index_page_def nginx_parse_end)
  }
next
  case (Cons l links)
  obtain href label tail where l: "l = (href, label, tail)" by (cases l) auto
  have parse: "nginx_parse L (index_page pre (l # links)) = page_entry L href (strip_html label) (tail @ concat (map page_link links)) @ nginx_parse L (index_page tail links)"
    if "no_anchor pre" "\<forall>l \<in> set (l # links). link_ok l" for pre
    using nginx_parse_link [of pre href label tail L "concat (map page_link links)"] that by (simp add: index_page_def l)
  have tail: "no_anchor tail" if "\<forall>l \<in> set (l # links). link_ok l" using that by (simp add: l link_ok_def)
  {
    case 1
    then show ?case using Cons.IH(1) [OF tail] parse [OF 1] by (simp add: page_entry_path l)
  next
    case 2
    then show ?case using Cons.IH(2) [OF tail] parse [OF 2] by (simp add: page_entry_path l)
  }
qed

section \<open>Percent encoding\<close>

definition hex_digit :: "nat \<Rightarrow> char" where
  "hex_digit n = (if n < 10 then char_of (n + 48) else char_of (n - 10 + 65))"

definition unreserved :: "char \<Rightarrow> bool" where
  "unreserved c \<longleftrightarrow> (let b = (of_char c :: nat) in (48 \<le> b \<and> b \<le> 57) \<or> (65 \<le> b \<and> b \<le> 90) \<or> (97 \<le> b \<and> b \<le> 122)
     \<or> c \<in> {CHR ''-'', CHR ''.'', CHR ''_'', CHR ''~''})"

definition encode_byte :: "char \<Rightarrow> string" where
  "encode_byte c = (if unreserved c then [c] else [CHR ''%'', hex_digit (of_char c div 16), hex_digit (of_char c mod 16)])"

definition percent_encode :: "string \<Rightarrow> string" where
  "percent_encode s = concat (map encode_byte s)"

lemma of_char_byte: "b < 256 \<Longrightarrow> (of_char (char_of b) :: nat) = b"
  by simp

lemma from_hex_digit: "n < 16 \<Longrightarrow> from_hex (hex_digit n) = Some n"
  by (simp add: from_hex_def hex_digit_def Let_def)

lemma of_char_bound: "(of_char c :: nat) < 256"
  by simp

lemma percent_decode_plain: "c \<noteq> CHR ''%'' \<Longrightarrow> percent_decode (c # s) = c # percent_decode s"
  by (cases s; cases "tl s") auto

lemma percent_decode_encoded: "percent_decode (encode_byte c @ s) = c # percent_decode s"
proof (cases "unreserved c")
  case True
  then have "c \<noteq> CHR ''%''" by (auto simp: unreserved_def Let_def)
  with True show ?thesis by (simp add: encode_byte_def percent_decode_plain)
next
  case False
  have "char_of (of_char c div 16 * 16 + of_char c mod 16 :: nat) = c" by simp
  with False show ?thesis using of_char_bound [of c] by (simp add: encode_byte_def from_hex_digit less_mult_imp_div_less)
qed

lemma percent_roundtrip: "percent_decode (percent_encode s) = s"
  by (induction s) (simp_all add: percent_encode_def percent_decode_encoded)

lemma hex_digit_unreserved: "n < 16 \<Longrightarrow> unreserved (hex_digit n)"
  by (auto simp: hex_digit_def unreserved_def Let_def)

lemma encode_chars: "c \<in> set (percent_encode s) \<Longrightarrow> unreserved c \<or> c = CHR ''%''"
  using of_char_bound by (fastforce simp: percent_encode_def encode_byte_def less_mult_imp_div_less hex_digit_unreserved split: if_splits)

lemma unreserved_safe:
  "unreserved c \<or> c = CHR ''%'' \<Longrightarrow> c \<notin> {CHR 0x22, CHR ''>'', CHR ''<'', CHR ''&'', CHR ''?'', CHR ''/'', CHR '':''} \<and> \<not> is_ws c"
  by (auto simp: unreserved_def Let_def is_ws_def)

lemma encode_safe: "c \<in> set (percent_encode s) \<Longrightarrow> c \<notin> {CHR 0x22, CHR ''>'', CHR ''<'', CHR ''&'', CHR ''?'', CHR ''/'', CHR '':''} \<and> \<not> is_ws c"
  by (rule unreserved_safe [OF encode_chars])

lemma percent_encode_eq: "\<forall>c \<in> set t. unreserved c \<Longrightarrow> percent_encode s = t \<longleftrightarrow> s = t"
proof -
  assume t: "\<forall>c \<in> set t. unreserved c"
  then have "percent_encode t = t" by (induction t) (auto simp: percent_encode_def encode_byte_def)
  then show ?thesis using percent_roundtrip [of s] percent_roundtrip [of t] by metis
qed

text \<open>A name of a directory entry: not empty, no slash, neither of the two special names.\<close>

definition plain_name :: "string \<Rightarrow> bool" where
  "plain_name n \<longleftrightarrow> n \<noteq> [] \<and> CHR ''/'' \<notin> set n \<and> n \<noteq> ''.'' \<and> n \<noteq> ''..''"

definition entry_href :: "string \<times> bool \<Rightarrow> string" where
  "entry_href = (\<lambda>(n, dir). percent_encode n @ (if dir then ''/'' else ''''))"

lemma entry_href_chars: "c \<in> set (entry_href e) \<Longrightarrow> c \<notin> {CHR 0x22, CHR ''>'', CHR ''<'', CHR ''&'', CHR ''?'', CHR '':''} \<and> \<not> is_ws c"
proof -
  assume "c \<in> set (entry_href e)"
  then have "c \<in> set (percent_encode (fst e)) \<or> c = CHR ''/''" by (cases e) (auto simp: entry_href_def split: if_splits)
  then show ?thesis
  proof
    assume "c \<in> set (percent_encode (fst e))"
    then show ?thesis using encode_safe [of c "fst e"] by simp
  qed (simp add: is_ws_def)
qed

lemma entry_href_listable:
  assumes "plain_name n"
  shows "is_listable (entry_href (n, dir))"
proof -
  let ?e = "percent_encode n" and ?h = "entry_href (n, dir)"
  have slash: "CHR ''/'' \<notin> set ?e" using encode_safe by blast
  have ne: "?e \<noteq> []" "?e \<noteq> ''.''" "?e \<noteq> ''..''"
    using percent_encode_eq [of "[]" n] percent_encode_eq [of "''.''" n] percent_encode_eq [of "''..''" n] assms
    by (auto simp: plain_name_def unreserved_def)
  have pieces: "split_char (CHR ''/'') ?h = (if dir then [?e, []] else [?e])"
    using split_char_append [OF slash, of "[]"] by (simp add: entry_href_def split_char_no_sep slash)
  have "last ?e \<noteq> CHR ''/''" using slash ne(1) by (metis last_in_set)
  then have trimmed: "trim_end_where is_slash ?h = ?e"
    using ne(1) trim_end_where_id [of ?e is_slash] by (simp add: entry_href_def) (simp add: trim_end_where_def)
  have colon: "\<not> prefix ''http://'' ?h" "\<not> prefix ''https://'' ?h" "\<not> prefix ''mailto:'' ?h"
    using entry_href_chars [of "CHR '':''" "(n, dir)"] by (auto dest: set_mono_prefix)
  have special: "?h \<noteq> ''../''" "?h \<noteq> ''..''" "?h \<noteq> ''/''" using ne slash by (auto simp: entry_href_def append_eq_Cons_conv split: if_splits)
  have quest: "CHR ''?'' \<notin> set ?h" using entry_href_chars [of "CHR ''?''" "(n, dir)"] by blast
  have ws: "\<not> list_ex (\<lambda>c. is_ws c \<or> c = CHR ''<'' \<or> c = CHR ''>'') ?h"
    using entry_href_chars [of _ "(n, dir)"] by (auto simp: list_ex_iff)
  show ?thesis using colon special quest ws ne
    unfolding is_listable_def starts_with_def pieces trimmed Let_def split_char_no_sep [OF slash] by (simp split: if_splits)
qed

lemma percent_decode_href: "percent_decode (entry_href (n, dir)) = n @ (if dir then ''/'' else '''')"
proof -
  have "percent_decode (percent_encode n @ s) = n @ percent_decode s" for s
    by (induction n) (simp_all add: percent_encode_def percent_decode_encoded)
  then show ?thesis by (simp add: entry_href_def)
qed

lemma ends_with_href: "CHR ''/'' \<notin> set n \<Longrightarrow> ends_with ''/'' (entry_href (n, dir)) = dir"
proof -
  have "CHR ''/'' \<notin> set (percent_encode n)" using encode_safe by blast
  then show ?thesis by (auto simp: ends_with_def entry_href_def suffix_def)
qed

lemma map_both: "map f xs = map f' ys \<Longrightarrow> map g xs = map g' ys \<Longrightarrow> map (\<lambda>x. (f x, g x)) xs = map (\<lambda>y. (f' y, g' y)) ys"
  by (induction xs arbitrary: ys) (auto simp: Cons_eq_map_conv)

section \<open>Properties\<close>


definition demo_listing :: listing_env where
  "demo_listing = \<lparr>le_parse_f64 = (\<lambda>s. map_option (\<lambda>n. Fin (of_nat n)) (parse_digits s)), le_mul = exact_mul,
     le_valid_date = (\<lambda>y m d. 1 \<le> d \<and> d \<le> 28), le_rfc3339 = (\<lambda>_. None), le_plain_time = (\<lambda>_. None)\<rparr>"


text \<open>The last window of a text is not looked at: a date at its end is missed.\<close>

lemma find_date_at_end: "length text = 17 \<Longrightarrow> find_date L text = None"
  by (simp add: find_date_def)

text \<open>Entities are decoded twice when the ampersand of one is itself encoded.\<close>

lemma decode_entities_twice: "decode_entities ''&amp;lt;'' = ''<''"
  by code_simp

text \<open>The size of a link is looked for in the text of the links after it.\<close>

lemma size_of_the_next_link:
  "fst (scan_trailing demo_listing (page_link (''7'', ''7'', ''''))) = Some 7"
proof -
  have "strip_html (take 400 (page_link (''7'', ''7'', ''''))) = ''7''" by code_simp
  moreover have "split_whitespace ''7'' = [''7'']" by code_simp
  moreover have "parse_digits ''7'' = Some 7" by code_simp
  moreover have "\<lfloor>15 / 2 :: rat\<rfloor> = 7" by (rule floor_unique) simp_all
  ultimately show ?thesis
    by (simp add: scan_trailing_def find_size_def parse_size_token_def size_unit_def demo_listing_def u64_max_def Let_def)
qed

end
