(* ===== verification/Httpfetch.thy ===== *)
theory Httpfetch
  imports Index_Parser Storage "HOL-Library.Multiset"
begin

text \<open>
  The HTTP mirror synchronisation of \<open>crates/httpfetch/src/lib.rs\<close>: planning over directory listings and the
  execution of a plan. Listings arrive in any order: a schedule says which of the requests in flight ends next, or that one
  panics, or that the run is cancelled. The local mirror is a tree. HTTP, the glob crate and the outcome of file
  operations are parameters; log lines and rates are left out.
\<close>

section \<open>Data\<close>

definition MAX_ENTRIES :: nat where "MAX_ENTRIES = 1000000"
definition MAX_DEPTH :: nat where "MAX_DEPTH = 16"

datatype FetchError = FeHttp string | FeStatus nat | FeIo string | FeCancelled

fun fetch_error_text :: "FetchError \<Rightarrow> string" where
  "fetch_error_text (FeHttp s) = ''http error: '' @ s"
| "fetch_error_text (FeStatus n) = ''http status '' @ show_nat n"
| "fetch_error_text (FeIo s) = ''io error: '' @ s"
| "fetch_error_text FeCancelled = ''cancelled''"

record FetchStats =
  fs_downloaded_bytes :: nat
  fs_files_downloaded :: nat
  fs_files_deleted :: nat
  fs_files_symlinked :: nat
  fs_files_skipped :: nat
  fs_files_failed :: nat
  fs_files_warned :: nat
  fs_warning_paths :: "string list"
  fs_total_size_hint :: "nat option"

text \<open>Destinations are paths relative to the storage root, as they are joined to it.\<close>

record Plan =
  pl_downloads :: "(string \<times> string) list"
  pl_deletes :: "string list"
  pl_delete_dirs :: "string list"
  pl_symlinks :: "(string \<times> string) list"
  pl_manifests :: "(string \<times> string) list"
  pl_size_sum :: nat
  pl_size_unknown :: bool
  pl_total_size_hint :: "nat option"
  pl_incomplete :: bool

definition empty_plan :: Plan where
  "empty_plan = \<lparr>pl_downloads = [], pl_deletes = [], pl_delete_dirs = [], pl_symlinks = [], pl_manifests = [],
     pl_size_sum = 0, pl_size_unknown = False, pl_total_size_hint = None, pl_incomplete = False\<rparr>"

record DirectoryWork =
  dw_url :: string
  dw_rel :: string
  dw_depth :: nat
  dw_root :: bool

record ExcludePattern =
  xp_prefix :: string
  xp_glob :: "(string \<Rightarrow> bool) option"

section \<open>Paths and patterns\<close>

definition is_safe_rel :: "string \<Rightarrow> bool" where
  "is_safe_rel p \<longleftrightarrow> p \<noteq> [] \<and> p \<noteq> ''.'' \<and> \<not> starts_with ''/'' p \<and> ''..'' \<notin> set (split_char (CHR ''/'') p)"

definition url_join :: "string \<Rightarrow> string \<Rightarrow> string" where
  "url_join base p = trim_end_where is_slash base @ ''/'' @ trim_start_where is_slash p"

definition join_slash :: "string \<Rightarrow> string \<Rightarrow> string" where
  "join_slash base p = (let url = url_join base p in if ends_with ''/'' url then url else url @ ''/'')"

text \<open>\<open>glob_new\<close> is \<open>glob::Pattern::new\<close> with the options of \<open>is_excluded\<close>.\<close>

definition with_excludes :: "(string \<Rightarrow> (string \<Rightarrow> bool) option) \<Rightarrow> string list \<Rightarrow> ExcludePattern list" where
  "with_excludes glob_new xs =
     map (\<lambda>p. \<lparr>xp_prefix = p, xp_glob = glob_new p\<rparr>) (filter (\<lambda>p. p \<noteq> []) (map (trim_where is_slash) xs))"

definition slash_positions :: "string \<Rightarrow> nat list" where
  "slash_positions s = filter (\<lambda>i. s ! i = CHR ''/'') [0..<length s]"

definition is_excluded :: "string \<Rightarrow> ExcludePattern list \<Rightarrow> bool" where
  "is_excluded rel xs =
     (let rel = trim_where is_slash rel
      in list_ex (\<lambda>x. rel = xp_prefix x
           \<or> (case strip_prefix (xp_prefix x) rel of Some r \<Rightarrow> starts_with ''/'' r | None \<Rightarrow> False)
           \<or> (case xp_glob x of None \<Rightarrow> False | Some g \<Rightarrow> list_ex (\<lambda>i. g (take i rel)) (slash_positions rel @ [length rel]))) xs)"

definition is_critical_metadata :: "string \<Rightarrow> bool" where
  "is_critical_metadata p =
     (let cs = path_components p; n = (if cs = [] \<or> last cs = ''..'' then [] else last cs)
      in ''repodata'' \<in> set cs \<or> n \<in> {''Release'', ''Release.gpg'', ''InRelease'', ''repomd.xml'', ''index.html''}
         \<or> hd (split_char (CHR ''.'') n) \<in> {''Packages'', ''Sources''})"

section \<open>The local mirror\<close>

datatype node = FileNode nat "PrimitiveDateTime option" | LinkNode string | DirNode "(string \<times> node) list" | OtherNode

text \<open>\<open>symlink_metadata\<close>: the node at a path. \<open>beyond\<close> answers for paths that lead through a symlink.\<close>

fun node_at :: "(string list \<Rightarrow> node option) \<Rightarrow> node \<Rightarrow> string list \<Rightarrow> node option" where
  "node_at beyond n [] = Some n"
| "node_at beyond (DirNode es) (c # cs) = (case map_of es c of None \<Rightarrow> None | Some m \<Rightarrow> node_at beyond m cs)"
| "node_at beyond (LinkNode t) (c # cs) = beyond (c # cs)"
| "node_at beyond n (c # cs) = None"

definition local_matches :: "node option \<Rightarrow> IndexEntry \<Rightarrow> bool" where
  "local_matches found entry =
     (case found of
        None \<Rightarrow> False
      | Some (FileNode len mtime) \<Rightarrow>
          (case en_size entry of
             Some remote \<Rightarrow> remote = len
           | None \<Rightarrow> (case en_modified entry of None \<Rightarrow> False | Some remote \<Rightarrow> mtime = Some remote))
      | Some _ \<Rightarrow> True)"

text \<open>The walk over the mirror: the paths below a directory, with their kinds; excluded directories are not entered.\<close>

fun walk_entry :: "(string \<Rightarrow> bool) \<Rightarrow> string list \<Rightarrow> string \<times> node \<Rightarrow> (string \<times> node) list" where
  "walk_entry ex here (n, DirNode es) =
     (let rel = join_with ''/'' (here @ [n])
      in if ex rel then [] else (rel, DirNode es) # concat (map (walk_entry ex (here @ [n])) es))"
| "walk_entry ex here (n, FileNode len m) = [(join_with ''/'' (here @ [n]), FileNode len m)]"
| "walk_entry ex here (n, LinkNode t) = [(join_with ''/'' (here @ [n]), LinkNode t)]"
| "walk_entry ex here (n, OtherNode) = []"

definition dir_node :: "node \<Rightarrow> bool" where
  "dir_node n = (case n of DirNode _ \<Rightarrow> True | _ \<Rightarrow> False)"

definition path_depth :: "string \<Rightarrow> nat" where
  "path_depth p = length (path_components p)"

text \<open>\<open>local_extras\<close>: what the mirror has and the index has not; directories deepest first.\<close>

definition local_extras :: "(string \<times> node) list \<Rightarrow> string set \<Rightarrow> ExcludePattern list \<Rightarrow> string list \<times> string list" where
  "local_extras tree remote xs =
     (let found = concat (map (walk_entry (\<lambda>rel. is_excluded rel xs) []) tree)
      in (map fst (filter (\<lambda>(rel, n). \<not> dir_node n \<and> \<not> is_excluded rel xs \<and> rel \<notin> remote) found),
          rev (sort_key path_depth (rev (map fst (filter (\<lambda>(rel, n). dir_node n \<and> rel \<notin> remote) found))))))"

section \<open>Listings\<close>

definition listing_error_transient :: "FetchError \<Rightarrow> bool" where
  "listing_error_transient e =
     (let s = to_ascii_lowercase (fetch_error_text e)
      in list_ex (\<lambda>p. contains_str p s) [''timeout'', ''timed out'', ''connection'', ''reset'', ''refused'', ''proxy'', ''error sending request'',
           ''502'', ''503'', ''504'', ''522'', ''523'', ''524''])"

text \<open>\<open>answer n\<close> is the outcome of attempt \<open>n\<close>; cancellation is the outcome \<open>FeCancelled\<close>.\<close>

fun get_listing_from :: "(nat \<Rightarrow> FetchError + string) \<Rightarrow> nat \<Rightarrow> nat \<Rightarrow> FetchError + string" where
  "get_listing_from answer attempt left =
     (case answer attempt of
        Inr body \<Rightarrow> Ok body
      | Inl e \<Rightarrow>
          if e = FeCancelled then Err e
          else (case left of
                  0 \<Rightarrow> Err e
                | Suc n \<Rightarrow> if listing_error_transient e then get_listing_from answer (Suc attempt) n else Err e))"

definition get_listing :: "(nat \<Rightarrow> FetchError + string) \<Rightarrow> FetchError + string" where
  "get_listing answer = get_listing_from answer 1 3"

text \<open>The data of a parsed \<open>repomd.xml\<close>: per block its type, its location and its size.\<close>

record rpm_data =
  rd_type :: "string option"
  rd_href :: "string option"
  rd_size :: "string option"

definition rpm_entry :: "rpm_data \<Rightarrow> FetchError + IndexEntry" where
  "rpm_entry d =
     (case rd_href d of
        None \<Rightarrow> Err (FeHttp ''RPM location missing'')
      | Some href \<Rightarrow>
          (case strip_prefix ''repodata/'' href of
             None \<Rightarrow> Err (FeHttp ''unsafe RPM metadata path'')
           | Some n \<Rightarrow>
               if CHR ''/'' \<in> set n \<or> \<not> is_safe_rel n then Err (FeHttp ''unsafe RPM metadata path'')
               else if n = ''repomd.xml'' then Err (FeHttp ''recursive RPM manifest'')
               else Ok \<lparr>en_path = n, en_size = Option.bind (rd_size d) (parse_unsigned u64_max), en_modified = None,
                        en_kind = FileEntry, en_symlink_target = None\<rparr>))"

text \<open>\<open>xml\<close> is the XML parser: an error, or the name of the root element and the data blocks.\<close>

definition rpm_manifest_entries :: "(string \<Rightarrow> string + string \<times> rpm_data list) \<Rightarrow> string \<Rightarrow> FetchError + IndexEntry list" where
  "rpm_manifest_entries xml body =
     (case xml body of
        Inl e \<Rightarrow> Err (FeHttp e)
      | Inr (root_name, blocks) \<Rightarrow>
          if root_name \<noteq> ''repomd'' then Err (FeHttp ''invalid RPM manifest'')
          else and_then (collect_results (map rpm_entry blocks)) (\<lambda>entries.
                 if \<not> list_ex (\<lambda>d. rd_type d = Some ''primary'') blocks \<or> entries = []
                 then Err (FeHttp ''RPM primary metadata missing'') else Ok entries))"

section \<open>Planning\<close>

text \<open>\<open>fe_answer n url k\<close> is the answer to attempt \<open>k\<close> of the request for \<open>url\<close> that ends in round \<open>n\<close>.\<close>

record fetch_env =
  fe_answer :: "nat \<Rightarrow> string \<Rightarrow> nat \<Rightarrow> FetchError + string"
  fe_parse :: "string \<Rightarrow> IndexEntry list"
  fe_xml :: "string \<Rightarrow> string + string \<times> rpm_data list"
  fe_tree :: "(string \<times> node) list"
  fe_beyond :: "string list \<Rightarrow> node option"
  fe_walk_fails :: "FetchError option"
  fe_excludes :: "ExcludePattern list"
  fe_threads :: nat

text \<open>\<open>ps_done\<close> holds the listings that were read, with their entries; the code counts them.\<close>

record plan_state =
  ps_plan :: Plan
  ps_remote :: "string set"
  ps_pending :: "DirectoryWork list"
  ps_listings :: "DirectoryWork list"
  ps_seen :: nat
  ps_failed :: bool
  ps_done :: "(DirectoryWork \<times> IndexEntry list) list"

definition rel_of :: "DirectoryWork \<Rightarrow> IndexEntry \<Rightarrow> string" where
  "rel_of w e = (if dw_rel w = [] then en_path e else dw_rel w @ ''/'' @ en_path e)"

definition key_of :: "DirectoryWork \<Rightarrow> IndexEntry \<Rightarrow> string" where
  "key_of w e = trim_end_where is_slash (rel_of w e)"

definition child_work :: "DirectoryWork \<Rightarrow> IndexEntry \<Rightarrow> DirectoryWork" where
  "child_work w e = \<lparr>dw_url = join_slash (dw_url w) (en_path e), dw_rel = key_of w e, dw_depth = dw_depth w - 1, dw_root = False\<rparr>"

definition local_node :: "fetch_env \<Rightarrow> string \<Rightarrow> node option" where
  "local_node F rel = node_at (fe_beyond F) (DirNode (fe_tree F)) (path_components rel)"

definition plan_dir :: "DirectoryWork \<Rightarrow> IndexEntry \<Rightarrow> plan_state \<Rightarrow> plan_state" where
  "plan_dir w e s =
     (if dw_depth w = 0 then s\<lparr>ps_plan := (ps_plan s)\<lparr>pl_incomplete := True\<rparr>\<rparr>
      else s\<lparr>ps_pending := ps_pending s @ [child_work w e]\<rparr>)"

definition plan_file :: "fetch_env \<Rightarrow> DirectoryWork \<Rightarrow> IndexEntry \<Rightarrow> Plan \<Rightarrow> Plan" where
  "plan_file F w e p =
     (let p1 = (case en_size e of Some z \<Rightarrow> p\<lparr>pl_size_sum := pl_size_sum p + z\<rparr> | None \<Rightarrow> p\<lparr>pl_size_unknown := True\<rparr>)
      in if local_matches (local_node F (rel_of w e)) e then p1
         else p1\<lparr>pl_downloads := pl_downloads p1 @ [(url_join (dw_url w) (en_path e), rel_of w e)]\<rparr>)"

definition link_target :: "IndexEntry \<Rightarrow> string" where
  "link_target e =
     (case en_symlink_target e of
        Some t \<Rightarrow> if is_safe_rel t then t else trim_end_where is_slash (en_path e)
      | None \<Rightarrow> trim_end_where is_slash (en_path e))"

definition accepted :: "fetch_env \<Rightarrow> DirectoryWork \<Rightarrow> IndexEntry \<Rightarrow> bool" where
  "accepted F w e \<longleftrightarrow> is_safe_rel (en_path e) \<and> \<not> is_excluded (key_of w e) (fe_excludes F)"

definition plan_entry :: "fetch_env \<Rightarrow> DirectoryWork \<Rightarrow> IndexEntry \<Rightarrow> plan_state \<Rightarrow> plan_state" where
  "plan_entry F w e s =
     (if \<not> accepted F w e then s
      else
        (let s1 = s\<lparr>ps_seen := Suc (ps_seen s)\<rparr>; key = key_of w e
         in if key \<in> ps_remote s then s1
            else
              (let s2 = s1\<lparr>ps_remote := insert key (ps_remote s)\<rparr>
               in case en_kind e of
                    DirEntry \<Rightarrow> plan_dir w e s2
                  | FileEntry \<Rightarrow> s2\<lparr>ps_plan := plan_file F w e (ps_plan s2)\<rparr>
                  | SymlinkEntry \<Rightarrow> s2\<lparr>ps_plan := (ps_plan s2)\<lparr>pl_symlinks := pl_symlinks (ps_plan s2) @ [(key, link_target e)]\<rparr>\<rparr>)))"

text \<open>The entries of one listing; the answer says whether the cap on entries was reached.\<close>

fun plan_entries :: "fetch_env \<Rightarrow> DirectoryWork \<Rightarrow> IndexEntry list \<Rightarrow> plan_state \<Rightarrow> plan_state \<times> bool" where
  "plan_entries F w [] s = (s, False)"
| "plan_entries F w (e # es) s =
     (if MAX_ENTRIES \<le> ps_seen s
      then (s\<lparr>ps_plan := (ps_plan s)\<lparr>pl_incomplete := True\<rparr>, ps_pending := [], ps_listings := []\<rparr>, True)
      else plan_entries F w es (plan_entry F w e s))"

definition is_repodata :: "DirectoryWork \<Rightarrow> bool" where
  "is_repodata w \<longleftrightarrow> ends_with ''/repodata'' (trim_end_where is_slash (dw_url w))"

definition listing_url :: "DirectoryWork \<Rightarrow> string" where
  "listing_url w = (if is_repodata w then trim_end_where is_slash (join_slash (dw_url w) ''repomd.xml'') else dw_url w)"

definition manifest_rel :: "DirectoryWork \<Rightarrow> string" where
  "manifest_rel w = (if dw_rel w = [] then ''repomd.xml'' else trim_end_where is_slash (dw_rel w) @ ''/repomd.xml'')"

text \<open>A listing that arrived.\<close>

definition plan_body :: "fetch_env \<Rightarrow> DirectoryWork \<Rightarrow> string \<Rightarrow> plan_state \<Rightarrow> FetchError + plan_state \<times> bool" where
  "plan_body F w body s =
     (if is_repodata w then
        and_then (rpm_manifest_entries (fe_xml F) body) (\<lambda>entries.
          Ok (plan_entries F w entries
                (s\<lparr>ps_remote := insert (manifest_rel w) (ps_remote s),
                   ps_plan := (ps_plan s)\<lparr>pl_manifests := pl_manifests (ps_plan s) @ [(manifest_rel w, body)]\<rparr>,
                   ps_done := (w, entries) # ps_done s\<rparr>)))
      else Ok (plan_entries F w (fe_parse F body) (s\<lparr>ps_done := (w, fe_parse F body) # ps_done s\<rparr>)))"

definition listing_lost :: "plan_state \<Rightarrow> plan_state" where
  "listing_lost s = s\<lparr>ps_failed := True, ps_plan := (ps_plan s)\<lparr>pl_incomplete := True\<rparr>\<rparr>"

datatype plan_event = ListingDone nat | ListingPanic nat | PlanCancelled

definition remove_nth :: "nat \<Rightarrow> 'a list \<Rightarrow> 'a list" where
  "remove_nth i xs = take i xs @ drop (Suc i) xs"

definition plan_step :: "fetch_env \<Rightarrow> nat \<Rightarrow> plan_event \<Rightarrow> plan_state \<Rightarrow> FetchError + plan_state \<times> bool" where
  "plan_step F n ev s =
     (case ev of
        PlanCancelled \<Rightarrow> Err FeCancelled
      | ListingPanic k \<Rightarrow>
          Ok (listing_lost (s\<lparr>ps_listings := remove_nth (k mod length (ps_listings s)) (ps_listings s)\<rparr>), False)
      | ListingDone k \<Rightarrow>
          (let i = k mod length (ps_listings s); w = ps_listings s ! i; s1 = s\<lparr>ps_listings := remove_nth i (ps_listings s)\<rparr>
           in case get_listing (fe_answer F n (listing_url w)) of
                Inl e \<Rightarrow> if e = FeCancelled \<or> dw_root w then Err e else Ok (listing_lost s1, False)
              | Inr body \<Rightarrow> plan_body F w body s1))"

definition listing_concurrency :: "fetch_env \<Rightarrow> nat" where
  "listing_concurrency F = max 1 (min 64 (fe_threads F))"

definition spawn_listings :: "fetch_env \<Rightarrow> plan_state \<Rightarrow> plan_state" where
  "spawn_listings F s =
     (let k = listing_concurrency F - length (ps_listings s)
      in s\<lparr>ps_listings := ps_listings s @ take k (ps_pending s), ps_pending := drop k (ps_pending s)\<rparr>)"

subsection \<open>Every round has less to do\<close>

definition work_left :: "plan_state \<Rightarrow> nat multiset" where
  "work_left s = mset (map dw_depth (ps_listings s @ ps_pending s))"

lemma work_left_spawn: "work_left (spawn_listings F s) = work_left s"
  by (simp add: work_left_def spawn_listings_def Let_def flip: mset_append map_append)

lemma plan_entry_pending:
  "ps_listings (plan_entry F w e s) = ps_listings s"
  "\<exists>ws. ps_pending (plan_entry F w e s) = ps_pending s @ ws \<and> (\<forall>x \<in> set ws. dw_depth x < dw_depth w)"
  by (auto simp: plan_entry_def Let_def plan_dir_def child_work_def split: EntryKind.split)

lemma plan_entries_pending:
  assumes "plan_entries F w es s = (s', False)"
  shows "ps_listings s' = ps_listings s \<and> (\<exists>ws. ps_pending s' = ps_pending s @ ws \<and> (\<forall>x \<in> set ws. dw_depth x < dw_depth w))"
  using assms
proof (induction es arbitrary: s)
  case (Cons e es)
  have "plan_entries F w es (plan_entry F w e s) = (s', False)" using Cons.prems by (simp split: if_splits)
  from Cons.IH [OF this] plan_entry_pending [of F w e s] show ?case by (auto split: if_splits)
qed auto

lemma mset_remove_nth: "i < length xs \<Longrightarrow> mset xs = add_mset (xs ! i) (mset (remove_nth i xs))"
  by (metis (no_types, lifting) add_mset_commute id_take_nth_drop mset.simps(2) mset_append remove_nth_def union_mset_add_mset_right)

lemma plan_step_less:
  assumes "plan_step F n ev s = Inr (s', False)" and "ps_listings s \<noteq> []"
  shows "(work_left s', work_left s) \<in> mult less_than"
proof -
  obtain k ws where k: "ps_listings s' = remove_nth k (ps_listings s)" "k < length (ps_listings s)"
    "ps_pending s' = ps_pending s @ ws" "\<forall>x \<in> set ws. dw_depth x < dw_depth (ps_listings s ! k)"
  proof (cases ev)
    case (ListingDone j)
    let ?i = "j mod length (ps_listings s)"
    have "?i < length (ps_listings s)" using assms(2) by simp
    moreover have "ps_listings s' = remove_nth ?i (ps_listings s) \<and> (\<exists>ws. ps_pending s' = ps_pending s @ ws \<and> (\<forall>x \<in> set ws. dw_depth x < dw_depth (ps_listings s ! ?i)))"
      using assms(1) ListingDone plan_entries_pending
      by (fastforce simp: plan_step_def plan_body_def listing_lost_def Let_def split: sum.splits if_splits)
    ultimately show thesis using that by blast
  next
    case (ListingPanic j)
    have "j mod length (ps_listings s) < length (ps_listings s)" using assms(2) by simp
    with that [of "j mod length (ps_listings s)" "[]"] assms(1) ListingPanic show thesis by (auto simp: plan_step_def listing_lost_def)
  next
    case PlanCancelled
    then show thesis using assms(1) by (simp add: plan_step_def)
  qed
  let ?rest = "mset (map dw_depth (remove_nth k (ps_listings s))) + mset (map dw_depth (ps_pending s))"
  have "mset (map dw_depth (ps_listings s)) = add_mset (dw_depth (ps_listings s ! k)) (mset (map dw_depth (remove_nth k (ps_listings s))))"
    using arg_cong [OF mset_remove_nth [OF k(2)], of "image_mset dw_depth"] by simp
  then have "work_left s = ?rest + {#dw_depth (ps_listings s ! k)#}" by (simp add: work_left_def)
  moreover have "work_left s' = ?rest + mset (map dw_depth ws)" by (simp add: work_left_def k(1,3))
  moreover have "(?rest + mset (map dw_depth ws), ?rest + {#dw_depth (ps_listings s ! k)#}) \<in> mult less_than"
    by (rule one_step_implies_mult) (use k(4) in auto)
  ultimately show ?thesis by simp
qed

function plan_loop :: "fetch_env \<Rightarrow> (nat \<Rightarrow> plan_event) \<Rightarrow> nat \<Rightarrow> plan_state \<Rightarrow> FetchError + plan_state" where
  "plan_loop F sched n s =
     (let s1 = spawn_listings F s
      in if ps_listings s1 = [] then Ok s1
         else (case plan_step F n (sched n) s1 of
                 Inl e \<Rightarrow> Err e
               | Inr (s2, stop) \<Rightarrow> if stop then Ok s2 else plan_loop F sched (Suc n) s2))"
  by pat_completeness auto

termination
proof (relation "inv_image (mult less_than) (\<lambda>(F, sched, n, s). work_left s)", goal_cases)
  case 1
  then show ?case by (intro wf_inv_image wf_mult wf_less_than)
next
  case (2 F sched n s s1 r s2 stop)
  then have "(work_left s2, work_left (spawn_listings F s)) \<in> mult less_than" by (intro plan_step_less) auto
  then show ?case by (simp add: work_left_spawn)
qed

declare plan_loop.simps [simp del]

definition plan_start :: "string \<Rightarrow> nat \<Rightarrow> plan_state" where
  "plan_start base depth =
     \<lparr>ps_plan = empty_plan, ps_remote = {},
      ps_pending = [\<lparr>dw_url = base, dw_rel = [], dw_depth = min depth MAX_DEPTH, dw_root = True\<rparr>],
      ps_listings = [], ps_seen = 0, ps_failed = False, ps_done = []\<rparr>"

text \<open>What follows the loop; \<open>fe_walk_fails\<close> is the error of a walk over the mirror that fails.\<close>

definition plan_finish :: "fetch_env \<Rightarrow> bool \<Rightarrow> plan_state \<Rightarrow> FetchError + Plan" where
  "plan_finish F delete s =
     (let p = ps_plan s
      in if delete \<and> ps_failed s
         then Err (FeHttp ''subdirectory listing failed; refusing delete to avoid wiping the mirror'')
         else
           and_then
             (if delete \<and> \<not> pl_incomplete p
              then (case fe_walk_fails F of
                      Some e \<Rightarrow> Err e
                    | None \<Rightarrow> (let (files, dirs) = local_extras (fe_tree F) (ps_remote s) (fe_excludes F)
                               in Ok (p\<lparr>pl_deletes := files, pl_delete_dirs := dirs\<rparr>)))
              else Ok p)
             (\<lambda>p1. Ok (p1\<lparr>pl_total_size_hint := (if pl_size_unknown p1 then None else Some (pl_size_sum p1))\<rparr>)))"

text \<open>\<open>parsers\<close> is \<open>parser_for\<close>.\<close>

definition plan_inner :: "fetch_env \<Rightarrow> (string \<Rightarrow> (string \<Rightarrow> IndexEntry list) option) \<Rightarrow> (nat \<Rightarrow> plan_event) \<Rightarrow> string \<Rightarrow> string \<Rightarrow> bool \<Rightarrow> nat \<Rightarrow> FetchError + Plan" where
  "plan_inner F parsers sched base parser_name delete depth =
     (case parsers parser_name of
        None \<Rightarrow> Err (FeHttp (''unknown index parser `'' @ parser_name @ ''`''))
      | Some parse \<Rightarrow>
          (let F1 = F\<lparr>fe_parse := parse\<rparr> in and_then (plan_loop F1 sched 0 (plan_start base depth)) (plan_finish F1 delete)))"

end
