(* ===== verification/Httpfetch_Exec.thy ===== *)
theory Httpfetch_Exec
  imports Httpfetch "HOL-Library.AList"
begin

text \<open>
  The execution of a plan, \<open>execute\<close> of \<open>crates/httpfetch/src/lib.rs\<close>, on the files of the mirror: the download of one file
  beside its destination and its renaming, the publishing of RPM manifests, the deletion of what the upstream no longer has,
  and the symlinks. A download takes effect when its task ends; tasks end in any order. Every operation of the
  operating system may fail.
\<close>

section \<open>The files of the mirror\<close>

datatype fnode = FFile string | FLink string | FDir

text \<open>By the components of their paths below the storage root.\<close>

type_synonym filesys = "(string list \<times> fnode) list"

definition is_link :: "fnode option \<Rightarrow> bool" where
  "is_link n = (case n of Some (FLink _) \<Rightarrow> True | _ \<Rightarrow> False)"

definition parents :: "string list \<Rightarrow> string list list" where
  "parents cs = map (\<lambda>k. take k cs) [1..<length cs]"

text \<open>\<open>has_symlink_ancestor\<close>; \<open>root_link\<close>: the storage root is a symlink or lies below one.\<close>

definition has_symlink_ancestor :: "bool \<Rightarrow> filesys \<Rightarrow> string \<Rightarrow> bool" where
  "has_symlink_ancestor root_link fs dest \<longleftrightarrow> root_link \<or> list_ex (\<lambda>p. is_link (map_of fs p)) (parents (path_components dest))"

text \<open>\<open>create_dir_all\<close> on the parent of a path: a file in the way is an error.\<close>

definition create_dirs :: "string list \<Rightarrow> filesys \<Rightarrow> string + filesys" where
  "create_dirs cs fs =
     (if list_ex (\<lambda>p. case map_of fs p of Some (FFile _) \<Rightarrow> True | _ \<Rightarrow> False) (parents cs) then Err ''Not a directory''
      else Ok (fold (\<lambda>p fs. if map_of fs p = None then AList.update p FDir fs else fs) (parents cs) fs))"

definition remove_file :: "string list \<Rightarrow> filesys \<Rightarrow> string + filesys" where
  "remove_file cs fs =
     (case map_of fs cs of
        None \<Rightarrow> Err ''No such file or directory''
      | Some FDir \<Rightarrow> Err ''Is a directory''
      | Some _ \<Rightarrow> Ok (AList.delete cs fs))"

definition has_child :: "filesys \<Rightarrow> string list \<Rightarrow> bool" where
  "has_child fs cs = list_ex (\<lambda>(p, _). p \<noteq> [] \<and> butlast p = cs) fs"

datatype removal = Removed filesys | NothingToRemove | RemovalFailed

definition remove_dir :: "string list \<Rightarrow> filesys \<Rightarrow> removal" where
  "remove_dir cs fs =
     (case map_of fs cs of
        None \<Rightarrow> NothingToRemove
      | Some FDir \<Rightarrow> if has_child fs cs then NothingToRemove else Removed (AList.delete cs fs)
      | Some _ \<Rightarrow> RemovalFailed)"

text \<open>Creating or overwriting a file: the write follows a symlink, whose target is not part of the model.\<close>

definition write_file :: "string list \<Rightarrow> string \<Rightarrow> filesys \<Rightarrow> string + filesys" where
  "write_file cs body fs =
     (case map_of fs cs of
        Some FDir \<Rightarrow> Err ''Is a directory''
      | Some (FLink _) \<Rightarrow> Ok fs
      | _ \<Rightarrow> Ok (AList.update cs (FFile body) fs))"

definition rename_file :: "string list \<Rightarrow> string list \<Rightarrow> filesys \<Rightarrow> string + filesys" where
  "rename_file source cs fs =
     (case map_of fs source of
        None \<Rightarrow> Err ''No such file or directory''
      | Some n \<Rightarrow> if map_of fs cs = Some FDir then Err ''Is a directory'' else Ok (AList.update cs n (AList.delete source fs)))"

text \<open>An operation of the operating system, which may fail for reasons of its own.\<close>

datatype io_op = CreateDirs string | CreateFile string | RenameFile string | RemoveFile string | RemoveDir string | MakeLink string

section \<open>One download\<close>

datatype chunk = Chunk string | ChunkError string | ChunkCancel

text \<open>\<open>dl_response\<close> is the body as it arrives, its end the end of the list; \<open>dl_writes n\<close>: the write of chunk \<open>n\<close> succeeds.\<close>

record download_env =
  dl_cancelled_first :: bool
  dl_response :: "FetchError + chunk list"
  dl_writes :: "nat \<Rightarrow> string option"
  dl_cancelled_last :: bool

text \<open>\<open>ex_download\<close> has no value for a task that panics before it touches a file; \<open>ex_fails\<close> has the error of an operation
  that the system refuses; \<open>ex_cancelled\<close> says that the run is cancelled by the time of a step.\<close>

datatype stage = AtStart | AtManifest string | AtDelete string | AtDeleteDir string | AtSymlink string

record transfer_env =
  ex_download :: "string \<Rightarrow> string \<Rightarrow> download_env option"
  ex_root_link :: bool
  ex_fails :: "io_op \<Rightarrow> string option"
  ex_cancelled :: "stage \<Rightarrow> bool"
  ex_threads :: nat
  ex_warn_on_forbidden :: bool

definition sys :: "transfer_env \<Rightarrow> io_op \<Rightarrow> (filesys \<Rightarrow> string + filesys) \<Rightarrow> (filesys, FetchError, unit) io" where
  "sys X op f fs =
     (case ex_fails X op of
        Some e \<Rightarrow> (Err (FeIo e), fs)
      | None \<Rightarrow> (case f fs of Inl e \<Rightarrow> (Err (FeIo e), fs) | Inr fs1 \<Rightarrow> (Ok (), fs1)))"

definition partial_path :: "string \<Rightarrow> string" where
  "partial_path dest = dest @ ''.partial''"

text \<open>The loop over the chunks: what was written, and how it ended.\<close>

fun receive :: "(nat \<Rightarrow> string option) \<Rightarrow> nat \<Rightarrow> chunk list \<Rightarrow> string \<Rightarrow> FetchError + string" where
  "receive writes n [] written = Ok written"
| "receive writes n (c # cs) written =
     (case c of
        ChunkError e \<Rightarrow> Err (FeHttp e)
      | ChunkCancel \<Rightarrow> Err FeCancelled
      | Chunk b \<Rightarrow> (case writes n of None \<Rightarrow> receive writes (Suc n) cs (written @ b) | Some e \<Rightarrow> Err (FeIo e)))"

text \<open>\<open>let _ = remove_file(..)\<close>\<close>

definition drop_file :: "string list \<Rightarrow> filesys \<Rightarrow> filesys" where
  "drop_file cs fs = (case remove_file cs fs of Inr fs1 \<Rightarrow> fs1 | Inl _ \<Rightarrow> fs)"

definition refuse_symlinks :: "transfer_env \<Rightarrow> string \<Rightarrow> string \<Rightarrow> (filesys, FetchError, unit) io" where
  "refuse_symlinks X dest msg fs = (if has_symlink_ancestor (ex_root_link X) fs dest then (Err (FeIo msg), fs) else (Ok (), fs))"

text \<open>The end of a download: the body is complete, or the partial file goes.\<close>

definition settle_partial :: "transfer_env \<Rightarrow> download_env \<Rightarrow> string \<Rightarrow> FetchError + string \<Rightarrow> (filesys, FetchError, nat) io" where
  "settle_partial X D dest result fs =
     (let partial = path_components (partial_path dest)
      in case result of
           Inl e \<Rightarrow> (Err e, drop_file partial fs)
         | Inr body \<Rightarrow>
             if dl_cancelled_last D then (Err FeCancelled, drop_file partial fs)
             else (case sys X (RenameFile dest) (rename_file partial (path_components dest)) (AList.update partial (FFile body) fs) of
                     (Inl e, fs1) \<Rightarrow> (Err e, drop_file partial fs1)
                   | (Inr _, fs1) \<Rightarrow> (Ok (length body), fs1)))"

definition fetch_to_partial :: "transfer_env \<Rightarrow> download_env \<Rightarrow> string \<Rightarrow> (filesys, FetchError, nat) io" where
  "fetch_to_partial X D dest =
     (let partial = path_components (partial_path dest)
      in if dl_cancelled_first D then io_err FeCancelled
         else
           (case dl_response D of
              Inl e \<Rightarrow> io_err e
            | Inr chunks \<Rightarrow>
                io_bind (refuse_symlinks X dest (''refusing to write through a symlink: '' @ dest)) (\<lambda>_.
                io_bind (sys X (CreateDirs dest) (create_dirs (path_components dest))) (\<lambda>_.
                io_bind (\<lambda>fs. (Ok (), drop_file partial fs)) (\<lambda>_.
                io_bind (sys X (CreateFile dest) (write_file partial [])) (\<lambda>_.
                settle_partial X D dest (receive (dl_writes D) 0 chunks [])))))))"

section \<open>Transfers\<close>

definition is_warning :: "transfer_env \<Rightarrow> FetchError \<Rightarrow> string \<Rightarrow> bool" where
  "is_warning X e dest \<longleftrightarrow> \<not> is_critical_metadata dest
     \<and> (e \<in> {FeStatus 404, FeStatus 410} \<or> (ex_warn_on_forbidden X \<and> e = FeStatus 403))"

definition download_failed :: "transfer_env \<Rightarrow> FetchError \<Rightarrow> string \<Rightarrow> FetchStats \<Rightarrow> FetchStats" where
  "download_failed X e dest st =
     (let st1 = st\<lparr>fs_files_skipped := Suc (fs_files_skipped st)\<rparr>
      in if is_warning X e dest
         then st1\<lparr>fs_files_warned := Suc (fs_files_warned st1),
                  fs_warning_paths := (if length (fs_warning_paths st1) < 100 then fs_warning_paths st1 @ [dest] else fs_warning_paths st1)\<rparr>
         else st1\<lparr>fs_files_failed := Suc (fs_files_failed st1)\<rparr>)"

definition one_failed :: "FetchStats \<Rightarrow> FetchStats" where
  "one_failed st = st\<lparr>fs_files_skipped := Suc (fs_files_skipped st), fs_files_failed := Suc (fs_files_failed st)\<rparr>"

record exec_state =
  xs_stats :: FetchStats
  xs_cancelled :: bool
  xs_files :: filesys

text \<open>A task that ended.\<close>

definition download_ended :: "transfer_env \<Rightarrow> string \<times> string \<Rightarrow> exec_state \<Rightarrow> exec_state" where
  "download_ended X = (\<lambda>(url, dest) s.
     case ex_download X url dest of
       None \<Rightarrow> if xs_cancelled s then s else s\<lparr>xs_stats := one_failed (xs_stats s)\<rparr>
     | Some D \<Rightarrow>
         (case fetch_to_partial X D dest (xs_files s) of
            (Inr bytes, fs) \<Rightarrow>
              s\<lparr>xs_stats := (xs_stats s)\<lparr>fs_downloaded_bytes := fs_downloaded_bytes (xs_stats s) + bytes,
                                         fs_files_downloaded := Suc (fs_files_downloaded (xs_stats s))\<rparr>, xs_files := fs\<rparr>
          | (Inl e, fs) \<Rightarrow>
              if e = FeCancelled then s\<lparr>xs_cancelled := True, xs_files := fs\<rparr>
              else s\<lparr>xs_stats := download_failed X e dest (xs_stats s), xs_files := fs\<rparr>))"

datatype transfer_event = TaskEnded nat | TransferCancelled

text \<open>The loop over the tasks in flight; a cancellation is noticed once.\<close>

lemma length_remove_nth [simp]: "i < length xs \<Longrightarrow> length (remove_nth i xs) = length xs - 1"
  by (simp add: remove_nth_def)

lemma transfer_shrinks: "xs \<noteq> [] \<Longrightarrow> length (remove_nth (k mod length xs) xs @ take m ys) + length (drop m ys) < length xs + length ys"
  by (cases xs) (auto simp: min_def)

function transfer :: "transfer_env \<Rightarrow> (nat \<Rightarrow> transfer_event) \<Rightarrow> nat \<Rightarrow> (string \<times> string) list \<Rightarrow> (string \<times> string) list \<Rightarrow> exec_state \<Rightarrow> exec_state" where
  "transfer X sched n flying rest s =
     (if flying = [] then s
      else if sched n = TransferCancelled \<and> \<not> xs_cancelled s then transfer X sched (Suc n) flying rest (s\<lparr>xs_cancelled := True\<rparr>)
      else
        (let i = (case sched n of TaskEnded k \<Rightarrow> k | TransferCancelled \<Rightarrow> 0) mod length flying;
             s1 = download_ended X (flying ! i) s;
             k = (if xs_cancelled s1 then 0 else 1)
         in transfer X sched (Suc n) (remove_nth i flying @ take k rest) (drop k rest) s1))"
  by pat_completeness auto

termination
proof (relation "measures [\<lambda>(X, sched, n, flying, rest, s). length flying + length rest, \<lambda>(X, sched, n, flying, rest, s). if xs_cancelled s then 0 else 1]", goal_cases)
  case (3 X sched n flying rest s i s1 k)
  then show ?case using transfer_shrinks [of flying _ k rest] by (simp del: length_append length_drop)
qed auto

declare transfer.simps [simp del]

section \<open>What follows the transfers\<close>

text \<open>Manifests are published as they were when the plan was made.\<close>

definition manifest_temp :: "string \<Rightarrow> string list" where
  "manifest_temp dest = butlast (path_components dest) @ [''repomd.xml.partial'']"

definition publish_one :: "transfer_env \<Rightarrow> string \<times> string \<Rightarrow> (filesys, FetchError, unit) io" where
  "publish_one X = (\<lambda>(dest, body).
     io_bind (refuse_symlinks X dest ''manifest path contains symlink'') (\<lambda>_.
     io_bind (sys X (CreateDirs dest) (create_dirs (path_components dest))) (\<lambda>_.
     io_bind (sys X (CreateFile dest) (write_file (manifest_temp dest) body)) (\<lambda>_.
     sys X (RenameFile dest) (rename_file (manifest_temp dest) (path_components dest))))))"

fun publish_all :: "transfer_env \<Rightarrow> (string \<times> string) list \<Rightarrow> FetchStats \<Rightarrow> (filesys, FetchError, FetchStats) io" where
  "publish_all X [] st = io_ret st"
| "publish_all X (m # ms) st =
     (if ex_cancelled X (AtManifest (fst m)) then io_err FeCancelled
      else io_bind (publish_one X m) (\<lambda>_.
           publish_all X ms (st\<lparr>fs_files_downloaded := Suc (fs_files_downloaded st),
                                fs_downloaded_bytes := fs_downloaded_bytes st + length (snd m)\<rparr>)))"

fun delete_all :: "transfer_env \<Rightarrow> string list \<Rightarrow> FetchStats \<Rightarrow> (filesys, FetchError, FetchStats) io" where
  "delete_all X [] st = io_ret st"
| "delete_all X (p # ps) st =
     (if ex_cancelled X (AtDelete p) then io_err FeCancelled
      else (\<lambda>fs. case sys X (RemoveFile p) (remove_file (path_components p)) fs of
                   (Inl _, fs1) \<Rightarrow> delete_all X ps (one_failed st) fs1
                 | (Inr _, fs1) \<Rightarrow> delete_all X ps (st\<lparr>fs_files_deleted := Suc (fs_files_deleted st)\<rparr>) fs1))"

text \<open>Obsolete directories go only when they are empty.\<close>

definition delete_dir :: "transfer_env \<Rightarrow> string \<Rightarrow> FetchStats \<Rightarrow> filesys \<Rightarrow> FetchStats \<times> filesys" where
  "delete_dir X p st fs =
     (let failed = st\<lparr>fs_files_failed := Suc (fs_files_failed st)\<rparr>
      in if has_symlink_ancestor (ex_root_link X) fs p then (st, fs)
         else if ex_fails X (RemoveDir p) \<noteq> None then (failed, fs)
         else (case remove_dir (path_components p) fs of
                 Removed fs1 \<Rightarrow> (st, fs1)
               | NothingToRemove \<Rightarrow> (st, fs)
               | RemovalFailed \<Rightarrow> (failed, fs)))"

fun delete_dirs :: "transfer_env \<Rightarrow> string list \<Rightarrow> FetchStats \<Rightarrow> (filesys, FetchError, FetchStats) io" where
  "delete_dirs X [] st = io_ret st"
| "delete_dirs X (p # ps) st =
     (if ex_cancelled X (AtDeleteDir p) then io_err FeCancelled
      else (\<lambda>fs. case delete_dir X p st fs of (st1, fs1) \<Rightarrow> delete_dirs X ps st1 fs1))"

text \<open>\<open>ensure_symlink\<close>: nothing that exists is replaced.\<close>

definition ensure_symlink :: "transfer_env \<Rightarrow> string \<Rightarrow> string \<Rightarrow> (filesys, FetchError, bool) io" where
  "ensure_symlink X dest target fs =
     (if map_of fs (path_components dest) \<noteq> None then (Ok False, fs)
      else io_bind (sys X (CreateDirs dest) (create_dirs (path_components dest))) (\<lambda>_.
           io_bind (sys X (MakeLink dest) (\<lambda>fs. Ok (AList.update (path_components dest) (FLink target) fs))) (\<lambda>_. io_ret True)) fs)"

fun link_all :: "transfer_env \<Rightarrow> (string \<times> string) list \<Rightarrow> FetchStats \<Rightarrow> (filesys, FetchError, FetchStats) io" where
  "link_all X [] st = io_ret st"
| "link_all X (l # ls) st =
     (if ex_cancelled X (AtSymlink (fst l)) then io_err FeCancelled
      else (\<lambda>fs. case ensure_symlink X (fst l) (snd l) fs of
                   (Inr True, fs1) \<Rightarrow> link_all X ls (st\<lparr>fs_files_symlinked := Suc (fs_files_symlinked st)\<rparr>) fs1
                 | (Inr False, fs1) \<Rightarrow> link_all X ls st fs1
                 | (Inl _, fs1) \<Rightarrow> link_all X ls (one_failed st) fs1))"

section \<open>The whole execution\<close>

definition clean :: "FetchStats \<Rightarrow> bool" where
  "clean st \<longleftrightarrow> fs_files_failed st = 0 \<and> fs_files_warned st = 0"

definition initial_stats :: "Plan \<Rightarrow> FetchStats" where
  "initial_stats p =
     \<lparr>fs_downloaded_bytes = 0, fs_files_downloaded = 0, fs_files_deleted = 0, fs_files_symlinked = 0, fs_files_skipped = 0,
      fs_files_failed = (if pl_incomplete p then 1 else 0), fs_files_warned = 0, fs_warning_paths = [],
      fs_total_size_hint = pl_total_size_hint p\<rparr>"

definition with_threads :: "nat \<Rightarrow> nat" where
  "with_threads n = max n 1"

definition transfers :: "transfer_env \<Rightarrow> (nat \<Rightarrow> transfer_event) \<Rightarrow> Plan \<Rightarrow> filesys \<Rightarrow> exec_state" where
  "transfers X sched p fs =
     (let k = with_threads (ex_threads X)
      in transfer X sched 0 (take k (pl_downloads p)) (drop k (pl_downloads p))
           \<lparr>xs_stats = initial_stats p, xs_cancelled = False, xs_files = fs\<rparr>)"

definition tidy :: "transfer_env \<Rightarrow> Plan \<Rightarrow> FetchStats \<Rightarrow> (filesys, FetchError, FetchStats) io" where
  "tidy X p st =
     io_bind (if clean st then publish_all X (pl_manifests p) st else io_ret st) (\<lambda>st1.
     io_bind (delete_all X (filter (\<lambda>_. clean st1) (pl_deletes p)) st1) (\<lambda>st2.
     io_bind (delete_dirs X (filter (\<lambda>_. clean st1) (pl_delete_dirs p)) st2) (\<lambda>st3.
     link_all X (pl_symlinks p) st3)))"

definition execute :: "transfer_env \<Rightarrow> (nat \<Rightarrow> transfer_event) \<Rightarrow> Plan \<Rightarrow> (filesys, FetchError, FetchStats) io" where
  "execute X sched p fs =
     (if ex_cancelled X AtStart then (Err FeCancelled, fs)
      else
        (let s = transfers X sched p fs
         in if xs_cancelled s then (Err FeCancelled, xs_files s) else tidy X p (xs_stats s) (xs_files s)))"

definition sync :: "fetch_env \<Rightarrow> (string \<Rightarrow> (string \<Rightarrow> IndexEntry list) option) \<Rightarrow> (nat \<Rightarrow> plan_event) \<Rightarrow> transfer_env \<Rightarrow> (nat \<Rightarrow> transfer_event)
    \<Rightarrow> string \<Rightarrow> string \<Rightarrow> bool \<Rightarrow> nat \<Rightarrow> (filesys, FetchError, FetchStats) io" where
  "sync F parsers psched X xsched base parser_name delete depth =
     io_bind (io_lift (plan_inner F parsers psched base parser_name delete depth)) (execute X xsched)"

end
