(* ===== verification/Providers.thy ===== *)
theory Providers
  imports Rsync_Provider Docker_Provider Httpfetch_Exec
begin

text \<open>
  The remaining providers and their dispatch: \<open>provider/src/git.rs\<close>, \<open>script.rs\<close>, \<open>http.rs\<close> and the enumeration of \<open>lib.rs\<close>.
  The HTTP provider calls the fetcher, which is an argument: its planning and its transfer are the theories \<open>Httpfetch\<close> and
  \<open>Httpfetch_Exec\<close>. The bandwidth sampler of the HTTP provider is not modelled.
\<close>

section \<open>Definitions\<close>

definition nonblank :: "string option \<Rightarrow> string option" where
  "nonblank v = (case v of None \<Rightarrow> None | Some s \<Rightarrow> if trim s = [] then None else Some s)"

subsection \<open>Git\<close>

record GitProvider =
  gp_branch :: "string option"

definition git_output :: "'w proc_env \<Rightarrow> string list \<Rightarrow> 'w \<Rightarrow> string option \<times> 'w" where
  "git_output E args w =
     (case pr_control E (plain_command ''git'' args) w of
        (Inr out, w') \<Rightarrow> (if co_code out = Some 0 then Some (co_stdout out) else None, w')
      | (Inl _, w') \<Rightarrow> (None, w'))"

definition quarantine_invalid_dest :: "'w proc_env \<Rightarrow> string \<Rightarrow> ('w, ProviderError, unit) io" where
  "quarantine_invalid_dest E dest w =
     (if \<not> pr_exists E dest w then (Ok (), w)
      else let (valid, w1) = prepare_existing_repo E dest w in
           if valid then (Ok (), w1)
           else (case pr_rename E dest (dest @ ''.corrupt.'' @ show_nat (pr_unix_now E w1)) w1 of
                   (Inr _, w2) \<Rightarrow> (Ok (), w2)
                 | (Inl e, w2) \<Rightarrow> (Err (POther (''cannot quarantine invalid git dest '' @ dest @ '': '' @ e)), w2)))"

text \<open>The sizes are added with wrap-around and multiplied with saturation.\<close>

fun object_sizes :: "nat \<times> nat \<Rightarrow> string list \<Rightarrow> (nat \<times> nat) option" where
  "object_sizes acc [] = Some acc"
| "object_sizes (packed, loose) (line # ls) =
     (case strip_prefix ''size-pack: '' line of
        Some v \<Rightarrow> (case parse_unsigned u64_max (trim v) of None \<Rightarrow> None | Some p \<Rightarrow> object_sizes (p, loose) ls)
      | None \<Rightarrow>
          (case strip_prefix ''size: '' line of
             Some v \<Rightarrow> object_sizes (packed, opt_default 0 (parse_unsigned u64_max (trim v))) ls
           | None \<Rightarrow> object_sizes (packed, loose) ls))"

definition count_objects_args :: "string \<Rightarrow> string list" where
  "count_objects_args dest = [''-C'', dest, ''count-objects'', ''-v'']"

definition repo_size_bytes :: "'w proc_env \<Rightarrow> string \<Rightarrow> 'w \<Rightarrow> nat option \<times> 'w" where
  "repo_size_bytes E dest w =
     (let (out, w') = git_output E (count_objects_args dest) w
      in (Option.bind out (\<lambda>s. map_option (\<lambda>(p, l). min u64_max ((p + l) mod 2 ^ 64 * 1024)) (object_sizes (0, 0) (str_lines s))), w'))"

definition loose_count :: "string \<Rightarrow> nat" where
  "loose_count s =
     opt_default 0 (Option.bind (head_opt (filter_map (strip_prefix ''count: '') (str_lines s))) (\<lambda>v. parse_unsigned u64_max (trim v)))"

definition maybe_repack :: "'w proc_env \<Rightarrow> string \<Rightarrow> 'w \<Rightarrow> 'w" where
  "maybe_repack E dest w =
     (case git_output E (count_objects_args dest) w of
        (None, w1) \<Rightarrow> w1
      | (Some s, w1) \<Rightarrow>
          if loose_count s \<le> 50 then w1
          else control_ignored E (plain_command ''git'' [''-C'', dest, ''repack'', ''-a'', ''-b'', ''-d'']) w1)"

definition refresh_head :: "'w proc_env \<Rightarrow> string \<Rightarrow> 'w \<Rightarrow> 'w" where
  "refresh_head E dest w =
     (case git_output E [''-C'', dest, ''remote'', ''show'', ''origin''] w of
        (None, w1) \<Rightarrow> w1
      | (Some s, w1) \<Rightarrow>
          (case head_opt (filter_map (\<lambda>l. map_option trim (strip_prefix ''HEAD branch:'' (trim l))) (str_lines s)) of
             None \<Rightarrow> w1
           | Some h \<Rightarrow> if h = [] \<or> h = ''(unknown)'' then w1
                       else pr_write E (dest @ ''/HEAD'') (''ref: refs/heads/'' @ h @ [CHR 0x0A]) w1))"

definition quoted :: "string \<Rightarrow> string" where
  "quoted s = [CHR 0x22] @ s @ [CHR 0x22]"

definition git_container_args :: "string option \<Rightarrow> string list" where
  "git_container_args b =
     (case b of
        Some _ \<Rightarrow> docker_exec_args [''git -C '' @ quoted ''$DEST'' @ '' fetch origin '' @ quoted ''$BRANCH'' @ '' && git -C ''
                     @ quoted ''$DEST'' @ '' reset --hard '' @ quoted ''origin/$BRANCH'']
      | None \<Rightarrow> [''/usr/lib/synora/scripts/git.sh''])"

definition git_message :: "bool \<Rightarrow> string" where
  "git_message is_repo = (if is_repo then ''repository updated'' else ''repository cloned'')"

definition git_args :: "string option \<Rightarrow> bool \<Rightarrow> string \<Rightarrow> string \<Rightarrow> string list" where
  "git_args b is_repo url dest =
     (case (b, is_repo) of
        (Some br, False) \<Rightarrow> [''clone'', ''--single-branch'', ''--branch'', br, url, dest]
      | (None, False) \<Rightarrow> [''clone'', ''--mirror'', url, dest]
      | (Some br, True) \<Rightarrow> [''-C'', dest, ''fetch'', ''origin'', br]
      | (None, True) \<Rightarrow> [''-C'', dest, ''remote'', ''update'', ''--prune''])"

definition git_in_container :: "'w proc_env \<Rightarrow> GitProvider \<Rightarrow> SyncContext \<Rightarrow> string \<Rightarrow> ('w, ProviderError, SyncResult) io" where
  "git_in_container E P ctx img w =
     (let dest = ctx_storage ctx; is_repo = pr_is_file E (path_join dest ''HEAD'') w in
      io_bind (run_named_container E
          \<lparr>ds_image = img, ds_command = git_container_args (gp_branch P), ds_extra_options = [],
           ds_extra_env = (case gp_branch P of None \<Rightarrow> [] | Some b \<Rightarrow> [''DEST='' @ dest, ''BRANCH='' @ b]),
           ds_extra_volumes = [], ds_keep_container = False, ds_network = None\<rparr> ctx)
        (\<lambda>r w1. let (hint, w2) = (case res_size_hint r of Some n \<Rightarrow> (Some n, w1) | None \<Rightarrow> repo_size_bytes E dest w1)
                in (Ok (r\<lparr>res_size_hint := hint, res_message := Some (git_message is_repo)\<rparr>), w2)) w)"

text \<open>The reset of a checkout after a fetch: only its exit status counts.\<close>

definition git_reset :: "'w proc_env \<Rightarrow> string \<Rightarrow> string \<Rightarrow> ('w, ProviderError, unit) io" where
  "git_reset E dest b =
     io_bind (run_child E (\<lambda>e. e) (\<lambda>w. w) (plain_command ''git'' [''-C'', dest, ''reset'', ''--hard'', ''origin/'' @ b]))
       (\<lambda>(code, _, _). if code = Some 0 then io_ret () else io_err (POther (''git reset exited with '' @ show_int (opt_default (- 1) code))))"

definition git_native :: "'w proc_env \<Rightarrow> GitProvider \<Rightarrow> SyncContext \<Rightarrow> string \<Rightarrow> ('w, ProviderError, SyncResult) io" where
  "git_native E P ctx url w =
     (let dest = ctx_storage ctx; (is_repo, w1) = prepare_existing_repo E dest w in
      io_bind (if is_repo then io_ret () else quarantine_invalid_dest E dest)
        (\<lambda>_. io_bind (run_child E (\<lambda>e. Spawn (''git: '' @ error_text e)) (\<lambda>w. w)
                \<lparr>cmd_program = ''git'', cmd_args = git_args (gp_branch P) is_repo url dest, cmd_envs = ctx_proxy_env ctx, cmd_dir = None\<rparr>)
          (\<lambda>(code0, out, err).
             let code = opt_default (- 1) code0 in
             if code \<noteq> 0 then io_err (POther (''git exited with '' @ show_int code @ with_detail 8000 (trim err)))
             else io_bind (case (gp_branch P, is_repo) of (Some b, True) \<Rightarrow> git_reset E dest b | _ \<Rightarrow> io_ret ())
                    (\<lambda>_ w2. let w3 = (if gp_branch P = None then maybe_repack E dest (refresh_head E dest w2) else w2);
                                (hint, w4) = repo_size_bytes E dest w3
                            in (Ok (no_result\<lparr>res_exit_code := Some 0, res_stdout := out, res_stderr := err, res_size_hint := hint,
                                      res_message := Some (git_message is_repo)\<rparr>), w4)))) w1)"

definition git_sync :: "'w proc_env \<Rightarrow> GitProvider \<Rightarrow> SyncContext \<Rightarrow> ('w, ProviderError, SyncResult) io" where
  "git_sync E P ctx w =
     (case ctx_upstream ctx of
        None \<Rightarrow> (Err (PConfig ''git requires `upstream` (repository URL)''), w)
      | Some url \<Rightarrow> (case scripts_image_name (ctx_scripts_image ctx) of
                      Some img \<Rightarrow> git_in_container E P ctx img w
                    | None \<Rightarrow> git_native E P ctx url w))"

subsection \<open>Scripts\<close>

record ScriptProvider =
  sp_command :: string
  sp_env :: "string list"

record ParsedOutput =
  po_size_hint :: "nat option"
  po_status :: "string option"
  po_message :: "string option"

definition output_line :: "ParsedOutput \<Rightarrow> string \<Rightarrow> ParsedOutput" where
  "output_line o' line0 =
     (let line = trim line0 in
      case strip_prefix ''SYNORA_SIZE='' line of
        Some rest \<Rightarrow> (case parse_unsigned u64_max (trim rest) of Some v \<Rightarrow> o'\<lparr>po_size_hint := Some v\<rparr> | None \<Rightarrow> o')
      | None \<Rightarrow>
          (case strip_prefix ''SYNORA_STATUS='' line of
             Some rest \<Rightarrow> o'\<lparr>po_status := Some (trim rest)\<rparr>
           | None \<Rightarrow>
               (case strip_prefix ''SYNORA_MESSAGE='' line of
                  Some rest \<Rightarrow> o'\<lparr>po_message := Some (trim rest)\<rparr>
                | None \<Rightarrow> o')))"

definition parse_output :: "string \<Rightarrow> ParsedOutput" where
  "parse_output s = foldl output_line \<lparr>po_size_hint = None, po_status = None, po_message = None\<rparr> (str_lines s)"

definition opt_pair :: "string \<Rightarrow> string option \<Rightarrow> (string \<times> string) list" where
  "opt_pair k v = (case v of None \<Rightarrow> [] | Some x \<Rightarrow> [(k, x)])"

definition script_envs :: "ScriptProvider \<Rightarrow> SyncContext \<Rightarrow> (string \<times> string) list" where
  "script_envs P ctx =
     [(''SYNORA_JOB'', ctx_job_name ctx), (''TUNASYNC_MIRROR_NAME'', ctx_job_name ctx), (''TUNASYNC_WORKING_DIR'', ctx_storage ctx)]
     @ opt_pair ''SYNORA_UPSTREAM'' (ctx_upstream ctx) @ opt_pair ''TUNASYNC_UPSTREAM_URL'' (ctx_upstream ctx)
     @ [(''SYNORA_STORAGE'', ctx_storage ctx)]
     @ opt_pair ''SYNORA_WORKER'' (ctx_worker ctx) @ opt_pair ''SYNORA_PROXY'' (ctx_proxy ctx) @ opt_pair ''SYNORA_EGRESS'' (ctx_egress ctx)
     @ [(''SYNORA_RUN_ID'', ctx_run_id ctx)] @ ctx_proxy_env ctx @ opt_pair ''SYNORA_EGRESS_ADDRESS'' (ctx_egress_address ctx)
     @ [(''SYNORA_FAMILY'', ctx_family ctx)] @ opt_pair ''SYNORA_API'' (nonblank (ctx_manager_url ctx))
     @ [(''PYTHONUNBUFFERED'', ''1''), (''SYNORA_LOG_DIR'', ctx_storage ctx @ ''/.synora-log''), (''TUNASYNC_LOG_DIR'', ctx_storage ctx @ ''/.synora-log''),
        (''TUNASYNC_LOG_FILE'', opt_default ''/dev/null'' (ctx_log_file ctx))]
     @ filter_map (split_once (CHR ''='')) (sp_env P)"

text \<open>The match after the success test; \<open>None\<close> is its \<open>unreachable!()\<close>.\<close>

definition script_failure :: "int option \<Rightarrow> string option \<Rightarrow> string \<Rightarrow> string \<Rightarrow> ProviderError option" where
  "script_failure code status out err =
     (case (code, status) of
        (None, _) \<Rightarrow> Some (POther ''script terminated without an exit code'')
      | (Some c, s) \<Rightarrow>
          if c = 0 then (case s of Some r \<Rightarrow> Some (POther (''script reported status '' @ r)) | None \<Rightarrow> None)
          else Some (POther (''script exited with '' @ show_int c @ with_detail 8000 (failure_detail out err))))"

definition script_outcome :: "int option \<times> string \<times> string \<Rightarrow> (ProviderError + SyncResult) option" where
  "script_outcome = (\<lambda>(code, out, err).
     let p = parse_output out in
     if process_result_is_success code (po_status p) []
     then Some (Ok (no_result\<lparr>res_exit_code := code, res_stdout := out, res_stderr := err, res_size_hint := po_size_hint p,
                      res_message := po_message p, res_status := po_status p\<rparr>))
     else map_option Err (script_failure code (po_status p) out err))"

definition script_sync :: "'w proc_env \<Rightarrow> ScriptProvider \<Rightarrow> SyncContext \<Rightarrow> ('w, ProviderError, SyncResult) io" where
  "script_sync E P ctx =
     (case scripts_image_name (ctx_scripts_image ctx) of
        Some img \<Rightarrow> run_named_container E
          \<lparr>ds_image = img, ds_command = docker_exec_args [sp_command P], ds_extra_options = [], ds_extra_env = sp_env P, ds_extra_volumes = [],
           ds_keep_container = False, ds_network = None\<rparr> ctx
      | None \<Rightarrow>
          io_bind (run_child E (\<lambda>e. Spawn (''`'' @ sp_command P @ ''`: '' @ error_text e)) (\<lambda>w. w)
              \<lparr>cmd_program = ''/bin/sh'', cmd_args = [''-c'', sp_command P], cmd_envs = script_envs P ctx, cmd_dir = Some (ctx_storage ctx)\<rparr>)
            (\<lambda>r. io_lift (the (script_outcome r))))"

subsection \<open>HTTP\<close>

record HttpProvider =
  hp_parser :: string
  hp_delete :: bool
  hp_warn_on_forbidden_files :: bool
  hp_threads :: "nat option"
  hp_exclude :: "string list"

text \<open>The fetcher of a proxy, a number of threads and the settings of the provider: building it may fail; a sync gives the statistics and the lines of its log.\<close>

record 'w http_env =
  he_client :: "string option \<Rightarrow> FetchError option"
  he_fetch :: "string option \<Rightarrow> nat \<Rightarrow> HttpProvider \<Rightarrow> SyncContext \<Rightarrow> string \<Rightarrow> ('w, FetchError, FetchStats \<times> string list) io"

definition DEFAULT_THREADS :: nat where "DEFAULT_THREADS = 5"

definition http_proxy_of :: "SyncContext \<Rightarrow> string option" where
  "http_proxy_of ctx = map_option snd (find (\<lambda>(k, _). eq_ignore_case k ''all_proxy'' \<or> eq_ignore_case k ''http_proxy'') (ctx_proxy_env ctx))"

definition http_summary :: "FetchStats \<Rightarrow> string" where
  "http_summary st =
     ''downloaded '' @ show_nat (fs_files_downloaded st) @ '' files ('' @ show_nat (fs_files_skipped st) @ '' skipped, ''
     @ show_nat (fs_files_deleted st) @ '' deleted, '' @ show_nat (fs_files_symlinked st) @ '' symlinked)''"

definition http_message :: "FetchStats \<Rightarrow> string" where
  "http_message st =
     (if fs_files_warned st > 0
      then ''completed with warnings: '' @ show_nat (fs_files_warned st) @ '' missing files; '' @ http_summary st @ ''; paths: ''
           @ join_with '', '' (fs_warning_paths st)
           @ (if fs_files_warned st > length (fs_warning_paths st) then ''; additional paths in run log'' else [])
      else http_summary st)"

definition http_outcome :: "FetchStats \<times> string list \<Rightarrow> ProviderError + SyncResult" where
  "http_outcome = (\<lambda>(st, lines).
     if fs_files_failed st > 0
     then Err (POther (''http sync failed: '' @ show_nat (fs_files_failed st) @ '' integrity/transfer error(s); see run log''))
     else Ok (no_result\<lparr>res_exit_code := Some 0, res_stdout := join_with [CHR 0x0A] lines, res_bytes_transferred := Some (fs_downloaded_bytes st),
                res_size_hint := (if fs_files_warned st = 0 then fs_total_size_hint st else None), res_message := Some (http_message st),
                res_status := (if fs_files_warned st > 0 then Some ''success_with_warnings'' else None)\<rparr>))"

definition http_error :: "FetchError \<Rightarrow> ProviderError" where
  "http_error e = (case e of FeCancelled \<Rightarrow> PCancelled | other \<Rightarrow> POther (fetch_error_text other))"

definition http_sync :: "'w http_env \<Rightarrow> HttpProvider \<Rightarrow> SyncContext \<Rightarrow> ('w, ProviderError, SyncResult) io" where
  "http_sync H P ctx w =
     (case ctx_upstream ctx of
        None \<Rightarrow> (Err (PConfig ''http provider requires `upstream`''), w)
      | Some up \<Rightarrow>
          (case he_client H (http_proxy_of ctx) of
             Some e \<Rightarrow> (Err (POther (fetch_error_text e)), w)
           | None \<Rightarrow>
               (case he_fetch H (http_proxy_of ctx) (opt_default DEFAULT_THREADS (hp_threads P)) P ctx up w of
                  (Inl e, w') \<Rightarrow> (Err (http_error e), w')
                | (Inr r, w') \<Rightarrow> (http_outcome r, w'))))"

subsection \<open>Dispatch\<close>

datatype Provider =
    RsyncP RsyncProvider | TwoStageRsyncP TwoStageRsyncProvider | ScriptP ScriptProvider | DockerP DockerProvider | GitP GitProvider | HttpP HttpProvider

fun build_provider :: "ProviderConfig \<Rightarrow> Provider" where
  "build_provider (Rsync opts excl) = RsyncP \<lparr>rp_options = opts, rp_exclude = excl\<rparr>"
| "build_provider (Script cmd vars) = ScriptP \<lparr>sp_command = cmd, sp_env = vars\<rparr>"
| "build_provider (Docker img opts vars vols keep net cmd) =
     DockerP \<lparr>dp_image = img, dp_options = opts, dp_env = vars, dp_volumes = vols, dp_keep_container = keep, dp_network = net, dp_command = cmd\<rparr>"
| "build_provider (Git b) = GitP \<lparr>gp_branch = b\<rparr>"
| "build_provider (TwoStageRsync opts excl prof) = TwoStageRsyncP \<lparr>rp_options = opts, rp_exclude = excl, rp_stage1_profile = prof\<rparr>"
| "build_provider (Http p d forb t excl) =
     HttpP \<lparr>hp_parser = p, hp_delete = d, hp_warn_on_forbidden_files = forb, hp_threads = t, hp_exclude = excl\<rparr>"

fun provider_sync :: "'w http_env \<Rightarrow> 'w proc_env \<Rightarrow> Provider \<Rightarrow> SyncContext \<Rightarrow> ('w, ProviderError, SyncResult) io" where
  "provider_sync H E (RsyncP p) ctx = rsync_sync E p ctx"
| "provider_sync H E (TwoStageRsyncP p) ctx = two_stage_sync E p ctx"
| "provider_sync H E (ScriptP p) ctx = script_sync E p ctx"
| "provider_sync H E (DockerP p) ctx = docker_sync E p ctx"
| "provider_sync H E (GitP p) ctx = git_sync E p ctx"
| "provider_sync H E (HttpP p) ctx = http_sync H p ctx"

section \<open>Laws\<close>

text \<open>The \<open>unreachable!()\<close> of the script provider is not reached.\<close>

lemma script_outcome_total: "script_outcome (code, out, err) \<noteq> None"
  by (auto simp: script_outcome_def script_failure_def process_result_is_success_def Let_def split: option.splits)

lemma script_outcome_OkD:
  "script_outcome (code, out, err) = Some (Inr r) \<Longrightarrow> process_result_is_success (res_exit_code r) (res_status r) []"
  by (auto simp: script_outcome_def no_result_def Let_def split: if_splits)

lemma docker_outcome_OkD: "docker_outcome N (code, out, err) = Inr r \<Longrightarrow>
    process_result_is_success (res_exit_code r) (res_status r) [] \<and> script_reported_failure (out @ [CHR 0x0A] @ err) = None"
  by (auto simp: docker_outcome_def no_result_def Let_def split: if_splits option.splits)

lemma run_named_container_OkD:
  "run_named_container E spec ctx w = (Inr r, w') \<Longrightarrow> process_result_is_success (res_exit_code r) (res_status r) []"
  by (auto simp: run_named_container_def Let_def io_bind_Inr io_lift_def dest!: docker_outcome_OkD split: sum.splits)

lemma exit_zero_success: "process_result_is_success (Some 0) None codes"
  by (simp add: process_result_is_success_def)

lemma script_sync_OkD: "script_sync E P ctx w = (Inr r, w') \<Longrightarrow> process_result_is_success (res_exit_code r) (res_status r) []"
proof (cases "scripts_image_name (ctx_scripts_image ctx)")
  case None
  assume "script_sync E P ctx w = (Inr r, w')"
  with None obtain code out err where "the (script_outcome (code, out, err)) = Inr r"
    by (auto simp: script_sync_def io_bind_Inr io_lift_def)
  with script_outcome_total [of code out err] show ?thesis by (auto intro: script_outcome_OkD)
qed (auto simp: script_sync_def dest: run_named_container_OkD)

lemma git_in_container_OkD: "git_in_container E P ctx img w = (Inr r, w') \<Longrightarrow> process_result_is_success (res_exit_code r) (res_status r) []"
  by (auto simp: git_in_container_def Let_def io_bind_Inr case_prod_beta dest!: run_named_container_OkD)

lemma git_native_OkD: "git_native E P ctx url w = (Inr r, w') \<Longrightarrow> res_exit_code r = Some 0 \<and> res_status r = None"
  by (auto simp: git_native_def Let_def io_bind_Inr io_err_def no_result_def case_prod_beta split: if_splits)

lemma git_sync_OkD: "git_sync E P ctx w = (Inr r, w') \<Longrightarrow> process_result_is_success (res_exit_code r) (res_status r) []"
  by (auto simp: git_sync_def exit_zero_success dest: git_in_container_OkD git_native_OkD split: option.splits)

lemma http_outcome_OkD:
  "http_outcome (st, lines) = Inr r \<Longrightarrow> process_result_is_success (res_exit_code r) (res_status r) []
     \<and> fs_files_failed st = 0 \<and> (res_status r = None \<longleftrightarrow> fs_files_warned st = 0)"
  by (auto simp: http_outcome_def no_result_def process_result_is_success_def ok_status_def split: if_splits)

lemma http_sync_OkD:
  assumes "http_sync H P ctx w = (Inr r, w')"
  shows "\<exists>up st lines. ctx_upstream ctx = Some up
    \<and> he_fetch H (http_proxy_of ctx) (opt_default DEFAULT_THREADS (hp_threads P)) P ctx up w = (Inr (st, lines), w') \<and> http_outcome (st, lines) = Inr r"
  using assms by (auto simp: http_sync_def split: option.splits prod.splits sum.splits)

lemma rsync_success: "rsync_outcome N ctx (code, out, err) = Inr r \<Longrightarrow>
    process_result_is_success (res_exit_code r) (res_status r) (success_exit_codes (ctx_job ctx))"
  by (auto simp: process_result_is_success_def is_success_exit_def dest!: rsync_outcome_OkD)

text \<open>C23: What a provider reports as a success the executor accepts: for the provider that is built from a job, whatever the processes, the network and the file
  system do, a result that it returns passes the check of exit code and status that the executor applies for that job. So the executor's check never turns a
  success of a provider into a failure.
\<close>

theorem provider_success_accepted:
  assumes "provider_sync H E (build_provider (provider (ctx_job ctx))) ctx w = (Inr r, w')"
  shows "succeeded (ctx_job ctx) (Inr r)"
proof -
  let ?accepted = "process_result_is_success (res_exit_code r) (res_status r)
    (case provider (ctx_job ctx) of Rsync _ _ \<Rightarrow> success_exit_codes (ctx_job ctx) | TwoStageRsync _ _ _ \<Rightarrow> success_exit_codes (ctx_job ctx) | _ \<Rightarrow> [])"
  have judged: "succeeded (ctx_job ctx) (Inr r)" if ?accepted
    using that by (simp add: succeeded_def sync_result_failure_reason_def reported_completion_failure_reason_def)
  show ?thesis
  proof (rule judged, cases "provider (ctx_job ctx)")
    case (Rsync opts excl)
    with assms show ?accepted
      by (auto dest!: rsync_sync_OkD rsync_success)
  next
    case (TwoStageRsync opts excl prof)
    with assms show ?accepted
      by (auto dest!: two_stage_sync_OkD rsync_success)
  qed (use assms in \<open>auto simp: docker_sync_def dest: script_sync_OkD run_named_container_OkD git_sync_OkD dest!: http_sync_OkD http_outcome_OkD\<close>)
qed

definition demo_http :: "nat http_env" where
  "demo_http = \<lparr>he_client = (\<lambda>_. None), he_fetch = (\<lambda>_ _ _ _ _ w. (Err FeCancelled, w))\<rparr>"

theorem provider_success_accepted_witness:
  "\<exists>r. docker_sync demo_proc \<lparr>dp_image = ''alpine'', dp_options = [], dp_env = [], dp_volumes = [], dp_keep_container = False, dp_network = None, dp_command = []\<rparr>
          (demo_ctx\<lparr>ctx_job := demo_sync_job\<lparr>provider := Docker ''alpine'' [] [] [] False None []\<rparr>\<rparr>) 0 = (Inr r, 1)
     \<and> succeeded (demo_sync_job\<lparr>provider := Docker ''alpine'' [] [] [] False None []\<rparr>) (Inr r)"
proof -
  let ?job = "demo_sync_job\<lparr>provider := Docker ''alpine'' [] [] [] False None []\<rparr>"
  let ?P = "\<lparr>dp_image = ''alpine'', dp_options = [], dp_env = [], dp_volumes = [], dp_keep_container = False, dp_network = None, dp_command = []\<rparr>"
  have short: "fst (read_pipe_tee True [ReadOk ''SYNORA_STATUS=success''] [] None) = ''SYNORA_STATUS=success''"
    "fst (read_pipe_tee True [] [] None) = []"
    by (simp_all add: MAX_BUF_def)
  have "case docker_outcome demo_num (Some 0, ''SYNORA_STATUS=success'', []) of Inr _ \<Rightarrow> True | _ \<Rightarrow> False" by code_simp
  then have "\<exists>r. docker_outcome demo_num (Some 0, ''SYNORA_STATUS=success'', []) = Inr r" by (auto split: sum.splits)
  then obtain r where "docker_outcome demo_num (Some 0, ''SYNORA_STATUS=success'', []) = Inr r" by blast
  then have run: "docker_sync demo_proc ?P (demo_ctx\<lparr>ctx_job := ?job\<rparr>) 0 = (Inr r, 1)"
    by (simp add: docker_sync_def run_named_container_def validate_docker_options_def network_ok_def Let_def io_bind_def io_lift_def run_child_def
          control_ignored_def docker_exec_args_def short del: read_pipe_tee.simps) (simp add: demo_proc_def)
  then have "provider_sync demo_http demo_proc (build_provider (provider (ctx_job (demo_ctx\<lparr>ctx_job := ?job\<rparr>)))) (demo_ctx\<lparr>ctx_job := ?job\<rparr>) 0 = (Inr r, 1)"
    by simp
  from provider_success_accepted [OF this] run show ?thesis by auto
qed

end
