(* ===== verification/Httpfetch_Laws.thy ===== *)
theory Httpfetch_Laws
  imports Httpfetch_Exec
begin

text \<open>
  Laws of the mirror synchronisation. While a plan is made nothing that was found is dropped (\<open>grows\<close>), every name of the upstream is
  planned for (\<open>handled\<close>) and every path stays inside the mirror. The locale \<open>file_relation\<close> is the contract of a relation between
  the files before and after that the single operations keep; the execution of a plan then keeps it. It is interpreted on
  the paths an execution touches and on the paths it may remove.
\<close>

section \<open>What a plan covers\<close>

definition work :: "plan_state \<Rightarrow> DirectoryWork set" where
  "work s = set (ps_listings s) \<union> set (ps_pending s) \<union> fst ` set (ps_done s)"

definition given_up :: "plan_state \<Rightarrow> bool" where
  "given_up s = pl_incomplete (ps_plan s)"

text \<open>Unless the plan gives up, nothing that was found is dropped.\<close>

definition grows :: "plan_state \<Rightarrow> plan_state \<Rightarrow> bool" where
  "grows s t \<longleftrightarrow> (given_up s \<longrightarrow> given_up t) \<and> (given_up t \<or> work s \<subseteq> work t \<and> ps_remote s \<subseteq> ps_remote t \<and> set (ps_done s) \<subseteq> set (ps_done t)
     \<and> set (pl_downloads (ps_plan s)) \<subseteq> set (pl_downloads (ps_plan t)) \<and> set (pl_symlinks (ps_plan s)) \<subseteq> set (pl_symlinks (ps_plan t))
     \<and> set (pl_manifests (ps_plan s)) \<subseteq> set (pl_manifests (ps_plan t)))"

interpretation planning: io_preorder grows
  by unfold_locales (auto simp: grows_def)

definition planned :: "fetch_env \<Rightarrow> plan_state \<Rightarrow> DirectoryWork \<Rightarrow> IndexEntry \<Rightarrow> bool" where
  "planned F s w e =
     (case en_kind e of
        DirEntry \<Rightarrow> child_work w e \<in> work s
      | FileEntry \<Rightarrow> local_matches (local_node F (rel_of w e)) e \<or> (url_join (dw_url w) (en_path e), rel_of w e) \<in> set (pl_downloads (ps_plan s))
      | SymlinkEntry \<Rightarrow> (key_of w e, link_target e) \<in> set (pl_symlinks (ps_plan s)))"

text \<open>A name of the upstream is planned for, as an entry of a listing or as a manifest.\<close>

definition handled :: "fetch_env \<Rightarrow> plan_state \<Rightarrow> string \<Rightarrow> bool" where
  "handled F s k \<longleftrightarrow>
     (\<exists>(w, es) \<in> set (ps_done s). \<exists>e \<in> set es. accepted F w e \<and> key_of w e = k \<and> planned F s w e)
     \<or> (\<exists>(dest, body) \<in> set (pl_manifests (ps_plan s)). dest = k)"

lemma planned_grows: "planned F s w e \<Longrightarrow> grows s t \<Longrightarrow> \<not> given_up t \<Longrightarrow> planned F t w e"
  by (auto simp: planned_def grows_def split: EntryKind.splits)

lemma handled_entry:
  "(w, es) \<in> set (ps_done s) \<Longrightarrow> e \<in> set es \<Longrightarrow> accepted F w e \<Longrightarrow> key_of w e = k \<Longrightarrow> planned F s w e \<Longrightarrow> handled F s k"
  unfolding handled_def by blast

lemma handled_grows:
  assumes "handled F s k" and "grows s t" and "\<not> given_up t"
  shows "handled F t k"
  using assms(1) unfolding handled_def [of F s]
proof (elim disjE bexE, goal_cases)
  case (1 x)
  then obtain w es e where "(w, es) \<in> set (ps_done s)" "e \<in> set es" "accepted F w e" "key_of w e = k" "planned F s w e" by blast
  with assms(2,3) planned_grows [OF _ assms(2,3)] show ?case by (intro handled_entry [of w es]) (auto simp: grows_def)
next
  case (2 x)
  with assms(2,3) show ?case by (auto simp: handled_def grows_def)
qed

text \<open>The entries of a listing as the server gave it.\<close>

definition read_from :: "fetch_env \<Rightarrow> DirectoryWork \<Rightarrow> IndexEntry list \<Rightarrow> bool" where
  "read_from F w es \<longleftrightarrow>
     (\<exists>n body. get_listing (fe_answer F n (listing_url w)) = Inr body
        \<and> (if is_repodata w then rpm_manifest_entries (fe_xml F) body = Inr es else es = fe_parse F body))"

definition covered :: "fetch_env \<Rightarrow> plan_state \<Rightarrow> bool" where
  "covered F s \<longleftrightarrow> given_up s \<or>
     (\<forall>k \<in> ps_remote s. handled F s k) \<and> (\<forall>(w, es) \<in> set (ps_done s). read_from F w es)"

definition entered :: "fetch_env \<Rightarrow> DirectoryWork \<Rightarrow> IndexEntry list \<Rightarrow> plan_state \<Rightarrow> bool" where
  "entered F w es s \<longleftrightarrow> given_up s \<or> (\<forall>e \<in> set es. accepted F w e \<longrightarrow> key_of w e \<in> ps_remote s)"

lemma entered_grows: "entered F w es s \<Longrightarrow> grows s t \<Longrightarrow> entered F w es t"
  by (auto simp: entered_def grows_def)

lemma plan_entry_grows: "grows s (plan_entry F w e s)"
  by (auto simp: plan_entry_def grows_def Let_def given_up_def work_def plan_dir_def plan_file_def split: EntryKind.split option.split)

lemma plan_entry_fields [simp]:
  "ps_done (plan_entry F w e s) = ps_done s"
  "ps_remote (plan_entry F w e s) = (if accepted F w e then insert (key_of w e) (ps_remote s) else ps_remote s)"
  by (auto simp: plan_entry_def Let_def plan_dir_def split: EntryKind.split)

lemma plan_entry_planned:
  "accepted F w e \<Longrightarrow> key_of w e \<notin> ps_remote s \<Longrightarrow> \<not> given_up (plan_entry F w e s) \<Longrightarrow> planned F (plan_entry F w e s) w e"
  by (auto simp: plan_entry_def Let_def planned_def given_up_def work_def plan_dir_def plan_file_def split: EntryKind.split option.split if_splits)

lemma plan_entry_covered:
  assumes "covered F s" and "(w, es) \<in> set (ps_done s)" and "e \<in> set es"
  shows "covered F (plan_entry F w e s)"
proof (cases "given_up (plan_entry F w e s)")
  case False
  let ?t = "plan_entry F w e s"
  have old: "handled F ?t k" if "k \<in> ps_remote s" for k
    using that assms(1) handled_grows plan_entry_grows False unfolding covered_def by (metis (full_types) grows_def)
  have "handled F ?t (key_of w e)" if "accepted F w e" "key_of w e \<notin> ps_remote s"
    using plan_entry_planned [OF that False] that assms(2,3) by (auto intro: handled_entry)
  with old have "\<forall>k \<in> ps_remote ?t. handled F ?t k" by auto
  moreover have "\<not> given_up s" using False plan_entry_grows by (auto simp: grows_def)
  ultimately show ?thesis using assms(1) by (simp add: covered_def)
qed (simp add: covered_def)

lemma plan_entries_covered:
  assumes "covered F s" and "(w, es) \<in> set (ps_done s)" and "set es' \<subseteq> set es"
  shows "covered F (fst (plan_entries F w es' s)) \<and> grows s (fst (plan_entries F w es' s)) \<and> entered F w es' (fst (plan_entries F w es' s))"
  using assms
proof (induction es' arbitrary: s)
  case Nil
  then show ?case by (simp add: planning.io_refl entered_def)
next
  case (Cons e es')
  show ?case
  proof (cases "MAX_ENTRIES \<le> ps_seen s")
    case True
    then show ?thesis by (simp add: covered_def grows_def entered_def given_up_def)
  next
    case False
    let ?s1 = "plan_entry F w e s"
    have step: "covered F ?s1" by (rule plan_entry_covered) (use Cons.prems in auto)
    note ih = Cons.IH [of ?s1]
    have "entered F w [e] ?s1" by (simp add: entered_def)
    with ih step Cons.prems False plan_entry_grows [of s F w e] show ?thesis
      using entered_grows [of F w "[e]" ?s1 "fst (plan_entries F w es' ?s1)"] planning.io_trans
      by (auto simp: entered_def)
  qed
qed

definition plan_ok :: "fetch_env \<Rightarrow> plan_state \<Rightarrow> bool" where
  "plan_ok F s \<longleftrightarrow> covered F s \<and> (\<forall>(w, es) \<in> set (ps_done s). entered F w es s)"

lemma plan_entries_done [simp]: "ps_done (fst (plan_entries F w es s)) = ps_done s"
  by (induction es arbitrary: s) auto

lemma plan_entries_ok:
  assumes "plan_ok F s" and "grows s t" and "covered F t" and "ps_done t = (w, es) # ps_done s"
  shows "plan_ok F (fst (plan_entries F w es t)) \<and> grows s (fst (plan_entries F w es t))"
proof -
  let ?u = "fst (plan_entries F w es t)"
  have "(w, es) \<in> set (ps_done t)" by (simp add: assms(4))
  from plan_entries_covered [OF assms(3) this subset_refl] have u: "covered F ?u" "grows t ?u" "entered F w es ?u" by auto
  with assms(2) have g: "grows s ?u" by (blast intro: planning.io_trans)
  have "\<forall>(w', es') \<in> set (ps_done s). entered F w' es' ?u" using assms(1) entered_grows g unfolding plan_ok_def by fast
  with u(1,3) g assms(4) show ?thesis by (auto simp: plan_ok_def)
qed

lemma covered_opened:
  assumes "covered F s" and "grows s t" and "ps_done t = (w, es) # ps_done s" and "read_from F w es"
    and "\<forall>k \<in> ps_remote t. k \<in> ps_remote s \<or> k \<in> fst ` set (pl_manifests (ps_plan t))"
  shows "covered F t"
proof (cases "given_up t")
  case False
  then have s: "\<not> given_up s" using assms(2) by (simp add: grows_def)
  have "handled F t k" if "k \<in> ps_remote t" for k
  proof (cases "k \<in> ps_remote s")
    case True
    then have "handled F s k" using assms(1) s by (simp add: covered_def)
    then show ?thesis by (rule handled_grows [OF _ assms(2) False])
  next
    case other: False
    then show ?thesis using assms(5) that by (fastforce simp: handled_def)
  qed
  moreover have "\<forall>(w', es') \<in> set (ps_done t). read_from F w' es'" using assms(1,3,4) s by (auto simp: covered_def)
  ultimately show ?thesis by (simp add: covered_def)
qed (simp add: covered_def)

lemma plan_body_ok:
  assumes "plan_ok F s" and "set (ps_listings s) \<subseteq> insert w (set ls)" and "get_listing (fe_answer F n (listing_url w)) = Inr body"
    and "plan_body F w body (s\<lparr>ps_listings := ls\<rparr>) = Inr (t, stop)"
  shows "plan_ok F t \<and> grows s t"
proof (cases "is_repodata w")
  case True
  with assms(4) obtain es where es: "rpm_manifest_entries (fe_xml F) body = Inr es" by (auto simp: plan_body_def)
  define u where "u = s\<lparr>ps_listings := ls, ps_remote := insert (manifest_rel w) (ps_remote s),
    ps_plan := (ps_plan s)\<lparr>pl_manifests := pl_manifests (ps_plan s) @ [(manifest_rel w, body)]\<rparr>, ps_done := (w, es) # ps_done s\<rparr>"
  have t: "t = fst (plan_entries F w es u)" using assms(4) es True by (simp add: plan_body_def u_def)
  have g: "grows s u" using assms(2) by (auto simp: grows_def u_def given_up_def work_def)
  have "read_from F w es" unfolding read_from_def using assms(3) es True by auto
  with assms(1) g have "covered F u" by (intro covered_opened [of F s u w es]) (auto simp: plan_ok_def u_def)
  with plan_entries_ok [OF assms(1) g] show ?thesis by (simp add: t u_def)
next
  case False
  define u where "u = s\<lparr>ps_listings := ls, ps_done := (w, fe_parse F body) # ps_done s\<rparr>"
  have t: "t = fst (plan_entries F w (fe_parse F body) u)" using assms(4) False by (simp add: plan_body_def u_def)
  have g: "grows s u" using assms(2) by (auto simp: grows_def u_def given_up_def work_def)
  have "read_from F w (fe_parse F body)" unfolding read_from_def using assms(3) False by auto
  with assms(1) g have "covered F u" by (intro covered_opened [of F s u w "fe_parse F body"]) (auto simp: plan_ok_def u_def)
  with plan_entries_ok [OF assms(1) g] show ?thesis by (simp add: t u_def)
qed

lemma set_remove_nth: "i < length xs \<Longrightarrow> set xs = insert (xs ! i) (set (remove_nth i xs))"
  by (metis mset_remove_nth set_mset_add_mset_insert set_mset_mset)

lemma given_up_lost [simp]: "given_up (listing_lost s)"
  by (simp add: given_up_def listing_lost_def)

lemma plan_ok_given_up: "given_up t \<Longrightarrow> plan_ok F t \<and> grows s t"
  by (simp add: plan_ok_def covered_def entered_def grows_def)

lemma plan_step_ok:
  assumes "plan_step F n ev s = Inr (t, stop)" and "ps_listings s \<noteq> []" and "plan_ok F s"
  shows "plan_ok F t \<and> grows s t"
proof (cases ev)
  case (ListingDone k)
  define i where "i = k mod length (ps_listings s)"
  then have i: "i < length (ps_listings s)" using assms(2) by simp
  let ?w = "ps_listings s ! i"
  show ?thesis
  proof (cases "get_listing (fe_answer F n (listing_url ?w))")
    case (Inr body)
    have "plan_body F ?w body (s\<lparr>ps_listings := remove_nth i (ps_listings s)\<rparr>) = Inr (t, stop)"
      using assms(1) ListingDone Inr by (simp add: plan_step_def Let_def i_def)
    then show ?thesis using plan_body_ok [OF assms(3) _ Inr] set_remove_nth [OF i] by blast
  next
    case (Inl e)
    then have "given_up t" using assms(1) ListingDone by (auto simp: plan_step_def Let_def i_def split: if_splits)
    then show ?thesis by (rule plan_ok_given_up)
  qed
next
  case (ListingPanic k)
  then have "given_up t" using assms(1) by (auto simp: plan_step_def)
  then show ?thesis by (rule plan_ok_given_up)
qed (use assms(1) in \<open>simp add: plan_step_def\<close>)

lemma plan_entries_stops: "plan_entries F w es s = (t, True) \<Longrightarrow> given_up t"
  by (induction es arbitrary: s) (auto simp: given_up_def split: if_splits)

lemma plan_body_stops: "plan_body F w body s = Inr (t, True) \<Longrightarrow> given_up t"
  by (auto simp: plan_body_def split: if_splits dest: plan_entries_stops)

lemma plan_step_stops: "plan_step F n ev s = Inr (t, True) \<Longrightarrow> given_up t"
  by (auto simp: plan_step_def Let_def split: plan_event.splits sum.splits if_splits dest: plan_body_stops)

lemma spawn_listings_work: "work (spawn_listings F s) = work s"
  unfolding work_def spawn_listings_def Let_def by (simp flip: set_append)

lemma spawn_listings_ok:
  assumes "plan_ok F s"
  shows "plan_ok F (spawn_listings F s) \<and> grows s (spawn_listings F s)"
proof -
  have fields: "ps_plan (spawn_listings F s) = ps_plan s" "ps_done (spawn_listings F s) = ps_done s" "ps_remote (spawn_listings F s) = ps_remote s"
    by (simp_all add: spawn_listings_def Let_def)
  then have g: "grows s (spawn_listings F s)" by (simp add: grows_def given_up_def spawn_listings_work)
  then show ?thesis
    using assms handled_grows [OF _ g] entered_grows [OF _ g] unfolding plan_ok_def covered_def given_up_def by (auto simp: fields)
qed

lemma plan_loop_ok:
  assumes "plan_loop F sched n s = Inr t" and "plan_ok F s"
  shows "plan_ok F t \<and> grows s t \<and> (\<not> given_up t \<longrightarrow> ps_listings t = [] \<and> ps_pending t = [])"
  using assms
proof (induction F sched n s rule: plan_loop.induct)
  case (1 F sched n s)
  let ?s = "spawn_listings F s"
  note sp = spawn_listings_ok [OF "1.prems"(2)]
  show ?case
  proof (cases "ps_listings ?s = []")
    case True
    then have "t = ?s" using "1.prems"(1) by (simp add: plan_loop.simps [of F sched n s])
    moreover have "ps_pending ?s = []" using True by (auto simp: spawn_listings_def Let_def listing_concurrency_def)
    ultimately show ?thesis using sp True by simp
  next
    case False
    then obtain s2 stop where step: "plan_step F n (sched n) ?s = Inr (s2, stop)" and rest: "if stop then t = s2 else plan_loop F sched (Suc n) s2 = Inr t"
      using "1.prems"(1) by (auto simp: plan_loop.simps [of F sched n s] Let_def split: sum.splits if_splits)
    have s2: "plan_ok F s2 \<and> grows ?s s2" using plan_step_ok [OF step False] sp by blast
    show ?thesis
    proof (cases stop)
      case True
      then have "given_up s2" using plan_step_stops [of F n "sched n" ?s s2] step by simp
      with rest True s2 sp show ?thesis by (auto intro: planning.io_trans)
    next
      case go: False
      then have "plan_ok F t \<and> grows s2 t \<and> (\<not> given_up t \<longrightarrow> ps_listings t = [] \<and> ps_pending t = [])"
        using "1.IH" [OF refl False step refl go] rest s2 by simp
      then show ?thesis using sp s2 by (blast intro: planning.io_trans)
    qed
  qed
qed

section \<open>Nothing leaves the mirror\<close>

text \<open>A path that stays below the directory it is joined to.\<close>

definition inside :: "string \<Rightarrow> bool" where
  "inside p \<longleftrightarrow> \<not> starts_with ''/'' p \<and> ''..'' \<notin> set (path_components p)"

definition plan_inside :: "Plan \<Rightarrow> bool" where
  "plan_inside p \<longleftrightarrow> (\<forall>(u, dest) \<in> set (pl_downloads p). inside dest)
     \<and> (\<forall>(dest, target) \<in> set (pl_symlinks p). inside dest \<and> inside target) \<and> (\<forall>(dest, body) \<in> set (pl_manifests p). inside dest)"

definition state_inside :: "plan_state \<Rightarrow> bool" where
  "state_inside s \<longleftrightarrow> plan_inside (ps_plan s) \<and> (\<forall>w \<in> work s. inside (dw_rel w))"

lemma state_insideI:
  assumes "state_inside s" and "\<And>x. x \<in> set (pl_downloads (ps_plan t)) \<Longrightarrow> x \<in> set (pl_downloads (ps_plan s)) \<or> inside (snd x)"
    and "\<And>x. x \<in> set (pl_symlinks (ps_plan t)) \<Longrightarrow> x \<in> set (pl_symlinks (ps_plan s)) \<or> inside (fst x) \<and> inside (snd x)"
    and "\<And>x. x \<in> set (pl_manifests (ps_plan t)) \<Longrightarrow> x \<in> set (pl_manifests (ps_plan s)) \<or> inside (fst x)"
    and "\<And>w. w \<in> work t \<Longrightarrow> w \<in> work s \<or> inside (dw_rel w)"
  shows "state_inside t"
  using assms unfolding state_inside_def plan_inside_def split_beta by blast

lemma path_components_append: "path_components (a @ CHR ''/'' # b) = path_components a @ path_components b"
  by (simp add: path_components_def split_char_concat)

lemma inside_safe: "is_safe_rel p \<Longrightarrow> inside p"
  by (auto simp: is_safe_rel_def inside_def path_components_def)

lemma inside_join: "inside a \<Longrightarrow> a \<noteq> [] \<Longrightarrow> inside b \<Longrightarrow> inside (a @ ''/'' @ b)"
  using path_components_append [of a b] by (cases a) (auto simp: inside_def starts_with_def)

lemma trim_slash: "trim_end_where is_slash p = p \<or> (\<exists>q. p = trim_end_where is_slash p @ CHR ''/'' # q)"
proof -
  let ?t = "takeWhile is_slash (rev p)"
  have p: "p = trim_end_where is_slash p @ rev ?t"
    unfolding trim_end_where_def by (metis rev_append rev_rev_ident takeWhile_dropWhile_id)
  have "x = CHR ''/''" if "x \<in> set (rev ?t)" for x using that by (auto dest: set_takeWhileD)
  then show ?thesis using p by (cases "rev ?t") auto
qed

lemma path_components_trim: "set (path_components (trim_end_where is_slash p)) \<subseteq> set (path_components p)"
  using trim_slash [of p] by (metis Un_upper1 path_components_append set_append subset_refl)

lemma inside_trim: "inside p \<Longrightarrow> inside (trim_end_where is_slash p)"
  using path_components_trim [of p] trim_end_where_prefix [of is_slash p]
  unfolding inside_def starts_with_def by (meson prefix_order.trans subsetD)

lemma inside_rel: "inside (dw_rel w) \<Longrightarrow> accepted F w e \<Longrightarrow> inside (rel_of w e)"
  using inside_join [of "dw_rel w" "en_path e"] by (auto simp: rel_of_def accepted_def inside_safe)

lemma inside_key: "inside (dw_rel w) \<Longrightarrow> accepted F w e \<Longrightarrow> inside (key_of w e)"
  by (simp add: key_of_def inside_rel inside_trim)

lemma inside_target: "accepted F w e \<Longrightarrow> inside (link_target e)"
  by (auto simp: link_target_def accepted_def inside_safe inside_trim split: option.split)

lemma inside_manifest: "inside (dw_rel w) \<Longrightarrow> trim_end_where is_slash (dw_rel w) \<noteq> [] \<or> dw_rel w = [] \<Longrightarrow> inside (manifest_rel w)"
  using inside_join [OF inside_trim, of "dw_rel w" "''repomd.xml''"]
  by (auto simp: manifest_rel_def inside_def starts_with_def path_components_def)

lemma trim_slash_Nil: "\<not> starts_with ''/'' p \<Longrightarrow> trim_end_where is_slash p = [] \<Longrightarrow> p = []"
  using trim_slash [of p] by (auto simp: starts_with_def)

lemma inside_manifest_rel: "inside (dw_rel w) \<Longrightarrow> inside (manifest_rel w)"
  by (rule inside_manifest) (auto simp: inside_def dest: trim_slash_Nil)

lemma plan_entry_inside:
  assumes "state_inside s" and "inside (dw_rel w)"
  shows "state_inside (plan_entry F w e s)"
proof (cases "accepted F w e \<and> key_of w e \<notin> ps_remote s")
  case True
  then have new: "inside (rel_of w e)" "inside (key_of w e)" "inside (link_target e)" using inside_rel inside_key inside_target assms(2) by blast+
  show ?thesis
  proof (rule state_insideI [OF assms(1)], goal_cases)
    case 1
    then show ?case using True new by (auto simp: plan_entry_def Let_def plan_dir_def plan_file_def split: EntryKind.splits option.splits if_splits)
  next
    case 2
    then show ?case using True new by (auto simp: plan_entry_def Let_def plan_dir_def plan_file_def split: EntryKind.splits option.splits if_splits)
  next
    case 3
    then show ?case using True by (auto simp: plan_entry_def Let_def plan_dir_def plan_file_def split: EntryKind.splits option.splits if_splits)
  next
    case 4
    then show ?case using True new by (auto simp: plan_entry_def Let_def plan_dir_def work_def child_work_def split: EntryKind.splits if_splits)
  qed
next
  case False
  have "ps_plan (plan_entry F w e s) = ps_plan s" "work (plan_entry F w e s) = work s" using False by (auto simp: plan_entry_def Let_def work_def)
  with assms(1) show ?thesis by (simp add: state_inside_def)
qed

lemma plan_entries_inside: "state_inside s \<Longrightarrow> inside (dw_rel w) \<Longrightarrow> state_inside (fst (plan_entries F w es s))"
proof (induction es arbitrary: s)
  case (Cons e es)
  have "state_inside (s\<lparr>ps_plan := (ps_plan s)\<lparr>pl_incomplete := True\<rparr>, ps_pending := [], ps_listings := []\<rparr>)"
    by (rule state_insideI [OF Cons.prems(1)]) (auto simp: work_def)
  with Cons.IH [OF plan_entry_inside [OF Cons.prems] Cons.prems(2)] show ?case by simp
qed simp

lemma plan_body_inside:
  assumes "plan_body F w body s = Inr (t, stop)" and "state_inside s" and "inside (dw_rel w)"
  shows "state_inside t"
proof (cases "is_repodata w")
  case True
  with assms(1) obtain es where "rpm_manifest_entries (fe_xml F) body = Inr es" by (auto simp: plan_body_def)
  with assms(1) True have t: "t = fst (plan_entries F w es (s\<lparr>ps_remote := insert (manifest_rel w) (ps_remote s),
    ps_plan := (ps_plan s)\<lparr>pl_manifests := pl_manifests (ps_plan s) @ [(manifest_rel w, body)]\<rparr>, ps_done := (w, es) # ps_done s\<rparr>))"
    by (simp add: plan_body_def)
  show ?thesis unfolding t
    by (intro plan_entries_inside state_insideI [OF assms(2)] assms(3)) (use assms(3) inside_manifest_rel in \<open>auto simp: work_def\<close>)
next
  case False
  with assms(1) have t: "t = fst (plan_entries F w (fe_parse F body) (s\<lparr>ps_done := (w, fe_parse F body) # ps_done s\<rparr>))" by (simp add: plan_body_def)
  show ?thesis unfolding t
    by (intro plan_entries_inside state_insideI [OF assms(2)] assms(3)) (use assms(3) in \<open>auto simp: work_def\<close>)
qed

lemma plan_step_inside:
  assumes "plan_step F n ev s = Inr (t, stop)" and "ps_listings s \<noteq> []" and "state_inside s"
  shows "state_inside t"
proof -
  have removed: "state_inside (s\<lparr>ps_listings := remove_nth i (ps_listings s)\<rparr>)" for i
    by (rule state_insideI [OF assms(3)]) (auto simp: work_def remove_nth_def dest: in_set_takeD in_set_dropD)
  have lost: "state_inside (listing_lost (s\<lparr>ps_listings := remove_nth i (ps_listings s)\<rparr>))" for i
    by (rule state_insideI [OF removed [of i]]) (auto simp: work_def listing_lost_def)
  show ?thesis
  proof (cases ev)
    case (ListingDone k)
    define i where "i = k mod length (ps_listings s)"
    have "i < length (ps_listings s)" using assms(2) by (simp add: i_def)
    then have "inside (dw_rel (ps_listings s ! i))" using assms(3) by (simp add: state_inside_def work_def)
    with plan_body_inside [OF _ removed this] lost assms(1) ListingDone show ?thesis
      by (auto simp: plan_step_def Let_def i_def split: sum.splits if_splits)
  next
    case (ListingPanic k)
    then show ?thesis using assms(1) lost by (auto simp: plan_step_def)
  qed (use assms(1) in \<open>simp add: plan_step_def\<close>)
qed

lemma spawn_listings_inside: "state_inside s \<Longrightarrow> state_inside (spawn_listings F s)"
  by (simp add: state_inside_def spawn_listings_work) (simp add: spawn_listings_def Let_def)

lemma plan_loop_invariant:
  assumes "plan_loop F sched n s = Inr t" and "I s"
    and "\<And>s. I s \<Longrightarrow> I (spawn_listings F s)"
    and "\<And>n ev s s' stop. plan_step F n ev s = Inr (s', stop) \<Longrightarrow> ps_listings s \<noteq> [] \<Longrightarrow> I s \<Longrightarrow> I s'"
  shows "I t"
  using assms
proof (induction F sched n s rule: plan_loop.induct)
  case (1 F sched n s)
  let ?s = "spawn_listings F s"
  have sp: "I ?s" by (rule "1.prems"(3) [OF "1.prems"(2)])
  show ?case
  proof (cases "ps_listings ?s = []")
    case True
    then have "t = ?s" using "1.prems"(1) by (simp add: plan_loop.simps [of F sched n s])
    then show ?thesis using sp by simp
  next
    case False
    then obtain s2 stop where step: "plan_step F n (sched n) ?s = Inr (s2, stop)" and rest: "if stop then t = s2 else plan_loop F sched (Suc n) s2 = Inr t"
      using "1.prems"(1) by (auto simp: plan_loop.simps [of F sched n s] Let_def split: sum.splits if_splits)
    have s2: "I s2" by (rule "1.prems"(4) [OF step False sp])
    show ?thesis
    proof (cases stop)
      case go: False
      show ?thesis by (rule "1.IH" [OF refl False step refl go]) (use rest go s2 "1.prems"(3,4) in auto)
    qed (use rest s2 in simp)
  qed
qed

lemma plan_loop_inside: "plan_loop F sched n s = Inr t \<Longrightarrow> state_inside s \<Longrightarrow> state_inside t"
  by (erule plan_loop_invariant) (auto intro: spawn_listings_inside plan_step_inside)

section \<open>What an execution does to the files\<close>

text \<open>The paths of a download or a manifest: \<open>A\<close> may be written, \<open>P\<close> may be removed, \<open>D\<close> may be created as directories.\<close>

definition may_fetch :: "string list set \<Rightarrow> string list set \<Rightarrow> string list set \<Rightarrow> string \<Rightarrow> bool" where
  "may_fetch A P D dest \<longleftrightarrow> path_components dest \<in> A \<and> path_components (partial_path dest) \<in> A \<inter> P \<and> set (parents (path_components dest)) \<subseteq> D"

definition may_publish :: "string list set \<Rightarrow> string list set \<Rightarrow> string list set \<Rightarrow> string \<Rightarrow> bool" where
  "may_publish A P D dest \<longleftrightarrow> path_components dest \<in> A \<and> manifest_temp dest \<in> A \<inter> P \<and> set (parents (path_components dest)) \<subseteq> D"

definition may_tidy :: "string list set \<Rightarrow> string list set \<Rightarrow> string list set \<Rightarrow> Plan \<Rightarrow> bool" where
  "may_tidy A P D p \<longleftrightarrow> (\<forall>m \<in> set (pl_manifests p). may_publish A P D (fst m))
     \<and> (\<forall>l \<in> set (pl_symlinks p). path_components (fst l) \<in> A \<and> set (parents (path_components (fst l))) \<subseteq> D)"

definition may_execute :: "string list set \<Rightarrow> string list set \<Rightarrow> string list set \<Rightarrow> Plan \<Rightarrow> bool" where
  "may_execute A P D p \<longleftrightarrow> (\<forall>d \<in> set (pl_downloads p). may_fetch A P D (snd d)) \<and> may_tidy A P D p"

text \<open>Induction over the transfers.\<close>

lemma transfer_Nil: "transfer X sched n [] rest s = s"
  by (subst transfer.simps) simp

lemma transfer_Cancel:
  "flying \<noteq> [] \<Longrightarrow> sched n = TransferCancelled \<Longrightarrow> \<not> xs_cancelled s \<Longrightarrow> transfer X sched n flying rest s = transfer X sched (Suc n) flying rest (s\<lparr>xs_cancelled := True\<rparr>)"
  by (subst transfer.simps) simp

lemma transfer_Step:
  "flying \<noteq> [] \<Longrightarrow> \<not> (sched n = TransferCancelled \<and> \<not> xs_cancelled s) \<Longrightarrow> i = (case sched n of TaskEnded k \<Rightarrow> k | TransferCancelled \<Rightarrow> 0) mod length flying
    \<Longrightarrow> k = (if xs_cancelled (download_ended X (flying ! i) s) then 0 else 1)
    \<Longrightarrow> transfer X sched n flying rest s = transfer X sched (Suc n) (remove_nth i flying @ take k rest) (drop k rest) (download_ended X (flying ! i) s)"
  by (subst transfer.simps) (simp only: Let_def if_False)

lemma transfer_induct [case_names Done Cancel Step]:
  assumes "\<And>n rest s. Q n [] rest s"
    and cancel: "\<And>n flying rest s. flying \<noteq> [] \<Longrightarrow> sched n = TransferCancelled \<Longrightarrow> \<not> xs_cancelled s \<Longrightarrow> Q (Suc n) flying rest (s\<lparr>xs_cancelled := True\<rparr>) \<Longrightarrow> Q n flying rest s"
    and step: "\<And>n flying rest s i k. flying \<noteq> [] \<Longrightarrow> i < length flying \<Longrightarrow> k = (if xs_cancelled (download_ended X (flying ! i) s) then 0 else 1)
      \<Longrightarrow> transfer X sched n flying rest s = transfer X sched (Suc n) (remove_nth i flying @ take k rest) (drop k rest) (download_ended X (flying ! i) s)
      \<Longrightarrow> Q (Suc n) (remove_nth i flying @ take k rest) (drop k rest) (download_ended X (flying ! i) s) \<Longrightarrow> Q n flying rest s"
  shows "Q n flying rest s"
proof -
  have "X' = X \<Longrightarrow> sched' = sched \<Longrightarrow> Q n flying rest s" for X' sched'
  proof (induction X' sched' n flying rest s rule: transfer.induct)
    case (1 X' sched' n flying rest s)
    then have eq: "X' = X" "sched' = sched" by auto
    consider "flying = []" | "flying \<noteq> []" "sched n = TransferCancelled" "\<not> xs_cancelled s" | "flying \<noteq> []" "\<not> (sched n = TransferCancelled \<and> \<not> xs_cancelled s)"
      by blast
    then show ?case
    proof cases
      case 1
      show ?thesis unfolding 1 using assms(1) by blast
    next
      case 2
      show ?thesis by (rule cancel [OF 2]) (use "1.IH"(1) [unfolded eq, OF 2(1)] 2(2,3) in simp)
    next
      case 3
      define i where "i = (case sched n of TaskEnded k \<Rightarrow> k | TransferCancelled \<Rightarrow> 0) mod length flying"
      show ?thesis
      proof (rule step [OF 3(1) _ refl])
        show "i < length flying" using 3(1) by (simp add: i_def)
        show "transfer X sched n flying rest s = transfer X sched (Suc n) (remove_nth i flying @ take (if xs_cancelled (download_ended X (flying ! i) s) then 0 else 1) rest)
            (drop (if xs_cancelled (download_ended X (flying ! i) s) then 0 else 1) rest) (download_ended X (flying ! i) s)"
          using transfer_Step [of flying sched n s i _ X rest] 3 i_def by blast
        show "Q (Suc n) (remove_nth i flying @ take (if xs_cancelled (download_ended X (flying ! i) s) then 0 else 1) rest)
            (drop (if xs_cancelled (download_ended X (flying ! i) s) then 0 else 1) rest) (download_ended X (flying ! i) s)"
          using "1.IH"(2) [unfolded eq, OF 3 refl refl refl, folded i_def] by simp
      qed
    qed
  qed
  then show ?thesis by blast
qed

text \<open>The contract of a relation between the files before and after, kept by the single operations.\<close>

locale file_relation = io_preorder R for R :: "filesys \<Rightarrow> filesys \<Rightarrow> bool" +
  fixes A P D :: "string list set"
  assumes written: "cs \<in> A \<Longrightarrow> R fs (AList.update cs n fs)"
    and removed: "cs \<in> P \<Longrightarrow> R fs (AList.delete cs fs)"
    and made: "cs \<in> D \<Longrightarrow> map_of fs cs = None \<Longrightarrow> R fs (AList.update cs FDir fs)"
begin

lemma sys_rel: "(\<And>fs fs'. f fs = Inr fs' \<Longrightarrow> R fs fs') \<Longrightarrow> io_keeps R (sys X op f)"
  by (auto simp: io_keeps_def sys_def io_refl split: option.split sum.split)

lemma create_dirs_rel: "set (parents cs) \<subseteq> D \<Longrightarrow> io_keeps R (sys X op (create_dirs cs))"
proof -
  have "R fs (fold (\<lambda>p fs. if map_of fs p = None then AList.update p FDir fs else fs) ps fs)" if "set ps \<subseteq> D" for ps fs
    using that
  proof (induction ps arbitrary: fs)
    case (Cons p ps)
    have "R fs (if map_of fs p = None then AList.update p FDir fs else fs)" using Cons.prems made io_refl by auto
    from io_trans [OF this Cons.IH] Cons.prems show ?case by simp
  qed (simp add: io_refl)
  then show "set (parents cs) \<subseteq> D \<Longrightarrow> io_keeps R (sys X op (create_dirs cs))"
    by (intro sys_rel) (auto simp: create_dirs_def split: if_splits)
qed

lemma remove_file_rel: "cs \<in> P \<Longrightarrow> io_keeps R (sys X op (remove_file cs))"
  by (intro sys_rel) (auto simp: remove_file_def removed split: option.splits fnode.splits)

lemma write_file_rel: "cs \<in> A \<Longrightarrow> io_keeps R (sys X op (write_file cs body))"
  by (intro sys_rel) (auto simp: write_file_def io_refl written split: option.splits fnode.splits)

lemma rename_file_rel: "source \<in> P \<Longrightarrow> cs \<in> A \<Longrightarrow> io_keeps R (sys X op (rename_file source cs))"
  by (intro sys_rel) (auto simp: rename_file_def intro: io_trans [OF removed written] split: option.splits if_splits)

lemma drop_file_rel: "cs \<in> P \<Longrightarrow> R fs (drop_file cs fs)"
  by (auto simp: drop_file_def remove_file_def io_refl removed split: sum.splits option.splits fnode.splits)

lemma refuse_symlinks_rel: "io_keeps R (refuse_symlinks X dest msg)"
  by (auto simp: io_keeps_def refuse_symlinks_def io_refl)

lemma settle_partial_rel:
  assumes "may_fetch A P D dest"
  shows "io_keeps R (settle_partial X D' dest r)"
  unfolding io_keeps_def
proof
  fix fs
  let ?part = "path_components (partial_path dest)" and ?cs = "path_components dest"
  have ok: "?part \<in> A" "?part \<in> P" "?cs \<in> A" using assms by (auto simp: may_fetch_def)
  show "R fs (snd (settle_partial X D' dest r fs))"
  proof (cases r)
    case (Inr body)
    obtain q fs1 where s: "sys X (RenameFile dest) (rename_file ?part ?cs) (AList.update ?part (FFile body) fs) = (q, fs1)" by fastforce
    have "R fs fs1" using rename_file_rel [OF ok(2,3), of X "RenameFile dest"] written [OF ok(1), of fs "FFile body"] s io_trans
      unfolding io_keeps_def by (metis snd_conv)
    with Inr s io_trans [OF this drop_file_rel [OF ok(2)]] drop_file_rel [OF ok(2)] show ?thesis
      by (cases q) (auto simp: settle_partial_def Let_def)
  qed (use drop_file_rel ok in \<open>simp add: settle_partial_def Let_def\<close>)
qed

lemma fetch_to_partial_rel: "may_fetch A P D dest \<Longrightarrow> io_keeps R (fetch_to_partial X D' dest)"
  unfolding fetch_to_partial_def Let_def
  by (auto simp: may_fetch_def split: sum.split
      intro!: io refuse_symlinks_rel create_dirs_rel write_file_rel settle_partial_rel)
   (auto simp: io_keeps_def intro: drop_file_rel)

lemma download_ended_rel:
  assumes "may_fetch A P D (snd t)"
  shows "R (xs_files s) (xs_files (download_ended X t s))"
proof (cases "ex_download X (fst t) (snd t)")
  case (Some D')
  obtain r fs where f: "fetch_to_partial X D' (snd t) (xs_files s) = (r, fs)" by fastforce
  then have "R (xs_files s) fs" using fetch_to_partial_rel [OF assms, of X D'] unfolding io_keeps_def by (metis snd_conv)
  then show ?thesis using Some f by (auto simp: download_ended_def split_beta split: sum.split)
qed (auto simp: download_ended_def split_beta io_refl)

lemma transfer_rel: "\<forall>t \<in> set flying \<union> set rest. may_fetch A P D (snd t) \<Longrightarrow> R (xs_files s) (xs_files (transfer X sched n flying rest s))"
proof (induction rule: transfer_induct [of _ sched X n flying rest s])
  case (Cancel n flying rest s)
  then show ?case using transfer_Cancel [of flying sched n s X rest] by simp
next
  case (Step n flying rest s i k)
  have "R (xs_files s) (xs_files (download_ended X (flying ! i) s))" using Step.prems Step.hyps(2) by (intro download_ended_rel) auto
  moreover have "\<forall>t \<in> set (remove_nth i flying @ take k rest) \<union> set (drop k rest). may_fetch A P D (snd t)"
    using Step.prems by (auto simp: remove_nth_def dest: in_set_takeD in_set_dropD)
  ultimately have "R (xs_files s) (xs_files (transfer X sched (Suc n) (remove_nth i flying @ take k rest) (drop k rest) (download_ended X (flying ! i) s)))"
    using Step.IH by (blast intro: io_trans)
  then show ?case using Step.hyps(4) by simp
qed (simp add: transfer_Nil io_refl)

lemma publish_one_rel: "may_publish A P D (fst m) \<Longrightarrow> io_keeps R (publish_one X m)"
  unfolding publish_one_def split_beta
  by (auto simp: may_publish_def intro!: io refuse_symlinks_rel create_dirs_rel write_file_rel rename_file_rel)

lemma publish_all_rel: "\<forall>m \<in> set ms. may_publish A P D (fst m) \<Longrightarrow> io_keeps R (publish_all X ms st)"
  by (induction ms arbitrary: st) (auto intro!: io publish_one_rel)

lemma delete_all_rel: "path_components ` set ps \<subseteq> P \<Longrightarrow> io_keeps R (delete_all X ps st)"
proof (induction ps arbitrary: st)
  case (Cons p ps)
  have "R fs (snd (delete_all X (p # ps) st fs))" for fs
  proof -
    obtain r fs1 where s: "sys X (RemoveFile p) (remove_file (path_components p)) fs = (r, fs1)" by fastforce
    then have one: "R fs fs1" using remove_file_rel [of "path_components p" X "RemoveFile p"] Cons.prems unfolding io_keeps_def by (metis image_subset_iff list.set_intros(1) snd_conv)
    have "R fs1 (snd (delete_all X ps st' fs1))" for st' using Cons by (simp add: io_keeps_def)
    from io_trans [OF one this] s show ?thesis by (cases r) (auto simp: io_err_def io_refl)
  qed
  then show ?case by (simp add: io_keeps_def)
qed (simp add: ret_io)

lemma delete_dirs_rel: "path_components ` set ps \<subseteq> P \<Longrightarrow> io_keeps R (delete_dirs X ps st)"
proof (induction ps arbitrary: st)
  case (Cons p ps)
  have "R fs (snd (delete_dirs X (p # ps) st fs))" for fs
  proof -
    obtain st1 fs1 where s: "delete_dir X p st fs = (st1, fs1)" by fastforce
    then have one: "R fs fs1" using Cons.prems removed
      by (auto simp: delete_dir_def remove_dir_def Let_def io_refl split: if_splits option.splits fnode.splits removal.splits)
    have "R fs1 (snd (delete_dirs X ps st1 fs1))" using Cons by (simp add: io_keeps_def)
    from io_trans [OF one this] s show ?thesis by (auto simp: io_err_def io_refl)
  qed
  then show ?case by (simp add: io_keeps_def)
qed (simp add: ret_io)

lemma ensure_symlink_rel:
  assumes "path_components dest \<in> A" and "set (parents (path_components dest)) \<subseteq> D"
  shows "io_keeps R (ensure_symlink X dest target)"
proof -
  have "io_keeps R (io_bind (sys X (CreateDirs dest) (create_dirs (path_components dest))) (\<lambda>_.
           io_bind (sys X (MakeLink dest) (\<lambda>fs. Ok (AList.update (path_components dest) (FLink target) fs))) (\<lambda>_. io_ret True)))"
    using assms by (intro io create_dirs_rel sys_rel) (auto intro: written)
  then show ?thesis by (simp add: io_keeps_def ensure_symlink_def io_refl)
qed

lemma link_all_rel:
  "\<forall>l \<in> set ls. path_components (fst l) \<in> A \<and> set (parents (path_components (fst l))) \<subseteq> D \<Longrightarrow> io_keeps R (link_all X ls st)"
proof (induction ls arbitrary: st)
  case (Cons l ls)
  have "R fs (snd (link_all X (l # ls) st fs))" for fs
  proof -
    obtain r fs1 where s: "ensure_symlink X (fst l) (snd l) fs = (r, fs1)" by fastforce
    then have one: "R fs fs1" using ensure_symlink_rel [of "fst l" X "snd l"] Cons.prems unfolding io_keeps_def by (metis list.set_intros(1) snd_conv)
    have "R fs1 (snd (link_all X ls st' fs1))" for st' using Cons by (simp add: io_keeps_def)
    from io_trans [OF one this] s show ?thesis by (auto simp: io_err_def io_refl split: sum.split bool.split)
  qed
  then show ?case by (simp add: io_keeps_def)
qed (simp add: ret_io)

lemma tidy_rel:
  assumes "may_tidy A P D p" and "clean st \<Longrightarrow> path_components ` (set (pl_deletes p) \<union> set (pl_delete_dirs p)) \<subseteq> P"
  shows "io_keeps R (tidy X p st)"
proof -
  have pub: "io_keeps R (publish_all X (pl_manifests p) st)" and link: "io_keeps R (link_all X (pl_symlinks p) st')" for st'
    using assms(1) unfolding may_tidy_def by (blast intro: publish_all_rel link_all_rel)+
  show ?thesis
  proof (cases "clean st")
    case True
    show ?thesis unfolding tidy_def using pub True assms(2) by (intro bind_io delete_all_rel delete_dirs_rel link) auto
  next
    case False
    then have "tidy X p st = link_all X (pl_symlinks p) st" by (simp add: tidy_def io_bind_def io_ret_def fun_eq_iff)
    then show ?thesis using link by simp
  qed
qed

lemma execute_rel:
  assumes "may_execute A P D p" and "clean (xs_stats (transfers X sched p fs)) \<Longrightarrow> path_components ` (set (pl_deletes p) \<union> set (pl_delete_dirs p)) \<subseteq> P"
  shows "R fs (snd (execute X sched p fs))"
proof -
  let ?s = "transfers X sched p fs"
  let ?k = "with_threads (ex_threads X)"
  have "set (take ?k (pl_downloads p)) \<union> set (drop ?k (pl_downloads p)) = set (pl_downloads p)" by (metis append_take_drop_id set_append)
  then have "\<forall>t \<in> set (take ?k (pl_downloads p)) \<union> set (drop ?k (pl_downloads p)). may_fetch A P D (snd t)"
    using assms(1) unfolding may_execute_def by blast
  from transfer_rel [OF this, of "\<lparr>xs_stats = initial_stats p, xs_cancelled = False, xs_files = fs\<rparr>" X sched 0]
  have one: "R fs (xs_files ?s)" by (simp add: transfers_def Let_def)
  have "R (xs_files ?s) (snd (tidy X p (xs_stats ?s) (xs_files ?s)))" using tidy_rel [OF _ assms(2)] assms(1) by (simp add: io_keeps_def may_execute_def)
  from one io_trans [OF one this] show ?thesis by (simp add: execute_def Let_def io_refl)
qed

end

definition touches :: "string list set \<Rightarrow> string list set \<Rightarrow> filesys \<Rightarrow> filesys \<Rightarrow> bool" where
  "touches A D fs fs' \<longleftrightarrow>
     (\<forall>cs. cs \<notin> A \<longrightarrow> map_of fs' cs = map_of fs cs \<or> (cs \<in> D \<and> map_of fs cs = None \<and> map_of fs' cs = Some FDir))"

interpretation footprint: file_relation "touches A D" A A D for A D
proof
  show "touches A D w w" for w by (simp add: touches_def)
  show "touches A D a c" if "touches A D a b" "touches A D b c" for a b c
    using that unfolding touches_def by (metis option.distinct(1))
qed (auto simp: touches_def update_conv' delete_conv')

definition present :: "string list set \<Rightarrow> filesys \<Rightarrow> filesys \<Rightarrow> bool" where
  "present P fs fs' \<longleftrightarrow> (\<forall>cs. cs \<notin> P \<longrightarrow> map_of fs cs \<noteq> None \<longrightarrow> map_of fs' cs \<noteq> None)"

interpretation presence: file_relation "present P" UNIV P UNIV for P
  by unfold_locales (auto simp: present_def update_conv' delete_conv')

section \<open>Complete transfers\<close>

text \<open>The body of a download that arrives in full.\<close>

definition body_of :: "transfer_env \<Rightarrow> string \<times> string \<Rightarrow> string option" where
  "body_of X t =
     (case ex_download X (fst t) (snd t) of
        None \<Rightarrow> None
      | Some D \<Rightarrow> (case dl_response D of Inl _ \<Rightarrow> None | Inr chunks \<Rightarrow> (case receive (dl_writes D) 0 chunks [] of Inl _ \<Rightarrow> None | Inr body \<Rightarrow> Some body)))"

lemma fetch_to_partial_Ok:
  assumes "fetch_to_partial X D dest fs = (Inr n, fs')"
  shows "\<exists>chunks body. dl_response D = Inr chunks \<and> receive (dl_writes D) 0 chunks [] = Inr body \<and> n = length body
    \<and> map_of fs' (path_components dest) = Some (FFile body)"
proof -
  obtain chunks fs1 where c: "dl_response D = Inr chunks" and s: "settle_partial X D dest (receive (dl_writes D) 0 chunks []) fs1 = (Inr n, fs')"
    using assms by (auto simp: fetch_to_partial_def Let_def io_bind_Inr io_err_def split: if_splits sum.splits)
  then show ?thesis
    by (auto simp: settle_partial_def Let_def sys_def rename_file_def update_conv' split: sum.splits if_splits option.splits prod.splits)
qed

lemma download_ended_clean:
  assumes "clean (xs_stats (download_ended X t s))" and "\<not> xs_cancelled (download_ended X t s)"
  shows "clean (xs_stats s) \<and> \<not> xs_cancelled s
    \<and> (\<exists>body. body_of X t = Some body \<and> map_of (xs_files (download_ended X t s)) (path_components (snd t)) = Some (FFile body))"
proof (cases "ex_download X (fst t) (snd t)")
  case (Some D)
  obtain r fs where f: "fetch_to_partial X D (snd t) (xs_files s) = (r, fs)" by fastforce
  have r: "\<exists>n. r = Inr n" and "clean (xs_stats s) \<and> \<not> xs_cancelled s"
    using assms Some f by (auto simp: download_ended_def split_beta clean_def download_failed_def Let_def split: sum.splits if_splits)
  moreover have "xs_files (download_ended X t s) = fs" using Some f r by (auto simp: download_ended_def split_beta)
  ultimately show ?thesis using fetch_to_partial_Ok f Some by (fastforce simp: body_of_def)
qed (use assms in \<open>auto simp: download_ended_def split_beta clean_def one_failed_def split: if_splits\<close>)

lemma download_ended_cancelled: "xs_cancelled s \<Longrightarrow> xs_cancelled (download_ended X t s)"
  by (auto simp: download_ended_def split: prod.splits option.splits sum.splits)

lemma transfer_stays_cancelled: "xs_cancelled s \<Longrightarrow> xs_cancelled (transfer X sched n flying rest s)"
proof (induction rule: transfer_induct [of _ sched X n flying rest s])
  case (Step n flying rest s i k)
  then show ?case using download_ended_cancelled by simp
qed (auto simp: transfer_Nil transfer_Cancel)

lemma download_ended_stats: "clean (xs_stats (download_ended X t s)) \<Longrightarrow> clean (xs_stats s)"
  by (auto simp: download_ended_def split_beta clean_def one_failed_def download_failed_def Let_def split: option.splits sum.splits if_splits)

lemma transfer_clean_before: "clean (xs_stats (transfer X sched n flying rest s)) \<Longrightarrow> clean (xs_stats s)"
proof (induction rule: transfer_induct [of _ sched X n flying rest s])
  case (Cancel n flying rest s)
  then show ?case using transfer_Cancel [of flying sched n s X rest] by simp
next
  case (Step n flying rest s i k)
  then show ?case using download_ended_stats by simp
qed (simp add: transfer_Nil)

lemma transfer_clean:
  assumes "clean (xs_stats (transfer X sched n flying rest s))" and "\<not> xs_cancelled (transfer X sched n flying rest s)"
    and "flying = [] \<Longrightarrow> rest = []" and "distinct (flying @ rest)" and "t \<in> set (flying @ rest)"
    and "\<And>u. u \<in> set (flying @ rest) \<Longrightarrow> u \<noteq> t \<Longrightarrow> path_components (snd t) \<notin> {path_components (snd u), path_components (partial_path (snd u))}"
  shows "\<exists>body. body_of X t = Some body \<and> map_of (xs_files (transfer X sched n flying rest s)) (path_components (snd t)) = Some (FFile body)"
  using assms
proof (induction rule: transfer_induct [of _ sched X n flying rest s])
  case (Cancel n flying rest s)
  then have "xs_cancelled (transfer X sched n flying rest s)"
    by (simp add: transfer_Cancel transfer_stays_cancelled)
  with Cancel.prems(2) show ?case by simp
next
  case (Step n flying rest s i k)
  let ?u = "flying ! i" and ?s1 = "download_ended X (flying ! i) s"
  let ?ts = "remove_nth i flying @ rest"
  let ?s2 = "transfer X sched (Suc n) (remove_nth i flying @ take k rest) (drop k rest) ?s1"
  have "\<not> xs_cancelled ?s1" using Step.prems(2) Step.hyps transfer_stays_cancelled by metis
  then have k: "(remove_nth i flying @ take k rest) @ drop k rest = ?ts" by simp
  have old: "set (flying @ rest) = insert ?u (set ?ts)" using set_remove_nth [OF Step.hyps(2)] by auto
  have "mset (flying @ rest) = add_mset ?u (mset ?ts)" using mset_remove_nth [OF Step.hyps(2)] by simp
  then have d: "?u \<notin> set ?ts" "distinct ?ts" using Step.prems(4) by (metis distinct.simps(2) mset.simps(2) mset_eq_imp_distinct_iff)+
  show ?case
  proof (cases "t = ?u")
    case False
    then have "t \<in> set ?ts" using Step.prems(5) old by auto
    have "remove_nth i flying @ take k rest = [] \<Longrightarrow> drop k rest = []" using Step.hyps(3) \<open>\<not> xs_cancelled ?s1\<close> by (cases rest) auto
    with Step.IH [unfolded k] Step.prems Step.hyps(4) d old \<open>t \<in> set ?ts\<close> show ?thesis by auto
  next
    case True
    define A where "A = (\<Union>u \<in> set ?ts. {path_components (snd u), path_components (partial_path (snd u))})"
    have "set (remove_nth i flying @ take k rest) \<union> set (drop k rest) = set ?ts" using k by (metis set_append)
    then have "\<forall>u \<in> set (remove_nth i flying @ take k rest) \<union> set (drop k rest). may_fetch A A UNIV (snd u)"
      unfolding may_fetch_def A_def by blast
    then have "touches A UNIV (xs_files ?s1) (xs_files ?s2)" by (rule footprint.transfer_rel)
    moreover have "path_components (snd t) \<notin> A" using Step.prems(6) d(1) True old by (fastforce simp: A_def)
    ultimately have keep: "map_of (xs_files ?s1) (path_components (snd t)) = Some x \<Longrightarrow> map_of (xs_files ?s2) (path_components (snd t)) = Some x" for x
      unfolding touches_def by fastforce
    have "clean (xs_stats ?s1)" using Step.prems(1) Step.hyps(4) transfer_clean_before by metis
    then show ?thesis using download_ended_clean [of X ?u s] \<open>\<not> xs_cancelled ?s1\<close> keep True Step.hyps(4) by auto
  qed
qed simp

end
