(* ===== verification/Httpfetch_Props.thy ===== *)
theory Httpfetch_Props
  imports Httpfetch_Laws
begin

text \<open>
  Properties of the mirror synchronisation: a complete plan covers the upstream and stays inside the mirror; a download is atomic; nothing that the
  upstream has is deleted; an execution without failures brings the mirror up to date.
\<close>

section \<open>Plans and their deletions\<close>

definition no_deletes :: "plan_state \<Rightarrow> bool" where
  "no_deletes s \<longleftrightarrow> pl_deletes (ps_plan s) = [] \<and> pl_delete_dirs (ps_plan s) = []"

lemma no_deletes_simps [simp]:
  "no_deletes (s\<lparr>ps_listings := ls\<rparr>) = no_deletes s" "no_deletes (s\<lparr>ps_done := ds\<rparr>) = no_deletes s"
  "no_deletes (s\<lparr>ps_pending := ws\<rparr>) = no_deletes s" "no_deletes (s\<lparr>ps_remote := R\<rparr>) = no_deletes s"
  "no_deletes (s\<lparr>ps_remote := R, ps_plan := p\<rparr>) = no_deletes (s\<lparr>ps_plan := p\<rparr>)"
  "no_deletes (s\<lparr>ps_plan := p, ps_pending := ws\<rparr>) = no_deletes (s\<lparr>ps_plan := p\<rparr>)"
  "no_deletes (s\<lparr>ps_plan := (ps_plan s)\<lparr>pl_incomplete := b\<rparr>\<rparr>) = no_deletes s"
  "no_deletes (s\<lparr>ps_plan := (ps_plan s)\<lparr>pl_manifests := ms\<rparr>\<rparr>) = no_deletes s"
  "no_deletes (listing_lost s) = no_deletes s" "no_deletes (spawn_listings F s) = no_deletes s"
  by (simp_all add: no_deletes_def listing_lost_def spawn_listings_def Let_def)

lemma plan_entry_no_deletes [simp]: "no_deletes (plan_entry F w e s) = no_deletes s"
  by (auto simp: no_deletes_def plan_entry_def Let_def plan_dir_def plan_file_def split: EntryKind.split option.split)

lemma plan_entries_no_deletes [simp]: "no_deletes (fst (plan_entries F w es s)) = no_deletes s"
  by (induction es arbitrary: s) simp_all

lemma plan_body_no_deletes: "plan_body F w body s = Inr (t, stop) \<Longrightarrow> no_deletes t = no_deletes s"
  by (auto simp: plan_body_def split: if_splits dest!: arg_cong [where f = "\<lambda>r. no_deletes (fst r)"])

lemma plan_step_no_deletes: "plan_step F n ev s = Inr (t, stop) \<Longrightarrow> no_deletes t = no_deletes s"
  by (auto simp: plan_step_def Let_def split: plan_event.splits sum.splits if_splits dest!: plan_body_no_deletes)

lemma plan_loop_no_deletes: "plan_loop F sched n s = Inr t \<Longrightarrow> no_deletes s \<Longrightarrow> no_deletes t"
  by (erule plan_loop_invariant) (auto simp: plan_step_no_deletes)

lemma walk_entry_dir: "(rel, DirNode es) \<in> set (walk_entry ex here x) \<Longrightarrow> \<not> ex rel"
  by (induction ex here x arbitrary: es rule: walk_entry.induct) (auto simp: Let_def split: if_splits)

lemma local_extras_only:
  assumes "rel \<in> set (fst (local_extras tree remote xs)) \<union> set (snd (local_extras tree remote xs))"
  shows "rel \<notin> remote \<and> \<not> is_excluded rel xs"
proof -
  from assms obtain n x where n: "(rel, n) \<in> set (walk_entry (\<lambda>rel. is_excluded rel xs) [] x)" and "rel \<notin> remote" "dir_node n \<or> \<not> is_excluded rel xs"
    by (auto simp: local_extras_def Let_def)
  then show ?thesis using walk_entry_dir [of rel _ "\<lambda>rel. is_excluded rel xs" "[]" x] by (auto simp: dir_node_def split: node.splits)
qed

text \<open>What a plan removes is neither upstream nor excluded, and there is something to remove only if the plan is complete.\<close>

lemma plan_finish_deletes:
  assumes "plan_finish F delete s = Inr p" and "no_deletes s" and "rel \<in> set (pl_deletes p) \<union> set (pl_delete_dirs p)"
  shows "delete \<and> \<not> ps_failed s \<and> \<not> pl_incomplete p \<and> rel \<notin> ps_remote s \<and> \<not> is_excluded rel (fe_excludes F)"
proof -
  have d: "delete" "\<not> ps_failed s" "\<not> pl_incomplete (ps_plan s)" "pl_incomplete p = pl_incomplete (ps_plan s)"
    "pl_deletes p = fst (local_extras (fe_tree F) (ps_remote s) (fe_excludes F))"
    "pl_delete_dirs p = snd (local_extras (fe_tree F) (ps_remote s) (fe_excludes F))"
    using assms by (auto simp: plan_finish_def Let_def no_deletes_def split_beta split: if_splits option.splits)
  then have "rel \<notin> ps_remote s \<and> \<not> is_excluded rel (fe_excludes F)"
    using assms(3) local_extras_only by metis
  with d show ?thesis by simp
qed

section \<open>Executions and their outcome\<close>

lemma transfer_bodies:
  assumes "clean (xs_stats (transfer X sched n flying rest s))" and "\<not> xs_cancelled (transfer X sched n flying rest s)"
    and "flying = [] \<Longrightarrow> rest = []" and "t \<in> set (flying @ rest)"
  shows "body_of X t \<noteq> None"
  using assms
proof (induction rule: transfer_induct [of _ sched X n flying rest s])
  case (Cancel n flying rest s)
  then have "xs_cancelled (transfer X sched n flying rest s)" by (simp add: transfer_Cancel transfer_stays_cancelled)
  with Cancel.prems(2) show ?case by simp
next
  case (Step n flying rest s i k)
  let ?s1 = "download_ended X (flying ! i) s"
  have live: "\<not> xs_cancelled ?s1" using Step.prems(2) Step.hyps transfer_stays_cancelled by metis
  show ?case
  proof (cases "t = flying ! i")
    case True
    have "clean (xs_stats ?s1)" using Step.prems(1) Step.hyps(4) transfer_clean_before by metis
    then show ?thesis using download_ended_clean [of X "flying ! i" s] live True by auto
  next
    case False
    have "t \<in> set ((remove_nth i flying @ take k rest) @ drop k rest)" using False Step.prems(4) set_remove_nth [OF Step.hyps(2)] by auto
    moreover have "remove_nth i flying @ take k rest = [] \<Longrightarrow> drop k rest = []" using Step.hyps(3) live by (cases rest) auto
    ultimately show ?thesis using Step.IH Step.prems(1,2) Step.hyps(4) by simp
  qed
qed simp

lemma transfers_started:
  "take (with_threads (ex_threads X)) ds = [] \<Longrightarrow> drop (with_threads (ex_threads X)) ds = []"
  by (cases ds) (auto simp: with_threads_def)

lemma transfers_bodies:
  assumes "clean (xs_stats (transfers X sched p fs))" and "\<not> xs_cancelled (transfers X sched p fs)" and "t \<in> set (pl_downloads p)"
  shows "body_of X t \<noteq> None"
  by (rule transfer_bodies [OF assms(1,2) [unfolded transfers_def Let_def] transfers_started]) (assumption, unfold append_take_drop_id, rule assms(3))

lemma transfers_complete: "clean (xs_stats (transfers X sched p fs)) \<Longrightarrow> \<not> pl_incomplete p"
  unfolding transfers_def Let_def by (drule transfer_clean_before) (auto simp: clean_def initial_stats_def split: if_splits)

lemma clean_simps [simp]:
  "clean (st\<lparr>fs_files_downloaded := a\<rparr>) = clean st" "clean (st\<lparr>fs_files_downloaded := a, fs_downloaded_bytes := b\<rparr>) = clean st"
  "clean (st\<lparr>fs_files_deleted := a\<rparr>) = clean st" "clean (st\<lparr>fs_files_symlinked := a\<rparr>) = clean st"
  "\<not> clean (one_failed st)" "\<not> clean (st\<lparr>fs_files_failed := Suc a\<rparr>)"
  by (simp_all add: clean_def one_failed_def)

lemma publish_all_clean: "publish_all X ms st fs = (Inr st', fs') \<Longrightarrow> clean st' = clean st"
proof (induction ms arbitrary: st fs)
  case (Cons x xs)
  from Cons.prems show ?case by (auto simp: io_err_def io_bind_Inr split: if_splits dest!: Cons.IH)
qed (simp add: io_ret_def)

lemma delete_all_clean: "delete_all X ps st fs = (Inr st', fs') \<Longrightarrow> clean st' \<Longrightarrow> clean st"
proof (induction ps arbitrary: st fs)
  case (Cons x xs)
  from Cons.prems show ?case by (auto simp: io_err_def split: if_splits prod.splits sum.splits dest!: Cons.IH)
qed (simp add: io_ret_def)

lemma delete_dir_clean: "delete_dir X p st fs = (st', fs') \<Longrightarrow> clean st' \<Longrightarrow> clean st"
  by (auto simp: delete_dir_def Let_def split: if_splits removal.splits)

lemma delete_dirs_clean: "delete_dirs X ps st fs = (Inr st', fs') \<Longrightarrow> clean st' \<Longrightarrow> clean st"
  by (induction ps arbitrary: st fs) (auto simp: io_ret_def io_err_def dest: delete_dir_clean split: if_splits prod.splits)

lemma link_all_clean: "link_all X ls st fs = (Inr st', fs') \<Longrightarrow> clean st' \<Longrightarrow> clean st"
proof (induction ls arbitrary: st fs)
  case (Cons x xs)
  from Cons.prems show ?case by (auto simp: io_err_def split: if_splits prod.splits sum.splits bool.splits dest!: Cons.IH)
qed (simp add: io_ret_def)

lemma tidy_clean: "tidy X p st fs = (Inr st', fs') \<Longrightarrow> clean st' \<Longrightarrow> clean st"
  unfolding tidy_def io_bind_Inr
  by (auto dest: link_all_clean delete_dirs_clean delete_all_clean publish_all_clean simp: io_ret_def split: if_splits)

section \<open>Partial files\<close>

lemma split_char_ne: "split_char c a \<noteq> []"
  by (cases a) (auto split: list.split)

lemma split_char_suffix: "c \<notin> set b \<Longrightarrow> split_char c (a @ b) = butlast (split_char c a) @ [last (split_char c a) @ b]"
proof (induction a)
  case Nil
  then have "split_char c b = [b]" by (induction b) auto
  then show ?case by simp
next
  case (Cons x a)
  then show ?case using split_char_ne [of c a] by (auto split: list.split)
qed

lemma partial_path_components:
  "path_components (partial_path dest) = filter (\<lambda>c. c \<noteq> [] \<and> c \<noteq> ''.'') (butlast (split_char (CHR ''/'') dest)) @ [last (split_char (CHR ''/'') dest) @ ''.partial'']"
  by (simp add: path_components_def partial_path_def split_char_suffix)

lemma partial_path_other: "path_components (partial_path dest) \<noteq> path_components dest"
proof -
  let ?S = "split_char (CHR ''/'') dest" and ?ok = "\<lambda>c :: string. c \<noteq> [] \<and> c \<noteq> ''.''"
  have "path_components dest = filter ?ok (butlast ?S) @ filter ?ok [last ?S]"
    unfolding path_components_def filter_append [symmetric] append_butlast_last_id [OF split_char_ne] ..
  then show ?thesis by (auto simp: partial_path_components)
qed

text \<open>The files that an execution removes on its own account.\<close>

definition scratch_paths :: "Plan \<Rightarrow> string list set" where
  "scratch_paths p = (\<lambda>d. path_components (partial_path (snd d))) ` set (pl_downloads p) \<union> (\<lambda>m. manifest_temp (fst m)) ` set (pl_manifests p)"

definition removable :: "Plan \<Rightarrow> string list set" where
  "removable p = path_components ` (set (pl_deletes p) \<union> set (pl_delete_dirs p))"

lemma execute_losses:
  assumes "execute X sched p fs = (r, fs')" and "map_of fs cs \<noteq> None" and "map_of fs' cs = None" and "cs \<notin> scratch_paths p"
  shows "clean (xs_stats (transfers X sched p fs)) \<and> \<not> xs_cancelled (transfers X sched p fs) \<and> cs \<in> removable p"
proof -
  let ?s = "transfers X sched p fs"
  have gone: "\<not> present P fs fs'" if "cs \<notin> P" for P using that assms(2,3) by (auto simp: present_def)
  have base: "may_execute UNIV P UNIV p" if "scratch_paths p \<subseteq> P" for P
    using that by (auto simp: may_execute_def may_tidy_def may_fetch_def may_publish_def scratch_paths_def)
  have fs': "fs' = snd (execute X sched p fs)" by (simp add: assms(1))
  have "cs \<in> removable p"
  proof (rule ccontr)
    assume "cs \<notin> removable p"
    then show False using gone [of "scratch_paths p \<union> removable p"] assms(4) presence.execute_rel [OF base, of "scratch_paths p \<union> removable p" X sched fs]
      by (auto simp: fs' removable_def)
  qed
  moreover have "clean (xs_stats ?s)"
    using gone [OF assms(4)] presence.execute_rel [OF base [OF subset_refl], of X sched fs] by (auto simp: fs')
  moreover have "\<not> xs_cancelled ?s"
  proof
    assume c: "xs_cancelled ?s"
    have "execute X sched (p\<lparr>pl_deletes := [], pl_delete_dirs := []\<rparr>) fs = execute X sched p fs" using c
      by (simp add: execute_def Let_def transfers_def initial_stats_def)
    then show False using gone [OF assms(4)] presence.execute_rel [of "scratch_paths p" "p\<lparr>pl_deletes := [], pl_delete_dirs := []\<rparr>" X sched fs] base [OF subset_refl]
      by (auto simp: fs' may_execute_def may_tidy_def)
  qed
  ultimately show ?thesis by blast
qed

section \<open>One download\<close>

lemma io_bind_Inl: "io_bind m f w = (Inl e, w') \<longleftrightarrow> m w = (Inl e, w') \<or> (\<exists>x w1. m w = (Inr x, w1) \<and> f x w1 = (Inl e, w'))"
  by (auto simp: io_bind_def split: prod.split sum.split)

lemma io_keeps_result: "io_keeps R h \<Longrightarrow> h w = (r, w') \<Longrightarrow> R w w'"
  unfolding io_keeps_def by (metis snd_conv)

lemma drop_file_absent: "map_of (drop_file cs fs) cs \<in> {None, Some FDir}"
  by (auto simp: drop_file_def remove_file_def delete_conv' split: sum.split option.split fnode.split)

lemma settle_partial_Err:
  assumes "settle_partial X D dest r fs = (Inl e, fs')"
  shows "touches {path_components (partial_path dest)} {} fs fs' \<and> map_of fs' (path_components (partial_path dest)) \<in> {None, Some FDir}"
proof -
  let ?part = "path_components (partial_path dest)"
  obtain fs1 where fs1: "fs' = drop_file ?part fs1" "fs1 = fs \<or> (\<exists>body. fs1 = AList.update ?part (FFile body) fs)"
    using assms by (auto simp: settle_partial_def Let_def sys_def split: sum.splits if_splits option.splits prod.splits)
  then have "touches {?part} {} fs fs1" using footprint.written [of ?part "{?part}"] footprint.io_refl by auto
  then show ?thesis using footprint.io_trans [OF _ footprint.drop_file_rel] drop_file_absent unfolding fs1(1) by blast
qed

lemma not_own_parent: "cs \<notin> set (parents cs)"
proof
  assume "cs \<in> set (parents cs)"
  then obtain k where "k < length cs" "cs = take k cs" by (auto simp: parents_def)
  then have "length cs = k" by (metis length_take min.absorb4)
  with \<open>k < length cs\<close> show False by simp
qed

lemma touches_mono: "touches A D fs fs' \<Longrightarrow> A \<subseteq> A' \<Longrightarrow> D \<subseteq> D' \<Longrightarrow> touches A' D' fs fs'"
  unfolding touches_def by blast

lemma fetch_to_partial_Err:
  assumes "fetch_to_partial X D dest fs = (Inl e, fs')"
  shows "touches {path_components (partial_path dest)} (set (parents (path_components dest))) fs fs'"
proof -
  let ?part = "path_components (partial_path dest)" and ?cs = "path_components dest"
  let ?R = "touches {?part} (set (parents ?cs))"
  have keep: "io_keeps ?R (refuse_symlinks X dest msg)" "io_keeps ?R (sys X op (create_dirs ?cs))" "io_keeps ?R (sys X op (write_file ?part body))"
    "io_keeps ?R (\<lambda>fs. (Ok (), drop_file ?part fs))" for msg op body
    by (auto intro: footprint.refuse_symlinks_rel footprint.create_dirs_rel footprint.write_file_rel)
      (auto simp: io_keeps_def intro: footprint.drop_file_rel)
  have settle: "?R w w'" if "settle_partial X D dest r w = (Inl e', w')" for r w e' w'
    using settle_partial_Err [OF that] touches_mono by blast
  note kD = keep [THEN io_keeps_result]
  show ?thesis using assms
    by (auto simp: fetch_to_partial_def Let_def io_bind_Inl io_err_def footprint.io_refl split: if_splits sum.splits
        dest!: kD(1) kD(2) kD(3) settle)
     (metis drop_file_absent footprint.io_trans kD(4))+
qed

section \<open>Properties\<close>

text \<open>No other part of the plan works on the path of a download.\<close>

definition undisturbed :: "Plan \<Rightarrow> string \<times> string \<Rightarrow> bool" where
  "undisturbed p t \<longleftrightarrow>
     (let cs = path_components (snd t)
      in list_all (\<lambda>u. u = t \<or> cs \<noteq> path_components (snd u) \<and> cs \<noteq> path_components (partial_path (snd u))) (pl_downloads p)
         \<and> list_all (\<lambda>m. cs \<noteq> path_components (fst m) \<and> cs \<noteq> manifest_temp (fst m)) (pl_manifests p)
         \<and> list_all (\<lambda>l. cs \<noteq> path_components (fst l)) (pl_symlinks p)
         \<and> list_all (\<lambda>q. cs \<noteq> path_components q) (pl_deletes p @ pl_delete_dirs p))"

text \<open>C15: A plan that is complete covers the upstream. The listing of the base directory was read; every listing that was read is an answer of the
  server, parsed; each of its entries that is safe and not excluded is known by name, and every known name is planned for: a directory
  has itself been listed, a file is unchanged here or will be downloaded, a symlink will be made.\<close>

theorem plan_covers_upstream:
  assumes "plan_loop F sched 0 (plan_start base depth) = Inr s" and "\<not> pl_incomplete (ps_plan s)"
  shows "\<lparr>dw_url = base, dw_rel = [], dw_depth = min depth MAX_DEPTH, dw_root = True\<rparr> \<in> fst ` set (ps_done s)
    \<and> work s = fst ` set (ps_done s)
    \<and> (\<forall>(w, es) \<in> set (ps_done s). read_from F w es \<and> (\<forall>e \<in> set es. accepted F w e \<longrightarrow> key_of w e \<in> ps_remote s))
    \<and> (\<forall>k \<in> ps_remote s. handled F s k)"
proof -
  let ?start = "plan_start base depth"
  have ok: "plan_ok F ?start" by (simp add: plan_ok_def covered_def plan_start_def)
  from plan_loop_ok [OF assms(1) this] assms(2) have s: "plan_ok F s" "grows ?start s" "ps_listings s = []" "ps_pending s = []"
    by (simp_all add: given_up_def)
  then have w: "work s = fst ` set (ps_done s)" by (simp add: work_def)
  have "work ?start \<subseteq> work s" using s(2) assms(2) by (simp add: grows_def given_up_def)
  moreover have "\<lparr>dw_url = base, dw_rel = [], dw_depth = min depth MAX_DEPTH, dw_root = True\<rparr> \<in> work ?start"
    by (simp add: work_def plan_start_def)
  ultimately have root: "\<lparr>dw_url = base, dw_rel = [], dw_depth = min depth MAX_DEPTH, dw_root = True\<rparr> \<in> fst ` set (ps_done s)"
    unfolding w by blast
  have "\<forall>(w, es) \<in> set (ps_done s). read_from F w es" and handled: "\<forall>k \<in> ps_remote s. handled F s k"
    using s(1) assms(2) by (auto simp: plan_ok_def covered_def given_up_def)
  moreover have "\<forall>(w, es) \<in> set (ps_done s). \<forall>e \<in> set es. accepted F w e \<longrightarrow> key_of w e \<in> ps_remote s"
    using s(1) assms(2) by (auto simp: plan_ok_def entered_def given_up_def)
  ultimately show ?thesis using root w by blast
qed

text \<open>C18: Whatever a listing says, a plan stays inside the mirror: every path that is to be written is relative and climbs
  nowhere, and so is the target of every symlink.\<close>

theorem plan_stays_inside:
  assumes "plan_inner F parsers sched base parser_name delete depth = Inr p"
  shows "plan_inside p"
proof -
  obtain parse s where p: "plan_loop (F\<lparr>fe_parse := parse\<rparr>) sched 0 (plan_start base depth) = Inr s" "plan_finish (F\<lparr>fe_parse := parse\<rparr>) delete s = Inr p"
    using assms by (auto simp: plan_inner_def Let_def split: option.splits)
  have "state_inside (plan_start base depth)"
    by (simp add: state_inside_def plan_start_def work_def plan_inside_def empty_plan_def inside_def starts_with_def path_components_def)
  then have "plan_inside (ps_plan s)" using plan_loop_inside [OF p(1)] by (simp add: state_inside_def)
  moreover have "pl_downloads p = pl_downloads (ps_plan s)" "pl_symlinks p = pl_symlinks (ps_plan s)" "pl_manifests p = pl_manifests (ps_plan s)"
    using p(2) by (auto simp: plan_finish_def Let_def split: if_splits prod.splits option.splits)
  ultimately show ?thesis by (simp add: plan_inside_def)
qed



lemma execute_complete: "execute X sched p fs = (Inr st, fs') \<Longrightarrow> clean st \<Longrightarrow> \<not> pl_incomplete p"
  by (auto simp: execute_def Let_def dest!: transfers_complete [OF tidy_clean] split: if_splits)

text \<open>An execution without failures brings the mirror up to date: if it returns and counts neither a failure nor a warning, then the plan was
  complete and every planned file holds the body the server sent, unless another part of the plan works on the same path.\<close>

lemma execute_clean_current:
  assumes "execute X sched p fs = (Inr st, fs')" and "clean st" and "distinct (pl_downloads p)" and "t \<in> set (pl_downloads p)" and "undisturbed p t"
  shows "\<not> pl_incomplete p \<and> (\<exists>body. body_of X t = Some body \<and> map_of fs' (path_components (snd t)) = Some (FFile body))"
proof -
  let ?s = "transfers X sched p fs" and ?cs = "path_components (snd t)"
  let ?k = "with_threads (ex_threads X)"
  have live: "\<not> xs_cancelled ?s" and tidy: "tidy X p (xs_stats ?s) (xs_files ?s) = (Inr st, fs')"
    using assms(1) by (auto simp: execute_def Let_def split: if_splits)
  have c: "clean (xs_stats ?s)" by (rule tidy_clean [OF tidy assms(2)])
  have "\<exists>body. body_of X t = Some body \<and> map_of (xs_files ?s) ?cs = Some (FFile body)"
    unfolding transfers_def Let_def
  proof (rule transfer_clean [OF c [unfolded transfers_def Let_def] live [unfolded transfers_def Let_def]])
    show "?cs \<notin> {path_components (snd u), path_components (partial_path (snd u))}"
      if "u \<in> set (take ?k (pl_downloads p) @ drop ?k (pl_downloads p))" "u \<noteq> t" for u
      using that assms(5) unfolding append_take_drop_id by (auto simp: undisturbed_def Let_def list_all_iff)
  qed (use transfers_started assms(3,4) in \<open>simp_all only: append_take_drop_id\<close>)
  then obtain body where body: "body_of X t = Some body" "map_of (xs_files ?s) ?cs = Some (FFile body)" by blast
  let ?A = "(\<Union>m \<in> set (pl_manifests p). {path_components (fst m), manifest_temp (fst m)}) \<union> (\<lambda>l. path_components (fst l)) ` set (pl_symlinks p) \<union> removable p"
  have "may_tidy ?A ?A UNIV p" by (auto simp: may_tidy_def may_publish_def)
  then have "touches ?A UNIV (xs_files ?s) fs'"
    by (rule io_keeps_result [OF footprint.tidy_rel tidy]) (auto simp: removable_def)
  moreover have "?cs \<notin> ?A" using assms(5) by (auto simp: undisturbed_def Let_def list_all_iff removable_def)
  ultimately have "map_of fs' ?cs = Some (FFile body)" using body(2) unfolding touches_def by fastforce
  with body(1) transfers_complete [OF c] show ?thesis by blast
qed

section \<open>A small mirror\<close>

definition demo_entry :: "string \<Rightarrow> EntryKind \<Rightarrow> nat option \<Rightarrow> IndexEntry" where
  "demo_entry p k n = \<lparr>en_path = p, en_size = n, en_modified = None, en_kind = k, en_symlink_target = None\<rparr>"

definition demo_index :: "string \<Rightarrow> IndexEntry list" where
  "demo_index body = (if body = ''top'' then [demo_entry ''a'' FileEntry (Some 2), demo_entry ''d/'' DirEntry None] else [demo_entry ''b'' FileEntry None])"

definition demo_fetch :: fetch_env where
  "demo_fetch = \<lparr>fe_answer = (\<lambda>_ url _. if url = ''http://u'' then Inr ''top'' else Inr ''sub''), fe_parse = demo_index, fe_xml = (\<lambda>_. Inl ''''),
     fe_tree = [(''a'', FileNode 1 None), (''old'', FileNode 9 None)], fe_beyond = (\<lambda>_. None), fe_walk_fails = None, fe_excludes = [], fe_threads = 2\<rparr>"

definition demo_transfer :: transfer_env where
  "demo_transfer = \<lparr>ex_download = (\<lambda>url dest. Some \<lparr>dl_cancelled_first = False, dl_response = Inr [Chunk ''x'', Chunk dest], dl_writes = (\<lambda>_. None), dl_cancelled_last = False\<rparr>),
     ex_root_link = False, ex_fails = (\<lambda>_. None), ex_cancelled = (\<lambda>_. False), ex_threads = 2, ex_warn_on_forbidden = False\<rparr>"

definition demo_files :: filesys where
  "demo_files = [([''a''], FFile ''q''), ([''old''], FFile ''123456789'')]"

definition demo_plan :: Plan where
  "demo_plan = empty_plan\<lparr>pl_downloads := [(''http://u/a'', ''a''), (''http://u/d/b'', ''d/b'')], pl_deletes := [''old''],
     pl_size_sum := 2, pl_size_unknown := True\<rparr>"

lemmas plan_eval = plan_start_def spawn_listings_def listing_concurrency_def plan_step_def get_listing_def listing_url_def is_repodata_def
  plan_body_def plan_entry_def accepted_def is_safe_rel_def key_of_def rel_of_def is_excluded_def plan_dir_def plan_file_def child_work_def
  local_node_def local_matches_def path_components_def url_join_def join_slash_def trim_end_where_def trim_start_where_def ends_with_def starts_with_def
  suffix_to_prefix remove_nth_def empty_plan_def MAX_ENTRIES_def MAX_DEPTH_def Let_def

definition demo_state :: plan_state where
  "demo_state =
     \<lparr>ps_plan = empty_plan\<lparr>pl_downloads := [(''http://u/a'', ''a''), (''http://u/d/b'', ''d/b'')], pl_size_sum := 2, pl_size_unknown := True\<rparr>,
      ps_remote = {''a'', ''d'', ''d/b''}, ps_pending = [], ps_listings = [], ps_seen = 3, ps_failed = False,
      ps_done = [(\<lparr>dw_url = ''http://u/d/'', dw_rel = ''d'', dw_depth = 15, dw_root = False\<rparr>, demo_index ''sub''),
                 (\<lparr>dw_url = ''http://u'', dw_rel = [], dw_depth = 16, dw_root = True\<rparr>, demo_index ''top'')]\<rparr>"

lemma demo_looped: "plan_loop demo_fetch (\<lambda>_. ListingDone 0) 0 (plan_start ''http://u'' 16) = Inr demo_state"
  by (simp add: plan_loop.simps plan_eval demo_fetch_def demo_index_def demo_entry_def demo_state_def insert_commute)

lemma demo_planned: "plan_inner demo_fetch (\<lambda>_. Some demo_index) (\<lambda>_. ListingDone 0) ''http://u'' ''nginx'' True 16 = Inr demo_plan"
proof -
  have "demo_fetch\<lparr>fe_parse := demo_index\<rparr> = demo_fetch" by (simp add: demo_fetch_def)
  moreover have "local_extras (fe_tree demo_fetch) (ps_remote demo_state) (fe_excludes demo_fetch) = ([''old''], [])" by code_simp
  moreover have "fe_walk_fails demo_fetch = None" by (simp add: demo_fetch_def)
  ultimately show ?thesis by (simp add: plan_inner_def demo_looped plan_finish_def demo_state_def demo_plan_def Let_def empty_plan_def)
qed

lemma demo_executed: "case execute demo_transfer (\<lambda>_. TaskEnded 0) demo_plan demo_files of (Inr st, fs) \<Rightarrow> clean st
     \<and> fs = [([''a''], FFile ''xa''), ([''d''], FDir), ([''d'', ''b''], FFile ''xd/b'')] | _ \<Rightarrow> False"
  by code_simp

theorem plan_covers_upstream_witness:
  "\<exists>s. plan_loop demo_fetch (\<lambda>_. ListingDone 0) 0 (plan_start ''http://u'' 16) = Inr s \<and> ''d/b'' \<in> ps_remote s \<and> handled demo_fetch s ''d/b''"
  using plan_covers_upstream [OF demo_looped] demo_looped by (simp add: demo_state_def empty_plan_def)

theorem plan_stays_inside_witness: "inside ''d/b''"
  using plan_stays_inside [OF demo_planned] by (simp add: plan_inside_def demo_plan_def empty_plan_def)

lemma demo_synced:
  "sync demo_fetch (\<lambda>_. Some demo_index) (\<lambda>_. ListingDone 0) demo_transfer (\<lambda>_. TaskEnded 0) ''http://u'' ''nginx'' True 16 demo_files
     = execute demo_transfer (\<lambda>_. TaskEnded 0) demo_plan demo_files"
  by (simp add: sync_def demo_planned)

lemma demo_sync_result: "\<exists>st. execute demo_transfer (\<lambda>_. TaskEnded 0) demo_plan demo_files
  = (Inr st, [([''a''], FFile ''xa''), ([''d''], FDir), ([''d'', ''b''], FFile ''xd/b'')]) \<and> clean st"
  using demo_executed by (auto split: prod.splits sum.splits)



text \<open>A symlink entry is created below a directory that is itself a symlink, although nothing is downloaded through one.\<close>

lemma symlink_through_link:
  "\<exists>st. link_all demo_transfer [(''l/x'', ''y'')] (initial_stats empty_plan) [([''l''], FLink ''/etc'')]
     = (Inr st, [([''l''], FLink ''/etc''), ([''l'', ''x''], FLink ''y'')])"
proof -
  have "case link_all demo_transfer [(''l/x'', ''y'')] (initial_stats empty_plan) [([''l''], FLink ''/etc'')] of
      (Inr _, fs) \<Rightarrow> fs = [([''l''], FLink ''/etc''), ([''l'', ''x''], FLink ''y'')] | _ \<Rightarrow> False"
    by code_simp
  then show ?thesis by (auto split: prod.splits sum.splits)
qed

end
