(* ===== verification/Provider_Props.thy ===== *)
theory Provider_Props
  imports Providers Httpfetch_Props
begin

text \<open>
  Properties that span the providers and what they call: the order of the two stages of rsync, and the HTTP provider composed
  with the planning and the transfer of the fetcher.
\<close>

section \<open>Two-stage rsync\<close>

lemma run_rsync_code_0:
  assumes "run_rsync E cmd w = (Inr (0, out, err), w1)"
  shows "\<exists>outs errs. pr_spawn E cmd w = (Inr (Ended (Some 0) outs errs), w1) \<and> \<not> pr_cancelled E w1"
proof -
  from run_rsync_OkD [OF assms] obtain c outs errs where
    "pr_spawn E cmd w = (Inr (Ended c outs errs), w1)" "\<not> pr_cancelled E w1" "0 = opt_default (- 1) c" by blast
  then show ?thesis by (cases c) auto
qed

text \<open>C24: The two stages of rsync run in order. If the profile is known, either only the first stage was started and the run fails, or the first stage ended with exit
  code 0 and was not cancelled, and the second stage was started in the state that it left. The first stage deletes nothing: among its arguments only the source, the destination or the egress
  address can look like a deletion, and these are values, not flags.
\<close>

theorem two_stage_order:
  assumes run: "two_stage_sync E P ctx w = (r, w')" and up: "ctx_upstream ctx = Some up"
    and profile: "map_of STAGE1_PROFILES (rp_stage1_profile P) = Some profile"
  defines "first \<equiv> pr_spawn E (rsync_command ctx (stage1_args P ctx up profile)) w"
  shows "((\<exists>e. r = Inl e) \<and> w' = snd first
       \<or> (\<exists>outs errs w1. first = (Inr (Ended (Some 0) outs errs), w1) \<and> \<not> pr_cancelled E w1
            \<and> w' = snd (pr_spawn E (rsync_command ctx (stage2_args (\<lambda>f. pr_is_file E f w1) P ctx up)) w1)))
    \<and> (\<forall>a \<in> set (stage1_args P ctx up profile). deletes a \<longrightarrow> a \<in> {with_slash up, ctx_storage ctx @ ''/''} \<or> ctx_egress_address ctx = Some a)"
proof
  let ?c1 = "rsync_command ctx (stage1_args P ctx up profile)"
  obtain x w1 where one: "run_rsync E ?c1 w = (x, w1)" by (cases "run_rsync E ?c1 w")
  have w1: "w1 = snd first" using run_rsync_world [of E ?c1 w] by (simp add: one first_def)
  let ?c2 = "rsync_command ctx (stage2_args (\<lambda>f. pr_is_file E f w1) P ctx up)"
  show "(\<exists>e. r = Inl e) \<and> w' = snd first
       \<or> (\<exists>outs errs w1. first = (Inr (Ended (Some 0) outs errs), w1) \<and> \<not> pr_cancelled E w1
            \<and> w' = snd (pr_spawn E (rsync_command ctx (stage2_args (\<lambda>f. pr_is_file E f w1) P ctx up)) w1))"
  proof (cases "\<exists>out err. x = Inr (0, out, err)")
    case True
    then obtain out err where x: "x = Inr (0, out, err)" by blast
    obtain outs errs where "first = (Inr (Ended (Some 0) outs errs), w1)" "\<not> pr_cancelled E w1"
      using run_rsync_code_0 [OF one [unfolded x]] by (auto simp: first_def)
    moreover have "w' = snd (run_rsync E ?c2 w1)"
      using run up profile one by (auto simp: two_stage_sync_def x io_bind_def io_lift_def split: prod.splits sum.splits)
    ultimately show ?thesis by (auto simp: run_rsync_world)
  next
    case False
    have "(\<exists>e. r = Inl e) \<and> w' = w1"
      using False run up profile one by (cases x) (auto simp: two_stage_sync_def io_bind_def split: prod.splits if_splits)
    with w1 show ?thesis by simp
  qed
  show "\<forall>a \<in> set (stage1_args P ctx up profile). deletes a \<longrightarrow> a \<in> {with_slash up, ctx_storage ctx @ ''/''} \<or> ctx_egress_address ctx = Some a"
    using stage1_never_deletes [OF profile] by blast
qed

theorem two_stage_order_witness:
  "\<exists>r. two_stage_sync demo_proc \<lparr>rp_options = [], rp_exclude = [], rp_stage1_profile = ''debian''\<rparr> demo_ctx 0 = (r, 2)"
proof -
  let ?P = "\<lparr>rp_options = [], rp_exclude = [], rp_stage1_profile = ''debian''\<rparr> :: TwoStageRsyncProvider"
  obtain r w' where run: "two_stage_sync demo_proc ?P demo_ctx 0 = (r, w')" by fastforce
  have up: "ctx_upstream demo_ctx = Some ''rsync://h/d''" by (simp add: demo_ctx_def)
  obtain profile where profile: "map_of STAGE1_PROFILES (rp_stage1_profile ?P) = Some profile" by (simp add: STAGE1_PROFILES_def)
  have second: "w' = 2" if "\<nexists>e. r = Inl e" using two_stage_order [OF run up profile] that by auto
  have "r \<noteq> Inl e" for e
    using run profile up
    by (auto simp: two_stage_sync_def io_bind_def run_rsync_def run_child_def io_ret_def io_lift_def rsync_outcome_def is_success_exit_def split: prod.splits)
  with second run show ?thesis by blast
qed

section \<open>The HTTP provider\<close>

definition provider_fetch :: "(string \<Rightarrow> (string \<Rightarrow> bool) option) \<Rightarrow> fetch_env \<Rightarrow> HttpProvider \<Rightarrow> fetch_env" where
  "provider_fetch globs F P = F\<lparr>fe_excludes := with_excludes globs (hp_exclude P), fe_threads := opt_default DEFAULT_THREADS (hp_threads P)\<rparr>"

definition provider_transfer :: "transfer_env \<Rightarrow> HttpProvider \<Rightarrow> transfer_env" where
  "provider_transfer X P = X\<lparr>ex_threads := opt_default DEFAULT_THREADS (hp_threads P), ex_warn_on_forbidden := hp_warn_on_forbidden_files P\<rparr>"

text \<open>The fetcher that the HTTP provider builds, over a file system, with the depth that the provider gives.\<close>

definition http_fetcher ::
  "(string \<Rightarrow> (string \<Rightarrow> bool) option) \<Rightarrow> fetch_env \<Rightarrow> (string \<Rightarrow> (string \<Rightarrow> IndexEntry list) option) \<Rightarrow> (nat \<Rightarrow> plan_event) \<Rightarrow> transfer_env \<Rightarrow> (nat \<Rightarrow> transfer_event)
     \<Rightarrow> (FetchStats \<Rightarrow> string list) \<Rightarrow> filesys http_env" where
  "http_fetcher globs F parsers psched X xsched lines =
     \<lparr>he_client = (\<lambda>_. None),
      he_fetch = (\<lambda>_ _ P _ up.
        io_bind (sync (provider_fetch globs F P) parsers psched (provider_transfer X P) xsched up (hp_parser P) (hp_delete P) 16)
          (\<lambda>st. io_ret (st, lines st)))\<rparr>"


definition demo_http_provider :: HttpProvider where
  "demo_http_provider = \<lparr>hp_parser = ''nginx'', hp_delete = True, hp_warn_on_forbidden_files = False, hp_threads = Some 2, hp_exclude = []\<rparr>"

lemma demo_provider_env:
  "provider_fetch (\<lambda>_. None) demo_fetch demo_http_provider = demo_fetch" "provider_transfer demo_transfer demo_http_provider = demo_transfer"
  by (simp_all add: provider_fetch_def provider_transfer_def demo_http_provider_def with_excludes_def demo_fetch_def demo_transfer_def)


end
