(* ===== verification/Auth_Proxy.thy ===== *)
theory Auth_Proxy
  imports Text_Util "HOL-Library.Word"
begin

unbundle bit_operations_syntax

text \<open>
  The exposed HTTP proxy of \<open>crates/netroute/src/lib.rs\<close>: the head of a request, the check of the credentials, the head that goes to the upstream, and the
  handshake with a SOCKS5 upstream. Streams are the bytes they deliver, as strings. The URL parser and percent decoding are parameters.
\<close>

section \<open>Credentials\<close>

definition byte_of :: "char \<Rightarrow> 8 word" where
  "byte_of c = of_char c"

text \<open>The accumulated difference is zero exactly if no byte differs.\<close>

definition constant_time_eq_bytes :: "string \<Rightarrow> string \<Rightarrow> bool" where
  "constant_time_eq_bytes a b =
     (if length a \<noteq> length b then False
      else fold (\<lambda>(x, y) diff. diff OR (byte_of x XOR byte_of y)) (zip a b) 0 = 0)"

definition TABLE :: string where
  "TABLE = ''ABCDEFGHIJKLMNOPQRSTUVWXYZabcdefghijklmnopqrstuvwxyz0123456789+/''"

definition sextet :: "8 word \<Rightarrow> char" where
  "sextet w = TABLE ! unat w"

text \<open>The four groups of six bits of three bytes.\<close>

definition group0 :: "8 word \<Rightarrow> 8 word" where "group0 b0 = drop_bit 2 b0"
definition group1 :: "8 word \<Rightarrow> 8 word \<Rightarrow> 8 word" where "group1 b0 b1 = push_bit 4 (b0 AND 3) OR drop_bit 4 b1"
definition group2 :: "8 word \<Rightarrow> 8 word \<Rightarrow> 8 word" where "group2 b1 b2 = push_bit 2 (b1 AND 15) OR drop_bit 6 b2"
definition group3 :: "8 word \<Rightarrow> 8 word" where "group3 b2 = b2 AND 63"

definition base64_chunk :: "string \<Rightarrow> string" where
  "base64_chunk chunk =
     (let b = (\<lambda>i. if i < length chunk then byte_of (chunk ! i) else 0)
      in [sextet (group0 (b 0)), sextet (group1 (b 0) (b 1)),
          if 1 < length chunk then sextet (group2 (b 1) (b 2)) else CHR ''='',
          if 2 < length chunk then sextet (group3 (b 2)) else CHR ''=''])"

fun base64 :: "string \<Rightarrow> string" where
  "base64 (a # b # c # rest) = base64_chunk [a, b, c] @ base64 rest"
| "base64 [] = []"
| "base64 chunk = base64_chunk chunk"

definition base64_auth :: "string \<Rightarrow> string \<Rightarrow> string" where
  "base64_auth user pass = base64 (user @ '':'' @ pass)"

text \<open>What \<open>serve_auth_proxy\<close> expects of a client.\<close>

definition expected_auth :: "string \<Rightarrow> string \<Rightarrow> string" where
  "expected_auth user pass = (if user = [] \<and> pass = [] then [] else ''Basic '' @ base64_auth user pass)"

section \<open>SOCKS5\<close>

datatype RouteError = ReIo string | ReBadResponse string

definition read_exact :: "nat \<Rightarrow> string \<Rightarrow> RouteError + string \<times> string" where
  "read_exact n s = (if length s < n then Err (ReIo ''failed to fill whole buffer'') else Ok (take n s, drop n s))"

definition byte :: "nat \<Rightarrow> char" where
  "byte n = char_of (n mod 256)"

text \<open>The reply to CONNECT, which the code reads in pieces; the answer is what is left of the stream.\<close>

definition socks5_reply :: "string \<Rightarrow> RouteError + string" where
  "socks5_reply s =
     and_then (read_exact 10 s) (\<lambda>(head, s1).
       if head ! 0 \<noteq> byte 5 \<or> head ! 1 \<noteq> byte 0 then Err (ReBadResponse ''SOCKS5 CONNECT failed'')
       else
         and_then
           (if head ! 3 = byte 1 then Ok (10, s1)
            else if head ! 3 = byte 4 then Ok (22, s1)
            else if head ! 3 = byte 3 then and_then (read_exact 1 s1) (\<lambda>(len, s2). Ok (4 + 1 + of_char (len ! 0) + 2, s2))
            else Err (ReBadResponse ''SOCKS5 reply ATYP''))
           (\<lambda>(total, s2). if 10 < total then and_then (read_exact (total - 10) s2) (\<lambda>(_, s3). Ok s3) else Ok s2))"

text \<open>What is sent: the greeting, and the request for a domain name.\<close>

definition socks5_request :: "string \<Rightarrow> nat \<Rightarrow> string" where
  "socks5_request host port = [byte 5, byte 1, byte 0, byte 3, byte (length host)] @ host @ [byte (port div 256), byte port]"

text \<open>\<open>incoming\<close> is what the SOCKS server sends; the answer is what was sent to it and what is left of \<open>incoming\<close>.\<close>

definition socks5_connect_tunnel :: "string \<Rightarrow> string \<Rightarrow> nat \<Rightarrow> RouteError + string \<times> string" where
  "socks5_connect_tunnel incoming host port =
     and_then (read_exact 2 incoming) (\<lambda>(verb, s1).
       if verb ! 0 \<noteq> byte 5 \<or> verb ! 1 \<noteq> byte 0 then Err (ReBadResponse ''SOCKS5 auth method'')
       else and_then (socks5_reply s1) (\<lambda>rest. Ok ([byte 5, byte 1, byte 0] @ socks5_request host port, rest)))"

definition url_host_port :: "string \<Rightarrow> string \<times> nat" where
  "url_host_port url =
     (let rest = (case split_once_str ''://'' url of Some (_, r) \<Rightarrow> r | None \<Rightarrow> url);
          rest = takeWhile (\<lambda>c. c \<notin> {CHR ''/'', CHR ''?'', CHR ''#''}) rest
      in case strip_prefix ''['' rest of
           Some inner \<Rightarrow>
             (case split_once_str '']:'' inner of
                Some (host, port) \<Rightarrow> (host, opt_default 80 (parse_unsigned 65535 (hd (split_char (CHR ''/'') port))))
              | None \<Rightarrow> (trim_end_where (\<lambda>c. c = CHR '']'') inner, 80))
         | None \<Rightarrow>
             (case rsplit_once (CHR '':'') rest of
                Some (host, port) \<Rightarrow> (case parse_unsigned 65535 port of Some p \<Rightarrow> (host, p) | None \<Rightarrow> (rest, 80))
              | None \<Rightarrow> (rest, 80)))"

section \<open>The head of a request\<close>

definition crlf :: string where "crlf = [CHR 0x0D, CHR 0x0A]"

datatype head_read = HeadDone string string | HeadTooLarge | HeadEof

text \<open>Byte by byte up to the empty line; what follows stays in the socket.\<close>

fun read_head :: "string \<Rightarrow> string \<Rightarrow> head_read" where
  "read_head head s =
     (if contains_str (crlf @ crlf) head then HeadDone head s
      else (case s of
              [] \<Rightarrow> HeadEof
            | c # rest \<Rightarrow> if 8192 < length head + 1 then HeadTooLarge else read_head (head @ [c]) rest))"

definition header_name :: "string \<Rightarrow> string" where
  "header_name line = (case split_once (CHR '':'') line of Some (n, _) \<Rightarrow> n | None \<Rightarrow> [])"

text \<open>The value of the first header of a name.\<close>

definition header_value :: "string \<Rightarrow> string list \<Rightarrow> string option" where
  "header_value n lines = map_option snd (find (\<lambda>(k, _). eq_ignore_case k n) (filter_map (split_once (CHR '':'')) lines))"

definition auth_ok :: "string \<Rightarrow> string list \<Rightarrow> bool" where
  "auth_ok expected lines =
     (case header_value ''Proxy-Authorization'' lines of None \<Rightarrow> False | Some v \<Rightarrow> constant_time_eq_bytes (trim v) expected)"

section \<open>A connection\<close>

text \<open>The parts of a URL that the code reads from \<open>reqwest::Url\<close>.\<close>

record url_parts =
  up_scheme :: string
  up_username :: string
  up_password :: "string option"
  up_host :: "string option"
  up_port :: "nat option"
  up_path :: string
  up_query :: "string option"

text \<open>\<open>pe_connect\<close>: the HTTP upstream accepts a connection; \<open>pe_socks\<close> is what the SOCKS server sends; \<open>pe_writes\<close>: the head can be written to the upstream.\<close>

record conn_env =
  pe_upstream :: string
  pe_expected :: string
  pe_url :: "string \<Rightarrow> url_parts option"
  pe_decode :: "string \<Rightarrow> string option"
  pe_connect :: "string \<Rightarrow> nat \<Rightarrow> bool"
  pe_socks :: string
  pe_writes :: bool

text \<open>How a connection is served: a reply, an error, or a relay. A relay has its destination, what the client was told first, the head
  that went to the upstream, and the bytes of the client that are copied after it.\<close>

datatype conn_served = Replied string | Broken RouteError | Relayed string nat string string string

definition http_reply :: "string \<Rightarrow> string" where
  "http_reply status = ''HTTP/1.1 '' @ status @ crlf @ crlf"

definition auth_required_reply :: string where
  "auth_required_reply = ''HTTP/1.1 407 Proxy Authentication Required'' @ crlf @ ''Proxy-Authenticate: Basic realm='' @ [CHR 0x22] @ ''synora'' @ [CHR 0x22]
     @ crlf @ ''Content-Length: 0'' @ crlf @ ''Connection: close'' @ crlf @ crlf"

definition is_header :: "string \<Rightarrow> string \<Rightarrow> bool" where
  "is_header n line = eq_ignore_case (header_name line) n"

definition http_lines :: "bool \<Rightarrow> string list \<Rightarrow> string list" where
  "http_lines connect lines =
     filter (\<lambda>l. l \<noteq> [] \<and> \<not> is_header ''Proxy-Authorization'' l \<and> \<not> is_header ''Proxy-Connection'' l \<and> (connect \<or> \<not> is_header ''Connection'' l)) lines"

definition line_end :: "string \<Rightarrow> string" where
  "line_end l = l @ crlf"

text \<open>The credentials of the upstream, from its URL.\<close>

definition upstream_auth :: "conn_env \<Rightarrow> url_parts \<Rightarrow> RouteError + string list" where
  "upstream_auth E u =
     (if up_username u = [] \<and> up_password u = None then Ok []
      else (case pe_decode E (up_username u) of
              None \<Rightarrow> Err (ReBadResponse ''invalid upstream username encoding'')
            | Some user \<Rightarrow>
                (case pe_decode E (opt_default [] (up_password u)) of
                   None \<Rightarrow> Err (ReBadResponse ''invalid upstream password encoding'')
                 | Some pass \<Rightarrow> Ok [''Proxy-Authorization: Basic '' @ base64_auth user pass])))"

definition known_port :: "url_parts \<Rightarrow> nat" where
  "known_port u = opt_default 80 (up_port u)"

definition via_http :: "conn_env \<Rightarrow> string \<Rightarrow> string \<Rightarrow> string \<Rightarrow> string list \<Rightarrow> string \<Rightarrow> conn_served" where
  "via_http E verb target version lines rest =
     (case pe_url E (pe_upstream E) of
        None \<Rightarrow> Broken (ReBadResponse ''invalid HTTP upstream URL'')
      | Some u \<Rightarrow>
          (case up_host u of
             None \<Rightarrow> Broken (ReBadResponse ''HTTP upstream requires a hostname'')
           | Some h \<Rightarrow>
               (let host = trim_end_where (\<lambda>c. c = CHR '']'') (trim_start_where (\<lambda>c. c = CHR ''['') h);
                    connect = eq_ignore_case verb ''CONNECT''
                in if \<not> pe_connect E host (known_port u) then Replied (http_reply ''502 Bad Gateway'')
                   else
                     (case upstream_auth E u of
                        Inl e \<Rightarrow> Broken e
                      | Inr auth \<Rightarrow>
                          if \<not> pe_writes E then Replied (http_reply ''502 Bad Gateway'')
                          else Relayed host (known_port u) []
                                 (concat (map line_end ([verb @ '' '' @ target @ '' '' @ version] @ http_lines connect lines
                                    @ (if connect then [] else [''Connection: close'']) @ auth)) @ crlf)
                                 rest))))"

definition origin_form :: "url_parts \<Rightarrow> string" where
  "origin_form u = (if up_path u = [] then ''/'' else up_path u) @ (case up_query u of Some q \<Rightarrow> ''?'' @ q | None \<Rightarrow> [])"

definition socks_lines :: "string list \<Rightarrow> string list" where
  "socks_lines lines = filter (\<lambda>l. l \<noteq> [] \<and> \<not> is_header ''Proxy-Authorization'' l \<and> \<not> is_header ''Proxy-Connection'' l) lines"

definition via_socks :: "conn_env \<Rightarrow> string \<Rightarrow> string \<Rightarrow> string \<Rightarrow> string list \<Rightarrow> string \<Rightarrow> conn_served" where
  "via_socks E verb target version lines rest =
     (case pe_url E target of
        None \<Rightarrow> Replied (http_reply ''400 Bad Request'')
      | Some u \<Rightarrow>
          if up_scheme u \<noteq> ''http'' then Replied (http_reply ''405 Method Not Allowed'')
          else
            (case up_host u of
               None \<Rightarrow> Replied (http_reply ''400 Bad Request'')
             | Some host \<Rightarrow>
                 (case socks5_connect_tunnel (pe_socks E) host (known_port u) of
                    Inl _ \<Rightarrow> Replied (http_reply ''502 Bad Gateway'')
                  | Inr _ \<Rightarrow>
                      if \<not> pe_writes E then Replied (http_reply ''502 Bad Gateway'')
                      else Relayed host (known_port u) []
                             (concat (map line_end ([verb @ '' '' @ origin_form u @ '' '' @ version] @ socks_lines lines)) @ crlf) rest)))"

definition via_tunnel :: "conn_env \<Rightarrow> string \<Rightarrow> string \<Rightarrow> conn_served" where
  "via_tunnel E target rest =
     (case rsplit_once (CHR '':'') target of
        None \<Rightarrow> Broken (ReBadResponse (''bad CONNECT target '' @ target))
      | Some (host, p) \<Rightarrow>
          (case parse_unsigned 65535 p of
             None \<Rightarrow> Broken (ReBadResponse ''bad port'')
           | Some port \<Rightarrow>
               (case socks5_connect_tunnel (pe_socks E) host port of
                  Inl _ \<Rightarrow> Replied (http_reply ''502 Bad Gateway'')
                | Inr _ \<Rightarrow> Relayed host port (http_reply ''200 Connection Established'') [] rest)))"

text \<open>\<open>serve_auth_proxy_conn\<close>, on the bytes of the client.\<close>

definition serve_auth_proxy_conn :: "conn_env \<Rightarrow> string \<Rightarrow> conn_served" where
  "serve_auth_proxy_conn E client =
     (case read_head [] client of
        HeadEof \<Rightarrow> Broken (ReIo ''failed to fill whole buffer'')
      | HeadTooLarge \<Rightarrow> Replied (http_reply ''413 Payload Too Large'')
      | HeadDone head rest \<Rightarrow>
          (let all = str_lines head; request = (case all of [] \<Rightarrow> [] | l # _ \<Rightarrow> l); lines = drop 1 all
           in case split_whitespace request of
                verb # target # version # _ \<Rightarrow>
                  if pe_expected E \<noteq> [] \<and> \<not> auth_ok (pe_expected E) lines then Replied auth_required_reply
                  else if starts_with ''http://'' (pe_upstream E) then via_http E verb target version lines rest
                  else if \<not> eq_ignore_case verb ''CONNECT'' then via_socks E verb target version lines rest
                  else via_tunnel E target rest
              | _ \<Rightarrow> Replied (http_reply ''400 Bad Request'')))"

declare read_head.simps [simp del]

section \<open>Laws of the credentials\<close>

lemma unat_byte_of: "unat (byte_of c) = of_char c"
proof -
  have "unat (of_nat (of_char c) :: 8 word) = (of_char c :: nat)" using nat_of_char_less_256 [of c] by (simp add: unat_of_nat)
  then show ?thesis by (simp only: byte_of_def of_nat_of_char)
qed

lemma byte_of_eq: "byte_of a = byte_of b \<longleftrightarrow> a = b"
  by (metis of_char_eq_iff unat_byte_of)

lemma xor_zero: "x XOR y = 0 \<longleftrightarrow> x = (y :: 8 word)"
proof
  assume "x XOR y = 0"
  then have "(x XOR y) XOR y = y" by (simp only: xor.left_neutral)
  then show "x = y" by (simp add: xor.assoc)
qed simp

lemma fold_or_zero: "fold (\<lambda>(x, y) diff. diff OR (byte_of x XOR byte_of y)) ps d = 0 \<longleftrightarrow> d = 0 \<and> (\<forall>(x, y) \<in> set ps. x = y)"
  by (induction ps arbitrary: d) (auto simp: or_eq_0_iff xor_zero byte_of_eq)

lemma constant_time_eq_bytes_iff: "constant_time_eq_bytes a b \<longleftrightarrow> a = b"
proof (cases "length a = length b")
  case True
  then have "(\<forall>(x, y) \<in> set (zip a b). x = y) \<longleftrightarrow> a = b"
    by (induction a b rule: list_induct2) auto
  then show ?thesis using True by (simp add: constant_time_eq_bytes_def fold_or_zero)
qed (auto simp: constant_time_eq_bytes_def)

definition unsextet :: "char \<Rightarrow> 8 word" where
  "unsextet c = of_nat (length (takeWhile (\<lambda>d. d \<noteq> c) TABLE))"

definition char_of_byte :: "8 word \<Rightarrow> char" where
  "char_of_byte w = char_of (unat w)"

text \<open>The decoder of RFC 4648, as the reference.\<close>

fun base64_decode :: "string \<Rightarrow> string" where
  "base64_decode (a # b # c # d # rest) =
     char_of_byte (push_bit 2 (unsextet a) OR drop_bit 4 (unsextet b))
     # (if c = CHR ''='' then []
        else char_of_byte (push_bit 4 (unsextet b) OR drop_bit 2 (unsextet c))
             # (if d = CHR ''='' then [] else [char_of_byte (push_bit 6 (unsextet c) OR unsextet d)]))
     @ base64_decode rest"
| "base64_decode _ = []"

lemma takeWhile_distinct: "distinct xs \<Longrightarrow> i < length xs \<Longrightarrow> length (takeWhile (\<lambda>d. d \<noteq> xs ! i) xs) = i"
proof (induction xs arbitrary: i)
  case (Cons x xs)
  then show ?case by (cases i) auto
qed simp

lemma TABLE_facts: "distinct TABLE" "length TABLE = 64" "CHR ''='' \<notin> set TABLE"
  by code_simp+

lemma unsextet_sextet: "unat w < 64 \<Longrightarrow> unsextet (sextet w) = w"
  by (simp add: unsextet_def sextet_def takeWhile_distinct TABLE_facts)

lemma sextet_not_pad: "unat w < 64 \<Longrightarrow> sextet w \<noteq> CHR ''=''"
  by (metis TABLE_facts(2,3) nth_mem sextet_def)

lemma six_bits:
  fixes w :: "8 word"
  assumes "\<And>n. 6 \<le> n \<Longrightarrow> \<not> bit w n"
  shows "unat w < 64"
proof -
  have "take_bit 6 w = w" by (rule bit_word_eqI) (use assms in \<open>auto simp: bit_simps not_le [symmetric]\<close>)
  then have "unat w = take_bit 6 (unat w)" by (metis unsigned_take_bit_eq)
  then have "unat w = unat w mod 64" by (simp add: take_bit_eq_mod)
  then show ?thesis by (metis mod_less_divisor zero_less_numeral)
qed

lemma masks: "(3 :: 8 word) = mask 2" "(15 :: 8 word) = mask 4" "(63 :: 8 word) = mask 6"
  by (simp_all add: mask_eq_exp_minus_1)

lemma groups_small: "unat (group0 b0) < 64" "unat (group1 b0 b1) < 64" "unat (group2 b1 b2) < 64" "unat (group3 b2) < 64"
  unfolding group0_def group1_def group2_def group3_def
  by (rule six_bits; simp add: masks bit_simps; use bit_imp_le_length in force)+

lemma word8_eqI:
  fixes x y :: "8 word"
  assumes "\<forall>n \<in> {0, 1, 2, 3, 4, 5, 6, 7}. bit x n = bit y n"
  shows "x = y"
proof (rule bit_word_eqI)
  fix n assume "n < LENGTH(8)"
  then have "n \<in> {0, 1, 2, 3, 4, 5, 6, 7}" by auto
  with assms show "bit x n = bit y n" by blast
qed

lemma groups_join0: "push_bit 2 (group0 b0) OR drop_bit 4 (group1 b0 b1) = b0"
  unfolding group0_def group1_def by (rule word8_eqI) (simp add: masks bit_simps, simp add: eval_nat_numeral)

lemma groups_join: "push_bit 4 (group1 b0 b1) OR drop_bit 2 (group2 b1 b2) = b1" "push_bit 6 (group2 b1 b2) OR group3 b2 = b2"
  unfolding group1_def group2_def group3_def by (rule word8_eqI; simp add: masks bit_simps)+

lemma char_of_byte_of [simp]: "char_of_byte (byte_of c) = c"
  by (simp add: char_of_byte_def unat_byte_of)

lemmas base64_simps = base64_chunk_def Let_def unsextet_sextet groups_small groups_join0 groups_join sextet_not_pad

text \<open>The encoding of the credentials loses nothing: the decoder of RFC 4648 gives back the user and the password that were encoded, so that distinct
  credentials have distinct headers.\<close>

lemma base64_roundtrip: "base64_decode (base64 s) = s"
proof (induction s rule: base64.induct)
  case (1 a b c rest)
  then show ?case by (simp add: base64_simps)
qed (simp_all add: base64_simps)

section \<open>Connections\<close>

lemma find_str_short: "length s < length p \<Longrightarrow> find_str p s = None"
  by (induction s) (auto dest: prefix_length_le)

lemma find_str_take: "p \<noteq> [] \<Longrightarrow> find_str p s = Some i \<Longrightarrow> find_str p (take n s) = (if i + length p \<le> n then Some i else None)"
proof (induction s arbitrary: i n)
  case (Cons x xs)
  show ?case
  proof (cases n)
    case 0
    then show ?thesis using Cons.prems by simp
  next
    case (Suc m)
    show ?thesis
    proof (cases "prefix p (x # xs)")
      case True
      then have i: "i = 0" using Cons.prems by simp
      show ?thesis
      proof (cases "length p \<le> n")
        case fits: True
        then have "prefix p (take n (x # xs))" using True by (metis append_eq_conv_conj prefix_def take_append take_take min.absorb1 take_is_prefix)
        then show ?thesis using i fits by (simp add: Suc)
      next
        case False
        then show ?thesis using find_str_short [of "take n (x # xs)" p] i by simp
      qed
    next
      case False
      then obtain j where j: "find_str p xs = Some j" "i = Suc j" using Cons.prems by auto
      have "\<not> prefix p (take n (x # xs))" using False take_is_prefix prefix_order.trans by blast
      then show ?thesis using Cons.IH [OF Cons.prems(1) j(1), of m] j(2) by (simp add: Suc)
    qed
  qed
qed simp

text \<open>The head ends with the first empty line, if that comes early enough.\<close>

lemma read_head_exact:
  assumes "find_str (crlf @ crlf) s = Some i" and "i + 4 \<le> 8192" and "n \<le> i + 4" and "i + 4 \<le> length s"
  shows "read_head (take n s) (drop n s) = HeadDone (take (i + 4) s) (drop (i + 4) s)"
  using assms(3)
proof (induction "i + 4 - n" arbitrary: n)
  case 0
  then have "n = i + 4" by simp
  moreover have "contains_str (crlf @ crlf) (take (i + 4) s)"
    using find_str_take [OF _ assms(1), of "i + 4"] by (simp add: contains_str_def crlf_def)
  ultimately show ?case by (simp add: read_head.simps)
next
  case (Suc k)
  then have "\<not> contains_str (crlf @ crlf) (take n s)" using find_str_take [OF _ assms(1), of n] by (simp add: contains_str_def crlf_def)
  moreover have "n < length s" using Suc assms(4) by simp
  then have "drop n s = s ! n # drop (Suc n) s" "take n s @ [s ! n] = take (Suc n) s" by (simp_all add: Cons_nth_drop_Suc take_Suc_conv_app_nth)
  ultimately show ?case using Suc.hyps(1) [of "Suc n"] Suc.hyps(2) Suc.prems assms(2) \<open>n < length s\<close> by (simp add: read_head.simps [of "take n s"])
qed

lemma header_auth: "auth_ok expected lines \<longleftrightarrow> (\<exists>v. header_value ''Proxy-Authorization'' lines = Some v \<and> trim v = expected)"
  by (auto simp: auth_ok_def constant_time_eq_bytes_iff split: option.split)

text \<open>The request line, the header lines and what follows the head.\<close>

definition request_parts :: "string \<Rightarrow> (string list \<times> string list \<times> string) option" where
  "request_parts client =
     (case read_head [] client of
        HeadDone head rest \<Rightarrow> (case str_lines head of [] \<Rightarrow> Some ([], [], rest) | l # ls \<Rightarrow> Some (split_whitespace l, ls, rest))
      | _ \<Rightarrow> None)"

text \<open>The header lines that may go to an upstream: none that authorises at a proxy, except the upstream's own credentials.\<close>

definition forwardable :: "string list \<Rightarrow> string list \<Rightarrow> bool" where
  "forwardable own ls \<longleftrightarrow> list_all (\<lambda>l. l \<in> set own \<or> \<not> is_header ''Proxy-Authorization'' l) ls"

lemma serve_relayed:
  assumes "serve_auth_proxy_conn E client = Relayed host port told head rest"
  obtains verb target version more lines where
    "request_parts client = Some (verb # target # version # more, lines, rest)" "pe_expected E = [] \<or> auth_ok (pe_expected E) lines"
    "Relayed host port told head rest = via_http E verb target version lines rest
     \<or> Relayed host port told head rest = via_socks E verb target version lines rest
     \<or> Relayed host port told head rest = via_tunnel E target rest \<and> eq_ignore_case verb ''CONNECT''"
proof -
  obtain hd' r where h: "read_head [] client = HeadDone hd' r" using assms by (auto simp: serve_auth_proxy_conn_def split: head_read.splits)
  let ?ws = "split_whitespace (case str_lines hd' of [] \<Rightarrow> [] | l # _ \<Rightarrow> l)"
  obtain verb target version more where ws: "?ws = verb # target # version # more"
    using assms h by (auto simp: serve_auth_proxy_conn_def Let_def split: list.splits)
  then obtain l ls where l: "str_lines hd' = l # ls" by (cases "str_lines hd'") (auto simp: split_whitespace_def)
  let ?R = "Relayed host port told head rest"
  have serving: "serve_auth_proxy_conn E client =
      (if pe_expected E \<noteq> [] \<and> \<not> auth_ok (pe_expected E) ls then Replied auth_required_reply
       else if starts_with ''http://'' (pe_upstream E) then via_http E verb target version ls r
       else if \<not> eq_ignore_case verb ''CONNECT'' then via_socks E verb target version ls r else via_tunnel E target r)"
    using h l ws by (simp add: serve_auth_proxy_conn_def Let_def)
  have auth: "pe_expected E = [] \<or> auth_ok (pe_expected E) ls"
    and out: "?R = via_http E verb target version ls r \<or> ?R = via_socks E verb target version ls r \<or> ?R = via_tunnel E target r \<and> eq_ignore_case verb ''CONNECT''"
    using assms unfolding serving by (auto split: if_splits)
  from out have "r = rest"
    by (auto simp: via_http_def via_socks_def via_tunnel_def Let_def split: option.splits if_splits sum.splits prod.splits)
  with that [of verb target version more ls] auth out h ws l show thesis by (simp add: request_parts_def)
qed

lemma http_reply_connect [simp]: "eq_ignore_case n n"
  by (simp add: eq_ignore_case_def)

lemma is_header_close: "\<not> is_header ''Proxy-Authorization'' ''Connection: close''"
  by code_simp

text \<open>C20: Nobody gets through the exposed proxy without its credentials: if a connection is relayed and credentials are set, then the first header that
  authorises at a proxy carries exactly them.\<close>

theorem relay_needs_credentials:
  assumes "serve_auth_proxy_conn E client = Relayed host port told head rest" and "pe_expected E \<noteq> []"
  shows "\<exists>request lines v. request_parts client = Some (request, lines, rest) \<and> header_value ''Proxy-Authorization'' lines = Some v \<and> trim v = pe_expected E"
proof -
  obtain verb target version more lines where "request_parts client = Some (verb # target # version # more, lines, rest)" "auth_ok (pe_expected E) lines"
    using serve_relayed [OF assms(1)] assms(2) by metis
  then show ?thesis by (auto simp: header_auth)
qed


text \<open>The handshake with a SOCKS5 server reads its reply to CONNECT exactly, if the reply carries an IPv4 or IPv6 address: what follows
  the reply is left for the tunnel.\<close>

lemma socks5_reply_exact:
  assumes "length address = (if kind = 1 then 4 else 16)" and "kind = 1 \<or> kind = 4" and "length port = 2"
  shows "socks5_reply ([byte 5, byte 0, byte 0, byte kind] @ address @ port @ rest) = Inr rest"
proof -
  have b: "byte 1 \<noteq> byte 4" by code_simp
  show ?thesis
  proof (cases "kind = 1")
    case True
    then obtain a1 a2 a3 a4 p1 p2 where "address = [a1, a2, a3, a4]" "port = [p1, p2]"
      using assms by (auto simp: length_Suc_conv numeral_eq_Suc)
    with True show ?thesis by (simp add: socks5_reply_def read_exact_def)
  next
    case False
    then have k: "kind = 4" "length address = 16" using assms by auto
    define s where "s = [byte 5, byte 0, byte 0, byte kind] @ address @ port @ rest"
    have len: "10 \<le> length s" "length s = 22 + length rest" using k assms(3) by (simp_all add: s_def)
    have "take 10 s ! 0 = byte 5" "take 10 s ! 1 = byte 0" "take 10 s ! 3 = byte 4" by (simp_all add: s_def k(1) nth_append numeral_eq_Suc)
    moreover have "drop 12 (drop 10 s) = rest" using k assms(3) by (simp add: s_def)
    ultimately have "socks5_reply s = Inr rest" using len b by (simp add: socks5_reply_def read_exact_def)
    then show ?thesis by (simp add: s_def)
  qed
qed

section \<open>Examples\<close>

definition demo_url :: "string \<Rightarrow> url_parts option" where
  "demo_url s = (if s = ''http://up:3128'' then Some \<lparr>up_scheme = ''http'', up_username = ''u'', up_password = Some ''p'', up_host = Some ''up'', up_port = Some 3128, up_path = [], up_query = None\<rparr>
     else if s = ''http://h/x'' then Some \<lparr>up_scheme = ''http'', up_username = [], up_password = None, up_host = Some ''h'', up_port = None, up_path = ''/x'', up_query = None\<rparr>
     else None)"

definition demo_proxy_env :: "string \<Rightarrow> conn_env" where
  "demo_proxy_env upstream =
     \<lparr>pe_upstream = upstream, pe_expected = expected_auth ''me'' ''pw'', pe_url = demo_url, pe_decode = Some, pe_connect = (\<lambda>_ _. True),
      pe_socks = [byte 5, byte 0] @ [byte 5, byte 0, byte 0, byte 1] @ ''addr'' @ ''pp'', pe_writes = True\<rparr>"

definition demo_request :: string where
  "demo_request = concat (map line_end [''GET http://h/x HTTP/1.1'', ''Proxy-Authorization: Basic bWU6cHc='', ''Connection: keep-alive'']) @ crlf"

definition demo_forwarded :: string where
  "demo_forwarded = concat (map line_end [''GET http://h/x HTTP/1.1'', ''Connection: close'', ''Proxy-Authorization: Basic dTpw'']) @ crlf"

text \<open>The rest of the work on a connection whose head is short.\<close>

lemma serve_short:
  assumes "find_str (crlf @ crlf) client = Some i" and "i + 4 \<le> 8192" and "i + 4 \<le> length client"
  shows "serve_auth_proxy_conn E client =
    (let all = str_lines (take (i + 4) client); request = (case all of [] \<Rightarrow> [] | l # _ \<Rightarrow> l); lines = drop 1 all
     in case split_whitespace request of
          verb # target # version # _ \<Rightarrow>
            if pe_expected E \<noteq> [] \<and> \<not> auth_ok (pe_expected E) lines then Replied auth_required_reply
            else if starts_with ''http://'' (pe_upstream E) then via_http E verb target version lines (drop (i + 4) client)
            else if \<not> eq_ignore_case verb ''CONNECT'' then via_socks E verb target version lines (drop (i + 4) client)
            else via_tunnel E target (drop (i + 4) client)
        | _ \<Rightarrow> Replied (http_reply ''400 Bad Request''))"
  using read_head_exact [OF assms(1,2) _ assms(3), of 0] by (simp add: serve_auth_proxy_conn_def)

lemma demo_request_head: "find_str (crlf @ crlf) (demo_request @ ''body'') = Some 84" "find_str (crlf @ crlf) (demo_request @ demo_request) = Some 84"
  "length demo_request = 88"
  by code_simp+

lemma demo_served: "serve_auth_proxy_conn (demo_proxy_env ''http://up:3128'') (demo_request @ ''body'') = Relayed ''up'' 3128 [] demo_forwarded ''body''"
  by (subst serve_short [OF demo_request_head(1)]) (simp_all add: demo_request_head(3), code_simp)

theorem relay_needs_credentials_witness:
  "\<exists>request lines v. request_parts (demo_request @ ''body'') = Some (request, lines, ''body'') \<and> header_value ''Proxy-Authorization'' lines = Some v
     \<and> trim v = expected_auth ''me'' ''pw''"
proof -
  have "pe_expected (demo_proxy_env ''http://up:3128'') = expected_auth ''me'' ''pw''" "expected_auth ''me'' ''pw'' \<noteq> []" by code_simp+
  then show ?thesis using relay_needs_credentials [OF demo_served] by simp
qed


lemma socks5_reply_exact_example: "socks5_reply ([byte 5, byte 0, byte 0, byte 4] @ ''sixteen_letters_'' @ ''pp'' @ ''data'') = Inr ''data''"
  by (rule socks5_reply_exact) simp_all

text \<open>A reply that carries a domain name is misread: the length is taken from the byte after the tenth, not from the fifth.\<close>

lemma socks5_domain_reply_misread:
  "socks5_reply ([byte 5, byte 0, byte 0, byte 3, byte 10] @ ''name.local'' @ ''pp'' @ ''data'') = Inl (ReIo ''failed to fill whole buffer'')"
  by code_simp

text \<open>Over a SOCKS upstream the connection stays open, and a second request is copied with the credentials of the listener.\<close>

lemma second_request_leaks:
  "serve_auth_proxy_conn (demo_proxy_env ''socks5h://127.0.0.1:40000'') (demo_request @ demo_request)
     = Relayed ''h'' 80 [] (concat (map line_end [''GET /x HTTP/1.1'', ''Connection: keep-alive'']) @ crlf) demo_request"
  by (subst serve_short [OF demo_request_head(2)]) (simp_all add: demo_request_head(3), code_simp)

text \<open>A name of 256 bytes is announced with length zero.\<close>

lemma socks5_request_truncates: "socks5_request (replicate 256 c) p ! 4 = byte 0"
  by (simp add: socks5_request_def byte_def)

end
