(* ===== verification/Config_Text.thy ===== *)
theory Config_Text
  imports Text_Util
begin

text \<open>
  The text of configuration files: the expansion of \<open>${VAR}\<close> (\<open>config/src/loader.rs\<close>), messages that keep values out of errors, and the
  removal of a job's block from a file (\<open>config/src/jobfile.rs\<close>). Characters are bytes; the limit on the size of the expanded text is part of the model.
\<close>

section \<open>Definitions\<close>

record ConfigError =
  ce_file :: string
  ce_line :: nat
  ce_message :: string

definition config_error :: "string \<Rightarrow> nat \<Rightarrow> string \<Rightarrow> ConfigError" where
  "config_error f l m = \<lparr>ce_file = f, ce_line = l, ce_message = m\<rparr>"

definition MAX_CONFIG_BYTES :: nat where "MAX_CONFIG_BYTES = 16 * 1024 * 1024"

subsection \<open>Variables\<close>

datatype scan_state = Code | BasicString | LiteralString

text \<open>\<open>try_expand\<close> behind a dollar sign: what is written and the input that is left.\<close>

definition try_expand :: "(string \<Rightarrow> string option) \<Rightarrow> string \<Rightarrow> nat \<Rightarrow> string \<Rightarrow> ConfigError + (string \<times> string)" where
  "try_expand vars f line s =
     (case s of
        [] \<Rightarrow> Ok (''$'', [])
      | c # r \<Rightarrow>
          if c = CHR ''$''
          then (case r of d # r' \<Rightarrow> if d = CHR ''{'' then Ok (''${'', r') else Ok (''$'', r) | [] \<Rightarrow> Ok (''$'', []))
          else if c \<noteq> CHR ''{'' then Ok (''$'', s)
          else (case split_once (CHR ''}'') r of
                  None \<Rightarrow> Err (config_error f line ''unterminated ${...}'')
                | Some (n, r') \<Rightarrow>
                    if n = [] then Err (config_error f line ''empty variable name in ${}'')
                    else (case vars n of
                            Some v \<Rightarrow> Ok (v, r')
                          | None \<Rightarrow> Err (config_error f line (''environment variable `'' @ n @ ''` is not set'')))))"

text \<open>A comment up to and including its newline.\<close>

definition comment_split :: "string \<Rightarrow> string \<times> string" where
  "comment_split s = (case split_once (CHR 0x0A) s of Some (a, b) \<Rightarrow> (a @ [CHR 0x0A], b) | None \<Rightarrow> (s, []))"

definition newlines :: "string \<Rightarrow> nat" where
  "newlines s = length (filter (\<lambda>c. c = CHR 0x0A) s)"

lemma try_expand_shorter: "try_expand vars f line s = Inr (v, r) \<Longrightarrow> length r \<le> length s"
  by (auto simp: try_expand_def dest!: split_once_SomeD split: list.splits if_splits option.splits)

lemma comment_split_shorter: "length (snd (comment_split s)) \<le> length s"
  by (auto simp: comment_split_def dest!: split_once_SomeD split: option.splits)

text \<open>The scanner: state, escape flag, line and output so far.\<close>

function expand_loop :: "(string \<Rightarrow> string option) \<Rightarrow> string \<Rightarrow> scan_state \<Rightarrow> bool \<Rightarrow> nat \<Rightarrow> string \<Rightarrow> string \<Rightarrow> ConfigError + string" where
  "expand_loop vars f st esc line out [] = Ok out"
| "expand_loop vars f st esc line out (c # s) =
     (if length out > MAX_CONFIG_BYTES then Err (config_error f line ''expanded configuration exceeds 16 MiB'')
      else case st of
        BasicString \<Rightarrow>
          if esc then expand_loop vars f st False line (out @ [c]) s
          else if c = CHR 0x5C then expand_loop vars f st True line (out @ [c]) s
          else if c = CHR 0x22 then expand_loop vars f Code esc line (out @ [c]) s
          else if c = CHR ''$'' then (case try_expand vars f line s of Inl e \<Rightarrow> Err e | Inr (v, r) \<Rightarrow> expand_loop vars f st esc line (out @ v) r)
          else expand_loop vars f st esc line (out @ [c]) s
      | LiteralString \<Rightarrow> expand_loop vars f (if c = CHR 0x27 then Code else st) esc line (out @ [c]) s
      | Code \<Rightarrow>
          if c = CHR ''#'' then expand_loop vars f st esc (line + newlines (fst (comment_split s))) (out @ [c] @ fst (comment_split s)) (snd (comment_split s))
          else if c = CHR 0x22 then expand_loop vars f BasicString esc line (out @ [c]) s
          else if c = CHR 0x27 then expand_loop vars f LiteralString esc line (out @ [c]) s
          else if c = CHR ''$'' then (case try_expand vars f line s of Inl e \<Rightarrow> Err e | Inr (v, r) \<Rightarrow> expand_loop vars f st esc line (out @ v) r)
          else if c = CHR 0x0A then expand_loop vars f st esc (line + 1) (out @ [c]) s
          else expand_loop vars f st esc line (out @ [c]) s)"
  by pat_completeness auto

termination
  by (relation "measure (\<lambda>(vars, f, st, esc, line, out, s). length s)")
     (use comment_split_shorter in \<open>auto simp: less_Suc_eq_le dest!: try_expand_shorter\<close>)

definition expand_env :: "(string \<Rightarrow> string option) \<Rightarrow> string \<Rightarrow> string \<Rightarrow> ConfigError + string" where
  "expand_env vars f s = expand_loop vars f Code False 1 [] s"

subsection \<open>Messages\<close>

definition is_word_char :: "char \<Rightarrow> bool" where
  "is_word_char c \<longleftrightarrow> is_digit c \<or> (let n = (of_char (to_lower c) :: nat) in 97 \<le> n \<and> n \<le> 122) \<or> c = CHR ''_''"

definition field_message :: "string \<Rightarrow> string \<Rightarrow> string option" where
  "field_message pre msg =
     (case split_once_str pre msg of
        None \<Rightarrow> None
      | Some (_, rest) \<Rightarrow>
          (let field = hd (split_char (CHR 0x60) rest)
           in if length field < 128 \<and> list_all is_word_char field then Some (pre @ field @ [CHR 0x60]) else None))"

definition safe_parse_error :: "string \<Rightarrow> string" where
  "safe_parse_error msg =
     (case field_message (''unknown field '' @ [CHR 0x60]) msg of
        Some m \<Rightarrow> m
      | None \<Rightarrow> (case field_message (''missing field '' @ [CHR 0x60]) msg of
                   Some m \<Rightarrow> m
                 | None \<Rightarrow> ''invalid configuration value (source omitted to protect secrets)''))"

definition line_of :: "string \<Rightarrow> nat option \<Rightarrow> nat" where
  "line_of s start_at = (case start_at of None \<Rightarrow> 0 | Some start \<Rightarrow> newlines (take start s) + 1)"

subsection \<open>Blocks of jobs\<close>

definition JOBS :: string where "JOBS = ''[[jobs]]''"

text \<open>\<open>str::split(pat)\<close> for a non-empty pattern.\<close>

function split_str :: "string \<Rightarrow> string \<Rightarrow> string list" where
  "split_str p s =
     (if p = [] then [s]
      else case find_str p s of None \<Rightarrow> [s] | Some i \<Rightarrow> take i s # split_str p (drop (i + length p) s))"
  by pat_completeness auto

termination
  by (relation "measure (\<lambda>(p, s). length s)") (use find_str_drop_shorter in auto)

declare split_str.simps [simp del]

definition job_needle :: "string \<Rightarrow> string" where
  "job_needle n = ''name = '' @ [CHR 0x22] @ n @ [CHR 0x22]"

definition starts_section :: "string \<Rightarrow> bool" where
  "starts_section line = (let t = trim line in starts_with ''['' t \<and> \<not> starts_with ''[jobs.'' t \<and> \<not> starts_with JOBS t)"

text \<open>The scan over the lines behind the first one, with the offset of each; \<open>part\<close> is the whole block.\<close>

fun section_from :: "string \<Rightarrow> nat \<Rightarrow> nat \<Rightarrow> string list \<Rightarrow> string option" where
  "section_from part i offset [] = None"
| "section_from part i offset (line # ls) =
     (if 0 < i \<and> starts_section line then Some (drop offset part)
      else let o1 = offset + length line in section_from part (i + 1) (if o1 < length part then o1 + 1 else o1) ls)"

definition trailing_non_job :: "string \<Rightarrow> string option" where
  "trailing_non_job part = section_from part 0 0 (str_lines part)"

fun collapse_lines :: "nat \<Rightarrow> string list \<Rightarrow> string list" where
  "collapse_lines blanks [] = []"
| "collapse_lines blanks (l # ls) =
     (if trim l = [] then (if blanks + 1 > 1 then collapse_lines (blanks + 1) ls else l # collapse_lines (blanks + 1) ls)
      else l # collapse_lines 0 ls)"

definition collapse_blank_lines :: "string \<Rightarrow> string" where
  "collapse_blank_lines s = concat (map (\<lambda>l. l @ [CHR 0x0A]) (collapse_lines 0 (str_lines s)))"

definition strip_job_blocks :: "string \<Rightarrow> string \<Rightarrow> string option" where
  "strip_job_blocks s n =
     (let parts = split_str JOBS s in
      if length parts = 1 \<or> \<not> list_ex (contains_str (job_needle n)) (tl parts) then None
      else Some (collapse_blank_lines (hd parts
             @ concat (map (\<lambda>part. if contains_str (job_needle n) part then opt_default [] (trailing_non_job part) else JOBS @ part) (tl parts)))))"

definition only_blank_or_comments :: "string \<Rightarrow> bool" where
  "only_blank_or_comments s \<longleftrightarrow> list_all (\<lambda>l. trim l = [] \<or> starts_with ''#'' (trim l)) (str_lines s)"

section \<open>Laws\<close>

subsection \<open>Expansion\<close>

text \<open>A text without a dollar sign is not changed, whatever its quotes and comments.\<close>

lemma comment_split_append: "fst (comment_split s) @ snd (comment_split s) = s"
  by (auto simp: comment_split_def dest!: split_once_SomeD split: option.splits)

lemma expand_loop_no_dollar:
  "CHR ''$'' \<notin> set s \<Longrightarrow> length (out @ s) \<le> MAX_CONFIG_BYTES \<Longrightarrow> expand_loop vars f st esc line out s = Inr (out @ s)"
proof (induction "length s" arbitrary: s st esc line out rule: less_induct)
  case less
  show ?case
  proof (cases s)
    case (Cons c r)
    let ?a = "fst (comment_split r)" and ?b = "snd (comment_split r)"
    have ab: "?a @ ?b = r" by (rule comment_split_append)
    then have len: "length ?a + length ?b = length r" by (metis length_append)
    have "CHR ''$'' \<notin> set ?b" using less.prems(1) ab by (metis Cons Un_iff list.set_intros(2) set_append)
    then have comment: "expand_loop vars f st' e l (out @ c # ?a) ?b = Inr (out @ s)" for st' e l
      using less.hyps [of ?b "out @ c # ?a" st' e l] less.prems(2) len ab by (simp add: Cons)
    have plain: "expand_loop vars f st' e l (out @ [c]) r = Inr (out @ s)" for st' e l
      using less.hyps [of r "out @ [c]" st' e l] less.prems by (simp add: Cons)
    have "c \<noteq> CHR ''$''" "\<not> MAX_CONFIG_BYTES < length out" using less.prems by (auto simp: Cons)
    with comment plain show ?thesis unfolding Cons by (cases st) auto
  qed simp
qed

lemma expand_env_no_dollar: "CHR ''$'' \<notin> set s \<Longrightarrow> length s \<le> MAX_CONFIG_BYTES \<Longrightarrow> expand_env vars f s = Inr s"
  by (simp add: expand_env_def expand_loop_no_dollar)

text \<open>Doubling the dollar signs protects a text outside of quotes and comments.\<close>

definition escape_dollars :: "string \<Rightarrow> string" where
  "escape_dollars s = concat (map (\<lambda>c. if c = CHR ''$'' then ''$$'' else [c]) s)"

definition unquoted :: "string \<Rightarrow> bool" where
  "unquoted s \<longleftrightarrow> CHR ''#'' \<notin> set s \<and> CHR 0x22 \<notin> set s \<and> CHR 0x27 \<notin> set s"

lemma escape_dollars_simps [simp]:
  "escape_dollars [] = []" "escape_dollars (c # s) = (if c = CHR ''$'' then ''$$'' else [c]) @ escape_dollars s"
  by (simp_all add: escape_dollars_def)

lemma expand_escaped:
  "unquoted s \<Longrightarrow> length (out @ s) \<le> MAX_CONFIG_BYTES \<Longrightarrow> expand_loop vars f Code False line out (escape_dollars s) = Inr (out @ s)"
proof (induction "length s" arbitrary: s out line rule: less_induct)
  case less
  show ?case
  proof (cases s)
    case (Cons c r)
    have r: "unquoted r" using less.prems(1) by (simp add: Cons unquoted_def)
    have step: "expand_loop vars f Code False l (out @ [c]) (escape_dollars r) = Inr (out @ s)" for l
      using less.hyps [of r "out @ [c]" l] less.prems(2) r by (simp add: Cons)
    show ?thesis
    proof (cases "c = CHR ''$''")
      case False
      with less.prems step show ?thesis by (auto simp: Cons unquoted_def)
    next
      case True
      show ?thesis
      proof (cases "\<exists>r'. r = CHR ''{'' # r'")
        case True
        then obtain r' where r': "r = CHR ''{'' # r'" by blast
        have "expand_loop vars f Code False l (out @ ''${'') (escape_dollars r') = Inr (out @ s)" for l
          using less.hyps [of r' "out @ ''${''" l] less.prems r r' \<open>c = CHR ''$''\<close> by (simp add: Cons unquoted_def)
        with \<open>c = CHR ''$''\<close> r' less.prems(2) show ?thesis by (simp add: Cons try_expand_def)
      next
        case False
        then have "try_expand vars f line (CHR ''$'' # escape_dollars r) = Inr (''$'', escape_dollars r)"
          by (cases r) (auto simp: try_expand_def)
        with \<open>c = CHR ''$''\<close> step less.prems(2) show ?thesis by (simp add: Cons)
      qed
    qed
  qed simp
qed

lemma expand_env_escape: "unquoted s \<Longrightarrow> length s \<le> MAX_CONFIG_BYTES \<Longrightarrow> expand_env vars f (escape_dollars s) = Inr s"
  by (simp add: expand_env_def expand_escaped)

text \<open>An unset variable is an error at its line.\<close>

lemma expand_unset: "CHR ''}'' \<notin> set n \<Longrightarrow> n \<noteq> [] \<Longrightarrow> vars n = None \<Longrightarrow>
    expand_env vars f (''${'' @ n @ ''}'' @ rest) = Inl (config_error f 1 (''environment variable `'' @ n @ ''` is not set''))"
  by (simp add: expand_env_def try_expand_def split_once_append)

subsection \<open>Messages\<close>

text \<open>A message names a field or says nothing about the input.\<close>

lemma safe_parse_error_cases:
  "safe_parse_error msg = ''invalid configuration value (source omitted to protect secrets)''
   \<or> (\<exists>field. list_all is_word_char field \<and> length field < 128
        \<and> safe_parse_error msg \<in> {''unknown field '' @ [CHR 0x60] @ field @ [CHR 0x60], ''missing field '' @ [CHR 0x60] @ field @ [CHR 0x60]})"
  by (auto simp: safe_parse_error_def field_message_def Let_def split: option.splits if_splits)

end
