(* ===== verification/Config_Job.thy ===== *)
theory Config_Job
  imports Job_Model Config_Text
begin

text \<open>
  One job of the configuration: \<open>config/src/loader.rs\<close>, \<open>resolve_job\<close> with \<open>resolve_schedule\<close> and \<open>resolve_provider\<close>, over the
  document of a job (\<open>config/src/schema.rs\<close>). The record \<open>config_lib\<close> has what the loader asks of libraries: regular expressions, time
  zones, times of day, addresses, the names of listing parsers and the variables of the environment. Of a message that quotes another
  parser's error only the fixed part is kept; the panic of the duration parser is one of its errors.
\<close>

section \<open>Definitions\<close>

record config_lib =
  cl_regex_ok :: "string \<Rightarrow> bool"
  cl_timezone :: "string \<Rightarrow> bool"
  cl_time_parse :: "string \<Rightarrow> int option"        \<comment> \<open>\<open>Time::parse\<close> with hours, minutes and seconds\<close>
  cl_parser_known :: "string \<Rightarrow> bool"
  cl_socket :: "string \<Rightarrow> string option"
  cl_var :: "string \<Rightarrow> string option"

datatype TomlDuration = Seconds nat | Human string

record JobDoc =
  jd_name :: string
  jd_enabled :: bool
  jd_worker :: "string option"
  jd_provider :: "string option"
  jd_options :: "string list"
  jd_exclude :: "string list"
  jd_stage1_profile :: "string option"
  jd_command :: "string option"
  jd_image :: "string option"
  jd_docker_options :: "string list"
  jd_env :: "string list"
  jd_volumes :: "string list"
  jd_keep_container :: bool
  jd_docker_network :: "string option"
  jd_docker_command :: "string list"
  jd_branch :: "string option"
  jd_parser :: "string option"
  jd_delete :: bool
  jd_warn_on_forbidden_files :: bool
  jd_threads :: "nat option"
  jd_upstream :: "string option"
  jd_storage :: "string option"
  jd_mirror_subdir :: "string option"
  jd_storage_name :: "string option"
  jd_proxy :: "string option"
  jd_egress :: "string option"
  jd_family :: string
  jd_timeout :: "TomlDuration option"
  jd_retry :: nat
  jd_retry_delay :: string
  jd_retry_backoff :: f64
  jd_success_exit_codes :: "int list"
  jd_fail_on_match :: "string option"
  jd_max_concurrency :: nat
  jd_misfire_policy :: string
  jd_on_worker_lost :: string
  jd_timezone :: string
  jd_statistics :: string
  jd_resources :: "string list"
  jd_priority :: int
  jd_schedule :: "string option"
  jd_cron :: "string option"
  jd_at :: "string option"
  jd_weekday :: "string option"
  jd_every :: "string option"
  jd_hooks :: Hooks
  jd_safety :: Safety
  jd_snapshot_policy :: string
  jd_snapshot_failure :: SnapshotFailure
  jd_verify :: VerifyConfig
  jd_memory_limit :: "string option"
  jd_cpu_limit :: "f64 option"
  jd_depends_on :: "string list"

subsection \<open>Small steps\<close>

definition check :: "bool \<Rightarrow> string \<Rightarrow> string + unit" where
  "check b m = (if b then Ok () else Err m)"

definition required :: "'a option \<Rightarrow> string \<Rightarrow> string + 'a" where
  "required v m = (case v of None \<Rightarrow> Err m | Some x \<Rightarrow> Ok x)"

definition relabel :: "string \<Rightarrow> 'e + 'a \<Rightarrow> string + 'a" where
  "relabel m r = (case r of Inl _ \<Rightarrow> Err m | Inr x \<Rightarrow> Ok x)"

definition one_of :: "(string \<times> 'a) list \<Rightarrow> string \<Rightarrow> string \<Rightarrow> string + 'a" where
  "one_of table v m = required (map_of table v) m"

subsection \<open>Schedule\<close>

definition parse_time_at :: "config_lib \<Rightarrow> string \<Rightarrow> int option" where
  "parse_time_at L s = cl_time_parse L (if length (split_char (CHR '':'') s) = 2 then s @ '':00'' else s)"

definition schedule_fields :: "string \<Rightarrow> string list" where
  "schedule_fields kind =
     (if kind = ''cron'' then [''cron''] else if kind = ''daily'' then [''at''] else if kind = ''weekly'' then [''weekday'', ''at'']
      else if kind = ''interval'' then [''every''] else [])"

definition resolve_kind :: "config_lib \<Rightarrow> JobDoc \<Rightarrow> string \<Rightarrow> string + ScheduleKind" where
  "resolve_kind L doc kind =
     (if kind = ''cron'' then
        and_then (required (jd_cron doc) ''schedule = \"cron\" requires `cron`'') (\<lambda>e.
        and_then (relabel ''invalid cron expression'' (parse_cron_expr e)) (\<lambda>expr. Ok (Cron expr)))
      else if kind = ''daily'' then
        and_then (required (jd_at doc) ''schedule = \"daily\" requires `at`'') (\<lambda>a.
        and_then (required (parse_time_at L a) ''invalid time'') (\<lambda>t. Ok (Daily t)))
      else if kind = ''weekly'' then
        and_then (required (jd_weekday doc) ''schedule = \"weekly\" requires `weekday`'') (\<lambda>d.
        and_then (required (jd_at doc) ''schedule = \"weekly\" requires `at`'') (\<lambda>a.
        and_then (required (parse_weekday d) ''invalid weekday'') (\<lambda>wd.
        and_then (required (parse_time_at L a) ''invalid time'') (\<lambda>t. Ok (Weekly wd t)))))
      else if kind = ''interval'' then
        and_then (required (jd_every doc) ''schedule = \"interval\" requires `every`'') (\<lambda>e.
        and_then (relabel ''invalid duration'' (parse_duration_human e)) (\<lambda>d. Ok (Interval d)))
      else if kind = ''manual'' then Ok Manual
      else if kind = ''startup'' then Ok Startup
      else Err (''invalid schedule `'' @ kind @ ''`: expected cron|daily|weekly|interval|manual|startup''))"

definition foreign_field :: "JobDoc \<Rightarrow> string \<Rightarrow> string option" where
  "foreign_field doc kind =
     head_opt (filter (\<lambda>f. f \<notin> set (schedule_fields kind))
       (filter_map (\<lambda>(f, v). map_option (\<lambda>_. f) v)
          [(''cron'', jd_cron doc), (''at'', jd_at doc), (''weekday'', jd_weekday doc), (''every'', jd_every doc)]))"

definition resolve_schedule :: "config_lib \<Rightarrow> JobDoc \<Rightarrow> string + Schedule" where
  "resolve_schedule L doc =
     and_then (required (jd_schedule doc) ''missing required field `schedule`'') (\<lambda>kind.
     and_then (resolve_kind L doc kind) (\<lambda>k.
       case foreign_field doc kind of
         Some f \<Rightarrow> Err (''field `'' @ f @ ''` is not valid for schedule = \"'' @ kind @ ''\"'')
       | None \<Rightarrow> Ok \<lparr>sched_kind = k\<rparr>))"

subsection \<open>Provider\<close>

definition resolve_provider :: "config_lib \<Rightarrow> JobDoc \<Rightarrow> string + ProviderConfig" where
  "resolve_provider L doc =
     and_then (required (jd_provider doc) ''missing required field `provider`'') (\<lambda>p.
       if p = ''rsync'' then
         and_then (check (jd_upstream doc \<noteq> None) ''provider = \"rsync\" requires `upstream`'') (\<lambda>_. Ok (Rsync (jd_options doc) (jd_exclude doc)))
       else if p = ''two-stage-rsync'' then
         and_then (check (jd_upstream doc \<noteq> None) ''provider = \"two-stage-rsync\" requires `upstream`'') (\<lambda>_.
           let prof = opt_default ''debian'' (jd_stage1_profile doc) in
           and_then (check (prof \<in> set [''debian'', ''debian-oldstyle'']) (''invalid stage1_profile `'' @ prof @ ''`: expected debian|debian-oldstyle''))
             (\<lambda>_. Ok (TwoStageRsync (jd_options doc) (jd_exclude doc) prof)))
       else if p = ''git'' then
         and_then (check (jd_upstream doc \<noteq> None) ''provider = \"git\" requires `upstream` (repository URL)'') (\<lambda>_. Ok (Git (jd_branch doc)))
       else if p = ''script'' then
         and_then (required (jd_command doc) ''provider = \"script\" requires `command`'') (\<lambda>c. Ok (Script c (jd_env doc)))
       else if p = ''docker'' then
         and_then (required (jd_image doc) ''provider = \"docker\" requires `image`'') (\<lambda>i.
           Ok (Docker i (jd_docker_options doc) (jd_env doc) (jd_volumes doc) (jd_keep_container doc) (jd_docker_network doc) (jd_docker_command doc)))
       else if p = ''http'' then
         and_then (required (jd_parser doc) ''provider = \"http\" requires `parser`'') (\<lambda>q.
         and_then (check (cl_parser_known L q) (''unknown parser `'' @ q @ ''`'')) (\<lambda>_.
           Ok (Http q (jd_delete doc) (jd_warn_on_forbidden_files doc) (jd_threads doc) (jd_exclude doc))))
       else Err (''invalid provider `'' @ p @ ''`: expected rsync|script|docker|git|http''))"

subsection \<open>The other fields\<close>

definition name_plain :: "string \<Rightarrow> bool" where
  "name_plain n \<longleftrightarrow> \<not> (n = [] \<or> CHR ''/'' \<in> set n \<or> CHR 0x5C \<in> set n \<or> contains_str ''..'' n \<or> CHR 0x00 \<in> set n)"

definition segment_bad :: "string \<Rightarrow> bool" where
  "segment_bad c \<longleftrightarrow> c = [] \<or> c = ''..'' \<or> c = ''.''"

definition segments_ok :: "string \<Rightarrow> bool" where
  "segments_ok s \<longleftrightarrow> \<not> list_ex segment_bad (split_char (CHR ''/'') s)"

definition expand_name :: "string \<Rightarrow> string \<Rightarrow> string" where
  "expand_name n v = replace_str ''{{name}}'' n (replace_str ''{{.Name}}'' n v)"

definition parent_components :: "string \<Rightarrow> bool" where
  "parent_components p \<longleftrightarrow> ''..'' \<in> set (split_char (CHR ''/'') p)"

definition resolve_storage :: "JobDoc \<Rightarrow> string + string" where
  "resolve_storage doc =
     and_then (required (jd_storage doc) ''missing required field `storage`'') (\<lambda>raw.
     and_then (case jd_mirror_subdir doc of
                 None \<Rightarrow> Ok raw
               | Some sub \<Rightarrow> if segments_ok sub then Ok (trim_end_where is_slash raw @ ''/'' @ sub)
                             else Err (''invalid mirror_subdir `'' @ sub @ ''` (no .. or empty segments)'')) (\<lambda>path.
       let p = expand_name (jd_name doc) path in
       if parent_components p then Err (''storage path `'' @ p @ ''` must not contain `..`'') else Ok p))"

definition resolve_timeout :: "JobDoc \<Rightarrow> string + int option" where
  "resolve_timeout doc =
     (case jd_timeout doc of
        None \<Rightarrow> Ok None
      | Some (Seconds s) \<Rightarrow> Ok (Some (u64_as_i64 s))
      | Some (Human h) \<Rightarrow> and_then (relabel ''invalid timeout'' (parse_duration_human h)) (\<lambda>d. Ok (Some d)))"

definition mem_units :: "(char \<times> nat) list" where
  "mem_units = [(CHR ''K'', 1024), (CHR ''M'', 1024 ^ 2), (CHR ''G'', 1024 ^ 3), (CHR ''T'', 1024 ^ 4)]"

definition parse_mem :: "string \<Rightarrow> string + nat" where
  "parse_mem m =
     (let (num, mult) = (if m = [] then (m, 1024 ^ 2)
                         else case map_of mem_units (last m) of Some k \<Rightarrow> (butlast m, k) | None \<Rightarrow> (m, 1024 ^ 2))
      in case parse_unsigned u64_max num of
           Some n \<Rightarrow> Ok (min u64_max (n * mult))
         | None \<Rightarrow> Err (''invalid memory_limit `'' @ m @ ''`: expected like `4G` or `512M`''))"

definition misfire_names :: "(string \<times> MisfirePolicy) list" where
  "misfire_names = [(''skip'', MisfireSkip), (''run-immediately'', RunImmediately), (''run-next'', RunNext)]"

definition lost_names :: "(string \<times> OnWorkerLost) list" where
  "lost_names = [(''retry'', LostRetry), (''fail'', LostFail)]"

definition statistics_names :: "(string \<times> StatisticsMode) list" where
  "statistics_names = [(''provider'', StatProvider), (''filesystem'', StatFilesystem)]"

definition policy_names :: "(string \<times> SnapshotPolicy) list" where
  "policy_names = [(''never'', SnapNever), (''after-success'', AfterSuccess), (''before-sync'', BeforeSync),
                   (''before-and-after'', BeforeAndAfter), (''manual'', SnapManual)]"

subsection \<open>A job\<close>

text \<open>The checks in the order of the code; the error of a job is a message, to which \<open>resolve_job\<close> adds the file and the line.\<close>

definition job_of_doc :: "config_lib \<Rightarrow> JobDoc \<Rightarrow> string + JobSpec" where
  "job_of_doc L doc =
     and_then (check (name_plain (jd_name doc)) (''invalid job name `'' @ jd_name doc @ ''`: must be non-empty, no path separators, `..`, or NUL'')) (\<lambda>_.
     and_then (resolve_schedule L doc) (\<lambda>sch.
     and_then (resolve_provider L doc) (\<lambda>prov.
     and_then (resolve_storage doc) (\<lambda>path.
     and_then (resolve_timeout doc) (\<lambda>tmo.
     and_then (relabel ''invalid retry_delay'' (parse_duration_human (jd_retry_delay doc))) (\<lambda>rdelay.
     and_then (check (\<not> f64_lt (jd_retry_backoff doc) (Fin 1)) ''retry_backoff must be >= 1.0'') (\<lambda>_.
     and_then (check (case jd_fail_on_match doc of None \<Rightarrow> True | Some re \<Rightarrow> cl_regex_ok L re) ''invalid fail_on_match regex'') (\<lambda>_.
     and_then (one_of misfire_names (jd_misfire_policy doc) (''invalid misfire_policy `'' @ jd_misfire_policy doc @ ''`: expected skip|run-immediately|run-next'')) (\<lambda>misfire.
     and_then (one_of lost_names (jd_on_worker_lost doc) (''invalid on_worker_lost `'' @ jd_on_worker_lost doc @ ''`: expected retry|fail'')) (\<lambda>lost.
     and_then (check (cl_timezone L (jd_timezone doc)) (''unknown timezone `'' @ jd_timezone doc @ ''`'')) (\<lambda>_.
     and_then (one_of statistics_names (jd_statistics doc) (''invalid statistics `'' @ jd_statistics doc @ ''`: expected provider|filesystem'')) (\<lambda>stats.
     and_then (case jd_memory_limit doc of None \<Rightarrow> Ok None | Some m \<Rightarrow> and_then (parse_mem m) (\<lambda>n. Ok (Some n))) (\<lambda>mem.
     and_then (check (jd_family doc \<in> set [''ipv4'', ''ipv6'', ''any'']) (''invalid family `'' @ jd_family doc @ ''`: expected ipv4|ipv6|any'')) (\<lambda>_.
     and_then (one_of policy_names (jd_snapshot_policy doc)
       (''invalid snapshot policy `'' @ jd_snapshot_policy doc @ ''`: expected never|after-success|before-sync|before-and-after|manual'')) (\<lambda>pol.
     and_then (check (jd_name doc \<notin> set (jd_depends_on doc)) (''job `'' @ jd_name doc @ ''` cannot depend on itself'')) (\<lambda>_.
     and_then (check (segments_ok (jd_name doc) \<and> \<not> starts_with ''.'' (jd_name doc)) (''invalid job name `'' @ jd_name doc @ ''` (no `..`, `.`, or leading-dot segments)'')) (\<lambda>_.
       Ok \<lparr>name = jd_name doc, enabled = jd_enabled doc, worker = jd_worker doc, provider = prov, upstream = map_option (expand_name (jd_name doc)) (jd_upstream doc),
           storage = path, mirror_subdir = jd_mirror_subdir doc, storage_name = jd_storage_name doc, proxy = jd_proxy doc, egress = jd_egress doc,
           family = jd_family doc, timeout = tmo, retry = jd_retry doc, retry_delay = rdelay, retry_backoff = jd_retry_backoff doc,
           success_exit_codes = jd_success_exit_codes doc, fail_on_match = jd_fail_on_match doc, max_concurrency = max (jd_max_concurrency doc) 1,
           misfire_policy = misfire, on_worker_lost = lost, timezone = jd_timezone doc, statistics = stats, resources = jd_resources doc,
           priority = jd_priority doc, schedule = sch, hooks = jd_hooks doc, safety = jd_safety doc, memory_limit = mem, cpu_limit = jd_cpu_limit doc,
           depends_on = jd_depends_on doc, snapshot_policy = pol, snapshot_failure = jd_snapshot_failure doc, verify = jd_verify doc\<rparr>)))))))))))))))))"

definition resolve_job :: "config_lib \<Rightarrow> JobDoc \<Rightarrow> string \<Rightarrow> nat \<Rightarrow> ConfigError + JobSpec" where
  "resolve_job L doc f line = (case job_of_doc L doc of Inl m \<Rightarrow> Err (config_error f line m) | Inr job \<Rightarrow> Ok job)"

text \<open>\<open>validate_job_text\<close> once the text is a document.\<close>

definition validate_job_doc :: "config_lib \<Rightarrow> JobDoc \<Rightarrow> ConfigError + unit" where
  "validate_job_doc L doc = and_then (resolve_job L doc ''<editor>'' 1) (\<lambda>_. Ok ())"

section \<open>Laws\<close>

lemma check_Ok [simp]: "check b m = Inr u \<longleftrightarrow> b"
  by (cases u) (simp add: check_def)

lemma required_Ok [simp]: "required v m = Inr x \<longleftrightarrow> v = Some x"
  by (auto simp: required_def split: option.splits)

lemma relabel_Ok [simp]: "relabel m r = Inr x \<longleftrightarrow> r = Inr x"
  by (auto simp: relabel_def split: sum.splits)

lemma one_of_Ok [simp]: "one_of table v m = Inr x \<longleftrightarrow> map_of table v = Some x"
  by (simp add: one_of_def)

text \<open>What an accepted document and its job satisfy.\<close>

lemma job_of_docD:
  assumes "job_of_doc L doc = Inr job"
  shows "name job = jd_name doc" "name_plain (jd_name doc)" "\<not> starts_with ''.'' (jd_name doc)"
    "resolve_schedule L doc = Inr (schedule job)" "resolve_provider L doc = Inr (provider job)" "resolve_storage doc = Inr (storage job)"
    "upstream job = map_option (expand_name (jd_name doc)) (jd_upstream doc)" "\<not> f64_lt (retry_backoff job) (Fin 1)"
    "cl_timezone L (timezone job)" "family job \<in> {''ipv4'', ''ipv6'', ''any''}" "name job \<notin> set (depends_on job)" "1 \<le> max_concurrency job"
  using assms by (auto simp: job_of_doc_def and_then_Inr)

lemma resolve_storage_no_parent: "resolve_storage doc = Inr p \<Longrightarrow> ''..'' \<notin> set (split_char (CHR ''/'') p)"
  by (auto simp: resolve_storage_def and_then_Inr parent_components_def Let_def split: option.splits if_splits)

lemma resolve_provider_upstream:
  assumes "resolve_provider L doc = Inr p"
  shows "case p of Rsync _ _ \<Rightarrow> jd_upstream doc \<noteq> None | Git _ \<Rightarrow> jd_upstream doc \<noteq> None
     | TwoStageRsync _ _ prof \<Rightarrow> jd_upstream doc \<noteq> None \<and> prof \<in> {''debian'', ''debian-oldstyle''}
     | Http q _ _ _ _ \<Rightarrow> cl_parser_known L q | _ \<Rightarrow> True"
  using assms by (auto simp: resolve_provider_def and_then_Inr Let_def split: if_splits)

text \<open>The fields of a schedule belong to its kind.\<close>

lemma foreign_field_None:
  "foreign_field doc kind = None \<longleftrightarrow>
     (jd_cron doc = None \<or> kind = ''cron'') \<and> (jd_at doc = None \<or> kind = ''daily'' \<or> kind = ''weekly'')
     \<and> (jd_weekday doc = None \<or> kind = ''weekly'') \<and> (jd_every doc = None \<or> kind = ''interval'')"
  by (cases "jd_cron doc"; cases "jd_at doc"; cases "jd_weekday doc"; cases "jd_every doc") (auto simp: foreign_field_def schedule_fields_def)

lemma resolve_schedule_kind:
  assumes "resolve_schedule L doc = Inr sch"
  shows "case sched_kind sch of
      Cron e \<Rightarrow> \<exists>c. jd_cron doc = Some c \<and> parse_cron_expr c = Inr e | Daily t \<Rightarrow> \<exists>a. jd_at doc = Some a \<and> parse_time_at L a = Some t
    | Weekly d t \<Rightarrow> \<exists>wd a. jd_weekday doc = Some wd \<and> parse_weekday wd = Some d \<and> jd_at doc = Some a \<and> parse_time_at L a = Some t
    | Interval d \<Rightarrow> \<exists>e. jd_every doc = Some e \<and> parse_duration_human e = Inr d | Manual \<Rightarrow> jd_schedule doc = Some ''manual'' | Startup \<Rightarrow> jd_schedule doc = Some ''startup''"
  using assms by (auto simp: resolve_schedule_def resolve_kind_def and_then_Inr split: option.splits if_splits)

end
