(* ===== verification/Config_Loader.thy ===== *)
theory Config_Loader
  imports Config_Job Engine Netroute "HOL-Library.AList" "HOL-Library.List_Lexorder" "HOL-Library.Char_ord"
begin

text \<open>
  Loading a configuration: \<open>config/src/loader.rs\<close>. Files are read through a cache, their documents are merged in the order of the includes,
  jobs are taken out of them, and the result is checked and resolved; variables of the environment and options of the command line come last.
  The syntax of TOML and the mapping of tables to documents (serde) are parameters (\<open>le_parse\<close>, \<open>le_job\<close>, \<open>le_root\<close>), as are the file system and the
  glob library. The recursion over includes is bounded by the code's own depth limit.
\<close>

section \<open>Documents\<close>

text \<open>\<open>TTable\<close> and \<open>TTables\<close> are the tables and arrays of tables with headers, \<open>TInline\<close> and \<open>TArr\<close> the ones written as values.\<close>

datatype toml = TStr string | TInt int | TBool bool | TFloat f64 | TArr "toml list" | TInline "(string \<times> toml) list"
  | TTable "(string \<times> toml) list" | TTables "(string \<times> toml) list list"

type_synonym table = "(string \<times> toml) list"

fun as_str_value :: "toml \<Rightarrow> string option" where
  "as_str_value (TStr s) = Some s"
| "as_str_value _ = None"

fun as_integer_value :: "toml \<Rightarrow> int option" where
  "as_integer_value (TInt i) = Some i"
| "as_integer_value _ = None"

fun as_bool_value :: "toml \<Rightarrow> bool option" where
  "as_bool_value (TBool b) = Some b"
| "as_bool_value _ = None"

text \<open>Tables and arrays of a deserialised value, where the two ways to write them are the same.\<close>

fun as_table_value :: "toml \<Rightarrow> table option" where
  "as_table_value (TTable t) = Some t"
| "as_table_value (TInline t) = Some t"
| "as_table_value _ = None"

fun as_array_value :: "toml \<Rightarrow> toml list option" where
  "as_array_value (TArr vs) = Some vs"
| "as_array_value (TTables ts) = Some (map TTable ts)"
| "as_array_value _ = None"

function merge_table :: "table \<Rightarrow> table \<Rightarrow> table" where
  "merge_table dst [] = dst"
| "merge_table dst ((k, v) # src) =
     merge_table
       (AList.update k (case map_of dst k of
                          Some (TTable d) \<Rightarrow> (case v of TTable s \<Rightarrow> TTable (merge_table d s) | _ \<Rightarrow> v)
                        | _ \<Rightarrow> v) dst) src"
  by pat_completeness auto

termination
  by (relation "measure (\<lambda>(dst, src). size_list (size_prod (\<lambda>_. 0) size) src)") auto

declare merge_table.simps [simp del]

definition merge_doc :: "table option \<Rightarrow> table \<Rightarrow> table option" where
  "merge_doc dst src = Some (case dst of None \<Rightarrow> src | Some d \<Rightarrow> merge_table d src)"

section \<open>Reading a file\<close>

record 's CachedDocument =
  cd_stamp :: 's
  cd_raw :: string
  cd_expanded :: string
  cd_doc :: table
  cd_job_lines :: "nat list"
  cd_include_line :: nat

text \<open>Positions in a text that the parser keeps: of the tables under \<open>jobs\<close>, of the keys \<open>name\<close> and \<open>include\<close>.\<close>

record doc_spans =
  sp_jobs :: "nat option list"
  sp_name :: "nat option"
  sp_include :: "nat option"

text \<open>\<open>le_parse\<close> gives a document with its positions, or the position of a syntax error.\<close>

record 's load_env =
  le_stamp :: "string \<Rightarrow> 's option"
  le_file :: "string \<Rightarrow> string option"
  le_vars :: "string \<Rightarrow> string option"
  le_parse :: "string \<Rightarrow> nat option + (table \<times> doc_spans)"
  le_job :: "table \<Rightarrow> string + JobDoc"
  le_glob :: "string \<Rightarrow> string + (string + string) list"
  le_exists :: "string \<Rightarrow> bool"
  le_parent :: "string \<Rightarrow> string"
  le_join :: "string \<Rightarrow> string \<Rightarrow> string"

definition MAX_INCLUDE_DEPTH :: nat where "MAX_INCLUDE_DEPTH = 32"
definition MAX_CONFIG_FILES :: nat where "MAX_CONFIG_FILES = 1024"

type_synonym 's doc_cache = "(string \<times> 's CachedDocument) list"

text \<open>The lines of the jobs of a document, in the order in which they are extracted.\<close>

definition job_line_numbers :: "table \<Rightarrow> doc_spans \<Rightarrow> string \<Rightarrow> nat list" where
  "job_line_numbers doc sp s =
     (case map_of doc ''jobs'' of Some (TTables _) \<Rightarrow> map (line_of s) (sp_jobs sp) | _ \<Rightarrow> [])
     @ (if map_of doc ''provider'' = None then [] else [case sp_name sp of None \<Rightarrow> 1 | Some p \<Rightarrow> line_of s (Some p)])"

definition parse_document :: "'s load_env \<Rightarrow> string \<Rightarrow> nat option + (table \<times> nat list \<times> nat)" where
  "parse_document E expanded =
     (case le_parse E expanded of
        Inl pos \<Rightarrow> Err pos
      | Inr (doc, sp) \<Rightarrow> Ok (doc, job_line_numbers doc sp expanded, line_of expanded (sp_include sp)))"

definition fresh_document :: "'s load_env \<Rightarrow> string \<Rightarrow> 's \<Rightarrow> string \<Rightarrow> ConfigError + 's CachedDocument" where
  "fresh_document E path stamp raw =
     and_then (expand_env (le_vars E) path raw) (\<lambda>expanded.
       case parse_document E expanded of
         Inl pos \<Rightarrow> Err (config_error path (line_of expanded pos) ''TOML syntax error (source omitted to protect secrets)'')
       | Inr (doc, lines, inc) \<Rightarrow> Ok \<lparr>cd_stamp = stamp, cd_raw = raw, cd_expanded = expanded, cd_doc = doc, cd_job_lines = lines, cd_include_line = inc\<rparr>)"

definition store_document :: "string \<Rightarrow> 's CachedDocument \<Rightarrow> 's doc_cache \<Rightarrow> 's doc_cache" where
  "store_document path d cache =
     AList.update path d
       (if length cache \<ge> MAX_CONFIG_FILES
           \<or> sum_list (map (\<lambda>(_, v). length (cd_raw v) + length (cd_expanded v)) cache) + length (cd_raw d) + length (cd_expanded d) > MAX_CONFIG_BYTES * 2
        then [] else cache)"

definition read_document :: "'s load_env \<Rightarrow> string \<Rightarrow> 's doc_cache \<Rightarrow> (ConfigError + 's CachedDocument) \<times> 's doc_cache" where
  "read_document E path cache =
     (case le_stamp E path of
        None \<Rightarrow> (Err (config_error path 0 ''cannot read config file''), cache)
      | Some stamp \<Rightarrow>
          (case le_file E path of
             None \<Rightarrow> (Err (config_error path 0 ''cannot read config file''), cache)
           | Some raw \<Rightarrow>
               if length raw > MAX_CONFIG_BYTES then (Err (config_error path 0 ''configuration exceeds 16 MiB''), cache)
               else
                 (let hit = (case map_of cache path of Some d \<Rightarrow> if cd_stamp d = stamp \<and> raw = cd_raw d then Some d else None | None \<Rightarrow> None)
                  in case hit of
                       Some d \<Rightarrow>
                         (case expand_env (le_vars E) path raw of
                            Inl e \<Rightarrow> (Err e, cache)
                          | Inr x \<Rightarrow> if x = cd_expanded d then (Ok d, cache)
                                    else (case fresh_document E path stamp raw of
                                            Inl e \<Rightarrow> (Err e, cache) | Inr d' \<Rightarrow> (Ok d', store_document path d' cache)))
                     | None \<Rightarrow> (case fresh_document E path stamp raw of Inl e \<Rightarrow> (Err e, cache) | Inr d' \<Rightarrow> (Ok d', store_document path d' cache)))))"

section \<open>Includes\<close>

definition extract_include :: "table \<Rightarrow> string \<Rightarrow> nat \<Rightarrow> ConfigError + string list" where
  "extract_include doc f line =
     (case map_of doc ''include'' of
        None \<Rightarrow> Ok []
      | Some (TArr vs) \<Rightarrow> (case those (map as_str_value vs) of
                             Some ss \<Rightarrow> Ok ss
                           | None \<Rightarrow> Err (config_error f line ''`include` entries must be strings''))
      | Some _ \<Rightarrow> Err (config_error f line ''`include` must be an array of paths''))"

definition has_magic :: "string \<Rightarrow> bool" where
  "has_magic p \<longleftrightarrow> list_ex (\<lambda>c. c \<in> set ''*?['') p"

fun globbed :: "string \<Rightarrow> string \<Rightarrow> nat \<Rightarrow> (string + string) list \<Rightarrow> ConfigError + string list" where
  "globbed f pat n [] = Ok []"
| "globbed f pat n (Inl e # es) = Err (config_error f 0 (''include pattern `'' @ pat @ ''`: '' @ e))"
| "globbed f pat n (Inr p # es) =
     (if n \<ge> MAX_CONFIG_FILES then Err (config_error f 0 ''include pattern exceeds 1024 files'')
      else and_then (globbed f pat (n + 1) es) (\<lambda>ps. Ok (p # ps)))"

definition resolve_include :: "'s load_env \<Rightarrow> string \<Rightarrow> string \<Rightarrow> string \<Rightarrow> ConfigError + string list" where
  "resolve_include E pat base f =
     (let full = (if is_absolute pat then pat else le_join E base pat) in
      if has_magic pat
      then (case le_glob E full of
              Inl e \<Rightarrow> Err (config_error f 0 (''bad include pattern `'' @ pat @ ''`: '' @ e))
            | Inr entries \<Rightarrow>
                and_then (globbed f pat 0 entries) (\<lambda>ps.
                  if ps = [] then Err (config_error f 0 (''include pattern `'' @ pat @ ''` matched no files''))
                  else Ok (sort_key path_components ps)))
      else if \<not> le_exists E full then Err (config_error f 0 (''included file not found: '' @ full))
      else Ok [full])"

section \<open>Jobs of a file\<close>

record JobEntry =
  je_doc :: JobDoc
  je_file :: string
  je_line :: nat

definition nth_or :: "'a list \<Rightarrow> nat \<Rightarrow> 'a \<Rightarrow> 'a" where
  "nth_or xs i d = (if i < length xs then xs ! i else d)"

definition job_entry :: "'s load_env \<Rightarrow> string \<Rightarrow> nat \<Rightarrow> table \<Rightarrow> ConfigError + JobEntry" where
  "job_entry E f line t =
     (case le_job E t of
        Inl m \<Rightarrow> Err (config_error f line (safe_parse_error m))
      | Inr doc \<Rightarrow> Ok \<lparr>je_doc = doc, je_file = f, je_line = line\<rparr>)"

fun job_tables :: "'s load_env \<Rightarrow> string \<Rightarrow> nat list \<Rightarrow> nat \<Rightarrow> nat \<Rightarrow> table list \<Rightarrow> ConfigError + JobEntry list" where
  "job_tables E f job_lines line i [] = Ok []"
| "job_tables E f job_lines line i (t # ts) =
     and_then (job_entry E f (nth_or job_lines i line) t) (\<lambda>j. and_then (job_tables E f job_lines line (i + 1) ts) (\<lambda>js. Ok (j # js)))"

text \<open>The jobs of a document and what is left of it.\<close>

definition extract_jobs :: "'s load_env \<Rightarrow> table \<Rightarrow> string \<Rightarrow> nat list \<Rightarrow> ConfigError + (JobEntry list \<times> table)" where
  "extract_jobs E doc f job_lines =
     (let line = nth_or job_lines 0 0; doc1 = AList.delete ''jobs'' doc in
      and_then (case map_of doc ''jobs'' of
                  None \<Rightarrow> Ok []
                | Some (TTables ts) \<Rightarrow> job_tables E f job_lines line 0 ts
                | Some _ \<Rightarrow> Err (config_error f line ''`jobs` must be an array of tables''))
        (\<lambda>js. if map_of doc1 ''provider'' = None then Ok (js, doc1)
              else and_then (job_entry E f (if job_lines = [] then 1 else last job_lines) doc1) (\<lambda>j. Ok (js @ [j], []))))"

section \<open>Loading\<close>

record load_state =
  ls_files :: nat
  ls_bytes :: nat
  ls_stack :: "string set"
  ls_jobs :: "JobEntry list"
  ls_merged :: "table option"

fun fold_results :: "('a \<Rightarrow> 's \<Rightarrow> 'e + 's) \<Rightarrow> 'a list \<Rightarrow> 's \<Rightarrow> 'e + 's" where
  "fold_results f [] s = Ok s"
| "fold_results f (x # xs) s = and_then (f x s) (fold_results f xs)"

text \<open>What one file adds, without its includes: the state with the document merged, and the patterns it includes. A file is read without the cache, which is transparent.\<close>

definition load_own :: "'s load_env \<Rightarrow> bool \<Rightarrow> string \<Rightarrow> load_state \<Rightarrow> ConfigError + (load_state \<times> string list)" where
  "load_own E connection_only path st0 =
     (let st = st0\<lparr>ls_stack := insert path (ls_stack st0), ls_files := ls_files st0 + 1\<rparr> in
      if ls_files st > MAX_CONFIG_FILES then Err (config_error path 0 ''too many included files (limit 1024)'')
      else and_then (fst (read_document E path [])) (\<lambda>cd.
        if ls_bytes st + length (cd_raw cd) > MAX_CONFIG_BYTES then Err (config_error path 0 ''configuration exceeds 16 MiB'')
        else if ls_bytes st + length (cd_expanded cd) > MAX_CONFIG_BYTES then Err (config_error path 0 ''expanded configuration exceeds 16 MiB'')
        else and_then (extract_include (cd_doc cd) path (cd_include_line cd)) (\<lambda>inc.
          let doc = AList.delete ''include'' (cd_doc cd); st1 = st\<lparr>ls_bytes := ls_bytes st + length (cd_expanded cd)\<rparr> in
          if connection_only
          then (let doc1 = AList.delete ''jobs'' doc; doc2 = (if map_of doc1 ''provider'' = None then doc1 else [])
                in Ok (st1\<lparr>ls_merged := merge_doc (ls_merged st1) doc2\<rparr>, inc))
          else and_then (extract_jobs E doc path (cd_job_lines cd)) (\<lambda>(js, doc1).
                 Ok (st1\<lparr>ls_jobs := ls_jobs st1 @ js, ls_merged := merge_doc (ls_merged st1) doc1\<rparr>, inc)))))"

text \<open>The first argument is the number of levels that are left: \<open>MAX_INCLUDE_DEPTH + 1 - depth\<close>.\<close>

fun load_file :: "'s load_env \<Rightarrow> bool \<Rightarrow> nat \<Rightarrow> string \<Rightarrow> load_state \<Rightarrow> ConfigError + load_state" where
  "load_file E co 0 path st = Err (config_error path 0 ''include nesting too deep (cycle?)'')"
| "load_file E co (Suc n) path st =
     (if path \<in> ls_stack st then Err (config_error path 0 (''include cycle detected at '' @ path))
      else and_then (load_own E co path st) (\<lambda>(st1, inc).
        and_then (fold_results (\<lambda>pat s. and_then (resolve_include E pat (le_parent E path) path) (\<lambda>fs. fold_results (load_file E co n) fs s)) inc st1)
          (\<lambda>st2. Ok (st2\<lparr>ls_stack := ls_stack st2 - {path}\<rparr>))))"

definition empty_load :: load_state where
  "empty_load = \<lparr>ls_files = 0, ls_bytes = 0, ls_stack = {}, ls_jobs = [], ls_merged = None\<rparr>"

section \<open>Merging\<close>

text \<open>What a key holds after a merge: two tables are merged, otherwise the later document wins.\<close>

definition merge_value :: "toml option \<Rightarrow> toml \<Rightarrow> toml" where
  "merge_value d v = (case d of Some (TTable t) \<Rightarrow> (case v of TTable s \<Rightarrow> TTable (merge_table t s) | _ \<Rightarrow> v) | _ \<Rightarrow> v)"

lemma merge_table_Cons: "merge_table dst ((k, v) # src) = merge_table (AList.update k (merge_value (map_of dst k) v) dst) src"
  by (subst merge_table.simps) (simp add: merge_value_def)

lemma merge_table_Nil [simp]: "merge_table dst [] = dst"
  by (simp add: merge_table.simps)

lemma merge_table_at:
  "distinct (map fst src) \<Longrightarrow> map_of (merge_table dst src) k
     = (case map_of src k of None \<Rightarrow> map_of dst k | Some v \<Rightarrow> Some (merge_value (map_of dst k) v))"
proof (induction src arbitrary: dst)
  case (Cons kv src)
  obtain k1 v1 where kv: "kv = (k1, v1)" by (cases kv)
  have "k1 = k \<Longrightarrow> map_of src k = None" using Cons.prems by (auto simp: kv map_of_eq_None_iff)
  with Cons show ?case by (auto simp: kv merge_table_Cons update_conv' split: option.splits)
qed simp

text \<open>A path of keys leads through tables.\<close>

fun lookup_path :: "table \<Rightarrow> string list \<Rightarrow> toml option" where
  "lookup_path t [] = None"
| "lookup_path t [k] = map_of t k"
| "lookup_path t (k # ks) = (case map_of t k of Some (TTable s) \<Rightarrow> lookup_path s ks | _ \<Rightarrow> None)"

text \<open>The keys of the tables along a path are distinct, as the syntax demands.\<close>

fun path_distinct :: "table \<Rightarrow> string list \<Rightarrow> bool" where
  "path_distinct t [] = True"
| "path_distinct t (k # ks) = (distinct (map fst t) \<and> (case map_of t k of Some (TTable s) \<Rightarrow> path_distinct s ks | _ \<Rightarrow> True))"

text \<open>A document says nothing about a path if it ends outside of the document's tables.\<close>

fun silent_about :: "table \<Rightarrow> string list \<Rightarrow> bool" where
  "silent_about t [] = True"
| "silent_about t (k # ks) = (case map_of t k of None \<Rightarrow> True | Some (TTable s) \<Rightarrow> ks \<noteq> [] \<and> silent_about s ks | Some _ \<Rightarrow> False)"

definition is_table :: "toml \<Rightarrow> bool" where
  "is_table v = (case v of TTable _ \<Rightarrow> True | _ \<Rightarrow> False)"

lemma silent_lookup: "silent_about t ks \<Longrightarrow> lookup_path t ks = None"
  by (induction t ks rule: lookup_path.induct) (auto split: option.splits toml.splits)

lemma lookup_merge_wins:
  "path_distinct src ks \<Longrightarrow> lookup_path src ks = Some v \<Longrightarrow> \<not> is_table v \<Longrightarrow> lookup_path (merge_table dst src) ks = Some v"
proof (induction src ks arbitrary: dst rule: lookup_path.induct)
  case (2 t k)
  then show ?case by (auto simp: merge_table_at merge_value_def is_table_def split: option.splits toml.splits)
next
  case (3 t k k2 ks)
  then obtain s where s: "map_of t k = Some (TTable s)" "lookup_path s (k2 # ks) = Some v" "path_distinct s (k2 # ks)" "distinct (map fst t)"
    by (auto split: option.splits toml.splits)
  from "3.IH" [OF s(1) refl s(3,2) "3.prems"(3)] s show ?case
    by (auto simp: merge_table_at merge_value_def split: option.splits toml.splits)
qed simp

lemma lookup_merge_keeps:
  "path_distinct src ks \<Longrightarrow> silent_about src ks \<Longrightarrow> lookup_path (merge_table dst src) ks = lookup_path dst ks"
proof (induction src ks arbitrary: dst rule: lookup_path.induct)
  case (2 t k)
  then show ?case by (auto simp: merge_table_at split: option.splits toml.splits)
next
  case (3 t k k2 ks)
  show ?case
  proof (cases "map_of t k")
    case None
    with "3.prems" show ?thesis by (simp add: merge_table_at)
  next
    case (Some v)
    with "3.prems" obtain s where s: "v = TTable s" "silent_about s (k2 # ks)" "path_distinct s (k2 # ks)" by (auto split: toml.splits)
    have "lookup_path (merge_table d s) (k2 # ks) = lookup_path d (k2 # ks)" for d
      using "3.IH" Some s by simp
    moreover have "lookup_path s (k2 # ks) = None" using s(2) by (rule silent_lookup)
    moreover have "map_of (merge_table dst t) k = Some (merge_value (map_of dst k) (TTable s))"
      using "3.prems"(1) Some s(1) by (simp add: merge_table_at)
    ultimately show ?thesis by (simp add: merge_value_def split: option.split toml.split)
  qed
qed simp

section \<open>The cache of documents\<close>

definition cache_ok :: "'s load_env \<Rightarrow> 's doc_cache \<Rightarrow> bool" where
  "cache_ok E cache \<longleftrightarrow> (\<forall>d \<in> snd ` set cache. parse_document E (cd_expanded d) = Inr (cd_doc d, cd_job_lines d, cd_include_line d))"

lemma fresh_document_OkD:
  "fresh_document E path stamp raw = Inr d \<Longrightarrow> parse_document E (cd_expanded d) = Inr (cd_doc d, cd_job_lines d, cd_include_line d)"
  by (cases "expand_env (le_vars E) path raw") (auto simp: fresh_document_def split: sum.splits prod.splits)

lemma cache_ok_store:
  assumes "cache_ok E cache" and "parse_document E (cd_expanded d) = Inr (cd_doc d, cd_job_lines d, cd_include_line d)"
  shows "cache_ok E (store_document path d cache)"
proof -
  have "snd ` set (AList.update path d c) \<subseteq> insert d (snd ` set c)" for c :: "'a doc_cache"
    by (induction c) auto
  from this [of cache] this [of "[]"] have "snd ` set (store_document path d cache) \<subseteq> insert d (snd ` set cache)"
    by (auto simp: store_document_def)
  with assms show ?thesis unfolding cache_ok_def by blast
qed

lemma fresh_document_hit:
  assumes "cache_ok E cache" and "map_of cache path = Some d" and "cd_stamp d = stamp" and "cd_raw d = raw"
    and "expand_env (le_vars E) path raw = Inr (cd_expanded d)"
  shows "fresh_document E path stamp raw = Inr d"
proof -
  have "parse_document E (cd_expanded d) = Inr (cd_doc d, cd_job_lines d, cd_include_line d)"
    using assms(1) map_of_SomeD [OF assms(2)] by (force simp: cache_ok_def)
  with assms(3,4,5) show ?thesis by (cases d) (auto simp: fresh_document_def)
qed

text \<open>With and without a document in the cache a file reads the same.\<close>

lemma read_document_transparent:
  assumes "cache_ok E cache"
  shows "fst (read_document E path cache) = fst (read_document E path []) \<and> cache_ok E (snd (read_document E path cache))"
proof (cases "\<exists>stamp raw. le_stamp E path = Some stamp \<and> le_file E path = Some raw \<and> length raw \<le> MAX_CONFIG_BYTES")
  case False
  with assms show ?thesis by (auto simp: read_document_def split: option.splits)
next
  case True
  then obtain stamp raw where r: "le_stamp E path = Some stamp" "le_file E path = Some raw" "length raw \<le> MAX_CONFIG_BYTES" by blast
  let ?fresh = "case fresh_document E path stamp raw of Inl e \<Rightarrow> (Err e, cache) | Inr d' \<Rightarrow> (Ok d', store_document path d' cache)"
  have base: "fst (read_document E path []) = fresh_document E path stamp raw"
    using r by (auto simp: read_document_def split: sum.splits)
  have fresh: "fst ?fresh = fresh_document E path stamp raw \<and> cache_ok E (snd ?fresh)"
    using assms by (auto split: sum.splits dest: fresh_document_OkD intro: cache_ok_store)
  show ?thesis
  proof (cases "\<exists>d. map_of cache path = Some d \<and> cd_stamp d = stamp \<and> raw = cd_raw d")
    case False
    then have "read_document E path cache = ?fresh" using r by (auto simp: read_document_def Let_def split: option.splits)
    with fresh base show ?thesis by simp
  next
    case True
    then obtain d where d: "map_of cache path = Some d" "cd_stamp d = stamp" "raw = cd_raw d" by blast
    show ?thesis
    proof (cases "expand_env (le_vars E) path raw")
      case (Inl e)
      with r d assms base show ?thesis by (simp add: read_document_def fresh_document_def)
    next
      case (Inr x)
      show ?thesis
      proof (cases "x = cd_expanded d")
        case True
        with Inr d r have "read_document E path cache = (Ok d, cache)" by (simp add: read_document_def)
        moreover have "fresh_document E path stamp raw = Inr d" using fresh_document_hit [OF assms d(1,2) d(3) [symmetric]] Inr True by simp
        ultimately show ?thesis using assms base by simp
      next
        case False
        with Inr d r have "read_document E path cache = ?fresh" by (simp add: read_document_def)
        with fresh base show ?thesis by simp
      qed
    qed
  qed
qed

section \<open>Limits of a load\<close>

text \<open>Loops over fallible steps keep every preorder that the steps keep.\<close>

locale result_preorder =
  fixes rel :: "'s \<Rightarrow> 's \<Rightarrow> bool"
  assumes rel_refl: "rel s s"
    and rel_trans: "rel s t \<Longrightarrow> rel t u \<Longrightarrow> rel s u"
begin

lemma fold_keeps:
  assumes "\<And>x s s'. x \<in> set xs \<Longrightarrow> f x s = Inr s' \<Longrightarrow> rel s s'" and "fold_results f xs s = Inr s'"
  shows "rel s s'"
  using assms
proof (induction xs arbitrary: s)
  case Nil
  then show ?case by (simp add: rel_refl)
next
  case (Cons x xs)
  then obtain t where t: "f x s = Inr t" "fold_results f xs t = Inr s'" by auto
  have "rel t s'" by (rule Cons.IH [OF Cons.prems(1) t(2)]) simp_all
  moreover have "rel s t" by (rule Cons.prems(1) [OF _ t(1)]) simp
  ultimately show ?case by (blast intro: rel_trans)
qed

end

definition within_limits :: "load_state \<Rightarrow> bool" where
  "within_limits s \<longleftrightarrow> ls_files s \<le> MAX_CONFIG_FILES \<and> ls_bytes s \<le> MAX_CONFIG_BYTES"

text \<open>A load adds files and jobs, stays within the limits and leaves the stack of open files as it found it.\<close>

definition load_grows :: "load_state \<Rightarrow> load_state \<Rightarrow> bool" where
  "load_grows s s' \<longleftrightarrow> ls_stack s' = ls_stack s \<and> prefix (ls_jobs s) (ls_jobs s') \<and> ls_files s \<le> ls_files s' \<and> (within_limits s \<longrightarrow> within_limits s')"

interpretation load: result_preorder load_grows
  by unfold_locales (auto simp: load_grows_def)

lemma load_own_grows:
  assumes "load_own E co path st = Inr (st1, inc)"
  shows "ls_stack st1 = insert path (ls_stack st) \<and> prefix (ls_jobs st) (ls_jobs st1) \<and> ls_files st1 = Suc (ls_files st) \<and> within_limits st1"
  using assms
  by (auto simp: load_own_def Let_def within_limits_def split: if_splits prod.splits)

lemma load_file_grows: "load_file E co n path st = Inr st' \<Longrightarrow> load_grows st st' \<and> within_limits st' \<and> ls_files st < ls_files st'"
proof (induction n arbitrary: path st st')
  case (Suc n)
  from Suc.prems obtain st1 inc st2 where new: "path \<notin> ls_stack st" and own: "load_own E co path st = Inr (st1, inc)"
    and fold: "fold_results (\<lambda>pat s. and_then (resolve_include E pat (le_parent E path) path) (\<lambda>fs. fold_results (load_file E co n) fs s)) inc st1 = Inr st2"
    and st': "st' = st2\<lparr>ls_stack := ls_stack st2 - {path}\<rparr>"
    by (auto split: if_splits)
  have "load_grows st1 st2"
    by (rule load.fold_keeps [OF _ fold]) (auto intro: load.fold_keeps dest: Suc.IH)
  with load_own_grows [OF own] new st' show ?case
    by (auto simp: load_grows_def within_limits_def dest: prefix_order.trans)
qed simp

end
