(* ===== verification/Config_Resolve.thy ===== *)
theory Config_Resolve
  imports Config_Loader
begin

text \<open>
  From merged documents to a configuration: \<open>resolve\<close> and the sections that are read untyped (\<open>config/src/loader.rs\<close>), with the documents and
  defaults of \<open>config/src/schema.rs\<close>, and the overrides by the environment and by the command line. An address is its text; whether a text is an
  address is a parameter.
\<close>

section \<open>Documents and defaults\<close>

record DbDoc =
  dd_kind :: string
  dd_path :: string
  dd_url :: "string option"

record DaemonDoc =
  dm_max_concurrency :: nat
  dm_db :: DbDoc
  dm_log_dir :: string
  dm_default_proxy :: "string option"
  dm_default_worker :: "string option"

record TokenDoc =
  td_name :: string
  td_token :: string
  td_role :: string
  td_permissions :: "string list"

record ApiDoc =
  ad_metrics_auth :: bool
  ad_listen :: string
  ad_tls :: "string option \<times> string option \<times> string option"   \<comment> \<open>cert, key, client_ca\<close>
  ad_tokens :: "TokenDoc list"
  ad_synora_json_path :: string
  ad_tunasync_json_path :: string
  ad_status_format :: string

record RootDoc =
  rd_version :: "nat option"
  rd_daemon :: DaemonDoc
  rd_api :: ApiDoc
  rd_extras :: table

definition db_doc_default :: DbDoc where
  "db_doc_default = \<lparr>dd_kind = ''sqlite'', dd_path = ''data/synora.db'', dd_url = None\<rparr>"

text \<open>The derived \<open>Default\<close>, which stands for a missing section, and the defaults of the fields of a present one.\<close>

definition daemon_doc_default :: DaemonDoc where
  "daemon_doc_default = \<lparr>dm_max_concurrency = 0, dm_db = db_doc_default, dm_log_dir = [], dm_default_proxy = None, dm_default_worker = None\<rparr>"

definition daemon_doc_empty :: DaemonDoc where
  "daemon_doc_empty = daemon_doc_default\<lparr>dm_max_concurrency := 16, dm_log_dir := ''/var/log/synora''\<rparr>"

definition api_doc_default :: ApiDoc where
  "api_doc_default = \<lparr>ad_metrics_auth = True, ad_listen = ''127.0.0.1:8100'', ad_tls = (None, None, None), ad_tokens = [],
     ad_synora_json_path = ''/synora.json'', ad_tunasync_json_path = ''/tunasync.json'', ad_status_format = ''both''\<rparr>"

definition root_doc_default :: RootDoc where
  "root_doc_default = \<lparr>rd_version = None, rd_daemon = daemon_doc_default, rd_api = api_doc_default, rd_extras = []\<rparr>"

section \<open>Sections\<close>

definition global_error :: "string \<Rightarrow> ConfigError" where
  "global_error m = config_error ''<config>'' 0 m"

definition resolve_db :: "DbDoc \<Rightarrow> ConfigError + DbConfig" where
  "resolve_db db =
     (if dd_kind db = ''sqlite'' then Ok \<lparr>dbc_kind = Sqlite, dbc_path = dd_path db, dbc_url = None\<rparr>
      else if dd_kind db = ''postgres'' then
        (case dd_url db of
           None \<Rightarrow> Err (global_error ''db.kind = \"postgres\" requires db.url'')
         | Some u \<Rightarrow> Ok \<lparr>dbc_kind = Postgres, dbc_path = [], dbc_url = Some u\<rparr>)
      else Err (global_error (''invalid db.kind `'' @ dd_kind db @ ''`: expected sqlite|postgres'')))"

definition token_problem :: "ApiToken list \<Rightarrow> TokenDoc \<Rightarrow> string option" where
  "token_problem seen t =
     (if length (td_token t) < 32 then Some ''token must be at least 32 bytes (e.g. `openssl rand -hex 32`)''
      else if contains_str ''change-me'' (to_ascii_lowercase (td_token t)) then Some ''placeholder token is not allowed''
      else if list_ex (\<lambda>e. tok_token e = td_token t) seen then Some ''token value must be unique per token''
      else if list_ex (\<lambda>e. tok_name e = td_name t) seen then Some ''token name must be unique (worker identity binds to name)''
      else if td_role t \<notin> set [''admin'', ''operator'', ''viewer''] then Some ''role must be admin|operator|viewer''
      else None)"

fun resolve_tokens :: "ApiToken list \<Rightarrow> TokenDoc list \<Rightarrow> ConfigError + ApiToken list" where
  "resolve_tokens seen [] = Ok seen"
| "resolve_tokens seen (t # ts) =
     (case token_problem seen t of
        Some m \<Rightarrow> Err (global_error (''api token `'' @ td_name t @ ''`: '' @ m))
      | None \<Rightarrow> resolve_tokens (seen @ [\<lparr>tok_name = td_name t, tok_token = td_token t, tok_role = td_role t, tok_permissions = td_permissions t\<rparr>]) ts)"

definition resolve_api :: "config_lib \<Rightarrow> ApiDoc \<Rightarrow> ConfigError + ApiConfig" where
  "resolve_api L a =
     (case cl_socket L (ad_listen a) of
        None \<Rightarrow> Err (global_error (''invalid api.listen `'' @ ad_listen a @ ''`''))
      | Some addr \<Rightarrow>
          (case ad_tls a of (cert, key, _) \<Rightarrow>
             if (cert = None) \<noteq> (key = None) then Err (global_error ''api.tls: `cert` and `key` must both be set'')
             else and_then (resolve_tokens [] (ad_tokens a)) (\<lambda>toks.
               Ok \<lparr>api_metrics_auth = ad_metrics_auth a, api_listen = addr, api_tls = ad_tls a, api_tokens = toks,
                   api_synora_json_path = ad_synora_json_path a, api_tunasync_json_path = ad_tunasync_json_path a, api_status_format = ad_status_format a\<rparr>)))"

subsection \<open>Jobs\<close>

definition blank :: "string option \<Rightarrow> bool" where
  "blank v = (case v of None \<Rightarrow> True | Some s \<Rightarrow> trim s = [])"

definition default_worker_of :: "DaemonDoc \<Rightarrow> string option" where
  "default_worker_of d = (case map_option trim (dm_default_worker d) of None \<Rightarrow> None | Some s \<Rightarrow> if s = [] then None else Some s)"

fun resolve_jobs :: "config_lib \<Rightarrow> string option \<Rightarrow> (string \<times> string \<times> nat) list \<Rightarrow> JobEntry list \<Rightarrow> ConfigError + JobSpec list" where
  "resolve_jobs L dw seen [] = Ok []"
| "resolve_jobs L dw seen (e # es) =
     (case map_of seen (jd_name (je_doc e)) of
        Some (prev_file, prev_line) \<Rightarrow>
          Err (config_error (je_file e) (je_line e)
                 (''duplicate job `'' @ jd_name (je_doc e) @ ''` (first defined at '' @ prev_file @ '':'' @ show_nat prev_line @ '')''))
      | None \<Rightarrow>
          and_then (resolve_job L (je_doc e) (je_file e) (je_line e)) (\<lambda>spec.
          and_then (resolve_jobs L dw ((name spec, je_file e, je_line e) # seen) es) (\<lambda>rest.
            Ok ((if blank (worker spec) then spec\<lparr>worker := dw\<rparr> else spec) # rest))))"

subsection \<open>Untyped sections\<close>

definition extra_table :: "table \<Rightarrow> string \<Rightarrow> table option" where
  "extra_table extras k = Option.bind (map_of extras k) as_table_value"

definition str_at :: "table \<Rightarrow> string \<Rightarrow> string option" where
  "str_at t k = Option.bind (map_of t k) as_str_value"

definition bool_at :: "table \<Rightarrow> string \<Rightarrow> bool" where
  "bool_at t k = opt_default False (Option.bind (map_of t k) as_bool_value)"

definition strings_at :: "table \<Rightarrow> string \<Rightarrow> string list" where
  "strings_at t k = (case Option.bind (map_of t k) as_array_value of None \<Rightarrow> [] | Some vs \<Rightarrow> filter_map as_str_value vs)"

fun zfs_tokens :: "bool \<Rightarrow> string list \<Rightarrow> (string \<times> string) list" where
  "zfs_tokens pending [] = []"
| "zfs_tokens pending (tok # ts) =
     (if tok = ''-o'' then zfs_tokens True ts
      else let rest = (if pending then tok else opt_default tok (strip_prefix ''-o'' tok))
           in case split_once (CHR ''='') rest of
                None \<Rightarrow> zfs_tokens False ts
              | Some (k, v) \<Rightarrow> if k = [] then zfs_tokens False ts else (k, v) # zfs_tokens False ts)"

definition pairs_of :: "table \<Rightarrow> (string \<times> string) list" where
  "pairs_of t = filter_map (\<lambda>(k, v). map_option (\<lambda>s. (k, s)) (as_str_value v)) t"

definition parse_zfs_options :: "toml option \<Rightarrow> (string \<times> string) list option" where
  "parse_zfs_options v =
     (case v of
        Some (TTable t) \<Rightarrow> Some (pairs_of t)
      | Some (TInline t) \<Rightarrow> Some (pairs_of t)
      | Some (TStr s) \<Rightarrow> Some (zfs_tokens False (split_whitespace s))
      | _ \<Rightarrow> None)"

definition parse_env_table :: "table \<Rightarrow> (string \<times> string) list" where
  "parse_env_table t = (case extra_table t ''env'' of None \<Rightarrow> [] | Some e \<Rightarrow> pairs_of e)"

definition parse_proxy_kind :: "string \<Rightarrow> table \<Rightarrow> ConfigError + ProxyKind" where
  "parse_proxy_kind n t =
     (let ty = opt_default ''http'' (str_at t ''type'') in
      if ty = ''http'' \<or> ty = ''socks5h'' then Ok (PkForward (opt_default [] (str_at t ''url'')) (parse_env_table t))
      else if ty = ''command'' then Ok (PkCommand (opt_default [] (str_at t ''check'')) (parse_env_table t))
      else if ty = ''direct'' then Ok PkDirect
      else Err (global_error (''[proxy.'' @ n @ '']: invalid type `'' @ ty @ ''` (http|command|direct)'')))"

definition local_socks :: "string \<Rightarrow> bool" where
  "local_socks url \<longleftrightarrow>
     (let lower = to_ascii_lowercase url in
      (starts_with ''socks5h://'' lower \<or> starts_with ''socks5://'' lower)
      \<and> list_ex (\<lambda>p. contains_str p lower) [''127.0.0.1'', ''localhost'', ''[::1]'', ''0.0.0.0''])"

definition default_expose :: "ProxyKind \<Rightarrow> string option \<Rightarrow> string option" where
  "default_expose kind expose =
     (case (expose, kind) of (None, PkForward url _) \<Rightarrow> if local_socks url then Some ''0.0.0.0:14000'' else None | _ \<Rightarrow> expose)"

definition proxy_timeout :: "string option \<Rightarrow> nat" where
  "proxy_timeout v =
     (case v of None \<Rightarrow> 10 | Some s \<Rightarrow> (case parse_duration_human s of Inl _ \<Rightarrow> 10 | Inr d \<Rightarrow> nat (max d 1)))"

definition parse_proxy :: "string \<times> toml \<Rightarrow> ConfigError + (string \<times> ProxyConfig)" where
  "parse_proxy = (\<lambda>(n, v).
     case as_table_value v of
       None \<Rightarrow> Err (global_error (''[proxy.'' @ n @ ''] must be a table''))
     | Some t \<Rightarrow> and_then (parse_proxy_kind n t) (\<lambda>kind.
         Ok (n, \<lparr>px_kind = kind, px_healthcheck = str_at t ''healthcheck'', px_timeout = proxy_timeout (str_at t ''timeout''),
                 px_expose = default_expose kind (str_at t ''expose''), px_expose_auth = str_at t ''expose_auth''\<rparr>)))"

definition strategies :: "string list" where
  "strategies = [''fixed'', ''failover'', ''round-robin'', ''random'']"

definition parse_proxy_group :: "string \<times> toml \<Rightarrow> ConfigError + (string \<times> ProxyGroupConfig)" where
  "parse_proxy_group = (\<lambda>(n, v).
     case as_table_value v of
       None \<Rightarrow> Err (global_error (''[proxy_groups.'' @ n @ ''] must be a table''))
     | Some t \<Rightarrow>
         (let strategy = opt_default ''failover'' (str_at t ''strategy'') in
          if strategy \<in> set strategies then Ok (n, \<lparr>pg_proxies = strings_at t ''proxies'', pg_strategy = strategy\<rparr>)
          else Err (global_error (''[proxy_groups.'' @ n @ '']: invalid strategy `'' @ strategy @ ''`''))))"

definition parse_section :: "(string \<times> toml \<Rightarrow> ConfigError + 'a) \<Rightarrow> table option \<Rightarrow> ConfigError + 'a list" where
  "parse_section p t = (case t of None \<Rightarrow> Ok [] | Some es \<Rightarrow> collect_results (map p es))"

definition parse_proxies :: "table \<Rightarrow> ConfigError + ((string \<times> ProxyConfig) list \<times> (string \<times> ProxyGroupConfig) list)" where
  "parse_proxies extras =
     and_then (parse_section parse_proxy (extra_table extras ''proxy'')) (\<lambda>ps.
     and_then (parse_section parse_proxy_group (extra_table extras ''proxy_groups'')) (\<lambda>gs. Ok (ps, gs)))"

definition parse_one_egress :: "(string \<Rightarrow> IpAddr option) \<Rightarrow> toml \<Rightarrow> ConfigError + EgressConfig" where
  "parse_one_egress ip v =
     (case as_table_value v of
        None \<Rightarrow> Err (global_error ''[[egress]] entries must be tables'')
      | Some t \<Rightarrow>
          (let n = opt_default [] (str_at t ''name'') in
           case str_at t ''address'' of
             None \<Rightarrow> Err (global_error (''[[egress]] `'' @ n @ ''`: missing address''))
           | Some a \<Rightarrow> (case ip a of
                          None \<Rightarrow> Err (global_error (''[[egress]] `'' @ n @ ''`: invalid address''))
                        | Some addr \<Rightarrow> Ok \<lparr>eg_name = n, eg_address = addr, eg_probe = str_at t ''probe''\<rparr>)))"

definition parse_egress_group :: "string \<Rightarrow> string \<times> toml \<Rightarrow> ConfigError + (string \<times> EgressGroupConfig)" where
  "parse_egress_group key = (\<lambda>(n, v).
     case as_table_value v of
       None \<Rightarrow> Err (global_error (''['' @ key @ ''.'' @ n @ ''] must be a table''))
     | Some t \<Rightarrow> Ok (n, \<lparr>ga_addresses = strings_at t ''addresses'', ga_strategy = opt_default ''failover'' (str_at t ''strategy'')\<rparr>))"

text \<open>Groups of the second spelling replace groups of the same name.\<close>

definition parse_egress :: "(string \<Rightarrow> IpAddr option) \<Rightarrow> table \<Rightarrow> ConfigError + (EgressConfig list \<times> (string \<times> EgressGroupConfig) list)" where
  "parse_egress ip extras =
     and_then (case Option.bind (map_of extras ''egress'') as_array_value of None \<Rightarrow> Ok [] | Some vs \<Rightarrow> collect_results (map (parse_one_egress ip) vs)) (\<lambda>es.
     and_then (parse_section (parse_egress_group ''egress-groups'') (extra_table extras ''egress-groups'')) (\<lambda>g1.
     and_then (parse_section (parse_egress_group ''egress_groups'') (extra_table extras ''egress_groups'')) (\<lambda>g2.
       Ok (es, foldl (\<lambda>m (k, v). AList.update k v m) [] (g1 @ g2)))))"

definition parse_storage_kind :: "string \<Rightarrow> table \<Rightarrow> ConfigError + StorageKind" where
  "parse_storage_kind n t =
     (let ty = opt_default ''dir'' (Option.bind (coalesce (map_of t ''kind'') (map_of t ''type'')) as_str_value) in
      if ty = ''dir'' then Ok Storage.Dir
      else if ty = ''zfs'' then
        Ok (Zfs (opt_default [] (str_at t ''pool'')) (opt_default [] (str_at t ''dataset'')) (opt_default [] (parse_zfs_options (map_of t ''zfs_options''))))
      else if ty = ''btrfs'' then Ok (Btrfs (opt_default [] (str_at t ''subvol'')))
      else Err (global_error (''[storage.'' @ n @ '']: invalid type `'' @ ty @ ''` (dir|zfs|btrfs)'')))"

definition parse_one_storage :: "string \<times> toml \<Rightarrow> ConfigError + (string \<times> StorageConfig)" where
  "parse_one_storage = (\<lambda>(n, v).
     case as_table_value v of
       None \<Rightarrow> Err (global_error (''[storage.'' @ n @ ''] must be a table''))
     | Some t \<Rightarrow> and_then (parse_storage_kind n t) (\<lambda>kind.
         Ok (n, \<lparr>st_kind = kind, mountpoint = str_at t ''mountpoint'', auto_create = bool_at t ''auto_create'', require_empty = bool_at t ''require_empty''\<rparr>)))"

definition parse_storage :: "table \<Rightarrow> ConfigError + (string \<times> StorageConfig) list" where
  "parse_storage extras = parse_section parse_one_storage (extra_table extras ''storage'')"

definition parse_cgroup :: "table \<Rightarrow> string option" where
  "parse_cgroup extras = map_option (\<lambda>t. opt_default ''/sys/fs/cgroup/synora'' (str_at t ''base_path'')) (extra_table extras ''cgroup'')"

text \<open>\<open>as u32\<close> of an \<open>i64\<close>.\<close>

definition i64_as_u32 :: "int \<Rightarrow> nat" where
  "i64_as_u32 i = nat (i mod 2 ^ 32)"

definition count_at :: "table \<Rightarrow> string \<Rightarrow> nat option" where
  "count_at t k = map_option i64_as_u32 (Option.bind (map_of t k) as_integer_value)"

definition parse_retention :: "table \<Rightarrow> RetentionPolicy" where
  "parse_retention extras =
     (case Option.bind (extra_table extras ''snapshot'') (\<lambda>t. extra_table t ''policy'') of
        None \<Rightarrow> default_retention
      | Some t \<Rightarrow> \<lparr>keep_last = count_at t ''keep_last'', keep_daily = count_at t ''keep_daily'', keep_weekly = count_at t ''keep_weekly'',
                   keep_monthly = count_at t ''keep_monthly''\<rparr>)"

text \<open>A missing section has the derived default, a limit of 0 failures.\<close>

definition parse_notifications :: "table \<Rightarrow> NotificationConfig" where
  "parse_notifications extras =
     (case Option.bind (extra_table extras ''notifications'') (\<lambda>t. extra_table t ''webhook'') of
        None \<Rightarrow> \<lparr>webhook_url = None, alert_after_failures = 0\<rparr>
      | Some t \<Rightarrow> \<lparr>webhook_url = str_at t ''url'', alert_after_failures = opt_default 1 (count_at t ''alert_after_failures'')\<rparr>)"

definition parse_groups :: "table \<Rightarrow> (string \<times> string list) list" where
  "parse_groups extras =
     (case extra_table extras ''groups'' of
        None \<Rightarrow> []
      | Some t \<Rightarrow> filter_map (\<lambda>(n, v). Option.bind (as_table_value v) (\<lambda>g.
          map_option (\<lambda>a. (n, filter_map as_str_value a)) (Option.bind (map_of g ''jobs'') as_array_value))) t)"

definition parse_min_free :: "table \<Rightarrow> nat option" where
  "parse_min_free extras =
     Option.bind (Option.bind (extra_table extras ''min_storage'') (\<lambda>t. str_at t ''free_bytes''))
       (\<lambda>s. case parse_duration_human s of Inl _ \<Rightarrow> None | Inr d \<Rightarrow> Some (nat (max d 0)))"

section \<open>The configuration\<close>

record LoadedConfig = ResolvedConfig +
  lc_version :: nat
  lc_default_proxy :: "string option"
  lc_default_worker :: "string option"
  lc_proxies :: "(string \<times> ProxyConfig) list"
  lc_proxy_groups :: "(string \<times> ProxyGroupConfig) list"
  lc_egresses :: "EgressConfig list"
  lc_egress_groups :: "(string \<times> EgressGroupConfig) list"
  lc_groups :: "(string \<times> string list) list"

definition resolve_config :: "config_lib \<Rightarrow> (string \<Rightarrow> IpAddr option) \<Rightarrow> RootDoc \<Rightarrow> JobEntry list \<Rightarrow> ConfigError + LoadedConfig" where
  "resolve_config L ip r entries =
     and_then (resolve_db (dm_db (rd_daemon r))) (\<lambda>db.
     and_then (resolve_api L (rd_api r)) (\<lambda>api.
     and_then (resolve_jobs L (default_worker_of (rd_daemon r)) [] entries) (\<lambda>jobs.
     and_then (parse_proxies (rd_extras r)) (\<lambda>(ps, pgs).
     and_then (parse_egress ip (rd_extras r)) (\<lambda>(es, egs).
     and_then (parse_storage (rd_extras r)) (\<lambda>sts.
       Ok \<lparr>rc_db = db, rc_max_concurrency = max (dm_max_concurrency (rd_daemon r)) 1, rc_log_dir = dm_log_dir (rd_daemon r), rc_api = api,
           rc_storages = map_of sts, rc_cgroup = parse_cgroup (rd_extras r), rc_snapshot_retention = parse_retention (rd_extras r),
           rc_min_free_bytes = parse_min_free (rd_extras r), rc_notifications = parse_notifications (rd_extras r), rc_jobs = jobs,
           lc_version = opt_default 1 (rd_version r), lc_default_proxy = dm_default_proxy (rd_daemon r), lc_default_worker = default_worker_of (rd_daemon r),
           lc_proxies = ps, lc_proxy_groups = pgs, lc_egresses = es, lc_egress_groups = egs, lc_groups = parse_groups (rd_extras r)\<rparr>))))))"

section \<open>Overrides\<close>

record CliOverrides =
  ov_db_kind :: "string option"
  ov_db_path :: "string option"
  ov_db_url :: "string option"
  ov_api_listen :: "string option"

definition set_listen :: "string \<Rightarrow> LoadedConfig \<Rightarrow> LoadedConfig" where
  "set_listen addr c = c\<lparr>rc_api := rc_api c\<lparr>api_listen := addr\<rparr>\<rparr>"

definition env_error :: "string \<Rightarrow> ConfigError" where
  "env_error m = config_error ''<environment>'' 0 m"

definition apply_env_overrides :: "config_lib \<Rightarrow> LoadedConfig \<Rightarrow> ConfigError + LoadedConfig" where
  "apply_env_overrides L c0 =
     and_then (case cl_var L ''SYNORA_MAX_CONCURRENCY'' of
                 None \<Rightarrow> Ok c0
               | Some v \<Rightarrow> (case parse_unsigned u32_max v of
                              None \<Rightarrow> Err (env_error (''SYNORA_MAX_CONCURRENCY `'' @ v @ ''` is not a number''))
                            | Some n \<Rightarrow> Ok (c0\<lparr>rc_max_concurrency := n\<rparr>))) (\<lambda>c1.
     and_then (case cl_var L ''SYNORA_API_LISTEN'' of
                 None \<Rightarrow> Ok c1
               | Some v \<Rightarrow> (case cl_socket L v of
                              None \<Rightarrow> Err (env_error (''SYNORA_API_LISTEN `'' @ v @ ''` is not a valid address''))
                            | Some a \<Rightarrow> Ok (set_listen a c1))) (\<lambda>c2.
       let c3 = (case cl_var L ''SYNORA_DB_URL'' of None \<Rightarrow> c2 | Some u \<Rightarrow> c2\<lparr>rc_db := rc_db c2\<lparr>dbc_kind := Postgres, dbc_url := Some u\<rparr>\<rparr>)
       in Ok (case cl_var L ''SYNORA_TOKEN'' of
                None \<Rightarrow> c3
              | Some v \<Rightarrow> c3\<lparr>rc_api := rc_api c3\<lparr>api_tokens := api_tokens (rc_api c3)
                              @ [\<lparr>tok_name = ''env'', tok_token = v, tok_role = ''admin'', tok_permissions = []\<rparr>]\<rparr>\<rparr>)))"

definition cli_db_kind :: "string \<Rightarrow> ConfigError + DbKind" where
  "cli_db_kind k =
     (if k = ''sqlite'' then Ok Sqlite else if k = ''postgres'' then Ok Postgres
      else Err (config_error ''<cli>'' 0 (''invalid --db-kind `'' @ k @ ''`: expected sqlite|postgres'')))"

definition apply_cli_overrides :: "config_lib \<Rightarrow> CliOverrides \<Rightarrow> LoadedConfig \<Rightarrow> ConfigError + LoadedConfig" where
  "apply_cli_overrides L ov c0 =
     and_then (case ov_db_kind ov of None \<Rightarrow> Ok c0 | Some k \<Rightarrow> and_then (cli_db_kind k) (\<lambda>kind. Ok (c0\<lparr>rc_db := rc_db c0\<lparr>dbc_kind := kind\<rparr>\<rparr>))) (\<lambda>c1.
       let c2 = (case ov_db_path ov of None \<Rightarrow> c1 | Some p \<Rightarrow> c1\<lparr>rc_db := rc_db c1\<lparr>dbc_path := p\<rparr>\<rparr>);
           c3 = (case ov_db_url ov of None \<Rightarrow> c2 | Some u \<Rightarrow> c2\<lparr>rc_db := rc_db c2\<lparr>dbc_kind := Postgres, dbc_url := Some u\<rparr>\<rparr>)
       in case ov_api_listen ov of
            None \<Rightarrow> Ok c3
          | Some l \<Rightarrow> (case cl_socket L l of
                         None \<Rightarrow> Err (config_error ''<cli>'' 0 (''invalid --api-listen `'' @ l @ ''`''))
                       | Some a \<Rightarrow> Ok (set_listen a c3)))"

section \<open>Loading\<close>

text \<open>\<open>canon\<close> is \<open>canonicalize\<close>; \<open>root_of\<close> deserialises the merged document.\<close>

definition load_documents ::
  "'s load_env \<Rightarrow> (string \<Rightarrow> string option) \<Rightarrow> (table \<Rightarrow> string + RootDoc) \<Rightarrow> string \<Rightarrow> bool \<Rightarrow> ConfigError + (RootDoc \<times> JobEntry list)" where
  "load_documents E canon root_of path co =
     (case canon path of
        None \<Rightarrow> Err (config_error path 0 ''cannot read config'')
      | Some p \<Rightarrow> and_then (load_file E co (MAX_INCLUDE_DEPTH + 1) p empty_load) (\<lambda>st.
          case root_of (opt_default [] (ls_merged st)) of
            Inl m \<Rightarrow> Err (global_error (safe_parse_error m))
          | Inr r \<Rightarrow> Ok (r, ls_jobs st)))"

definition load_config ::
  "'s load_env \<Rightarrow> (string \<Rightarrow> string option) \<Rightarrow> (table \<Rightarrow> string + RootDoc) \<Rightarrow> config_lib \<Rightarrow> (string \<Rightarrow> IpAddr option) \<Rightarrow> string \<Rightarrow> CliOverrides
     \<Rightarrow> ConfigError + LoadedConfig" where
  "load_config E canon root_of L ip path ov =
     and_then (load_documents E canon root_of path False) (\<lambda>(r, entries).
     and_then (resolve_config L ip r entries) (\<lambda>c.
     and_then (apply_env_overrides L c) (apply_cli_overrides L ov)))"

definition load_api ::
  "'s load_env \<Rightarrow> (string \<Rightarrow> string option) \<Rightarrow> (table \<Rightarrow> string + RootDoc) \<Rightarrow> config_lib \<Rightarrow> (string \<Rightarrow> IpAddr option) \<Rightarrow> string \<Rightarrow> ConfigError + ApiConfig" where
  "load_api E canon root_of L ip path =
     and_then (load_documents E canon root_of path True) (\<lambda>(r, _).
     and_then (resolve_config L ip (root_doc_default\<lparr>rd_api := rd_api r\<rparr>) []) (\<lambda>c.
       case cl_var L ''SYNORA_API_LISTEN'' of
         None \<Rightarrow> Ok (rc_api c)
       | Some v \<Rightarrow> (case cl_socket L v of
                      None \<Rightarrow> Err (config_error ''<env>'' 0 ''invalid SYNORA_API_LISTEN'')
                    | Some a \<Rightarrow> Ok (rc_api (set_listen a c)))))"

end
