(* ===== verification/Config_Jobfile.thy ===== *)
theory Config_Jobfile
  imports Config_Text Storage "HOL-Library.AList"
begin

text \<open>
  Removing a job from the configuration files: \<open>config/src/jobfile.rs\<close>. The files are an association list from paths to texts; the paths that the glob
  finds, and the errors of writing or removing a file, are arguments.
\<close>

section \<open>Definitions\<close>

definition is_main_config :: "string \<Rightarrow> string \<Rightarrow> bool" where
  "is_main_config cfg p \<longleftrightarrow> path_eq p cfg \<or> path_file_name p = Some ''synora.toml''"

definition job_file_edit :: "string \<Rightarrow> string \<Rightarrow> string \<Rightarrow> (string \<times> string) list \<Rightarrow> (string \<times> string) list" where
  "job_file_edit cfg p rebuilt files =
     (if \<not> is_main_config cfg p \<and> \<not> contains_str JOBS rebuilt \<and> only_blank_or_comments rebuilt
      then AList.delete p files else AList.update p rebuilt files)"

fun remove_blocks ::
  "(string \<Rightarrow> string option) \<Rightarrow> string \<Rightarrow> string \<Rightarrow> string list \<Rightarrow> (string \<times> string) list \<Rightarrow> string list \<Rightarrow> (string + string list) \<times> (string \<times> string) list" where
  "remove_blocks fails cfg n [] files changed =
     (if changed = [] then Err (''job `'' @ n @ ''` not found in any config file'') else Ok changed, files)"
| "remove_blocks fails cfg n (p # ps) files changed =
     (case map_of files p of
        None \<Rightarrow> (Err ''cannot read'', files)
      | Some s \<Rightarrow>
          if \<not> contains_str (job_needle n) s then remove_blocks fails cfg n ps files changed
          else (case strip_job_blocks s n of
                  None \<Rightarrow> remove_blocks fails cfg n ps files changed
                | Some rebuilt \<Rightarrow>
                    (case fails p of
                       Some e \<Rightarrow> (Err e, files)
                     | None \<Rightarrow> remove_blocks fails cfg n ps (job_file_edit cfg p rebuilt files) (changed @ [p]))))"

definition remove_job_block ::
  "(string \<Rightarrow> string option) \<Rightarrow> (string + string list) \<Rightarrow> string \<Rightarrow> string \<Rightarrow> (string \<times> string) list \<Rightarrow> (string + string list) \<times> (string \<times> string) list" where
  "remove_job_block fails found cfg n files =
     (case found of Inl e \<Rightarrow> (Err e, files) | Inr ps \<Rightarrow> remove_blocks fails cfg n ps files [])"

section \<open>Laws\<close>

subsection \<open>Lines\<close>

definition nonblank_lines :: "string \<Rightarrow> string list" where
  "nonblank_lines s = filter (\<lambda>l. trim l \<noteq> []) (str_lines s)"

lemma collapse_lines_nonblank: "filter (\<lambda>l. trim l \<noteq> []) (collapse_lines b ls) = filter (\<lambda>l. trim l \<noteq> []) ls"
  by (induction b ls rule: collapse_lines.induct) auto

lemma set_collapse_lines: "set (collapse_lines b ls) \<subseteq> set ls"
  by (induction b ls rule: collapse_lines.induct) auto

lemma split_char_lines: "\<forall>l \<in> set ls. c \<notin> set l \<Longrightarrow> split_char c (concat (map (\<lambda>l. l @ [c]) ls)) = ls @ [[]]"
  by (induction ls) (simp_all add: split_char_append)

lemma str_lines_of_lines:
  assumes "\<forall>l \<in> set ls. CHR 0x0A \<notin> set l \<and> CHR 0x0D \<notin> set l"
  shows "str_lines (concat (map (\<lambda>l. l @ [CHR 0x0A]) ls)) = ls"
proof -
  have "map strip_cr ls = ls" using assms by (induction ls) (auto simp: strip_cr_def dest: last_in_set)
  moreover have "split_char (CHR 0x0A) (concat (map (\<lambda>l. l @ [CHR 0x0A]) ls)) = ls @ [[]]" using assms by (intro split_char_lines) blast
  ultimately show ?thesis by (simp add: str_lines_def Let_def)
qed

lemma split_char_subset: "p \<in> set (split_char c s) \<Longrightarrow> set p \<subseteq> set s"
proof (induction s arbitrary: p)
  case (Cons x s)
  obtain q qs where s: "split_char c s = q # qs" by (cases "split_char c s") simp_all
  then have "\<forall>p \<in> set (q # qs). set p \<subseteq> set s" using Cons.IH by metis
  then have "set q \<subseteq> set s" "\<forall>p \<in> set qs. set p \<subseteq> set s" by simp_all
  with Cons.prems s show ?case by (auto split: if_splits)
qed simp

lemma str_lines_plain:
  assumes "CHR 0x0D \<notin> set s" and "l \<in> set (str_lines s)"
  shows "CHR 0x0A \<notin> set l \<and> CHR 0x0D \<notin> set l"
proof -
  let ?ps = "split_char (CHR 0x0A) s"
  have piece: "CHR 0x0A \<notin> set p \<and> CHR 0x0D \<notin> set p" if "p \<in> set ?ps" for p
    using split_char_pieces [OF that] split_char_subset [OF that] assms(1) by auto
  have "l \<in> strip_cr ` set ?ps \<or> l \<in> set ?ps"
    using assms(2) by (auto simp: str_lines_def Let_def dest: in_set_butlastD split: if_splits)
  then obtain p where p: "p \<in> set ?ps" "l = p \<or> l = strip_cr p" by auto
  have "set (strip_cr p) \<subseteq> set p" by (auto simp: strip_cr_def dest: in_set_butlastD)
  with p piece [OF p(1)] show ?thesis by auto
qed

text \<open>Collapsing blank lines keeps every other line, in order (of a text without carriage returns).\<close>

lemma collapse_keeps_lines:
  assumes "CHR 0x0D \<notin> set s"
  shows "nonblank_lines (collapse_blank_lines s) = nonblank_lines s"
proof -
  have "str_lines (collapse_blank_lines s) = collapse_lines 0 (str_lines s)"
    unfolding collapse_blank_lines_def
    by (rule str_lines_of_lines) (use set_collapse_lines str_lines_plain [OF assms] in blast)
  then show ?thesis by (simp add: nonblank_lines_def collapse_lines_nonblank)
qed

subsection \<open>Files\<close>

lemma map_of_job_file_edit: "q \<noteq> p \<Longrightarrow> map_of (job_file_edit cfg p r files) q = map_of files q"
  by (simp add: job_file_edit_def update_conv' delete_conv')

lemma job_file_edit_main: "is_main_config cfg p \<Longrightarrow> map_of files q \<noteq> None \<Longrightarrow> map_of (job_file_edit cfg p r files) q \<noteq> None"
  by (auto simp: job_file_edit_def update_conv')

text \<open>The main configuration file is never deleted, and a file that does not name the job keeps its text.\<close>

lemma remove_blocks_keeps:
  assumes "remove_blocks fails cfg n ps files changed = (r, files')"
  shows "(is_main_config cfg q \<longrightarrow> map_of files q \<noteq> None \<longrightarrow> map_of files' q \<noteq> None)
     \<and> (\<forall>s. map_of files q = Some s \<longrightarrow> \<not> contains_str (job_needle n) s \<longrightarrow> map_of files' q = Some s)
     \<and> (q \<notin> set ps \<longrightarrow> map_of files' q = map_of files q)"
  using assms
proof (induction ps arbitrary: files changed)
  case (Cons p ps)
  show ?case
  proof (cases "\<exists>s rebuilt. map_of files p = Some s \<and> contains_str (job_needle n) s \<and> strip_job_blocks s n = Some rebuilt \<and> fails p = None")
    case True
    then obtain s rebuilt where s: "map_of files p = Some s" "contains_str (job_needle n) s" "strip_job_blocks s n = Some rebuilt" "fails p = None" by blast
    with Cons.prems have "remove_blocks fails cfg n ps (job_file_edit cfg p rebuilt files) (changed @ [p]) = (r, files')" by simp
    note ih = Cons.IH [OF this]
    show ?thesis
    proof (cases "q = p")
      case True
      with ih s show ?thesis by (auto dest: job_file_edit_main)
    next
      case False
      with ih show ?thesis by (simp add: map_of_job_file_edit)
    qed
  next
    case False
    with Cons show ?thesis by (auto split: option.splits if_splits)
  qed
qed simp

text \<open>The search for the name of a job also finds the name of its storage: removing the job \<open>x\<close> removes a job that is stored in \<open>x\<close>.\<close>

lemma strip_removes_neighbour:
  "strip_job_blocks ([CHR 0x0A] @ JOBS @ [CHR 0x0A] @ ''storage_name = '' @ [CHR 0x22] @ ''x'' @ [CHR 0x22, CHR 0x0A]) ''x'' = Some [CHR 0x0A]"
  by code_simp

end
