(* ===== verification/Config_Props.thy ===== *)
theory Config_Props
  imports Config_Resolve Config_Jobfile Providers
begin

text \<open>
  Properties of the configuration and of what is built on it: what every loaded configuration satisfies, how documents are merged and cached,
  the limits of a load, and that the providers accept the jobs of a loaded configuration.
\<close>

section \<open>Jobs and tokens\<close>

text \<open>What the engine, the scheduler and the providers rely on.\<close>

definition job_sound :: "config_lib \<Rightarrow> JobSpec \<Rightarrow> bool" where
  "job_sound L job \<longleftrightarrow>
     job_name_ok (name job) \<and> \<not> starts_with ''.'' (name job) \<and> ''..'' \<notin> set (split_char (CHR ''/'') (storage job))
     \<and> 1 \<le> max_concurrency job \<and> \<not> f64_lt (retry_backoff job) (Fin 1) \<and> name job \<notin> set (depends_on job) \<and> cl_timezone L (timezone job)
     \<and> family job \<in> {''ipv4'', ''ipv6'', ''any''}
     \<and> (case provider job of
          Rsync _ _ \<Rightarrow> upstream job \<noteq> None | Git _ \<Rightarrow> upstream job \<noteq> None
        | TwoStageRsync _ _ prof \<Rightarrow> upstream job \<noteq> None \<and> map_of STAGE1_PROFILES prof \<noteq> None
        | Http q _ _ _ _ \<Rightarrow> cl_parser_known L q | _ \<Rightarrow> True)"

lemma name_plain_ok: "name_plain n \<Longrightarrow> \<not> starts_with ''.'' n \<Longrightarrow> job_name_ok n"
  by (auto simp: name_plain_def job_name_ok_def starts_with_def)

lemma job_of_doc_sound:
  assumes "job_of_doc L doc = Inr job"
  shows "job_sound L job"
proof -
  note d = job_of_docD [OF assms]
  have profiles: "p \<in> {''debian'', ''debian-oldstyle''} \<Longrightarrow> map_of STAGE1_PROFILES p \<noteq> None" for p by (auto simp: STAGE1_PROFILES_def)
  from resolve_provider_upstream [OF d(5)] profiles
  have "case provider job of Rsync _ _ \<Rightarrow> upstream job \<noteq> None | Git _ \<Rightarrow> upstream job \<noteq> None
        | TwoStageRsync _ _ prof \<Rightarrow> upstream job \<noteq> None \<and> map_of STAGE1_PROFILES prof \<noteq> None
        | Http q _ _ _ _ \<Rightarrow> cl_parser_known L q | _ \<Rightarrow> True"
    by (cases "provider job") (simp_all add: d(7))
  with d name_plain_ok [OF d(2,3)] resolve_storage_no_parent [OF d(6)] show ?thesis by (simp add: job_sound_def)
qed

lemma job_sound_worker [simp]: "job_sound L (job\<lparr>worker := v\<rparr>) = job_sound L job"
  by (cases "provider job") (simp_all add: job_sound_def)

lemma resolve_jobs_sound:
  "resolve_jobs L dw seen es = Inr jobs \<Longrightarrow>
     list_all (job_sound L) jobs \<and> distinct (map name jobs) \<and> fst ` set seen \<inter> name ` set jobs = {}"
proof (induction es arbitrary: seen jobs)
  case (Cons e es)
  from Cons.prems have new: "map_of seen (jd_name (je_doc e)) = None" by (auto split: option.splits)
  with Cons.prems obtain spec rest where spec: "resolve_job L (je_doc e) (je_file e) (je_line e) = Inr spec"
    and rest: "resolve_jobs L dw ((name spec, je_file e, je_line e) # seen) es = Inr rest"
    and jobs: "jobs = (if blank (worker spec) then spec\<lparr>worker := dw\<rparr> else spec) # rest" by auto
  from spec have doc: "job_of_doc L (je_doc e) = Inr spec" by (auto simp: resolve_job_def split: sum.splits)
  have "name spec \<notin> fst ` set seen" using new job_of_docD(1) [OF doc] by (simp add: map_of_eq_None_iff)
  with Cons.IH [OF rest] job_of_doc_sound [OF doc] jobs show ?case by auto
qed simp

definition tokens_sound :: "ApiToken list \<Rightarrow> bool" where
  "tokens_sound toks \<longleftrightarrow> distinct (map tok_name toks) \<and> distinct (map tok_token toks)
     \<and> list_all (\<lambda>t. 32 \<le> length (tok_token t) \<and> tok_role t \<in> {''admin'', ''operator'', ''viewer''}) toks"

lemma resolve_tokens_sound: "resolve_tokens seen ts = Inr toks \<Longrightarrow> tokens_sound seen \<Longrightarrow> tokens_sound toks"
proof (induction seen ts rule: resolve_tokens.induct)
  case (2 seen t ts)
  then have none: "token_problem seen t = None" by (auto split: option.splits)
  let ?t = "\<lparr>tok_name = td_name t, tok_token = td_token t, tok_role = td_role t, tok_permissions = td_permissions t\<rparr>"
  have "tokens_sound (seen @ [?t])"
    using none "2.prems"(2) by (auto simp: token_problem_def tokens_sound_def list_ex_iff split: if_splits)
  with "2.IH" [OF none] "2.prems"(1) none show ?case by simp
qed simp

lemma apply_env_overrides_OkD:
  assumes "apply_env_overrides L c = Inr c'"
  shows "rc_jobs c' = rc_jobs c \<and> api_tokens (rc_api c') = api_tokens (rc_api c)
     @ (case cl_var L ''SYNORA_TOKEN'' of None \<Rightarrow> [] | Some v \<Rightarrow> [\<lparr>tok_name = ''env'', tok_token = v, tok_role = ''admin'', tok_permissions = []\<rparr>])"
  using assms by (auto simp: apply_env_overrides_def set_listen_def Let_def split: option.splits)

lemma apply_cli_overrides_OkD:
  assumes "apply_cli_overrides L ov c = Inr c'"
  shows "rc_jobs c' = rc_jobs c \<and> api_tokens (rc_api c') = api_tokens (rc_api c)"
  using assms
  by (cases "ov_db_kind ov"; cases "ov_db_path ov"; cases "ov_db_url ov"; cases "ov_api_listen ov"; cases "cl_socket L (the (ov_api_listen ov))")
    (auto simp: apply_cli_overrides_def set_listen_def Let_def)

lemma resolve_config_OkD:
  assumes "resolve_config L ip r entries = Inr c"
  shows "resolve_jobs L (default_worker_of (rd_daemon r)) [] entries = Inr (rc_jobs c) \<and> resolve_tokens [] (ad_tokens (rd_api r)) = Inr (api_tokens (rc_api c))
     \<and> 1 \<le> rc_max_concurrency c"
  using assms by (auto simp: resolve_config_def resolve_api_def split: option.splits if_splits prod.splits)

lemma load_config_steps:
  assumes "load_config E canon root_of L ip path ov = Inr cfg"
  obtains r entries c where "resolve_config L ip r entries = Inr c" "rc_jobs cfg = rc_jobs c"
    "api_tokens (rc_api cfg) = api_tokens (rc_api c)
       @ (case cl_var L ''SYNORA_TOKEN'' of None \<Rightarrow> [] | Some v \<Rightarrow> [\<lparr>tok_name = ''env'', tok_token = v, tok_role = ''admin'', tok_permissions = []\<rparr>])"
proof -
  from assms obtain r entries c1 c2 where c1: "resolve_config L ip r entries = Inr c1" and c2: "apply_env_overrides L c1 = Inr c2"
    and cfg: "apply_cli_overrides L ov c2 = Inr cfg"
    by (auto simp: load_config_def split: prod.splits)
  from c1 apply_env_overrides_OkD [OF c2] apply_cli_overrides_OkD [OF cfg] show thesis by (simp add: that)
qed

lemma load_config_jobs_sound:
  assumes "load_config E canon root_of L ip path ov = Inr cfg"
  shows "distinct (map name (rc_jobs cfg)) \<and> list_all (job_sound L) (rc_jobs cfg)"
  using load_config_steps [OF assms] resolve_config_OkD resolve_jobs_sound by metis


text \<open>The token of the environment is not checked: it may be empty. The concurrency of the environment may be zero.\<close>

lemma env_token_unchecked:
  assumes "cl_var L ''SYNORA_TOKEN'' = Some []" and "cl_var L ''SYNORA_MAX_CONCURRENCY'' = Some ''0''" and "cl_var L ''SYNORA_API_LISTEN'' = None"
  shows "\<exists>c'. apply_env_overrides L c = Inr c' \<and> rc_max_concurrency c' = 0 \<and> tok_token (last (api_tokens (rc_api c'))) = []"
  using assms by (simp add: apply_env_overrides_def parse_unsigned_def parse_digits_def is_digit_def digits_val_def digit_val_def Let_def split: option.split)

text \<open>Without a daemon section the derived defaults are used, not the defaults of the fields.\<close>

lemma missing_daemon_section:
  assumes "resolve_config L ip (root_doc_default\<lparr>rd_api := a\<rparr>) es = Inr c"
  shows "rc_max_concurrency c = 1 \<and> rc_log_dir c = [] \<and> dm_max_concurrency daemon_doc_empty = 16"
  using assms by (auto simp: resolve_config_def root_doc_default_def daemon_doc_default_def daemon_doc_empty_def split: prod.splits)

section \<open>Providers of configured jobs\<close>

text \<open>Where no error about the configuration can arise: \<open>no_config\<close> of a result, for the steps that the providers are composed of.\<close>

definition no_config :: "ProviderError + 'a \<Rightarrow> bool" where
  "no_config r \<longleftrightarrow> (\<forall>m. r \<noteq> Inl (PConfig m))"

lemma no_config_Inr [simp]: "no_config (Inr x)"
  by (simp add: no_config_def)

lemma no_config_Inl [simp]: "no_config (Inl e) \<longleftrightarrow> (\<forall>m. e \<noteq> PConfig m)"
  by (simp add: no_config_def)

lemma run_child_no_config: "(\<And>e. no_config (Inl (wrap (Spawn e)) :: ProviderError + unit)) \<Longrightarrow> no_config (fst (run_child E wrap stopped cmd w))"
  by (auto simp: run_child_def split: prod.splits sum.splits child_end.splits)

lemma io_bind_no_config:
  assumes "no_config (fst (f w))" and "\<And>x w1. no_config (fst (g x w1))"
  shows "no_config (fst (io_bind f g w))"
  using assms by (auto simp: io_bind_def no_config_def split: prod.splits sum.splits)

lemma run_rsync_no_config: "no_config (fst (run_rsync E cmd w))"
  unfolding run_rsync_def by (rule io_bind_no_config) (simp_all add: run_child_no_config io_ret_def case_prod_beta)

lemma rsync_outcome_no_config: "no_config (fst (io_lift (rsync_outcome N ctx r) w))"
  by (simp add: io_lift_def rsync_outcome_def case_prod_beta)

lemma rsync_sync_no_config: "ctx_upstream ctx \<noteq> None \<Longrightarrow> no_config (fst (rsync_sync E P ctx w))"
  by (auto simp: rsync_sync_def intro!: io_bind_no_config run_rsync_no_config rsync_outcome_no_config)

lemma two_stage_sync_no_config:
  "ctx_upstream ctx \<noteq> None \<Longrightarrow> map_of STAGE1_PROFILES (rp_stage1_profile P) \<noteq> None \<Longrightarrow> no_config (fst (two_stage_sync E P ctx w))"
  by (auto simp: two_stage_sync_def intro!: io_bind_no_config run_rsync_no_config rsync_outcome_no_config)

lemma docker_outcome_no_config: "no_config (fst (io_lift (docker_outcome N r) w))"
  by (auto simp: io_lift_def docker_outcome_def Let_def case_prod_beta split: option.split)

lemma run_named_container_no_config:
  assumes "validate_docker_options E w (ds_extra_options spec) (ds_extra_volumes spec) (ds_network spec) = Inr u"
  shows "no_config (fst (run_named_container E spec ctx w))"
  using assms by (auto simp: run_named_container_def Let_def intro!: io_bind_no_config run_child_no_config docker_outcome_no_config)

lemma validate_no_options: "validate_docker_options E w [] [] None = Inr ()"
  by (simp add: validate_docker_options_def network_ok_def)

lemma script_outcome_no_config: "no_config (fst (io_lift (the (script_outcome r)) w))"
  by (cases r) (auto simp: io_lift_def script_outcome_def script_failure_def process_result_is_success_def Let_def split: option.split)

lemma script_sync_no_config: "no_config (fst (script_sync E P ctx w))"
  by (auto simp: script_sync_def validate_no_options split: option.split
      intro!: io_bind_no_config run_child_no_config run_named_container_no_config script_outcome_no_config)

lemma git_native_no_config: "no_config (fst (git_native E P ctx url w))"
proof -
  have quarantine: "no_config (fst (quarantine_invalid_dest E dest w))" for dest w
    by (auto simp: quarantine_invalid_dest_def Let_def split: prod.split sum.split)
  have reset: "no_config (fst (git_reset E dest b w))" for dest b w
    by (auto simp: git_reset_def io_ret_def io_err_def intro!: io_bind_no_config run_child_no_config split: prod.split)
  show ?thesis
    by (auto simp: git_native_def Let_def io_ret_def io_err_def intro!: io_bind_no_config run_child_no_config quarantine reset split: prod.split option.split)
qed

lemma git_sync_no_config: "ctx_upstream ctx \<noteq> None \<Longrightarrow> no_config (fst (git_sync E P ctx w))"
  by (auto simp: git_sync_def git_in_container_def Let_def validate_no_options git_native_no_config split: option.split prod.split
      intro!: io_bind_no_config run_named_container_no_config)

lemma http_sync_no_config: "ctx_upstream ctx \<noteq> None \<Longrightarrow> no_config (fst (http_sync H P ctx w))"
  by (auto simp: http_sync_def http_outcome_def http_error_def split: option.split prod.split sum.split FetchError.split)

lemma job_sound_provider:
  assumes "job_sound L job" and "ctx_upstream ctx = upstream job" and "provider_sync H E (build_provider (provider job)) ctx w = (Inl (PConfig m), w')"
  shows "(\<exists>p d forb t excl. provider job = Http p d forb t excl \<and> upstream job = None)
     \<or> (\<exists>img opts vars vols keep net cmd. provider job = Docker img opts vars vols keep net cmd \<and> validate_docker_options E w opts vols net = Inl (PConfig m))"
proof -
  have bad: "\<not> no_config (fst (provider_sync H E (build_provider (provider job)) ctx w))" using assms(3) by (simp add: no_config_def)
  show ?thesis
  proof (cases "provider job")
    case (Docker img opts vars vols keep net cmd)
    have "validate_docker_options E w opts vols net = Inl (PConfig m)"
    proof (cases "validate_docker_options E w opts vols net")
      case (Inl e)
      with assms(3) Docker show ?thesis by (simp add: docker_sync_def run_named_container_def)
    next
      case (Inr u)
      with bad Docker show ?thesis by (simp add: docker_sync_def run_named_container_no_config)
    qed
    with Docker show ?thesis by blast
  next
    case (Http p d forb t excl)
    with bad assms(2) http_sync_no_config show ?thesis by fastforce
  qed (use bad assms(1,2) in \<open>simp_all add: job_sound_def rsync_sync_no_config two_stage_sync_no_config script_sync_no_config git_sync_no_config\<close>)
qed

text \<open>C26: Configuration errors are found when the configuration is loaded, not when a job runs: of the jobs of a loaded configuration only two kinds can make a provider
  answer with a configuration error, an HTTP job without upstream and a Docker job whose options, volumes or network are refused. For rsync, two-stage
  rsync, script and git jobs that is impossible, whatever the processes and the file system do.\<close>

theorem configured_job_errors:
  assumes "load_config C canon root_of L ip path ov = Inr cfg" and "job \<in> set (rc_jobs cfg)" and "ctx_upstream ctx = upstream job"
    and "provider_sync H E (build_provider (provider job)) ctx w = (Inl (PConfig m), w')"
  shows "(\<exists>p d forb t excl. provider job = Http p d forb t excl \<and> upstream job = None)
     \<or> (\<exists>img opts vars vols keep net cmd. provider job = Docker img opts vars vols keep net cmd \<and> validate_docker_options E w opts vols net = Inl (PConfig m))"
proof (rule job_sound_provider [OF _ assms(3,4)])
  show "job_sound L job" using load_config_jobs_sound [OF assms(1)] assms(2) by (simp add: list_all_iff)
qed

section \<open>Merging, cache and limits\<close>

text \<open>C27: Later documents win, key by key: after two documents are merged, a path of keys at which the later one has a value that is no table holds that value, and a path at
  which the later one says nothing holds what the earlier one has there.\<close>

theorem merge_precedence:
  assumes "path_distinct later ks"
  shows "(lookup_path later ks = Some v \<and> \<not> is_table v \<longrightarrow> lookup_path (the (merge_doc (Some earlier) later)) ks = Some v)
     \<and> (silent_about later ks \<longrightarrow> lookup_path (the (merge_doc (Some earlier) later)) ks = lookup_path earlier ks)"
  using lookup_merge_wins [OF assms] lookup_merge_keeps [OF assms] by (simp add: merge_doc_def)

theorem merge_precedence_witness:
  "lookup_path (merge_table [(''api'', TTable [(''listen'', TStr ''a''), (''x'', TInt 1)])] [(''api'', TTable [(''listen'', TStr ''b'')])]) [''api'', ''listen''] = Some (TStr ''b'')
   \<and> lookup_path (merge_table [(''api'', TTable [(''listen'', TStr ''a''), (''x'', TInt 1)])] [(''api'', TTable [(''listen'', TStr ''b'')])]) [''api'', ''x''] = Some (TInt 1)"
  using merge_precedence [of "[(''api'', TTable [(''listen'', TStr ''b'')])]" "[''api'', ''listen'']" "TStr ''b''" "[(''api'', TTable [(''listen'', TStr ''a''), (''x'', TInt 1)])]"]
    merge_precedence [of "[(''api'', TTable [(''listen'', TStr ''b'')])]" "[''api'', ''x'']" "TStr ''b''" "[(''api'', TTable [(''listen'', TStr ''a''), (''x'', TInt 1)])]"]
  by (simp add: merge_doc_def is_table_def)

text \<open>Reads of one process, one after the other, each in the environment of its time.\<close>

fun read_all :: "('s load_env \<times> string) list \<Rightarrow> 's doc_cache \<Rightarrow> (ConfigError + 's CachedDocument) list" where
  "read_all [] cache = []"
| "read_all ((E, path) # rs) cache = (let (r, cache') = read_document E path cache in r # read_all rs cache')"

lemma cache_ok_parse: "le_parse E = le_parse F \<Longrightarrow> cache_ok E cache = cache_ok F cache"
  by (simp add: cache_ok_def parse_document_def)

lemma read_all_transparent:
  fixes F :: "'s load_env" and rs :: "('s load_env \<times> string) list"
  assumes "\<forall>r \<in> set rs. le_parse (fst r) = le_parse F" and "cache_ok F cache"
  shows "read_all rs cache = map (\<lambda>(E, path). fst (read_document E path [])) rs"
  using assms
proof (induction rs arbitrary: cache)
  case (Cons r rs)
  obtain E path where r: "r = (E, path)" by (cases r)
  have E: "le_parse E = le_parse F" using Cons.prems(1) r by simp
  obtain x c where read: "read_document E path cache = (x, c)" by (cases "read_document E path cache")
  from read_document_transparent [of E cache path] have "x = fst (read_document E path [])" "cache_ok F c"
    using Cons.prems(2) by (simp_all add: read cache_ok_parse [OF E])
  with Cons read r show ?case by simp
qed simp

text \<open>C28: The cache of documents is transparent: a process that starts with an empty cache and reads configuration files in any order, while files, their stamps and the variables of
  the environment change between the reads, gets from every read what it would get without a cache.\<close>

theorem document_cache_transparent:
  fixes F :: "'s load_env" and rs :: "('s load_env \<times> string) list"
  assumes "\<forall>r \<in> set rs. le_parse (fst r) = le_parse F"
  shows "read_all rs [] = map (\<lambda>(E, path). fst (read_document E path [])) rs"
  by (rule read_all_transparent [OF assms]) (simp add: cache_ok_def)


section \<open>A configuration\<close>

definition demo_job_doc :: JobDoc where
  "demo_job_doc = \<lparr>jd_name = ''debian'', jd_enabled = True, jd_worker = None, jd_provider = Some ''rsync'', jd_options = [], jd_exclude = [], jd_stage1_profile = None,
     jd_command = None, jd_image = None, jd_docker_options = [], jd_env = [], jd_volumes = [], jd_keep_container = False, jd_docker_network = None, jd_docker_command = [],
     jd_branch = None, jd_parser = None, jd_delete = True, jd_warn_on_forbidden_files = False, jd_threads = None, jd_upstream = Some ''rsync://u/{{name}}'', jd_storage = Some ''/m/{{name}}'',
     jd_mirror_subdir = None, jd_storage_name = None, jd_proxy = None, jd_egress = None, jd_family = ''any'', jd_timeout = None, jd_retry = 1, jd_retry_delay = ''5m'',
     jd_retry_backoff = Fin 2, jd_success_exit_codes = [], jd_fail_on_match = None, jd_max_concurrency = 1, jd_misfire_policy = ''skip'', jd_on_worker_lost = ''retry'',
     jd_timezone = ''UTC'', jd_statistics = ''provider'', jd_resources = [], jd_priority = 0, jd_schedule = Some ''manual'', jd_cron = None, jd_at = None, jd_weekday = None, jd_every = None,
     jd_hooks = hooks demo_sync_job, jd_safety = safety demo_sync_job, jd_snapshot_policy = ''never'', jd_snapshot_failure = snapshot_failure demo_sync_job,
     jd_verify = verify demo_sync_job, jd_memory_limit = None, jd_cpu_limit = None, jd_depends_on = []\<rparr>"

definition demo_http_doc :: JobDoc where
  "demo_http_doc = demo_job_doc\<lparr>jd_name := ''web'', jd_provider := Some ''http'', jd_parser := Some ''nginx'', jd_upstream := None\<rparr>"

definition demo_lib :: config_lib where
  "demo_lib = \<lparr>cl_regex_ok = (\<lambda>_. True), cl_timezone = (\<lambda>z. z = ''UTC''), cl_time_parse = (\<lambda>_. None), cl_parser_known = (\<lambda>q. q = ''nginx''),
     cl_socket = (\<lambda>s. Some s), cl_var = (\<lambda>_. None)\<rparr>"

text \<open>One file with a job of each kind.\<close>

definition demo_load :: "nat load_env" where
  "demo_load = \<lparr>le_stamp = (\<lambda>_. Some 0), le_file = (\<lambda>_. Some ''x''), le_vars = (\<lambda>_. None),
     le_parse = (\<lambda>_. Inr ([(''jobs'', TTables [[(''name'', TStr ''debian'')], [(''name'', TStr ''web'')]])], \<lparr>sp_jobs = [Some 0, Some 0], sp_name = None, sp_include = None\<rparr>)),
     le_job = (\<lambda>t. Inr (if t = [(''name'', TStr ''web'')] then demo_http_doc else demo_job_doc)), le_glob = (\<lambda>_. Inr []), le_exists = (\<lambda>_. False),
     le_parent = (\<lambda>_. []), le_join = (\<lambda>a b. a @ b)\<rparr>"

definition demo_entries :: "JobEntry list" where
  "demo_entries = [\<lparr>je_doc = demo_job_doc, je_file = ''m'', je_line = 1\<rparr>, \<lparr>je_doc = demo_http_doc, je_file = ''m'', je_line = 1\<rparr>]"

definition no_overrides :: CliOverrides where
  "no_overrides = \<lparr>ov_db_kind = None, ov_db_path = None, ov_db_url = None, ov_api_listen = None\<rparr>"

abbreviation demo_root :: "table \<Rightarrow> string + RootDoc" where
  "demo_root \<equiv> \<lambda>_. Inr root_doc_default"

lemma demo_expand: "expand_env (\<lambda>_. None) ''m'' ''x'' = Inr ''x''"
  by (simp add: expand_env_no_dollar MAX_CONFIG_BYTES_def)

lemma demo_read: "fst (read_document demo_load ''m'' []) = Inr \<lparr>cd_stamp = 0, cd_raw = ''x'', cd_expanded = ''x'',
    cd_doc = [(''jobs'', TTables [[(''name'', TStr ''debian'')], [(''name'', TStr ''web'')]])], cd_job_lines = [1, 1], cd_include_line = 0\<rparr>"
  using demo_expand
  by (simp add: read_document_def fresh_document_def parse_document_def job_line_numbers_def line_of_def newlines_def demo_load_def MAX_CONFIG_BYTES_def)

lemma demo_documents:
  "le_job demo_load [(''name'', TStr ''debian'')] = Inr demo_job_doc" "le_job demo_load [(''name'', TStr ''web'')] = Inr demo_http_doc"
  by (simp_all add: demo_load_def)

lemma demo_loaded: "load_documents demo_load Some demo_root ''m'' False = Inr (root_doc_default, demo_entries)"
  using demo_read
  by (simp add: load_documents_def load_own_def empty_load_def MAX_CONFIG_FILES_def MAX_CONFIG_BYTES_def extract_include_def
      extract_jobs_def job_entry_def nth_or_def merge_doc_def demo_entries_def demo_documents)

lemma demo_texts:
  "\<not> contains_str ''..'' ''debian''" "\<not> contains_str ''..'' ''web''" "segments_ok ''debian''" "segments_ok ''web''"
  "expand_name ''debian'' ''rsync://u/{{name}}'' = ''rsync://u/debian''" "expand_name ''debian'' ''/m/{{name}}'' = ''/m/debian''" "expand_name ''web'' ''/m/{{name}}'' = ''/m/web''"
  "\<not> parent_components ''/m/debian''" "\<not> parent_components ''/m/web''" "starts_with ''.'' ''debian'' = False" "starts_with ''.'' ''web'' = False"
  by code_simp+

lemma demo_delay: "parse_duration_human ''5m'' = Inr 300"
  by (simp add: parse_duration_human_def duration_step_def push_digit_def is_digit_def digit_val_def is_unit_def unit_secs_def checked_secs_def u64_as_i64_def u64_max_def i64_min_def i64_max_def)

lemmas demo_job_eval = job_of_doc_def demo_job_doc_def demo_lib_def check_def required_def relabel_def one_of_def name_plain_def resolve_schedule_def resolve_kind_def foreign_field_def
  resolve_provider_def resolve_storage_def resolve_timeout_def misfire_names_def lost_names_def statistics_names_def policy_names_def demo_texts demo_delay

lemma demo_job_of_doc:
  "case job_of_doc demo_lib demo_job_doc of Inr job \<Rightarrow> name job = ''debian'' \<and> provider job = Rsync [] [] \<and> upstream job = Some ''rsync://u/debian'' | Inl _ \<Rightarrow> False"
  by (simp add: demo_job_eval)

lemma demo_job_of_http:
  "case job_of_doc demo_lib demo_http_doc of Inr job \<Rightarrow> name job = ''web'' \<and> provider job = Http ''nginx'' True False None [] \<and> upstream job = None | Inl _ \<Rightarrow> False"
  by (simp add: demo_job_eval demo_http_doc_def)

lemma demo_resolved:
  obtains c where "resolve_config demo_lib (\<lambda>_. None) root_doc_default demo_entries = Inr c" "map name (rc_jobs c) = [''debian'', ''web'']"
    "map provider (rc_jobs c) = [Rsync [] [], Http ''nginx'' True False None []]" "map upstream (rc_jobs c) = [Some ''rsync://u/debian'', None]"
proof -
  obtain a b where a: "job_of_doc demo_lib demo_job_doc = Inr a" "name a = ''debian''" "provider a = Rsync [] []" "upstream a = Some ''rsync://u/debian''"
    and b: "job_of_doc demo_lib demo_http_doc = Inr b" "name b = ''web''" "provider b = Http ''nginx'' True False None []" "upstream b = None"
    using demo_job_of_doc demo_job_of_http by (auto split: sum.splits)
  have names: "jd_name demo_job_doc = ''debian''" "jd_name demo_http_doc = ''web''" by (simp_all add: demo_job_doc_def demo_http_doc_def)
  obtain jobs where jobs: "resolve_jobs demo_lib None [] demo_entries = Inr jobs" "map name jobs = [''debian'', ''web'']"
    "map provider jobs = [Rsync [] [], Http ''nginx'' True False None []]" "map upstream jobs = [Some ''rsync://u/debian'', None]"
    using a b by (simp add: demo_entries_def names resolve_job_def)
  have "parse_proxies [] = Inr ([], [])" "parse_egress (\<lambda>_. None) [] = Inr ([], [])" "parse_storage [] = Inr []" "resolve_tokens [] [] = Inr []"
    by (simp_all add: parse_proxies_def parse_egress_def parse_storage_def parse_section_def extra_table_def)
  with jobs that show ?thesis
    by (simp add: resolve_config_def root_doc_default_def daemon_doc_default_def db_doc_default_def api_doc_default_def resolve_db_def resolve_api_def default_worker_of_def demo_lib_def)
qed

lemma demo_config:
  obtains cfg where "load_config demo_load Some demo_root demo_lib (\<lambda>_. None) ''m'' no_overrides = Inr cfg" "map name (rc_jobs cfg) = [''debian'', ''web'']"
    "map provider (rc_jobs cfg) = [Rsync [] [], Http ''nginx'' True False None []]" "map upstream (rc_jobs cfg) = [Some ''rsync://u/debian'', None]"
proof -
  obtain c where c: "resolve_config demo_lib (\<lambda>_. None) root_doc_default demo_entries = Inr c" "map name (rc_jobs c) = [''debian'', ''web'']"
    "map provider (rc_jobs c) = [Rsync [] [], Http ''nginx'' True False None []]" "map upstream (rc_jobs c) = [Some ''rsync://u/debian'', None]"
    using demo_resolved by blast
  have "apply_env_overrides demo_lib c = Inr c" "apply_cli_overrides demo_lib no_overrides c = Inr c"
    by (simp_all add: apply_env_overrides_def apply_cli_overrides_def demo_lib_def no_overrides_def)
  with c that show ?thesis by (simp add: load_config_def demo_loaded)
qed


theorem configured_job_errors_witness:
  "\<exists>cfg job. load_config demo_load Some demo_root demo_lib (\<lambda>_. None) ''m'' no_overrides = Inr cfg \<and> job \<in> set (rc_jobs cfg)
     \<and> provider_sync demo_http demo_proc (build_provider (provider job)) (demo_ctx\<lparr>ctx_upstream := upstream job\<rparr>) 0
         = (Inl (PConfig ''http provider requires `upstream`''), 0) \<and> upstream job = None"
proof -
  obtain cfg where cfg: "load_config demo_load Some demo_root demo_lib (\<lambda>_. None) ''m'' no_overrides = Inr cfg"
    and p: "map provider (rc_jobs cfg) = [Rsync [] [], Http ''nginx'' True False None []]" and u: "map upstream (rc_jobs cfg) = [Some ''rsync://u/debian'', None]"
    by (rule demo_config)
  from p u obtain a job where jobs: "rc_jobs cfg = [a, job]" "provider job = Http ''nginx'' True False None []" "upstream job = None" by auto
  have run: "provider_sync demo_http demo_proc (build_provider (provider job)) (demo_ctx\<lparr>ctx_upstream := upstream job\<rparr>) 0
         = (Inl (PConfig ''http provider requires `upstream`''), 0)"
    by (simp add: jobs http_sync_def)
  have "job \<in> set (rc_jobs cfg)" using jobs by simp
  from configured_job_errors [OF cfg this _ run] jobs have "upstream job = None" by simp
  with cfg \<open>job \<in> set (rc_jobs cfg)\<close> run show ?thesis by blast
qed

theorem document_cache_transparent_witness:
  "read_all [(demo_load, ''m''), (demo_load\<lparr>le_file := (\<lambda>_. Some ''y'')\<rparr>, ''m''), (demo_load, ''m'')] []
     = map (\<lambda>(E, path). fst (read_document E path [])) [(demo_load, ''m''), (demo_load\<lparr>le_file := (\<lambda>_. Some ''y'')\<rparr>, ''m''), (demo_load, ''m'')]"
  by (rule document_cache_transparent [of _ demo_load]) simp


end
