(* ===== verification/Run_Logs.thy ===== *)
theory Run_Logs
  imports Storage Command_Runner "HOL-Library.AList"
begin

text \<open>
  Run logs and repository sizes of the engine: \<open>engine/src/logs.rs\<close>. The directory of a job's logs is a list of named entries in the order in which it is read;
  what the system calls answer is the record \<open>log_env\<close>. The sizes of a repository come from the output of \<open>zfs\<close> and \<open>btrfs\<close> or from a walk over its tree.
\<close>

section \<open>Definitions\<close>

subsection \<open>Opening a log\<close>

text \<open>The text of a symbolic link is its target. The time is the one of \<open>metadata\<close>, which may fail.\<close>

record log_entry =
  en_regular :: bool
  en_mtime :: "int option"
  en_text :: string

type_synonym log_dir = "(string \<times> log_entry) list"

record log_env =
  lv_mkdir :: "string option"
  lv_stamp :: "string + string"                    \<comment> \<open>year, month, day, hour and minute\<close>
  lv_create :: "string \<Rightarrow> string option"          \<comment> \<open>an error other than an existing file\<close>
  lv_link :: "string option"
  lv_rename :: "string option"
  lv_mtime :: int
  lv_readable :: bool
  lv_unlink_fails :: "string \<Rightarrow> bool"
  lv_date :: "string \<Rightarrow> int option"              \<comment> \<open>a date as a number of days\<close>
  lv_today :: int

definition log_name_ok :: "string \<Rightarrow> bool" where
  "log_name_ok n \<longleftrightarrow> \<not> (n = [] \<or> n = ''.'' \<or> contains_str ''..'' n \<or> CHR ''/'' \<in> set n \<or> CHR 0x5C \<in> set n \<or> CHR 0x00 \<in> set n)"

definition log_name :: "string \<Rightarrow> string \<Rightarrow> nat \<Rightarrow> string" where
  "log_name n stamp sequence = n @ ''_'' @ stamp @ (if sequence = 1 then [] else ''_'' @ show_nat sequence) @ ''.log''"

lemma log_name_inj: "log_name n stamp i = log_name n stamp j \<Longrightarrow> i = j"
  using digits_val_show_nat by (auto simp: log_name_def split: if_splits) metis

lemma log_names_finite: "finite {i. log_name n stamp i \<in> set names}"
proof -
  have "inj_on (log_name n stamp) A" for A by (auto intro: inj_onI log_name_inj)
  then show ?thesis by (rule finite_imageD [rotated]) (rule finite_subset [of _ "set names"], auto)
qed

text \<open>The loop over sequence numbers; it ends since a directory has finitely many entries.\<close>

function open_new :: "log_env \<Rightarrow> string \<Rightarrow> string \<Rightarrow> string list \<Rightarrow> nat \<Rightarrow> string + string" where
  "open_new E n stamp names sequence =
     (let f = log_name n stamp sequence in
      if f \<in> set names then open_new E n stamp names (sequence + 1)
      else (case lv_create E f of Some e \<Rightarrow> Err e | None \<Rightarrow> Ok f))"
  by pat_completeness auto

termination
proof (relation "measure (\<lambda>(E, n, stamp, names, i). card {j. log_name n stamp j \<in> set names \<and> i \<le> j})")
  fix E :: log_env and n stamp names i f
  assume f: "f = log_name n stamp i" "f \<in> set names"
  let ?A = "\<lambda>i. {j. log_name n stamp j \<in> set names \<and> i \<le> j}"
  have "finite (?A i)" by (rule finite_subset [OF _ log_names_finite [of n stamp names]]) blast
  moreover have "i \<in> ?A i" "i \<notin> ?A (i + 1)" using f by simp_all
  moreover have "?A (i + 1) \<subseteq> ?A i" by (simp add: Collect_mono)
  ultimately have "card (?A (i + 1)) < card (?A i)" by (blast intro: psubset_card_mono)
  then show "((E, n, stamp, names, i + 1), E, n, stamp, names, i) 
      \<in> measure (\<lambda>(E, n, stamp, names, i). card {j. log_name n stamp j \<in> set names \<and> i \<le> j})" by simp
qed simp

declare open_new.simps [simp del]

definition remove_files :: "log_env \<Rightarrow> string list \<Rightarrow> log_dir \<Rightarrow> log_dir" where
  "remove_files E names dir = filter (\<lambda>(n, _). n \<notin> set names \<or> lv_unlink_fails E n) dir"

definition is_run_log :: "string \<Rightarrow> string \<Rightarrow> bool" where
  "is_run_log n f \<longleftrightarrow> starts_with (n @ ''_'') f \<and> ends_with ''.log'' f"

text \<open>The run logs with their times, oldest first.\<close>

definition run_logs :: "string \<Rightarrow> log_dir \<Rightarrow> (int \<times> string) list" where
  "run_logs n dir = sort_key fst (filter_map (\<lambda>(f, e). if is_run_log n f then map_option (\<lambda>t. (t, f)) (en_mtime e) else None) dir)"

definition prune_run_logs :: "log_env \<Rightarrow> string \<Rightarrow> nat \<Rightarrow> log_dir \<Rightarrow> log_dir" where
  "prune_run_logs E n keep dir =
     (if \<not> lv_readable E then dir
      else let files = run_logs n dir in remove_files E (map snd (take (length files - keep) files)) dir)"

definition expired_daily :: "log_env \<Rightarrow> string \<times> log_entry \<Rightarrow> bool" where
  "expired_daily E = (\<lambda>(f, e). en_regular e \<and> ends_with ''.log'' f
     \<and> (case lv_date E (take (length f - 4) f) of None \<Rightarrow> False | Some d \<Rightarrow> d < lv_today E - 30))"

definition prune_daily_logs :: "log_env \<Rightarrow> log_dir \<Rightarrow> log_dir" where
  "prune_daily_logs E dir = (if \<not> lv_readable E then dir else remove_files E (map fst (filter (expired_daily E) dir)) dir)"

text \<open>\<open>open_at\<close>: the name of the new log and the directory. A link that was made but not renamed stays behind under a name that begins with a dot.\<close>

definition open_at :: "log_env \<Rightarrow> string \<Rightarrow> string \<Rightarrow> log_dir \<Rightarrow> (string + string) \<times> log_dir" where
  "open_at E n temp dir =
     (if \<not> log_name_ok n then (Err ''invalid job name'', dir)
      else case lv_mkdir E of
        Some e \<Rightarrow> (Err e, dir)
      | None \<Rightarrow>
          (case lv_stamp E of
             Inl e \<Rightarrow> (Err e, dir)
           | Inr stamp \<Rightarrow>
               (case open_new E n stamp (map fst dir) 1 of
                  Inl e \<Rightarrow> (Err e, dir)
                | Inr f \<Rightarrow>
                    let d1 = dir @ [(f, \<lparr>en_regular = True, en_mtime = Some (lv_mtime E), en_text = []\<rparr>)];
                        link = \<lparr>en_regular = False, en_mtime = Some (lv_mtime E), en_text = f\<rparr>
                    in case lv_link E of
                         Some e \<Rightarrow> (Err e, d1)
                       | None \<Rightarrow>
                           (case lv_rename E of
                              Some e \<Rightarrow> (Err e, AList.update temp link d1)
                            | None \<Rightarrow> (Ok f, prune_daily_logs E (prune_run_logs E n 20 (AList.update ''current.log'' link d1)))))))"

text \<open>\<open>raw\<close> and \<open>line\<close>; the time stamp of a line is an argument.\<close>

definition log_raw :: "bool \<Rightarrow> string \<Rightarrow> string \<Rightarrow> string" where
  "log_raw locked txt' data = log_append locked txt' data"

definition log_line :: "bool \<Rightarrow> string \<Rightarrow> string \<Rightarrow> string \<Rightarrow> string" where
  "log_line locked stamp txt' msg = log_raw locked txt' (stamp @ '' '' @ msg @ [CHR 0x0A])"

subsection \<open>Sizes\<close>

text \<open>A line counts if its mountpoint is the wanted one, without slashes at the end; the first field is its size.\<close>

definition zfs_used_line :: "string \<Rightarrow> string \<Rightarrow> (nat \<times> nat) option" where
  "zfs_used_line want line =
     (case split_char (CHR 0x09) line of
        used # mp0 # _ \<Rightarrow>
          (let mp = trim_end_where is_slash (trim mp0) in
           if mp = [] \<or> want \<noteq> mp then None else map_option (\<lambda>u. (length mp, u)) (parse_unsigned u64_max used))
      | _ \<Rightarrow> None)"

definition better_size :: "(nat \<times> nat) option \<Rightarrow> (nat \<times> nat) option \<Rightarrow> (nat \<times> nat) option" where
  "better_size best new =
     (case (best, new) of
        (_, None) \<Rightarrow> best
      | (None, Some x) \<Rightarrow> Some x
      | (Some (s, _), Some (score, u)) \<Rightarrow> if score \<ge> s then Some (score, u) else best)"

definition parse_zfs_used :: "string \<Rightarrow> string \<Rightarrow> nat option" where
  "parse_zfs_used out path =
     (let want = trim_end_where is_slash path
      in map_option snd (foldl (\<lambda>best line. better_size best (zfs_used_line want line)) None (str_lines out)))"

definition qgroup_line :: "string \<Rightarrow> string \<Rightarrow> nat option" where
  "qgroup_line key line =
     (case split_whitespace line of k # v # _ \<Rightarrow> if k = key then parse_unsigned u64_max v else None | _ \<Rightarrow> None)"

definition qgroup_used :: "nat \<Rightarrow> string \<Rightarrow> nat option" where
  "qgroup_used i out = head_opt (filter_map (qgroup_line (''0/'' @ show_nat i)) (str_lines out))"

text \<open>\<open>run\<close> is a control command: its output if it could be run and ended with exit code 0.\<close>

definition zfs_used_for :: "(string \<Rightarrow> string list \<Rightarrow> string option) \<Rightarrow> string \<Rightarrow> nat option" where
  "zfs_used_for run path = Option.bind (run ''zfs'' [''list'', ''-Hp'', ''-o'', ''used,mountpoint'']) (\<lambda>out. parse_zfs_used out path)"

definition btrfs_used_for :: "(string \<Rightarrow> string list \<Rightarrow> string option) \<Rightarrow> string \<Rightarrow> nat option" where
  "btrfs_used_for run path =
     Option.bind (run ''btrfs'' [''inspect-internal'', ''rootid'', path]) (\<lambda>i.
     Option.bind (parse_unsigned u64_max (trim i)) (\<lambda>n.
     Option.bind (run ''btrfs'' [''qgroup'', ''show'', ''--raw'', path]) (qgroup_used n)))"

definition measure_repo_size :: "(string \<Rightarrow> string list \<Rightarrow> string option) \<Rightarrow> string \<Rightarrow> nat option" where
  "measure_repo_size run path = coalesce (zfs_used_for run path) (btrfs_used_for run path)"

subsection \<open>Walk\<close>

text \<open>A tree as the walk sees it: a directory that cannot be read has no entries, and an entry without metadata is of the other kind, as are links.\<close>

datatype node = NDir "node list" | NFile nat | NOther

definition subdirs :: "node list \<Rightarrow> node list list" where
  "subdirs es = filter_map (\<lambda>e. case e of NDir ds \<Rightarrow> Some ds | _ \<Rightarrow> None) es"

definition file_sizes :: "node list \<Rightarrow> nat list" where
  "file_sizes es = filter_map (\<lambda>e. case e of NFile n \<Rightarrow> Some n | _ \<Rightarrow> None) es"

definition weight :: "node list \<Rightarrow> nat" where
  "weight es = Suc (sum_list (map size es))"

lemma weight_subdirs: "sum_list (map weight (subdirs es)) < weight es"
proof -
  have "size_list size ds = sum_list (map size ds) + length ds" for ds :: "node list" by (induction ds) auto
  then show ?thesis by (induction es) (auto simp: subdirs_def weight_def split: node.splits)
qed

text \<open>The stack has the entries of the directories that are still to be visited; the last one pushed is visited next.\<close>

function walk_loop :: "node list list \<Rightarrow> nat \<times> nat \<Rightarrow> nat \<times> nat" where
  "walk_loop [] acc = acc"
| "walk_loop (es # stack) (files, bytes) =
     walk_loop (rev (subdirs es) @ stack) (files + length (file_sizes es), bytes + sum_list (file_sizes es))"
  by pat_completeness auto

termination
  by (relation "measure (\<lambda>(stack, _). sum_list (map weight stack))") (use weight_subdirs in \<open>auto simp: rev_map [symmetric]\<close>)

definition walk_tree :: "node list \<Rightarrow> nat \<times> nat" where
  "walk_tree es = walk_loop [es] (0, 0)"

definition walk_size :: "node list \<Rightarrow> nat" where
  "walk_size es = snd (walk_tree es)"

section \<open>Laws\<close>

subsection \<open>New logs\<close>

lemma open_new_fresh: "open_new E n stamp names i = Inr f \<Longrightarrow> f \<notin> set names \<and> (\<exists>j \<ge> i. f = log_name n stamp j)"
proof (induction E n stamp names i rule: open_new.induct)
  case (1 E n stamp names i)
  show ?case
  proof (cases "log_name n stamp i \<in> set names")
    case True
    with "1.prems" have "open_new E n stamp names (i + 1) = Inr f" by (simp add: open_new.simps [of E n stamp names i])
    with "1.IH" [OF refl True] show ?thesis by (meson add_leE)
  next
    case False
    with "1.prems" have "f = log_name n stamp i" by (simp add: open_new.simps [of E n stamp names i] Let_def split: option.splits)
    with False show ?thesis by auto
  qed
qed

lemma remove_files_at: "map_of (remove_files E names dir) f = (if f \<in> set names \<and> \<not> lv_unlink_fails E f then None else map_of dir f)"
  by (induction dir) (auto simp: remove_files_def)

lemma ends_with_self [simp]: "ends_with b (a @ b)"
  by (simp add: ends_with_def suffix_def)

lemma log_name_is_run_log: "is_run_log n (log_name n stamp i)"
  using ends_with_self [of "''.log''" "n @ ''_'' @ stamp @ (if i = 1 then [] else ''_'' @ show_nat i)"]
  by (simp add: is_run_log_def log_name_def starts_with_def)

text \<open>Of two run logs of which one is removed and one is kept the removed one is not the newer one.\<close>

lemma pruned_older:
  assumes "(t, f) \<in> set (take (length (run_logs n dir) - keep) (run_logs n dir))" and "(t', f') \<in> set (drop (length (run_logs n dir) - keep) (run_logs n dir))"
  shows "t \<le> t'"
proof -
  have sorted: "sorted (map fst (run_logs n dir))" by (simp add: run_logs_def)
  have "sorted (map fst (take k (run_logs n dir)) @ map fst (drop k (run_logs n dir)))" for k
    using sorted by (simp flip: map_append)
  with assms show ?thesis by (fastforce simp: sorted_append)
qed

text \<open>A log is removed only if as many others are at least as new as are to be kept.\<close>

lemma pruned_has_newer:
  assumes "(t, f) \<in> set (take (length (run_logs n dir) - keep) (run_logs n dir))"
  shows "keep \<le> length (filter (\<lambda>(t', _). t \<le> t') (drop (length (run_logs n dir) - keep) (run_logs n dir)))"
proof -
  let ?new = "drop (length (run_logs n dir) - keep) (run_logs n dir)"
  have "filter (\<lambda>(t', _). t \<le> t') ?new = ?new" using pruned_older [OF assms] by (auto simp: filter_id_conv)
  moreover have "length (run_logs n dir) - keep \<noteq> 0" using assms by (cases "length (run_logs n dir) - keep") auto
  then have "keep \<le> length ?new" by simp
  ultimately show ?thesis by simp
qed

lemma run_log_underscore: "is_run_log n f \<Longrightarrow> CHR ''_'' \<in> set f"
  by (auto simp: is_run_log_def starts_with_def prefix_def)

lemma current_log_no_run_log: "\<not> is_run_log n ''current.log''"
  using run_log_underscore [of n "''current.log''"] by auto

lemma pruned_run_logs: "f \<in> set (map snd (take k (run_logs n dir))) \<Longrightarrow> is_run_log n f"
  using set_take_subset [of k "run_logs n dir"] by (fastforce simp: run_logs_def set_filter_map split: if_splits)

lemma prune_run_logs_at: "map_of (prune_run_logs E n keep dir) g = map_of dir g \<or> map_of (prune_run_logs E n keep dir) g = None \<and> is_run_log n g"
  using pruned_run_logs [of g] by (auto simp: prune_run_logs_def Let_def remove_files_at)

lemma prune_daily_logs_at:
  "distinct (map fst dir) \<Longrightarrow> map_of (prune_daily_logs E dir) g = map_of dir g
     \<or> map_of (prune_daily_logs E dir) g = None \<and> (\<exists>e. map_of dir g = Some e \<and> expired_daily E (g, e))"
  by (auto simp: prune_daily_logs_def remove_files_at)

text \<open>
  A new log does not touch the others: its name is new, \<open>current.log\<close> points to it, and every other entry either is as it was, or was removed since it is an old run log or
  an expired daily log.
\<close>

lemma open_at_new:
  assumes "open_at E n temp dir = (Inr f, dir')" and "distinct (map fst dir)"
  shows "f \<notin> fst ` set dir \<and> is_run_log n f \<and> (\<exists>e. map_of dir' ''current.log'' = Some e \<and> en_text e = f)
    \<and> (g \<noteq> f \<and> g \<noteq> ''current.log'' \<longrightarrow> map_of dir' g = map_of dir g \<or> map_of dir' g = None \<and> (is_run_log n g \<or> (\<exists>e. map_of dir g = Some e \<and> expired_daily E (g, e))))"
proof -
  let ?new = "\<lparr>en_regular = True, en_mtime = Some (lv_mtime E), en_text = []\<rparr>" and ?link = "\<lparr>en_regular = False, en_mtime = Some (lv_mtime E), en_text = f\<rparr>"
  from assms(1) obtain stamp where new: "open_new E n stamp (map fst dir) 1 = Inr f"
    and dir': "dir' = prune_daily_logs E (prune_run_logs E n 20 (AList.update ''current.log'' ?link (dir @ [(f, ?new)])))"
    by (auto simp: open_at_def Let_def split: if_splits option.splits sum.splits)
  from open_new_fresh [OF new] have fresh: "f \<notin> fst ` set dir" and run: "is_run_log n f" using log_name_is_run_log by auto
  let ?d1 = "AList.update ''current.log'' ?link (dir @ [(f, ?new)])"
  let ?d2 = "prune_run_logs E n 20 ?d1"
  have "distinct (map fst ?d1)" using assms(2) fresh by (intro distinct_update) auto
  then have d2: "distinct (map fst ?d2)" by (auto simp: prune_run_logs_def remove_files_def Let_def distinct_map_filter)
  have not_f: "f \<noteq> ''current.log''" using run current_log_no_run_log by blast
  have none: "map_of dir f = None" using fresh by (simp add: map_of_eq_None_iff)
  have at1: "map_of ?d1 g = (if g = ''current.log'' then Some ?link else if g = f then Some ?new else map_of dir g)" for g
    using none not_f by (auto simp: update_conv' map_add_def split: option.splits)
  have "map_of dir' ''current.log'' = Some ?link"
    using prune_daily_logs_at [OF d2, of E "''current.log''"] prune_run_logs_at [of E n 20 ?d1 "''current.log''"] current_log_no_run_log [of n]
    by (auto simp: dir' at1 expired_daily_def)
  moreover have "g \<noteq> f \<and> g \<noteq> ''current.log'' \<longrightarrow> map_of dir' g = map_of dir g \<or> map_of dir' g = None \<and> (is_run_log n g \<or> (\<exists>e. map_of dir g = Some e \<and> expired_daily E (g, e)))"
    using prune_daily_logs_at [OF d2, of E g] prune_run_logs_at [of E n 20 ?d1 g] by (auto simp: dir' at1)
  ultimately show ?thesis using fresh run by simp
qed

subsection \<open>Walk\<close>

text \<open>The reference: files and bytes by recursion over the tree.\<close>

fun total :: "node \<Rightarrow> nat \<times> nat" where
  "total (NDir es) = (sum_list (map (fst \<circ> total) es), sum_list (map (snd \<circ> total) es))"
| "total (NFile n) = (1, n)"
| "total NOther = (0, 0)"

lemma total_split:
  "sum_list (map (fst \<circ> total) es) = length (file_sizes es) + sum_list (map (fst \<circ> total \<circ> NDir) (subdirs es))"
  "sum_list (map (snd \<circ> total) es) = sum_list (file_sizes es) + sum_list (map (snd \<circ> total \<circ> NDir) (subdirs es))"
  by (induction es) (auto simp: file_sizes_def subdirs_def split: node.splits)

lemma walk_loop_total:
  "walk_loop stack (files, bytes) = (files + sum_list (map (fst \<circ> total \<circ> NDir) stack), bytes + sum_list (map (snd \<circ> total \<circ> NDir) stack))"
proof (induction stack "(files, bytes)" arbitrary: files bytes rule: walk_loop.induct)
  case (2 es stack files bytes)
  then show ?case using total_split [of es] by (simp add: rev_map [symmetric] comp_def)
qed simp

text \<open>The loop over a stack counts what the recursion counts.\<close>

lemma walk_tree_total: "walk_tree es = total (NDir es)"
  by (simp add: walk_tree_def walk_loop_total comp_def)

subsection \<open>Sizes\<close>

text \<open>The size of a repository is read from a line with exactly its mountpoint, never from the one of a parent.\<close>

lemma zfs_fold_from: "foldl (\<lambda>best line. better_size best (zfs_used_line want line)) b ls = Some x \<Longrightarrow> b = Some x \<or> (\<exists>l \<in> set ls. zfs_used_line want l = Some x)"
proof (induction ls arbitrary: b)
  case (Cons l ls)
  then have "better_size b (zfs_used_line want l) = Some x \<or> (\<exists>l \<in> set ls. zfs_used_line want l = Some x)" by simp
  moreover have "better_size b n = Some x \<Longrightarrow> b = Some x \<or> n = Some x" for n
    by (cases b; cases n) (auto simp: better_size_def split: if_splits)
  ultimately show ?case by auto
qed simp

lemma parse_zfs_used_exact:
  assumes "parse_zfs_used out path = Some u"
  shows "\<exists>line used mp rest. line \<in> set (str_lines out) \<and> split_char (CHR 0x09) line = used # mp # rest
     \<and> trim_end_where is_slash (trim mp) = trim_end_where is_slash path \<and> parse_unsigned u64_max used = Some u"
proof -
  from assms obtain score line where "line \<in> set (str_lines out)" "zfs_used_line (trim_end_where is_slash path) line = Some (score, u)"
    using zfs_fold_from [of "trim_end_where is_slash path" None] by (fastforce simp: parse_zfs_used_def Let_def)
  then show ?thesis by (auto simp: zfs_used_line_def Let_def split: list.splits if_splits)
qed

end
