(* ===== verification/Resources.thy ===== *)
theory Resources
  imports Engine Text_Util
begin

text \<open>
  The resources of a run: control groups (\<open>engine/src/cgroup.rs\<close>) and the figures of \<open>/proc\<close> (\<open>engine/src/executor.rs\<close>). The result of an operation on control groups is the files it
  writes; what the kernel answers is a function from paths to texts, and a listing of \<open>/proc\<close> a list of names with the two files that are read. Floating point operations are parameters.
\<close>

section \<open>Definitions\<close>

text \<open>\<open>v2\<close>: the file of the controllers exists; \<open>mkdir\<close>: the directory could be made. Errors of the writes are ignored. The identifier of a run is ASCII text.\<close>

definition scope_path :: "string \<Rightarrow> string \<Rightarrow> string \<Rightarrow> string" where
  "scope_path base job rid = path_join base (job @ ''-'' @ take 8 rid)"

definition create_scope ::
  "float_ops \<Rightarrow> bool \<Rightarrow> (string \<Rightarrow> bool) \<Rightarrow> string \<Rightarrow> string \<Rightarrow> string \<Rightarrow> nat option \<Rightarrow> f64 option \<Rightarrow> (string \<times> (string \<times> string) list) option" where
  "create_scope F v2 mkdir base job rid mem_max cpu_max =
     (let path = scope_path base job rid in
      if \<not> v2 \<or> \<not> mkdir path then None
      else Some (path,
        (case mem_max of None \<Rightarrow> [] | Some mem \<Rightarrow> [(path_join path ''memory.max'', show_nat mem)])
        @ (case cpu_max of None \<Rightarrow> []
           | Some cpu \<Rightarrow> [(path_join path ''cpu.max'', show_nat (f64_as_u64 (fmul F cpu (Fin 100000))) @ '' 100000'')])))"

definition attach_scope :: "string \<Rightarrow> nat \<Rightarrow> string \<times> string" where
  "attach_scope path pid = (path_join path ''cgroup.procs'', show_nat pid)"

definition usage_usec :: "string \<Rightarrow> nat" where
  "usage_usec s =
     opt_default 0 (Option.bind (head_opt (filter_map (strip_prefix ''usage_usec '') (str_lines s))) (\<lambda>v. parse_unsigned u64_max (trim v)))"

definition scope_usage :: "float_ops \<Rightarrow> (string \<Rightarrow> string option) \<Rightarrow> string \<Rightarrow> (nat \<times> f64) option" where
  "scope_usage F sysfs path =
     Option.bind (sysfs (path_join path ''memory.current'')) (\<lambda>m.
     Option.bind (parse_unsigned u64_max (trim m)) (\<lambda>mem.
       let usec = (case sysfs (path_join path ''cpu.stat'') of None \<Rightarrow> 0 | Some s \<Rightarrow> usage_usec s)
       in Some (mem, fdiv F (of_u64 F usec) (Fin 1000000))))"

text \<open>The group of this process, with the write that enables the controllers of its children.\<close>

definition current_cgroup_dir :: "string option \<Rightarrow> (string \<Rightarrow> bool) \<Rightarrow> (string \<times> (string \<times> string)) option" where
  "current_cgroup_dir own exists' =
     Option.bind own (\<lambda>s.
     Option.bind (head_opt (filter_map (strip_prefix ''0::'') (str_lines s))) (\<lambda>rel0.
       let rel = trim_start_where is_slash (trim rel0);
           dir = (if rel = [] then ''/sys/fs/cgroup'' else path_join ''/sys/fs/cgroup'' rel)
       in if exists' (path_join dir ''cgroup.controllers'') \<or> exists' dir
          then Some (dir, (path_join dir ''cgroup.subtree_control'', ''+memory +cpu +pids'')) else None))"

subsection \<open>Figures of processes\<close>

definition network_bps :: "float_ops \<Rightarrow> nat option \<Rightarrow> nat \<Rightarrow> f64 \<Rightarrow> f64 option" where
  "network_bps F prev now dt =
     (if f64_lt dt (Fin (1 / 2)) then None
      else Option.bind prev (\<lambda>p.
        let bps = fdiv F (of_u64 F (now - p)) dt in if f64_lt (Fin 20000000000) bps then None else Some bps))"

record ProcAgg =
  pa_rss :: nat
  pa_cpu :: f64
  pa_net :: nat

definition no_agg :: ProcAgg where
  "no_agg = \<lparr>pa_rss = 0, pa_cpu = Fin 0, pa_net = 0\<rparr>"

text \<open>The counters of \<open>/proc/<pid>/io\<close>: of several lines with one label the last one counts.\<close>

definition io_counter :: "string \<Rightarrow> string \<Rightarrow> nat" where
  "io_counter label s =
     (case rev (filter_map (strip_prefix label) (str_lines s)) of [] \<Rightarrow> 0 | v # _ \<Rightarrow> opt_default 0 (parse_unsigned u64_max (trim v)))"

definition io_net :: "string \<Rightarrow> nat" where
  "io_net s = min u64_max ((io_counter ''rchar:'' s - io_counter ''read_bytes:'' s) + (io_counter ''wchar:'' s - io_counter ''write_bytes:'' s))"

definition field_at :: "string list \<Rightarrow> nat \<Rightarrow> string option" where
  "field_at fs i = (if i < length fs then Some (fs ! i) else None)"

text \<open>One process: its group and its figures; \<open>parse_f\<close> parses a number.\<close>

definition proc_figures :: "float_ops \<Rightarrow> (string \<Rightarrow> f64 option) \<Rightarrow> string \<Rightarrow> string option \<Rightarrow> (nat \<times> ProcAgg) option" where
  "proc_figures F parse_f stat io' =
     Option.bind (rsplit_once (CHR '')'') stat) (\<lambda>(_, r).
       let fields = split_whitespace r;
           num = (\<lambda>i. opt_default (Fin 0) (Option.bind (field_at fields i) parse_f));
           pages = opt_default 0 (Option.bind (field_at fields 21) (parse_unsigned u64_max))
       in map_option (\<lambda>pgrp. (pgrp, \<lparr>pa_rss = min u64_max (pages * 4096), pa_cpu = fdiv F (fadd F (num 11) (num 12)) (Fin 100),
                                       pa_net = (case io' of None \<Rightarrow> 0 | Some s \<Rightarrow> io_net s)\<rparr>))
            (Option.bind (field_at fields 2) (parse_unsigned u32_max)))"

definition add_agg :: "float_ops \<Rightarrow> nat \<Rightarrow> ProcAgg \<Rightarrow> (nat \<rightharpoonup> ProcAgg) \<Rightarrow> (nat \<rightharpoonup> ProcAgg)" where
  "add_agg F k x m =
     (let old = opt_default no_agg (m k)
      in m(k \<mapsto> \<lparr>pa_rss = min u64_max (pa_rss old + pa_rss x), pa_cpu = fadd F (pa_cpu old) (pa_cpu x), pa_net = min u64_max (pa_net old + pa_net x)\<rparr>))"

text \<open>A process counts for its group and, if it does not lead it, for itself.\<close>

definition add_process :: "float_ops \<Rightarrow> nat \<times> nat \<times> ProcAgg \<Rightarrow> (nat \<rightharpoonup> ProcAgg) \<Rightarrow> (nat \<rightharpoonup> ProcAgg)" where
  "add_process F = (\<lambda>(pid, pgrp, x) m. let m1 = add_agg F pgrp x m in if pid \<noteq> pgrp then add_agg F pid x m1 else m1)"

definition processes :: "float_ops \<Rightarrow> (string \<Rightarrow> f64 option) \<Rightarrow> (string \<times> string option \<times> string option) list \<Rightarrow> (nat \<times> nat \<times> ProcAgg) list" where
  "processes F parse_f entries =
     filter_map (\<lambda>(n, stat, io'). Option.bind (parse_unsigned u32_max n) (\<lambda>pid. Option.bind stat (\<lambda>s. map_option (Pair pid) (proc_figures F parse_f s io')))) entries"

definition collect_proc_snapshot :: "float_ops \<Rightarrow> (string \<Rightarrow> f64 option) \<Rightarrow> (string \<times> string option \<times> string option) list \<Rightarrow> (nat \<rightharpoonup> ProcAgg)" where
  "collect_proc_snapshot F parse_f entries = fold (add_process F) (processes F parse_f entries) Map.empty"

text \<open>The cached snapshot with its time in milliseconds.\<close>

definition cached_proc_snapshot :: "nat \<Rightarrow> (nat \<rightharpoonup> ProcAgg) \<Rightarrow> (nat \<times> (nat \<rightharpoonup> ProcAgg)) option \<Rightarrow> nat \<times> (nat \<rightharpoonup> ProcAgg)" where
  "cached_proc_snapshot now fresh slot =
     (case slot of None \<Rightarrow> (now, fresh) | Some (taken, m) \<Rightarrow> if now - taken \<ge> 1500 then (now, fresh) else (taken, m))"

definition proc_group_net_bytes :: "(nat \<rightharpoonup> ProcAgg) \<Rightarrow> nat \<Rightarrow> nat option" where
  "proc_group_net_bytes m pgid = map_option pa_net (m pgid)"

definition proc_group_usage :: "(nat \<rightharpoonup> ProcAgg) \<Rightarrow> nat \<Rightarrow> (nat \<times> f64) option" where
  "proc_group_usage m pgid =
     Option.bind (m pgid) (\<lambda>x. if pa_rss x = 0 \<and> pa_cpu x = Fin 0 then None else Some (max (pa_rss x) 1, pa_cpu x))"

text \<open>The figures of the process itself; the product wraps around.\<close>

definition read_proc_stat :: "float_ops \<Rightarrow> (string \<Rightarrow> f64 option) \<Rightarrow> string option \<Rightarrow> string option \<Rightarrow> (nat \<times> f64) option" where
  "read_proc_stat F parse_f status stat =
     Option.bind status (\<lambda>st.
     Option.bind (head_opt (filter_map (\<lambda>l. Option.bind (strip_prefix ''VmRSS:'' l) (\<lambda>v. Option.bind (head_opt (split_whitespace v)) (parse_unsigned u64_max))) (str_lines st))) (\<lambda>kb.
     Option.bind stat (\<lambda>s.
     Option.bind (rsplit_once (CHR '')'') s) (\<lambda>(_, r).
       let fields = split_whitespace r in
       Option.bind (Option.bind (field_at fields 11) parse_f) (\<lambda>u.
       Option.bind (Option.bind (field_at fields 12) parse_f) (\<lambda>t.
         Some (kb * 1024 mod 2 ^ 64, fdiv F (fadd F u t) (Fin 100))))))))"

section \<open>Laws\<close>

text \<open>A scope writes only below its own directory, and only the limits that are set.\<close>

lemma create_scope_inside:
  assumes "create_scope F v2 mkdir base job rid mem cpu = Some (path, writes)"
  shows "path = scope_path base job rid \<and> set (map fst writes) \<subseteq> {path_join path ''memory.max'', path_join path ''cpu.max''}
    \<and> (mem = None \<and> cpu = None \<longrightarrow> writes = [])"
  using assms by (auto simp: create_scope_def Let_def split: if_splits option.splits)

text \<open>The directory of the scope of a valid job is a child of the base.\<close>

lemma scope_name_plain:
  assumes "job_name_ok job" and "CHR ''/'' \<notin> set rid"
  shows "CHR ''/'' \<notin> set (job @ ''-'' @ take 8 rid)"
  using assms set_take_subset [of 8 rid] by (auto simp: job_name_ok_def)

text \<open>A limit that is not a number, negative or too small is written as 0, which is no valid quota; the error of the write is ignored.\<close>

lemma cpu_max_zero:
  "create_scope exact_ops True (\<lambda>_. True) base job rid None (Some (Fin (- 1))) = Some (path, [(p, s)]) \<Longrightarrow> s = ''0 100000''"
proof -
  have "show_nat 0 = ''0''" by code_simp
  then show "create_scope exact_ops True (\<lambda>_. True) base job rid None (Some (Fin (- 1))) = Some (path, [(p, s)]) \<Longrightarrow> s = ''0 100000''"
    by (auto simp: create_scope_def exact_ops_def Let_def)
qed

subsection \<open>Groups of processes\<close>

text \<open>The memory of a group is the sum over its processes, and the process with that identifier if it belongs to another group, up to saturation; so is its traffic.\<close>

definition counts_for :: "nat \<Rightarrow> nat \<times> nat \<times> ProcAgg \<Rightarrow> bool" where
  "counts_for k = (\<lambda>(pid, pgrp, _). k = pgrp \<or> k = pid)"

lemma add_process_at:
  "pa_rss (opt_default no_agg (add_process F p m k)) = (if counts_for k p then min u64_max (pa_rss (opt_default no_agg (m k)) + pa_rss (snd (snd p))) else pa_rss (opt_default no_agg (m k)))"
  "pa_net (opt_default no_agg (add_process F p m k)) = (if counts_for k p then min u64_max (pa_net (opt_default no_agg (m k)) + pa_net (snd (snd p))) else pa_net (opt_default no_agg (m k)))"
  by (cases p; auto simp: add_process_def add_agg_def counts_for_def Let_def)+

lemma saturated_sum: "min c (min c (a + b) + s) = min c (a + (b + s :: nat))"
  by arith

lemma group_figures_from:
  assumes "pa_rss (opt_default no_agg (m k)) \<le> u64_max" and "pa_net (opt_default no_agg (m k)) \<le> u64_max"
  shows "pa_rss (opt_default no_agg (fold (add_process F) ps m k))
      = min u64_max (pa_rss (opt_default no_agg (m k)) + sum_list (map (pa_rss \<circ> snd \<circ> snd) (filter (counts_for k) ps)))"
    and "pa_net (opt_default no_agg (fold (add_process F) ps m k))
      = min u64_max (pa_net (opt_default no_agg (m k)) + sum_list (map (pa_net \<circ> snd \<circ> snd) (filter (counts_for k) ps)))"
  using assms by (induction ps arbitrary: m) (simp_all add: add_process_at saturated_sum)

lemma group_figures:
  assumes "ps = processes F parse_f entries"
  shows "pa_rss (opt_default no_agg (collect_proc_snapshot F parse_f entries k)) = min u64_max (sum_list (map (pa_rss \<circ> snd \<circ> snd) (filter (counts_for k) ps)))"
    and "pa_net (opt_default no_agg (collect_proc_snapshot F parse_f entries k)) = min u64_max (sum_list (map (pa_net \<circ> snd \<circ> snd) (filter (counts_for k) ps)))"
  using group_figures_from [of Map.empty k F ps] by (simp_all add: assms collect_proc_snapshot_def no_agg_def)

end
