(* ===== verification/Command_Line.thy ===== *)
theory Command_Line
  imports Config_Resolve Config_Jobfile Executor
begin

text \<open>
  The command line (\<open>cli/src/main.rs\<close>), the files through which it reaches a daemon (\<open>config/src/lib.rs\<close>) and the control directory of the engine (\<open>engine/src/engine.rs\<close>).
  What is printed is left out; the calls of the manager's API, signals and the file system are arguments.
\<close>

section \<open>Definitions\<close>

subsection \<open>Files of a daemon\<close>

definition runtime_dir :: "(string \<Rightarrow> string option) \<Rightarrow> string" where
  "runtime_dir vars = (case vars ''SYNORA_RUNTIME_DIR'' of Some p \<Rightarrow> if trim p \<noteq> [] then p else ''/run/synora'' | None \<Rightarrow> ''/run/synora'')"

definition pid_path :: "(string \<Rightarrow> string option) \<Rightarrow> string \<Rightarrow> string" where
  "pid_path vars component = path_join (runtime_dir vars) (component @ ''.pid'')"

text \<open>The text that a daemon writes, and reading it back.\<close>

definition pid_text :: "nat \<Rightarrow> string" where
  "pid_text pid = show_nat pid @ [CHR 0x0A]"

definition read_pid_file :: "(string \<Rightarrow> string option) \<Rightarrow> (string \<Rightarrow> string option) \<Rightarrow> string \<Rightarrow> string + int" where
  "read_pid_file vars files component =
     (let path = pid_path vars component in
      case files path of
        None \<Rightarrow> Err (''cannot read '' @ path)
      | Some s \<Rightarrow> (case parse_i64 (trim s) of
                     Some i \<Rightarrow> if - (2 ^ 31) \<le> i \<and> i < 2 ^ 31 then Ok i else Err (''bad pid file '' @ path)
                   | None \<Rightarrow> Err (''bad pid file '' @ path)))"

text \<open>The process that gets the signal: the manager, otherwise the standalone daemon; on failure the last error.\<close>

definition sighup_runtime_pid :: "(string \<Rightarrow> string option) \<Rightarrow> (string \<Rightarrow> string option) \<Rightarrow> string + int" where
  "sighup_runtime_pid vars files =
     (case read_pid_file vars files ''manager'' of Inr pid \<Rightarrow> Ok pid | Inl _ \<Rightarrow> read_pid_file vars files ''synora'')"

subsection \<open>Configuration\<close>

definition config_candidates :: "string list" where
  "config_candidates = [''synora.toml'', ''config/synora.toml'', ''/etc/synora/synora.toml'']"

definition find_cli_config :: "(string \<Rightarrow> bool) \<Rightarrow> string option \<Rightarrow> string + string" where
  "find_cli_config exists' explicit =
     (case explicit of
        Some p \<Rightarrow> if exists' p then Ok p else Err (''config file not found: '' @ p)
      | None \<Rightarrow> (case find exists' config_candidates of
                   Some p \<Rightarrow> Ok p
                 | None \<Rightarrow> Err ''no config file found (looked for synora.toml, config/synora.toml; use -c PATH)''))"

definition cli_overrides :: "string option \<Rightarrow> CliOverrides" where
  "cli_overrides db =
     \<lparr>ov_db_kind = None, ov_db_path = (case db of Some s \<Rightarrow> if contains_str ''://'' s then None else Some s | None \<Rightarrow> None),
      ov_db_url = (case db of Some s \<Rightarrow> if contains_str ''://'' s then Some s else None | None \<Rightarrow> None), ov_api_listen = None\<rparr>"

definition replace_first :: "string \<Rightarrow> string \<Rightarrow> string \<Rightarrow> string" where
  "replace_first p r s = (case find_str p s of None \<Rightarrow> s | Some i \<Rightarrow> take i s @ r @ drop (i + length p) s)"

definition manager_url_from_listen :: "string \<Rightarrow> string" where
  "manager_url_from_listen listen =
     (let u = replace_first '':::'' ''127.0.0.1:'' (replace_first ''[::]:'' ''127.0.0.1:'' (replace_first ''0.0.0.0:'' ''127.0.0.1:'' listen))
      in if starts_with ''http://'' u \<or> starts_with ''https://'' u then u else ''http://'' @ u)"

text \<open>\<open>api\<close> is the outcome of finding and loading the section of the API; it is needed unless both options are given.\<close>

definition manager_creds :: "string + ApiConfig \<Rightarrow> string option \<Rightarrow> string option \<Rightarrow> string + string \<times> string" where
  "manager_creds api manager' token =
     (case (manager', token) of
        (Some u, Some t) \<Rightarrow> Ok (u, t)
      | _ \<Rightarrow> and_then api (\<lambda>a.
          let url = opt_default (manager_url_from_listen (api_listen a)) manager' in
          case token of
            Some t \<Rightarrow> Ok (url, t)
          | None \<Rightarrow> (case api_tokens a of
                       t # _ \<Rightarrow> Ok (url, tok_token t)
                     | [] \<Rightarrow> Err ''no api token configured (set one in [api.tokens] or pass --token)'')))"

subsection \<open>Commands\<close>

definition valid_job_name :: "string \<Rightarrow> bool" where
  "valid_job_name job \<longleftrightarrow> job \<noteq> [] \<and> \<not> starts_with ''.'' job \<and> \<not> list_ex (\<lambda>c. c = [] \<or> c = ''..'' \<or> c = ''.'') (split_char (CHR ''/'') job)"

datatype ApiError = HttpError string | Rejected string

fun api_error_text :: "ApiError \<Rightarrow> string" where
  "api_error_text (HttpError m) = ''HTTP error: '' @ m"
| "api_error_text (Rejected m) = ''manager rejected the request: '' @ m"

text \<open>A client for an address and a token, whose making may fail, and then the call \<open>call\<close> of the API.\<close>

type_synonym 'r api_call = "string \<times> string \<Rightarrow> ApiError + (ApiError + 'r)"

definition with_client :: "'r api_call \<Rightarrow> string \<times> string \<Rightarrow> (ApiError + 'r \<Rightarrow> string + 'a) \<Rightarrow> string + 'a" where
  "with_client call creds k = (case call creds of Inl e \<Rightarrow> Err (api_error_text e) | Inr r \<Rightarrow> k r)"

text \<open>The derived debug text of a status.\<close>

fun status_debug :: "JobStatus \<Rightarrow> string" where
  "status_debug Pending = ''Pending''"
| "status_debug Scheduled = ''Scheduled''"
| "status_debug Queued = ''Queued''"
| "status_debug Syncing = ''Syncing''"
| "status_debug Running = ''Running''"
| "status_debug Success = ''Success''"
| "status_debug SuccessWithWarnings = ''SuccessWithWarnings''"
| "status_debug Failed = ''Failed''"
| "status_debug Retrying = ''Retrying''"
| "status_debug Cancelling = ''Cancelling''"
| "status_debug Cancelled = ''Cancelled''"
| "status_debug Lost = ''Lost''"
| "status_debug Skipped = ''Skipped''"

text \<open>A run through the manager where there is one, with the identifier of the run; otherwise in this process.\<close>

definition cmd_run :: "string + string \<times> string \<Rightarrow> string api_call \<Rightarrow> string + JobStatus \<Rightarrow> string \<Rightarrow> string + string option" where
  "cmd_run creds trigger outcome job =
     (case creds of
        Inr (url, token) \<Rightarrow> with_client trigger (url, token) (\<lambda>r. case r of
            Inr rid \<Rightarrow> Ok (Some rid)
          | Inl e \<Rightarrow> Err (''manager at '' @ url @ '' rejected run `'' @ job @ ''`: '' @ api_error_text e))
      | Inl _ \<Rightarrow> and_then outcome (\<lambda>s.
          if s = Success \<or> s = SuccessWithWarnings then Ok None
          else Err (''job `'' @ job @ ''` finished with status '' @ status_debug s)))"

text \<open>The files of the configuration change first, and an error there is only printed; then the manager forgets the job.\<close>

definition cmd_delete_job ::
  "(string \<Rightarrow> string option) \<Rightarrow> (string + string list) \<Rightarrow> string + string \<Rightarrow> string + string \<times> string \<Rightarrow> unit api_call \<Rightarrow> string
   \<Rightarrow> (string \<times> string) list \<Rightarrow> (string + unit) \<times> (string \<times> string) list" where
  "cmd_delete_job fails found cfg creds purge job files =
     (if \<not> valid_job_name job then (Err (''invalid job name `'' @ job @ ''`''), files)
      else case cfg of
        Inl e \<Rightarrow> (Err e, files)
      | Inr path \<Rightarrow>
          (let files' = snd (remove_job_block fails found path job files) in
           (and_then creds (\<lambda>c. with_client purge c (\<lambda>r. case r of
                Inr _ \<Rightarrow> Ok ()
              | Inl e \<Rightarrow> Err (''config updated but manager purge failed: '' @ api_error_text e @ '' (is synora-manager running?)''))),
            files')))"

text \<open>The control file that is written, if any; \<open>put\<close> creates the directory and the file.\<close>

definition cmd_stop ::
  "string + string \<times> string \<Rightarrow> unit api_call \<Rightarrow> string + string \<Rightarrow> (string \<Rightarrow> string + unit) \<Rightarrow> string \<Rightarrow> string + string option" where
  "cmd_stop creds stop log_dir put job =
     (if \<not> valid_job_name job then Err (''invalid job name `'' @ job @ ''`'')
      else case creds of
        Inr (url, token) \<Rightarrow> with_client stop (url, token) (\<lambda>r. case r of
            Inr _ \<Rightarrow> Ok None
          | Inl e \<Rightarrow> Err (''manager at '' @ url @ '' rejected stop `'' @ job @ ''`: '' @ api_error_text e))
      | Inl _ \<Rightarrow> and_then log_dir (\<lambda>dir.
          let p = path_join (path_join dir ''control'') (''stop-'' @ job) in and_then (put p) (\<lambda>_. Ok (Some p))))"

definition cmd_logs :: "nat \<Rightarrow> string \<Rightarrow> string list" where
  "cmd_logs lines content = (let all = str_lines content in drop (length all - lines) all)"

text \<open>The jobs of a group run in order; an error ends the loop, a failed job does not. \<open>run\<close> is \<open>run_once\<close>, \<open>begin_engine\<close> the making of the engine.\<close>

fun group_loop :: "(string \<Rightarrow> 'w \<Rightarrow> (string + JobStatus) \<times> 'w) \<Rightarrow> string list \<Rightarrow> nat \<Rightarrow> 'w \<Rightarrow> (string + nat) \<times> 'w" where
  "group_loop run [] failed w = (Ok failed, w)"
| "group_loop run (j # js) failed w =
     (case run j w of
        (Inl e, w1) \<Rightarrow> (Err e, w1)
      | (Inr s, w1) \<Rightarrow> group_loop run js (if is_success s then failed else failed + 1) w1)"

definition cmd_run_group :: "('w \<Rightarrow> (string + unit) \<times> 'w) \<Rightarrow> (string \<Rightarrow> 'w \<Rightarrow> (string + JobStatus) \<times> 'w) \<Rightarrow> (string \<times> string list) list \<Rightarrow> string \<Rightarrow> 'w \<Rightarrow> (string + unit) \<times> 'w" where
  "cmd_run_group begin_engine run groups g w =
     (case map_of groups g of
        None \<Rightarrow> (Err (''no group `'' @ g @ ''` in config (define [groups.'' @ g @ ''])''), w)
      | Some [] \<Rightarrow> (Err (''group `'' @ g @ ''` has no jobs''), w)
      | Some jobs \<Rightarrow>
          (case begin_engine w of
             (Inl e, w0) \<Rightarrow> (Err e, w0)
           | (Inr _, w0) \<Rightarrow>
          (case group_loop run jobs 0 w0 of
             (Inl e, w1) \<Rightarrow> (Err e, w1)
           | (Inr failed, w1) \<Rightarrow>
               (if failed > 0 then Err (show_nat failed @ ''/'' @ show_nat (length jobs) @ '' job(s) in group `'' @ g @ ''` failed'') else Ok (), w1))))"

definition run_finished :: "JobStatus \<Rightarrow> bool" where
  "run_finished s \<longleftrightarrow> s \<in> {Success, SuccessWithWarnings, Failed, Cancelled, Lost, Skipped}"

definition delete_proxy_text :: "string \<Rightarrow> string \<Rightarrow> string option" where
  "delete_proxy_text n s =
     (case find_str (''[proxy.'' @ n @ '']'') s of
        None \<Rightarrow> None
      | Some start \<Rightarrow>
          (let end' = (case find_str [CHR 0x0A, CHR ''[''] (drop start s) of Some i \<Rightarrow> start + i | None \<Rightarrow> length s)
           in Some (take start s @ drop end' s)))"

definition cmd_delete_proxy :: "string \<Rightarrow> string \<Rightarrow> string + string \<Rightarrow> string + string" where
  "cmd_delete_proxy path n content =
     and_then content (\<lambda>s. case delete_proxy_text n s of None \<Rightarrow> Err (''proxy `'' @ n @ ''` not found in '' @ path) | Some s' \<Rightarrow> Ok s')"

definition snapshot_provider_for_job :: "JobSpec list \<Rightarrow> StorageConfig list \<Rightarrow> string \<Rightarrow> string + snap_provider \<times> JobSpec" where
  "snapshot_provider_for_job jobs storages n =
     (case find (\<lambda>j. name j = n) jobs of
        None \<Rightarrow> Err (''no job `'' @ n @ ''` in config'')
      | Some job \<Rightarrow>
          (case find (\<lambda>sc. case mountpoint sc of Some m \<Rightarrow> path_eq m (storage job) | None \<Rightarrow> False) storages of
             None \<Rightarrow> Err (''job `'' @ n @ ''` has no snapshot-capable storage section'')
           | Some sc \<Rightarrow> (case provider_for (st_kind sc) of Inl _ \<Rightarrow> Err ''snapshot unsupported'' | Inr p \<Rightarrow> Ok (p, job))))"

text \<open>A rollback only to a snapshot that is listed; \<open>rollback\<close> is the one of the provider.\<close>

definition cmd_snapshot_rollback ::
  "('w, string, SnapshotInfo list) io \<Rightarrow> (string \<Rightarrow> ('w, string, unit) io) \<Rightarrow> string \<Rightarrow> string \<Rightarrow> ('w, string, unit) io" where
  "cmd_snapshot_rollback listing rollback job snap =
     io_bind listing (\<lambda>snaps.
       if list_ex (\<lambda>s. si_name s = snap) snaps then rollback snap
       else io_err (''no snapshot `'' @ snap @ ''` for job `'' @ job @ ''`''))"

text \<open>A reload over the API, otherwise by a signal; a rejected configuration is not tried again.\<close>

definition cmd_reload :: "string + string \<times> string \<Rightarrow> nat api_call \<Rightarrow> string + int \<Rightarrow> string + (nat + int)" where
  "cmd_reload creds ask hup =
     (let try_signal = (\<lambda>errors. case hup of Inr pid \<Rightarrow> Ok (Inr pid) | Inl e \<Rightarrow> Err (join_with ''; '' (errors @ [e]))) in
      case creds of
        Inl e \<Rightarrow> try_signal [e]
      | Inr (url, token) \<Rightarrow> with_client ask (url, token) (\<lambda>r. case r of
            Inr n \<Rightarrow> Ok (Inl n)
          | Inl (Rejected m) \<Rightarrow> Err (''manager '' @ url @ '': '' @ api_error_text (Rejected m))
          | Inl (HttpError m) \<Rightarrow> try_signal [''manager '' @ url @ '': '' @ api_error_text (HttpError m)]))"

subsection \<open>The control directory\<close>

text \<open>The names in the directory and the engine; the files that stay are the first result.\<close>

fun process_control_dir :: "string list \<Rightarrow> engine \<Rightarrow> string list \<times> engine" where
  "process_control_dir [] e = ([], e)"
| "process_control_dir (f # fs) e =
     (case strip_prefix ''stop-'' f of
        None \<Rightarrow> (let (rest, e') = process_control_dir fs e in (f # rest, e'))
      | Some job \<Rightarrow>
          (case stop_job job e of
             (Inr _, e1) \<Rightarrow> process_control_dir fs e1
           | (Inl _, e1) \<Rightarrow> (let (rest, e') = process_control_dir fs e1 in (f # rest, e'))))"

section \<open>Laws\<close>

text \<open>A daemon's process identifier is read back.\<close>

lemma trim_line: "s \<noteq> [] \<Longrightarrow> list_all (\<lambda>c. \<not> is_ws c) s \<Longrightarrow> trim (s @ [CHR 0x0A]) = s"
proof -
  assume s: "s \<noteq> []" "list_all (\<lambda>c. \<not> is_ws c) s"
  then have "dropWhile is_ws (s @ [CHR 0x0A]) = s @ [CHR 0x0A]" by (cases s) auto
  moreover have "is_ws (CHR 0x0A)" by code_simp
  moreover have "dropWhile is_ws (rev s) = rev s" using s by (cases s rule: rev_cases) auto
  ultimately show ?thesis by (simp add: trim_def)
qed

lemma pid_roundtrip:
  assumes "pid < 2 ^ 31" and "files (pid_path vars c) = Some (pid_text pid)"
  shows "read_pid_file vars files c = Inr (int pid)"
proof -
  have digits: "list_all is_digit (show_nat pid)" "show_nat pid \<noteq> []" using show_nat_digits by blast+
  have "\<not> is_ws c" if "is_digit c" for c using that by (auto simp: is_digit_def is_ws_def)
  with digits have "trim (pid_text pid) = show_nat pid" unfolding pid_text_def by (intro trim_line) (auto simp: list_all_iff)
  moreover have "parse_i64 (show_nat pid) = Some (int pid)"
    using parse_i64_digits [OF digits] assms(1) by (simp add: digits_val_show_nat)
  ultimately show ?thesis using assms by (simp add: read_pid_file_def)
qed

text \<open>A stop for a job that does not run stays in the directory and cancels the next run of the job.\<close>

lemma stale_stop_cancels_next:
  assumes "run_tokens e job = None"
  shows "process_control_dir [''stop-'' @ job] e = ([''stop-'' @ job], e)
    \<and> run_tokens (snd (process_control_dir [''stop-'' @ job] (register_run job e))) job = Some True"
  using assms by (simp add: stop_job_def register_run_def strip_prefix_def)

text \<open>Of the engine only cancellation marks of running jobs change.\<close>

lemma process_control_dir_only_stops:
  assumes "process_control_dir fs e = (rest, e')"
  shows "set rest \<subseteq> set fs \<and> e' = e\<lparr>run_tokens := run_tokens e'\<rparr>
    \<and> (run_tokens e' job = run_tokens e job \<or> run_tokens e' job = Some True \<and> run_tokens e job \<noteq> None \<and> ''stop-'' @ job \<in> set fs)"
  using assms
proof (induction fs arbitrary: e rest)
  case (Cons f fs)
  show ?case
  proof (cases "\<exists>j. strip_prefix ''stop-'' f = Some j \<and> run_tokens e j \<noteq> None")
    case False
    then have "\<exists>rest'. process_control_dir fs e = (rest', e') \<and> rest = f # rest'"
      using Cons.prems by (auto simp: stop_job_def split: option.splits prod.splits)
    then obtain rest' where "process_control_dir fs e = (rest', e')" "rest = f # rest'" by blast
    with Cons.IH [of e rest'] show ?thesis by (simp only: list.set subset_insertI2 insert_subset insert_iff simp_thms) blast
  next
    case True
    then obtain j where j: "strip_prefix ''stop-'' f = Some j" "run_tokens e j \<noteq> None" by blast
    let ?e1 = "e\<lparr>run_tokens := (run_tokens e)(j \<mapsto> True)\<rparr>"
    have f: "f = ''stop-'' @ j" using j(1) by (auto simp: strip_prefix_def prefix_def split: if_splits)
    have "process_control_dir fs ?e1 = (rest, e')" using Cons.prems j by (auto simp: stop_job_def)
    from Cons.IH [OF this] have ih: "set rest \<subseteq> set fs" "e' = ?e1\<lparr>run_tokens := run_tokens e'\<rparr>"
      "run_tokens e' job = run_tokens ?e1 job \<or> run_tokens e' job = Some True \<and> run_tokens ?e1 job \<noteq> None \<and> ''stop-'' @ job \<in> set fs" by blast+
    from ih(2) have "e' = e\<lparr>run_tokens := run_tokens e'\<rparr>" by simp
    with ih(1,3) j(2) f show ?thesis by (cases "job = j") auto
  qed
qed simp

text \<open>Removing the section of a proxy leaves its tables: the proxy stays, with an empty address.\<close>

lemma delete_proxy_keeps_tables:
  "delete_proxy_text ''a'' (''[proxy.a]'' @ [CHR 0x0A] @ ''url = 1'' @ [CHR 0x0A] @ ''[proxy.a.env]'' @ [CHR 0x0A] @ ''X = 1'')
     = Some ([CHR 0x0A] @ ''[proxy.a.env]'' @ [CHR 0x0A] @ ''X = 1'')"
  by code_simp

lemma drop_head_mem:
  assumes "k < length m" and "drop k (m @ r) = x # xs"
  shows "x \<in> set m"
proof -
  have "(m @ r) ! k = x" using assms hd_drop_conv_nth [of k "m @ r"] by simp
  with assms(1) have "m ! k = x" by (simp add: nth_append)
  with assms(1) show ?thesis by (metis nth_mem)
qed

lemma cut_between:
  assumes i: "find_str m s = Some i" and m: "x \<notin> set m"
    and s': "s' = take i s @ drop (case find_str (x # xs) (drop i s) of Some k \<Rightarrow> i + k | None \<Rightarrow> length s) s"
  shows "\<exists>a b c. s = a @ m @ b @ c \<and> s' = a @ c \<and> (c = [] \<or> prefix (x # xs) c)"
proof -
  from find_str_SomeD [OF i] obtain r where r: "drop i s = m @ r" by (auto simp: prefix_def)
  have s: "s = take i s @ m @ r" using append_take_drop_id [of i s] r by simp
  show ?thesis
  proof (cases "find_str (x # xs) (drop i s)")
    case None
    with s' have "s' = take i s @ []" by simp
    moreover have "s = take i s @ m @ r @ []" using s by simp
    ultimately show ?thesis by blast
  next
    case (Some k)
    from find_str_SomeD [OF Some] obtain t where t: "drop k (m @ r) = (x # xs) @ t" by (auto simp: r prefix_def)
    have "length m \<le> k" using drop_head_mem [of k m r x "xs @ t"] t m by fastforce
    then have c: "drop (k - length m) r = (x # xs) @ t" using t by simp
    have "drop (i + k) s = drop k (drop i s)" by (simp add: add.commute)
    then have "s' = take i s @ drop (k - length m) r" using s' Some r t c by simp
    moreover have "s = take i s @ m @ take (k - length m) r @ drop (k - length m) r" using s by simp
    moreover have "prefix (x # xs) (drop (k - length m) r)" unfolding c by simp
    ultimately show ?thesis by blast
  qed
qed

text \<open>The rest of the file stays as it is.\<close>

lemma delete_proxy_cuts:
  assumes "delete_proxy_text n s = Some s'" and "CHR 0x0A \<notin> set n"
  shows "\<exists>a b c. s = a @ (''[proxy.'' @ n @ '']'') @ b @ c \<and> s' = a @ c \<and> (c = [] \<or> prefix [CHR 0x0A, CHR ''[''] c)"
proof -
  from assms(1) obtain i where "find_str (''[proxy.'' @ n @ '']'') s = Some i"
    "s' = take i s @ drop (case find_str [CHR 0x0A, CHR ''[''] (drop i s) of Some k \<Rightarrow> i + k | None \<Rightarrow> length s) s"
    unfolding delete_proxy_text_def Let_def option.case_eq_if by (metis option.collapse option.inject option.distinct(1))
  with assms(2) show ?thesis by (intro cut_between) simp_all
qed

text \<open>Wildcard addresses become the loopback address, but an address may only end like one.\<close>

lemma manager_urls:
  "manager_url_from_listen ''0.0.0.0:9290'' = ''http://127.0.0.1:9290''" "manager_url_from_listen ''[::]:9290'' = ''http://127.0.0.1:9290''"
  "manager_url_from_listen ''10.0.0.0:80'' = ''http://1127.0.0.1:80''"
  by code_simp+

text \<open>A rollback runs only for a snapshot that the listing has.\<close>

lemma rollback_listed:
  assumes "cmd_snapshot_rollback listing rollback job snap w = (Inr (), w')"
  shows "\<exists>snaps w1. listing w = (Inr snaps, w1) \<and> snap \<in> si_name ` set snaps \<and> rollback snap w1 = (Inr (), w')"
  using assms by (auto simp: cmd_snapshot_rollback_def io_bind_Inr io_err_def list_ex_iff split: if_splits)

text \<open>A group succeeds only if every job of it ran with success.\<close>

lemma group_loop_mono: "group_loop run js n w = (Inr k, w') \<Longrightarrow> n \<le> k"
  by (induction js arbitrary: n w) (fastforce split: prod.splits sum.splits if_splits)+

lemma group_loop_success:
  assumes "group_loop run js n w = (Inr n, w')" and "j \<in> set js"
  shows "\<exists>w1 s w2. run j w1 = (Inr s, w2) \<and> is_success s"
  using assms
proof (induction js arbitrary: w)
  case (Cons a js)
  from Cons.prems(1) obtain s w1 where a: "run a w = (Inr s, w1)" and
    rest: "group_loop run js (if is_success s then n else n + 1) w1 = (Inr n, w')"
    by (simp split: prod.splits sum.splits)
  from group_loop_mono [OF rest] have s: "is_success s" by (simp split: if_splits)
  with rest have "group_loop run js n w1 = (Inr n, w')" by simp
  with Cons.IH Cons.prems(2) a s show ?case by auto
qed simp

lemma group_success:
  assumes "cmd_run_group begin_engine run groups g w = (Inr (), w')"
  shows "\<exists>jobs. map_of groups g = Some jobs \<and> jobs \<noteq> [] \<and> (\<forall>j\<in>set jobs. \<exists>w1 s w2. run j w1 = (Inr s, w2) \<and> is_success s)"
proof -
  from assms obtain jobs w0 where jobs: "map_of groups g = Some jobs" "jobs \<noteq> []" and loop: "group_loop run jobs 0 w0 = (Inr 0, w')"
    unfolding cmd_run_group_def by (auto simp del: group_loop.simps split: option.splits list.splits prod.splits sum.splits if_splits)
  from jobs group_loop_success [OF loop] show ?thesis by blast
qed

text \<open>Where a token is configured, no control file is written, whatever becomes of the manager; a name with a separator passes the check of names.\<close>

lemma stop_over_api_only: "cmd_stop (Inr c) stop log_dir put job \<noteq> Inr (Some p)"
  by (cases c) (auto simp: cmd_stop_def with_client_def split: sum.splits)

lemma separator_is_valid: "valid_job_name ''a/b''" "\<not> valid_job_name ''a/../b''" "\<not> valid_job_name ''/a''"
  by code_simp+

text \<open>A signal is sent only where the manager did not answer: a configuration that it rejected is not tried again.\<close>

lemma reload_signal:
  assumes "cmd_reload creds ask hup = Inr (Inr pid)"
  shows "hup = Inr pid \<and> (case creds of Inl _ \<Rightarrow> True | Inr c \<Rightarrow> \<exists>m. ask c = Inr (Inl (HttpError m)))"
  using assms by (auto simp: cmd_reload_def with_client_def Let_def split: sum.splits ApiError.splits)

text \<open>A job that the manager forgot is also gone from the configuration, or its files could not be changed.\<close>

lemma delete_job_files:
  assumes "cmd_delete_job fails found cfg creds purge job files = (Inr (), files')"
  shows "\<exists>path c. cfg = Inr path \<and> creds = Inr c \<and> purge c = Inr (Inr ()) \<and> files' = snd (remove_job_block fails found path job files)"
proof -
  from assms obtain path where path: "cfg = Inr path" "files' = snd (remove_job_block fails found path job files)"
    by (auto simp: cmd_delete_job_def Let_def split: sum.splits if_splits)
  from path assms obtain c where c: "creds = Inr c"
    by (cases creds) (simp_all add: cmd_delete_job_def Let_def split: if_splits)
  with path assms have "purge c = Inr (Inr ())"
    by (cases "purge c"; cases "projr (purge c)") (simp_all add: cmd_delete_job_def Let_def with_client_def split: if_splits)
  with path c show ?thesis by blast
qed

end
