(* ===== verification/Spec2Isabelle.thy ===== *)
theory Spec2Isabelle
  imports Reaper_Props Worker_Props Provider_Props Netroute Auth_Proxy Config_Props Status_Pages Run_Logs Migrations Resources Command_Line
begin

text \<open>
  A verification development of Synora, a manager of mirror synchronisation jobs.

  \<^bold>\<open>The program.\<close> Jobs are configured in files and run on schedules. The engine dispatches a due job as a run in the
  database; a run is executed by the engine itself or claimed by a worker over the HTTP API of the manager, under a
  lease that the worker's heartbeats renew. The executor prepares storage, takes snapshots, calls a provider (rsync in one or two
  stages, git, a script, a container, or a mirror over HTTP directory listings), through a proxy or a source address if the job names one, judges its result and reports it. The reaper of the manager settles runs whose lease ran out,
  marks silent workers offline and hands queued runs to workers.

  \<^bold>\<open>Theories and sources\<close> (below \<open>src/crates\<close>):
  \<^item> \<open>Prelude\<close>: results, strings, parsing of numbers, lists and association lists as the Rust library has them.
  \<^item> \<open>Cron\<close>, \<open>Schedule\<close>: \<open>synora-core/src/schedule.rs\<close>, the cron parser and matcher, durations, the next run of each schedule kind.
  \<^item> \<open>Job_Model\<close>, \<open>Run_State\<close>: \<open>synora-core/src/job.rs\<close>, \<open>state.rs\<close>, the job specification, the state machine and the retry policy.
  \<^item> \<open>Store\<close>, \<open>Store_Ops\<close>, \<open>Store_Laws\<close>: \<open>db/src/store.rs\<close>, the tables as lists of records, every SQL statement as a
    function to a result and a database, the constraints of the schema checked by \<open>commit\<close>.
  \<^item> \<open>Run_Protocol\<close>, \<open>Timed_Protocol\<close>, \<open>Leases\<close>: the life of a run as step relations over these statements, leases and fencing.
  \<^item> \<open>Metrics\<close>: \<open>synora-core/src/metrics.rs\<close>. \<open>Storage\<close>: \<open>storage/src/lib.rs\<close>. \<open>Snapshot\<close>: \<open>snapshot/src/lib.rs\<close>. \<open>Auth\<close>: \<open>manager/src/auth.rs\<close>.
  \<^item> \<open>Engine\<close>, \<open>Purge\<close>, \<open>Dispatch\<close>: \<open>engine/src/engine.rs\<close>. \<open>Scheduler\<close>, \<open>Tick_Laws\<close>: \<open>engine/src/scheduler.rs\<close>. \<open>Executor\<close>: \<open>engine/src/executor.rs\<close>.
  \<^item> \<open>Manager\<close>, \<open>Manager_Laws\<close>, \<open>Manager_Props\<close>: \<open>manager/src/router.rs\<close>, handlers in a state and error monad, and the router over them.
  \<^item> \<open>Reaper\<close>, \<open>Reaper_Props\<close>: \<open>manager/src/main.rs\<close>.
  \<^item> \<open>Worker\<close>, \<open>Worker_System\<close>, \<open>Worker_Props\<close>: \<open>worker/src/main.rs\<close>, the agent, and manager and workers as one system.
  \<^item> \<open>Status_Pages\<close>: the read-only pages of \<open>manager/src/router.rs\<close>. \<open>Migrations\<close>: \<open>db/src/migrator.rs\<close> and the text of \<open>pg.rs\<close>. \<open>Run_Logs\<close>: \<open>engine/src/logs.rs\<close>.
    \<open>Resources\<close>: \<open>engine/src/cgroup.rs\<close> and the figures of \<open>/proc\<close>.
    \<open>Command_Line\<close>: the commands of \<open>cli/src/main.rs\<close>, the pid files of \<open>config/src/lib.rs\<close> and the control directory of the engine.
  \<^item> \<open>Text_Util\<close>: operations on text that several of the following share.
  \<^item> \<open>Index_Parser\<close>: \<open>nginx/src/lib.rs\<close> and \<open>parser/src/lib.rs\<close>, the five parsers of directory listings.
  \<^item> \<open>Httpfetch\<close>, \<open>Httpfetch_Exec\<close>, \<open>Httpfetch_Laws\<close>, \<open>Httpfetch_Props\<close>: \<open>httpfetch/src/lib.rs\<close>, the plan of a mirror run over concurrent listings, and its execution on the
    files of the mirror.
  \<^item> \<open>Netroute\<close>, \<open>Auth_Proxy\<close>: \<open>netroute/src/lib.rs\<close>, the choice of proxies and egresses, and one connection of the exposed proxy.
  \<^item> \<open>Command_Runner\<close>: \<open>command-runner/src\<close>, bounded output and bounded log files. \<open>Provider_Common\<close>, \<open>Rsync_Provider\<close>, \<open>Docker_Provider\<close>, \<open>Providers\<close>,
    \<open>Provider_Props\<close>: \<open>provider/src\<close>, command lines, the check of container options, output and results, and the dispatch.
  \<^item> \<open>Config_Text\<close>, \<open>Config_Jobfile\<close>, \<open>Config_Job\<close>, \<open>Config_Loader\<close>, \<open>Config_Resolve\<close>, \<open>Config_Props\<close>: \<open>config/src\<close>, the expansion of variables, the removal of a job from its file, the
    checks of a job, includes, merging and the cache of documents, the other sections and the overrides.

  \<^bold>\<open>What is shown.\<close> The statements of the store keep the database constraints and an invariant of runs
  (one active run per job, leases exactly on active runs); completion, retry, renewal and log statements are fenced by
  worker, token, attempt and time. Every handler, the reaper and the scheduler refine the protocol of statements, so its
  invariants hold of the manager as a whole. On top of it, with time, lost messages, crashes and delayed reports, no two
  workers execute runs of one job within their safety margins. Schedules are strictly in the future and cron finds the
  first match; retries are bounded; a success passes every gate; locks exclude each other; pruning keeps what
  the policy keeps; authentication accepts exactly the configured tokens.
  A plan of a mirror covers what the upstream lists and deletes nothing that it lists; paths stay inside the mirror, a download appears as a whole or not at all, and a success
  without warnings means that the mirror is current, also through the HTTP provider. The exposed proxy relays nothing without the credentials and does not pass them on. What Docker reads from the
  command line of a container stays within the permitted options; the second stage of rsync starts only after a complete first stage, which deletes nothing; what a provider reports as
  a success the executor accepts. A configuration that loads is sound: distinct and safe names of jobs, no path to a parent directory, tokens that are long and distinct; its jobs make a provider complain about
  configuration in two cases only. Later documents win key by key, the cache of documents is transparent, and a load stays within its limits. The listing of a page that nginx prints is read back.
  Migrations run once each and in order, a second run changes nothing; a new log leaves the others as they are; the status pages show the end of a real run as the last update.
  The control directory changes only cancellation marks of running jobs; a group of jobs succeeds only if each job does; a rejected configuration is not tried again by a signal.

  \<^bold>\<open>Interfaces.\<close> Locales state what clients rely on: relations that statements keep (\<open>stmt_preorder\<close>), fenced operations
  (\<open>fenced_op\<close>), keyed tables (\<open>keyed_table\<close>), loops over rows (\<open>table_scan\<close>), relations that handlers keep (\<open>io_preorder\<close>),
  step families indexed by the identifiers they draw (\<open>id_steps\<close>), relations that operations on files keep (\<open>file_relation\<close>), relations that loops over fallible steps
  keep (\<open>result_preorder\<close>). Each is interpreted on the definitions of the program.

  \<^bold>\<open>Bounds.\<close> The scan of \<open>cron_next\<close> is bounded by the code's own \<open>MAX_MINUTES\<close>; the recursion over included files counts down the
  code's own \<open>MAX_INCLUDE_DEPTH\<close>; the loop over concurrent listings ends by a multiset order on the work that is left; other loops end by a measure. Where a
  Rust operation panics the model has the value \<open>None\<close> or an error. Integers are \<open>int\<close> or \<open>nat\<close> with the casts written
  out (\<open>u64_as_i64\<close>, \<open>i64_as_i32\<close>); bytes are \<open>8 word\<close>. Floating point is a parameter with the operations that the code uses.

  \<^bold>\<open>Parameters.\<close> The time zone library, identifiers, floating point, the file system, external commands and providers
  are arguments; what a theorem needs of them is a hypothesis that its witness discharges. So are HTTP and XML, the starting and ending of processes, and for the configuration the syntax of TOML with
  its mapping to documents, globs, regular expressions and the parsing of addresses.

  \<^bold>\<open>Not modelled.\<close> The terminal interface (it calls the API and draws), of the command line the parsing of arguments and what is only printed, the conversions of the PostgreSQL driver (the statements are the same),
  the sampling task of the executor, process groups and inherited locks, TLS, signals and accept loops.
\<close>

end
